(* ===== verification/Base.thy ===== *)
theory Base
  imports Main "HOL-Library.Word" "HOL-Library.List_Lexorder" "HOL-Library.Char_ord"
    "HOL-Library.Product_Lexorder" "HOL-Library.Monad_Syntax" "HOL-Library.Option_ord"
begin

text \<open>
  Prelude of the development: the machine integers of the Rust code (\<open>u8\<close>, \<open>u32\<close>,
  \<open>u64\<close>, \<open>u128\<close>) as words, with the saturating operations and the
  narrowing casts the engine uses; loops that may panic as folds in the option monad
  (\<open>None\<close> is a Rust panic: a failed \<open>expect\<close> or a remainder by zero); the decimal
  rendering behind \<open>format!\<close>; and the named collections that carry the component
  proofs.
\<close>

section \<open>Proof collections\<close>

named_theorems sat_simps \<open>saturating arithmetic read as natural numbers\<close>
named_theorems btree_simps \<open>lookups in ordered maps\<close>
named_theorems frame_simps \<open>what an operation leaves alone\<close>
named_theorems mono_append \<open>output buffers that only grow\<close>

section \<open>Machine integers\<close>

type_synonym u8 = "8 word"
type_synonym u32 = "32 word"
type_synonym u64 = "64 word"
type_synonym u128 = "128 word"

text \<open>
  An \<open>i64\<close> is only compared and carried by the code modelled here, never added, so it
  is an \<open>int\<close>. An \<open>f32\<close> or \<open>f64\<close> that is only carried is its IEEE bit pattern.
\<close>

type_synonym i64 = int
type_synonym f32_bits = "32 word"
type_synonym f64_bits = "64 word"

definition sat_add :: "'a::len word \<Rightarrow> 'a word \<Rightarrow> 'a word" where
  "sat_add a b = (if unat a + unat b < 2 ^ LENGTH('a) then a + b else - 1)"

definition sat_sub :: "'a::len word \<Rightarrow> 'a word \<Rightarrow> 'a word" where
  "sat_sub a b = (if b \<le> a then a - b else 0)"

definition sat_mul :: "'a::len word \<Rightarrow> 'a word \<Rightarrow> 'a word" where
  "sat_mul a b = (if unat a * unat b < 2 ^ LENGTH('a) then a * b else - 1)"

lemma unat_minus_one_eq: "unat (- 1 :: 'a::len word) = 2 ^ LENGTH('a) - 1"
  by (simp add: unsigned_minus_1_eq_mask mask_eq_exp_minus_1)

lemma unat_sat_add [sat_simps]:
  "unat (sat_add a b) = min (unat a + unat b) (2 ^ LENGTH('a) - 1)"
  for a b :: "'a::len word"
  by (auto simp: sat_add_def unat_minus_one_eq min_def
      unat_word_ariths(1))

lemma unat_sat_sub [sat_simps]: "unat (sat_sub a b) = unat a - unat b"
  for a b :: "'a::len word"
  by (auto simp: sat_sub_def unat_sub word_le_nat_alt)

lemma unat_sat_mul [sat_simps]:
  "unat (sat_mul a b) = min (unat a * unat b) (2 ^ LENGTH('a) - 1)"
  for a b :: "'a::len word"
proof (cases "unat a * unat b < 2 ^ LENGTH('a)")
  case True
  then have "unat (sat_mul a b) = unat a * unat b"
    by (simp add: sat_mul_def unat_word_ariths(2))
  with True show ?thesis by linarith
next
  case False
  then have "unat (sat_mul a b) = 2 ^ LENGTH('a) - 1"
    unfolding sat_mul_def by (simp only: if_False unat_minus_one_eq)
  with False show ?thesis by linarith
qed

lemma sat_add_exact:
  "unat a + unat b < 2 ^ LENGTH('a) \<Longrightarrow> unat (sat_add a b) = unat a + unat b"
  for a b :: "'a::len word"
  by (simp add: unat_sat_add)

lemma unat_lt: "unat (a :: 'a::len word) < 2 ^ LENGTH('a)"
  by simp

lemma unat_max: "unat (a :: 'a::len word) \<le> 2 ^ LENGTH('a) - 1"
  using unat_lt [of a] by linarith

lemma sat_sub_le: "sat_sub a b \<le> a"
  by (simp add: word_le_nat_alt unat_sat_sub)

lemma le_sat_add: "a \<le> sat_add a b"
  using unat_max [of a] by (simp add: word_le_nat_alt unat_sat_add)

lemma sat_add_zero [simp]: "sat_add a 0 = a"
  by (simp add: sat_add_def)

lemma sat_sub_zero [simp]: "sat_sub a 0 = a"
  by (simp add: sat_sub_def)

lemma unat_min [sat_simps]: "unat (min a b) = min (unat a) (unat b)"
  by (simp add: min_def word_le_nat_alt)

lemma unat_max_word [sat_simps]: "unat (max a b) = max (unat a) (unat b)"
  by (simp add: max_def word_le_nat_alt)

text \<open>Equations that evaluate on the words alone: overflow shows as wrap-around.\<close>

lemma sat_add_code [code]:
  "sat_add (a :: 'a::len word) b = (let s = a + b in if s < a then - 1 else s)"
proof (cases "unat a + unat b < 2 ^ LENGTH('a)")
  case True
  then have "unat (a + b) = unat a + unat b" by (simp add: unat_word_ariths(1))
  with True show ?thesis by (simp add: sat_add_def word_less_nat_alt Let_def)
next
  case False
  have "unat (a + b) = (unat a + unat b) mod 2 ^ LENGTH('a)" by (simp add: unat_word_ariths(1))
  also have "\<dots> = (unat a + unat b - 2 ^ LENGTH('a)) mod 2 ^ LENGTH('a)"
    using False by (intro le_mod_geq) simp
  also have "\<dots> = unat a + unat b - 2 ^ LENGTH('a)"
    using unat_lt [of a] unat_lt [of b] by (intro mod_less) linarith
  finally have "unat (a + b) < unat a"
    using False unat_lt [of b] by linarith
  with False show ?thesis by (simp add: sat_add_def word_less_nat_alt Let_def)
qed

lemma sat_mul_code [code]:
  "sat_mul (a :: 'a::len word) b =
     (if a = 0 then 0 else let s = a * b in if s div a = b then s else - 1)"
proof (cases "a = 0")
  case True
  then show ?thesis by (simp add: sat_mul_def)
next
  case False
  then have a: "0 < unat a" by (simp add: unat_gt_0)
  show ?thesis
  proof (cases "unat a * unat b < 2 ^ LENGTH('a)")
    case True
    then have m: "unat (a * b) = unat a * unat b" by (simp add: unat_word_ariths(2))
    have "unat (a * b div a) = unat b" using a by (simp add: unat_div m)
    then have "a * b div a = b" by (simp add: word_unat_eq_iff)
    with True False show ?thesis by (simp add: sat_mul_def Let_def)
  next
    case over: False
    have "a * b div a \<noteq> b"
    proof
      assume "a * b div a = b"
      then have "unat (a * b) div unat a = unat b" by (metis unat_div)
      then have "unat a * unat b \<le> unat (a * b)" by (metis times_div_less_eq_dividend)
      with over unat_lt [of "a * b"] show False by linarith
    qed
    with over False show ?thesis by (simp add: sat_mul_def Let_def)
  qed
qed

text \<open>Widening keeps the value (\<open>u64::from\<close>), narrowing truncates (\<open>as u32\<close>).\<close>

lemma unat_ucast_up:
  "LENGTH('a) \<le> LENGTH('b) \<Longrightarrow> unat (ucast x :: 'b::len word) = unat x"
  for x :: "'a::len word"
proof -
  assume "LENGTH('a) \<le> LENGTH('b)"
  then have "(2 :: nat) ^ LENGTH('a) \<le> 2 ^ LENGTH('b)" by (intro power_increasing) auto
  with unat_lt [of x] have "unat x < 2 ^ LENGTH('b)" by (rule less_le_trans)
  then show ?thesis by (simp add: unsigned_ucast_eq take_bit_nat_eq_self_iff)
qed

lemma unat_ucast_mod: "unat (ucast x :: 'b::len word) = unat x mod 2 ^ LENGTH('b)"
  for x :: "'a::len word"
  by (simp add: unsigned_ucast_eq take_bit_eq_mod)

text \<open>A remainder by zero panics in Rust; the model returns \<open>None\<close>.\<close>

definition checked_rem :: "'a::len word \<Rightarrow> 'a word \<Rightarrow> 'a word option" where
  "checked_rem a b = (if b = 0 then None else Some (a mod b))"

lemma checked_rem_Some: "b \<noteq> 0 \<Longrightarrow> checked_rem a b = Some (a mod b)"
  by (simp add: checked_rem_def)

section \<open>Decimal rendering\<close>

fun dec_nat :: "nat \<Rightarrow> string" where
  "dec_nat n = (if n < 10 then [char_of (48 + n)]
     else dec_nat (n div 10) @ [char_of (48 + n mod 10)])"

declare dec_nat.simps [simp del]

definition dec :: "'a::len word \<Rightarrow> string" where
  "dec w = dec_nat (unat w)"

section \<open>Loops that may panic\<close>

fun fold_opt :: "('a \<Rightarrow> 's \<Rightarrow> 's option) \<Rightarrow> 'a list \<Rightarrow> 's \<Rightarrow> 's option" where
  "fold_opt f [] s = Some s"
| "fold_opt f (x # xs) s = do { s' \<leftarrow> f x s; fold_opt f xs s' }"

lemma fold_opt_append:
  "fold_opt f (xs @ ys) s = do { s' \<leftarrow> fold_opt f xs s; fold_opt f ys s' }"
  by (induction xs arbitrary: s) (auto split: Option.bind_splits)

text \<open>What each iteration keeps holds after the loop, when the loop returns.\<close>

lemma fold_opt_inv:
  assumes "fold_opt f xs s = Some t" and "P s"
    and "\<And>x u v. x \<in> set xs \<Longrightarrow> P u \<Longrightarrow> f x u = Some v \<Longrightarrow> P v"
  shows "P t"
  using assms
proof (induction xs arbitrary: s)
  case Nil
  then show ?case by simp
next
  case (Cons x xs)
  from Cons.prems(1) obtain v where v: "f x s = Some v" "fold_opt f xs v = Some t"
    by (auto split: Option.bind_splits)
  then have "P v" using Cons.prems(2,3) by (meson list.set_intros(1))
  with v(2) show ?case using Cons.prems(3) by (meson Cons.IH list.set_intros(2))
qed

text \<open>A loop whose every iteration returns under the invariant returns.\<close>

lemma fold_opt_total:
  assumes "P s"
    and "\<And>x u. x \<in> set xs \<Longrightarrow> P u \<Longrightarrow> \<exists>v. f x u = Some v \<and> P v"
  shows "\<exists>t. fold_opt f xs s = Some t \<and> P t"
  using assms
proof (induction xs arbitrary: s)
  case Nil
  then show ?case by simp
next
  case (Cons x xs)
  from Cons.prems obtain v where "f x s = Some v" "P v"
    by (meson list.set_intros(1))
  with Cons.IH [of v] Cons.prems(2) show ?case by simp
qed

lemma fold_inv:
  assumes "P s" and "\<And>x u. x \<in> set xs \<Longrightarrow> P u \<Longrightarrow> P (f x u)"
  shows "P (fold f xs s)"
  using assms by (induction xs arbitrary: s) auto

text \<open>A reflexive and transitive relation that each iteration respects relates the ends.\<close>

lemma fold_opt_rel:
  assumes "fold_opt f xs s = Some t"
    and "\<And>u. R u u" and "\<And>u v w. R u v \<Longrightarrow> R v w \<Longrightarrow> R u w"
    and "\<And>x u v. x \<in> set xs \<Longrightarrow> f x u = Some v \<Longrightarrow> R u v"
  shows "R s t"
  using assms(1,4)
proof (induction xs arbitrary: s)
  case Nil
  then show ?case by (simp add: assms(2))
next
  case (Cons x xs)
  from Cons.prems(1) obtain v where "f x s = Some v" "fold_opt f xs v = Some t"
    by (auto split: Option.bind_splits)
  with Cons show ?case by (meson assms(3) list.set_intros)
qed

lemma fold_rel:
  assumes "\<And>u. R u u" and "\<And>u v w. R u v \<Longrightarrow> R v w \<Longrightarrow> R u w"
    and "\<And>x u. x \<in> set xs \<Longrightarrow> R u (f x u)"
  shows "R s (fold f xs s)"
  using assms(3)
proof (induction xs arbitrary: s)
  case Nil
  then show ?case by (simp add: assms(1))
next
  case (Cons x xs)
  then have "R s (f x s)" "R (f x s) (fold f xs (f x s))" by auto
  then show ?case by (simp add: assms(2) [of s "f x s"])
qed

text \<open>
  A loop over items with distinct keys: the item \<open>x\<close> takes \<open>P\<close> to \<open>R\<close> when its turn comes, the
  others leave both alone.
\<close>

lemma fold_opt_at:
  assumes "fold_opt f xs s = Some t" and "distinct (map key xs)" and "x \<in> set xs" and "P s"
    and other: "\<And>y u v. y \<in> set xs \<Longrightarrow> key y \<noteq> key x \<Longrightarrow> f y u = Some v \<Longrightarrow> P u \<Longrightarrow> P v"
    and hit: "\<And>u v. f x u = Some v \<Longrightarrow> P u \<Longrightarrow> R v"
    and keep: "\<And>y u v. y \<in> set xs \<Longrightarrow> key y \<noteq> key x \<Longrightarrow> f y u = Some v \<Longrightarrow> R u \<Longrightarrow> R v"
  shows "R t"
proof -
  from assms(3) obtain ys zs where xs: "xs = ys @ x # zs" by (meson split_list)
  with assms(1) obtain u v where u: "fold_opt f ys s = Some u" and v: "f x u = Some v"
    and t: "fold_opt f zs v = Some t"
    by (auto simp: fold_opt_append split: Option.bind_splits)
  have ne: "y \<in> set xs \<and> key y \<noteq> key x" if "y \<in> set ys \<or> y \<in> set zs" for y
    using assms(2) that unfolding xs by (auto simp: image_iff)
  have "P u" using u assms(4) by (rule fold_opt_inv) (use other ne in blast)
  then have "R v" using hit v by blast
  with t show "R t" by (rule fold_opt_inv) (use keep ne in blast)
qed

section \<open>Lists\<close>

lemma sum_list_mono_elem: "x \<in> set xs \<Longrightarrow> f x \<le> sum_list (map f xs)"
  for f :: "'a \<Rightarrow> nat"
  by (simp add: member_le_sum_list)

text \<open>\<open>slice.iter().find(|x| x.id == id)\<close>.\<close>

lemma find_Some_iff_id:
  "distinct (map f xs) \<Longrightarrow> x \<in> set xs \<Longrightarrow> find (\<lambda>y. f y = f x) xs = Some x"
  by (induction xs) auto

lemma find_SomeD: "find P xs = Some x \<Longrightarrow> x \<in> set xs \<and> P x"
  by (metis find_Some_iff nth_mem)

end
