(* ===== verification/Btree.thy ===== *)
theory Btree
  imports Base
begin

text \<open>
  Rust's \<open>BTreeMap\<close> as its sorted list of entries, the collection every keyed state of
  the engine uses because its iteration order is part of the determinism contract of
  \<open>world.rs\<close>. The interface the engine relies on (what a lookup returns after an
  insertion or a removal, and that iteration walks the keys in increasing order, once
  each) is the locale \<open>ordered_map\<close>; the interpretation \<open>bt\<close> discharges it for the
  list representation. The operations of the entry API the code uses
  (\<open>entry().or_insert\<close>, \<open>get_mut\<close>, \<open>retain\<close>, \<open>collect\<close>) are defined on top.
\<close>

section \<open>The interface\<close>

locale ordered_map =
  fixes empty :: "'m"
    and lookup :: "'m \<Rightarrow> 'k::linorder \<Rightarrow> 'v option"
    and insert :: "'k \<Rightarrow> 'v \<Rightarrow> 'm \<Rightarrow> 'm"
    and remove :: "'k \<Rightarrow> 'm \<Rightarrow> 'm"
    and keys :: "'m \<Rightarrow> 'k list"
    and invar :: "'m \<Rightarrow> bool"
  assumes lookup_empty: "lookup empty k = None"
    and lookup_insert: "lookup (insert k v m) k' = (if k' = k then Some v else lookup m k')"
    and lookup_remove: "lookup (remove k m) k' = (if k' = k then None else lookup m k')"
    and keys_lookup: "k \<in> set (keys m) \<longleftrightarrow> lookup m k \<noteq> None"
    and keys_sorted: "invar m \<Longrightarrow> sorted_wrt (<) (keys m)"
    and invar_empty: "invar empty"
    and invar_insert: "invar m \<Longrightarrow> invar (insert k v m)"
    and invar_remove: "invar m \<Longrightarrow> invar (remove k m)"
begin

text \<open>
  Iteration order depends on the contents only, not on the order of insertions: the
  fact the determinism contract rests on.
\<close>

lemma keys_determined:
  assumes "invar m" "invar m'" and "\<And>k. lookup m k = None \<longleftrightarrow> lookup m' k = None"
  shows "keys m = keys m'"
proof -
  have "set (keys m) = set (keys m')"
    using assms(3) keys_lookup by blast
  moreover have "sorted_wrt (<) (keys m)" "sorted_wrt (<) (keys m')"
    using assms(1,2) keys_sorted by auto
  ultimately show ?thesis
    by (simp add: strict_sorted_equal)
qed

lemma keys_distinct: "invar m \<Longrightarrow> distinct (keys m)"
  using keys_sorted strict_sorted_iff by blast

lemma keys_insert:
  "set (keys (insert k v m)) = Set.insert k (set (keys m))"
  by (auto simp: keys_lookup lookup_insert split: if_splits)

lemma keys_remove: "set (keys (remove k m)) = set (keys m) - {k}"
  by (auto simp: keys_lookup lookup_remove split: if_splits)

lemma keys_insert_present:
  assumes "invar m" and "lookup m k \<noteq> None"
  shows "keys (insert k v m) = keys m"
  using assms by (intro keys_determined) (auto simp: invar_insert lookup_insert)

lemma insert_commute_keys:
  assumes "invar m"
  shows "keys (insert a x (insert b y m)) = keys (insert b y (insert a x m))"
  using assms by (intro keys_determined) (auto simp: invar_insert lookup_insert)

end

section \<open>The sorted entry list\<close>

type_synonym ('k, 'v) btree_map = "('k \<times> 'v) list"

abbreviation bt_get :: "('k, 'v) btree_map \<Rightarrow> 'k \<Rightarrow> 'v option" where
  "bt_get \<equiv> map_of"

abbreviation bt_keys :: "('k, 'v) btree_map \<Rightarrow> 'k list" where
  "bt_keys m \<equiv> map fst m"

abbreviation bt_values :: "('k, 'v) btree_map \<Rightarrow> 'v list" where
  "bt_values m \<equiv> map snd m"

fun bt_insert :: "'k::linorder \<Rightarrow> 'v \<Rightarrow> ('k, 'v) btree_map \<Rightarrow> ('k, 'v) btree_map" where
  "bt_insert k v [] = [(k, v)]"
| "bt_insert k v ((k', v') # m) =
     (if k < k' then (k, v) # (k', v') # m
      else if k = k' then (k, v) # m
      else (k', v') # bt_insert k v m)"

definition bt_remove :: "'k \<Rightarrow> ('k, 'v) btree_map \<Rightarrow> ('k, 'v) btree_map" where
  "bt_remove k m = filter (\<lambda>e. fst e \<noteq> k) m"

definition bt_wf :: "('k::linorder, 'v) btree_map \<Rightarrow> bool" where
  "bt_wf m \<longleftrightarrow> sorted_wrt (<) (bt_keys m)"

text \<open>\<open>contains_key\<close>.\<close>

definition bt_has :: "('k, 'v) btree_map \<Rightarrow> 'k \<Rightarrow> bool" where
  "bt_has m k \<longleftrightarrow> bt_get m k \<noteq> None"

text \<open>\<open>m.get(k).copied().unwrap_or(d)\<close>.\<close>

definition bt_get_or :: "'v \<Rightarrow> ('k, 'v) btree_map \<Rightarrow> 'k \<Rightarrow> 'v" where
  "bt_get_or d m k = (case bt_get m k of None \<Rightarrow> d | Some v \<Rightarrow> v)"

text \<open>\<open>let e = m.entry(k).or_insert(d); *e = f(*e)\<close>.\<close>

definition bt_upsert ::
  "'k::linorder \<Rightarrow> 'v \<Rightarrow> ('v \<Rightarrow> 'v) \<Rightarrow> ('k, 'v) btree_map \<Rightarrow> ('k, 'v) btree_map" where
  "bt_upsert k d f m = bt_insert k (f (bt_get_or d m k)) m"

text \<open>\<open>if let Some(e) = m.get_mut(k) { *e = f(*e) }\<close>.\<close>

definition bt_modify ::
  "'k::linorder \<Rightarrow> ('v \<Rightarrow> 'v) \<Rightarrow> ('k, 'v) btree_map \<Rightarrow> ('k, 'v) btree_map" where
  "bt_modify k f m = (case bt_get m k of None \<Rightarrow> m | Some v \<Rightarrow> bt_insert k (f v) m)"

text \<open>\<open>m.retain(|k, _| p(k))\<close>.\<close>

definition bt_retain :: "('k \<Rightarrow> bool) \<Rightarrow> ('k, 'v) btree_map \<Rightarrow> ('k, 'v) btree_map" where
  "bt_retain p m = filter (\<lambda>e. p (fst e)) m"

text \<open>\<open>iter().map(|x| (k(x), v(x))).collect()\<close>: later entries replace earlier ones.\<close>

definition bt_collect :: "('k::linorder \<times> 'v) list \<Rightarrow> ('k, 'v) btree_map" where
  "bt_collect es = fold (\<lambda>(k, v). bt_insert k v) es []"

text \<open>\<open>for (k, v) in m.iter_mut() { *v = f(k, *v) }\<close>.\<close>

definition bt_map_values ::
  "('k \<Rightarrow> 'v \<Rightarrow> 'w) \<Rightarrow> ('k, 'v) btree_map \<Rightarrow> ('k, 'w) btree_map" where
  "bt_map_values f m = map (\<lambda>(k, v). (k, f k v)) m"

section \<open>The laws\<close>

lemma bt_get_insert [simp, btree_simps]:
  "bt_get (bt_insert k v m) k' = (if k' = k then Some v else bt_get m k')"
  by (induction m) auto

lemma bt_get_filter_key: "map_of (filter (\<lambda>e. p (fst e)) m) k = (if p k then map_of m k else None)"
  by (induction m) auto

lemma bt_get_remove [simp, btree_simps]:
  "bt_get (bt_remove k m) k' = (if k' = k then None else bt_get m k')"
  by (simp add: bt_remove_def bt_get_filter_key [where p = "\<lambda>x. x \<noteq> k"])

lemma bt_get_retain [simp, btree_simps]:
  "bt_get (bt_retain p m) k = (if p k then bt_get m k else None)"
  by (simp add: bt_retain_def bt_get_filter_key)

lemma bt_get_upsert [simp, btree_simps]:
  "bt_get (bt_upsert k d f m) k' = (if k' = k then Some (f (bt_get_or d m k)) else bt_get m k')"
  by (simp add: bt_upsert_def)

lemma bt_get_modify [simp, btree_simps]:
  "bt_get (bt_modify k f m) k' = (if k' = k then map_option f (bt_get m k) else bt_get m k')"
  by (auto simp: bt_modify_def split: option.splits)

lemma bt_get_map_values [simp, btree_simps]:
  "bt_get (bt_map_values f m) k = map_option (f k) (bt_get m k)"
  by (induction m) (auto simp: bt_map_values_def)

lemma bt_has_simps [simp, btree_simps]:
  "bt_has (bt_insert k v m) k' \<longleftrightarrow> k' = k \<or> bt_has m k'"
  "bt_has (bt_remove k m) k' \<longleftrightarrow> k' \<noteq> k \<and> bt_has m k'"
  "bt_has (bt_modify k f m) k' \<longleftrightarrow> bt_has m k'"
  "bt_has (bt_upsert k d f m) k' \<longleftrightarrow> k' = k \<or> bt_has m k'"
  "bt_has (bt_map_values g m) k' \<longleftrightarrow> bt_has m k'"
  "bt_has (bt_retain p m) k' \<longleftrightarrow> p k' \<and> bt_has m k'"
  "\<not> bt_has [] k'"
  by (auto simp: bt_has_def)

lemma bt_get_or_simps [simp, btree_simps]:
  "bt_get_or d (bt_insert k v m) k' = (if k' = k then v else bt_get_or d m k')"
  "bt_get_or d (bt_remove k m) k' = (if k' = k then d else bt_get_or d m k')"
  "bt_get_or d (bt_upsert k d' f m) k' =
     (if k' = k then f (bt_get_or d' m k) else bt_get_or d m k')"
  "bt_get_or d [] k' = d"
  by (simp_all add: bt_get_or_def)

lemma bt_get_or_Some [simp]: "bt_get m k = Some v \<Longrightarrow> bt_get_or d m k = v"
  by (simp add: bt_get_or_def)

lemma bt_get_or_None [simp]: "bt_get m k = None \<Longrightarrow> bt_get_or d m k = d"
  by (simp add: bt_get_or_def)

lemma bt_has_keys: "bt_has m k \<longleftrightarrow> k \<in> set (bt_keys m)"
  by (simp add: bt_has_def map_of_eq_None_iff)

lemma bt_has_Some: "bt_has m k \<longleftrightarrow> (\<exists>v. bt_get m k = Some v)"
  by (auto simp: bt_has_def)

lemma bt_keys_insert: "set (bt_keys (bt_insert k v m)) = insert k (set (bt_keys m))"
proof -
  have "x \<in> set (bt_keys (bt_insert k v m)) \<longleftrightarrow> x \<in> insert k (set (bt_keys m))" for x
    using bt_has_simps(1) [of k v m x] by (simp only: bt_has_keys) auto
  then show ?thesis by blast
qed

lemma bt_wf_Nil [simp]: "bt_wf []"
  by (simp add: bt_wf_def)

lemma bt_wf_insert [simp]: "bt_wf m \<Longrightarrow> bt_wf (bt_insert k v m)"
  unfolding bt_wf_def
proof (induction m)
  case (Cons e m)
  obtain k' v' where e: "e = (k', v')" by force
  have ins: "set (bt_keys (bt_insert k v m)) = insert k (set (bt_keys m))"
    by (rule bt_keys_insert)
  from Cons.prems e have gt: "\<forall>x \<in> set (bt_keys m). k' < x"
    and wf: "sorted_wrt (<) (bt_keys m)" by auto
  consider "k < k'" | "k = k'" | "k' < k" by force
  then show ?case
  proof cases
    case 1
    with gt wf e show ?thesis by (auto dest: order.strict_trans)
  next
    case 2
    with gt wf e show ?thesis by simp
  next
    case 3
    have "\<forall>x \<in> set (bt_keys (bt_insert k v m)). k' < x"
      unfolding ins using gt 3 by simp
    with 3 e Cons.IH wf show ?thesis by auto
  qed
qed simp

lemma bt_wf_filter: "bt_wf m \<Longrightarrow> bt_wf (filter P m)"
  unfolding bt_wf_def by (induction m) auto

lemma bt_wf_remove [simp]: "bt_wf m \<Longrightarrow> bt_wf (bt_remove k m)"
  by (simp add: bt_remove_def bt_wf_filter)

lemma bt_wf_retain [simp]: "bt_wf m \<Longrightarrow> bt_wf (bt_retain p m)"
  by (simp add: bt_retain_def bt_wf_filter)

lemma bt_wf_upsert [simp]: "bt_wf m \<Longrightarrow> bt_wf (bt_upsert k d f m)"
  by (simp add: bt_upsert_def)

lemma bt_wf_modify [simp]: "bt_wf m \<Longrightarrow> bt_wf (bt_modify k f m)"
  by (simp add: bt_modify_def split: option.splits)

lemma bt_keys_map_values [simp]: "bt_keys (bt_map_values f m) = bt_keys m"
  by (auto simp: bt_map_values_def)

lemma bt_wf_map_values [simp]: "bt_wf m \<Longrightarrow> bt_wf (bt_map_values f m)"
  by (simp only: bt_wf_def bt_keys_map_values)

interpretation bt: ordered_map "[]" bt_get bt_insert bt_remove bt_keys bt_wf
proof unfold_locales
  fix k :: 'a and m :: "('a, 'b) btree_map"
  show "k \<in> set (bt_keys m) \<longleftrightarrow> bt_get m k \<noteq> None"
    using bt_has_keys [of m k] by (simp add: bt_has_def)
qed (auto simp: bt_wf_def intro: bt_wf_insert [unfolded bt_wf_def] bt_wf_remove [unfolded bt_wf_def])

lemma bt_wf_distinct: "bt_wf m \<Longrightarrow> distinct (bt_keys m)"
  by (rule bt.keys_distinct)

lemma bt_wf_get: "bt_wf m \<Longrightarrow> (k, v) \<in> set m \<longleftrightarrow> bt_get m k = Some v"
  by (simp add: bt_wf_distinct)

text \<open>Collecting entries whose keys are distinct keeps every entry.\<close>

lemma fold_insert_get_notin:
  "k \<notin> fst ` set es \<Longrightarrow> bt_get (fold (\<lambda>(k, v). bt_insert k v) es m) k = bt_get m k"
  by (induction es arbitrary: m) (auto split: prod.splits)

lemma bt_get_collect:
  assumes "distinct (map fst es)"
  shows "bt_get (bt_collect es) k = map_of es k"
proof -
  have "bt_get (fold (\<lambda>(k, v). bt_insert k v) es m) k
      = (case map_of es k of None \<Rightarrow> bt_get m k | Some v \<Rightarrow> Some v)" for m
    using assms
  proof (induction es arbitrary: m)
    case (Cons e es)
    then show ?case
      by (cases e) (auto simp: fold_insert_get_notin split: option.splits
          dest: map_of_SomeD weak_map_of_SomeI intro: rev_image_eqI)
  qed simp
  then show ?thesis by (simp add: bt_collect_def split: option.splits)
qed

lemma bt_has_collect: "bt_has (bt_collect es) k \<longleftrightarrow> k \<in> fst ` set es"
proof -
  have "bt_has (fold (\<lambda>(k, v). bt_insert k v) es m) k \<longleftrightarrow> k \<in> fst ` set es \<or> bt_has m k" for m
    by (induction es arbitrary: m) auto
  then show ?thesis by (simp add: bt_collect_def)
qed

lemma bt_get_collect_SomeD: "bt_get (bt_collect es) k = Some v \<Longrightarrow> (k, v) \<in> set es"
proof -
  have "bt_get (fold (\<lambda>(k, v). bt_insert k v) es m) k = Some v
      \<Longrightarrow> (k, v) \<in> set es \<or> bt_get m k = Some v" for m
    by (induction es arbitrary: m) (fastforce split: if_splits)+
  then show "bt_get (bt_collect es) k = Some v \<Longrightarrow> ?thesis"
    unfolding bt_collect_def by force
qed

lemma bt_get_or_collect_const:
  "bt_get_or c (bt_collect (map (\<lambda>x. (f x, c)) xs)) k = c"
  by (auto simp: bt_get_or_def dest!: bt_get_collect_SomeD split: option.splits)

lemma bt_wf_collect [simp]: "bt_wf (bt_collect es)"
proof -
  have "bt_wf m \<Longrightarrow> bt_wf (fold (\<lambda>(k, v). bt_insert k v) es m)" for m :: "('a, 'b) btree_map"
    by (induction es arbitrary: m) auto
  then show ?thesis by (simp add: bt_collect_def)
qed

section \<open>Nested maps\<close>

text \<open>
  \<open>m.get(a).and_then(|i| i.get(b)).copied().unwrap_or(0)\<close> on a map of maps, the shape of
  \<open>inventories\<close> and \<open>place_capacity_used\<close>, and the read-modify-write through two
  \<open>entry().or_default()\<close> calls.
\<close>

definition bt_get2 ::
  "('a, ('b, 'v::zero) btree_map) btree_map \<Rightarrow> 'a \<Rightarrow> 'b \<Rightarrow> 'v" where
  "bt_get2 m a b = bt_get_or 0 (bt_get_or [] m a) b"

definition bt_upsert2 ::
  "'a::linorder \<Rightarrow> 'b::linorder \<Rightarrow> ('v::zero \<Rightarrow> 'v)
    \<Rightarrow> ('a, ('b, 'v) btree_map) btree_map \<Rightarrow> ('a, ('b, 'v) btree_map) btree_map" where
  "bt_upsert2 a b f m = bt_upsert a [] (bt_upsert b 0 f) m"

lemma bt_get2_insert [simp, btree_simps]:
  "bt_get2 (bt_insert a i m) a' b = (if a' = a then bt_get_or 0 i b else bt_get2 m a' b)"
  by (simp add: bt_get2_def)

lemma bt_get2_Nil [simp]: "bt_get2 [] a b = 0"
  by (simp add: bt_get2_def)

lemma bt_get2_upsert2 [simp, btree_simps]:
  "bt_get2 (bt_upsert2 a b f m) a' b' =
     (if a' = a \<and> b' = b then f (bt_get2 m a b) else bt_get2 m a' b')"
  by (simp add: bt_get2_def bt_upsert2_def)

end
