(* ===== verification/Protocol.thy ===== *)
theory Protocol
  imports Base
begin

text \<open>
  The wire types of \<open>crates/protocol/src/lib.rs\<close> that the engine emits: \<open>SimEvent\<close>,
  the fault and warning payloads and the \<open>SimMessage\<close> envelope payload. Every event
  constructor carries the fields of the Rust variant in their order.
\<close>

section \<open>Discriminators\<close>

datatype highlight_reason = AgentFocus | Bottleneck | GoalReached

datatype action_tag =
    TagNoOp | TagSetSpeed | TagPlacePiece | TagConnectPieces | TagRemovePiece
  | TagDefineResource | TagAddProducer | TagAddConsumer | TagSetGoal

datatype sl1_pressure_event_kind = PressureActivatedEv | PressureDeactivatedEv

datatype sl1_objective_status_tag = TagUnknown | TagMet | TagBreached | TagUnsupported

datatype sl1_transform_warning_kind =
    WarnStarved | WarnBlocked | WarnLate | WarnFailed | WarnSlotMissed

datatype sl1_demand_warning_kind = WarnDropped | WarnBacklogOverflow

datatype sl1_pressure_warning_kind = WarnPressureUnsupported

datatype sl1_objective_warning_kind = WarnObjectiveUnsupported

section \<open>Actions\<close>

text \<open>\<open>Action\<close>: what an agent may ask the engine to do.\<close>

datatype action =
    NoOp
  | SetSpeed (sp_mover: u32) (sp_speed: f32_bits)
  | PlacePiece (pp_kind: string) (pp_pos: "f32_bits \<times> f32_bits")
  | ConnectPieces (cp_from: u32) (cp_to: u32)
  | RemovePiece (rp_id: u32)
  | DefineResource (dr_name: string) (dr_color: u8)
  | AddProducer (ap_resource: string) (ap_amount: u64) (ap_interval: u32)
  | AddConsumer (ac_resource: string) (ac_amount: u64) (ac_interval: u32)
  | SetGoal (sg_goal: string)

fun tag :: "action \<Rightarrow> action_tag" where
  "tag NoOp = TagNoOp"
| "tag (SetSpeed _ _) = TagSetSpeed"
| "tag (PlacePiece _ _) = TagPlacePiece"
| "tag (ConnectPieces _ _) = TagConnectPieces"
| "tag (RemovePiece _) = TagRemovePiece"
| "tag (DefineResource _ _) = TagDefineResource"
| "tag (AddProducer _ _ _) = TagAddProducer"
| "tag (AddConsumer _ _ _) = TagAddConsumer"
| "tag (SetGoal _) = TagSetGoal"

section \<open>Events\<close>

datatype sim_event =
    Tick u64
  | MoverDeparted u32 u32 u32
  | MoverArrived u32 u32 u32
  | MoverSpeedChange u32 f32_bits f32_bits
  | NodeHighlighted u32 highlight_reason
  | PathPulsed u32
  | AgentDecided string action_tag
  | Sl1PressureLifecycle string string sl1_pressure_event_kind u64
  | Sl1ObjectiveStateChanged string sl1_objective_status_tag sl1_objective_status_tag u64
  | Sl1FailureConditionFired string u64
  | Sl1VictoryConditionMet string u64
  | Sl1GameOutcomeChanged string string u64 "string option"
  | Sl1DashboardStateChanged string string string u64 "u64 option"
  | Sl1AlertFired string string u64 string string u64
  | Sl1AlertCleared string string u64
  | Sl1AgentActionApplied string string string u64 u64
  | Sl1AgentActionRejected string string "string option" string u64
  | Sl1AgentLlmDisabled string u64
  | Sl1MilestoneFired string string string "string list" "string option" u64

section \<open>Faults, warnings, messages\<close>

datatype fault_payload =
    LoadErrorFault string "u32 option" "u32 option"
  | AgentCrashed string string
  | NumericDrift u64
  | EngineFault string
  | BaselineHashMismatch string string
  | SchemaMismatch u32 u32
  | TransportLost

datatype warning_payload =
    InvalidAction string string
  | Behind u32 "string option"
  | TickOverBudget f32_bits
  | AgentLogSlow
  | Sl1TransformWarning string sl1_transform_warning_kind u64 "u32 option"
  | Sl1DemandWarning string sl1_demand_warning_kind u64 "u64 option" "u64 option" "i64 option"
      "string option"
  | Sl1PressureWarning string sl1_pressure_warning_kind string u64
  | Sl1ObjectiveWarning string sl1_objective_warning_kind string u64

text \<open>What an agent reports of one decision.\<close>

record considered_action =
  ca_action :: action
  ca_confidence :: f32_bits

record agent_report =
  ar_tick :: u64
  ar_agent_id :: string
  ar_considered :: "considered_action list"
  ar_chosen :: "action option"
  ar_rationale :: string
  ar_confidence :: f32_bits

text \<open>
  The variants of \<open>SimMessage\<close> the modelled systems push. \<open>Static\<close>, \<open>Snapshot\<close> and \<open>Events\<close>
  carry render payloads that the transport builds.
\<close>

datatype sim_message =
    AgentReport agent_report | Fault fault_payload | Warning warning_payload

end
