(* ===== verification/Scene.thy ===== *)
theory Scene
  imports Btree Protocol
begin

text \<open>
  The validated \<open>scenario_language_v1\<close> scene, the immutable half of the SL1 engine:
  one record or datatype per \<open>Sl1*\<close> type of \<open>scenario_language_v1.rs\<close>, with the pure
  helper methods the runtime calls on them. Field names carry the Rust struct's name as
  a prefix because several structs share a field name.
\<close>

section \<open>Bounds\<close>

definition MAX_TRANSFORM_TICKS :: u64 where "MAX_TRANSFORM_TICKS = 1000000000"
definition MAX_TRANSFORM_AMOUNT :: u64 where "MAX_TRANSFORM_AMOUNT = 1000000000"
definition MAX_TRANSFORM_CAPACITY_COST :: u64 where "MAX_TRANSFORM_CAPACITY_COST = 1000000000"
definition MAX_TRANSFORM_MAX_ATTEMPTS :: u32 where "MAX_TRANSFORM_MAX_ATTEMPTS = 1000"
definition MAX_DEMAND_TICKS :: u64 where "MAX_DEMAND_TICKS = 1000000000"
definition MAX_DEMAND_OUTSTANDING :: nat where "MAX_DEMAND_OUTSTANDING = 10000"
definition MAX_PRESSURE_TICKS :: u64 where "MAX_PRESSURE_TICKS = 1000000000"
definition MAX_SL1_ITEMS_PER_SECTION :: nat where "MAX_SL1_ITEMS_PER_SECTION = 100000"
definition SL1_AGENT_MAX_COOLDOWN_TICKS :: u64 where "SL1_AGENT_MAX_COOLDOWN_TICKS = 1000000"

section \<open>Places, links, things\<close>

record sl1_storage_slot =
  slot_capacity :: u64
  slot_initial :: u64

datatype sl1_operating_predicate =
    UsedPercentGte (up_metric: string) (up_threshold: u8)
  | OverloadedTicksGt (ot_ticks: u64)

record sl1_operating_state =
  os_predicate :: sl1_operating_predicate
  os_grace_ticks :: "u64 option"

record sl1_place =
  place_id :: string
  place_role :: string
  place_pos :: "f32_bits \<times> f32_bits"
  place_shape :: "string option"
  place_color :: "u32 option"
  place_capacity :: "(string, u64) btree_map"
  place_storage :: "(string, sl1_storage_slot) btree_map"
  place_accepts :: "string list"
  place_produces :: "string list"
  place_failure_domains :: "string list"
  place_operating_states :: "(string, sl1_operating_state) btree_map"

datatype sl1_link_direction = Forward | Bidirectional

datatype sl1_link_backpressure = BlockUpstream | DropLowPriority | SpillToBuffer | DegradeQuality

record sl1_link_render_hint =
  lrh_style :: string
  lrh_color :: "u32 option"

record sl1_link =
  link_id :: string
  link_type :: string
  link_from :: string
  link_to :: string
  link_direction :: sl1_link_direction
  link_capacity :: "(string, u64) btree_map"
  link_travel_ticks :: u64
  link_compatibility :: "string list"
  link_queue_capacity :: u64
  link_backpressure :: sl1_link_backpressure
  link_render :: "sl1_link_render_hint option"

record sl1_thing_quality_contract =
  qc_max_drop_percent :: "f64_bits option"
  qc_max_late_ticks :: "u64 option"
  qc_required_fields :: "string list"

record sl1_thing_render_hint =
  trh_glyph :: string
  trh_color :: "u32 option"

record sl1_thing =
  thing_id :: string
  thing_kind :: string
  thing_tags :: "string list"
  thing_schema_version :: "u32 option"
  thing_freshness_budget_ticks :: "u64 option"
  thing_quality_contract :: "sl1_thing_quality_contract option"
  thing_render :: "sl1_thing_render_hint option"

section \<open>Transforms\<close>

record sl1_transform_io =
  io_thing_id :: string
  io_amount :: u64

datatype sl1_failure_policy = RetryThenWarn | DropPolicy

record sl1_transform =
  transform_id :: string
  transform_kind :: string
  transform_runs_on :: string
  transform_inputs :: "sl1_transform_io list"
  transform_outputs :: "sl1_transform_io list"
  transform_cadence_ticks :: u64
  transform_duration_ticks :: u64
  transform_deadline_ticks :: u64
  transform_capacity_cost :: "(string, u64) btree_map"
  transform_failure_policy :: sl1_failure_policy
  transform_max_attempts :: u32

section \<open>Demand\<close>

datatype sl1_demand_target = TargetPlace (target_place: string)

datatype sl1_demand_schedule =
    Fixed (every_ticks: u64) (start_tick: u64)
  | Scripted (script_ticks: "u64 list")

datatype sl1_demand_priority = PriLow | PriNormal | PriHigh | PriCritical

record sl1_demand_penalty =
  penalty_score :: i64
  penalty_warning :: "string option"

record sl1_demand =
  demand_id :: string
  demand_kind :: string
  demand_target :: sl1_demand_target
  demand_requires :: "string list"
  demand_spawn_schedule :: sl1_demand_schedule
  demand_deadline_ticks :: u64
  demand_priority :: sl1_demand_priority
  demand_value :: u64
  demand_penalty :: sl1_demand_penalty

section \<open>Pressure\<close>

datatype sl1_pressure_kind =
    KSourceMultiplier | KDemandGrowth | KQuotaReduction | KPathOutage
  | KSchemaDrift | KDashboardStorm | KSpotEvictionWave | KStorageMetadataStorm
  | KCoolingDegradation

fun pressure_kind_str :: "sl1_pressure_kind \<Rightarrow> string" where
  "pressure_kind_str KSourceMultiplier = ''source_multiplier''"
| "pressure_kind_str KDemandGrowth = ''demand_growth''"
| "pressure_kind_str KQuotaReduction = ''quota_reduction''"
| "pressure_kind_str KPathOutage = ''path_outage''"
| "pressure_kind_str KSchemaDrift = ''schema_drift''"
| "pressure_kind_str KDashboardStorm = ''dashboard_storm''"
| "pressure_kind_str KSpotEvictionWave = ''spot_eviction_wave''"
| "pressure_kind_str KStorageMetadataStorm = ''storage_metadata_storm''"
| "pressure_kind_str KCoolingDegradation = ''cooling_degradation''"

fun has_runtime_effect_in_pr7 :: "sl1_pressure_kind \<Rightarrow> bool" where
  "has_runtime_effect_in_pr7 k \<longleftrightarrow>
     (case k of KSourceMultiplier \<Rightarrow> True | KDemandGrowth \<Rightarrow> True | KQuotaReduction \<Rightarrow> True
      | KPathOutage \<Rightarrow> True | _ \<Rightarrow> False)"

datatype sl1_pressure_params =
    SourceMultiplier (sm_thing: string) (sm_multiplier_milli: u64)
  | DemandGrowth (dg_spawn_multiplier: u32)
  | QuotaReduction (qr_capacity: string) (qr_reduction_percent: u8)
  | PathOutage
  | PressureUnsupported

record sl1_pressure =
  pressure_id :: string
  pressure_kind :: sl1_pressure_kind
  pressure_at_tick :: u64
  pressure_duration_ticks :: u64
  pressure_target :: string
  pressure_params :: sl1_pressure_params

definition end_tick :: "sl1_pressure \<Rightarrow> u64" where
  "end_tick p = sat_add (pressure_at_tick p) (pressure_duration_ticks p)"

section \<open>Objectives, failure conditions, victory conditions\<close>

datatype sl1_objective_kind =
    OKeepFresh | OCompleteJobs | OMaintainUtilization | OCostBudget | ODataQuality | OQueryLatency

fun objective_kind_str :: "sl1_objective_kind \<Rightarrow> string" where
  "objective_kind_str OKeepFresh = ''keep_fresh''"
| "objective_kind_str OCompleteJobs = ''complete_jobs_before_deadline''"
| "objective_kind_str OMaintainUtilization = ''maintain_utilization''"
| "objective_kind_str OCostBudget = ''cost_budget''"
| "objective_kind_str ODataQuality = ''data_quality''"
| "objective_kind_str OQueryLatency = ''query_latency''"

datatype sl1_objective_params =
    KeepFresh (kf_place: string) (kf_thing: string) (kf_max_stale_ticks: u64)
  | CompleteJobsBeforeDeadline (cj_demand: string) (cj_max_missed: u64)
  | MaintainUtilization (mu_place: string) (mu_capacity: string) (mu_min: u8) (mu_max: u8)
  | ObjectiveUnsupported

record sl1_objective =
  objective_id :: string
  objective_kind :: sl1_objective_kind
  objective_weight :: u32
  objective_params :: sl1_objective_params

datatype sl1_failure_condition_kind = FStaleTarget | FPlaceState | FObjectiveBreachCount

datatype sl1_failure_condition_params =
    StaleTarget (st_place: string) (st_thing: string) (st_threshold_ticks: u64) (st_grace: u64)
  | PlaceState (ps_place: string) (ps_state: string) (ps_grace: u64)
  | ObjectiveBreachCount (ob_objective_id: string) (ob_max_count: u64)

record sl1_failure_condition =
  fc_id :: string
  fc_kind :: sl1_failure_condition_kind
  fc_params :: sl1_failure_condition_params

datatype sl1_victory_condition_kind = VSurviveUntil

datatype sl1_victory_condition_params = SurviveUntil (su_at_tick: u64)

record sl1_victory_condition =
  vc_id :: string
  vc_kind :: sl1_victory_condition_kind
  vc_params :: sl1_victory_condition_params

section \<open>Agents\<close>

datatype sl1_agent_kind = AMock | ABuiltin | ALlm

datatype sl1_agent_observation_target =
    ObsPlace (obs_id: string) | ObsTransform (obs_id: string) | ObsDemand (obs_id: string)
  | ObsDashboard (obs_id: string) | ObsMetric (obs_id: string)

fun obs_kind_str :: "sl1_agent_observation_target \<Rightarrow> string" where
  "obs_kind_str (ObsPlace _) = ''place''"
| "obs_kind_str (ObsTransform _) = ''transform''"
| "obs_kind_str (ObsDemand _) = ''demand''"
| "obs_kind_str (ObsDashboard _) = ''dashboard''"
| "obs_kind_str (ObsMetric _) = ''metric''"

datatype sl1_agent_action_kind =
    SetJobPriority | ThrottleDemandKind | ScalePlaceCapacity | WarmCache
  | PrioritizeTransform | PauseReportRefresh

fun action_kind_str :: "sl1_agent_action_kind \<Rightarrow> string" where
  "action_kind_str SetJobPriority = ''set_job_priority''"
| "action_kind_str ThrottleDemandKind = ''throttle_demand''"
| "action_kind_str ScalePlaceCapacity = ''scale_place_capacity''"
| "action_kind_str WarmCache = ''warm_cache''"
| "action_kind_str PrioritizeTransform = ''prioritize_transform''"
| "action_kind_str PauseReportRefresh = ''pause_report_refresh''"

datatype sl1_agent_action = ThrottleDemand (td_demand_id: string) (td_pause_ticks: u64)

fun agent_action_kind :: "sl1_agent_action \<Rightarrow> sl1_agent_action_kind" where
  "agent_action_kind (ThrottleDemand _ _) = ThrottleDemandKind"

fun agent_action_cost :: "sl1_agent_action \<Rightarrow> u64" where
  "agent_action_cost (ThrottleDemand _ _) = 1"

datatype sl1_agent_rejection_reason =
    ActionNotAllowed | ActionTargetOutOfScope | ActionTargetUnknown | CostExceedsBudget
  | Cooldown | EffectUnsupportedInThisPr | InvalidActionParameter

fun rejection_str :: "sl1_agent_rejection_reason \<Rightarrow> string" where
  "rejection_str ActionNotAllowed = ''action_not_allowed''"
| "rejection_str ActionTargetOutOfScope = ''action_target_out_of_scope''"
| "rejection_str ActionTargetUnknown = ''action_target_unknown''"
| "rejection_str CostExceedsBudget = ''cost_exceeds_budget''"
| "rejection_str Cooldown = ''cooldown''"
| "rejection_str EffectUnsupportedInThisPr = ''effect_unsupported_in_this_pr''"
| "rejection_str InvalidActionParameter = ''invalid_action_parameter''"

record sl1_agent =
  agent_id :: string
  agent_kind :: sl1_agent_kind
  agent_role :: string
  agent_interval_ticks :: u64
  agent_observation_scope :: "sl1_agent_observation_target list"
  agent_allowed_actions :: "sl1_agent_action_kind list"
  agent_max_cost_per_decision :: u64
  agent_cooldown_ticks :: u64
  agent_objective_weights :: "(string, f64_bits) btree_map"

section \<open>Observability\<close>

datatype sl1_metric_source =
    PlaceCapacityUsedPercent (mc_place: string) (mc_capacity: string)
  | PlaceInventoryCount (mi_place: string) (mi_thing: string)
  | DashboardFreshness (mf_dashboard: string)

record sl1_metric =
  metric_id :: string
  metric_source :: sl1_metric_source

datatype sl1_dashboard_kind = DReport | DLive | DAdHoc

record sl1_dashboard =
  dashboard_id :: string
  dashboard_kind :: sl1_dashboard_kind
  dashboard_depends_on :: "string list"
  dashboard_freshness_slo_ticks :: u64

datatype sl1_alert_predicate =
    AlertGt (gt_threshold: u64) | AlertLt (lt_threshold: u64)
  | OutOfRange (oor_min: u64) (oor_max: u64)

fun alert_fires :: "sl1_alert_predicate \<Rightarrow> u64 \<Rightarrow> bool" where
  "alert_fires (AlertGt t) v \<longleftrightarrow> t < v"
| "alert_fires (AlertLt t) v \<longleftrightarrow> v < t"
| "alert_fires (OutOfRange lo hi) v \<longleftrightarrow> v < lo \<or> hi < v"

fun alert_summary :: "sl1_alert_predicate \<Rightarrow> string" where
  "alert_summary (AlertGt t) = ''> '' @ dec t"
| "alert_summary (AlertLt t) = ''< '' @ dec t"
| "alert_summary (OutOfRange lo hi) = ''out_of_range ['' @ dec lo @ '', '' @ dec hi @ '']''"

datatype sl1_alert_severity = SevInfo | SevWarning | SevCritical

fun severity_str :: "sl1_alert_severity \<Rightarrow> string" where
  "severity_str SevInfo = ''info''"
| "severity_str SevWarning = ''warning''"
| "severity_str SevCritical = ''critical''"

record sl1_alert =
  alert_id :: string
  alert_metric :: string
  alert_predicate :: sl1_alert_predicate
  alert_severity :: sl1_alert_severity

record sl1_observability =
  obs_metrics :: "sl1_metric list"
  obs_dashboards :: "sl1_dashboard list"
  obs_alerts :: "sl1_alert list"

section \<open>Milestones\<close>

datatype sl1_milestone_predicate = MGte | MLte | MGt | MLt

fun milestone_evaluate :: "sl1_milestone_predicate \<Rightarrow> i64 \<Rightarrow> i64 \<Rightarrow> bool" where
  "milestone_evaluate MGte observed target \<longleftrightarrow> observed \<ge> target"
| "milestone_evaluate MLte observed target \<longleftrightarrow> observed \<le> target"
| "milestone_evaluate MGt observed target \<longleftrightarrow> observed > target"
| "milestone_evaluate MLt observed target \<longleftrightarrow> observed < target"

datatype sl1_milestone_dashboard_state = MDashOk | MDashStale | MDashNoData

datatype sl1_milestone_trigger =
    PressureActivated (pa_pressure: string)
  | PressureDeactivated (pd_pressure: string)
  | MetricThreshold (mt_metric: string) (mt_predicate: sl1_milestone_predicate) (mt_value: i64)
  | DashboardStateTrigger (ds_dashboard: string) (ds_state: sl1_milestone_dashboard_state)

record sl1_milestone =
  milestone_id :: string
  milestone_trigger :: sl1_milestone_trigger
  milestone_label :: string
  milestone_camera_focus :: "string list"
  milestone_highlight :: "string option"

section \<open>The scene\<close>

record sl1_scene =
  sc_schema_version :: u32
  sc_places :: "sl1_place list"
  sc_links :: "sl1_link list"
  sc_things :: "sl1_thing list"
  sc_transforms :: "sl1_transform list"
  sc_demand :: "sl1_demand list"
  sc_pressure :: "sl1_pressure list"
  sc_objectives :: "sl1_objective list"
  sc_failure_conditions :: "sl1_failure_condition list"
  sc_victory_conditions :: "sl1_victory_condition list"
  sc_agents :: "sl1_agent list"
  sc_observability :: "sl1_observability option"
  sc_milestones :: "sl1_milestone list"

text \<open>
  What \<open>validate\<close> establishes of a loaded scene and the runtime systems rely on: ids are
  distinct in every section, references resolve, the divisors are positive and the
  amounts are in their bounds. It is an executable predicate, so that every theorem that
  assumes it is applied to a concrete scene.
\<close>

definition ios_ok :: "sl1_transform_io list \<Rightarrow> bool" where
  "ios_ok ios \<longleftrightarrow> distinct (map io_thing_id ios)
     \<and> (\<forall>io \<in> set ios. 0 < io_amount io \<and> io_amount io \<le> MAX_TRANSFORM_AMOUNT)"

definition transform_ok :: "sl1_scene \<Rightarrow> sl1_transform \<Rightarrow> bool" where
  "transform_ok sc t \<longleftrightarrow>
     ios_ok (transform_inputs t) \<and> ios_ok (transform_outputs t)
     \<and> 0 < transform_cadence_ticks t \<and> transform_cadence_ticks t \<le> MAX_TRANSFORM_TICKS
     \<and> 0 < transform_duration_ticks t \<and> transform_duration_ticks t \<le> transform_deadline_ticks t
     \<and> transform_deadline_ticks t \<le> MAX_TRANSFORM_TICKS
     \<and> 0 < transform_max_attempts t \<and> transform_max_attempts t \<le> MAX_TRANSFORM_MAX_ATTEMPTS
     \<and> bt_wf (transform_capacity_cost t)
     \<and> (\<forall>(k, v) \<in> set (transform_capacity_cost t).
          0 < v \<and> v \<le> MAX_TRANSFORM_CAPACITY_COST
          \<and> (\<exists>p \<in> set (sc_places sc). place_id p = transform_runs_on t
               \<and> bt_has (place_capacity p) k))"

definition place_ok :: "sl1_place \<Rightarrow> bool" where
  "place_ok p \<longleftrightarrow> bt_wf (place_capacity p) \<and> bt_wf (place_storage p)
     \<and> (\<forall>(k, slot) \<in> set (place_storage p). slot_initial slot \<le> slot_capacity slot)"

fun schedule_ok :: "sl1_demand_schedule \<Rightarrow> bool" where
  "schedule_ok (Fixed every start) \<longleftrightarrow> 0 < every"
| "schedule_ok (Scripted ticks) \<longleftrightarrow> sorted_wrt (<) ticks \<and> (\<forall>t \<in> set ticks. 0 < t)"

definition demand_ok :: "sl1_demand \<Rightarrow> bool" where
  "demand_ok d \<longleftrightarrow> schedule_ok (demand_spawn_schedule d)
     \<and> demand_deadline_ticks d \<le> MAX_DEMAND_TICKS"

definition pressure_ok :: "sl1_pressure \<Rightarrow> bool" where
  "pressure_ok p \<longleftrightarrow> 0 < pressure_duration_ticks p
     \<and> pressure_duration_ticks p \<le> MAX_PRESSURE_TICKS \<and> pressure_at_tick p \<le> MAX_PRESSURE_TICKS"

fun metric_ok :: "sl1_scene \<Rightarrow> sl1_observability \<Rightarrow> sl1_metric_source \<Rightarrow> bool" where
  "metric_ok sc obs (PlaceCapacityUsedPercent p c) \<longleftrightarrow> p \<in> place_id ` set (sc_places sc)"
| "metric_ok sc obs (PlaceInventoryCount p t) \<longleftrightarrow> True"
| "metric_ok sc obs (DashboardFreshness d) \<longleftrightarrow> d \<in> dashboard_id ` set (obs_dashboards obs)"

definition observability_ok :: "sl1_scene \<Rightarrow> sl1_observability \<Rightarrow> bool" where
  "observability_ok sc obs \<longleftrightarrow>
     distinct (map metric_id (obs_metrics obs))
     \<and> distinct (map dashboard_id (obs_dashboards obs))
     \<and> distinct (map alert_id (obs_alerts obs))
     \<and> (\<forall>m \<in> set (obs_metrics obs). metric_ok sc obs (metric_source m))
     \<and> (\<forall>a \<in> set (obs_alerts obs). alert_metric a \<in> metric_id ` set (obs_metrics obs))"

definition scene_ok :: "sl1_scene \<Rightarrow> bool" where
  "scene_ok sc \<longleftrightarrow>
     distinct (map place_id (sc_places sc)) \<and> (\<forall>p \<in> set (sc_places sc). place_ok p)
     \<and> sorted_wrt (<) (map transform_id (sc_transforms sc))
     \<and> length (sc_transforms sc) \<le> MAX_SL1_ITEMS_PER_SECTION
     \<and> (\<forall>t \<in> set (sc_transforms sc). transform_ok sc t)
     \<and> sorted_wrt (<) (map demand_id (sc_demand sc)) \<and> (\<forall>d \<in> set (sc_demand sc). demand_ok d)
     \<and> sorted_wrt (<) (map pressure_id (sc_pressure sc))
     \<and> (\<forall>p \<in> set (sc_pressure sc). pressure_ok p)
     \<and> sorted_wrt (<) (map objective_id (sc_objectives sc))
     \<and> sorted_wrt (<) (map fc_id (sc_failure_conditions sc))
     \<and> sorted_wrt (<) (map vc_id (sc_victory_conditions sc))
     \<and> sorted_wrt (<) (map agent_id (sc_agents sc))
     \<and> (\<forall>a \<in> set (sc_agents sc). 0 < agent_interval_ticks a)
     \<and> sorted_wrt (<) (map milestone_id (sc_milestones sc))
     \<and> (case sc_observability sc of None \<Rightarrow> True | Some obs \<Rightarrow> observability_ok sc obs)"

lemma ios_okD:
  assumes "ios_ok ios"
  shows "distinct (map io_thing_id ios)"
    and "io \<in> set ios \<Longrightarrow> 0 < io_amount io"
    and "io \<in> set ios \<Longrightarrow> io_amount io \<le> MAX_TRANSFORM_AMOUNT"
  using assms by (auto simp: ios_ok_def)

lemma scene_okD:
  assumes "scene_ok sc"
  shows "distinct (map place_id (sc_places sc))"
    and "p \<in> set (sc_places sc) \<Longrightarrow> place_ok p"
    and "distinct (map transform_id (sc_transforms sc))"
    and "length (sc_transforms sc) \<le> MAX_SL1_ITEMS_PER_SECTION"
    and "t \<in> set (sc_transforms sc) \<Longrightarrow> transform_ok sc t"
    and "distinct (map demand_id (sc_demand sc))"
    and "d \<in> set (sc_demand sc) \<Longrightarrow> demand_ok d"
    and "distinct (map pressure_id (sc_pressure sc))"
    and "pr \<in> set (sc_pressure sc) \<Longrightarrow> pressure_ok pr"
    and "distinct (map objective_id (sc_objectives sc))"
    and "distinct (map fc_id (sc_failure_conditions sc))"
    and "distinct (map vc_id (sc_victory_conditions sc))"
    and "distinct (map agent_id (sc_agents sc))"
    and "a \<in> set (sc_agents sc) \<Longrightarrow> 0 < agent_interval_ticks a"
    and "distinct (map milestone_id (sc_milestones sc))"
    and "sc_observability sc = Some obs \<Longrightarrow> observability_ok sc obs"
  using assms unfolding scene_ok_def by (auto dest: strict_sorted_iff [THEN iffD1])

end
