(* ===== verification/Runtime.thy ===== *)
theory Runtime
  imports Scene
begin

text \<open>
  The mutable half of the SL1 engine: \<open>Sl1RuntimeState\<close> and the per-primitive state
  types of \<open>scenario_language_v1.rs\<close>, the initial state \<open>from_scene\<close>, and the state
  \<open>sl1_st\<close> that the per-tick systems thread: the runtime with the event and message
  buffers they push to. \<open>rt_shape\<close> is what the \<open>expect\<close> calls of the systems rely on:
  every declared id has its runtime entry.
\<close>

section \<open>Per-primitive state\<close>

datatype freshness_state =
    FNoData | FOk (ok_set_tick: u64) | FStale (stale_set_tick: u64) | FDegraded | FInvalid

record sl1_pressure_runtime =
  pr_active :: "(string, u64) btree_map"
  pr_demand_spawn_multiplier :: "(string, u32) btree_map"
  pr_quota_reduction :: "(string \<times> string, u8) btree_map"
  pr_outaged_links :: "string set"
  pr_source_inject_carry_milli :: "(string \<times> string \<times> string, u64) btree_map"
  pr_unsupported_warned :: "string set"

record sl1_demand_instance =
  di_sequence :: u64
  di_spawned_at :: u64
  di_deadline_tick :: u64

record sl1_demand_runtime =
  next_sequence :: u64
  pending :: "sl1_demand_instance list"
  fulfilled_count :: u64
  dropped_count :: u64
  scripted_cursor :: nat
  overflow :: bool

datatype sl1_transform_state =
    TIdle
  | TRunning (ts_scheduled_at: u64) (ts_started_at: u64) (ts_attempt: u32)
  | TStarved (ts_scheduled_at: u64) (ts_since: u64) (ts_attempts: u32)
  | TBlocked (ts_scheduled_at: u64) (ts_since: u64) (ts_attempts: u32)
  | TLate (ts_scheduled_at: u64) (ts_late_attempt: u32) (ts_since: u64)

datatype game_outcome = InProgress | Won | Lost (lost_reason: string)

fun is_terminal :: "game_outcome \<Rightarrow> bool" where
  "is_terminal InProgress = False"
| "is_terminal Won = True"
| "is_terminal (Lost _) = True"

fun outcome_str :: "game_outcome \<Rightarrow> string" where
  "outcome_str InProgress = ''in_progress''"
| "outcome_str Won = ''won''"
| "outcome_str (Lost _) = ''lost''"

datatype sl1_objective_status = StUnknown | StMet | StBreached | StUnsupported

record sl1_objective_runtime =
  ob_status :: sl1_objective_status
  ob_breach_tick_count :: u64
  ob_last_change_tick :: u64

record sl1_failure_condition_runtime =
  breach_streak_ticks :: u64
  fc_fired_at_tick :: "u64 option"

record sl1_victory_condition_runtime =
  met_at_tick :: "u64 option"

datatype sl1_game_phase =
    PhStabilizing | PhWinning | PhLosing | PhSpiraling | PhWon | PhLost

datatype sl1_metric_state = MetricOk (metric_value: u64) | MetricNoData

datatype sl1_dashboard_state = DashOk | DashStale (dash_freshness_ticks: u64) | DashNoData

fun dashboard_str :: "sl1_dashboard_state \<Rightarrow> string" where
  "dashboard_str DashOk = ''ok''"
| "dashboard_str (DashStale _) = ''stale''"
| "dashboard_str DashNoData = ''no_data''"

datatype sl1_alert_state = AlertInactive | AlertFiring (alert_fired_at: u64)

record sl1_agent_runtime =
  last_decision_tick :: "u64 option"
  cooldown_until_tick :: "u64 option"
  llm_disabled_emitted :: bool

record sl1_milestone_runtime =
  ms_fired_at_tick :: "u64 option"
  ms_armed :: bool

section \<open>The runtime state\<close>

record sl1_runtime =
  inventories :: "(string, (string, u64) btree_map) btree_map"
  freshness :: "(string \<times> string, freshness_state) btree_map"
  transforms :: "(string, sl1_transform_state) btree_map"
  place_capacity_used :: "(string, (string, u64) btree_map) btree_map"
  pending_outputs :: "(string \<times> string, u64) btree_map"
  demand :: "(string, sl1_demand_runtime) btree_map"
  pressure :: sl1_pressure_runtime
  objectives :: "(string, sl1_objective_runtime) btree_map"
  failure_conditions :: "(string, sl1_failure_condition_runtime) btree_map"
  victory_conditions :: "(string, sl1_victory_condition_runtime) btree_map"
  outcome :: game_outcome
  phase :: sl1_game_phase
  unsupported_objectives_warned :: "string set"
  metric_states :: "(string, sl1_metric_state) btree_map"
  dashboard_states :: "(string, sl1_dashboard_state) btree_map"
  alert_states :: "(string, sl1_alert_state) btree_map"
  agents :: "(string, sl1_agent_runtime) btree_map"
  agent_demand_pauses :: "(string, u64) btree_map"
  milestones :: "(string, sl1_milestone_runtime) btree_map"

definition pressure_runtime_default :: sl1_pressure_runtime where
  "pressure_runtime_default =
     \<lparr>pr_active = [], pr_demand_spawn_multiplier = [], pr_quota_reduction = [],
      pr_outaged_links = {}, pr_source_inject_carry_milli = [], pr_unsupported_warned = {}\<rparr>"

definition demand_runtime_default :: sl1_demand_runtime where
  "demand_runtime_default =
     \<lparr>next_sequence = 0, pending = [], fulfilled_count = 0, dropped_count = 0,
      scripted_cursor = 0, overflow = False\<rparr>"

definition objective_runtime_default :: sl1_objective_runtime where
  "objective_runtime_default =
     \<lparr>ob_status = StUnknown, ob_breach_tick_count = 0, ob_last_change_tick = 0\<rparr>"

definition agent_runtime_default :: sl1_agent_runtime where
  "agent_runtime_default =
     \<lparr>last_decision_tick = None, cooldown_until_tick = None, llm_disabled_emitted = False\<rparr>"

section \<open>The initial state\<close>

definition initial_inventories ::
  "sl1_scene \<Rightarrow> (string, (string, u64) btree_map) btree_map" where
  "initial_inventories sc = fold (\<lambda>p m.
     if place_storage p = [] then m
     else bt_insert (place_id p)
            (bt_collect (map (\<lambda>(k, slot). (k, slot_initial slot)) (place_storage p))) m)
     (sc_places sc) []"

definition initial_freshness ::
  "sl1_scene \<Rightarrow> (string \<times> string, freshness_state) btree_map" where
  "initial_freshness sc = fold (\<lambda>p. fold (\<lambda>(k, slot).
       bt_insert (place_id p, k) (if 0 < slot_initial slot then FOk 0 else FNoData))
     (place_storage p)) (sc_places sc) []"

definition initial_capacity_used ::
  "sl1_scene \<Rightarrow> (string, (string, u64) btree_map) btree_map" where
  "initial_capacity_used sc = fold (\<lambda>p m.
     if place_capacity p = [] then m
     else bt_insert (place_id p)
            (bt_collect (map (\<lambda>k. (k, 0)) (bt_keys (place_capacity p)))) m)
     (sc_places sc) []"

definition is_deactivated_trigger :: "sl1_milestone_trigger \<Rightarrow> bool" where
  "is_deactivated_trigger t = (case t of PressureDeactivated _ \<Rightarrow> True | _ \<Rightarrow> False)"

definition from_scene :: "sl1_scene \<Rightarrow> sl1_runtime" where
  "from_scene sc =
    \<lparr>inventories = initial_inventories sc,
     freshness = initial_freshness sc,
     transforms = bt_collect (map (\<lambda>t. (transform_id t, TIdle)) (sc_transforms sc)),
     place_capacity_used = initial_capacity_used sc,
     pending_outputs = [],
     demand = bt_collect (map (\<lambda>d. (demand_id d, demand_runtime_default)) (sc_demand sc)),
     pressure = pressure_runtime_default,
     objectives =
       bt_collect (map (\<lambda>ob. (objective_id ob, objective_runtime_default)) (sc_objectives sc)),
     failure_conditions =
       bt_collect (map (\<lambda>fc. (fc_id fc, \<lparr>breach_streak_ticks = 0, fc_fired_at_tick = None\<rparr>))
         (sc_failure_conditions sc)),
     victory_conditions =
       bt_collect (map (\<lambda>vc. (vc_id vc, \<lparr>met_at_tick = None\<rparr>)) (sc_victory_conditions sc)),
     outcome = InProgress,
     phase = PhStabilizing,
     unsupported_objectives_warned = {},
     metric_states =
       (case sc_observability sc of None \<Rightarrow> []
        | Some obs \<Rightarrow> bt_collect (map (\<lambda>m. (metric_id m, MetricNoData)) (obs_metrics obs))),
     dashboard_states =
       (case sc_observability sc of None \<Rightarrow> []
        | Some obs \<Rightarrow> bt_collect (map (\<lambda>d. (dashboard_id d, DashNoData)) (obs_dashboards obs))),
     alert_states =
       (case sc_observability sc of None \<Rightarrow> []
        | Some obs \<Rightarrow> bt_collect (map (\<lambda>a. (alert_id a, AlertInactive)) (obs_alerts obs))),
     agents = bt_collect (map (\<lambda>a. (agent_id a, agent_runtime_default)) (sc_agents sc)),
     agent_demand_pauses = [],
     milestones =
       bt_collect (map (\<lambda>m. (milestone_id m,
         \<lparr>ms_fired_at_tick = None,
          ms_armed = (\<not> is_deactivated_trigger (milestone_trigger m))\<rparr>)) (sc_milestones sc))\<rparr>"

section \<open>The state the systems thread\<close>

record sl1_st =
  rt :: sl1_runtime
  evs :: "sim_event list"
  msgs :: "sim_message list"

text \<open>\<open>events.push\<close> and \<open>messages.push\<close>; an update of the runtime half.\<close>

definition push_event :: "sim_event \<Rightarrow> sl1_st \<Rightarrow> sl1_st" where
  "push_event e s = s\<lparr>evs := evs s @ [e]\<rparr>"

definition push_message :: "sim_message \<Rightarrow> sl1_st \<Rightarrow> sl1_st" where
  "push_message m s = s\<lparr>msgs := msgs s @ [m]\<rparr>"

definition with_rt :: "(sl1_runtime \<Rightarrow> sl1_runtime) \<Rightarrow> sl1_st \<Rightarrow> sl1_st" where
  "with_rt f s = s\<lparr>rt := f (rt s)\<rparr>"

lemma st_simps [simp]:
  "rt (push_event e s) = rt s" "evs (push_event e s) = evs s @ [e]"
  "msgs (push_event e s) = msgs s"
  "rt (push_message m s) = rt s" "evs (push_message m s) = evs s"
  "msgs (push_message m s) = msgs s @ [m]"
  "rt (with_rt f s) = f (rt s)" "evs (with_rt f s) = evs s" "msgs (with_rt f s) = msgs s"
  by (simp_all add: push_event_def push_message_def with_rt_def)

text \<open>Buffers only grow within a tick: the relation every system respects.\<close>

definition grows :: "sl1_st \<Rightarrow> sl1_st \<Rightarrow> bool" where
  "grows s t \<longleftrightarrow> (\<exists>es. evs t = evs s @ es) \<and> (\<exists>ms. msgs t = msgs s @ ms)"

lemma grows_refl [mono_append]: "grows s s"
  by (simp add: grows_def)

lemma grows_trans: "grows s t \<Longrightarrow> grows t u \<Longrightarrow> grows s u"
  by (auto simp: grows_def)

lemma grows_push [mono_append]:
  "grows s t \<Longrightarrow> grows s (push_event e t)" "grows s t \<Longrightarrow> grows s (push_message m t)"
  "grows s t \<Longrightarrow> grows s (with_rt f t)"
  by (auto simp: grows_def)

section \<open>The shape the systems rely on\<close>

definition rt_shape :: "sl1_scene \<Rightarrow> sl1_runtime \<Rightarrow> bool" where
  "rt_shape sc r \<longleftrightarrow>
     (\<forall>ob \<in> set (sc_objectives sc). bt_has (objectives r) (objective_id ob))
     \<and> (\<forall>fc \<in> set (sc_failure_conditions sc). bt_has (failure_conditions r) (fc_id fc))
     \<and> (\<forall>vc \<in> set (sc_victory_conditions sc). bt_has (victory_conditions r) (vc_id vc))
     \<and> (\<forall>m \<in> set (sc_milestones sc). bt_has (milestones r) (milestone_id m))
     \<and> (case sc_observability sc of None \<Rightarrow> True
        | Some obs \<Rightarrow>
           (\<forall>d \<in> set (obs_dashboards obs). bt_has (dashboard_states r) (dashboard_id d))
           \<and> (\<forall>a \<in> set (obs_alerts obs). bt_has (alert_states r) (alert_id a)))"

lemma rt_shape_from_scene: "rt_shape sc (from_scene sc)"
  by (auto simp: rt_shape_def from_scene_def bt_has_collect image_image split: option.splits)

text \<open>Extending the keys of the maps keeps the shape.\<close>

lemma rt_shape_mono:
  assumes "rt_shape sc r"
    and "\<And>k. bt_has (objectives r) k \<Longrightarrow> bt_has (objectives r') k"
    and "\<And>k. bt_has (failure_conditions r) k \<Longrightarrow> bt_has (failure_conditions r') k"
    and "\<And>k. bt_has (victory_conditions r) k \<Longrightarrow> bt_has (victory_conditions r') k"
    and "\<And>k. bt_has (milestones r) k \<Longrightarrow> bt_has (milestones r') k"
    and "\<And>k. bt_has (dashboard_states r) k \<Longrightarrow> bt_has (dashboard_states r') k"
    and "\<And>k. bt_has (alert_states r) k \<Longrightarrow> bt_has (alert_states r') k"
  shows "rt_shape sc r'"
  using assms unfolding rt_shape_def by (auto split: option.splits)

section \<open>Facts of the initial state\<close>

lemma get_initial_inventories:
  assumes "distinct (map place_id (sc_places sc))" and "p \<in> set (sc_places sc)"
    and "bt_wf (place_storage p)"
  shows "bt_get2 (initial_inventories sc) (place_id p) k
     = (case bt_get (place_storage p) k of None \<Rightarrow> 0 | Some slot \<Rightarrow> slot_initial slot)"
proof -
  let ?f = "\<lambda>p (m :: (string, (string, u64) btree_map) btree_map).
     if place_storage p = [] then m
     else bt_insert (place_id p)
            (bt_collect (map (\<lambda>(k, slot). (k, slot_initial slot)) (place_storage p))) m"
  let ?inv = "\<lambda>p. bt_collect (map (\<lambda>(k, slot). (k, slot_initial slot)) (place_storage p))"
  have notin: "q \<notin> place_id ` set ps \<Longrightarrow> bt_get (fold ?f ps m) q = bt_get m q" for q ps m
    by (induction ps arbitrary: m) auto
  have at: "distinct (map place_id ps) \<Longrightarrow> p \<in> set ps \<Longrightarrow>
      bt_get (fold ?f ps m) (place_id p) =
        (if place_storage p = [] then bt_get m (place_id p) else Some (?inv p))" for ps m
  proof (induction ps arbitrary: m)
    case (Cons q ps)
    then show ?case by (cases "p = q") (auto simp: notin image_iff)
  qed simp
  have dist: "distinct (map fst (map (\<lambda>(k, slot). (k, slot_initial slot)) (place_storage p)))"
    using bt_wf_distinct [OF assms(3)] by (simp add: case_prod_unfold comp_def)
  have "bt_get (?inv p) k = map_option slot_initial (bt_get (place_storage p) k)"
    using bt_get_collect [OF dist, of k] by (simp add: map_of_map)
  then show ?thesis
    unfolding initial_inventories_def bt_get2_def
    using at [OF assms(1,2), of "[]"] by (auto simp: bt_get_or_def split: option.splits)
qed

lemma get_initial_capacity_used: "bt_get2 (initial_capacity_used sc) p k = 0"
  unfolding initial_capacity_used_def
  by (rule fold_inv [where P = "\<lambda>m. bt_get2 m p k = 0"])
    (auto simp: bt_get_or_collect_const simp del: map_map)

lemma get_initial_transforms:
  "bt_get (transforms (from_scene sc)) k = Some ts \<Longrightarrow> ts = TIdle"
  by (auto simp: from_scene_def dest!: bt_get_collect_SomeD)


section \<open>The contract of a per-tick system\<close>

text \<open>
  What the tick relies on of each system it calls: on a runtime of the right shape, and
  under the system's own precondition, the system returns (no \<open>expect\<close> fails, no
  remainder by zero), it only appends to the buffers, and it keeps the shape. The
  pipeline of \<open>sl1_runtime::run\<close> is composed under this contract.
\<close>

locale sl1_system =
  fixes step :: "sl1_scene \<Rightarrow> u64 \<Rightarrow> sl1_st \<Rightarrow> sl1_st option"
    and pre :: "sl1_scene \<Rightarrow> u64 \<Rightarrow> sl1_runtime \<Rightarrow> bool"
  assumes returns:
      "scene_ok sc \<Longrightarrow> rt_shape sc (rt s) \<Longrightarrow> pre sc now (rt s) \<Longrightarrow> \<exists>t. step sc now s = Some t"
    and step_grows: "step sc now s = Some t \<Longrightarrow> grows s t"
    and step_shape: "step sc now s = Some t \<Longrightarrow> rt_shape sc (rt s) \<Longrightarrow> rt_shape sc (rt t)"
begin

lemma then_returns:
  assumes "scene_ok sc" and "rt_shape sc (rt s)" and "pre sc now (rt s)"
    and "\<And>t. step sc now s = Some t \<Longrightarrow> rt_shape sc (rt t) \<Longrightarrow>
      \<exists>u. k t = Some u \<and> rt_shape sc (rt u)"
  shows "\<exists>u. (step sc now s \<bind> k) = Some u \<and> rt_shape sc (rt u)"
proof -
  obtain t where t: "step sc now s = Some t" using returns assms(1-3) by blast
  with step_shape assms(2) have "rt_shape sc (rt t)" by blast
  with assms(4) [OF t] t show ?thesis by simp
qed

lemma then_grows:
  assumes "(step sc now s \<bind> k) = Some u" and "\<And>t. k t = Some u \<Longrightarrow> grows t u"
  shows "grows s u"
  using assms by (auto split: Option.bind_splits intro: grows_trans [OF step_grows])

end

end
