(* ===== verification/Demo.thy ===== *)
theory Demo
  imports Runtime
begin

text \<open>
  A small scene that exercises every section: a refinery that turns ore into gas, a demand
  for gas, a surge that multiplies the demand, a quota cut on the refinery's capacity, an
  objective, a failure and a victory condition, a dashboard, two metrics, an alert, two
  agents and two milestones. The properties of the development are applied to it.
\<close>

section \<open>The parts\<close>

definition demo_place :: sl1_place where
  "demo_place =
     \<lparr>place_id = ''yard'', place_role = ''refinery'', place_pos = (0, 0),
      place_shape = None, place_color = None, place_capacity = [(''slots'', 10)],
      place_storage =
        [(''gas'', \<lparr>slot_capacity = 60, slot_initial = 0\<rparr>),
         (''ore'', \<lparr>slot_capacity = 100, slot_initial = 25\<rparr>)],
      place_accepts = [''ore''], place_produces = [''gas''], place_failure_domains = [],
      place_operating_states =
        [(''busy'', \<lparr>os_predicate = UsedPercentGte ''slots'' 40, os_grace_ticks = None\<rparr>)]\<rparr>"

definition demo_thing :: "string \<Rightarrow> u64 option \<Rightarrow> sl1_thing" where
  "demo_thing i budget =
     \<lparr>thing_id = i, thing_kind = ''fluid'', thing_tags = [], thing_schema_version = None,
      thing_freshness_budget_ticks = budget, thing_quality_contract = None, thing_render = None\<rparr>"

definition demo_transform :: sl1_transform where
  "demo_transform =
     \<lparr>transform_id = ''refine'', transform_kind = ''batch'', transform_runs_on = ''yard'',
      transform_inputs = [\<lparr>io_thing_id = ''ore'', io_amount = 10\<rparr>],
      transform_outputs = [\<lparr>io_thing_id = ''gas'', io_amount = 20\<rparr>],
      transform_cadence_ticks = 2, transform_duration_ticks = 1, transform_deadline_ticks = 2,
      transform_capacity_cost = [(''slots'', 4)], transform_failure_policy = RetryThenWarn,
      transform_max_attempts = 3\<rparr>"

definition demo_demand :: sl1_demand where
  "demo_demand =
     \<lparr>demand_id = ''feed'', demand_kind = ''order'', demand_target = TargetPlace ''yard'',
      demand_requires = [''gas''], demand_spawn_schedule = Fixed 1 1, demand_deadline_ticks = 1,
      demand_priority = PriNormal, demand_value = 5,
      demand_penalty = \<lparr>penalty_score = -1, penalty_warning = None\<rparr>\<rparr>"

definition demo_surge :: sl1_pressure where
  "demo_surge =
     \<lparr>pressure_id = ''surge'', pressure_kind = KDemandGrowth, pressure_at_tick = 2,
      pressure_duration_ticks = 2, pressure_target = ''feed'', pressure_params = DemandGrowth 2\<rparr>"

definition demo_cut :: sl1_pressure where
  "demo_cut =
     \<lparr>pressure_id = ''cut'', pressure_kind = KQuotaReduction, pressure_at_tick = 1,
      pressure_duration_ticks = 3, pressure_target = ''yard'',
      pressure_params = QuotaReduction ''slots'' 50\<rparr>"

definition demo_objective :: sl1_objective where
  "demo_objective =
     \<lparr>objective_id = ''fresh_gas'', objective_kind = OKeepFresh, objective_weight = 1,
      objective_params = KeepFresh ''yard'' ''gas'' 2\<rparr>"

definition demo_failure :: sl1_failure_condition where
  "demo_failure =
     \<lparr>fc_id = ''overrun'', fc_kind = FObjectiveBreachCount,
      fc_params = ObjectiveBreachCount ''fresh_gas'' 3\<rparr>"

definition demo_victory :: sl1_victory_condition where
  "demo_victory = \<lparr>vc_id = ''hold'', vc_kind = VSurviveUntil, vc_params = SurviveUntil 3\<rparr>"

definition demo_agent :: sl1_agent where
  "demo_agent =
     \<lparr>agent_id = ''planner'', agent_kind = AMock, agent_role = ''ops'', agent_interval_ticks = 2,
      agent_observation_scope = [ObsDemand ''feed''], agent_allowed_actions = [ThrottleDemandKind],
      agent_max_cost_per_decision = 1, agent_cooldown_ticks = 4, agent_objective_weights = []\<rparr>"

definition demo_llm :: sl1_agent where
  "demo_llm = demo_agent\<lparr>agent_id := ''zed'', agent_kind := ALlm\<rparr>"

definition demo_observability :: sl1_observability where
  "demo_observability =
     \<lparr>obs_metrics =
        [\<lparr>metric_id = ''age'', metric_source = DashboardFreshness ''board''\<rparr>,
         \<lparr>metric_id = ''gas'', metric_source = PlaceInventoryCount ''yard'' ''gas''\<rparr>],
      obs_dashboards =
        [\<lparr>dashboard_id = ''board'', dashboard_kind = DLive, dashboard_depends_on = [''gas''],
          dashboard_freshness_slo_ticks = 3\<rparr>],
      obs_alerts =
        [\<lparr>alert_id = ''low'', alert_metric = ''gas'', alert_predicate = AlertLt 10,
          alert_severity = SevWarning\<rparr>]\<rparr>"

definition demo_milestone :: sl1_milestone where
  "demo_milestone =
     \<lparr>milestone_id = ''after_surge'', milestone_trigger = PressureDeactivated ''surge'',
      milestone_label = ''calm'', milestone_camera_focus = [], milestone_highlight = None\<rparr>"

definition demo_milestone2 :: sl1_milestone where
  "demo_milestone2 =
     \<lparr>milestone_id = ''gas_up'', milestone_trigger = MetricThreshold ''gas'' MGte 20,
      milestone_label = ''gas'', milestone_camera_focus = [''yard''], milestone_highlight = None\<rparr>"

section \<open>The scene\<close>

definition demo :: sl1_scene where
  "demo =
     \<lparr>sc_schema_version = 1, sc_places = [demo_place], sc_links = [],
      sc_things = [demo_thing ''gas'' (Some 2), demo_thing ''ore'' None],
      sc_transforms = [demo_transform], sc_demand = [demo_demand],
      sc_pressure = [demo_cut, demo_surge], sc_objectives = [demo_objective],
      sc_failure_conditions = [demo_failure], sc_victory_conditions = [demo_victory],
      sc_agents = [demo_agent, demo_llm], sc_observability = Some demo_observability,
      sc_milestones = [demo_milestone, demo_milestone2]\<rparr>"

lemmas demo_defs = demo_def demo_place_def demo_thing_def demo_transform_def demo_demand_def
  demo_surge_def demo_cut_def demo_objective_def demo_failure_def demo_victory_def
  demo_agent_def demo_llm_def demo_observability_def demo_milestone_def demo_milestone2_def

lemma demo_ok: "scene_ok demo"
  by (simp add: scene_ok_def demo_defs place_ok_def transform_ok_def demand_ok_def pressure_ok_def
      observability_ok_def ios_ok_def bt_wf_def bt_has_def MAX_TRANSFORM_AMOUNT_def
      MAX_TRANSFORM_TICKS_def MAX_TRANSFORM_MAX_ATTEMPTS_def MAX_TRANSFORM_CAPACITY_COST_def
      MAX_DEMAND_TICKS_def MAX_PRESSURE_TICKS_def MAX_SL1_ITEMS_PER_SECTION_def)

end
