(* ===== verification/Pressure.thy ===== *)
theory Pressure
  imports Runtime
begin

text \<open>
  \<open>crates/engine/src/sl1_pressure.rs\<close>: the scheduled pressures. One tick deactivates the
  pressures whose window is over, activates those whose window contains \<open>now\<close>, rebuilds
  the overlays the other systems read, and injects the inventory of active source
  multipliers. The lemmas give the active set, the overlays and the injection their
  declarative reading: windows, capped sums and a clamp.
\<close>

section \<open>The code\<close>

definition pressure_def :: "sl1_scene \<Rightarrow> string \<Rightarrow> sl1_pressure option" where
  "pressure_def sc i = find (\<lambda>p. pressure_id p = i) (sc_pressure sc)"

definition upd_pressure ::
  "(sl1_pressure_runtime \<Rightarrow> sl1_pressure_runtime) \<Rightarrow> sl1_runtime \<Rightarrow> sl1_runtime" where
  "upd_pressure f r = r\<lparr>pressure := f (pressure r)\<rparr>"

definition expired_ids :: "sl1_scene \<Rightarrow> u64 \<Rightarrow> sl1_runtime \<Rightarrow> string list" where
  "expired_ids sc now r = filter (\<lambda>i.
     case pressure_def sc i of None \<Rightarrow> False | Some d \<Rightarrow> end_tick d \<le> now)
     (bt_keys (pr_active (pressure r)))"

definition deactivate_one :: "sl1_scene \<Rightarrow> u64 \<Rightarrow> string \<Rightarrow> sl1_st \<Rightarrow> sl1_st" where
  "deactivate_one sc now i s =
     (let s1 = with_rt (upd_pressure (\<lambda>p. p
            \<lparr>pr_active := bt_remove i (pr_active p),
             pr_source_inject_carry_milli :=
               bt_retain (\<lambda>(pid, _, _). pid \<noteq> i) (pr_source_inject_carry_milli p),
             pr_unsupported_warned := pr_unsupported_warned p - {i}\<rparr>)) s
      in case pressure_def sc i of
           None \<Rightarrow> s1
         | Some d \<Rightarrow> push_event
             (Sl1PressureLifecycle i (pressure_kind_str (pressure_kind d))
               PressureDeactivatedEv now) s1)"

definition in_window :: "u64 \<Rightarrow> sl1_pressure \<Rightarrow> bool" where
  "in_window now d \<longleftrightarrow> pressure_at_tick d \<le> now \<and> now < end_tick d"

definition activate_one :: "u64 \<Rightarrow> sl1_pressure \<Rightarrow> sl1_st \<Rightarrow> sl1_st" where
  "activate_one now d s =
     (if in_window now d \<and> \<not> bt_has (pr_active (pressure (rt s))) (pressure_id d) then
        let kind = pressure_kind_str (pressure_kind d);
            s1 = with_rt (upd_pressure (\<lambda>p. p
                   \<lparr>pr_active := bt_insert (pressure_id d) now (pr_active p)\<rparr>)) s;
            s2 = push_event (Sl1PressureLifecycle (pressure_id d) kind PressureActivatedEv now) s1
        in if \<not> has_runtime_effect_in_pr7 (pressure_kind d)
              \<and> pressure_id d \<notin> pr_unsupported_warned (pressure (rt s2))
           then push_message
                  (Warning (Sl1PressureWarning (pressure_id d) WarnPressureUnsupported kind now))
                  (with_rt (upd_pressure (\<lambda>p. p
                     \<lparr>pr_unsupported_warned :=
                        insert (pressure_id d) (pr_unsupported_warned p)\<rparr>)) s2)
           else s2
      else s)"

text \<open>The overlays: the three local collections of \<open>rebuild_overlays\<close>, one pass.\<close>

type_synonym overlays =
  "(string, u32) btree_map \<times> (string \<times> string, u8) btree_map \<times> string set"

fun overlay_step ::
  "(string, u64) btree_map \<Rightarrow> sl1_pressure \<Rightarrow> overlays \<Rightarrow> overlays" where
  "overlay_step active d (growth, quota, outaged) =
     (if \<not> bt_has active (pressure_id d) then (growth, quota, outaged)
      else case pressure_params d of
        DemandGrowth m \<Rightarrow>
          (bt_upsert (pressure_target d) 0 (\<lambda>e. sat_add e m) growth, quota, outaged)
      | QuotaReduction cap red \<Rightarrow>
          (growth, bt_upsert (pressure_target d, cap) 0 (\<lambda>e. min (sat_add e red) 100) quota,
           outaged)
      | PathOutage \<Rightarrow> (growth, quota, insert (pressure_target d) outaged)
      | SourceMultiplier _ _ \<Rightarrow> (growth, quota, outaged)
      | PressureUnsupported \<Rightarrow> (growth, quota, outaged))"

definition rebuild_overlays :: "sl1_scene \<Rightarrow> sl1_runtime \<Rightarrow> sl1_runtime" where
  "rebuild_overlays sc r =
     (let (growth, quota, outaged) =
            fold (overlay_step (pr_active (pressure r))) (sc_pressure sc) ([], [], {})
      in upd_pressure (\<lambda>p. p
           \<lparr>pr_demand_spawn_multiplier := growth, pr_quota_reduction := quota,
            pr_outaged_links := outaged\<rparr>) r)"

definition storage_caps :: "sl1_scene \<Rightarrow> (string \<times> string, u64) btree_map" where
  "storage_caps sc = fold (\<lambda>p. fold (\<lambda>(k, slot).
       bt_insert (place_id p, k) (slot_capacity slot)) (place_storage p)) (sc_places sc) []"

definition active_injections ::
  "sl1_scene \<Rightarrow> sl1_runtime \<Rightarrow> (string \<times> string \<times> string \<times> u64) list" where
  "active_injections sc r = List.map_filter (\<lambda>d.
     if bt_has (pr_active (pressure r)) (pressure_id d) then
       (case pressure_params d of
          SourceMultiplier thing milli \<Rightarrow> Some (pressure_id d, pressure_target d, thing, milli)
        | _ \<Rightarrow> None)
     else None) (sc_pressure sc)"

fun inject_one ::
  "(string \<times> string, u64) btree_map \<Rightarrow> string \<times> string \<times> string \<times> u64
    \<Rightarrow> sl1_runtime \<Rightarrow> sl1_runtime" where
  "inject_one caps (pid, place, thing, milli) r =
     (let key = (pid, place, thing);
          carry = sat_add (bt_get_or 0 (pr_source_inject_carry_milli (pressure r)) key) milli;
          whole = carry div 1000;
          r1 = upd_pressure (\<lambda>p. p\<lparr>pr_source_inject_carry_milli :=
                 bt_insert key (carry mod 1000) (pr_source_inject_carry_milli p)\<rparr>) r
      in if whole = 0 then r1
         else let cap = bt_get_or 0 caps (place, thing)
              in r1\<lparr>inventories := bt_upsert2 place thing
                   (\<lambda>cur. sat_add cur (min whole (sat_sub cap cur))) (inventories r1)\<rparr>)"

definition apply_source_injection :: "sl1_scene \<Rightarrow> sl1_runtime \<Rightarrow> sl1_runtime" where
  "apply_source_injection sc r = fold (inject_one (storage_caps sc)) (active_injections sc r) r"

definition pressure_run :: "sl1_scene \<Rightarrow> u64 \<Rightarrow> sl1_st \<Rightarrow> sl1_st" where
  "pressure_run sc now s =
     (if sc_pressure sc = [] then s
      else let s1 = fold (deactivate_one sc now) (expired_ids sc now (rt s)) s;
               s2 = fold (activate_one now) (sc_pressure sc) s1;
               s3 = with_rt (rebuild_overlays sc) s2
           in with_rt (apply_source_injection sc) s3)"

definition effective_spawn_count :: "sl1_pressure_runtime \<Rightarrow> string \<Rightarrow> u32" where
  "effective_spawn_count p d = sat_add 1 (bt_get_or 0 (pr_demand_spawn_multiplier p) d)"

definition effective_capacity ::
  "sl1_pressure_runtime \<Rightarrow> string \<Rightarrow> string \<Rightarrow> u64 \<Rightarrow> u64" where
  "effective_capacity p place bucket base =
     (let reduction = bt_get_or 0 (pr_quota_reduction p) (place, bucket)
      in if reduction = 0 then base
         else let remaining = ucast (sat_sub 100 reduction) :: u64
              in sat_mul base remaining div 100)"

section \<open>Frames\<close>

lemma upd_pressure_simps [simp, frame_simps]:
  "pressure (upd_pressure f r) = f (pressure r)"
  "inventories (upd_pressure f r) = inventories r"
  "freshness (upd_pressure f r) = freshness r"
  "transforms (upd_pressure f r) = transforms r"
  "place_capacity_used (upd_pressure f r) = place_capacity_used r"
  "pending_outputs (upd_pressure f r) = pending_outputs r"
  "demand (upd_pressure f r) = demand r"
  "objectives (upd_pressure f r) = objectives r"
  "failure_conditions (upd_pressure f r) = failure_conditions r"
  "victory_conditions (upd_pressure f r) = victory_conditions r"
  "outcome (upd_pressure f r) = outcome r"
  "phase (upd_pressure f r) = phase r"
  "metric_states (upd_pressure f r) = metric_states r"
  "dashboard_states (upd_pressure f r) = dashboard_states r"
  "alert_states (upd_pressure f r) = alert_states r"
  "agents (upd_pressure f r) = agents r"
  "agent_demand_pauses (upd_pressure f r) = agent_demand_pauses r"
  "milestones (upd_pressure f r) = milestones r"
  "unsupported_objectives_warned (upd_pressure f r) = unsupported_objectives_warned r"
  by (simp_all add: upd_pressure_def)

text \<open>Everything but the pressure overlay and the inventories is untouched.\<close>

definition pressure_frame :: "sl1_runtime \<Rightarrow> sl1_runtime \<Rightarrow> bool" where
  "pressure_frame r r' \<longleftrightarrow>
     freshness r' = freshness r \<and> transforms r' = transforms r
     \<and> place_capacity_used r' = place_capacity_used r \<and> pending_outputs r' = pending_outputs r
     \<and> demand r' = demand r \<and> objectives r' = objectives r
     \<and> failure_conditions r' = failure_conditions r
     \<and> victory_conditions r' = victory_conditions r \<and> outcome r' = outcome r
     \<and> phase r' = phase r \<and> metric_states r' = metric_states r
     \<and> unsupported_objectives_warned r' = unsupported_objectives_warned r
     \<and> dashboard_states r' = dashboard_states r \<and> alert_states r' = alert_states r
     \<and> agents r' = agents r \<and> agent_demand_pauses r' = agent_demand_pauses r
     \<and> milestones r' = milestones r"

lemma pressure_frame_refl: "pressure_frame r r"
  by (simp add: pressure_frame_def)

lemma pressure_frame_trans: "pressure_frame a b \<Longrightarrow> pressure_frame b c \<Longrightarrow> pressure_frame a c"
  by (simp add: pressure_frame_def)

lemma pressure_frame_upd [intro]: "pressure_frame r (upd_pressure f r)"
  by (simp add: pressure_frame_def)

lemma pressure_frame_inject: "pressure_frame r (inject_one caps e r)"
  by (cases e) (simp add: pressure_frame_def Let_def)

lemma deactivate_one_rt:
  "rt (deactivate_one sc now i s) = upd_pressure (\<lambda>p. p
     \<lparr>pr_active := bt_remove i (pr_active p),
      pr_source_inject_carry_milli :=
        bt_retain (\<lambda>(pid, _, _). pid \<noteq> i) (pr_source_inject_carry_milli p),
      pr_unsupported_warned := pr_unsupported_warned p - {i}\<rparr>) (rt s)"
  by (simp add: deactivate_one_def Let_def split: option.splits)

lemma activate_one_frame: "pressure_frame (rt s) (rt (activate_one now d s))"
  by (simp add: activate_one_def Let_def pressure_frame_def)

lemma pressure_run_rt_frame: "pressure_frame (rt s) (rt (pressure_run sc now s))"
proof -
  let ?R = "\<lambda>s t. pressure_frame (rt s) (rt t)"
  define s1 where "s1 = fold (deactivate_one sc now) (expired_ids sc now (rt s)) s"
  define s2 where "s2 = fold (activate_one now) (sc_pressure sc) s1"
  define r3 where "r3 = rebuild_overlays sc (rt s2)"
  have "?R s s1" unfolding s1_def
    by (rule fold_rel) (auto simp: pressure_frame_refl deactivate_one_rt
        intro: pressure_frame_trans)
  moreover have "?R s1 s2" unfolding s2_def
    by (rule fold_rel) (auto simp: pressure_frame_refl activate_one_frame
        intro: pressure_frame_trans)
  moreover have "pressure_frame (rt s2) r3"
    by (auto simp: r3_def rebuild_overlays_def Let_def split: prod.splits)
  moreover have "pressure_frame r3 (apply_source_injection sc r3)"
    unfolding apply_source_injection_def
    by (rule fold_rel) (auto simp: pressure_frame_refl pressure_frame_inject
        intro: pressure_frame_trans)
  ultimately show ?thesis
    unfolding pressure_run_def s1_def s2_def r3_def
    by (auto simp: pressure_frame_refl Let_def intro: pressure_frame_trans)
qed

lemma pressure_run_frame [simp, frame_simps]:
  "freshness (rt (pressure_run sc now s)) = freshness (rt s)"
  "transforms (rt (pressure_run sc now s)) = transforms (rt s)"
  "place_capacity_used (rt (pressure_run sc now s)) = place_capacity_used (rt s)"
  "pending_outputs (rt (pressure_run sc now s)) = pending_outputs (rt s)"
  "demand (rt (pressure_run sc now s)) = demand (rt s)"
  "objectives (rt (pressure_run sc now s)) = objectives (rt s)"
  "failure_conditions (rt (pressure_run sc now s)) = failure_conditions (rt s)"
  "victory_conditions (rt (pressure_run sc now s)) = victory_conditions (rt s)"
  "outcome (rt (pressure_run sc now s)) = outcome (rt s)"
  "phase (rt (pressure_run sc now s)) = phase (rt s)"
  "metric_states (rt (pressure_run sc now s)) = metric_states (rt s)"
  "dashboard_states (rt (pressure_run sc now s)) = dashboard_states (rt s)"
  "alert_states (rt (pressure_run sc now s)) = alert_states (rt s)"
  "agents (rt (pressure_run sc now s)) = agents (rt s)"
  "agent_demand_pauses (rt (pressure_run sc now s)) = agent_demand_pauses (rt s)"
  "milestones (rt (pressure_run sc now s)) = milestones (rt s)"
  using pressure_run_rt_frame [of s sc now] by (simp_all add: pressure_frame_def)

section \<open>The active set is the set of open windows\<close>

lemma pressure_def_SomeD:
  "pressure_def sc i = Some d \<Longrightarrow> d \<in> set (sc_pressure sc) \<and> pressure_id d = i"
  unfolding pressure_def_def by (drule find_SomeD) simp

lemma pressure_def_declared:
  "distinct (map pressure_id (sc_pressure sc)) \<Longrightarrow> d \<in> set (sc_pressure sc)
    \<Longrightarrow> pressure_def sc (pressure_id d) = Some d"
  unfolding pressure_def_def by (rule find_Some_iff_id)

lemma active_rebuild [simp]:
  "pr_active (pressure (rebuild_overlays sc r)) = pr_active (pressure r)"
  by (simp add: rebuild_overlays_def Let_def split: prod.splits)

lemma active_inject [simp]:
  "pr_active (pressure (inject_one caps e r)) = pr_active (pressure r)"
  "pr_demand_spawn_multiplier (pressure (inject_one caps e r))
     = pr_demand_spawn_multiplier (pressure r)"
  "pr_quota_reduction (pressure (inject_one caps e r)) = pr_quota_reduction (pressure r)"
  "pr_outaged_links (pressure (inject_one caps e r)) = pr_outaged_links (pressure r)"
  by (cases e; simp add: Let_def)+

lemma active_source_injection [simp]:
  "pr_active (pressure (apply_source_injection sc r)) = pr_active (pressure r)"
  "pr_demand_spawn_multiplier (pressure (apply_source_injection sc r))
     = pr_demand_spawn_multiplier (pressure r)"
  "pr_quota_reduction (pressure (apply_source_injection sc r)) = pr_quota_reduction (pressure r)"
  "pr_outaged_links (pressure (apply_source_injection sc r)) = pr_outaged_links (pressure r)"
  unfolding apply_source_injection_def
  by (rule fold_inv [where P = "\<lambda>r'. pr_active (pressure r') = pr_active (pressure r)"],
      simp_all)
    (rule fold_inv [where P = "\<lambda>r'. pr_demand_spawn_multiplier (pressure r')
      = pr_demand_spawn_multiplier (pressure r)"], simp_all,
     rule fold_inv [where P = "\<lambda>r'. pr_quota_reduction (pressure r')
      = pr_quota_reduction (pressure r)"], simp_all,
     rule fold_inv [where P = "\<lambda>r'. pr_outaged_links (pressure r')
      = pr_outaged_links (pressure r)"], simp_all)

lemma active_deactivate:
  "bt_get (pr_active (pressure (rt (fold (deactivate_one sc now) ids s)))) k
     = (if k \<in> set ids then None else bt_get (pr_active (pressure (rt s))) k)"
  by (induction ids arbitrary: s) (auto simp: deactivate_one_rt)

lemma active_activate_one:
  "bt_has (pr_active (pressure (rt (activate_one now d s)))) k
     \<longleftrightarrow> bt_has (pr_active (pressure (rt s))) k \<or> (pressure_id d = k \<and> in_window now d)"
  by (auto simp: activate_one_def Let_def)

lemma active_activate:
  "bt_has (pr_active (pressure (rt (fold (activate_one now) ds s)))) k
     \<longleftrightarrow> bt_has (pr_active (pressure (rt s))) k
        \<or> (\<exists>d \<in> set ds. pressure_id d = k \<and> in_window now d)"
  by (induction ds arbitrary: s) (auto simp: active_activate_one)

lemma set_expired_ids:
  "k \<in> set (expired_ids sc now r) \<longleftrightarrow>
     bt_has (pr_active (pressure r)) k
     \<and> (\<exists>d. pressure_def sc k = Some d \<and> end_tick d \<le> now)"
  unfolding expired_ids_def set_filter bt_has_keys by (auto split: option.splits)

text \<open>Active ids are declared and their windows have opened: kept from tick to tick.\<close>

definition active_declared :: "sl1_scene \<Rightarrow> u64 \<Rightarrow> sl1_runtime \<Rightarrow> bool" where
  "active_declared sc now r \<longleftrightarrow>
     (\<forall>k. bt_has (pr_active (pressure r)) k \<longrightarrow>
        (\<exists>p \<in> set (sc_pressure sc). pressure_id p = k \<and> pressure_at_tick p \<le> now))"

lemma active_declared_mono: "active_declared sc now r \<Longrightarrow> now \<le> now' \<Longrightarrow> active_declared sc now' r"
  unfolding active_declared_def by (meson order_trans)

lemma active_declared_from_scene: "active_declared sc now (from_scene sc)"
  by (simp add: active_declared_def from_scene_def pressure_runtime_default_def)

lemma pressure_run_active_iff:
  assumes "distinct (map pressure_id (sc_pressure sc))" and "active_declared sc now (rt s)"
  shows "bt_has (pr_active (pressure (rt (pressure_run sc now s)))) k
    \<longleftrightarrow> (\<exists>p \<in> set (sc_pressure sc). pressure_id p = k \<and> in_window now p)"
proof (cases "sc_pressure sc = []")
  case True
  with assms(2) show ?thesis
    by (simp add: pressure_run_def active_declared_def)
next
  case False
  let ?s1 = "fold (deactivate_one sc now) (expired_ids sc now (rt s)) s"
  have old: "bt_has (pr_active (pressure (rt ?s1))) k \<Longrightarrow>
      \<exists>p \<in> set (sc_pressure sc). pressure_id p = k \<and> in_window now p"
  proof -
    assume "bt_has (pr_active (pressure (rt ?s1))) k"
    then have has: "bt_has (pr_active (pressure (rt s))) k"
      and notexp: "k \<notin> set (expired_ids sc now (rt s))"
      by (auto simp: bt_has_def active_deactivate split: if_splits)
    from has assms(2) obtain p where p: "p \<in> set (sc_pressure sc)" "pressure_id p = k"
      "pressure_at_tick p \<le> now"
      by (auto simp: active_declared_def)
    with pressure_def_declared [OF assms(1) p(1)] has notexp have "now < end_tick p"
      by (auto simp: set_expired_ids)
    with p show ?thesis by (auto simp: in_window_def)
  qed
  with False show ?thesis
    unfolding pressure_run_def by (auto simp: Let_def active_activate)
qed

lemma active_declared_pressure_run:
  assumes "distinct (map pressure_id (sc_pressure sc))" and "active_declared sc now (rt s)"
  shows "active_declared sc now (rt (pressure_run sc now s))"
  using pressure_run_active_iff [OF assms]
  by (auto simp: active_declared_def in_window_def)

section \<open>The lifecycle events are the edges of the active set\<close>

definition deactivated_event :: "sl1_scene \<Rightarrow> u64 \<Rightarrow> string \<Rightarrow> sim_event" where
  "deactivated_event sc now i = Sl1PressureLifecycle i
     (case pressure_def sc i of None \<Rightarrow> [] | Some d \<Rightarrow> pressure_kind_str (pressure_kind d))
     PressureDeactivatedEv now"

definition activated_event :: "u64 \<Rightarrow> sl1_pressure \<Rightarrow> sim_event" where
  "activated_event now d = Sl1PressureLifecycle (pressure_id d)
     (pressure_kind_str (pressure_kind d)) PressureActivatedEv now"

lemma evs_deactivate:
  "(\<And>i. i \<in> set ids \<Longrightarrow> pressure_def sc i \<noteq> None) \<Longrightarrow>
   evs (fold (deactivate_one sc now) ids s) = evs s @ map (deactivated_event sc now) ids"
  by (induction ids arbitrary: s)
    (auto simp: deactivate_one_def deactivated_event_def Let_def split: option.splits)

lemma evs_activate:
  assumes "distinct (map pressure_id ds)"
  shows "evs (fold (activate_one now) ds s) = evs s @ map (activated_event now)
    (filter (\<lambda>d. in_window now d \<and> \<not> bt_has (pr_active (pressure (rt s))) (pressure_id d)) ds)"
  using assms
proof (induction ds arbitrary: s)
  case (Cons d ds)
  have "filter (\<lambda>x. in_window now x
          \<and> \<not> bt_has (pr_active (pressure (rt (activate_one now d s)))) (pressure_id x)) ds
      = filter (\<lambda>x. in_window now x \<and> \<not> bt_has (pr_active (pressure (rt s))) (pressure_id x)) ds"
    using Cons.prems by (intro filter_cong) (auto simp: active_activate_one)
  with Cons show ?case
    by (auto simp: activate_one_def activated_event_def Let_def)
qed simp

lemma evs_with_rt_run:
  "sc_pressure sc \<noteq> [] \<Longrightarrow> evs (pressure_run sc now s) =
     evs (fold (activate_one now) (sc_pressure sc)
       (fold (deactivate_one sc now) (expired_ids sc now (rt s)) s))"
  by (simp add: pressure_run_def Let_def)

lemma pressure_run_events:
  assumes "distinct (map pressure_id (sc_pressure sc))" and "active_declared sc now (rt s)"
  shows "evs (pressure_run sc now s) = evs s
    @ map (deactivated_event sc now) (expired_ids sc now (rt s))
    @ map (activated_event now)
        (filter (\<lambda>d. in_window now d \<and> \<not> bt_has (pr_active (pressure (rt s))) (pressure_id d))
          (sc_pressure sc))"
proof (cases "sc_pressure sc = []")
  case True
  then show ?thesis
    by (simp add: pressure_run_def expired_ids_def pressure_def_def)
next
  case False
  let ?ids = "expired_ids sc now (rt s)"
  let ?s1 = "fold (deactivate_one sc now) ?ids s"
  have "in_window now d \<Longrightarrow> d \<in> set (sc_pressure sc) \<Longrightarrow> pressure_id d \<notin> set ?ids" for d
    using pressure_def_declared [OF assms(1)]
    by (auto simp: set_expired_ids in_window_def)
  then have "filter (\<lambda>d. in_window now d
        \<and> \<not> bt_has (pr_active (pressure (rt ?s1))) (pressure_id d)) (sc_pressure sc)
      = filter (\<lambda>d. in_window now d
        \<and> \<not> bt_has (pr_active (pressure (rt s))) (pressure_id d)) (sc_pressure sc)"
    by (intro filter_cong) (auto simp: bt_has_def active_deactivate)
  with False show ?thesis
    by (simp add: evs_with_rt_run evs_activate [OF assms(1)] evs_deactivate set_expired_ids)
      (subst evs_deactivate, auto simp: set_expired_ids)
qed

lemma pressure_run_grows: "grows s (pressure_run sc now s)"
proof -
  have "grows s (fold (deactivate_one sc now) ids s)" for ids
    by (rule fold_rel [OF grows_refl grows_trans])
      (auto simp: deactivate_one_def Let_def intro: mono_append split: option.splits)
  moreover have "grows t (fold (activate_one now) ds t)" for ds t
    by (rule fold_rel [OF grows_refl grows_trans])
      (auto simp: activate_one_def Let_def intro!: mono_append)
  ultimately show ?thesis
    unfolding pressure_run_def
    by (simp add: Let_def grows_refl) (meson grows_push(3) grows_trans)
qed

section \<open>The overlays are capped sums over the active pressures\<close>

definition growth_of :: "(string, u64) btree_map \<Rightarrow> string \<Rightarrow> sl1_pressure \<Rightarrow> nat" where
  "growth_of active dem p =
     (if bt_has active (pressure_id p) \<and> pressure_target p = dem
      then (case pressure_params p of DemandGrowth m \<Rightarrow> unat m | _ \<Rightarrow> 0) else 0)"

definition reduction_of ::
  "(string, u64) btree_map \<Rightarrow> string \<times> string \<Rightarrow> sl1_pressure \<Rightarrow> nat" where
  "reduction_of active key p =
     (if bt_has active (pressure_id p)
      then (case pressure_params p of
              QuotaReduction cap red \<Rightarrow> if (pressure_target p, cap) = key then unat red else 0
            | _ \<Rightarrow> 0) else 0)"

lemma overlay_growth:
  "unat (bt_get_or 0 (fst (fold (overlay_step active) ps (g, q, w))) dem)
     = min (unat (bt_get_or 0 g dem) + sum_list (map (growth_of active dem) ps)) (2 ^ 32 - 1)"
proof (induction ps arbitrary: g q w)
  case Nil
  then show ?case using unat_max [of "bt_get_or 0 g dem"] by simp
next
  case (Cons p ps)
  then show ?case
    using unat_max [of "bt_get_or 0 g dem"]
    by (auto simp: growth_of_def unat_sat_add split: sl1_pressure_params.splits)
qed

lemma overlay_quota:
  "unat (bt_get_or 0 q key) \<le> 100 \<Longrightarrow>
   unat (bt_get_or 0 (fst (snd (fold (overlay_step active) ps (g, q, w)))) key)
     = min (unat (bt_get_or 0 q key) + sum_list (map (reduction_of active key) ps)) 100"
proof (induction ps arbitrary: g q w)
  case (Cons p ps)
  then show ?case
    by (auto simp: reduction_of_def unat_sat_add unat_min split: sl1_pressure_params.splits)
qed simp

lemma overlay_outaged:
  "snd (snd (fold (overlay_step active) ps (g, q, w)))
     = w \<union> pressure_target ` {p \<in> set ps. bt_has active (pressure_id p)
         \<and> pressure_params p = PathOutage}"
proof (induction ps arbitrary: g q w)
  case (Cons p ps)
  then show ?case by (auto split: sl1_pressure_params.splits)
qed simp

lemma rebuild_growth:
  "unat (bt_get_or 0 (pr_demand_spawn_multiplier (pressure (rebuild_overlays sc r))) dem)
     = min (sum_list (map (growth_of (pr_active (pressure r)) dem) (sc_pressure sc))) (2 ^ 32 - 1)"
  using overlay_growth [of "pr_active (pressure r)" "sc_pressure sc" "[]" "[]" "{}" dem]
  by (auto simp: rebuild_overlays_def Let_def split: prod.splits)

lemma rebuild_quota:
  "unat (bt_get_or 0 (pr_quota_reduction (pressure (rebuild_overlays sc r))) key)
     = min (sum_list (map (reduction_of (pr_active (pressure r)) key) (sc_pressure sc))) 100"
  using overlay_quota [of "[]" key "pr_active (pressure r)" "sc_pressure sc" "[]" "{}"]
  by (auto simp: rebuild_overlays_def Let_def split: prod.splits)

lemma rebuild_outaged:
  "pr_outaged_links (pressure (rebuild_overlays sc r))
     = pressure_target ` {p \<in> set (sc_pressure sc).
         bt_has (pr_active (pressure r)) (pressure_id p) \<and> pressure_params p = PathOutage}"
  using overlay_outaged [of "pr_active (pressure r)" "sc_pressure sc" "[]" "[]" "{}"]
  by (auto simp: rebuild_overlays_def Let_def split: prod.splits)

text \<open>
  After a tick the overlays are those of the pressures whose window is open at that tick.
\<close>

definition open_ids :: "sl1_scene \<Rightarrow> u64 \<Rightarrow> string set" where
  "open_ids sc now = pressure_id ` {p \<in> set (sc_pressure sc). in_window now p}"

definition open_growth :: "sl1_scene \<Rightarrow> u64 \<Rightarrow> string \<Rightarrow> nat" where
  "open_growth sc now dem = sum_list (map (\<lambda>p.
     if in_window now p \<and> pressure_target p = dem
     then (case pressure_params p of DemandGrowth m \<Rightarrow> unat m | _ \<Rightarrow> 0) else 0) (sc_pressure sc))"

definition open_reduction :: "sl1_scene \<Rightarrow> u64 \<Rightarrow> string \<times> string \<Rightarrow> nat" where
  "open_reduction sc now key = sum_list (map (\<lambda>p.
     if in_window now p
     then (case pressure_params p of
             QuotaReduction cap red \<Rightarrow> if (pressure_target p, cap) = key then unat red else 0
           | _ \<Rightarrow> 0) else 0) (sc_pressure sc))"

lemma pressure_run_overlay_source:
  assumes "sc_pressure sc \<noteq> []"
  obtains s2 :: sl1_st where
    "pressure (rt (pressure_run sc now s)) =
       pressure (apply_source_injection sc (rebuild_overlays sc (rt s2)))"
    and "pr_active (pressure (rt (pressure_run sc now s))) = pr_active (pressure (rt s2))"
  by (rule that [of "fold (activate_one now) (sc_pressure sc)
      (fold (deactivate_one sc now) (expired_ids sc now (rt s)) s)"])
    (simp_all add: assms pressure_run_def Let_def)

lemma same_id_same_window:
  assumes "distinct (map pressure_id (sc_pressure sc))" and "p \<in> set (sc_pressure sc)"
  shows "(\<exists>q \<in> set (sc_pressure sc). pressure_id q = pressure_id p \<and> in_window now q)
    \<longleftrightarrow> in_window now p"
  using assms by (auto simp: distinct_map dest: inj_onD)

lemma pressure_run_active_elem:
  assumes "distinct (map pressure_id (sc_pressure sc))" and "active_declared sc now (rt s)"
    and "p \<in> set (sc_pressure sc)"
  shows "bt_has (pr_active (pressure (rt (pressure_run sc now s)))) (pressure_id p)
    \<longleftrightarrow> in_window now p"
  unfolding pressure_run_active_iff [OF assms(1,2)] by (rule same_id_same_window [OF assms(1,3)])

lemma pressure_run_growth:
  assumes "distinct (map pressure_id (sc_pressure sc))" and "active_declared sc now (rt s)"
    and "sc_pressure sc \<noteq> []"
  shows "unat (effective_spawn_count (pressure (rt (pressure_run sc now s))) dem)
    = min (1 + open_growth sc now dem) (2 ^ 32 - 1)"
proof -
  obtain s2 :: sl1_st where s2: "pressure (rt (pressure_run sc now s)) =
       pressure (apply_source_injection sc (rebuild_overlays sc (rt s2)))"
    and act: "pr_active (pressure (rt (pressure_run sc now s))) = pr_active (pressure (rt s2))"
    by (rule pressure_run_overlay_source [OF assms(3), where s = s and now = now])
  have sum: "sum_list (map (growth_of (pr_active (pressure (rt s2))) dem) (sc_pressure sc))
      = open_growth sc now dem"
    unfolding open_growth_def
    by (intro arg_cong [where f = sum_list] map_cong)
      (simp_all add: growth_of_def act [symmetric] pressure_run_active_elem [OF assms(1,2)])
  show ?thesis
    unfolding effective_spawn_count_def s2
    by (simp add: unat_sat_add rebuild_growth sum min_def)
qed

lemma pressure_run_reduction:
  assumes "distinct (map pressure_id (sc_pressure sc))" and "active_declared sc now (rt s)"
    and "sc_pressure sc \<noteq> []"
  shows "unat (bt_get_or 0 (pr_quota_reduction (pressure (rt (pressure_run sc now s)))) key)
    = min (open_reduction sc now key) 100"
proof -
  obtain s2 :: sl1_st where s2: "pressure (rt (pressure_run sc now s)) =
       pressure (apply_source_injection sc (rebuild_overlays sc (rt s2)))"
    and act: "pr_active (pressure (rt (pressure_run sc now s))) = pr_active (pressure (rt s2))"
    by (rule pressure_run_overlay_source [OF assms(3), where s = s and now = now])
  have "sum_list (map (reduction_of (pr_active (pressure (rt s2))) key) (sc_pressure sc))
      = open_reduction sc now key"
    unfolding open_reduction_def
    by (intro arg_cong [where f = sum_list] map_cong)
      (simp_all add: reduction_of_def act [symmetric] pressure_run_active_elem [OF assms(1,2)])
  then show ?thesis
    unfolding s2 by (simp add: rebuild_quota)
qed

section \<open>Effective capacity\<close>

lemma unat_remaining: "unat (ucast (sat_sub 100 (r :: u8)) :: u64) = 100 - unat r"
  by (simp add: unat_ucast_up unat_sat_sub)

lemma effective_capacity_le: "effective_capacity p place bucket base \<le> base"
proof -
  let ?r = "bt_get_or 0 (pr_quota_reduction p) (place, bucket)"
  have "min (unat base * (100 - unat ?r)) (2 ^ 64 - 1) div 100 \<le> unat base"
  proof -
    have "unat base * (100 - unat ?r) \<le> unat base * 100"
      by (intro mult_le_mono) auto
    then have "min (unat base * (100 - unat ?r)) (2 ^ 64 - 1) \<le> unat base * 100"
      by linarith
    then have "min (unat base * (100 - unat ?r)) (2 ^ 64 - 1) div 100 \<le> unat base * 100 div 100"
      by (rule div_le_mono)
    then show ?thesis by simp
  qed
  then show ?thesis
    by (simp add: effective_capacity_def Let_def word_le_nat_alt unat_div unat_sat_mul
        unat_remaining)
qed

text \<open>
  Where the product does not saturate the result is the documented floor of
  \<open>base * (100 - reduction) / 100\<close>.
\<close>

lemma effective_capacity_floor:
  assumes "unat base * 100 < 2 ^ 64"
    and "unat (bt_get_or 0 (pr_quota_reduction p) (place, bucket)) \<le> 100"
  shows "unat (effective_capacity p place bucket base)
    = unat base * (100 - unat (bt_get_or 0 (pr_quota_reduction p) (place, bucket))) div 100"
proof -
  let ?r = "bt_get_or 0 (pr_quota_reduction p) (place, bucket)"
  have "unat base * (100 - unat ?r) \<le> unat base * 100" by (intro mult_le_mono) auto
  with assms(1) have "unat base * (100 - unat ?r) \<le> 2 ^ 64 - 1" by linarith
  then show ?thesis
    by (auto simp: effective_capacity_def Let_def unat_div unat_sat_mul unat_remaining min_def)
qed

section \<open>Injection is clamped by the storage capacity\<close>

lemma carry_below_1000:
  "unat (bt_get_or 0 (pr_source_inject_carry_milli
     (pressure (inject_one caps (pid, place, thing, milli) r))) (pid, place, thing)) < 1000"
proof -
  have "unat (w mod (1000 :: u64)) < 1000" for w :: u64
    by (simp add: unat_mod)
  then show ?thesis by (simp add: Let_def)
qed

text \<open>
  One injection only adds, and adds no more than the room left under the slot's capacity:
  what it leaves is at most the capacity, or what was there already.
\<close>

lemma inject_one_inventory:
  "unat (bt_get2 (inventories (inject_one caps (pid, pl, th, milli) r)) p k) =
     (let cur = unat (bt_get2 (inventories r) p k);
          whole = unat (sat_add (bt_get_or 0 (pr_source_inject_carry_milli (pressure r))
                   (pid, pl, th)) milli) div 1000;
          cap = unat (bt_get_or 0 caps (pl, th))
      in if p = pl \<and> k = th then cur + min whole (cap - cur) else cur)"
proof -
  define carry where "carry = sat_add (bt_get_or 0 (pr_source_inject_carry_milli (pressure r))
    (pid, pl, th)) milli"
  define cap where "cap = bt_get_or 0 caps (pl, th)"
  define cur where "cur = bt_get2 (inventories r) pl th"
  have "unat cur + min (unat carry div 1000) (unat cap - unat cur) \<le> 2 ^ 64 - 1"
    using unat_max [of cur] unat_max [of cap] by (auto simp: min_def)
  then have add: "unat (sat_add cur (min (carry div 1000) (sat_sub cap cur)))
      = unat cur + min (unat carry div 1000) (unat cap - unat cur)"
    by (simp add: unat_sat_add unat_min unat_sat_sub unat_div)
  have zero: "carry div 1000 = 0 \<Longrightarrow> unat carry div 1000 = 0"
    using unat_div [of carry 1000] by simp
  show ?thesis
    using add zero
    by (simp add: Let_def carry_def [symmetric] cap_def [symmetric] cur_def [symmetric])
qed

lemma inject_one_le_cap:
  "unat (bt_get2 (inventories (inject_one caps e r)) p k)
     \<le> max (unat (bt_get2 (inventories r) p k)) (unat (bt_get_or 0 caps (p, k)))"
  by (cases e) (auto simp: inject_one_inventory Let_def simp del: inject_one.simps)

lemma inject_one_mono:
  "unat (bt_get2 (inventories r) p k) \<le> unat (bt_get2 (inventories (inject_one caps e r)) p k)"
  by (cases e) (auto simp: inject_one_inventory Let_def simp del: inject_one.simps)

lemma source_injection_bounds:
  "unat (bt_get2 (inventories r) p k)
     \<le> unat (bt_get2 (inventories (apply_source_injection sc r)) p k)
   \<and> unat (bt_get2 (inventories (apply_source_injection sc r)) p k)
     \<le> max (unat (bt_get2 (inventories r) p k)) (unat (bt_get_or 0 (storage_caps sc) (p, k)))"
  unfolding apply_source_injection_def
proof (rule fold_inv)
  fix x and u :: sl1_runtime
  assume "unat (bt_get2 (inventories r) p k) \<le> unat (bt_get2 (inventories u) p k)
     \<and> unat (bt_get2 (inventories u) p k)
       \<le> max (unat (bt_get2 (inventories r) p k)) (unat (bt_get_or 0 (storage_caps sc) (p, k)))"
  then show "unat (bt_get2 (inventories r) p k)
        \<le> unat (bt_get2 (inventories (inject_one (storage_caps sc) x u)) p k)
     \<and> unat (bt_get2 (inventories (inject_one (storage_caps sc) x u)) p k)
       \<le> max (unat (bt_get2 (inventories r) p k)) (unat (bt_get_or 0 (storage_caps sc) (p, k)))"
    using inject_one_mono [of u p k "storage_caps sc" x]
      inject_one_le_cap [of "storage_caps sc" x u p k] by linarith
qed simp

lemma inventories_deactivate [simp]:
  "inventories (rt (fold (deactivate_one sc now) ids s)) = inventories (rt s)"
  by (rule fold_inv [where P = "\<lambda>t. inventories (rt t) = inventories (rt s)"])
    (simp_all add: deactivate_one_rt)

lemma inventories_activate [simp]:
  "inventories (rt (fold (activate_one now) ds s)) = inventories (rt s)"
  by (rule fold_inv [where P = "\<lambda>t. inventories (rt t) = inventories (rt s)"])
    (simp_all add: activate_one_def Let_def)

lemma inventories_rebuild [simp]: "inventories (rebuild_overlays sc r) = inventories r"
  by (simp add: rebuild_overlays_def Let_def split: prod.splits)

lemma pressure_run_inventory_bounds:
  "unat (bt_get2 (inventories (rt s)) p k)
     \<le> unat (bt_get2 (inventories (rt (pressure_run sc now s))) p k)
   \<and> unat (bt_get2 (inventories (rt (pressure_run sc now s))) p k)
     \<le> max (unat (bt_get2 (inventories (rt s)) p k)) (unat (bt_get_or 0 (storage_caps sc) (p, k)))"
proof (cases "sc_pressure sc = []")
  case False
  define r3 where "r3 = rebuild_overlays sc (rt (fold (activate_one now) (sc_pressure sc)
    (fold (deactivate_one sc now) (expired_ids sc now (rt s)) s)))"
  have "inventories (rt (pressure_run sc now s)) = inventories (apply_source_injection sc r3)"
    and "inventories r3 = inventories (rt s)"
    using False by (simp_all add: pressure_run_def Let_def r3_def)
  with source_injection_bounds [of r3 p k sc] show ?thesis by simp
qed (simp add: pressure_run_def)

text \<open>With no source multiplier in the scene the inventories are left alone.\<close>

definition no_injection :: "sl1_scene \<Rightarrow> bool" where
  "no_injection sc \<longleftrightarrow> (\<forall>p \<in> set (sc_pressure sc).
     case pressure_params p of SourceMultiplier _ _ \<Rightarrow> False | _ \<Rightarrow> True)"

lemma no_injection_inventories:
  assumes "no_injection sc"
  shows "inventories (rt (pressure_run sc now s)) = inventories (rt s)"
proof -
  have "active_injections sc r = []" for r
  proof -
    have "List.map_filter f ps = []" if "\<forall>p \<in> set ps. f p = None" for f :: "sl1_pressure \<Rightarrow>
        (string \<times> string \<times> string \<times> u64) option" and ps
      using that by (induction ps) (auto simp: List.map_filter_simps)
    then show ?thesis
      using assms unfolding active_injections_def no_injection_def
      by (auto split: sl1_pressure_params.splits)
  qed
  then show ?thesis
    by (simp add: pressure_run_def Let_def apply_source_injection_def)
qed


section \<open>The system contract\<close>

lemma pressure_run_shape: "rt_shape sc (rt s) \<Longrightarrow> rt_shape sc (rt (pressure_run sc now s))"
  by (erule rt_shape_mono) simp_all

interpretation pressure: sl1_system "\<lambda>sc now s. Some (pressure_run sc now s)" "\<lambda>_ _ _. True"
  by unfold_locales (auto simp: pressure_run_grows pressure_run_shape)

end
