(* ===== verification/Transforms.thy ===== *)
theory Transforms
  imports Pressure
begin

text \<open>
  The transform half of \<open>crates/engine/src/sl1_runtime.rs\<close>: freshness ageing, and the
  state machine of a transform (idle, running, starved, blocked, late) with its
  all-or-nothing start, its reservations of typed capacity and output room, its
  deadline, and its retry policy. The two kinds of reservation share the contract
  \<open>reservation\<close>; under it the invariant that what is held is what the running transforms
  claim is proved once, and interpreted for capacity and for output room.
\<close>

section \<open>Freshness ageing\<close>

definition thing_budgets :: "sl1_scene \<Rightarrow> (string, u64 option) btree_map" where
  "thing_budgets sc =
     bt_collect (map (\<lambda>t. (thing_id t, thing_freshness_budget_ticks t)) (sc_things sc))"

definition age_one ::
  "(string, u64 option) btree_map \<Rightarrow> u64 \<Rightarrow> string \<times> string \<Rightarrow> freshness_state
    \<Rightarrow> freshness_state" where
  "age_one budgets now key st =
     (case bt_get budgets (snd key) of
        Some (Some budget) \<Rightarrow>
          (case st of
             FOk last_set_tick \<Rightarrow>
               if budget < sat_sub now last_set_tick then FStale last_set_tick else st
           | _ \<Rightarrow> st)
      | _ \<Rightarrow> st)"

definition age_freshness :: "sl1_scene \<Rightarrow> u64 \<Rightarrow> sl1_runtime \<Rightarrow> sl1_runtime" where
  "age_freshness sc now r =
     r\<lparr>freshness := bt_map_values (age_one (thing_budgets sc) now) (freshness r)\<rparr>"

section \<open>Starting a transform\<close>

datatype start_result = Started | StartStarved | StartBlocked

definition inputs_available :: "sl1_transform \<Rightarrow> sl1_runtime \<Rightarrow> bool" where
  "inputs_available def r \<longleftrightarrow> (\<forall>io \<in> set (transform_inputs def).
     \<not> bt_get2 (inventories r) (transform_runs_on def) (io_thing_id io) < io_amount io)"

definition place_caps :: "sl1_scene \<Rightarrow> (string, (string, u64) btree_map) btree_map" where
  "place_caps sc = bt_collect (map (\<lambda>p. (place_id p, place_capacity p)) (sc_places sc))"

definition capacity_headroom ::
  "(string, (string, u64) btree_map) btree_map \<Rightarrow> sl1_transform \<Rightarrow> sl1_runtime \<Rightarrow> bool" where
  "capacity_headroom pcaps def r \<longleftrightarrow> (\<forall>(k, v) \<in> set (transform_capacity_cost def).
     let base = bt_get2 pcaps (transform_runs_on def) k;
         cap = effective_capacity (pressure r) (transform_runs_on def) k base;
         cur = bt_get2 (place_capacity_used r) (transform_runs_on def) k
     in \<not> cap < sat_add cur v)"

definition output_room ::
  "(string \<times> string, u64) btree_map \<Rightarrow> sl1_transform \<Rightarrow> sl1_runtime \<Rightarrow> bool" where
  "output_room scaps def r \<longleftrightarrow> (\<forall>out \<in> set (transform_outputs def).
     let key = (transform_runs_on def, io_thing_id out);
         cap = bt_get_or 0 scaps key;
         cur = bt_get2 (inventories r) (transform_runs_on def) (io_thing_id out);
         pend = bt_get_or 0 (pending_outputs r) key
     in \<not> cap < sat_add (sat_add cur pend) (io_amount out))"

text \<open>The commit: consume inputs, reserve capacity, reserve output room.\<close>

definition consume_inputs :: "sl1_transform \<Rightarrow> sl1_runtime \<Rightarrow> sl1_runtime" where
  "consume_inputs def r = r\<lparr>inventories :=
     bt_upsert (transform_runs_on def) []
       (fold (\<lambda>io. bt_upsert (io_thing_id io) 0 (\<lambda>e. sat_sub e (io_amount io)))
         (transform_inputs def)) (inventories r)\<rparr>"

definition reserve_capacity :: "sl1_transform \<Rightarrow> sl1_runtime \<Rightarrow> sl1_runtime" where
  "reserve_capacity def r = r\<lparr>place_capacity_used :=
     bt_upsert (transform_runs_on def) []
       (fold (\<lambda>(k, v). bt_upsert k 0 (\<lambda>e. sat_add e v)) (transform_capacity_cost def))
       (place_capacity_used r)\<rparr>"

definition reserve_outputs :: "sl1_transform \<Rightarrow> sl1_runtime \<Rightarrow> sl1_runtime" where
  "reserve_outputs def r = r\<lparr>pending_outputs :=
     fold (\<lambda>out. bt_upsert (transform_runs_on def, io_thing_id out) 0
             (\<lambda>e. sat_add e (io_amount out))) (transform_outputs def) (pending_outputs r)\<rparr>"

definition commit_start :: "sl1_transform \<Rightarrow> sl1_runtime \<Rightarrow> sl1_runtime" where
  "commit_start def r = reserve_outputs def (reserve_capacity def (consume_inputs def r))"

definition try_start ::
  "(string \<times> string, u64) btree_map \<Rightarrow> (string, (string, u64) btree_map) btree_map
    \<Rightarrow> sl1_transform \<Rightarrow> sl1_runtime \<Rightarrow> start_result \<times> sl1_runtime" where
  "try_start scaps pcaps def r =
     (if \<not> inputs_available def r then (StartStarved, r)
      else if \<not> capacity_headroom pcaps def r then (StartBlocked, r)
      else if \<not> output_room scaps def r then (StartBlocked, r)
      else (Started, commit_start def r))"

section \<open>Releasing reservations\<close>

definition release_capacity :: "sl1_transform \<Rightarrow> sl1_runtime \<Rightarrow> sl1_runtime" where
  "release_capacity def r = r\<lparr>place_capacity_used :=
     bt_modify (transform_runs_on def)
       (fold (\<lambda>(k, v). bt_modify k (\<lambda>e. sat_sub e v)) (transform_capacity_cost def))
       (place_capacity_used r)\<rparr>"

definition release_one ::
  "string \<times> string \<Rightarrow> u64 \<Rightarrow> (string \<times> string, u64) btree_map
    \<Rightarrow> (string \<times> string, u64) btree_map" where
  "release_one key amount m =
     (case bt_get m key of
        None \<Rightarrow> m
      | Some e \<Rightarrow> let e' = sat_sub e amount in
          if e' = 0 then bt_remove key (bt_insert key e' m) else bt_insert key e' m)"

definition release_pending_outputs :: "sl1_transform \<Rightarrow> sl1_runtime \<Rightarrow> sl1_runtime" where
  "release_pending_outputs def r = r\<lparr>pending_outputs :=
     fold (\<lambda>out. release_one (transform_runs_on def, io_thing_id out) (io_amount out))
       (transform_outputs def) (pending_outputs r)\<rparr>"

section \<open>The state machine\<close>

definition emit_warning ::
  "string \<Rightarrow> sl1_transform_warning_kind \<Rightarrow> u64 \<Rightarrow> u32 option \<Rightarrow> sl1_st \<Rightarrow> sl1_st" where
  "emit_warning i ev tick att = push_message (Warning (Sl1TransformWarning i ev tick att))"

definition handle_failure_policy ::
  "sl1_transform \<Rightarrow> string \<Rightarrow> u64 \<Rightarrow> u32 \<Rightarrow> u64 \<Rightarrow> sl1_st \<Rightarrow> sl1_transform_state \<times> sl1_st" where
  "handle_failure_policy def i scheduled_at attempt now s =
     (case transform_failure_policy def of
        DropPolicy \<Rightarrow> (TIdle, emit_warning i WarnFailed now (Some attempt) s)
      | RetryThenWarn \<Rightarrow>
          if transform_max_attempts def \<le> attempt
          then (TIdle, emit_warning i WarnFailed now (Some attempt) s)
          else (TLate scheduled_at (sat_add attempt 1) now, s))"

definition produce_outputs :: "sl1_transform \<Rightarrow> u64 \<Rightarrow> sl1_runtime \<Rightarrow> sl1_runtime" where
  "produce_outputs def now r = r
     \<lparr>inventories := bt_upsert (transform_runs_on def) []
        (fold (\<lambda>out. bt_upsert (io_thing_id out) 0 (\<lambda>e. sat_add e (io_amount out)))
          (transform_outputs def)) (inventories r),
      freshness := fold (\<lambda>out. bt_insert (transform_runs_on def, io_thing_id out) (FOk now))
        (transform_outputs def) (freshness r)\<rparr>"

definition advance_running ::
  "sl1_transform \<Rightarrow> string \<Rightarrow> u64 \<Rightarrow> u64 \<Rightarrow> u32 \<Rightarrow> u64 \<Rightarrow> sl1_st
    \<Rightarrow> sl1_transform_state \<times> sl1_st" where
  "advance_running def i scheduled_at started_at attempt now s =
     (let completion_tick = sat_add started_at (transform_duration_ticks def);
          deadline_tick = sat_add scheduled_at (transform_deadline_ticks def)
      in if deadline_tick < now then
           let s1 = with_rt (\<lambda>r. release_pending_outputs def (release_capacity def r)) s;
               s2 = emit_warning i WarnLate now (Some attempt) s1
           in handle_failure_policy def i scheduled_at attempt now s2
         else if completion_tick \<le> now then
           (TIdle, with_rt (\<lambda>r. release_pending_outputs def
              (release_capacity def (produce_outputs def now r))) s)
         else (TRunning scheduled_at started_at attempt, s))"

definition start_attempt ::
  "(string \<times> string, u64) btree_map \<Rightarrow> (string, (string, u64) btree_map) btree_map
    \<Rightarrow> sl1_transform \<Rightarrow> string \<Rightarrow> u64 \<Rightarrow> u64 \<Rightarrow> u32 \<Rightarrow> sl1_st \<Rightarrow> sl1_transform_state \<times> sl1_st" where
  "start_attempt scaps pcaps def i scheduled_at now attempts s =
     (let (res, r') = try_start scaps pcaps def (rt s); s1 = with_rt (\<lambda>_. r') s
      in case res of
           Started \<Rightarrow> (TRunning scheduled_at now attempts, s1)
         | StartStarved \<Rightarrow>
             (TStarved scheduled_at now attempts, emit_warning i WarnStarved now None s1)
         | StartBlocked \<Rightarrow>
             (TBlocked scheduled_at now attempts, emit_warning i WarnBlocked now None s1))"

definition start_attempt_quiet ::
  "(string \<times> string, u64) btree_map \<Rightarrow> (string, (string, u64) btree_map) btree_map
    \<Rightarrow> sl1_transform \<Rightarrow> u64 \<Rightarrow> u64 \<Rightarrow> u32 \<Rightarrow> u64 \<Rightarrow> sl1_st \<Rightarrow> sl1_transform_state \<times> sl1_st" where
  "start_attempt_quiet scaps pcaps def scheduled_at since attempts now s =
     (let (res, r') = try_start scaps pcaps def (rt s); s1 = with_rt (\<lambda>_. r') s
      in case res of
           Started \<Rightarrow> (TRunning scheduled_at now attempts, s1)
         | StartStarved \<Rightarrow> (TStarved scheduled_at since attempts, s1)
         | StartBlocked \<Rightarrow> (TBlocked scheduled_at since attempts, s1))"

definition advance_waiting ::
  "(string \<times> string, u64) btree_map \<Rightarrow> (string, (string, u64) btree_map) btree_map
    \<Rightarrow> sl1_transform \<Rightarrow> string \<Rightarrow> u64 \<Rightarrow> u64 \<Rightarrow> u32 \<Rightarrow> u64 \<Rightarrow> sl1_st
    \<Rightarrow> sl1_transform_state \<times> sl1_st" where
  "advance_waiting scaps pcaps def i scheduled_at since attempts now s =
     (if sat_add scheduled_at (transform_deadline_ticks def) < now then
        handle_failure_policy def i scheduled_at attempts now
          (emit_warning i WarnLate now (Some attempts) s)
      else start_attempt_quiet scaps pcaps def scheduled_at since attempts now s)"

definition advance_late ::
  "(string \<times> string, u64) btree_map \<Rightarrow> (string, (string, u64) btree_map) btree_map
    \<Rightarrow> sl1_transform \<Rightarrow> string \<Rightarrow> u64 \<Rightarrow> u32 \<Rightarrow> u64 \<Rightarrow> u64 \<Rightarrow> sl1_st
    \<Rightarrow> sl1_transform_state \<times> sl1_st" where
  "advance_late scaps pcaps def i scheduled_at attempt since now s =
     (case transform_failure_policy def of
        DropPolicy \<Rightarrow> (TIdle, emit_warning i WarnFailed now (Some attempt) s)
      | RetryThenWarn \<Rightarrow>
          let (res, r') = try_start scaps pcaps def (rt s); s1 = with_rt (\<lambda>_. r') s
          in if res = Started then (TRunning now now attempt, s1)
             else let next_attempt = sat_add attempt 1
               in if transform_max_attempts def < next_attempt
                  then (TIdle, emit_warning i WarnFailed now (Some attempt) s1)
                  else (TLate scheduled_at next_attempt since, s1))"

definition advance ::
  "(string \<times> string, u64) btree_map \<Rightarrow> (string, (string, u64) btree_map) btree_map
    \<Rightarrow> sl1_transform \<Rightarrow> string \<Rightarrow> u64 \<Rightarrow> sl1_transform_state \<Rightarrow> sl1_st
    \<Rightarrow> sl1_transform_state \<times> sl1_st" where
  "advance scaps pcaps def i now state s =
     (case state of
        TIdle \<Rightarrow> (TIdle, s)
      | TRunning sched started att \<Rightarrow> advance_running def i sched started att now s
      | TStarved sched since att \<Rightarrow> advance_waiting scaps pcaps def i sched since att now s
      | TBlocked sched since att \<Rightarrow> advance_waiting scaps pcaps def i sched since att now s
      | TLate sched att since \<Rightarrow> advance_late scaps pcaps def i sched att since now s)"

definition cadence_fires :: "sl1_transform \<Rightarrow> u64 \<Rightarrow> bool" where
  "cadence_fires def now \<longleftrightarrow> 0 < now \<and> 0 < transform_cadence_ticks def
     \<and> now mod transform_cadence_ticks def = 0"

definition fire_slot ::
  "(string \<times> string, u64) btree_map \<Rightarrow> (string, (string, u64) btree_map) btree_map
    \<Rightarrow> sl1_transform \<Rightarrow> string \<Rightarrow> u64 \<Rightarrow> sl1_transform_state \<Rightarrow> sl1_st
    \<Rightarrow> sl1_transform_state \<times> sl1_st" where
  "fire_slot scaps pcaps def i now state s =
     (if \<not> cadence_fires def now then (state, s)
      else if state = TIdle then start_attempt scaps pcaps def i now now 1 s
      else (state, emit_warning i WarnSlotMissed now None s))"

definition set_transform :: "string \<Rightarrow> sl1_transform_state \<Rightarrow> sl1_runtime \<Rightarrow> sl1_runtime" where
  "set_transform i st r = r\<lparr>transforms := bt_insert i st (transforms r)\<rparr>"

definition process_one ::
  "(string \<times> string, u64) btree_map \<Rightarrow> (string, (string, u64) btree_map) btree_map
    \<Rightarrow> u64 \<Rightarrow> sl1_transform \<Rightarrow> string \<Rightarrow> sl1_st \<Rightarrow> sl1_st" where
  "process_one scaps pcaps now def i s =
     (let state = bt_get_or TIdle (transforms (rt s)) i;
          (state1, s1) = advance scaps pcaps def i now state s;
          (state2, s2) = fire_slot scaps pcaps def i now state1 s1
      in with_rt (set_transform i state2) s2)"

definition transform_defs :: "sl1_scene \<Rightarrow> (string, sl1_transform) btree_map" where
  "transform_defs sc = bt_collect (map (\<lambda>t. (transform_id t, t)) (sc_transforms sc))"

definition run_transforms :: "sl1_scene \<Rightarrow> u64 \<Rightarrow> sl1_st \<Rightarrow> sl1_st" where
  "run_transforms sc now s = fold (\<lambda>i s.
     case bt_get (transform_defs sc) i of
       None \<Rightarrow> s
     | Some def \<Rightarrow> process_one (storage_caps sc) (place_caps sc) now def i s)
     (bt_keys (transforms (rt s))) s"


section \<open>Frames\<close>

lemma transform_ops_frame [simp, frame_simps]:
  "place_capacity_used (consume_inputs t r) = place_capacity_used r"
  "pending_outputs (consume_inputs t r) = pending_outputs r"
  "transforms (consume_inputs t r) = transforms r"
  "freshness (consume_inputs t r) = freshness r"
  "pressure (consume_inputs t r) = pressure r"
  "inventories (reserve_capacity t r) = inventories r"
  "pending_outputs (reserve_capacity t r) = pending_outputs r"
  "transforms (reserve_capacity t r) = transforms r"
  "freshness (reserve_capacity t r) = freshness r"
  "inventories (reserve_outputs t r) = inventories r"
  "place_capacity_used (reserve_outputs t r) = place_capacity_used r"
  "transforms (reserve_outputs t r) = transforms r"
  "freshness (reserve_outputs t r) = freshness r"
  "inventories (release_capacity t r) = inventories r"
  "pending_outputs (release_capacity t r) = pending_outputs r"
  "transforms (release_capacity t r) = transforms r"
  "freshness (release_capacity t r) = freshness r"
  "inventories (release_pending_outputs t r) = inventories r"
  "place_capacity_used (release_pending_outputs t r) = place_capacity_used r"
  "transforms (release_pending_outputs t r) = transforms r"
  "freshness (release_pending_outputs t r) = freshness r"
  "place_capacity_used (produce_outputs t now r) = place_capacity_used r"
  "pending_outputs (produce_outputs t now r) = pending_outputs r"
  "transforms (produce_outputs t now r) = transforms r"
  "inventories (set_transform i st r) = inventories r"
  "place_capacity_used (set_transform i st r) = place_capacity_used r"
  "pending_outputs (set_transform i st r) = pending_outputs r"
  "freshness (set_transform i st r) = freshness r"
  "transforms (set_transform i st r) = bt_insert i st (transforms r)"
  by (simp_all add: consume_inputs_def reserve_capacity_def reserve_outputs_def
      release_capacity_def release_pending_outputs_def produce_outputs_def set_transform_def)

text \<open>What no transform step touches.\<close>

definition transform_frame :: "sl1_runtime \<Rightarrow> sl1_runtime \<Rightarrow> bool" where
  "transform_frame r r' \<longleftrightarrow>
     demand r' = demand r \<and> pressure r' = pressure r \<and> objectives r' = objectives r
     \<and> failure_conditions r' = failure_conditions r
     \<and> victory_conditions r' = victory_conditions r \<and> outcome r' = outcome r
     \<and> phase r' = phase r \<and> metric_states r' = metric_states r
     \<and> unsupported_objectives_warned r' = unsupported_objectives_warned r
     \<and> dashboard_states r' = dashboard_states r \<and> alert_states r' = alert_states r
     \<and> agents r' = agents r \<and> agent_demand_pauses r' = agent_demand_pauses r
     \<and> milestones r' = milestones r"

lemma transform_frame_refl: "transform_frame r r"
  by (simp add: transform_frame_def)

lemma transform_frame_trans:
  "transform_frame a b \<Longrightarrow> transform_frame b c \<Longrightarrow> transform_frame a c"
  by (simp add: transform_frame_def)

lemma transform_frame_ops [simp]:
  "transform_frame q (consume_inputs t r) = transform_frame q r"
  "transform_frame q (reserve_capacity t r) = transform_frame q r"
  "transform_frame q (reserve_outputs t r) = transform_frame q r"
  "transform_frame q (release_capacity t r) = transform_frame q r"
  "transform_frame q (release_pending_outputs t r) = transform_frame q r"
  "transform_frame q (produce_outputs t now r) = transform_frame q r"
  "transform_frame q (set_transform i st r) = transform_frame q r"
  by (simp_all add: transform_frame_def consume_inputs_def reserve_capacity_def
      reserve_outputs_def release_capacity_def release_pending_outputs_def
      produce_outputs_def set_transform_def)

section \<open>The moves of one transform\<close>

fun is_running :: "sl1_transform_state \<Rightarrow> bool" where
  "is_running (TRunning _ _ _) = True"
| "is_running _ = False"

text \<open>
  The step relation behind \<open>process_one\<close>: what a tick may do to one transform's state and
  to the runtime. Invariants of the reservations are proved over these four moves.
\<close>

inductive transform_move ::
  "(string \<times> string, u64) btree_map \<Rightarrow> (string, (string, u64) btree_map) btree_map
    \<Rightarrow> u64 \<Rightarrow> sl1_transform \<Rightarrow> sl1_transform_state \<times> sl1_runtime
    \<Rightarrow> sl1_transform_state \<times> sl1_runtime \<Rightarrow> bool"
  for scaps pcaps now def where
  move_stay: "is_running \<sigma> = is_running \<sigma>' \<Longrightarrow>
    transform_move scaps pcaps now def (\<sigma>, r) (\<sigma>', r)"
| move_start: "\<not> is_running \<sigma> \<Longrightarrow> is_running \<sigma>' \<Longrightarrow> try_start scaps pcaps def r = (Started, r') \<Longrightarrow>
    transform_move scaps pcaps now def (\<sigma>, r) (\<sigma>', r')"
| move_finish: "is_running \<sigma> \<Longrightarrow>
    transform_move scaps pcaps now def (\<sigma>, r)
      (TIdle, release_pending_outputs def (release_capacity def (produce_outputs def now r)))"
| move_abort: "is_running \<sigma> \<Longrightarrow> \<not> is_running \<sigma>' \<Longrightarrow>
    transform_move scaps pcaps now def (\<sigma>, r)
      (\<sigma>', release_pending_outputs def (release_capacity def r))"

inductive_cases transform_moveE: "transform_move scaps pcaps now def (\<sigma>, r) (\<sigma>', r')"

lemma try_start_not_started:
  "try_start scaps pcaps def r = (res, r') \<Longrightarrow> res \<noteq> Started \<Longrightarrow> r' = r"
  by (auto simp: try_start_def split: if_splits)

lemma handle_failure_not_running:
  "handle_failure_policy def i sched att now s = (\<sigma>, s') \<Longrightarrow> \<not> is_running \<sigma> \<and> rt s' = rt s"
  by (auto simp: handle_failure_policy_def emit_warning_def split: sl1_failure_policy.splits if_splits)

lemma start_attempt_move:
  assumes "start_attempt scaps pcaps def i sched now att s = (\<sigma>', s')" and "\<not> is_running \<sigma>"
  shows "transform_move scaps pcaps now def (\<sigma>, rt s) (\<sigma>', rt s')"
  using assms try_start_not_started [of scaps pcaps def "rt s"]
  by (auto simp: start_attempt_def emit_warning_def Let_def
      split: prod.splits start_result.splits
      intro!: move_stay intro: move_start)

lemma start_attempt_quiet_move:
  assumes "start_attempt_quiet scaps pcaps def sched since att now s = (\<sigma>', s')"
    and "\<not> is_running \<sigma>"
  shows "transform_move scaps pcaps now def (\<sigma>, rt s) (\<sigma>', rt s')"
  using assms try_start_not_started [of scaps pcaps def "rt s"]
  by (auto simp: start_attempt_quiet_def Let_def split: prod.splits start_result.splits
      intro!: move_stay intro: move_start)

lemma advance_running_move:
  assumes "advance_running def i sched started att now s = (\<sigma>', s')"
  shows "transform_move scaps pcaps now def (TRunning sched started att, rt s) (\<sigma>', rt s')"
proof -
  consider "sat_add sched (transform_deadline_ticks def) < now"
    | "\<not> sat_add sched (transform_deadline_ticks def) < now" by blast
  then show ?thesis
  proof cases
    case 1
    with assms handle_failure_not_running show ?thesis
      by (fastforce simp: advance_running_def Let_def emit_warning_def intro: move_abort)
  next
    case 2
    show ?thesis
    proof (cases "sat_add started (transform_duration_ticks def) \<le> now")
      case True
      with 2 assms show ?thesis
        by (auto simp: advance_running_def Let_def intro!: move_finish)
    next
      case False
      with 2 assms show ?thesis
        by (auto simp: advance_running_def Let_def intro!: move_stay)
    qed
  qed
qed

lemma advance_waiting_move:
  assumes "advance_waiting scaps pcaps def i sched since att now s = (\<sigma>', s')"
    and "\<not> is_running \<sigma>"
  shows "transform_move scaps pcaps now def (\<sigma>, rt s) (\<sigma>', rt s')"
proof (cases "sat_add sched (transform_deadline_ticks def) < now")
  case True
  with assms(1) have "\<not> is_running \<sigma>'" "rt s' = rt s"
    by (auto simp: advance_waiting_def emit_warning_def dest: handle_failure_not_running)
  with assms(2) show ?thesis by (auto intro: move_stay)
next
  case False
  with assms show ?thesis
    by (auto simp: advance_waiting_def intro: start_attempt_quiet_move)
qed

lemma advance_late_move:
  assumes "advance_late scaps pcaps def i sched att since now s = (\<sigma>', s')"
    and "\<not> is_running \<sigma>"
  shows "transform_move scaps pcaps now def (\<sigma>, rt s) (\<sigma>', rt s')"
  using assms try_start_not_started [of scaps pcaps def "rt s"]
  by (auto simp: advance_late_def emit_warning_def Let_def
      split: prod.splits sl1_failure_policy.splits if_splits
      intro!: move_stay intro: move_start)

lemma advance_move:
  "advance scaps pcaps def i now \<sigma> s = (\<sigma>', s') \<Longrightarrow>
   transform_move scaps pcaps now def (\<sigma>, rt s) (\<sigma>', rt s')"
  by (auto simp: advance_def split: sl1_transform_state.splits
      intro: move_stay advance_running_move advance_waiting_move advance_late_move)

lemma fire_slot_move:
  "fire_slot scaps pcaps def i now \<sigma> s = (\<sigma>', s') \<Longrightarrow>
   transform_move scaps pcaps now def (\<sigma>, rt s) (\<sigma>', rt s')"
  by (auto simp: fire_slot_def emit_warning_def split: if_splits
      intro: move_stay start_attempt_move)

text \<open>\<open>process_one\<close> is two moves and the write-back of the state.\<close>

lemma process_one_moves:
  obtains \<sigma>1 and r1 :: sl1_runtime and \<sigma>2 and r2 :: sl1_runtime where
    "transform_move scaps pcaps now def
       (bt_get_or TIdle (transforms (rt s)) i, rt s) (\<sigma>1, r1)"
    "transform_move scaps pcaps now def (\<sigma>1, r1) (\<sigma>2, r2)"
    "rt (process_one scaps pcaps now def i s) = set_transform i \<sigma>2 r2"
proof -
  obtain \<sigma>1 and s1 :: sl1_st where
    1: "advance scaps pcaps def i now (bt_get_or TIdle (transforms (rt s)) i) s = (\<sigma>1, s1)"
    by fastforce
  obtain \<sigma>2 and s2 :: sl1_st where 2: "fire_slot scaps pcaps def i now \<sigma>1 s1 = (\<sigma>2, s2)"
    by fastforce
  from 1 2 have "rt (process_one scaps pcaps now def i s) = set_transform i \<sigma>2 (rt s2)"
    by (simp add: process_one_def Let_def)
  with advance_move [OF 1] fire_slot_move [OF 2] show ?thesis by (rule that)
qed

lemma transform_move_frame:
  assumes "transform_move scaps pcaps now def (\<sigma>, r) (\<sigma>', r')"
  shows "transform_frame r r'" and "transforms r' = transforms r"
  using assms
  by (auto elim!: transform_moveE simp: try_start_def commit_start_def transform_frame_refl
      split: if_splits)


section \<open>Loops of saturating updates are sums\<close>

definition total_at :: "('k \<times> u64) list \<Rightarrow> 'k \<Rightarrow> nat" where
  "total_at es k = sum_list (map (\<lambda>(k', v). if k' = k then unat v else 0) es)"

lemma total_simps [simp]:
  "total_at [] k = 0"
  "total_at ((k', v) # es) k = (if k' = k then unat v else 0) + total_at es k"
  by (simp_all add: total_at_def)

lemma total_absent: "k \<notin> fst ` set es \<Longrightarrow> total_at es k = 0"
  by (induction es) auto

lemma total_elem: "distinct (map fst es) \<Longrightarrow> (k, v) \<in> set es \<Longrightarrow> total_at es k = unat v"
proof (induction es)
  case (Cons e es)
  obtain k' v' where e: "e = (k', v')" by force
  show ?case
  proof (cases "k' = k")
    case True
    with Cons.prems e have "k \<notin> fst ` set es" "v' = v"
      by (auto simp: image_iff)
    with True e show ?thesis by (simp add: total_absent)
  next
    case False
    with Cons e show ?thesis by auto
  qed
qed simp

lemma total_le:
  assumes "distinct (map fst es)" and "\<And>k v. (k, v) \<in> set es \<Longrightarrow> v \<le> b"
  shows "total_at es k \<le> unat b"
proof (cases "k \<in> fst ` set es")
  case True
  then obtain v where "(k, v) \<in> set es" by auto
  with assms show ?thesis by (auto simp: total_elem word_le_nat_alt)
qed (simp add: total_absent)

lemma fold_sat_add:
  "unat (bt_get_or 0 (fold (\<lambda>(k, v). bt_upsert k 0 (\<lambda>e. sat_add e v)) es m) k)
     = min (unat (bt_get_or 0 m k) + total_at es k) (2 ^ 64 - 1)"
proof (induction es arbitrary: m)
  case Nil
  then show ?case using unat_max [of "bt_get_or 0 m k"] by simp
next
  case (Cons e es)
  then show ?case by (cases e) (auto simp: unat_sat_add)
qed

lemma fold_sat_sub:
  "unat (bt_get_or 0 (fold (\<lambda>(k, v). bt_upsert k 0 (\<lambda>e. sat_sub e v)) es m) k)
     = unat (bt_get_or 0 m k) - total_at es k"
  by (induction es arbitrary: m) (auto simp: unat_sat_sub)

lemma get_or_modify:
  "bt_get_or 0 (bt_modify k f m) k' =
     (if k' = k \<and> bt_has m k then f (bt_get_or 0 m k) else bt_get_or 0 m k')"
  by (auto simp: bt_get_or_def bt_has_def split: option.splits)

lemma fold_modify_sub:
  "unat (bt_get_or 0 (fold (\<lambda>(k, v). bt_modify k (\<lambda>e. sat_sub e v)) es m) k)
     = unat (bt_get_or 0 m k) - total_at es k"
proof (induction es arbitrary: m)
  case (Cons e es)
  then show ?case
    by (cases e) (auto simp: unat_sat_sub get_or_modify bt_has_def)
qed simp

lemma fold_release:
  "unat (bt_get_or 0 (fold (\<lambda>(k, v). release_one k v) es m) k)
     = unat (bt_get_or 0 m k) - total_at es k"
proof -
  have one: "bt_get_or 0 (release_one key v m) k
      = (if k = key then sat_sub (bt_get_or 0 m k) v else bt_get_or 0 m k)" for key v m
    by (auto simp: release_one_def Let_def sat_sub_def split: option.splits)
  show ?thesis
    by (induction es arbitrary: m) (auto simp: one unat_sat_sub)
qed

definition io_pairs :: "sl1_transform_io list \<Rightarrow> (string \<times> u64) list" where
  "io_pairs ios = map (\<lambda>io. (io_thing_id io, io_amount io)) ios"

definition io_keys :: "string \<Rightarrow> sl1_transform_io list \<Rightarrow> ((string \<times> string) \<times> u64) list" where
  "io_keys p ios = map (\<lambda>io. ((p, io_thing_id io), io_amount io)) ios"

lemma fold_io_pairs:
  "fold (\<lambda>io. f (io_thing_id io) (io_amount io)) ios = fold (\<lambda>(k, v). f k v) (io_pairs ios)"
  by (simp add: io_pairs_def fold_map comp_def)

lemma fold_io_keys:
  "fold (\<lambda>io. f (p, io_thing_id io) (io_amount io)) ios = fold (\<lambda>(k, v). f k v) (io_keys p ios)"
  by (simp add: io_keys_def fold_map comp_def)

lemma total_io_keys:
  "total_at (io_keys p ios) (q, k) = (if q = p then total_at (io_pairs ios) k else 0)"
  by (induction ios) (auto simp: io_keys_def io_pairs_def)

lemma ios_ok_total_le: "ios_ok ios \<Longrightarrow> total_at (io_pairs ios) k \<le> unat MAX_TRANSFORM_AMOUNT"
  by (rule total_le)
    (auto simp: io_pairs_def comp_def dest: ios_okD)

lemma ios_ok_total_elem:
  "ios_ok ios \<Longrightarrow> io \<in> set ios \<Longrightarrow> total_at (io_pairs ios) (io_thing_id io) = unat (io_amount io)"
  by (rule total_elem) (auto simp: io_pairs_def comp_def dest: ios_okD)

section \<open>What each step does to the three stocks\<close>

definition stock :: "sl1_runtime \<Rightarrow> string \<times> string \<Rightarrow> nat" where
  "stock r pk = unat (bt_get2 (inventories r) (fst pk) (snd pk))"

definition held_capacity :: "sl1_runtime \<Rightarrow> string \<times> string \<Rightarrow> nat" where
  "held_capacity r pk = unat (bt_get2 (place_capacity_used r) (fst pk) (snd pk))"

definition held_output :: "sl1_runtime \<Rightarrow> string \<times> string \<Rightarrow> nat" where
  "held_output r pk = unat (bt_get_or 0 (pending_outputs r) pk)"

definition input_need :: "sl1_transform \<Rightarrow> string \<times> string \<Rightarrow> nat" where
  "input_need t pk =
     (if fst pk = transform_runs_on t then total_at (io_pairs (transform_inputs t)) (snd pk) else 0)"

definition capacity_claim :: "sl1_transform \<Rightarrow> string \<times> string \<Rightarrow> nat" where
  "capacity_claim t pk =
     (if fst pk = transform_runs_on t then total_at (transform_capacity_cost t) (snd pk) else 0)"

definition output_claim :: "sl1_transform \<Rightarrow> string \<times> string \<Rightarrow> nat" where
  "output_claim t pk =
     (if fst pk = transform_runs_on t then total_at (io_pairs (transform_outputs t)) (snd pk) else 0)"

lemma get2_upsert_row:
  "bt_get2 (bt_upsert a [] f m) a' b = (if a' = a then bt_get_or 0 (f (bt_get_or [] m a)) b
     else bt_get2 m a' b)"
  by (simp add: bt_get2_def)

lemma stock_consume: "stock (consume_inputs t r) pk = stock r pk - input_need t pk"
  by (auto simp: stock_def consume_inputs_def input_need_def get2_upsert_row
      fold_io_pairs [of "\<lambda>k v. bt_upsert k 0 (\<lambda>e. sat_sub e v)"] fold_sat_sub)
    (simp add: bt_get2_def)

lemma stock_produce:
  "stock (produce_outputs t now r) pk = min (stock r pk + output_claim t pk) (2 ^ 64 - 1)"
  using unat_max [of "bt_get2 (inventories r) (fst pk) (snd pk)"]
  by (auto simp: stock_def produce_outputs_def output_claim_def get2_upsert_row
      fold_io_pairs [of "\<lambda>k v. bt_upsert k 0 (\<lambda>e. sat_add e v)"] fold_sat_add)
    (simp add: bt_get2_def)

lemma held_capacity_reserve:
  "held_capacity (reserve_capacity t r) pk
     = min (held_capacity r pk + capacity_claim t pk) (2 ^ 64 - 1)"
  using unat_max [of "bt_get2 (place_capacity_used r) (fst pk) (snd pk)"]
  by (auto simp: held_capacity_def reserve_capacity_def capacity_claim_def get2_upsert_row
      fold_sat_add) (simp add: bt_get2_def)

lemma held_capacity_release:
  "held_capacity (release_capacity t r) pk = held_capacity r pk - capacity_claim t pk"
proof -
  have "bt_get2 (bt_modify a f m) a' b = (if a' = a \<and> bt_has m a
      then bt_get_or 0 (f (bt_get_or [] m a)) b else bt_get2 m a' b)"
    for a a' :: string and b :: string and f and m :: "(string, (string, u64) btree_map) btree_map"
    by (auto simp: bt_get2_def bt_get_or_def bt_has_def split: option.splits)
  moreover have "\<not> bt_has (place_capacity_used r) a \<Longrightarrow> bt_get2 (place_capacity_used r) a b = 0"
    for a b
    by (simp add: bt_get2_def bt_has_def)
  ultimately show ?thesis
    by (auto simp: held_capacity_def release_capacity_def capacity_claim_def fold_modify_sub)
      (simp add: bt_get2_def)
qed

lemma held_output_reserve:
  "held_output (reserve_outputs t r) pk
     = min (held_output r pk + output_claim t pk) (2 ^ 64 - 1)"
  by (cases pk) (auto simp: held_output_def reserve_outputs_def output_claim_def total_io_keys
      fold_io_keys [of "\<lambda>k v. bt_upsert k 0 (\<lambda>e. sat_add e v)"] fold_sat_add)

lemma held_output_release:
  "held_output (release_pending_outputs t r) pk = held_output r pk - output_claim t pk"
  by (cases pk) (auto simp: held_output_def release_pending_outputs_def output_claim_def
      total_io_keys fold_io_keys [of release_one] fold_release)

lemma stock_frames [simp, frame_simps]:
  "stock (reserve_capacity t r) pk = stock r pk"
  "stock (reserve_outputs t r) pk = stock r pk"
  "stock (release_capacity t r) pk = stock r pk"
  "stock (release_pending_outputs t r) pk = stock r pk"
  "stock (set_transform i st r) pk = stock r pk"
  "held_capacity (consume_inputs t r) pk = held_capacity r pk"
  "held_capacity (reserve_outputs t r) pk = held_capacity r pk"
  "held_capacity (release_pending_outputs t r) pk = held_capacity r pk"
  "held_capacity (produce_outputs t now r) pk = held_capacity r pk"
  "held_capacity (set_transform i st r) pk = held_capacity r pk"
  "held_output (consume_inputs t r) pk = held_output r pk"
  "held_output (reserve_capacity t r) pk = held_output r pk"
  "held_output (release_capacity t r) pk = held_output r pk"
  "held_output (produce_outputs t now r) pk = held_output r pk"
  "held_output (set_transform i st r) pk = held_output r pk"
  by (simp_all add: stock_def held_capacity_def held_output_def)


section \<open>The reservation contract\<close>

text \<open>
  \<open>booked_sum\<close> is what the running transforms of \<open>ts\<close> claim; \<open>booked\<close> says that this is
  what the runtime holds.
\<close>

definition booked_sum ::
  "(sl1_transform \<Rightarrow> nat) \<Rightarrow> (string, sl1_transform_state) btree_map \<Rightarrow> sl1_transform list \<Rightarrow> nat"
  where
  "booked_sum c m ts = sum_list (map (\<lambda>t.
     if is_running (bt_get_or TIdle m (transform_id t)) then c t else 0) ts)"

definition booked ::
  "(sl1_runtime \<Rightarrow> 'k \<Rightarrow> nat) \<Rightarrow> (sl1_transform \<Rightarrow> 'k \<Rightarrow> nat) \<Rightarrow> sl1_transform list
    \<Rightarrow> (string, sl1_transform_state) btree_map \<Rightarrow> sl1_runtime \<Rightarrow> bool" where
  "booked held claim ts m r \<longleftrightarrow> (\<forall>k. held r k = booked_sum (\<lambda>t. claim t k) m ts)"

lemma booked_sum_Cons:
  "booked_sum c m (t # ts) =
     (if is_running (bt_get_or TIdle m (transform_id t)) then c t else 0) + booked_sum c m ts"
  by (simp add: booked_sum_def)

lemma booked_sum_unchanged:
  "transform_id t \<notin> transform_id ` set ts \<Longrightarrow>
   booked_sum c (bt_insert (transform_id t) \<sigma> m) ts = booked_sum c m ts"
  unfolding booked_sum_def
  by (intro arg_cong [where f = sum_list] map_cong) (auto simp: image_iff)

lemma booked_sum_insert:
  assumes "distinct (map transform_id ts)" and "t \<in> set ts"
  shows "booked_sum c (bt_insert (transform_id t) \<sigma>' m) ts + (if is_running \<sigma> then c t else 0)
    = booked_sum c (bt_insert (transform_id t) \<sigma> m) ts + (if is_running \<sigma>' then c t else 0)"
  using assms
proof (induction ts)
  case (Cons u ts)
  show ?case
  proof (cases "u = t")
    case True
    with Cons.prems(1) have "transform_id t \<notin> transform_id ` set ts" by simp
    with True show ?thesis
      by (simp add: booked_sum_Cons booked_sum_unchanged)
  next
    case False
    with Cons.prems have "t \<in> set ts" "transform_id u \<noteq> transform_id t"
      by (auto simp: image_iff)
    with Cons show ?thesis by (simp add: booked_sum_Cons)
  qed
qed simp

lemma booked_sum_le:
  assumes "\<And>t. t \<in> set ts \<Longrightarrow> c t \<le> b"
  shows "booked_sum c m ts \<le> length ts * b"
  using assms unfolding booked_sum_def by (induction ts) (auto simp: add_mono trans_le_add2)

lemma booked_sum_running_le:
  "t \<in> set ts \<Longrightarrow> is_running (bt_get_or TIdle m (transform_id t)) \<Longrightarrow> c t \<le> booked_sum c m ts"
  unfolding booked_sum_def
  using sum_list_mono_elem [of t ts "\<lambda>t. if is_running (bt_get_or TIdle m (transform_id t))
    then c t else 0"] by simp

locale reservation =
  fixes held :: "sl1_runtime \<Rightarrow> 'k \<Rightarrow> nat"
    and claim :: "sl1_transform \<Rightarrow> 'k \<Rightarrow> nat"
    and reserve :: "sl1_transform \<Rightarrow> sl1_runtime \<Rightarrow> sl1_runtime"
    and release :: "sl1_transform \<Rightarrow> sl1_runtime \<Rightarrow> sl1_runtime"
  assumes held_reserve:
      "held r k + claim t k < 2 ^ 64 \<Longrightarrow> held (reserve t r) k = held r k + claim t k"
    and held_release: "held (release t r) k = held r k - claim t k"
begin

lemma booked_stay:
  assumes "booked held claim ts (bt_insert (transform_id t) \<sigma> m) r"
    and "is_running \<sigma> = is_running \<sigma>'" and "\<And>k. held r' k = held r k"
    and "distinct (map transform_id ts)" and "t \<in> set ts"
  shows "booked held claim ts (bt_insert (transform_id t) \<sigma>' m) r'"
  unfolding booked_def
proof
  fix k
  from booked_sum_insert [OF assms(4,5), of "\<lambda>t. claim t k" \<sigma>' m \<sigma>] assms(1,2,3)
  show "held r' k = booked_sum (\<lambda>t. claim t k) (bt_insert (transform_id t) \<sigma>' m) ts"
    by (simp add: booked_def split: if_splits)
qed

text \<open>Starting books the claim; the bound keeps the sums below the word's width.\<close>

lemma booked_reserve:
  assumes "booked held claim ts (bt_insert (transform_id t) \<sigma> m) r"
    and "\<not> is_running \<sigma>" and "is_running \<sigma>'"
    and "distinct (map transform_id ts)" and "t \<in> set ts"
    and "\<And>t k. t \<in> set ts \<Longrightarrow> claim t k \<le> b" and "length ts * b < 2 ^ 64"
  shows "booked held claim ts (bt_insert (transform_id t) \<sigma>' m) (reserve t r)"
  unfolding booked_def
proof
  fix k
  have step: "booked_sum (\<lambda>t. claim t k) (bt_insert (transform_id t) \<sigma>' m) ts
      = held r k + claim t k"
    using booked_sum_insert [OF assms(4,5), of "\<lambda>t. claim t k" \<sigma>' m \<sigma>] assms(1,2,3)
    by (simp add: booked_def)
  have "booked_sum (\<lambda>t. claim t k) (bt_insert (transform_id t) \<sigma>' m) ts \<le> length ts * b"
    by (rule booked_sum_le) (rule assms(6))
  with step assms(7) have "held r k + claim t k < 2 ^ 64" by linarith
  then show "held (reserve t r) k
      = booked_sum (\<lambda>t. claim t k) (bt_insert (transform_id t) \<sigma>' m) ts"
    using step by (simp add: held_reserve)
qed

lemma booked_release:
  assumes "booked held claim ts (bt_insert (transform_id t) \<sigma> m) r"
    and "is_running \<sigma>" and "\<not> is_running \<sigma>'"
    and "distinct (map transform_id ts)" and "t \<in> set ts"
  shows "booked held claim ts (bt_insert (transform_id t) \<sigma>' m) (release t r)"
  unfolding booked_def
proof
  fix k
  from booked_sum_insert [OF assms(4,5), of "\<lambda>t. claim t k" \<sigma>' m \<sigma>] assms(1,2,3)
  show "held (release t r) k = booked_sum (\<lambda>t. claim t k) (bt_insert (transform_id t) \<sigma>' m) ts"
    by (simp add: booked_def held_release)
qed

lemma booked_running_le:
  assumes "booked held claim ts (bt_insert (transform_id t) \<sigma> m) r"
    and "is_running \<sigma>" and "t \<in> set ts"
  shows "claim t k \<le> held r k"
  using assms booked_sum_running_le [of t ts "bt_insert (transform_id t) \<sigma> m" "\<lambda>t. claim t k"]
  by (simp add: booked_def)

end

text \<open>Both kinds of reservation are made by the commit and given back by the two releases.\<close>

abbreviation release_reservations :: "sl1_transform \<Rightarrow> sl1_runtime \<Rightarrow> sl1_runtime" where
  "release_reservations t r \<equiv> release_pending_outputs t (release_capacity t r)"

interpretation capacity: reservation held_capacity capacity_claim commit_start
    release_reservations
  by unfold_locales (simp_all add: commit_start_def held_capacity_reserve held_capacity_release)

interpretation room: reservation held_output output_claim commit_start release_reservations
  by unfold_locales (simp_all add: commit_start_def held_output_reserve held_output_release)

section \<open>The reservation invariant\<close>

definition capacity_within :: "sl1_scene \<Rightarrow> sl1_runtime \<Rightarrow> bool" where
  "capacity_within sc r \<longleftrightarrow>
     (\<forall>pk. held_capacity r pk \<le> unat (bt_get2 (place_caps sc) (fst pk) (snd pk)))"

definition storage_within :: "sl1_scene \<Rightarrow> sl1_runtime \<Rightarrow> bool" where
  "storage_within sc r \<longleftrightarrow>
     (\<forall>pk. stock r pk + held_output r pk \<le> unat (bt_get_or 0 (storage_caps sc) pk))"

definition reservations_ok ::
  "sl1_scene \<Rightarrow> (string, sl1_transform_state) btree_map \<Rightarrow> sl1_runtime \<Rightarrow> bool" where
  "reservations_ok sc m r \<longleftrightarrow>
     booked held_capacity capacity_claim (sc_transforms sc) m r
     \<and> booked held_output output_claim (sc_transforms sc) m r
     \<and> capacity_within sc r"

lemma claims_bounded:
  assumes "scene_ok sc" and "t \<in> set (sc_transforms sc)"
  shows "capacity_claim t pk \<le> 1000000000" and "output_claim t pk \<le> 1000000000"
proof -
  from scene_okD(5) [OF assms] have ok: "transform_ok sc t" .
  then have wf: "distinct (map fst (transform_capacity_cost t))"
    by (auto simp: transform_ok_def dest: bt_wf_distinct)
  have "total_at (transform_capacity_cost t) (snd pk) \<le> unat MAX_TRANSFORM_CAPACITY_COST"
    using ok by (intro total_le [OF wf]) (auto simp: transform_ok_def)
  then show "capacity_claim t pk \<le> 1000000000"
    by (simp add: capacity_claim_def MAX_TRANSFORM_CAPACITY_COST_def)
  have "total_at (io_pairs (transform_outputs t)) (snd pk) \<le> unat MAX_TRANSFORM_AMOUNT"
    using ok by (intro ios_ok_total_le) (simp add: transform_ok_def)
  then show "output_claim t pk \<le> 1000000000"
    by (simp add: output_claim_def MAX_TRANSFORM_AMOUNT_def)
qed

lemma sums_fit: "scene_ok sc \<Longrightarrow> length (sc_transforms sc) * 1000000000 < (2 :: nat) ^ 64"
  using scene_okD(4) [of sc] by (simp add: MAX_SL1_ITEMS_PER_SECTION_def)

lemma capacity_within_start:
  assumes "capacity_headroom (place_caps sc) t r" and "capacity_within sc r"
    and "distinct (map fst (transform_capacity_cost t))"
  shows "capacity_within sc (commit_start t r)"
  unfolding capacity_within_def
proof
  fix pk :: "string \<times> string"
  let ?base = "bt_get2 (place_caps sc) (fst pk) (snd pk)"
  show "held_capacity (commit_start t r) pk \<le> unat ?base"
  proof (cases "capacity_claim t pk = 0")
    case True
    with assms(2) [unfolded capacity_within_def, rule_format, of pk] show ?thesis
      by (simp add: commit_start_def held_capacity_reserve min.coboundedI1)
  next
    case False
    then have p: "fst pk = transform_runs_on t"
      and "snd pk \<in> fst ` set (transform_capacity_cost t)"
      using total_absent [of "snd pk" "transform_capacity_cost t"]
      by (auto simp: capacity_claim_def split: if_splits)
    then obtain v where v: "(snd pk, v) \<in> set (transform_capacity_cost t)" by auto
    with assms(1) p have "sat_add (bt_get2 (place_capacity_used r) (fst pk) (snd pk)) v
        \<le> effective_capacity (pressure r) (fst pk) (snd pk) ?base"
      by (auto simp: capacity_headroom_def Let_def)
    then have "sat_add (bt_get2 (place_capacity_used r) (fst pk) (snd pk)) v \<le> ?base"
      using effective_capacity_le order_trans by blast
    moreover have "capacity_claim t pk = unat v"
      using total_elem [OF assms(3) v] p by (simp add: capacity_claim_def)
    moreover have "unat (bt_get2 (place_capacity_used r) (fst pk) (snd pk)) = held_capacity r pk"
      by (simp add: held_capacity_def)
    ultimately show ?thesis
      by (simp add: commit_start_def held_capacity_reserve word_le_nat_alt unat_sat_add)
  qed
qed

lemma reservations_move:
  assumes "transform_move (storage_caps sc) (place_caps sc) now t (\<sigma>, r) (\<sigma>', r')"
    and "reservations_ok sc (bt_insert (transform_id t) \<sigma> m) r"
    and "scene_ok sc" and "t \<in> set (sc_transforms sc)"
  shows "reservations_ok sc (bt_insert (transform_id t) \<sigma>' m) r'"
proof -
  note inv = assms(2) [unfolded reservations_ok_def]
  note cap = inv [THEN conjunct1] and out = inv [THEN conjunct2, THEN conjunct1]
  note dist = scene_okD(3) [OF assms(3)]
  have less: "capacity_within sc r'" if "\<And>pk. held_capacity r' pk \<le> held_capacity r pk"
    using inv that unfolding capacity_within_def by (meson order_trans)
  from assms(1) show ?thesis
  proof (cases rule: transform_move.cases)
    case move_stay
    with inv show ?thesis
      unfolding reservations_ok_def
      by (auto intro: capacity.booked_stay [OF cap _ _ dist assms(4)]
          room.booked_stay [OF out _ _ dist assms(4)])
  next
    case move_start
    then have r': "r' = commit_start t r"
      and head: "capacity_headroom (place_caps sc) t r"
      by (auto simp: try_start_def split: if_splits)
    have "distinct (map fst (transform_capacity_cost t))"
      using scene_okD(5) [OF assms(3,4)] by (auto simp: transform_ok_def dest: bt_wf_distinct)
    with capacity_within_start [OF head] inv have "capacity_within sc r'"
      unfolding r' by blast
    moreover have "booked held_capacity capacity_claim (sc_transforms sc)
        (bt_insert (transform_id t) \<sigma>' m) r'"
      unfolding r' using claims_bounded(1) [OF assms(3)] sums_fit [OF assms(3)] move_start
      by (intro capacity.booked_reserve [OF cap _ _ dist assms(4)]) auto
    moreover have "booked held_output output_claim (sc_transforms sc)
        (bt_insert (transform_id t) \<sigma>' m) r'"
      unfolding r' using claims_bounded(2) [OF assms(3)] sums_fit [OF assms(3)] move_start
      by (intro room.booked_reserve [OF out _ _ dist assms(4)]) auto
    ultimately show ?thesis by (simp add: reservations_ok_def)
  next
    case move_finish
    have "booked held_capacity capacity_claim (sc_transforms sc) (bt_insert (transform_id t) \<sigma> m)
        (produce_outputs t now r)"
      "booked held_output output_claim (sc_transforms sc) (bt_insert (transform_id t) \<sigma> m)
        (produce_outputs t now r)"
      using cap out by (simp_all add: booked_def)
    moreover from move_finish have "capacity_within sc r'"
      by (intro less) (simp add: held_capacity_release)
    ultimately show ?thesis
      using move_finish unfolding reservations_ok_def
      by (auto intro!: capacity.booked_release room.booked_release simp: dist assms(4))
  next
    case move_abort
    then have "capacity_within sc r'"
      by (intro less) (simp add: held_capacity_release)
    with move_abort cap out show ?thesis
      unfolding reservations_ok_def
      by (auto intro!: capacity.booked_release room.booked_release simp: dist assms(4))
  qed
qed


text \<open>
  Storage: what is in a slot plus what is reserved for it stays within the slot's
  capacity. A slot of capacity \<open>u64::MAX\<close> is excluded, because the room check saturates
  there.
\<close>

definition storage_bounded :: "sl1_scene \<Rightarrow> bool" where
  "storage_bounded sc \<longleftrightarrow> (\<forall>p \<in> set (sc_places sc). \<forall>(k, slot) \<in> set (place_storage p).
     unat (slot_capacity slot) < 2 ^ 64 - 1)"

lemma storage_bounded_caps:
  assumes "storage_bounded sc"
  shows "unat (bt_get_or 0 (storage_caps sc) pk) < 2 ^ 64 - 1"
proof -
  have "unat (bt_get_or 0 (fold (\<lambda>p. fold (\<lambda>(k, slot).
       bt_insert (place_id p, k) (slot_capacity slot)) (place_storage p)) (sc_places sc) []) pk)
       < 2 ^ 64 - 1" (is "?P (fold ?f (sc_places sc) [])")
  proof (rule fold_inv [where P = ?P])
    fix p and m :: "(string \<times> string, u64) btree_map"
    assume p: "p \<in> set (sc_places sc)" and m: "?P m"
    from m show "?P (?f p m)"
    proof (rule fold_inv [where P = ?P])
      fix e and m :: "(string \<times> string, u64) btree_map"
      assume "e \<in> set (place_storage p)" and "?P m"
      with assms p show "?P ((\<lambda>(k, slot). bt_insert (place_id p, k) (slot_capacity slot)) e m)"
        by (cases e) (auto simp: storage_bounded_def)
    qed
  qed simp
  then show ?thesis by (simp add: storage_caps_def)
qed

lemma storage_within_start:
  assumes "output_room (storage_caps sc) t r" and "storage_within sc r"
    and "ios_ok (transform_outputs t)" and "storage_bounded sc"
  shows "storage_within sc (commit_start t r)"
  unfolding storage_within_def
proof
  fix pk :: "string \<times> string"
  let ?cap = "bt_get_or 0 (storage_caps sc) pk"
  have old: "stock r pk + held_output r pk \<le> unat ?cap"
    using assms(2) by (simp only: storage_within_def)
  have new: "stock (commit_start t r) pk + held_output (commit_start t r) pk
      \<le> stock r pk + (held_output r pk + output_claim t pk)"
    by (simp add: commit_start_def held_output_reserve stock_consume)
  show "stock (commit_start t r) pk + held_output (commit_start t r) pk \<le> unat ?cap"
  proof (cases "output_claim t pk = 0")
    case True
    with old new show ?thesis by linarith
  next
    case False
    then have p: "fst pk = transform_runs_on t"
      and "snd pk \<in> fst ` set (io_pairs (transform_outputs t))"
      using total_absent [of "snd pk" "io_pairs (transform_outputs t)"]
      by (auto simp: output_claim_def split: if_splits)
    then obtain out where out: "out \<in> set (transform_outputs t)" "io_thing_id out = snd pk"
      by (auto simp: io_pairs_def)
    have "pk = (transform_runs_on t, io_thing_id out)"
      using p out(2) by (cases pk) simp
    with assms(1) out(1) have "sat_add (sat_add (bt_get2 (inventories r) (fst pk) (snd pk))
        (bt_get_or 0 (pending_outputs r) pk)) (io_amount out) \<le> ?cap"
      by (auto simp: output_room_def Let_def)
    then have "min (min (stock r pk + held_output r pk) (2 ^ 64 - 1) + unat (io_amount out))
        (2 ^ 64 - 1) \<le> unat ?cap"
      by (simp add: word_le_nat_alt unat_sat_add stock_def held_output_def)
    moreover have "output_claim t pk = unat (io_amount out)"
      using ios_ok_total_elem [OF assms(3) out(1)] p out(2) by (simp add: output_claim_def)
    ultimately show ?thesis
      using storage_bounded_caps [OF assms(4), of pk] new by linarith
  qed
qed

lemma storage_move:
  assumes "transform_move (storage_caps sc) (place_caps sc) now t (\<sigma>, r) (\<sigma>', r')"
    and "reservations_ok sc (bt_insert (transform_id t) \<sigma> m) r" and "storage_within sc r"
    and "scene_ok sc" and "storage_bounded sc" and "t \<in> set (sc_transforms sc)"
  shows "storage_within sc r'"
proof -
  have less: "storage_within sc r'"
    if "\<And>pk. stock r' pk + held_output r' pk \<le> stock r pk + held_output r pk"
    using assms(3) that unfolding storage_within_def by (meson order_trans)
  have le: "is_running \<sigma> \<Longrightarrow> output_claim t pk \<le> held_output r pk" for pk
    using assms(2,6) by (auto simp: reservations_ok_def intro: room.booked_running_le)
  from assms(1) show ?thesis
  proof (cases rule: transform_move.cases)
    case move_start
    then have "r' = commit_start t r" "output_room (storage_caps sc) t r"
      by (auto simp: try_start_def split: if_splits)
    then show ?thesis
      using storage_within_start assms(3,5) scene_okD(5) [OF assms(4,6)]
      by (auto simp: transform_ok_def)
  next
    case move_finish
    then have "output_claim t pk \<le> held_output r pk" for pk by (simp add: le)
    then have "stock r' pk + held_output r' pk \<le> stock r pk + held_output r pk" for pk
      using move_finish
      by (simp add: stock_produce held_output_release min.coboundedI1 le_diff_conv)
    then show ?thesis by (rule less)
  next
    case move_abort
    then show ?thesis by (intro less) (simp add: held_output_release)
  qed (simp_all add: assms(3))
qed

section \<open>The invariant over a tick\<close>

lemma reservations_ok_cong:
  assumes "\<And>k. bt_get_or TIdle m k = bt_get_or TIdle m' k"
  shows "reservations_ok sc m r = reservations_ok sc m' r"
  by (simp add: reservations_ok_def booked_def booked_sum_def assms)

lemma reservations_ok_set_transform [simp]:
  "reservations_ok sc m (set_transform i \<sigma> r) = reservations_ok sc m r"
  "storage_within sc (set_transform i \<sigma> r) = storage_within sc r"
  by (simp_all add: reservations_ok_def booked_def capacity_within_def storage_within_def)

lemma process_one_reservations:
  assumes "reservations_ok sc (transforms (rt s)) (rt s)" and "scene_ok sc"
    and "t \<in> set (sc_transforms sc)"
    and "s' = process_one (storage_caps sc) (place_caps sc) now t (transform_id t) s"
  shows "reservations_ok sc (transforms (rt s')) (rt s')"
    and "storage_bounded sc \<Longrightarrow> storage_within sc (rt s) \<Longrightarrow> storage_within sc (rt s')"
proof -
  let ?m = "transforms (rt s)" and ?i = "transform_id t"
  obtain \<sigma>1 and r1 :: sl1_runtime and \<sigma>2 and r2 :: sl1_runtime where
    m1: "transform_move (storage_caps sc) (place_caps sc) now t
       (bt_get_or TIdle ?m ?i, rt s) (\<sigma>1, r1)" and
    m2: "transform_move (storage_caps sc) (place_caps sc) now t (\<sigma>1, r1) (\<sigma>2, r2)" and
    s': "rt s' = set_transform ?i \<sigma>2 r2"
    unfolding assms(4) by (rule process_one_moves)
  have r0: "reservations_ok sc (bt_insert ?i (bt_get_or TIdle ?m ?i) ?m) (rt s)"
    using assms(1) by (rule reservations_ok_cong [THEN iffD1, rotated]) auto
  note r1 = reservations_move [OF m1 r0 assms(2,3)]
  note r2 = reservations_move [OF m2 r1 assms(2,3)]
  have tr: "transforms (rt s') = bt_insert ?i \<sigma>2 ?m"
    using s' transform_move_frame(2) [OF m1] transform_move_frame(2) [OF m2] by simp
  show "reservations_ok sc (transforms (rt s')) (rt s')"
    unfolding tr using r2 by (simp add: s')
  assume b: "storage_bounded sc" and w: "storage_within sc (rt s)"
  show "storage_within sc (rt s')"
    using storage_move [OF m2 r1 storage_move [OF m1 r0 w assms(2) b assms(3)] assms(2) b assms(3)]
    by (simp add: s')
qed

lemma transform_defs_SomeD:
  "bt_get (transform_defs sc) i = Some t \<Longrightarrow> t \<in> set (sc_transforms sc) \<and> transform_id t = i"
  unfolding transform_defs_def by (drule bt_get_collect_SomeD) auto

lemma run_transforms_reservations:
  assumes "scene_ok sc" and "reservations_ok sc (transforms (rt s)) (rt s)"
  shows "reservations_ok sc (transforms (rt (run_transforms sc now s))) (rt (run_transforms sc now s))"
  unfolding run_transforms_def
  by (rule fold_inv [where P = "\<lambda>s. reservations_ok sc (transforms (rt s)) (rt s)"])
    (auto simp: assms(2) split: option.splits dest!: transform_defs_SomeD
      intro: process_one_reservations(1) [OF _ assms(1)])

lemma run_transforms_storage:
  assumes "scene_ok sc" and "storage_bounded sc"
    and "reservations_ok sc (transforms (rt s)) (rt s)" and "storage_within sc (rt s)"
  shows "storage_within sc (rt (run_transforms sc now s))"
proof -
  have "(\<lambda>s. reservations_ok sc (transforms (rt s)) (rt s) \<and> storage_within sc (rt s))
     (run_transforms sc now s)"
    unfolding run_transforms_def
    by (rule fold_inv)
      (auto simp: assms(3,4) split: option.splits dest!: transform_defs_SomeD
        intro: process_one_reservations(1) [OF _ assms(1)]
          process_one_reservations(2) [OF _ assms(1) _ refl assms(2)])
  then show ?thesis by simp
qed

lemma reservations_ok_from_scene:
  "reservations_ok sc (transforms (from_scene sc)) (from_scene sc)"
proof -
  have idle: "bt_get_or TIdle (transforms (from_scene sc)) k = TIdle" for k
    by (auto simp: bt_get_or_def dest: get_initial_transforms split: option.splits)
  have "booked_sum c (transforms (from_scene sc)) ts = 0" for c ts
    by (induction ts) (simp_all add: booked_sum_Cons idle booked_sum_def)
  moreover have "held_capacity (from_scene sc) pk = 0" "held_output (from_scene sc) pk = 0" for pk
    by (simp_all add: held_capacity_def held_output_def from_scene_def get_initial_capacity_used)
  ultimately show ?thesis
    by (simp add: reservations_ok_def booked_def capacity_within_def)
qed


lemma get_storage_caps:
  assumes "distinct (map place_id (sc_places sc))" and "p \<in> set (sc_places sc)"
    and "bt_wf (place_storage p)"
  shows "bt_get (storage_caps sc) (place_id p, k)
     = map_option slot_capacity (bt_get (place_storage p) k)"
proof -
  let ?g = "\<lambda>q (k, slot). bt_insert (place_id q, k) (slot_capacity slot)"
  let ?f = "\<lambda>q. fold (?g q) (place_storage q)"
  have own: "distinct (map fst es) \<Longrightarrow> bt_get (fold (?g p) es m) (place_id p, k) =
      (case map_of es k of None \<Rightarrow> bt_get m (place_id p, k) | Some v \<Rightarrow> Some (slot_capacity v))"
    for es and m :: "(string \<times> string, u64) btree_map"
  proof (induction es arbitrary: m)
    case (Cons e es)
    obtain k' v where e: "e = (k', v)" by force
    with Cons.prems have "k' = k \<Longrightarrow> map_of es k = None"
      by (auto simp: map_of_eq_None_iff)
    with Cons e show ?case by (auto split: option.splits)
  qed simp
  have other: "place_id q \<noteq> place_id p \<Longrightarrow>
      bt_get (fold (?g q) es m) (place_id p, k) = bt_get m (place_id p, k)"
    for q es and m :: "(string \<times> string, u64) btree_map"
    by (induction es arbitrary: m) auto
  have notin: "place_id p \<notin> place_id ` set ps \<Longrightarrow>
      bt_get (fold ?f ps m) (place_id p, k) = bt_get m (place_id p, k)" for ps m
    by (induction ps arbitrary: m) (auto simp: other)
  have at: "distinct (map place_id ps) \<Longrightarrow> p \<in> set ps \<Longrightarrow> bt_get m (place_id p, k) = None \<Longrightarrow>
      bt_get (fold ?f ps m) (place_id p, k) = map_option slot_capacity (bt_get (place_storage p) k)"
    for ps m
  proof (induction ps arbitrary: m)
    case (Cons q ps)
    show ?case
    proof (cases "q = p")
      case True
      with Cons.prems have "place_id p \<notin> place_id ` set ps" by simp
      with True Cons.prems(3) show ?thesis
        by (simp add: notin own [OF bt_wf_distinct [OF assms(3)]] split: option.splits)
    next
      case False
      with Cons.prems have ne: "place_id q \<noteq> place_id p" and p: "p \<in> set ps"
        and dist: "distinct (map place_id ps)" by auto
      have "bt_get (?f q m) (place_id p, k) = None"
        by (rule trans [OF other [OF ne] Cons.prems(3)])
      from Cons.IH [OF dist p this] show ?thesis by simp
    qed
  qed simp
  show ?thesis
    unfolding storage_caps_def using at [OF assms(1,2), of "[]"] by simp
qed

lemma from_scene_stocks [simp]:
  "inventories (from_scene sc) = initial_inventories sc"
  "pending_outputs (from_scene sc) = []"
  "place_capacity_used (from_scene sc) = initial_capacity_used sc"
  by (simp_all add: from_scene_def)

lemma initial_inventories_undeclared:
  "p \<notin> place_id ` set (sc_places sc) \<Longrightarrow> bt_get2 (initial_inventories sc) p k = 0"
  unfolding initial_inventories_def
  by (rule fold_inv [where P = "\<lambda>m. bt_get2 m p k = 0"]) auto

lemma storage_within_from_scene:
  assumes "scene_ok sc"
  shows "storage_within sc (from_scene sc)"
  unfolding storage_within_def
proof
  fix pk :: "string \<times> string"
  have held: "held_output (from_scene sc) x = 0" for x
    by (simp add: held_output_def)
  show "stock (from_scene sc) pk + held_output (from_scene sc) pk
      \<le> unat (bt_get_or 0 (storage_caps sc) pk)"
  proof (cases "fst pk \<in> place_id ` set (sc_places sc)")
    case False
    then show ?thesis
      by (simp add: held stock_def initial_inventories_undeclared)
  next
    case True
    then obtain p where p: "p \<in> set (sc_places sc)" "fst pk = place_id p" by auto
    from scene_okD(2) [OF assms p(1)] have ok: "place_ok p" .
    then have wf: "bt_wf (place_storage p)" by (simp add: place_ok_def)
    have "slot_initial slot \<le> slot_capacity slot"
      if "bt_get (place_storage p) (snd pk) = Some slot" for slot
      using ok map_of_SomeD [OF that] by (auto simp: place_ok_def)
    with get_storage_caps [OF scene_okD(1) [OF assms] p(1) wf, of "snd pk"]
      get_initial_inventories [OF scene_okD(1) [OF assms] p(1) wf, of "snd pk"]
    show ?thesis
      using p(2)
      by (cases pk) (auto simp: held stock_def word_le_nat_alt bt_get_or_def
          split: option.splits)
  qed
qed

section \<open>Starting, completing, failing\<close>

lemma try_start_effect:
  assumes "try_start scaps pcaps t r = (Started, r')"
  shows "stock r' pk + input_need t pk = stock r pk \<or> \<not> ios_ok (transform_inputs t)"
    and "held_capacity r' pk = min (held_capacity r pk + capacity_claim t pk) (2 ^ 64 - 1)"
    and "held_output r' pk = min (held_output r pk + output_claim t pk) (2 ^ 64 - 1)"
proof -
  from assms have r': "r' = commit_start t r" and av: "inputs_available t r"
    by (auto simp: try_start_def split: if_splits)
  show "held_capacity r' pk = min (held_capacity r pk + capacity_claim t pk) (2 ^ 64 - 1)"
    "held_output r' pk = min (held_output r pk + output_claim t pk) (2 ^ 64 - 1)"
    by (simp_all add: r' commit_start_def held_capacity_reserve held_output_reserve)
  have "input_need t pk \<le> stock r pk" if ok: "ios_ok (transform_inputs t)"
  proof (cases "input_need t pk = 0")
    case False
    then have p: "fst pk = transform_runs_on t"
      and "snd pk \<in> fst ` set (io_pairs (transform_inputs t))"
      using total_absent [of "snd pk" "io_pairs (transform_inputs t)"]
      by (auto simp: input_need_def split: if_splits)
    then obtain io where io: "io \<in> set (transform_inputs t)" "io_thing_id io = snd pk"
      by (auto simp: io_pairs_def)
    with ios_ok_total_elem [OF ok io(1)] p av show ?thesis
      by (auto simp: input_need_def inputs_available_def stock_def word_le_nat_alt not_less)
  qed simp
  then show "stock r' pk + input_need t pk = stock r pk \<or> \<not> ios_ok (transform_inputs t)"
    by (auto simp: r' commit_start_def stock_consume)
qed


text \<open>Completion adds exactly the declared outputs and marks them fresh at this tick.\<close>

lemma freshness_produce:
  "bt_get (freshness (produce_outputs t now r)) (p, k) =
     (if p = transform_runs_on t \<and> k \<in> io_thing_id ` set (transform_outputs t)
      then Some (FOk now) else bt_get (freshness r) (p, k))"
proof -
  have "bt_get (fold (\<lambda>out. bt_insert (transform_runs_on t, io_thing_id out) (FOk now)) outs m) (p, k)
      = (if p = transform_runs_on t \<and> k \<in> io_thing_id ` set outs then Some (FOk now)
         else bt_get m (p, k))" for outs m
    by (induction outs arbitrary: m) auto
  moreover have "freshness (produce_outputs t now r) =
      fold (\<lambda>out. bt_insert (transform_runs_on t, io_thing_id out) (FOk now))
        (transform_outputs t) (freshness r)"
    by (simp add: produce_outputs_def)
  ultimately show ?thesis by (simp only:)
qed

lemma advance_running_completes:
  assumes "advance_running def i sched started att now s = (\<sigma>', s')"
    and "now \<le> sat_add sched (transform_deadline_ticks def)"
    and "sat_add started (transform_duration_ticks def) \<le> now"
  shows "\<sigma>' = TIdle" and "stock (rt s') pk = min (stock (rt s) pk + output_claim def pk) (2 ^ 64 - 1)"
    and "held_output (rt s') pk = held_output (rt s) pk - output_claim def pk"
    and "held_capacity (rt s') pk = held_capacity (rt s) pk - capacity_claim def pk"
    and "out \<in> set (transform_outputs def) \<Longrightarrow>
      bt_get (freshness (rt s')) (transform_runs_on def, io_thing_id out) = Some (FOk now)"
    and "evs s' = evs s" and "msgs s' = msgs s"
proof -
  from assms have "\<sigma>' = TIdle"
    and s': "s' = with_rt (\<lambda>r. release_pending_outputs def
       (release_capacity def (produce_outputs def now r))) s"
    by (auto simp: advance_running_def Let_def not_less [symmetric])
  then show "\<sigma>' = TIdle" by simp
  show "stock (rt s') pk = min (stock (rt s) pk + output_claim def pk) (2 ^ 64 - 1)"
    "held_output (rt s') pk = held_output (rt s) pk - output_claim def pk"
    "held_capacity (rt s') pk = held_capacity (rt s) pk - capacity_claim def pk"
    "evs s' = evs s" "msgs s' = msgs s"
    by (simp_all add: s' stock_produce held_output_release held_capacity_release)
  show "out \<in> set (transform_outputs def) \<Longrightarrow>
      bt_get (freshness (rt s')) (transform_runs_on def, io_thing_id out) = Some (FOk now)"
    by (simp add: s' freshness_produce)
qed

section \<open>The state of one transform from tick to tick\<close>

definition next_state ::
  "sl1_scene \<Rightarrow> u64 \<Rightarrow> sl1_transform \<Rightarrow> sl1_transform_state \<Rightarrow> sl1_st \<Rightarrow> sl1_transform_state" where
  "next_state sc now t \<sigma> s =
     (let (\<sigma>1, s1) = advance (storage_caps sc) (place_caps sc) t (transform_id t) now \<sigma> s
      in fst (fire_slot (storage_caps sc) (place_caps sc) t (transform_id t) now \<sigma>1 s1))"

lemma process_one_transforms:
  "transforms (rt (process_one (storage_caps sc) (place_caps sc) now t (transform_id t) s))
     = bt_insert (transform_id t)
         (next_state sc now t (bt_get_or TIdle (transforms (rt s)) (transform_id t)) s)
         (transforms (rt s))"
proof -
  let ?i = "transform_id t" and ?\<sigma> = "bt_get_or TIdle (transforms (rt s)) (transform_id t)"
  obtain \<sigma>1 and s1 :: sl1_st where
    1: "advance (storage_caps sc) (place_caps sc) t ?i now ?\<sigma> s = (\<sigma>1, s1)"
    by fastforce
  obtain \<sigma>2 and s2 :: sl1_st where
    2: "fire_slot (storage_caps sc) (place_caps sc) t ?i now \<sigma>1 s1 = (\<sigma>2, s2)"
    by fastforce
  have "transforms (rt s2) = transforms (rt s)"
    using transform_move_frame(2) [OF advance_move [OF 1]]
      transform_move_frame(2) [OF fire_slot_move [OF 2]] by simp
  with 1 2 show ?thesis by (simp add: process_one_def next_state_def Let_def)
qed

text \<open>
  \<open>run_transforms\<close> steps every transform exactly once, whatever the others did before it
  in the same tick.
\<close>

lemma run_transforms_at:
  assumes "bt_wf (transforms (rt s))" and "bt_get (transform_defs sc) i = Some t"
    and "bt_get (transforms (rt s)) i = Some \<sigma>"
  shows "\<exists>s0. bt_get (transforms (rt (run_transforms sc now s))) i
    = Some (next_state sc now t \<sigma> s0)"
proof -
  let ?f = "\<lambda>i s. case bt_get (transform_defs sc) i of None \<Rightarrow> s
     | Some def \<Rightarrow> process_one (storage_caps sc) (place_caps sc) now def i s"
  have it: "transform_id t = i" using transform_defs_SomeD [OF assms(2)] by simp
  have step: "bt_get (transforms (rt (?f j u))) i = bt_get (transforms (rt u)) i"
    if "j \<noteq> i" for j and u :: sl1_st
  proof (cases "bt_get (transform_defs sc) j")
    case (Some d)
    then have "transform_id d = j" by (auto dest: transform_defs_SomeD)
    with Some that show ?thesis
      using process_one_transforms [of sc now d u] by simp
  qed simp
  have other: "i \<notin> set is \<Longrightarrow> bt_get (transforms (rt (fold ?f is u))) i = bt_get (transforms (rt u)) i"
    for "is" and u :: sl1_st
    by (induction "is" arbitrary: u) (auto simp: step simp del: option.case)
  have "distinct is \<Longrightarrow> i \<in> set is \<Longrightarrow> bt_get (transforms (rt u)) i = Some \<sigma> \<Longrightarrow>
      \<exists>s0. bt_get (transforms (rt (fold ?f is u))) i = Some (next_state sc now t \<sigma> s0)"
    for "is" and u :: sl1_st
  proof (induction "is" arbitrary: u)
    case (Cons j "is")
    show ?case
    proof (cases "j = i")
      case True
      with Cons.prems have "i \<notin> set is" by simp
      with True other [of "is" "?f i u"] have "bt_get (transforms (rt (fold ?f (j # is) u))) i
          = bt_get (transforms (rt (?f i u))) i" by simp
      also have "\<dots> = Some (next_state sc now t \<sigma> u)"
        using process_one_transforms [of sc now t u] Cons.prems(3) by (simp add: assms(2) it)
      finally show ?thesis by blast
    next
      case False
      with Cons.prems have "bt_get (transforms (rt (?f j u))) i = Some \<sigma>"
        using step [OF False, of u] by simp
      with Cons.IH [of "?f j u"] Cons.prems False show ?thesis by simp
    qed
  qed simp
  from this [of "bt_keys (transforms (rt s))" s] assms(3) show ?thesis
    unfolding run_transforms_def
    using bt_wf_distinct [OF assms(1)] bt_has_keys [of "transforms (rt s)" i]
    by (simp add: bt_has_def)
qed

text \<open>
  Attempts stay between one and \<open>max_attempts\<close>; a late transform waits for its second or a
  later one.
\<close>

fun attempts_ok :: "sl1_transform \<Rightarrow> sl1_transform_state \<Rightarrow> bool" where
  "attempts_ok t TIdle = True"
| "attempts_ok t (TRunning _ _ att) = (1 \<le> att \<and> att \<le> transform_max_attempts t)"
| "attempts_ok t (TStarved _ _ att) = (1 \<le> att \<and> att \<le> transform_max_attempts t)"
| "attempts_ok t (TBlocked _ _ att) = (1 \<le> att \<and> att \<le> transform_max_attempts t)"
| "attempts_ok t (TLate _ att _) = (2 \<le> att \<and> att \<le> transform_max_attempts t)"

lemma sat_add_one_le: "1 \<le> a \<Longrightarrow> (a :: u32) < b \<Longrightarrow> 2 \<le> sat_add a 1 \<and> sat_add a 1 \<le> b"
  using unat_max [of b] by (auto simp: word_le_nat_alt word_less_nat_alt unat_sat_add)

lemma handle_failure_attempts:
  "handle_failure_policy t i sched att now s = (\<sigma>', s') \<Longrightarrow> 1 \<le> att \<Longrightarrow> attempts_ok t \<sigma>'"
  using sat_add_one_le [of att "transform_max_attempts t"]
  by (auto simp: handle_failure_policy_def not_le split: sl1_failure_policy.splits if_splits)

lemma advance_attempts:
  assumes "attempts_ok t \<sigma>" and "advance scaps pcaps t i now \<sigma> s = (\<sigma>', s')"
  shows "attempts_ok t \<sigma>'"
proof (cases \<sigma>)
  case (TRunning sched started att)
  with assms show ?thesis
    by (auto simp: advance_def advance_running_def Let_def split: if_splits
        dest: handle_failure_attempts)
next
  case (TStarved sched since att)
  with assms show ?thesis
    by (auto simp: advance_def advance_waiting_def start_attempt_quiet_def Let_def
        split: if_splits prod.splits start_result.splits dest: handle_failure_attempts)
next
  case (TBlocked sched since att)
  with assms show ?thesis
    by (auto simp: advance_def advance_waiting_def start_attempt_quiet_def Let_def
        split: if_splits prod.splits start_result.splits dest: handle_failure_attempts)
next
  case (TLate sched att since)
  have "2 \<le> sat_add att 1" "1 \<le> sat_add att 1" "1 \<le> att"
    using TLate assms(1) unat_max [of att] by (simp_all add: word_le_nat_alt unat_sat_add)
  with TLate assms show ?thesis
    by (auto simp: advance_def advance_late_def Let_def not_less
        split: if_splits prod.splits sl1_failure_policy.splits)
qed (use assms in \<open>simp add: advance_def\<close>)

lemma fire_slot_attempts:
  assumes "attempts_ok t \<sigma>" and "0 < transform_max_attempts t"
    and "fire_slot scaps pcaps t i now \<sigma> s = (\<sigma>', s')"
  shows "attempts_ok t \<sigma>'"
proof -
  have "1 \<le> transform_max_attempts t"
    using assms(2) by (simp add: word_le_nat_alt word_less_nat_alt)
  with assms show ?thesis
    by (auto simp: fire_slot_def start_attempt_def Let_def
        split: if_splits prod.splits start_result.splits)
qed

lemma next_state_attempts:
  assumes "attempts_ok t \<sigma>" and "0 < transform_max_attempts t"
  shows "attempts_ok t (next_state sc now t \<sigma> s)"
  using assms unfolding next_state_def Let_def
  by (auto split: prod.splits dest: advance_attempts fire_slot_attempts)
    (metis advance_attempts fire_slot_attempts prod.collapse)


text \<open>A late transform that stays late has used up one more of its attempts.\<close>

lemma next_state_late:
  assumes "next_state sc now t (TLate sched att since) s = TLate sched' att' since'"
  shows "sched' = sched \<and> since' = since \<and> att' = sat_add att 1 \<and> att' \<le> transform_max_attempts t"
proof -
  let ?i = "transform_id t"
  obtain \<sigma>1 and s1 :: sl1_st where
    1: "advance (storage_caps sc) (place_caps sc) t ?i now (TLate sched att since) s = (\<sigma>1, s1)"
    by fastforce
  with assms have "fst (fire_slot (storage_caps sc) (place_caps sc) t ?i now \<sigma>1 s1)
      = TLate sched' att' since'" by (simp add: next_state_def)
  then have "\<sigma>1 = TLate sched' att' since'"
    by (auto simp: fire_slot_def start_attempt_def Let_def
        split: if_splits prod.splits start_result.splits)
  with 1 show ?thesis
    by (auto simp: advance_def advance_late_def Let_def not_less
        split: if_splits prod.splits sl1_failure_policy.splits)
qed

text \<open>
  After a tick nothing in flight is overdue: a running transform is before its completion
  and within its deadline, a waiting one is within its deadline.
\<close>

fun in_time :: "sl1_transform \<Rightarrow> u64 \<Rightarrow> sl1_transform_state \<Rightarrow> bool" where
  "in_time t now (TRunning sched started _) \<longleftrightarrow>
     now < sat_add started (transform_duration_ticks t)
     \<and> now \<le> sat_add sched (transform_deadline_ticks t)"
| "in_time t now (TStarved sched _ _) \<longleftrightarrow> now \<le> sat_add sched (transform_deadline_ticks t)"
| "in_time t now (TBlocked sched _ _) \<longleftrightarrow> now \<le> sat_add sched (transform_deadline_ticks t)"
| "in_time t now _ \<longleftrightarrow> True"

lemma less_sat_add: "now < - 1 \<Longrightarrow> 0 < d \<Longrightarrow> now < sat_add now (d :: u64)"
  by (simp add: word_less_nat_alt unat_sat_add unat_minus_one_eq)

lemma advance_in_time:
  assumes "advance scaps pcaps t i now \<sigma> s = (\<sigma>', s')" and "now < - 1"
    and "0 < transform_duration_ticks t"
  shows "in_time t now \<sigma>'"
proof -
  have hf: "in_time t now \<tau>" if "handle_failure_policy t i sched att now u = (\<tau>, u')"
    for sched att u \<tau> and u' :: sl1_st
    using that by (auto simp: handle_failure_policy_def split: sl1_failure_policy.splits if_splits)
  have wait: "in_time t now \<sigma>'"
    if "advance_waiting scaps pcaps t i sched since att now s = (\<sigma>', s')" for sched since att
    using that less_sat_add [OF assms(2,3)]
    by (auto simp: advance_waiting_def start_attempt_quiet_def Let_def not_less
        split: if_splits prod.splits start_result.splits dest: hf)
  show ?thesis
  proof (cases \<sigma>)
    case (TRunning sched started att)
    with assms(1) show ?thesis
      by (auto simp: advance_def advance_running_def Let_def not_le not_less
          split: if_splits dest: hf)
  next
    case (TLate sched att since)
    with assms(1) less_sat_add [OF assms(2,3)] le_sat_add [of now] show ?thesis
      by (auto simp: advance_def advance_late_def Let_def
          split: if_splits prod.splits sl1_failure_policy.splits)
  qed (use assms(1) in \<open>auto simp: advance_def dest: wait\<close>)
qed

lemma next_state_in_time:
  assumes "now < - 1" and "0 < transform_duration_ticks t"
  shows "in_time t now (next_state sc now t \<sigma> s)"
proof -
  obtain \<sigma>1 and s1 :: sl1_st where
    1: "advance (storage_caps sc) (place_caps sc) t (transform_id t) now \<sigma> s = (\<sigma>1, s1)"
    by fastforce
  have "in_time t now (fst (fire_slot (storage_caps sc) (place_caps sc) t (transform_id t) now \<sigma>1 s1))"
    using advance_in_time [OF 1 assms] less_sat_add [OF assms] le_sat_add [of now]
    by (auto simp: fire_slot_def start_attempt_def Let_def split: prod.splits start_result.splits)
  with 1 show ?thesis by (simp add: next_state_def)
qed

section \<open>Frames of the whole step\<close>

lemma process_one_rt_frame: "transform_frame (rt s) (rt (process_one scaps pcaps now t i s))"
proof -
  obtain \<sigma>1 and r1 :: sl1_runtime and \<sigma>2 and r2 :: sl1_runtime where
    "transform_move scaps pcaps now t (bt_get_or TIdle (transforms (rt s)) i, rt s) (\<sigma>1, r1)"
    "transform_move scaps pcaps now t (\<sigma>1, r1) (\<sigma>2, r2)"
    "rt (process_one scaps pcaps now t i s) = set_transform i \<sigma>2 r2"
    by (rule process_one_moves)
  then show ?thesis
    by (auto dest!: transform_move_frame(1) intro: transform_frame_trans)
qed

lemma run_transforms_rt_frame: "transform_frame (rt s) (rt (run_transforms sc now s))"
  unfolding run_transforms_def
  by (rule fold_inv [where P = "\<lambda>u. transform_frame (rt s) (rt u)"])
    (auto simp: transform_frame_refl split: option.splits
      intro: transform_frame_trans process_one_rt_frame)

lemma run_transforms_frame [simp, frame_simps]:
  "demand (rt (run_transforms sc now s)) = demand (rt s)"
  "pressure (rt (run_transforms sc now s)) = pressure (rt s)"
  "objectives (rt (run_transforms sc now s)) = objectives (rt s)"
  "failure_conditions (rt (run_transforms sc now s)) = failure_conditions (rt s)"
  "victory_conditions (rt (run_transforms sc now s)) = victory_conditions (rt s)"
  "outcome (rt (run_transforms sc now s)) = outcome (rt s)"
  "phase (rt (run_transforms sc now s)) = phase (rt s)"
  "metric_states (rt (run_transforms sc now s)) = metric_states (rt s)"
  "unsupported_objectives_warned (rt (run_transforms sc now s))
     = unsupported_objectives_warned (rt s)"
  "dashboard_states (rt (run_transforms sc now s)) = dashboard_states (rt s)"
  "alert_states (rt (run_transforms sc now s)) = alert_states (rt s)"
  "agents (rt (run_transforms sc now s)) = agents (rt s)"
  "agent_demand_pauses (rt (run_transforms sc now s)) = agent_demand_pauses (rt s)"
  "milestones (rt (run_transforms sc now s)) = milestones (rt s)"
  using run_transforms_rt_frame [of s sc now] by (simp_all add: transform_frame_def)

lemma emit_warning_simps [simp]:
  "rt (emit_warning i ev now att s) = rt s" "evs (emit_warning i ev now att s) = evs s"
  by (simp_all add: emit_warning_def)

text \<open>Transforms push no event, and messages are only appended.\<close>

lemma grows_handle_failure:
  "grows s u \<Longrightarrow> grows s (snd (handle_failure_policy t i sched att now u))"
  by (auto simp: handle_failure_policy_def emit_warning_def intro: mono_append
      split: sl1_failure_policy.splits)

lemma advance_grows: "grows s (snd (advance scaps pcaps t i now \<sigma> s))"
proof -
  have r: "grows s (snd (advance_running t i sched started att now s))" for sched started att
    by (auto simp: advance_running_def Let_def emit_warning_def
        intro!: mono_append grows_handle_failure)
  have w: "grows s (snd (advance_waiting scaps pcaps t i sched since att now s))"
    for sched since att
    by (auto simp: advance_waiting_def start_attempt_quiet_def Let_def emit_warning_def
        split: prod.splits start_result.splits intro!: mono_append grows_handle_failure)
  have l: "grows s (snd (advance_late scaps pcaps t i sched att since now s))"
    for sched since att
    by (auto simp: advance_late_def Let_def emit_warning_def
        split: prod.splits sl1_failure_policy.splits intro!: mono_append)
  show ?thesis
    by (auto simp: advance_def r w l grows_refl split: sl1_transform_state.splits)
qed

lemma fire_slot_grows: "grows s u \<Longrightarrow> grows s (snd (fire_slot scaps pcaps t i now \<sigma> u))"
  by (auto simp: fire_slot_def start_attempt_def Let_def emit_warning_def
      split: prod.splits start_result.splits intro!: mono_append)

lemma process_one_grows: "grows s (process_one scaps pcaps now t i s)"
proof -
  have "grows s (snd (fire_slot scaps pcaps t i now \<sigma> (snd (advance scaps pcaps t i now \<tau> s))))"
    for \<sigma> \<tau>
    by (intro fire_slot_grows advance_grows)
  then show ?thesis
    by (simp add: process_one_def Let_def case_prod_unfold grows_push(3))
qed

lemma run_transforms_grows: "grows s (run_transforms sc now s)"
  unfolding run_transforms_def
  by (rule fold_rel [OF grows_refl grows_trans])
    (auto simp: grows_refl process_one_grows split: option.splits)

lemma run_transforms_wf:
  assumes "bt_wf (transforms (rt s))"
  shows "bt_wf (transforms (rt (run_transforms sc now s)))"
  unfolding run_transforms_def
proof (rule fold_inv [where P = "\<lambda>s. bt_wf (transforms (rt s))"])
  fix i and u :: sl1_st
  assume "bt_wf (transforms (rt u))"
  then show "bt_wf (transforms (rt (case bt_get (transform_defs sc) i of None \<Rightarrow> u
     | Some def \<Rightarrow> process_one (storage_caps sc) (place_caps sc) now def i u)))"
    using process_one_transforms [of sc now _ u]
    by (auto split: option.splits dest!: transform_defs_SomeD)
qed (rule assms)


section \<open>The system contract\<close>

lemma run_transforms_shape: "rt_shape sc (rt s) \<Longrightarrow> rt_shape sc (rt (run_transforms sc now s))"
  by (erule rt_shape_mono) simp_all

interpretation transforms: sl1_system "\<lambda>sc now s. Some (run_transforms sc now s)" "\<lambda>_ _ _. True"
  by unfold_locales (auto simp: run_transforms_grows run_transforms_shape)

end
