(* ===== verification/Demand.thy ===== *)
theory Demand
  imports Pressure
begin

text \<open>
  The demand half of \<open>crates/engine/src/sl1_runtime.rs\<close>: for each declared demand, in id
  order, spawn what the schedule fires (unless an agent paused it), drop what is past its
  deadline, fulfil the oldest instance when everything it requires is present, and rearm
  the overflow flag. The invariant \<open>demand_inv\<close> (backlog bound, deadlines in queue order,
  consecutive sequence numbers, conservation of instances) is kept by every tick.
\<close>

section \<open>The schedule\<close>

text \<open>The \<open>while\<close> loop of a scripted schedule: the cursor moves past every tick up to \<open>now\<close>.\<close>

function advance_cursor :: "u64 list \<Rightarrow> u64 \<Rightarrow> nat \<Rightarrow> bool \<times> nat" where
  "advance_cursor ticks now c =
     (if c < length ticks then
        let candidate = ticks ! c in
        if candidate = now then (True, c + 1)
        else if candidate < now then advance_cursor ticks now (c + 1)
        else (False, c)
      else (False, c))"
  by pat_completeness auto
termination by (relation "measure (\<lambda>(ticks, _, c). length ticks - c)") auto

declare advance_cursor.simps [simp del]

definition should_spawn ::
  "sl1_demand \<Rightarrow> u64 \<Rightarrow> sl1_demand_runtime \<Rightarrow> (bool \<times> sl1_demand_runtime) option" where
  "should_spawn def now drt =
     (if now = 0 then Some (False, drt)
      else case demand_spawn_schedule def of
        Fixed every start \<Rightarrow>
          if start \<le> now then do {
            m \<leftarrow> checked_rem (now - start) every;
            Some (m = 0, drt) }
          else Some (False, drt)
      | Scripted ticks \<Rightarrow>
          let (fired, c) = advance_cursor ticks now (scripted_cursor drt)
          in Some (fired, drt\<lparr>scripted_cursor := c\<rparr>))"

section \<open>Spawning\<close>

datatype spawn_outcome = Spawned | Overflowed | OverflowSuppressed

definition enqueue :: "u64 \<Rightarrow> u64 \<Rightarrow> sl1_demand_runtime \<Rightarrow> sl1_demand_runtime" where
  "enqueue now deadline_ticks drt = drt
     \<lparr>next_sequence := sat_add (next_sequence drt) 1,
      pending := pending drt @
        [\<lparr>di_sequence = next_sequence drt, di_spawned_at = now,
          di_deadline_tick = sat_add now deadline_ticks\<rparr>]\<rparr>"

text \<open>\<open>for _ in 0..want\<close> with its early \<open>break\<close>; the flags are \<open>spawned\<close> and \<open>overflowed\<close>.\<close>

fun spawn_loop ::
  "nat \<Rightarrow> u64 \<Rightarrow> u64 \<Rightarrow> sl1_demand_runtime \<times> u32 \<times> bool \<Rightarrow> sl1_demand_runtime \<times> u32 \<times> bool" where
  "spawn_loop 0 now dl st = st"
| "spawn_loop (Suc n) now dl (drt, spawned, overflowed) =
     (if MAX_DEMAND_OUTSTANDING \<le> length (pending drt) then
        if \<not> overflow drt then (drt\<lparr>overflow := True\<rparr>, spawned, True)
        else (drt, spawned, overflowed)
      else spawn_loop n now dl (enqueue now dl drt, sat_add spawned 1, overflowed))"

definition upd_demand ::
  "string \<Rightarrow> (sl1_demand_runtime \<Rightarrow> sl1_demand_runtime) \<Rightarrow> sl1_runtime \<Rightarrow> sl1_runtime" where
  "upd_demand i f r = r\<lparr>demand := bt_modify i f (demand r)\<rparr>"

definition pause_check :: "u64 \<Rightarrow> string \<Rightarrow> sl1_runtime \<Rightarrow> bool \<times> sl1_runtime" where
  "pause_check now i r =
     (case bt_get (agent_demand_pauses r) i of
        Some until \<Rightarrow>
          if now < until then (True, r)
          else (False, r\<lparr>agent_demand_pauses := bt_remove i (agent_demand_pauses r)\<rparr>)
      | None \<Rightarrow> (False, r))"

definition spawn_instances ::
  "u32 \<Rightarrow> u64 \<Rightarrow> u64 \<Rightarrow> sl1_demand_runtime \<Rightarrow> spawn_outcome \<times> sl1_demand_runtime" where
  "spawn_instances want now dl drt =
     (let (drt', spawned, overflowed) = spawn_loop (unat want) now dl (drt, 0, False)
      in (if overflowed then Overflowed
          else if spawned = 0 then OverflowSuppressed
          else Spawned, drt'))"

definition spawn_phase ::
  "u64 \<Rightarrow> sl1_demand \<Rightarrow> sl1_demand_runtime \<Rightarrow> sl1_runtime
    \<Rightarrow> (spawn_outcome option \<times> sl1_runtime) option" where
  "spawn_phase now def drt r =
     (let (paused, r1) = pause_check now (demand_id def) r
      in if paused then Some (None, r1)
         else do {
           (fires, drt1) \<leftarrow> should_spawn def now drt;
           if fires then
             let want = effective_spawn_count (pressure r1) (demand_id def);
                 (outc, drt2) = spawn_instances want now (demand_deadline_ticks def) drt1
             in Some (Some outc, upd_demand (demand_id def) (\<lambda>_. drt2) r1)
           else Some (None, upd_demand (demand_id def) (\<lambda>_. drt1) r1) })"

section \<open>Dropping, fulfilling, rearming\<close>

text \<open>The \<open>while let Some(front)\<close> loop: what is popped, what stays, the counter.\<close>

fun drop_loop ::
  "u64 \<Rightarrow> sl1_demand_instance list \<Rightarrow> u64
    \<Rightarrow> sl1_demand_instance list \<times> sl1_demand_instance list \<times> u64" where
  "drop_loop now [] cnt = ([], [], cnt)"
| "drop_loop now (d # ds) cnt =
     (if di_deadline_tick d < now then
        let (dropped, rest, cnt') = drop_loop now ds (sat_add cnt 1)
        in (d # dropped, rest, cnt')
      else ([], d # ds, cnt))"

definition drop_expired ::
  "u64 \<Rightarrow> sl1_demand_runtime \<Rightarrow> sl1_demand_instance list \<times> sl1_demand_runtime" where
  "drop_expired now drt =
     (let (dropped, rest, cnt) = drop_loop now (pending drt) (dropped_count drt)
      in (dropped, drt\<lparr>pending := rest, dropped_count := cnt\<rparr>))"

definition overflow_warning :: "u64 \<Rightarrow> sl1_demand \<Rightarrow> sim_message" where
  "overflow_warning now def =
     Warning (Sl1DemandWarning (demand_id def) WarnBacklogOverflow now None None None None)"

definition dropped_warning :: "u64 \<Rightarrow> sl1_demand \<Rightarrow> sl1_demand_instance \<Rightarrow> sim_message" where
  "dropped_warning now def d =
     Warning (Sl1DemandWarning (demand_id def) WarnDropped now (Some (di_sequence d))
       (Some (demand_value def)) (Some (penalty_score (demand_penalty def)))
       (penalty_warning (demand_penalty def)))"

definition drop_phase :: "u64 \<Rightarrow> sl1_demand \<Rightarrow> sl1_st \<Rightarrow> sl1_st" where
  "drop_phase now def s =
     (case bt_get (demand (rt s)) (demand_id def) of
        None \<Rightarrow> s
      | Some drt \<Rightarrow>
          let (dropped, drt') = drop_expired now drt
          in fold (\<lambda>d. push_message (dropped_warning now def d)) dropped
               (with_rt (upd_demand (demand_id def) (\<lambda>_. drt')) s))"

definition demand_requirements_met :: "sl1_demand \<Rightarrow> sl1_runtime \<Rightarrow> bool" where
  "demand_requirements_met def r =
     (case bt_get (inventories r) (target_place (demand_target def)) of
        None \<Rightarrow> False
      | Some row \<Rightarrow>
          (case bt_get (demand r) (demand_id def) of
             None \<Rightarrow> False
           | Some drt \<Rightarrow>
               pending drt \<noteq> []
               \<and> (\<forall>thing \<in> set (demand_requires def). bt_get_or 0 row thing \<noteq> 0)))"

definition fulfill_one :: "sl1_demand_runtime \<Rightarrow> sl1_demand_runtime" where
  "fulfill_one drt =
     (case pending drt of
        [] \<Rightarrow> drt
      | _ # rest \<Rightarrow> drt\<lparr>pending := rest, fulfilled_count := sat_add (fulfilled_count drt) 1\<rparr>)"

definition rearm_overflow :: "sl1_demand_runtime \<Rightarrow> sl1_demand_runtime" where
  "rearm_overflow drt =
     (if overflow drt \<and> length (pending drt) < MAX_DEMAND_OUTSTANDING
      then drt\<lparr>overflow := False\<rparr> else drt)"

definition demand_one :: "u64 \<Rightarrow> sl1_demand \<Rightarrow> sl1_st \<Rightarrow> sl1_st option" where
  "demand_one now def s =
     (case bt_get (demand (rt s)) (demand_id def) of
        None \<Rightarrow> Some s
      | Some drt \<Rightarrow> do {
          (outc, r1) \<leftarrow> spawn_phase now def drt (rt s);
          let s1 = with_rt (\<lambda>_. r1) s;
              s2 = (if outc = Some Overflowed
                    then push_message (overflow_warning now def) s1 else s1);
              s3 = drop_phase now def s2;
              s4 = (if demand_requirements_met def (rt s3)
                    then with_rt (upd_demand (demand_id def) fulfill_one) s3 else s3)
          in Some (with_rt (upd_demand (demand_id def) rearm_overflow) s4) })"

definition run_demand :: "sl1_scene \<Rightarrow> u64 \<Rightarrow> sl1_st \<Rightarrow> sl1_st option" where
  "run_demand sc now s = fold_opt (demand_one now) (sc_demand sc) s"


section \<open>Frames\<close>

lemma upd_demand_simps [simp, frame_simps]:
  "demand (upd_demand i f r) = bt_modify i f (demand r)"
  "inventories (upd_demand i f r) = inventories r"
  "pressure (upd_demand i f r) = pressure r"
  "agent_demand_pauses (upd_demand i f r) = agent_demand_pauses r"
  by (simp_all add: upd_demand_def)

definition demand_frame :: "sl1_runtime \<Rightarrow> sl1_runtime \<Rightarrow> bool" where
  "demand_frame r r' \<longleftrightarrow>
     inventories r' = inventories r \<and> freshness r' = freshness r
     \<and> transforms r' = transforms r \<and> place_capacity_used r' = place_capacity_used r
     \<and> pending_outputs r' = pending_outputs r \<and> pressure r' = pressure r
     \<and> objectives r' = objectives r \<and> failure_conditions r' = failure_conditions r
     \<and> victory_conditions r' = victory_conditions r \<and> outcome r' = outcome r
     \<and> phase r' = phase r \<and> metric_states r' = metric_states r
     \<and> unsupported_objectives_warned r' = unsupported_objectives_warned r
     \<and> dashboard_states r' = dashboard_states r \<and> alert_states r' = alert_states r
     \<and> agents r' = agents r \<and> milestones r' = milestones r"

lemma demand_frame_refl: "demand_frame r r"
  by (simp add: demand_frame_def)

lemma demand_frame_trans: "demand_frame a b \<Longrightarrow> demand_frame b c \<Longrightarrow> demand_frame a c"
  by (simp add: demand_frame_def)

lemma demand_frame_ops [simp]:
  "demand_frame q (upd_demand i f r) = demand_frame q r"
  "demand_frame q (snd (pause_check now i r)) = demand_frame q r"
  by (auto simp: demand_frame_def upd_demand_def pause_check_def split: option.splits)

lemma pause_check_simps [simp]:
  "demand (snd (pause_check now i r)) = demand r"
  "pressure (snd (pause_check now i r)) = pressure r"
  "inventories (snd (pause_check now i r)) = inventories r"
  by (auto simp: pause_check_def split: option.splits)

text \<open>Is the demand paused at this tick?\<close>

definition paused_at :: "u64 \<Rightarrow> string \<Rightarrow> sl1_runtime \<Rightarrow> bool" where
  "paused_at now i r \<longleftrightarrow> (\<exists>until. bt_get (agent_demand_pauses r) i = Some until \<and> now < until)"

lemma fst_pause_check: "fst (pause_check now i r) \<longleftrightarrow> paused_at now i r"
  by (auto simp: pause_check_def paused_at_def split: option.splits)

section \<open>One demand, one tick, as a function of its own state\<close>

definition spawned_rt ::
  "u64 \<Rightarrow> sl1_demand \<Rightarrow> bool \<Rightarrow> u32 \<Rightarrow> sl1_demand_runtime \<Rightarrow> sl1_demand_runtime option" where
  "spawned_rt now def paused want drt =
     (if paused then Some drt
      else do {
        (fires, drt1) \<leftarrow> should_spawn def now drt;
        Some (if fires then snd (spawn_instances want now (demand_deadline_ticks def) drt1)
              else drt1) })"

definition requirements_present :: "sl1_demand \<Rightarrow> sl1_runtime \<Rightarrow> bool" where
  "requirements_present def r \<longleftrightarrow>
     (\<exists>row. bt_get (inventories r) (target_place (demand_target def)) = Some row
        \<and> (\<forall>thing \<in> set (demand_requires def). bt_get_or 0 row thing \<noteq> 0))"

definition settled_rt :: "u64 \<Rightarrow> bool \<Rightarrow> sl1_demand_runtime \<Rightarrow> sl1_demand_runtime" where
  "settled_rt now present drt =
     (let drt2 = snd (drop_expired now drt)
      in rearm_overflow (if present then fulfill_one drt2 else drt2))"

lemma fulfill_one_empty: "pending drt = [] \<Longrightarrow> fulfill_one drt = drt"
  by (simp add: fulfill_one_def)

lemma fold_push_message [simp]:
  "rt (fold (\<lambda>d. push_message (f d)) ds s) = rt s"
  "evs (fold (\<lambda>d. push_message (f d)) ds s) = evs s"
  "msgs (fold (\<lambda>d. push_message (f d)) ds s) = msgs s @ map f ds"
  by (induction ds arbitrary: s) auto

lemma drop_phase_present:
  assumes "bt_get (demand (rt s)) (demand_id def) = Some drt"
  shows "rt (drop_phase now def s)
      = upd_demand (demand_id def) (\<lambda>_. snd (drop_expired now drt)) (rt s)"
    and "msgs (drop_phase now def s)
      = msgs s @ map (dropped_warning now def) (fst (drop_expired now drt))"
    and "evs (drop_phase now def s) = evs s"
  by (simp_all add: drop_phase_def assms split: prod.splits)

lemma spawn_phase_result:
  assumes "spawn_phase now def drt r = Some (outc, r1)"
    and "bt_get (demand r) (demand_id def) = Some drt"
  shows "\<exists>drt1. spawned_rt now def (paused_at now (demand_id def) r)
        (effective_spawn_count (pressure r) (demand_id def)) drt = Some drt1
      \<and> bt_get (demand r1) (demand_id def) = Some drt1"
    and "k \<noteq> demand_id def \<Longrightarrow> bt_get (demand r1) k = bt_get (demand r) k"
    and "bt_has (demand r1) k = bt_has (demand r) k"
    and "demand_frame r r1"
  using assms demand_frame_refl [of r]
  by (auto simp: spawn_phase_def spawned_rt_def fst_pause_check [symmetric] Let_def bt_has_def
      case_prod_unfold split: if_splits Option.bind_splits)

lemma demand_one_at:
  assumes "demand_one now def s = Some s'" and "bt_get (demand (rt s)) (demand_id def) = Some drt"
  obtains drt1 where
    "spawned_rt now def (paused_at now (demand_id def) (rt s))
       (effective_spawn_count (pressure (rt s)) (demand_id def)) drt = Some drt1"
    and "bt_get (demand (rt s')) (demand_id def)
       = Some (settled_rt now (requirements_present def (rt s)) drt1)"
proof -
  from assms obtain outc r1 where sp: "spawn_phase now def drt (rt s) = Some (outc, r1)"
    by (auto simp: demand_one_def split: Option.bind_splits)
  from spawn_phase_result(1) [OF sp assms(2)] obtain drt1 where
    drt1: "spawned_rt now def (paused_at now (demand_id def) (rt s))
        (effective_spawn_count (pressure (rt s)) (demand_id def)) drt = Some drt1"
    and get: "bt_get (demand r1) (demand_id def) = Some drt1" by blast
  have inv: "inventories r1 = inventories (rt s)"
    using spawn_phase_result(4) [OF sp assms(2)] by (simp add: demand_frame_def)
  define s2 where "s2 = (if outc = Some Overflowed
    then push_message (overflow_warning now def) (with_rt (\<lambda>_. r1) s) else with_rt (\<lambda>_. r1) s)"
  have r2: "rt s2 = r1" by (simp add: s2_def)
  note dp = drop_phase_present [of s2 def drt1 now, unfolded r2, OF get]
  have met: "demand_requirements_met def (rt (drop_phase now def s2)) \<longleftrightarrow>
      requirements_present def (rt s) \<and> pending (snd (drop_expired now drt1)) \<noteq> []"
    by (auto simp: demand_requirements_met_def requirements_present_def dp get inv
        split: option.splits)
  have s': "s' = with_rt (upd_demand (demand_id def) rearm_overflow)
      (if demand_requirements_met def (rt (drop_phase now def s2))
       then with_rt (upd_demand (demand_id def) fulfill_one) (drop_phase now def s2)
       else drop_phase now def s2)"
    using assms sp by (auto simp: demand_one_def s2_def Let_def)
  have "bt_get (demand (rt s')) (demand_id def)
      = Some (settled_rt now (requirements_present def (rt s)) drt1)"
    by (auto simp: s' met [unfolded dp(1)] dp(1) get settled_rt_def Let_def fulfill_one_empty)
  with drt1 show ?thesis by (rule that)
qed

lemma demand_one_frame:
  assumes "demand_one now def s = Some s'"
  shows "demand_frame (rt s) (rt s')" and "evs s' = evs s"
    and "\<exists>ms. msgs s' = msgs s @ ms"
    and "k \<noteq> demand_id def \<Longrightarrow> bt_get (demand (rt s')) k = bt_get (demand (rt s)) k"
proof -
  have "demand_frame (rt s) (rt s') \<and> evs s' = evs s \<and> (\<exists>ms. msgs s' = msgs s @ ms)
      \<and> (k \<noteq> demand_id def \<longrightarrow> bt_get (demand (rt s')) k = bt_get (demand (rt s)) k)"
  proof (cases "bt_get (demand (rt s)) (demand_id def)")
    case None
    with assms show ?thesis by (auto simp: demand_one_def demand_frame_refl)
  next
    case (Some drt)
    with assms obtain outc r1 where sp: "spawn_phase now def drt (rt s) = Some (outc, r1)"
      by (auto simp: demand_one_def split: Option.bind_splits)
    have drop: "demand_frame (rt u) (rt (drop_phase now def u)) \<and> evs (drop_phase now def u) = evs u
        \<and> (\<exists>ms. msgs (drop_phase now def u) = msgs u @ ms)
        \<and> (k \<noteq> demand_id def \<longrightarrow> bt_get (demand (rt (drop_phase now def u))) k = bt_get (demand (rt u)) k)"
      for u
      by (auto simp: drop_phase_def demand_frame_refl split: option.splits prod.splits)
    show ?thesis
      using assms Some sp spawn_phase_result(2,4) [OF sp Some]
        drop [of "push_message (overflow_warning now def) (with_rt (\<lambda>_. r1) s)"]
        drop [of "with_rt (\<lambda>_. r1) s"]
      by (auto simp: demand_one_def Let_def intro: demand_frame_trans split: if_splits)
  qed
  then show "demand_frame (rt s) (rt s')" and "evs s' = evs s"
    and "\<exists>ms. msgs s' = msgs s @ ms"
    and "k \<noteq> demand_id def \<Longrightarrow> bt_get (demand (rt s')) k = bt_get (demand (rt s)) k" by auto
qed


section \<open>Schedules\<close>

text \<open>
  The cursor loop fires exactly on the listed ticks, also when the cursor lags behind
  (after a pause it skips what was missed).
\<close>

lemma advance_cursor_fires:
  assumes "sorted_wrt (<) ticks" and "c \<le> length ticks"
    and "\<And>j. j < c \<Longrightarrow> ticks ! j < now"
  shows "fst (advance_cursor ticks now c) \<longleftrightarrow> now \<in> set ticks"
    and "snd (advance_cursor ticks now c) = length (filter (\<lambda>t. t \<le> now) ticks)"
proof -
  have "(fst (advance_cursor ticks now c) \<longleftrightarrow> now \<in> set ticks)
      \<and> snd (advance_cursor ticks now c) = length (filter (\<lambda>t. t \<le> now) ticks)"
    using assms
  proof (induction ticks now c rule: advance_cursor.induct)
    case (1 ticks now c)
    have split: "ticks = take c ticks @ drop c ticks" by simp
    have before: "filter (\<lambda>t. t \<le> now) (take c ticks) = take c ticks"
      using order.strict_implies_order [OF 1(4)]
      by (auto intro!: filter_True simp: in_set_conv_nth)
    have notbefore: "now \<notin> set (take c ticks)"
      using 1(4) by (fastforce simp: in_set_conv_nth)
    show ?case
    proof (cases "c < length ticks")
      case False
      with 1(3) have "c = length ticks" by simp
      with before notbefore show ?thesis by (simp add: advance_cursor.simps)
    next
      case True
      then have drop: "drop c ticks = ticks ! c # drop (Suc c) ticks"
        by (simp add: Cons_nth_drop_Suc)
      from 1(2) have "sorted_wrt (<) (drop c ticks)" by (rule sorted_wrt_drop)
      then have later: "\<forall>t \<in> set (drop (Suc c) ticks). ticks ! c < t"
        unfolding drop by simp
      have len: "length (filter (\<lambda>t. t \<le> now) ticks)
          = c + length (filter (\<lambda>t. t \<le> now) (drop c ticks))"
        using 1(3) by (subst split) (simp only: filter_append before length_append, simp)
      have mem: "now \<in> set ticks \<longleftrightarrow> now \<in> set (drop c ticks)"
        using notbefore by (subst split) (simp only: set_append Un_iff, simp)
      consider "ticks ! c = now" | "ticks ! c < now" | "now < ticks ! c" by force
      then show ?thesis
      proof cases
        case 1
        with later have "filter (\<lambda>t. t \<le> now) (drop (Suc c) ticks) = []"
          by (auto simp: filter_empty_conv)
        with 1 True drop len mem show ?thesis
          by (simp add: advance_cursor.simps)
      next
        case 2
        with True have "advance_cursor ticks now c = advance_cursor ticks now (c + 1)"
          by (subst advance_cursor.simps) (auto simp: Let_def)
        moreover have "(fst (advance_cursor ticks now (c + 1)) \<longleftrightarrow> now \<in> set ticks)
            \<and> snd (advance_cursor ticks now (c + 1)) = length (filter (\<lambda>t. t \<le> now) ticks)"
          using 1(1) [OF True refl] 1(2,3,4) 2 True
          by (metis Suc_eq_plus1 Suc_leI less_Suc_eq less_irrefl)
        ultimately show ?thesis by simp
      next
        case 3
        with later have "filter (\<lambda>t. t \<le> now) (drop c ticks) = []" "now \<notin> set (drop c ticks)"
          unfolding drop by (auto simp: filter_empty_conv dest: less_trans)
        moreover have "advance_cursor ticks now c = (False, c)"
          using 3 True by (subst advance_cursor.simps) (auto simp: Let_def)
        ultimately show ?thesis using len mem by simp
      qed
    qed
  qed
  then show "fst (advance_cursor ticks now c) \<longleftrightarrow> now \<in> set ticks"
    and "snd (advance_cursor ticks now c) = length (filter (\<lambda>t. t \<le> now) ticks)" by auto
qed

text \<open>What a schedule promises.\<close>

fun fires_at :: "sl1_demand_schedule \<Rightarrow> u64 \<Rightarrow> bool" where
  "fires_at (Fixed every start) now \<longleftrightarrow> start \<le> now \<and> (now - start) mod every = 0"
| "fires_at (Scripted ticks) now \<longleftrightarrow> now \<in> set ticks"

text \<open>The cursor of a scripted schedule has passed only ticks before \<open>now\<close>.\<close>

fun cursor_ok :: "sl1_demand_schedule \<Rightarrow> u64 \<Rightarrow> nat \<Rightarrow> bool" where
  "cursor_ok (Fixed _ _) now c \<longleftrightarrow> True"
| "cursor_ok (Scripted ticks) now c \<longleftrightarrow> c \<le> length ticks \<and> (\<forall>j < c. ticks ! j < now)"

fun cursor_past :: "sl1_demand_schedule \<Rightarrow> u64 \<Rightarrow> nat \<Rightarrow> bool" where
  "cursor_past (Fixed _ _) now c \<longleftrightarrow> True"
| "cursor_past (Scripted ticks) now c \<longleftrightarrow> c \<le> length ticks \<and> (\<forall>j < c. ticks ! j \<le> now)"

lemma cursor_past_ok: "cursor_past sched now c \<Longrightarrow> now < now' \<Longrightarrow> cursor_ok sched now' c"
  by (cases sched) (auto dest: le_less_trans)

lemma cursor_ok_past: "cursor_ok sched now c \<Longrightarrow> cursor_past sched now c"
  by (cases sched) (auto dest: order.strict_implies_order)

lemma should_spawn_spec:
  assumes "schedule_ok (demand_spawn_schedule d)"
    and "cursor_ok (demand_spawn_schedule d) now (scripted_cursor drt)"
  obtains drt1 where
    "should_spawn d now drt = Some (now \<noteq> 0 \<and> fires_at (demand_spawn_schedule d) now, drt1)"
    and "pending drt1 = pending drt" and "next_sequence drt1 = next_sequence drt"
    and "fulfilled_count drt1 = fulfilled_count drt" and "dropped_count drt1 = dropped_count drt"
    and "overflow drt1 = overflow drt"
    and "cursor_past (demand_spawn_schedule d) now (scripted_cursor drt1)"
proof (cases "now = 0")
  case True
  have "cursor_past (demand_spawn_schedule d) now (scripted_cursor drt)"
    using assms(2) by (rule cursor_ok_past)
  with True show ?thesis by (intro that [of drt]) (simp_all add: should_spawn_def)
next
  case False
  show ?thesis
  proof (cases "demand_spawn_schedule d")
    case (Fixed every start)
    with assms(1) have "every \<noteq> 0" by auto
    with False Fixed show ?thesis
      by (intro that [of drt]) (auto simp: should_spawn_def checked_rem_def)
  next
    case (Scripted ticks)
    with assms have sorted: "sorted_wrt (<) ticks" and c: "scripted_cursor drt \<le> length ticks"
      "\<And>j. j < scripted_cursor drt \<Longrightarrow> ticks ! j < now" by auto
    note cur = advance_cursor_fires [OF sorted c]
    have "length (filter (\<lambda>t. t \<le> now) ticks) \<le> length ticks" by (rule length_filter_le)
    moreover have "ticks ! j \<le> now" if "j < length (filter (\<lambda>t. t \<le> now) ticks)" for j
    proof -
      have "filter (\<lambda>t. t \<le> now) ticks = takeWhile (\<lambda>t. t \<le> now) ticks"
        using sorted
      proof (induction ticks)
        case (Cons a ticks)
        show ?case
        proof (cases "a \<le> now")
          case False
          with Cons.prems have "filter (\<lambda>t. t \<le> now) ticks = []"
            by (auto simp: filter_empty_conv dest: less_le_trans)
          with False show ?thesis by simp
        qed (use Cons in simp)
      qed simp
      with that show ?thesis
        by (metis nth_mem set_takeWhileD takeWhile_nth)
    qed
    ultimately have "cursor_past (Scripted ticks) now
        (snd (advance_cursor ticks now (scripted_cursor drt)))"
      by (simp add: cur(2))
    with False Scripted cur(1) show ?thesis
      by (intro that [of "drt\<lparr>scripted_cursor := snd (advance_cursor ticks now (scripted_cursor drt))\<rparr>"])
        (simp_all add: should_spawn_def Let_def case_prod_unfold)
  qed
qed


section \<open>The queue invariant\<close>

text \<open>
  \<open>queue_ok d now drt\<close>: the backlog is bounded, every pending instance was spawned in the
  past with the declared deadline, deadlines are in queue order, the sequence numbers are
  consecutive up to \<open>next_sequence\<close>, and every sequence number handed out is accounted for
  as fulfilled, dropped or pending.
\<close>

definition queue_ok :: "sl1_demand \<Rightarrow> u64 \<Rightarrow> sl1_demand_runtime \<Rightarrow> bool" where
  "queue_ok d now drt \<longleftrightarrow>
     length (pending drt) \<le> MAX_DEMAND_OUTSTANDING
     \<and> (\<forall>i \<in> set (pending drt). di_spawned_at i \<le> now
          \<and> di_deadline_tick i = sat_add (di_spawned_at i) (demand_deadline_ticks d))
     \<and> sorted (map di_deadline_tick (pending drt))
     \<and> map (unat \<circ> di_sequence) (pending drt)
         = [unat (next_sequence drt) - length (pending drt) ..< unat (next_sequence drt)]
     \<and> unat (next_sequence drt)
         = unat (fulfilled_count drt) + unat (dropped_count drt) + length (pending drt)"

lemma sat_add_mono: "a \<le> b \<Longrightarrow> sat_add a c \<le> sat_add b (c :: 'a::len word)"
  by (simp add: word_le_nat_alt unat_sat_add min_def)

lemma queue_ok_later: "queue_ok d now drt \<Longrightarrow> now \<le> now' \<Longrightarrow> queue_ok d now' drt"
  unfolding queue_ok_def by (meson order_trans)

lemma queue_ok_cong:
  "pending drt' = pending drt \<Longrightarrow> next_sequence drt' = next_sequence drt \<Longrightarrow>
   fulfilled_count drt' = fulfilled_count drt \<Longrightarrow> dropped_count drt' = dropped_count drt \<Longrightarrow>
   queue_ok d now drt' = queue_ok d now drt"
  by (simp add: queue_ok_def)

lemma queue_ok_enqueue:
  assumes "queue_ok d now drt" and "length (pending drt) < MAX_DEMAND_OUTSTANDING"
    and "unat (next_sequence drt) < 2 ^ 64 - 1"
  shows "queue_ok d now (enqueue now (demand_deadline_ticks d) drt)"
proof -
  let ?n = "unat (next_sequence drt)" and ?p = "pending drt"
  have n: "unat (sat_add (next_sequence drt) 1) = ?n + 1"
    using assms(3) by (simp add: unat_sat_add)
  have le: "di_deadline_tick i \<le> sat_add now (demand_deadline_ticks d)" if "i \<in> set ?p" for i
    using assms(1) that by (auto simp: queue_ok_def intro: sat_add_mono)
  have len: "length ?p \<le> ?n" using assms(1) by (simp add: queue_ok_def)
  then have "[?n - length ?p ..< ?n + 1] = [?n - length ?p ..< ?n] @ [?n]" by simp
  with assms n len le show ?thesis
    by (auto simp: queue_ok_def enqueue_def sorted_append)
qed

lemma spawn_loop_queue:
  assumes "queue_ok d now drt"
    and "unat (next_sequence drt) + (MAX_DEMAND_OUTSTANDING - length (pending drt)) \<le> 2 ^ 64 - 1"
    and "spawn_loop n now (demand_deadline_ticks d) (drt, k, o') = (drt', k', o'')"
  shows "queue_ok d now drt'
    \<and> unat (next_sequence drt') + length (pending drt) = unat (next_sequence drt) + length (pending drt')
    \<and> scripted_cursor drt' = scripted_cursor drt
    \<and> (\<exists>is. pending drt' = pending drt @ is
        \<and> length is = min n (MAX_DEMAND_OUTSTANDING - length (pending drt)))"
  using assms
proof (induction n arbitrary: drt k o')
  case 0
  then show ?case by auto
next
  case (Suc n)
  show ?case
  proof (cases "MAX_DEMAND_OUTSTANDING \<le> length (pending drt)")
    case True
    with Suc.prems show ?thesis
      by (auto simp: queue_ok_def split: if_splits)
  next
    case False
    let ?drt = "enqueue now (demand_deadline_ticks d) drt"
    from False Suc.prems(2) have lt: "length (pending drt) < MAX_DEMAND_OUTSTANDING"
      "unat (next_sequence drt) < 2 ^ 64 - 1" by simp_all
    have n: "unat (next_sequence ?drt) = unat (next_sequence drt) + 1"
      using lt(2) by (simp add: enqueue_def unat_sat_add)
    have len: "length (pending ?drt) = length (pending drt) + 1" by (simp add: enqueue_def)
    have "unat (next_sequence ?drt) + (MAX_DEMAND_OUTSTANDING - length (pending ?drt)) \<le> 2 ^ 64 - 1"
      unfolding n len using Suc.prems(2) lt(1) by linarith
    moreover have "spawn_loop n now (demand_deadline_ticks d) (?drt, sat_add k 1, o') = (drt', k', o'')"
      using Suc.prems(3) False by simp
    ultimately have ih: "queue_ok d now drt'
        \<and> unat (next_sequence drt') + length (pending ?drt)
            = unat (next_sequence ?drt) + length (pending drt')
        \<and> scripted_cursor drt' = scripted_cursor ?drt
        \<and> (\<exists>is. pending drt' = pending ?drt @ is
            \<and> length is = min n (MAX_DEMAND_OUTSTANDING - length (pending ?drt)))"
      by (intro Suc.IH queue_ok_enqueue [OF Suc.prems(1) lt])
    then obtain "is" where new: "pending drt' = pending ?drt @ is"
      "length is = min n (MAX_DEMAND_OUTSTANDING - length (pending ?drt))" by blast
    have "\<exists>is. pending drt' = pending drt @ is
        \<and> length is = min (Suc n) (MAX_DEMAND_OUTSTANDING - length (pending drt))"
      using new lt(1) by (auto simp: enqueue_def)
    with ih n len show ?thesis by (simp add: enqueue_def)
  qed
qed

text \<open>The drop loop splits the queue at its first instance that is not overdue.\<close>

lemma drop_loop_spec:
  "drop_loop now ds cnt = (dropped, rest, cnt') \<Longrightarrow>
   dropped = takeWhile (\<lambda>i. di_deadline_tick i < now) ds
   \<and> rest = dropWhile (\<lambda>i. di_deadline_tick i < now) ds
   \<and> unat cnt' = min (unat cnt + length dropped) (2 ^ 64 - 1)"
proof (induction ds arbitrary: cnt dropped rest cnt')
  case Nil
  then show ?case using unat_max [of cnt] by auto
next
  case (Cons d ds)
  show ?case
  proof (cases "di_deadline_tick d < now")
    case True
    obtain xs ys c where r: "drop_loop now ds (sat_add cnt 1) = (xs, ys, c)"
      by (cases "drop_loop now ds (sat_add cnt 1)") auto
    from Cons.IH [OF this] True Cons.prems r show ?thesis
      by (auto simp: unat_sat_add)
  next
    case False
    with Cons.prems show ?thesis using unat_max [of cnt] by auto
  qed
qed

lemma sorted_dropWhile_none:
  "sorted (map f xs) \<Longrightarrow> x \<in> set (dropWhile (\<lambda>i. f i < (c :: 'b::linorder)) xs) \<Longrightarrow> c \<le> f x"
  by (induction xs) (auto split: if_splits)

lemma drop_expired_queue:
  assumes "queue_ok d now drt"
  shows "queue_ok d now (snd (drop_expired now drt))"
    and "i \<in> set (pending (snd (drop_expired now drt))) \<Longrightarrow> now \<le> di_deadline_tick i"
    and "fst (drop_expired now drt) = takeWhile (\<lambda>i. di_deadline_tick i < now) (pending drt)"
    and "next_sequence (snd (drop_expired now drt)) = next_sequence drt"
    and "scripted_cursor (snd (drop_expired now drt)) = scripted_cursor drt"
    and "pending drt = fst (drop_expired now drt) @ pending (snd (drop_expired now drt))"
    and "fulfilled_count (snd (drop_expired now drt)) = fulfilled_count drt"
    and "unat (dropped_count (snd (drop_expired now drt)))
      = unat (dropped_count drt) + length (fst (drop_expired now drt))"
proof -
  let ?P = "\<lambda>i. di_deadline_tick i < now" and ?p = "pending drt"
  obtain dropped rest cnt where r: "drop_loop now ?p (dropped_count drt) = (dropped, rest, cnt)"
    by (cases "drop_loop now ?p (dropped_count drt)") auto
  note sp = drop_loop_spec [OF this]
  have dr: "drop_expired now drt = (dropped, drt\<lparr>pending := rest, dropped_count := cnt\<rparr>)"
    by (simp add: drop_expired_def r)
  have app: "?p = dropped @ rest" using sp by simp
  then have len: "length ?p = length dropped + length rest"
    by (simp only: length_append)
  have sum: "unat (next_sequence drt)
      = unat (fulfilled_count drt) + unat (dropped_count drt) + length ?p"
    using assms by (simp add: queue_ok_def)
  have mx: "unat (next_sequence drt) \<le> 2 ^ 64 - 1"
    using unat_max [of "next_sequence drt"] by simp
  with sum have cnt: "unat cnt = unat (dropped_count drt) + length dropped"
    using conjunct2 [OF conjunct2 [OF sp]] len mx by linarith
  have "map (unat \<circ> di_sequence) ?p = [unat (next_sequence drt) - length ?p ..< unat (next_sequence drt)]"
    using assms by (simp add: queue_ok_def)
  then have "drop (length dropped) (map (unat \<circ> di_sequence) ?p)
      = [unat (next_sequence drt) - length ?p + length dropped ..< unat (next_sequence drt)]"
    by (simp only: drop_upt)
  moreover have "drop (length dropped) (map (unat \<circ> di_sequence) ?p) = map (unat \<circ> di_sequence) rest"
    unfolding app by simp
  moreover have "unat (next_sequence drt) - length ?p + length dropped
      = unat (next_sequence drt) - length rest"
    using sum len by linarith
  ultimately have seqs: "map (unat \<circ> di_sequence) rest
      = [unat (next_sequence drt) - length rest ..< unat (next_sequence drt)]" by simp
  show "queue_ok d now (snd (drop_expired now drt))"
    using assms cnt seqs sum len unfolding queue_ok_def dr app by (simp add: sorted_append)
  show "i \<in> set (pending (snd (drop_expired now drt))) \<Longrightarrow> now \<le> di_deadline_tick i"
    using assms sp sorted_dropWhile_none [of di_deadline_tick ?p i now] by (auto simp: dr queue_ok_def)
  show "fst (drop_expired now drt) = takeWhile ?P ?p" using sp by (simp add: dr)
  show "pending drt = fst (drop_expired now drt) @ pending (snd (drop_expired now drt))"
    using app by (simp add: dr)
  show "unat (dropped_count (snd (drop_expired now drt)))
      = unat (dropped_count drt) + length (fst (drop_expired now drt))"
    using cnt by (simp add: dr)
qed (simp_all add: drop_expired_def split: prod.splits)

lemma fulfill_one_queue:
  assumes "queue_ok d now drt"
  shows "queue_ok d now (fulfill_one drt)"
    and "set (pending (fulfill_one drt)) \<subseteq> set (pending drt)"
    and "next_sequence (fulfill_one drt) = next_sequence drt"
    and "scripted_cursor (fulfill_one drt) = scripted_cursor drt"
    and "dropped_count (fulfill_one drt) = dropped_count drt"
    and "pending (fulfill_one drt) = tl (pending drt)"
    and "unat (fulfilled_count (fulfill_one drt))
      = unat (fulfilled_count drt) + (if pending drt = [] then 0 else 1)"
proof -
  have "queue_ok d now (fulfill_one drt) \<and> unat (fulfilled_count (fulfill_one drt))
      = unat (fulfilled_count drt) + (if pending drt = [] then 0 else 1)"
  proof (cases "pending drt")
    case Nil
    with assms show ?thesis by (simp add: fulfill_one_def)
  next
    case (Cons i rest)
    let ?n = "unat (next_sequence drt)"
    have sum: "?n = unat (fulfilled_count drt) + unat (dropped_count drt) + length (pending drt)"
      using assms by (simp add: queue_ok_def)
    then have f: "unat (sat_add (fulfilled_count drt) 1) = unat (fulfilled_count drt) + 1"
      using Cons unat_max [of "next_sequence drt"] by (simp add: unat_sat_add)
    have "map (unat \<circ> di_sequence) (pending drt) = [?n - length (pending drt) ..< ?n]"
      using assms by (simp add: queue_ok_def)
    then have "drop 1 (map (unat \<circ> di_sequence) (pending drt))
        = [?n - length (pending drt) + 1 ..< ?n]" by (simp only: drop_upt)
    moreover have "?n - length (pending drt) + 1 = ?n - length rest" using Cons sum by simp
    ultimately have "map (unat \<circ> di_sequence) rest = [?n - length rest ..< ?n]"
      using Cons by simp
    with assms Cons f sum show ?thesis
      by (auto simp: queue_ok_def fulfill_one_def)
  qed
  then show "queue_ok d now (fulfill_one drt)"
    and "unat (fulfilled_count (fulfill_one drt))
      = unat (fulfilled_count drt) + (if pending drt = [] then 0 else 1)" by auto
qed (auto simp: fulfill_one_def split: list.splits)

lemma rearm_simps [simp]:
  "pending (rearm_overflow drt) = pending drt"
  "next_sequence (rearm_overflow drt) = next_sequence drt"
  "fulfilled_count (rearm_overflow drt) = fulfilled_count drt"
  "dropped_count (rearm_overflow drt) = dropped_count drt"
  "scripted_cursor (rearm_overflow drt) = scripted_cursor drt"
  "overflow (rearm_overflow drt) \<longleftrightarrow> overflow drt \<and> MAX_DEMAND_OUTSTANDING \<le> length (pending drt)"
  by (auto simp: rearm_overflow_def)


section \<open>The invariant of one demand\<close>

text \<open>
  After the tick \<open>now\<close>: the queue invariant holds, nothing pending is past its deadline,
  the overflow flag is set only while the backlog is full, and at most a backlog's worth of
  sequence numbers was handed out per tick.
\<close>

definition demand_inv :: "sl1_demand \<Rightarrow> u64 \<Rightarrow> sl1_demand_runtime \<Rightarrow> bool" where
  "demand_inv d now drt \<longleftrightarrow>
     queue_ok d now drt
     \<and> unat (next_sequence drt) \<le> MAX_DEMAND_OUTSTANDING * unat now
     \<and> cursor_past (demand_spawn_schedule d) now (scripted_cursor drt)
     \<and> (\<forall>i \<in> set (pending drt). now \<le> di_deadline_tick i)
     \<and> (overflow drt \<longrightarrow> length (pending drt) = MAX_DEMAND_OUTSTANDING)"

lemma demand_inv_initial: "demand_inv d 0 demand_runtime_default"
  by (cases "demand_spawn_schedule d")
    (simp_all add: demand_inv_def queue_ok_def demand_runtime_default_def)

definition spawn_count :: "u64 \<Rightarrow> sl1_demand \<Rightarrow> bool \<Rightarrow> u32 \<Rightarrow> sl1_demand_runtime \<Rightarrow> nat" where
  "spawn_count now d paused want drt =
     (if \<not> paused \<and> now \<noteq> 0 \<and> fires_at (demand_spawn_schedule d) now
      then min (unat want) (MAX_DEMAND_OUTSTANDING - length (pending drt)) else 0)"

lemma spawned_rt_spec:
  assumes "demand_ok d" and "queue_ok d now0 drt" and "now0 < now"
    and "unat (next_sequence drt) \<le> MAX_DEMAND_OUTSTANDING * unat now0"
    and "cursor_past (demand_spawn_schedule d) now0 (scripted_cursor drt)"
    and "MAX_DEMAND_OUTSTANDING * unat now < 2 ^ 64"
  obtains drt1 where "spawned_rt now d paused want drt = Some drt1"
    and "queue_ok d now drt1"
    and "unat (next_sequence drt1) = unat (next_sequence drt) + spawn_count now d paused want drt"
    and "unat (next_sequence drt1) \<le> MAX_DEMAND_OUTSTANDING * unat now"
    and "length (pending drt1) = length (pending drt) + spawn_count now d paused want drt"
    and "cursor_past (demand_spawn_schedule d) now (scripted_cursor drt1)"
proof (cases paused)
  case True
  have "cursor_past (demand_spawn_schedule d) now (scripted_cursor drt)"
    using cursor_past_ok [OF assms(5,3)] by (rule cursor_ok_past)
  moreover have "unat (next_sequence drt) \<le> MAX_DEMAND_OUTSTANDING * unat now"
  proof -
    have "unat now0 \<le> unat now" using assms(3) by (simp add: word_less_nat_alt)
    then have "MAX_DEMAND_OUTSTANDING * unat now0 \<le> MAX_DEMAND_OUTSTANDING * unat now"
      by (rule mult_le_mono2)
    with assms(4) show ?thesis by (rule order_trans)
  qed
  ultimately show ?thesis
    using True assms queue_ok_later [OF assms(2)]
    by (intro that [of drt]) (auto simp: spawned_rt_def spawn_count_def)
next
  case False
  have sched: "schedule_ok (demand_spawn_schedule d)" using assms(1) by (simp add: demand_ok_def)
  obtain drt1 where drt1:
    "should_spawn d now drt = Some (now \<noteq> 0 \<and> fires_at (demand_spawn_schedule d) now, drt1)"
    "pending drt1 = pending drt" "next_sequence drt1 = next_sequence drt"
    "fulfilled_count drt1 = fulfilled_count drt" "dropped_count drt1 = dropped_count drt"
    "cursor_past (demand_spawn_schedule d) now (scripted_cursor drt1)"
    by (rule should_spawn_spec [OF sched cursor_past_ok [OF assms(5,3)]])
  have q1: "queue_ok d now drt1"
    using queue_ok_later [OF assms(2), of now] assms(3) queue_ok_cong [OF drt1(2-5)] by simp
  have "unat now0 + 1 \<le> unat now" using assms(3) by (simp add: word_less_nat_alt)
  then have "MAX_DEMAND_OUTSTANDING * unat now0 + MAX_DEMAND_OUTSTANDING
      \<le> MAX_DEMAND_OUTSTANDING * unat now"
    by (metis add.commute mult_Suc_right mult_le_mono2 Suc_eq_plus1)
  then have room: "unat (next_sequence drt) + MAX_DEMAND_OUTSTANDING
      \<le> MAX_DEMAND_OUTSTANDING * unat now"
    using assms(4) by linarith
  show ?thesis
  proof (cases "now \<noteq> 0 \<and> fires_at (demand_spawn_schedule d) now")
    case False
    with \<open>\<not> paused\<close> drt1 q1 room show ?thesis
      by (intro that [of drt1]) (auto simp: spawned_rt_def spawn_count_def)
  next
    case True
    obtain drt2 k ov where l: "spawn_loop (unat want) now (demand_deadline_ticks d) (drt1, 0, False)
        = (drt2, k, ov)"
      by (cases "spawn_loop (unat want) now (demand_deadline_ticks d) (drt1, 0, False)") auto
    have fits: "unat (next_sequence drt1) + (MAX_DEMAND_OUTSTANDING - length (pending drt1)) \<le> 2 ^ 64 - 1"
      unfolding drt1(3) using room assms(6) by linarith
    note sp = spawn_loop_queue [OF q1 fits l]
    from sp obtain new where new: "pending drt2 = pending drt @ new"
      "length new = min (unat want) (MAX_DEMAND_OUTSTANDING - length (pending drt))"
      using drt1(2) by auto
    have "length new = spawn_count now d paused want drt"
      using new True \<open>\<not> paused\<close> by (simp add: spawn_count_def)
    moreover have "unat (next_sequence drt2) = unat (next_sequence drt) + length new"
      using sp new(1) drt1(2,3) by auto
    ultimately show ?thesis
      using l sp True \<open>\<not> paused\<close> drt1 new room
      by (intro that [of drt2]) (auto simp: spawned_rt_def spawn_instances_def)
  qed
qed

lemma settled_rt_spec:
  assumes "queue_ok d now drt1"
  shows "queue_ok d now (settled_rt now present drt1)"
    and "next_sequence (settled_rt now present drt1) = next_sequence drt1"
    and "scripted_cursor (settled_rt now present drt1) = scripted_cursor drt1"
    and "i \<in> set (pending (settled_rt now present drt1)) \<Longrightarrow> now \<le> di_deadline_tick i"
    and "overflow (settled_rt now present drt1) \<Longrightarrow>
      length (pending (settled_rt now present drt1)) = MAX_DEMAND_OUTSTANDING"
proof -
  let ?d = "snd (drop_expired now drt1)"
  note dr = drop_expired_queue [OF assms]
  note fu = fulfill_one_queue [OF dr(1)]
  have eq: "settled_rt now present drt1 = rearm_overflow (if present then fulfill_one ?d else ?d)"
    by (simp add: settled_rt_def Let_def)
  show q: "queue_ok d now (settled_rt now present drt1)"
    unfolding eq using dr(1) fu(1) by (subst queue_ok_cong [OF rearm_simps(1-4)]) simp
  show "next_sequence (settled_rt now present drt1) = next_sequence drt1"
    "scripted_cursor (settled_rt now present drt1) = scripted_cursor drt1"
    unfolding eq using dr(4,5) fu(3,4) by simp_all
  show "i \<in> set (pending (settled_rt now present drt1)) \<Longrightarrow> now \<le> di_deadline_tick i"
    unfolding eq using dr(2) fu(2) by (auto split: if_splits)
  show "overflow (settled_rt now present drt1) \<Longrightarrow>
      length (pending (settled_rt now present drt1)) = MAX_DEMAND_OUTSTANDING"
    using q unfolding eq rearm_simps by (simp add: queue_ok_def)
qed

lemma demand_inv_step:
  assumes "demand_ok d" and "demand_inv d now0 drt" and "now0 < now"
    and "MAX_DEMAND_OUTSTANDING * unat now < 2 ^ 64"
  obtains drt1 where "spawned_rt now d paused want drt = Some drt1"
    and "demand_inv d now (settled_rt now present drt1)"
proof -
  from assms(2) have pre: "queue_ok d now0 drt"
    "unat (next_sequence drt) \<le> MAX_DEMAND_OUTSTANDING * unat now0"
    "cursor_past (demand_spawn_schedule d) now0 (scripted_cursor drt)"
    by (auto simp: demand_inv_def)
  obtain drt1 where drt1: "spawned_rt now d paused want drt = Some drt1" "queue_ok d now drt1"
    "unat (next_sequence drt1) \<le> MAX_DEMAND_OUTSTANDING * unat now"
    "cursor_past (demand_spawn_schedule d) now (scripted_cursor drt1)"
    by (rule spawned_rt_spec [OF assms(1) pre(1) assms(3) pre(2,3) assms(4),
        where paused = paused and want = want])
  note se = settled_rt_spec [OF drt1(2), where present = present]
  have "demand_inv d now (settled_rt now present drt1)"
    unfolding demand_inv_def using se drt1 by auto
  with drt1(1) show ?thesis by (rule that)
qed

section \<open>All demands\<close>

definition demands_inv :: "sl1_scene \<Rightarrow> u64 \<Rightarrow> sl1_runtime \<Rightarrow> bool" where
  "demands_inv sc now r \<longleftrightarrow> (\<forall>d \<in> set (sc_demand sc). \<forall>drt.
     bt_get (demand r) (demand_id d) = Some drt \<longrightarrow> demand_inv d now drt)"

lemma demands_inv_from_scene:
  "distinct (map demand_id (sc_demand sc)) \<Longrightarrow> demands_inv sc 0 (from_scene sc)"
  by (auto simp: demands_inv_def from_scene_def demand_inv_initial dest!: bt_get_collect_SomeD)

lemma demand_one_None:
  "bt_get (demand (rt s)) (demand_id d) = None \<Longrightarrow> demand_one now d s = Some s"
  by (simp add: demand_one_def)

lemma demand_one_total:
  assumes "bt_get (demand (rt s)) (demand_id d) = Some drt"
    and "spawned_rt now d (paused_at now (demand_id d) (rt s))
        (effective_spawn_count (pressure (rt s)) (demand_id d)) drt = Some drt1"
  shows "\<exists>s'. demand_one now d s = Some s'"
proof -
  have "\<exists>outc r1. spawn_phase now d drt (rt s) = Some (outc, r1)"
    using assms(2)
    by (auto simp: spawn_phase_def spawned_rt_def fst_pause_check [symmetric] Let_def
        case_prod_unfold split: if_splits Option.bind_splits)
  with assms(1) show ?thesis by (auto simp: demand_one_def Let_def)
qed

lemma demand_one_step:
  assumes "demand_ok d" and "now0 < now" and "MAX_DEMAND_OUTSTANDING * unat now < 2 ^ 64"
    and "\<And>drt. bt_get (demand (rt s)) (demand_id d) = Some drt \<Longrightarrow> demand_inv d now0 drt"
  shows "\<exists>s'. demand_one now d s = Some s' \<and>
    (\<forall>drt. bt_get (demand (rt s')) (demand_id d) = Some drt \<longrightarrow> demand_inv d now drt)"
proof (cases "bt_get (demand (rt s)) (demand_id d)")
  case None
  then show ?thesis by (simp add: demand_one_None)
next
  case (Some drt)
  let ?sp = "spawned_rt now d (paused_at now (demand_id d) (rt s))
    (effective_spawn_count (pressure (rt s)) (demand_id d)) drt"
  obtain drt1 where drt1: "?sp = Some drt1"
    "demand_inv d now (settled_rt now (requirements_present d (rt s)) drt1)"
    by (rule demand_inv_step [OF assms(1) assms(4) [OF Some] assms(2,3)])
  obtain s' where s': "demand_one now d s = Some s'"
    using demand_one_total [OF Some drt1(1)] by blast
  obtain drt1' where "?sp = Some drt1'" "bt_get (demand (rt s')) (demand_id d)
      = Some (settled_rt now (requirements_present d (rt s)) drt1')"
    by (rule demand_one_at [OF s' Some])
  with drt1 s' show ?thesis by auto
qed


text \<open>
  The whole phase returns (no remainder by zero) and leaves every demand's state in its
  invariant for this tick.
\<close>

lemma run_demand_total:
  assumes "scene_ok sc" and "demands_inv sc now0 (rt s)" and "now0 < now"
    and "MAX_DEMAND_OUTSTANDING * unat now < 2 ^ 64"
  shows "\<exists>s'. run_demand sc now s = Some s' \<and> demands_inv sc now (rt s')"
proof -
  let ?get = "\<lambda>s d. bt_get (demand (rt s)) (demand_id d)"
  have main: "\<exists>s'. fold_opt (demand_one now) ds s = Some s'
      \<and> (\<forall>d \<in> set ds. \<forall>drt. ?get s' d = Some drt \<longrightarrow> demand_inv d now drt)"
    if "distinct (map demand_id ds)" and "set ds \<subseteq> set (sc_demand sc)"
      and "\<And>d drt. d \<in> set ds \<Longrightarrow> ?get s d = Some drt \<Longrightarrow> demand_inv d now0 drt" for ds s
    using that
  proof (induction ds arbitrary: s)
    case (Cons d ds)
    from Cons.prems(2) scene_okD(7) [OF assms(1)] have "demand_ok d" by auto
    then obtain s1 where s1: "demand_one now d s = Some s1"
      and inv1: "\<And>drt. ?get s1 d = Some drt \<Longrightarrow> demand_inv d now drt"
      using demand_one_step [OF _ assms(3,4), of d s] Cons.prems(3) by auto
    have other: "?get s1 e = ?get s e" if "demand_id e \<noteq> demand_id d" for e
      using demand_one_frame(4) [OF s1 that] .
    have ne: "demand_id e \<noteq> demand_id d" if "e \<in> set ds" for e
      using Cons.prems(1) that by (auto simp: image_iff)
    have "\<exists>s'. fold_opt (demand_one now) ds s1 = Some s'
        \<and> (\<forall>d \<in> set ds. \<forall>drt. ?get s' d = Some drt \<longrightarrow> demand_inv d now drt)"
    proof (rule Cons.IH)
      fix e drt
      assume "e \<in> set ds" and "?get s1 e = Some drt"
      with Cons.prems(3) [of e drt] other [OF ne] show "demand_inv e now0 drt" by simp
    qed (use Cons.prems in auto)
    then obtain s' where s': "fold_opt (demand_one now) ds s1 = Some s'"
      "\<forall>d \<in> set ds. \<forall>drt. ?get s' d = Some drt \<longrightarrow> demand_inv d now drt" by blast
    have "?get s' d = ?get s1 d"
      using s'(1)
      by (rule fold_opt_inv [where P = "\<lambda>u. ?get u d = ?get s1 d"])
        (use demand_one_frame(4) ne in metis)+
    with s' s1 inv1 show ?case by auto
  qed simp
  have "\<exists>s'. fold_opt (demand_one now) (sc_demand sc) s = Some s'
      \<and> (\<forall>d \<in> set (sc_demand sc). \<forall>drt. ?get s' d = Some drt \<longrightarrow> demand_inv d now drt)"
    using assms(2) by (intro main scene_okD(6) [OF assms(1)]) (auto simp: demands_inv_def)
  then show ?thesis by (auto simp: run_demand_def demands_inv_def)
qed

lemma run_demand_effects:
  assumes "run_demand sc now s = Some s'"
  shows "demand_frame (rt s) (rt s')" and "evs s' = evs s" and "grows s s'"
proof -
  have "demand_frame (rt s) (rt s') \<and> evs s' = evs s \<and> grows s s'"
    using assms unfolding run_demand_def
    by (rule fold_opt_rel [where R = "\<lambda>s s'. demand_frame (rt s) (rt s') \<and> evs s' = evs s \<and> grows s s'"])
      (auto simp: demand_frame_refl grows_refl grows_def demand_one_frame(1,2)
        dest: demand_frame_trans demand_one_frame(3))
  then show "demand_frame (rt s) (rt s')" and "evs s' = evs s" and "grows s s'" by auto
qed

lemma run_demand_frame [frame_simps]:
  assumes "run_demand sc now s = Some s'"
  shows "inventories (rt s') = inventories (rt s)" "freshness (rt s') = freshness (rt s)"
    "transforms (rt s') = transforms (rt s)"
    "place_capacity_used (rt s') = place_capacity_used (rt s)"
    "pending_outputs (rt s') = pending_outputs (rt s)" "pressure (rt s') = pressure (rt s)"
    "objectives (rt s') = objectives (rt s)"
    "failure_conditions (rt s') = failure_conditions (rt s)"
    "victory_conditions (rt s') = victory_conditions (rt s)" "outcome (rt s') = outcome (rt s)"
    "phase (rt s') = phase (rt s)" "metric_states (rt s') = metric_states (rt s)"
    "dashboard_states (rt s') = dashboard_states (rt s)"
    "alert_states (rt s') = alert_states (rt s)" "agents (rt s') = agents (rt s)"
    "milestones (rt s') = milestones (rt s)"
  using run_demand_effects(1) [OF assms] by (simp_all add: demand_frame_def)


section \<open>The system contract\<close>

lemma run_demand_shape:
  "run_demand sc now s = Some s' \<Longrightarrow> rt_shape sc (rt s) \<Longrightarrow> rt_shape sc (rt s')"
  by (erule rt_shape_mono) (simp_all add: run_demand_frame)

text \<open>What demand needs: its invariant at some earlier tick, and tick numbers that fit.\<close>

definition demand_pre :: "sl1_scene \<Rightarrow> u64 \<Rightarrow> sl1_runtime \<Rightarrow> bool" where
  "demand_pre sc now r \<longleftrightarrow> MAX_DEMAND_OUTSTANDING * unat now < 2 ^ 64
     \<and> (\<exists>now0 < now. demands_inv sc now0 r)"

interpretation demand: sl1_system run_demand demand_pre
  by unfold_locales
    (auto simp: demand_pre_def run_demand_shape run_demand_effects(3) dest: run_demand_total)

end
