(* ===== verification/Objectives.thy ===== *)
theory Objectives
  imports Pressure
begin

text \<open>
  \<open>crates/engine/src/sl1_objectives.rs\<close>: objectives, failure conditions, victory
  conditions, the game outcome and the phase. An \<open>expect\<close> on a runtime entry is \<open>None\<close>,
  and \<open>rt_shape\<close> rules it out. The lemmas state which outcome a tick yields, that
  terminal outcomes are kept, and when a failure condition fires.
\<close>

section \<open>Evaluating one condition\<close>

definition evaluate_keep_fresh ::
  "sl1_runtime \<Rightarrow> string \<Rightarrow> string \<Rightarrow> u64 \<Rightarrow> u64 \<Rightarrow> sl1_objective_status" where
  "evaluate_keep_fresh r place thing max_stale now =
     (case bt_get_or FNoData (freshness r) (place, thing) of
        FOk t \<Rightarrow> if sat_sub now t \<le> max_stale then StMet else StBreached
      | FStale t \<Rightarrow> if sat_sub now t \<le> max_stale then StMet else StBreached
      | _ \<Rightarrow> StBreached)"

definition evaluate_complete_jobs ::
  "sl1_runtime \<Rightarrow> string \<Rightarrow> u64 \<Rightarrow> sl1_objective_status" where
  "evaluate_complete_jobs r dem max_missed =
     (let dropped = (case bt_get (demand r) dem of None \<Rightarrow> 0 | Some d \<Rightarrow> dropped_count d)
      in if dropped \<le> max_missed then StMet else StBreached)"

definition used_percent :: "u64 \<Rightarrow> u64 \<Rightarrow> u8" where
  "used_percent used cap =
     ucast ((ucast (min used cap) * 100 :: u128) div (ucast cap :: u128))"

definition find_place :: "sl1_scene \<Rightarrow> string \<Rightarrow> sl1_place option" where
  "find_place sc i = find (\<lambda>p. place_id p = i) (sc_places sc)"

definition evaluate_utilization ::
  "sl1_scene \<Rightarrow> sl1_runtime \<Rightarrow> string \<Rightarrow> string \<Rightarrow> u8 \<Rightarrow> u8 \<Rightarrow> sl1_objective_status" where
  "evaluate_utilization sc r place bucket lo hi =
     (let cap = (case find_place sc place of
                   None \<Rightarrow> 0 | Some p \<Rightarrow> bt_get_or 0 (place_capacity p) bucket)
      in if cap = 0 then (if lo = 0 then StMet else StBreached)
         else let pct = used_percent (bt_get2 (place_capacity_used r) place bucket) cap
              in if lo \<le> pct \<and> pct \<le> hi then StMet else StBreached)"

definition stale_target_breached ::
  "sl1_runtime \<Rightarrow> string \<Rightarrow> string \<Rightarrow> u64 \<Rightarrow> u64 \<Rightarrow> bool" where
  "stale_target_breached r place thing threshold now =
     (case bt_get_or FNoData (freshness r) (place, thing) of
        FOk t \<Rightarrow> threshold < sat_sub now t
      | FStale t \<Rightarrow> threshold < sat_sub now t
      | _ \<Rightarrow> True)"

definition place_state_breached ::
  "sl1_scene \<Rightarrow> sl1_runtime \<Rightarrow> string \<Rightarrow> string \<Rightarrow> bool" where
  "place_state_breached sc r place state =
     (case find_place sc place of
        None \<Rightarrow> False
      | Some p \<Rightarrow>
          (case bt_get (place_operating_states p) state of
             None \<Rightarrow> False
           | Some op \<Rightarrow>
               (case os_predicate op of
                  UsedPercentGte metric threshold \<Rightarrow>
                    let cap = bt_get_or 0 (place_capacity p) metric;
                        pct = (if cap = 0 then 0
                               else used_percent (bt_get2 (place_capacity_used r) place metric) cap)
                    in threshold \<le> pct
                | OverloadedTicksGt _ \<Rightarrow> False)))"

section \<open>Objectives\<close>

fun status_tag :: "sl1_objective_status \<Rightarrow> sl1_objective_status_tag" where
  "status_tag StUnknown = TagUnknown"
| "status_tag StMet = TagMet"
| "status_tag StBreached = TagBreached"
| "status_tag StUnsupported = TagUnsupported"

definition objective_status ::
  "sl1_scene \<Rightarrow> sl1_runtime \<Rightarrow> u64 \<Rightarrow> sl1_objective \<Rightarrow> sl1_objective_status" where
  "objective_status sc r now ob =
     (case objective_params ob of
        KeepFresh place thing max_stale \<Rightarrow> evaluate_keep_fresh r place thing max_stale now
      | CompleteJobsBeforeDeadline dem max_missed \<Rightarrow> evaluate_complete_jobs r dem max_missed
      | MaintainUtilization place bucket lo hi \<Rightarrow> evaluate_utilization sc r place bucket lo hi
      | ObjectiveUnsupported \<Rightarrow> StUnsupported)"

definition set_status ::
  "sl1_objective_status \<Rightarrow> u64 \<Rightarrow> sl1_objective_runtime \<Rightarrow> sl1_objective_runtime" where
  "set_status st now o' =
     (let o1 = (if ob_status o' \<noteq> st then o'\<lparr>ob_status := st, ob_last_change_tick := now\<rparr> else o')
      in if ob_status o1 = StBreached
         then o1\<lparr>ob_breach_tick_count := sat_add (ob_breach_tick_count o1) 1\<rparr> else o1)"

definition warn_unsupported :: "u64 \<Rightarrow> sl1_objective \<Rightarrow> sl1_st \<Rightarrow> sl1_st" where
  "warn_unsupported now ob s =
     (if objective_id ob \<in> unsupported_objectives_warned (rt s) then s
      else push_message
        (Warning (Sl1ObjectiveWarning (objective_id ob) WarnObjectiveUnsupported
           (objective_kind_str (objective_kind ob)) now))
        (with_rt (\<lambda>r. r\<lparr>unsupported_objectives_warned :=
           insert (objective_id ob) (unsupported_objectives_warned r)\<rparr>) s))"

definition evaluate_objective :: "sl1_scene \<Rightarrow> u64 \<Rightarrow> sl1_objective \<Rightarrow> sl1_st \<Rightarrow> sl1_st option" where
  "evaluate_objective sc now ob s =
     (let status = objective_status sc (rt s) now ob
      in case bt_get (objectives (rt s)) (objective_id ob) of
           None \<Rightarrow> None
         | Some o' \<Rightarrow>
             let s1 = (if objective_params ob = ObjectiveUnsupported
                       then warn_unsupported now ob s else s);
                 s2 = (if ob_status o' \<noteq> status
                       then push_event (Sl1ObjectiveStateChanged (objective_id ob)
                              (status_tag (ob_status o')) (status_tag status) now) s1
                       else s1)
             in Some (with_rt (\<lambda>r. r\<lparr>objectives :=
                  bt_insert (objective_id ob) (set_status status now o') (objectives r)\<rparr>) s2))"

definition evaluate_objectives :: "sl1_scene \<Rightarrow> u64 \<Rightarrow> sl1_st \<Rightarrow> sl1_st option" where
  "evaluate_objectives sc now s = fold_opt (evaluate_objective sc now) (sc_objectives sc) s"

section \<open>Failure conditions\<close>

fun fc_grace :: "sl1_failure_condition_params \<Rightarrow> u64" where
  "fc_grace (StaleTarget _ _ _ grace) = grace"
| "fc_grace (PlaceState _ _ grace) = grace"
| "fc_grace (ObjectiveBreachCount _ _) = 0"

definition fc_breached ::
  "sl1_scene \<Rightarrow> sl1_runtime \<Rightarrow> u64 \<Rightarrow> sl1_failure_condition \<Rightarrow> bool" where
  "fc_breached sc r now fc =
     (case fc_params fc of
        StaleTarget place thing threshold _ \<Rightarrow> stale_target_breached r place thing threshold now
      | PlaceState place state _ \<Rightarrow> place_state_breached sc r place state
      | ObjectiveBreachCount ob max_count \<Rightarrow>
          (case bt_get (objectives r) ob of
             None \<Rightarrow> False | Some o' \<Rightarrow> max_count < ob_breach_tick_count o'))"

text \<open>The streak counter and the one-shot latch; the flag is \<open>fired on this tick\<close>.\<close>

definition fc_update ::
  "u64 \<Rightarrow> u64 \<Rightarrow> bool \<Rightarrow> sl1_failure_condition_runtime \<Rightarrow> sl1_failure_condition_runtime \<times> bool" where
  "fc_update grace now breached f =
     (let f1 = f\<lparr>breach_streak_ticks :=
                   (if breached then sat_add (breach_streak_ticks f) 1 else 0)\<rparr>
      in if fc_fired_at_tick f1 = None \<and> grace < breach_streak_ticks f1
         then (f1\<lparr>fc_fired_at_tick := Some now\<rparr>, True) else (f1, False))"

definition evaluate_failure_condition ::
  "sl1_scene \<Rightarrow> u64 \<Rightarrow> sl1_failure_condition \<Rightarrow> sl1_st \<Rightarrow> sl1_st option" where
  "evaluate_failure_condition sc now fc s =
     (let breached = fc_breached sc (rt s) now fc
      in case bt_get (failure_conditions (rt s)) (fc_id fc) of
           None \<Rightarrow> None
         | Some f \<Rightarrow>
             let (f', fired) = fc_update (fc_grace (fc_params fc)) now breached f;
                 s1 = with_rt (\<lambda>r. r\<lparr>failure_conditions :=
                        bt_insert (fc_id fc) f' (failure_conditions r)\<rparr>) s
             in Some (if fired then push_event (Sl1FailureConditionFired (fc_id fc) now) s1
                      else s1))"

definition evaluate_failure_conditions :: "sl1_scene \<Rightarrow> u64 \<Rightarrow> sl1_st \<Rightarrow> sl1_st option" where
  "evaluate_failure_conditions sc now s =
     fold_opt (evaluate_failure_condition sc now) (sc_failure_conditions sc) s"

section \<open>Victory conditions\<close>

definition vc_met :: "u64 \<Rightarrow> sl1_victory_condition \<Rightarrow> bool" where
  "vc_met now vc = (case vc_params vc of SurviveUntil at_tick \<Rightarrow> at_tick \<le> now)"

definition evaluate_victory_condition ::
  "u64 \<Rightarrow> sl1_victory_condition \<Rightarrow> sl1_st \<Rightarrow> sl1_st option" where
  "evaluate_victory_condition now vc s =
     (case bt_get (victory_conditions (rt s)) (vc_id vc) of
        None \<Rightarrow> None
      | Some v \<Rightarrow>
          if vc_met now vc \<and> met_at_tick v = None then
            Some (push_event (Sl1VictoryConditionMet (vc_id vc) now)
              (with_rt (\<lambda>r. r\<lparr>victory_conditions :=
                 bt_insert (vc_id vc) (v\<lparr>met_at_tick := Some now\<rparr>) (victory_conditions r)\<rparr>) s))
          else Some s)"

definition evaluate_victory_conditions :: "sl1_scene \<Rightarrow> u64 \<Rightarrow> sl1_st \<Rightarrow> sl1_st option" where
  "evaluate_victory_conditions sc now s =
     fold_opt (evaluate_victory_condition now) (sc_victory_conditions sc) s"

section \<open>Outcome and phase\<close>

definition fc_has_fired :: "sl1_runtime \<Rightarrow> sl1_failure_condition \<Rightarrow> bool" where
  "fc_has_fired r fc = (case bt_get (failure_conditions r) (fc_id fc) of
     None \<Rightarrow> False | Some f \<Rightarrow> fc_fired_at_tick f \<noteq> None)"

definition vc_is_met :: "sl1_runtime \<Rightarrow> sl1_victory_condition \<Rightarrow> bool" where
  "vc_is_met r vc = (case bt_get (victory_conditions r) (vc_id vc) of
     None \<Rightarrow> False | Some v \<Rightarrow> met_at_tick v \<noteq> None)"

definition new_outcome :: "sl1_scene \<Rightarrow> sl1_runtime \<Rightarrow> game_outcome" where
  "new_outcome sc r =
     (case find (fc_has_fired r) (sc_failure_conditions sc) of
        Some fc \<Rightarrow> Lost (''failure_condition:'' @ fc_id fc)
      | None \<Rightarrow>
          if sc_victory_conditions sc \<noteq> []
             \<and> (\<forall>vc \<in> set (sc_victory_conditions sc). vc_is_met r vc)
          then Won else InProgress)"

definition recompute_outcome :: "sl1_scene \<Rightarrow> u64 \<Rightarrow> sl1_st \<Rightarrow> sl1_st" where
  "recompute_outcome sc now s =
     (let new = new_outcome sc (rt s)
      in if new \<noteq> outcome (rt s) then
           with_rt (\<lambda>r. r\<lparr>outcome := new\<rparr>)
             (push_event (Sl1GameOutcomeChanged (outcome_str (outcome (rt s))) (outcome_str new) now
                (case new of Lost reason \<Rightarrow> Some reason | _ \<Rightarrow> None)) s)
         else s)"

fun supported_kind :: "sl1_objective_kind \<Rightarrow> bool" where
  "supported_kind k \<longleftrightarrow>
     (case k of OKeepFresh \<Rightarrow> True | OCompleteJobs \<Rightarrow> True | OMaintainUtilization \<Rightarrow> True | _ \<Rightarrow> False)"

definition compute_phase :: "sl1_scene \<Rightarrow> sl1_runtime \<Rightarrow> sl1_game_phase" where
  "compute_phase sc r =
     (case outcome r of
        Won \<Rightarrow> PhWon
      | Lost _ \<Rightarrow> PhLost
      | InProgress \<Rightarrow>
          if \<exists>f \<in> set (bt_values (failure_conditions r)). 0 < breach_streak_ticks f
          then PhSpiraling
          else if \<exists>o' \<in> set (bt_values (objectives r)). ob_status o' = StBreached
          then PhLosing
          else if (\<exists>ob \<in> set (sc_objectives sc). supported_kind (objective_kind ob))
                \<and> (\<forall>ob \<in> set (sc_objectives sc). supported_kind (objective_kind ob) \<longrightarrow>
                     (case bt_get (objectives r) (objective_id ob) of
                        None \<Rightarrow> False | Some o' \<Rightarrow> ob_status o' = StMet))
          then PhWinning
          else PhStabilizing)"

definition objectives_run :: "sl1_scene \<Rightarrow> u64 \<Rightarrow> sl1_st \<Rightarrow> sl1_st option" where
  "objectives_run sc now s =
     (if is_terminal (outcome (rt s)) then Some s
      else do {
        s1 \<leftarrow> evaluate_objectives sc now s;
        s2 \<leftarrow> evaluate_failure_conditions sc now s1;
        s3 \<leftarrow> evaluate_victory_conditions sc now s2;
        let s4 = recompute_outcome sc now s3 in
        Some (with_rt (\<lambda>r. r\<lparr>phase := compute_phase sc r\<rparr>) s4) })"


section \<open>Frames, totality, events\<close>

definition objectives_frame :: "sl1_runtime \<Rightarrow> sl1_runtime \<Rightarrow> bool" where
  "objectives_frame r r' \<longleftrightarrow>
     inventories r' = inventories r \<and> freshness r' = freshness r
     \<and> transforms r' = transforms r \<and> place_capacity_used r' = place_capacity_used r
     \<and> pending_outputs r' = pending_outputs r \<and> demand r' = demand r \<and> pressure r' = pressure r
     \<and> metric_states r' = metric_states r
     \<and> dashboard_states r' = dashboard_states r \<and> alert_states r' = alert_states r
     \<and> agents r' = agents r \<and> agent_demand_pauses r' = agent_demand_pauses r
     \<and> milestones r' = milestones r"

lemma objectives_frame_refl: "objectives_frame r r"
  by (simp add: objectives_frame_def)

lemma objectives_frame_trans:
  "objectives_frame a b \<Longrightarrow> objectives_frame b c \<Longrightarrow> objectives_frame a c"
  by (simp add: objectives_frame_def)

text \<open>What each of the five stages respects: frame, growing buffers, keys of the maps.\<close>

definition objectives_step :: "sl1_st \<Rightarrow> sl1_st \<Rightarrow> bool" where
  "objectives_step s t \<longleftrightarrow> objectives_frame (rt s) (rt t) \<and> grows s t
     \<and> (\<forall>k. bt_has (objectives (rt s)) k \<longrightarrow> bt_has (objectives (rt t)) k)
     \<and> (\<forall>k. bt_has (failure_conditions (rt s)) k \<longrightarrow> bt_has (failure_conditions (rt t)) k)
     \<and> (\<forall>k. bt_has (victory_conditions (rt s)) k \<longrightarrow> bt_has (victory_conditions (rt t)) k)"

lemma objectives_step_refl: "objectives_step s s"
  by (simp add: objectives_step_def objectives_frame_refl grows_refl)

lemma objectives_step_trans: "objectives_step s t \<Longrightarrow> objectives_step t u \<Longrightarrow> objectives_step s u"
  unfolding objectives_step_def by (meson objectives_frame_trans grows_trans)

lemma objectives_step_shape:
  "objectives_step s t \<Longrightarrow> rt_shape sc (rt s) \<Longrightarrow> rt_shape sc (rt t)"
  by (erule rt_shape_mono) (simp_all add: objectives_step_def objectives_frame_def)

lemma evaluate_objective_step:
  "evaluate_objective sc now ob s = Some t \<Longrightarrow> objectives_step s t"
  by (auto simp: evaluate_objective_def warn_unsupported_def objectives_step_def
      objectives_frame_def Let_def intro!: mono_append split: option.splits)

lemma evaluate_failure_condition_step:
  "evaluate_failure_condition sc now fc s = Some t \<Longrightarrow> objectives_step s t"
  by (auto simp: evaluate_failure_condition_def objectives_step_def
      objectives_frame_def Let_def case_prod_unfold intro!: mono_append split: option.splits)

lemma evaluate_victory_condition_step:
  "evaluate_victory_condition now vc s = Some t \<Longrightarrow> objectives_step s t"
  by (auto simp: evaluate_victory_condition_def objectives_step_def objectives_frame_def
      intro!: mono_append split: option.splits if_splits)

lemma recompute_outcome_step: "objectives_step s (recompute_outcome sc now s)"
  by (auto simp: recompute_outcome_def objectives_step_def objectives_frame_def Let_def
      intro!: mono_append)

lemma phase_step: "objectives_step s (with_rt (\<lambda>r. r\<lparr>phase := p r\<rparr>) s)"
  by (auto simp: objectives_step_def objectives_frame_def intro!: mono_append)

lemma stages_step:
  "evaluate_objectives sc now s = Some t \<Longrightarrow> objectives_step s t"
  "evaluate_failure_conditions sc now s = Some t \<Longrightarrow> objectives_step s t"
  "evaluate_victory_conditions sc now s = Some t \<Longrightarrow> objectives_step s t"
proof -
  show "evaluate_objectives sc now s = Some t \<Longrightarrow> objectives_step s t"
    unfolding evaluate_objectives_def
    by (erule fold_opt_rel [OF _ objectives_step_refl objectives_step_trans])
      (auto intro: evaluate_objective_step)
  show "evaluate_failure_conditions sc now s = Some t \<Longrightarrow> objectives_step s t"
    unfolding evaluate_failure_conditions_def
    by (erule fold_opt_rel [OF _ objectives_step_refl objectives_step_trans])
      (auto intro: evaluate_failure_condition_step)
  show "evaluate_victory_conditions sc now s = Some t \<Longrightarrow> objectives_step s t"
    unfolding evaluate_victory_conditions_def
    by (erule fold_opt_rel [OF _ objectives_step_refl objectives_step_trans])
      (auto intro: evaluate_victory_condition_step)
qed

lemma objectives_run_stages:
  assumes "objectives_run sc now s = Some t" and "\<not> is_terminal (outcome (rt s))"
  obtains s1 s2 s3 :: sl1_st where "evaluate_objectives sc now s = Some s1"
    and "evaluate_failure_conditions sc now s1 = Some s2"
    and "evaluate_victory_conditions sc now s2 = Some s3"
    and "t = with_rt (\<lambda>r. r\<lparr>phase := compute_phase sc r\<rparr>) (recompute_outcome sc now s3)"
  using assms by (auto simp: objectives_run_def Let_def split: Option.bind_splits)

lemma objectives_run_step:
  assumes "objectives_run sc now s = Some t"
  shows "objectives_step s t"
proof (cases "is_terminal (outcome (rt s))")
  case True
  with assms show ?thesis by (simp add: objectives_run_def objectives_step_refl)
next
  case False
  obtain s1 s2 s3 :: sl1_st where 1: "evaluate_objectives sc now s = Some s1"
    and 2: "evaluate_failure_conditions sc now s1 = Some s2"
    and 3: "evaluate_victory_conditions sc now s2 = Some s3"
    and t: "t = with_rt (\<lambda>r. r\<lparr>phase := compute_phase sc r\<rparr>) (recompute_outcome sc now s3)"
    by (rule objectives_run_stages [OF assms False])
  note stages = stages_step(1) [OF 1] stages_step(2) [OF 2] stages_step(3) [OF 3]
    recompute_outcome_step [of s3 sc now] phase_step [of "recompute_outcome sc now s3"]
  show ?thesis unfolding t
    by (rule objectives_step_trans [OF stages(1) objectives_step_trans [OF stages(2)
        objectives_step_trans [OF stages(3) objectives_step_trans [OF stages(4) stages(5)]]]])
qed

text \<open>No \<open>expect\<close> fails when every declared id has its runtime entry.\<close>

lemma evaluate_objectives_returns:
  assumes "rt_shape sc (rt s)"
  shows "\<exists>t. evaluate_objectives sc now s = Some t"
proof -
  have "\<exists>t. evaluate_objectives sc now s = Some t \<and> rt_shape sc (rt t)"
    unfolding evaluate_objectives_def
  proof (rule fold_opt_total)
    fix ob and u :: sl1_st
    assume "ob \<in> set (sc_objectives sc)" and sh: "rt_shape sc (rt u)"
    then have "bt_has (objectives (rt u)) (objective_id ob)" by (simp add: rt_shape_def)
    then obtain v where v: "evaluate_objective sc now ob u = Some v"
      by (auto simp: evaluate_objective_def bt_has_Some Let_def)
    with objectives_step_shape [OF evaluate_objective_step [OF v] sh]
    show "\<exists>v. evaluate_objective sc now ob u = Some v \<and> rt_shape sc (rt v)" by blast
  qed (rule assms)
  then show ?thesis by blast
qed

lemma evaluate_failure_conditions_returns:
  assumes "rt_shape sc (rt s)"
  shows "\<exists>t. evaluate_failure_conditions sc now s = Some t"
proof -
  have "\<exists>t. evaluate_failure_conditions sc now s = Some t \<and> rt_shape sc (rt t)"
    unfolding evaluate_failure_conditions_def
  proof (rule fold_opt_total)
    fix fc and u :: sl1_st
    assume "fc \<in> set (sc_failure_conditions sc)" and sh: "rt_shape sc (rt u)"
    then have "bt_has (failure_conditions (rt u)) (fc_id fc)" by (simp add: rt_shape_def)
    then obtain v where v: "evaluate_failure_condition sc now fc u = Some v"
      by (auto simp: evaluate_failure_condition_def bt_has_Some Let_def case_prod_unfold)
    with objectives_step_shape [OF evaluate_failure_condition_step [OF v] sh]
    show "\<exists>v. evaluate_failure_condition sc now fc u = Some v \<and> rt_shape sc (rt v)" by blast
  qed (rule assms)
  then show ?thesis by blast
qed

lemma evaluate_victory_conditions_returns:
  assumes "rt_shape sc (rt s)"
  shows "\<exists>t. evaluate_victory_conditions sc now s = Some t"
proof -
  have "\<exists>t. evaluate_victory_conditions sc now s = Some t \<and> rt_shape sc (rt t)"
    unfolding evaluate_victory_conditions_def
  proof (rule fold_opt_total)
    fix vc and u :: sl1_st
    assume "vc \<in> set (sc_victory_conditions sc)" and sh: "rt_shape sc (rt u)"
    then have "bt_has (victory_conditions (rt u)) (vc_id vc)" by (simp add: rt_shape_def)
    then have "\<exists>v. evaluate_victory_condition now vc u = Some v"
      by (auto simp: evaluate_victory_condition_def bt_has_Some)
    then obtain v where v: "evaluate_victory_condition now vc u = Some v" by blast
    with objectives_step_shape [OF evaluate_victory_condition_step [OF v] sh]
    show "\<exists>v. evaluate_victory_condition now vc u = Some v \<and> rt_shape sc (rt v)" by blast
  qed (rule assms)
  then show ?thesis by blast
qed

lemma objectives_run_returns:
  assumes "rt_shape sc (rt s)"
  shows "\<exists>t. objectives_run sc now s = Some t"
proof -
  obtain s1 :: sl1_st where 1: "evaluate_objectives sc now s = Some s1"
    using evaluate_objectives_returns [OF assms] by blast
  note sh1 = objectives_step_shape [OF stages_step(1) [OF 1] assms]
  obtain s2 :: sl1_st where 2: "evaluate_failure_conditions sc now s1 = Some s2"
    using evaluate_failure_conditions_returns [OF sh1] by blast
  obtain s3 :: sl1_st where 3: "evaluate_victory_conditions sc now s2 = Some s3"
    using evaluate_victory_conditions_returns
      [OF objectives_step_shape [OF stages_step(2) [OF 2] sh1]] by blast
  show ?thesis by (simp add: objectives_run_def 1 2 3 Let_def)
qed

section \<open>Used percent\<close>

lemma unat_used_percent:
  assumes "0 < cap"
  shows "unat (used_percent used cap) = min (unat used) (unat cap) * 100 div unat cap"
proof -
  let ?m = "min (unat used) (unat cap)"
  have c: "0 < unat cap" using assms by (simp add: word_less_nat_alt)
  have m: "unat (ucast (min used cap) :: u128) = ?m"
    by (simp add: unat_ucast_up unat_min)
  have cap: "unat (ucast cap :: u128) = unat cap" by (simp add: unat_ucast_up)
  have "?m * 100 < 2 ^ 128" using unat_lt [of cap] by simp
  then have prod: "unat (ucast (min used cap) * 100 :: u128) = ?m * 100"
    by (simp add: unat_word_ariths(2) m)
  have "?m * 100 div unat cap \<le> 100"
    using c by (metis div_le_mono min.cobounded2 mult_le_mono1 nonzero_mult_div_cancel_left
        less_not_refl3)
  then show ?thesis
    by (simp only: used_percent_def unat_div prod cap
        unat_ucast_mod [of "(ucast (min used cap) * 100 :: u128) div ucast cap"]) simp
qed

lemma used_percent_le_100: "0 < cap \<Longrightarrow> used_percent used cap \<le> 100"
proof -
  assume "0 < cap"
  then have c: "0 < unat cap" by (simp add: word_less_nat_alt)
  have "min (unat used) (unat cap) * 100 div unat cap \<le> 100"
    using c by (metis div_le_mono min.cobounded2 mult_le_mono1 nonzero_mult_div_cancel_left
        less_not_refl3)
  with unat_used_percent [OF \<open>0 < cap\<close>, of used] show ?thesis
    by (simp add: word_le_nat_alt)
qed


interpretation objectives: sl1_system objectives_run "\<lambda>_ _ _. True"
proof unfold_locales
  fix sc s now and t :: sl1_st
  show "rt_shape sc (rt s) \<Longrightarrow> \<exists>t. objectives_run sc now s = Some t"
    by (rule objectives_run_returns)
  show "objectives_run sc now s = Some t \<Longrightarrow> grows s t"
    using objectives_run_step by (auto simp: objectives_step_def)
  show "objectives_run sc now s = Some t \<Longrightarrow> rt_shape sc (rt s) \<Longrightarrow> rt_shape sc (rt t)"
    using objectives_run_step objectives_step_shape by blast
qed

lemma objectives_run_frame [frame_simps]:
  assumes "objectives_run sc now s = Some t"
  shows "inventories (rt t) = inventories (rt s)" "freshness (rt t) = freshness (rt s)"
    "transforms (rt t) = transforms (rt s)"
    "place_capacity_used (rt t) = place_capacity_used (rt s)"
    "pending_outputs (rt t) = pending_outputs (rt s)" "demand (rt t) = demand (rt s)"
    "pressure (rt t) = pressure (rt s)" "metric_states (rt t) = metric_states (rt s)"
    "dashboard_states (rt t) = dashboard_states (rt s)"
    "alert_states (rt t) = alert_states (rt s)" "agents (rt t) = agents (rt s)"
    "agent_demand_pauses (rt t) = agent_demand_pauses (rt s)"
    "milestones (rt t) = milestones (rt s)"
  using objectives_run_step [OF assms] by (simp_all add: objectives_step_def objectives_frame_def)

section \<open>The state of each objective and condition after a tick\<close>

lemma objective_status_frame:
  "objectives_frame r r' \<Longrightarrow> objective_status sc r' now ob = objective_status sc r now ob"
  by (simp add: objective_status_def objectives_frame_def evaluate_keep_fresh_def
      evaluate_complete_jobs_def evaluate_utilization_def Let_def
      split: sl1_objective_params.splits)

lemma evaluate_objectives_at:
  assumes "evaluate_objectives sc now s = Some t" and "distinct (map objective_id (sc_objectives sc))"
    and "ob \<in> set (sc_objectives sc)" and "bt_get (objectives (rt s)) (objective_id ob) = Some o'"
  shows "bt_get (objectives (rt t)) (objective_id ob)
    = Some (set_status (objective_status sc (rt s) now ob) now o')"
proof -
  let ?P = "\<lambda>u. objectives_frame (rt s) (rt u)
    \<and> bt_get (objectives (rt u)) (objective_id ob) = Some o'"
  show ?thesis
    using assms(1) [unfolded evaluate_objectives_def] assms(2,3)
  proof (rule fold_opt_at [where P = ?P])
    show "?P s" using assms(4) by (simp add: objectives_frame_refl)
    fix ob' and u v :: sl1_st
    assume ne: "objective_id ob' \<noteq> objective_id ob" and step: "evaluate_objective sc now ob' u = Some v"
    have same: "bt_get (objectives (rt v)) (objective_id ob) = bt_get (objectives (rt u)) (objective_id ob)"
      using step ne by (auto simp: evaluate_objective_def warn_unsupported_def Let_def
          split: option.splits)
    show "?P u \<Longrightarrow> ?P v"
      using same evaluate_objective_step [OF step]
      by (auto simp: objectives_step_def intro: objectives_frame_trans)
    show "bt_get (objectives (rt u)) (objective_id ob)
        = Some (set_status (objective_status sc (rt s) now ob) now o') \<Longrightarrow>
      bt_get (objectives (rt v)) (objective_id ob)
        = Some (set_status (objective_status sc (rt s) now ob) now o')"
      using same by simp
  next
    fix u v :: sl1_st
    assume "evaluate_objective sc now ob u = Some v" and "?P u"
    then show "bt_get (objectives (rt v)) (objective_id ob)
        = Some (set_status (objective_status sc (rt s) now ob) now o')"
      using objective_status_frame [of "rt s" "rt u"]
      by (auto simp: evaluate_objective_def warn_unsupported_def Let_def)
  qed
qed

lemma objectives_of_later_stages:
  "evaluate_failure_conditions sc now s = Some t \<Longrightarrow> objectives (rt t) = objectives (rt s)"
  "evaluate_victory_conditions sc now s = Some t \<Longrightarrow> objectives (rt t) = objectives (rt s)
     \<and> failure_conditions (rt t) = failure_conditions (rt s)"
  "objectives (rt (recompute_outcome sc now s)) = objectives (rt s)"
  "failure_conditions (rt (recompute_outcome sc now s)) = failure_conditions (rt s)"
  "victory_conditions (rt (recompute_outcome sc now s)) = victory_conditions (rt s)"
proof -
  show "evaluate_failure_conditions sc now s = Some t \<Longrightarrow> objectives (rt t) = objectives (rt s)"
    unfolding evaluate_failure_conditions_def
    by (erule fold_opt_inv [where P = "\<lambda>u. objectives (rt u) = objectives (rt s)"])
      (auto simp: evaluate_failure_condition_def Let_def case_prod_unfold split: option.splits)
  show "evaluate_victory_conditions sc now s = Some t \<Longrightarrow> objectives (rt t) = objectives (rt s)
     \<and> failure_conditions (rt t) = failure_conditions (rt s)"
    unfolding evaluate_victory_conditions_def
    by (erule fold_opt_inv [where P = "\<lambda>u. objectives (rt u) = objectives (rt s)
        \<and> failure_conditions (rt u) = failure_conditions (rt s)"])
      (auto simp: evaluate_victory_condition_def split: option.splits if_splits)
qed (simp_all add: recompute_outcome_def Let_def)

text \<open>
  A failure condition is judged on the state after the objectives of the same tick, and its
  entry moves by \<open>fc_update\<close>.
\<close>

lemma fc_breached_frame:
  "objectives_frame r r' \<Longrightarrow> objectives r' = objectives r \<Longrightarrow>
   fc_breached sc r' now fc = fc_breached sc r now fc"
  by (auto simp: fc_breached_def objectives_frame_def stale_target_breached_def
      place_state_breached_def Let_def split: sl1_failure_condition_params.splits option.splits
      sl1_operating_predicate.splits)

lemma evaluate_failure_conditions_at:
  assumes "evaluate_failure_conditions sc now s = Some t"
    and "distinct (map fc_id (sc_failure_conditions sc))"
    and "fc \<in> set (sc_failure_conditions sc)"
    and "bt_get (failure_conditions (rt s)) (fc_id fc) = Some f"
  shows "bt_get (failure_conditions (rt t)) (fc_id fc)
    = Some (fst (fc_update (fc_grace (fc_params fc)) now (fc_breached sc (rt s) now fc) f))"
    (is "?R t")
proof -
  let ?P = "\<lambda>u. objectives_frame (rt s) (rt u) \<and> objectives (rt u) = objectives (rt s)
    \<and> bt_get (failure_conditions (rt u)) (fc_id fc) = Some f"
  show ?thesis
    using assms(1) [unfolded evaluate_failure_conditions_def] assms(2,3)
  proof (rule fold_opt_at [where P = ?P])
    show "?P s" using assms(4) by (simp add: objectives_frame_refl)
    fix fc' and u v :: sl1_st
    assume ne: "fc_id fc' \<noteq> fc_id fc" and step: "evaluate_failure_condition sc now fc' u = Some v"
    have same: "bt_get (failure_conditions (rt v)) (fc_id fc) = bt_get (failure_conditions (rt u)) (fc_id fc)"
      "objectives (rt v) = objectives (rt u)"
      using step ne by (auto simp: evaluate_failure_condition_def Let_def case_prod_unfold
          split: option.splits)
    show "?P u \<Longrightarrow> ?P v"
      using same evaluate_failure_condition_step [OF step]
      by (auto simp: objectives_step_def intro: objectives_frame_trans)
    show "?R u \<Longrightarrow> ?R v" using same(1) by simp
  next
    fix u v :: sl1_st
    assume "evaluate_failure_condition sc now fc u = Some v" and "?P u"
    then show "?R v"
      using fc_breached_frame [of "rt s" "rt u"]
      by (auto simp: evaluate_failure_condition_def Let_def case_prod_unfold)
  qed
qed

section \<open>The outcome a tick yields\<close>

lemma objectives_run_outcome:
  assumes "objectives_run sc now s = Some t" and "\<not> is_terminal (outcome (rt s))"
  shows "outcome (rt t) = new_outcome sc (rt t)" and "phase (rt t) = compute_phase sc (rt t)"
proof -
  obtain s1 s2 s3 :: sl1_st where
    t: "t = with_rt (\<lambda>r. r\<lparr>phase := compute_phase sc r\<rparr>) (recompute_outcome sc now s3)"
    by (rule objectives_run_stages [OF assms])
  have cong: "new_outcome sc r' = new_outcome sc r"
    if "failure_conditions r' = failure_conditions r" "victory_conditions r' = victory_conditions r"
    for r r' :: sl1_runtime
  proof -
    have "fc_has_fired r' = fc_has_fired r" "vc_is_met r' = vc_is_met r"
      by (rule ext, simp add: fc_has_fired_def vc_is_met_def that)+
    then show ?thesis by (simp only: new_outcome_def)
  qed
  show "outcome (rt t) = new_outcome sc (rt t)"
    using cong [of "rt t" "rt s3"] by (simp add: t recompute_outcome_def Let_def)
  have fields: "outcome (r\<lparr>phase := x\<rparr>) = outcome r" "objectives (r\<lparr>phase := x\<rparr>) = objectives r"
    "failure_conditions (r\<lparr>phase := x\<rparr>) = failure_conditions r" for r :: sl1_runtime and x
    by simp_all
  have "compute_phase sc (r\<lparr>phase := x\<rparr>) = compute_phase sc r" for r :: sl1_runtime and x
    by (simp only: compute_phase_def fields)
  then show "phase (rt t) = compute_phase sc (rt t)"
    by (simp add: t)
qed

lemma new_outcome_lost:
  assumes "sorted_wrt (<) (map fc_id (sc_failure_conditions sc))"
    and "fc \<in> set (sc_failure_conditions sc)" and "fc_has_fired r fc"
  obtains low where "low \<in> set (sc_failure_conditions sc)" and "fc_has_fired r low"
    and "\<And>fc'. fc' \<in> set (sc_failure_conditions sc) \<Longrightarrow> fc_has_fired r fc' \<Longrightarrow> fc_id low \<le> fc_id fc'"
    and "new_outcome sc r = Lost (''failure_condition:'' @ fc_id low)"
proof -
  have low: "sorted_wrt (<) (map fc_id fcs) \<Longrightarrow> find (fc_has_fired r) fcs = Some low \<Longrightarrow>
      fc' \<in> set fcs \<Longrightarrow> fc_has_fired r fc' \<Longrightarrow> fc_id low \<le> fc_id fc'" for fcs low fc'
    by (induction fcs) (auto split: if_splits simp: less_imp_le dest!: find_SomeD)
  from assms(2,3) obtain l where l: "find (fc_has_fired r) (sc_failure_conditions sc) = Some l"
    by (metis find_None_iff not_None_eq)
  with low [OF assms(1) l] show ?thesis
    using find_SomeD [OF l] by (intro that [of l]) (auto simp: new_outcome_def)
qed

section \<open>When a failure condition fires\<close>

text \<open>The latch over a history of breach verdicts, one per tick.\<close>

definition fc_history ::
  "u64 \<Rightarrow> (u64 \<times> bool) list \<Rightarrow> sl1_failure_condition_runtime \<Rightarrow> sl1_failure_condition_runtime" where
  "fc_history grace hs f = fold (\<lambda>(now, b) f. fst (fc_update grace now b f)) hs f"

definition trailing :: "bool list \<Rightarrow> nat" where
  "trailing bs = length (takeWhile (\<lambda>b. b) (rev bs))"

lemma trailing_snoc [simp]: "trailing (bs @ [b]) = (if b then trailing bs + 1 else 0)"
  by (simp add: trailing_def)

definition fc_initial :: sl1_failure_condition_runtime where
  "fc_initial = \<lparr>breach_streak_ticks = 0, fc_fired_at_tick = None\<rparr>"

lemma fc_history_snoc:
  "fc_history grace (hs @ [(now, b)]) f = fst (fc_update grace now b (fc_history grace hs f))"
  by (simp add: fc_history_def)

lemma fc_history_streak:
  "unat (breach_streak_ticks (fc_history grace hs fc_initial))
     = min (trailing (map snd hs)) (2 ^ 64 - 1)"
proof (induction hs rule: rev_induct)
  case Nil
  then show ?case by (simp add: fc_history_def fc_initial_def trailing_def)
next
  case (snoc h hs)
  then show ?case
    by (cases h) (auto simp: fc_history_snoc fc_update_def Let_def unat_sat_add)
qed

lemma fc_history_fired:
  assumes "unat grace < 2 ^ 64 - 1"
  shows "fc_fired_at_tick (fc_history grace hs fc_initial) =
    (case find (\<lambda>n. unat grace < trailing (map snd (take n hs))) [1..<length hs + 1] of
       None \<Rightarrow> None | Some n \<Rightarrow> Some (fst (hs ! (n - 1))))"
proof (induction hs rule: rev_induct)
  case Nil
  then show ?case by (simp add: fc_history_def fc_initial_def)
next
  case (snoc h hs)
  obtain now b where h: "h = (now, b)" by force
  let ?P = "\<lambda>hs n. unat grace < trailing (map snd (take n hs))"
  let ?n = "length hs"
  have find_app: "find P (xs @ [y]) = (case find P xs of None \<Rightarrow> if P y then Some y else None
      | Some z \<Rightarrow> Some z)" for P and xs :: "nat list" and y
    by (induction xs) auto
  have upt: "[1..<length (hs @ [h]) + 1] = [1..<?n + 1] @ [?n + 1]" by simp
  have old: "find (?P (hs @ [h])) [1..<?n + 1] = find (?P hs) [1..<?n + 1]"
    by (rule find_cong) auto
  have streak: "unat (breach_streak_ticks (fst (fc_update grace now b (fc_history grace hs fc_initial))))
      = min (trailing (map snd (hs @ [h]))) (2 ^ 64 - 1)"
    using fc_history_streak [of grace "hs @ [h]"] by (simp add: fc_history_snoc h)
  show ?case
  proof (cases "find (?P hs) [1..<?n + 1]")
    case None
    with snoc have none: "fc_fired_at_tick (fc_history grace hs fc_initial) = None" by simp
    have "unat grace < min (trailing (map snd (hs @ [h]))) (2 ^ 64 - 1)
        \<longleftrightarrow> unat grace < trailing (map snd (hs @ [h]))"
      using assms by simp
    with streak none have "fc_fired_at_tick (fc_history grace (hs @ [h]) fc_initial)
        = (if unat grace < trailing (map snd (hs @ [h])) then Some now else None)"
      by (auto simp: fc_history_snoc h fc_update_def Let_def word_less_nat_alt split: if_splits)
    moreover have "find (?P (hs @ [h])) [1..<length (hs @ [h]) + 1]
        = (if unat grace < trailing (map snd (hs @ [h])) then Some (?n + 1) else None)"
      unfolding upt find_app old None by simp
    ultimately show ?thesis by (simp add: h)
  next
    case (Some n)
    then have n: "n \<in> set [1..<?n + 1]" by (auto dest: find_SomeD)
    have "find (?P (hs @ [h])) [1..<length (hs @ [h]) + 1] = Some n"
      unfolding upt find_app old Some by simp
    moreover have "fc_fired_at_tick (fc_history grace (hs @ [h]) fc_initial)
        = fc_fired_at_tick (fc_history grace hs fc_initial)"
      using snoc Some by (simp add: fc_history_snoc h fc_update_def Let_def)
    moreover have "(hs @ [h]) ! (n - 1) = hs ! (n - 1)"
      using n by (auto simp: nth_append)
    ultimately show ?thesis using snoc Some by simp
  qed
qed

end
