(* ===== verification/Observability.thy ===== *)
theory Observability
  imports Objectives
begin

text \<open>
  \<open>crates/engine/src/sl1_observability.rs\<close>: dashboards, metrics and alerts, recomputed
  every tick. The lemmas give the dashboard age its declarative reading (the oldest, over
  the things a dashboard depends on, of the freshest copy of each), and make the alerts
  edge-triggered.
\<close>

section \<open>The code\<close>

definition age_of :: "u64 \<Rightarrow> freshness_state \<Rightarrow> u64 option" where
  "age_of now st = (case st of FOk t \<Rightarrow> Some (sat_sub now t) | FStale t \<Rightarrow> Some (sat_sub now t)
     | _ \<Rightarrow> None)"

definition min_age_step ::
  "u64 \<Rightarrow> string \<Rightarrow> (string \<times> string) \<times> freshness_state \<Rightarrow> u64 option \<Rightarrow> u64 option" where
  "min_age_step now thing e acc =
     (if snd (fst e) \<noteq> thing then acc
      else case age_of now (snd e) of
        None \<Rightarrow> acc
      | Some age \<Rightarrow> Some (case acc of None \<Rightarrow> age | Some prev \<Rightarrow> min prev age))"

definition min_age_for_thing :: "u64 \<Rightarrow> sl1_runtime \<Rightarrow> string \<Rightarrow> u64 option" where
  "min_age_for_thing now r thing = fold (min_age_step now thing) (freshness r) None"

fun max_age_loop :: "u64 \<Rightarrow> sl1_runtime \<Rightarrow> string list \<Rightarrow> u64 \<Rightarrow> u64 option" where
  "max_age_loop now r [] acc = Some acc"
| "max_age_loop now r (thing # ts) acc =
     (case min_age_for_thing now r thing of
        None \<Rightarrow> None
      | Some a \<Rightarrow> max_age_loop now r ts (max acc a))"

definition dashboard_freshness :: "sl1_dashboard \<Rightarrow> sl1_runtime \<Rightarrow> u64 \<Rightarrow> u64 option" where
  "dashboard_freshness d r now =
     (if dashboard_depends_on d = [] then Some 0
      else max_age_loop now r (dashboard_depends_on d) 0)"

definition compute_dashboard_state ::
  "sl1_dashboard \<Rightarrow> sl1_runtime \<Rightarrow> u64 \<Rightarrow> sl1_dashboard_state" where
  "compute_dashboard_state d r now =
     (case dashboard_freshness d r now of
        None \<Rightarrow> DashNoData
      | Some age \<Rightarrow> if dashboard_freshness_slo_ticks d < age then DashStale age else DashOk)"

definition discriminants_differ :: "sl1_dashboard_state \<Rightarrow> sl1_dashboard_state \<Rightarrow> bool" where
  "discriminants_differ a b \<longleftrightarrow> dashboard_str a \<noteq> dashboard_str b"

definition update_dashboard :: "u64 \<Rightarrow> sl1_dashboard \<Rightarrow> sl1_st \<Rightarrow> sl1_st option" where
  "update_dashboard now d s =
     (let new = compute_dashboard_state d (rt s) now
      in case bt_get (dashboard_states (rt s)) (dashboard_id d) of
           None \<Rightarrow> None
         | Some prev \<Rightarrow>
             let s1 = (if discriminants_differ prev new
                       then push_event (Sl1DashboardStateChanged (dashboard_id d)
                              (dashboard_str prev) (dashboard_str new) now
                              (case new of DashStale t \<Rightarrow> Some t | _ \<Rightarrow> None)) s
                       else s)
             in Some (with_rt (\<lambda>r. r\<lparr>dashboard_states :=
                  bt_insert (dashboard_id d) new (dashboard_states r)\<rparr>) s1))"

definition metric_percent :: "u64 \<Rightarrow> u64 \<Rightarrow> u64" where
  "metric_percent used cap =
     ucast ((ucast (min used cap) * 100 :: u128) div (ucast cap :: u128))"

definition compute_metric_state ::
  "sl1_metric \<Rightarrow> sl1_scene \<Rightarrow> sl1_runtime \<Rightarrow> u64 \<Rightarrow> sl1_metric_state option" where
  "compute_metric_state m sc r now =
     (case metric_source m of
        PlaceCapacityUsedPercent place bucket \<Rightarrow>
          (case find_place sc place of
             None \<Rightarrow> None
           | Some p \<Rightarrow>
               let cap = bt_get_or 0 (place_capacity p) bucket;
                   used = bt_get2 (place_capacity_used r) place bucket
               in Some (MetricOk (if cap = 0 then 0 else metric_percent used cap)))
      | PlaceInventoryCount place thing \<Rightarrow> Some (MetricOk (bt_get2 (inventories r) place thing))
      | DashboardFreshness dash \<Rightarrow>
          (case sc_observability sc of
             None \<Rightarrow> None
           | Some obs \<Rightarrow>
               (case find (\<lambda>d. dashboard_id d = dash) (obs_dashboards obs) of
                  None \<Rightarrow> None
                | Some d \<Rightarrow>
                    Some (case dashboard_freshness d r now of
                       Some age \<Rightarrow> MetricOk age | None \<Rightarrow> MetricNoData))))"

definition update_metric :: "sl1_scene \<Rightarrow> u64 \<Rightarrow> sl1_metric \<Rightarrow> sl1_st \<Rightarrow> sl1_st option" where
  "update_metric sc now m s =
     (case compute_metric_state m sc (rt s) now of
        None \<Rightarrow> None
      | Some new \<Rightarrow> Some (with_rt (\<lambda>r. r\<lparr>metric_states :=
          bt_insert (metric_id m) new (metric_states r)\<rparr>) s))"

definition next_alert ::
  "u64 \<Rightarrow> sl1_alert_predicate \<Rightarrow> sl1_metric_state \<Rightarrow> sl1_alert_state
    \<Rightarrow> sl1_alert_state \<times> u64 option" where
  "next_alert now p ms prev =
     (case ms of
        MetricOk v \<Rightarrow>
          if alert_fires p v
          then (AlertFiring (case prev of AlertFiring t \<Rightarrow> t | AlertInactive \<Rightarrow> now), Some v)
          else (AlertInactive, None)
      | MetricNoData \<Rightarrow> (AlertInactive, None))"

definition update_alert :: "u64 \<Rightarrow> sl1_alert \<Rightarrow> sl1_st \<Rightarrow> sl1_st option" where
  "update_alert now a s = do {
     ms \<leftarrow> bt_get (metric_states (rt s)) (alert_metric a);
     prev \<leftarrow> bt_get (alert_states (rt s)) (alert_id a);
     let (new, emitted) = next_alert now (alert_predicate a) ms prev in do {
       s1 \<leftarrow> (case (prev, new) of
               (AlertInactive, AlertFiring _) \<Rightarrow> do {
                  v \<leftarrow> emitted;
                  Some (push_event (Sl1AlertFired (alert_id a) (alert_metric a) v
                    (severity_str (alert_severity a)) (alert_summary (alert_predicate a)) now) s) }
             | (AlertFiring _, AlertInactive) \<Rightarrow>
                  Some (push_event (Sl1AlertCleared (alert_id a) (alert_metric a) now) s)
             | _ \<Rightarrow> Some s);
       Some (with_rt (\<lambda>r. r\<lparr>alert_states :=
         bt_insert (alert_id a) new (alert_states r)\<rparr>) s1) } }"

definition observability_run :: "sl1_scene \<Rightarrow> u64 \<Rightarrow> sl1_st \<Rightarrow> sl1_st option" where
  "observability_run sc now s =
     (case sc_observability sc of
        None \<Rightarrow> Some s
      | Some obs \<Rightarrow>
          if obs_metrics obs = [] \<and> obs_dashboards obs = [] \<and> obs_alerts obs = [] then Some s
          else do {
            s1 \<leftarrow> fold_opt (update_dashboard now) (obs_dashboards obs) s;
            s2 \<leftarrow> fold_opt (update_metric sc now) (obs_metrics obs) s1;
            fold_opt (update_alert now) (obs_alerts obs) s2 })"

section \<open>Frames and totality\<close>

definition observability_step :: "sl1_st \<Rightarrow> sl1_st \<Rightarrow> bool" where
  "observability_step s t \<longleftrightarrow> grows s t \<and> msgs t = msgs s
     \<and> rt t = (rt s)\<lparr>dashboard_states := dashboard_states (rt t),
          metric_states := metric_states (rt t), alert_states := alert_states (rt t)\<rparr>
     \<and> (\<forall>k. bt_has (dashboard_states (rt s)) k \<longrightarrow> bt_has (dashboard_states (rt t)) k)
     \<and> (\<forall>k. bt_has (metric_states (rt s)) k \<longrightarrow> bt_has (metric_states (rt t)) k)
     \<and> (\<forall>k. bt_has (alert_states (rt s)) k \<longrightarrow> bt_has (alert_states (rt t)) k)"

lemma observability_step_refl: "observability_step s s"
  by (simp add: observability_step_def grows_refl)

lemma observability_step_trans:
  assumes "observability_step s t" and "observability_step t u"
  shows "observability_step s u"
proof -
  have "rt u = (rt s)\<lparr>dashboard_states := dashboard_states (rt u),
      metric_states := metric_states (rt u), alert_states := alert_states (rt u)\<rparr>"
  proof -
    have "rt u = (rt t)\<lparr>dashboard_states := dashboard_states (rt u),
        metric_states := metric_states (rt u), alert_states := alert_states (rt u)\<rparr>"
      using assms(2) by (simp add: observability_step_def)
    also have "rt t = (rt s)\<lparr>dashboard_states := dashboard_states (rt t),
        metric_states := metric_states (rt t), alert_states := alert_states (rt t)\<rparr>"
      using assms(1) by (simp add: observability_step_def)
    finally show ?thesis by simp
  qed
  with assms show ?thesis
    unfolding observability_step_def by (auto intro: grows_trans)
qed

lemma update_dashboard_step: "update_dashboard now d s = Some t \<Longrightarrow> observability_step s t"
  by (auto simp: update_dashboard_def observability_step_def Let_def
      intro!: mono_append split: option.splits)

lemma update_metric_step: "update_metric sc now m s = Some t \<Longrightarrow> observability_step s t"
  by (auto simp: update_metric_def observability_step_def intro!: mono_append split: option.splits)

lemma update_alert_step: "update_alert now a s = Some t \<Longrightarrow> observability_step s t"
  by (auto simp: update_alert_def observability_step_def Let_def
      intro!: mono_append split: Option.bind_splits prod.splits sl1_alert_state.splits)

lemma stages_observability:
  "fold_opt (update_dashboard now) ds s = Some t \<Longrightarrow> observability_step s t"
  "fold_opt (update_metric sc now) ms s = Some t \<Longrightarrow> observability_step s t"
  "fold_opt (update_alert now) as s = Some t \<Longrightarrow> observability_step s t"
proof -
  show "fold_opt (update_dashboard now) ds s = Some t \<Longrightarrow> observability_step s t"
    by (erule fold_opt_rel [OF _ observability_step_refl observability_step_trans])
      (auto intro: update_dashboard_step)
  show "fold_opt (update_metric sc now) ms s = Some t \<Longrightarrow> observability_step s t"
    by (erule fold_opt_rel [OF _ observability_step_refl observability_step_trans])
      (auto intro: update_metric_step)
  show "fold_opt (update_alert now) as s = Some t \<Longrightarrow> observability_step s t"
    by (erule fold_opt_rel [OF _ observability_step_refl observability_step_trans])
      (auto intro: update_alert_step)
qed

lemma observability_run_stages:
  assumes "observability_run sc now s = Some t" and "t \<noteq> s"
  obtains obs and s1 s2 :: sl1_st where "sc_observability sc = Some obs"
    and "fold_opt (update_dashboard now) (obs_dashboards obs) s = Some s1"
    and "fold_opt (update_metric sc now) (obs_metrics obs) s1 = Some s2"
    and "fold_opt (update_alert now) (obs_alerts obs) s2 = Some t"
  using assms unfolding observability_run_def
  by (auto split: option.splits if_splits Option.bind_splits)

lemma observability_run_step:
  assumes "observability_run sc now s = Some t"
  shows "observability_step s t"
proof (cases "t = s")
  case True
  then show ?thesis by (simp add: observability_step_refl)
next
  case False
  obtain obs and s1 s2 :: sl1_st where "sc_observability sc = Some obs"
    and 1: "fold_opt (update_dashboard now) (obs_dashboards obs) s = Some s1"
    and 2: "fold_opt (update_metric sc now) (obs_metrics obs) s1 = Some s2"
    and 3: "fold_opt (update_alert now) (obs_alerts obs) s2 = Some t"
    by (rule observability_run_stages [OF assms False])
  show ?thesis
    by (rule observability_step_trans [OF stages_observability(1) [OF 1]
        observability_step_trans [OF stages_observability(2) [OF 2] stages_observability(3) [OF 3]]])
qed

lemma observability_step_shape:
  assumes "observability_step s t" and "rt_shape sc (rt s)"
  shows "rt_shape sc (rt t)"
proof -
  have eq: "rt t = (rt s)\<lparr>dashboard_states := dashboard_states (rt t),
      metric_states := metric_states (rt t), alert_states := alert_states (rt t)\<rparr>"
    using assms(1) by (simp add: observability_step_def)
  have "objectives (rt t) = objectives (rt s)" "failure_conditions (rt t) = failure_conditions (rt s)"
    "victory_conditions (rt t) = victory_conditions (rt s)" "milestones (rt t) = milestones (rt s)"
    by (subst eq, simp)+
  with assms show ?thesis
    by (intro rt_shape_mono [OF assms(2)]) (auto simp: observability_step_def)
qed


text \<open>No lookup of the pipeline fails on a validated scene.\<close>

lemma find_image: "i \<in> f ` set xs \<Longrightarrow> \<exists>y. find (\<lambda>x. f x = i) xs = Some y"
  by (induction xs) auto

lemma compute_metric_returns:
  assumes "scene_ok sc" and "sc_observability sc = Some obs" and "m \<in> set (obs_metrics obs)"
  shows "\<exists>v. compute_metric_state m sc r now = Some v"
proof -
  have ok: "metric_ok sc obs (metric_source m)"
    using scene_okD(16) [OF assms(1,2)] assms(3) by (simp add: observability_ok_def)
  show ?thesis
  proof (cases "metric_source m")
    case (PlaceCapacityUsedPercent p c)
    with ok obtain pl where "find_place sc p = Some pl"
      unfolding find_place_def using find_image by (metis metric_ok.simps(1))
    with PlaceCapacityUsedPercent show ?thesis by (simp add: compute_metric_state_def Let_def)
  next
    case (PlaceInventoryCount p k)
    then show ?thesis by (simp add: compute_metric_state_def)
  next
    case (DashboardFreshness d)
    with ok obtain da where "find (\<lambda>x. dashboard_id x = d) (obs_dashboards obs) = Some da"
      using find_image by (metis metric_ok.simps(3))
    with DashboardFreshness assms(2) show ?thesis by (simp add: compute_metric_state_def)
  qed
qed

lemma update_alert_returns:
  assumes "bt_has (metric_states (rt s)) (alert_metric a)"
    and "bt_has (alert_states (rt s)) (alert_id a)"
  shows "\<exists>t. update_alert now a s = Some t"
proof -
  obtain ms prev where get: "bt_get (metric_states (rt s)) (alert_metric a) = Some ms"
    "bt_get (alert_states (rt s)) (alert_id a) = Some prev"
    using assms by (auto simp: bt_has_Some)
  obtain new emitted where new: "next_alert now (alert_predicate a) ms prev = (new, emitted)"
    by (cases "next_alert now (alert_predicate a) ms prev") auto
  then have "emitted = None \<Longrightarrow> new = AlertInactive"
    by (auto simp: next_alert_def split: sl1_metric_state.splits if_splits)
  then show ?thesis
    using get new
    by (cases prev; cases new; cases emitted) (auto simp: update_alert_def)
qed

lemma observability_run_returns:
  assumes "scene_ok sc" and "rt_shape sc (rt s)"
  shows "\<exists>t. observability_run sc now s = Some t"
proof (cases "sc_observability sc")
  case None
  then show ?thesis by (simp add: observability_run_def)
next
  case (Some obs)
  have ok: "observability_ok sc obs" using scene_okD(16) [OF assms(1) Some] .
  have keys: "\<forall>d \<in> set (obs_dashboards obs). bt_has (dashboard_states (rt s)) (dashboard_id d)"
    "\<forall>a \<in> set (obs_alerts obs). bt_has (alert_states (rt s)) (alert_id a)"
    using assms(2) Some by (auto simp: rt_shape_def)
  have "\<exists>s1. fold_opt (update_dashboard now) (obs_dashboards obs) s = Some s1
      \<and> observability_step s s1"
  proof (rule fold_opt_total)
    fix d and u :: sl1_st
    assume "d \<in> set (obs_dashboards obs)" and st: "observability_step s u"
    with keys(1) have "bt_has (dashboard_states (rt u)) (dashboard_id d)"
      by (auto simp: observability_step_def)
    then have "\<exists>v. update_dashboard now d u = Some v"
      by (auto simp: update_dashboard_def bt_has_Some Let_def)
    then obtain v where v: "update_dashboard now d u = Some v" ..
    with observability_step_trans [OF st update_dashboard_step [OF v]]
    show "\<exists>v. update_dashboard now d u = Some v \<and> observability_step s v" by blast
  qed (rule observability_step_refl)
  then obtain s1 where s1: "fold_opt (update_dashboard now) (obs_dashboards obs) s = Some s1"
    "observability_step s s1" by blast
  have "\<exists>s2. fold_opt (update_metric sc now) ms s1 = Some s2
      \<and> (\<forall>m \<in> set ms. bt_has (metric_states (rt s2)) (metric_id m))"
    if "set ms \<subseteq> set (obs_metrics obs)" for ms
    using that
  proof (induction ms rule: rev_induct)
    case (snoc m ms)
    then obtain s2 where s2: "fold_opt (update_metric sc now) ms s1 = Some s2"
      "\<forall>m \<in> set ms. bt_has (metric_states (rt s2)) (metric_id m)" by auto
    obtain v where "compute_metric_state m sc (rt s2) now = Some v"
      using compute_metric_returns [OF assms(1) Some, of m "rt s2" now] snoc.prems by auto
    then have m: "update_metric sc now m s2 = Some (with_rt (\<lambda>r. r\<lparr>metric_states :=
        bt_insert (metric_id m) v (metric_states r)\<rparr>) s2)"
      by (simp add: update_metric_def)
    have "fold_opt (update_metric sc now) (ms @ [m]) s1 = Some (with_rt (\<lambda>r. r\<lparr>metric_states :=
        bt_insert (metric_id m) v (metric_states r)\<rparr>) s2)"
      using s2(1) m by (simp add: fold_opt_append)
    with s2(2) show ?case by auto
  qed simp
  from this [of "obs_metrics obs"] obtain s2 where
    s2: "fold_opt (update_metric sc now) (obs_metrics obs) s1 = Some s2"
    "\<forall>m \<in> set (obs_metrics obs). bt_has (metric_states (rt s2)) (metric_id m)" by auto
  have mkeys: "\<forall>a \<in> set (obs_alerts obs). bt_has (metric_states (rt s2)) (alert_metric a)"
    using ok s2(2) by (auto simp: observability_ok_def image_iff)
  have st2: "observability_step s s2"
    by (rule observability_step_trans [OF s1(2) stages_observability(2) [OF s2(1)]])
  have "\<exists>t. fold_opt (update_alert now) (obs_alerts obs) s2 = Some t
      \<and> observability_step s2 t"
  proof (rule fold_opt_total)
    fix a and u :: sl1_st
    assume a: "a \<in> set (obs_alerts obs)" and st: "observability_step s2 u"
    have "bt_has (metric_states (rt u)) (alert_metric a)" "bt_has (alert_states (rt u)) (alert_id a)"
      using a mkeys keys(2) st st2 by (auto simp: observability_step_def)
    then obtain v where v: "update_alert now a u = Some v" using update_alert_returns by blast
    with observability_step_trans [OF st update_alert_step [OF v]]
    show "\<exists>v. update_alert now a u = Some v \<and> observability_step s2 v" by blast
  qed (rule observability_step_refl)
  with s1(1) s2(1) Some show ?thesis by (auto simp: observability_run_def)
qed

interpretation observability: sl1_system observability_run "\<lambda>_ _ _. True"
proof unfold_locales
  fix sc s now and t :: sl1_st
  show "scene_ok sc \<Longrightarrow> rt_shape sc (rt s) \<Longrightarrow> \<exists>t. observability_run sc now s = Some t"
    by (rule observability_run_returns)
  show "observability_run sc now s = Some t \<Longrightarrow> grows s t"
    using observability_run_step by (auto simp: observability_step_def)
  show "observability_run sc now s = Some t \<Longrightarrow> rt_shape sc (rt s) \<Longrightarrow> rt_shape sc (rt t)"
    using observability_run_step observability_step_shape by blast
qed

lemma observability_run_frame [frame_simps]:
  assumes "observability_run sc now s = Some t"
  shows "inventories (rt t) = inventories (rt s)" "freshness (rt t) = freshness (rt s)"
    "transforms (rt t) = transforms (rt s)"
    "place_capacity_used (rt t) = place_capacity_used (rt s)"
    "pending_outputs (rt t) = pending_outputs (rt s)" "demand (rt t) = demand (rt s)"
    "pressure (rt t) = pressure (rt s)" "objectives (rt t) = objectives (rt s)"
    "failure_conditions (rt t) = failure_conditions (rt s)"
    "victory_conditions (rt t) = victory_conditions (rt s)"
    "outcome (rt t) = outcome (rt s)" "phase (rt t) = phase (rt s)"
    "agents (rt t) = agents (rt s)"
    "agent_demand_pauses (rt t) = agent_demand_pauses (rt s)"
    "milestones (rt t) = milestones (rt s)" "msgs t = msgs s"
proof -
  have st: "observability_step s t" using observability_run_step [OF assms] .
  then have eq: "rt t = (rt s)\<lparr>dashboard_states := dashboard_states (rt t),
      metric_states := metric_states (rt t), alert_states := alert_states (rt t)\<rparr>"
    by (simp add: observability_step_def)
  show "inventories (rt t) = inventories (rt s)" "freshness (rt t) = freshness (rt s)"
    "transforms (rt t) = transforms (rt s)"
    "place_capacity_used (rt t) = place_capacity_used (rt s)"
    "pending_outputs (rt t) = pending_outputs (rt s)" "demand (rt t) = demand (rt s)"
    "pressure (rt t) = pressure (rt s)" "objectives (rt t) = objectives (rt s)"
    "failure_conditions (rt t) = failure_conditions (rt s)"
    "victory_conditions (rt t) = victory_conditions (rt s)"
    "outcome (rt t) = outcome (rt s)" "phase (rt t) = phase (rt s)"
    "agents (rt t) = agents (rt s)"
    "agent_demand_pauses (rt t) = agent_demand_pauses (rt s)"
    "milestones (rt t) = milestones (rt s)"
    by (subst eq, simp)+
  show "msgs t = msgs s" using st by (simp add: observability_step_def)
qed


section \<open>The age of a dashboard\<close>

text \<open>The ages of the timestamped copies of a thing.\<close>

definition ages :: "u64 \<Rightarrow> sl1_runtime \<Rightarrow> string \<Rightarrow> u64 set" where
  "ages now r thing = {a. \<exists>place st. ((place, thing), st) \<in> set (freshness r) \<and> age_of now st = Some a}"

lemma finite_ages [simp]: "finite (ages now r thing)"
proof -
  have "ages now r thing \<subseteq> (\<lambda>e. the (age_of now (snd e))) ` set (freshness r)"
    by (force simp: ages_def)
  then show ?thesis by (rule finite_subset) simp
qed

lemma min_age_loop:
  assumes "finite S" and "acc = (if S = {} then None else Some (Min S))"
    and "T = S \<union> {a. \<exists>place st. ((place, thing), st) \<in> set es \<and> age_of now st = Some a}"
  shows "fold (min_age_step now thing) es acc = (if T = {} then None else Some (Min T))"
  using assms
proof (induction es arbitrary: S acc)
  case Nil
  then show ?case by simp
next
  case (Cons e es)
  obtain p k st where e: "e = ((p, k), st)" by (metis surj_pair)
  define S' where "S' = S \<union> {a. k = thing \<and> age_of now st = Some a}"
  have sub: "{a. k = thing \<and> age_of now st = Some a} \<subseteq> {the (age_of now st)}" by auto
  have "finite S'"
    unfolding S'_def using Cons.prems(1) finite_subset [OF sub] by simp
  moreover have "min_age_step now thing e acc = (if S' = {} then None else Some (Min S'))"
  proof (cases "k = thing \<and> age_of now st \<noteq> None")
    case False
    then have "S' = S" by (auto simp: S'_def)
    with False Cons.prems(2) show ?thesis
      by (auto simp: e min_age_step_def split: option.splits)
  next
    case True
    then obtain a where a: "age_of now st = Some a" by auto
    with True have S': "S' = insert a S" by (auto simp: S'_def)
    with True a Cons.prems(1,2) show ?thesis
      by (auto simp: e min_age_step_def min.commute)
  qed
  moreover have "T = S' \<union> {a. \<exists>place st. ((place, thing), st) \<in> set es \<and> age_of now st = Some a}"
    using Cons.prems(3) by (auto simp: S'_def e)
  ultimately show ?case using Cons.IH by simp
qed

lemma min_age_for_thing_spec:
  "min_age_for_thing now r thing
     = (if ages now r thing = {} then None else Some (Min (ages now r thing)))"
  unfolding min_age_for_thing_def
  by (rule min_age_loop [where S = "{}"]) (auto simp: ages_def)

lemma max_age_loop_spec:
  "max_age_loop now r ts acc =
     (if \<exists>t \<in> set ts. ages now r t = {} then None
      else Some (Max (insert acc ((\<lambda>t. Min (ages now r t)) ` set ts))))"
proof (induction ts arbitrary: acc)
  case (Cons t ts)
  have "Max (insert (max acc m) X) = Max (insert acc (insert m X))" if "finite X" for m and X :: "u64 set"
  proof (cases "X = {}")
    case False
    with that show ?thesis by (simp add: max.assoc)
  qed simp
  with Cons show ?case by (auto simp: min_age_for_thing_spec)
qed simp

lemma dashboard_freshness_spec:
  "dashboard_freshness d r now =
     (if \<exists>t \<in> set (dashboard_depends_on d). ages now r t = {} then None
      else Some (Max (insert 0 ((\<lambda>t. Min (ages now r t)) ` set (dashboard_depends_on d)))))"
  by (auto simp: dashboard_freshness_def max_age_loop_spec)

section \<open>Metrics read percentages at most 100\<close>

lemma metric_percent_eq:
  "0 < cap \<Longrightarrow> unat (metric_percent used cap) = unat (used_percent used cap)"
proof -
  assume "0 < cap"
  let ?w = "(ucast (min used cap) * 100 :: u128) div (ucast cap :: u128)"
  have "unat (used_percent used cap) = unat ?w mod 2 ^ 8"
    by (simp add: used_percent_def unat_ucast_mod)
  moreover have "unat (metric_percent used cap) = unat ?w mod 2 ^ 64"
    by (simp add: metric_percent_def unat_ucast_mod)
  moreover have "unat ?w \<le> 100"
  proof -
    have c: "0 < unat cap" using \<open>0 < cap\<close> by (simp add: word_less_nat_alt)
    have m: "unat (ucast (min used cap) :: u128) = min (unat used) (unat cap)"
      by (simp add: unat_ucast_up unat_min)
    have cap: "unat (ucast cap :: u128) = unat cap" by (simp add: unat_ucast_up)
    have "min (unat used) (unat cap) * 100 < 2 ^ 128" using unat_lt [of cap] by simp
    then have "unat (ucast (min used cap) * 100 :: u128) = min (unat used) (unat cap) * 100"
      by (simp add: unat_word_ariths(2) m)
    then have "unat ?w = min (unat used) (unat cap) * 100 div unat cap"
      by (simp only: unat_div cap)
    with c show ?thesis
      by (metis div_le_mono min.cobounded2 mult_le_mono1 nonzero_mult_div_cancel_left less_not_refl3)
  qed
  ultimately show ?thesis by simp
qed

section \<open>Alerts are edge-triggered\<close>

definition is_firing :: "sl1_alert_state \<Rightarrow> bool" where
  "is_firing a \<longleftrightarrow> a \<noteq> AlertInactive"

definition alert_holds :: "sl1_alert \<Rightarrow> sl1_metric_state \<Rightarrow> bool" where
  "alert_holds a ms \<longleftrightarrow>
     (case ms of MetricOk v \<Rightarrow> alert_fires (alert_predicate a) v | MetricNoData \<Rightarrow> False)"

text \<open>The events of one alert on one tick: exactly the edge of its predicate.\<close>

definition alert_edge ::
  "u64 \<Rightarrow> sl1_alert \<Rightarrow> sl1_metric_state \<Rightarrow> sl1_alert_state \<Rightarrow> sim_event list" where
  "alert_edge now a ms prev =
     (if alert_holds a ms \<and> \<not> is_firing prev then
        [Sl1AlertFired (alert_id a) (alert_metric a) (metric_value ms)
           (severity_str (alert_severity a)) (alert_summary (alert_predicate a)) now]
      else if \<not> alert_holds a ms \<and> is_firing prev then
        [Sl1AlertCleared (alert_id a) (alert_metric a) now]
      else [])"

lemma update_alert_edge:
  assumes "bt_get (metric_states (rt s)) (alert_metric a) = Some ms"
    and "bt_get (alert_states (rt s)) (alert_id a) = Some prev"
    and "update_alert now a s = Some t"
  shows "evs t = evs s @ alert_edge now a ms prev"
    and "\<exists>st. bt_get (alert_states (rt t)) (alert_id a) = Some st
      \<and> (is_firing st \<longleftrightarrow> alert_holds a ms)
      \<and> (is_firing prev \<and> is_firing st \<longrightarrow> st = prev)"
    and "metric_states (rt t) = metric_states (rt s)"
  using assms
  by (cases ms; cases prev;
      auto simp: update_alert_def alert_edge_def is_firing_def alert_holds_def next_alert_def
        split: if_splits)+

end
