(* ===== verification/Agents.thy ===== *)
theory Agents
  imports Runtime
begin

text \<open>
  \<open>crates/engine/src/sl1_agents.rs\<close>: on its cadence an agent's backend may propose an
  action; six checks run in a fixed order, and the action is applied or a typed rejection
  is emitted. A backend is a function of the agent, the scene and the tick (the trait's
  determinism requirement), so the whole step takes it as an argument; the three shipped
  backends never act.
\<close>

section \<open>Backends\<close>

type_synonym agent_backend = "sl1_agent \<Rightarrow> sl1_scene \<Rightarrow> u64 \<Rightarrow> sl1_agent_action option"

definition mock_backend :: agent_backend where "mock_backend a sc now = None"
definition builtin_backend :: agent_backend where "builtin_backend a sc now = None"
definition llm_backend :: agent_backend where "llm_backend a sc now = None"

definition default_backend :: "sl1_agent_kind \<Rightarrow> agent_backend" where
  "default_backend k =
     (case k of AMock \<Rightarrow> mock_backend | ABuiltin \<Rightarrow> builtin_backend | ALlm \<Rightarrow> llm_backend)"

definition scripted_backend :: "(u64 \<times> sl1_agent_action) list \<Rightarrow> agent_backend" where
  "scripted_backend script a sc now = map_option snd (find (\<lambda>e. fst e = now) script)"

section \<open>Checks\<close>

definition should_fire :: "sl1_agent \<Rightarrow> sl1_agent_runtime \<Rightarrow> u64 \<Rightarrow> bool option" where
  "should_fire a st now =
     (if now = 0 then Some False
      else case last_decision_tick st of
        None \<Rightarrow> do { m \<leftarrow> checked_rem now (agent_interval_ticks a); Some (m = 0) }
      | Some prev \<Rightarrow> Some (sat_add prev (agent_interval_ticks a) \<le> now))"

fun action_target_id :: "sl1_agent_action \<Rightarrow> string option" where
  "action_target_id (ThrottleDemand d _) = Some d"

definition validate_target_exists ::
  "sl1_scene \<Rightarrow> sl1_agent_action_kind \<Rightarrow> string option \<Rightarrow> sl1_agent_rejection_reason option" where
  "validate_target_exists sc k target =
     (case k of
        ThrottleDemandKind \<Rightarrow>
          (case target of
             None \<Rightarrow> Some ActionTargetUnknown
           | Some tid \<Rightarrow>
               if \<exists>d \<in> set (sc_demand sc). demand_id d = tid then None
               else Some ActionTargetUnknown)
      | _ \<Rightarrow> Some EffectUnsupportedInThisPr)"

definition target_in_scope :: "sl1_agent \<Rightarrow> sl1_agent_action_kind \<Rightarrow> string \<Rightarrow> bool" where
  "target_in_scope a k tid =
     (case k of
        ThrottleDemandKind \<Rightarrow> (\<exists>t \<in> set (agent_observation_scope a).
          obs_kind_str t = ''demand'' \<and> (case t of ObsDemand i \<Rightarrow> i = tid | _ \<Rightarrow> False))
      | _ \<Rightarrow> True)"

fun validate_parameters :: "sl1_agent_action \<Rightarrow> sl1_agent_rejection_reason option" where
  "validate_parameters (ThrottleDemand _ pause) =
     (if pause = 0 \<or> SL1_AGENT_MAX_COOLDOWN_TICKS < pause then Some InvalidActionParameter else None)"

text \<open>The six checks in the order the code makes them; the first that fails is the reason.\<close>

definition cooldown_check ::
  "sl1_agent_runtime \<Rightarrow> u64 \<Rightarrow> sl1_agent_rejection_reason option" where
  "cooldown_check st now =
     (case cooldown_until_tick st of
        Some until \<Rightarrow> if now < until then Some Cooldown else None | None \<Rightarrow> None)"

definition first_rejection ::
  "sl1_scene \<Rightarrow> sl1_agent \<Rightarrow> sl1_agent_runtime \<Rightarrow> u64 \<Rightarrow> sl1_agent_action
    \<Rightarrow> sl1_agent_rejection_reason option" where
  "first_rejection sc a st now act =
     (let k = agent_action_kind act; target = action_target_id act in
      case cooldown_check st now of Some reason \<Rightarrow> Some reason | None \<Rightarrow>
      if k \<notin> set (agent_allowed_actions a) then Some ActionNotAllowed else
      case validate_target_exists sc k target of Some reason \<Rightarrow> Some reason | None \<Rightarrow>
      if (case target of Some tid \<Rightarrow> \<not> target_in_scope a k tid | None \<Rightarrow> False)
      then Some ActionTargetOutOfScope else
      if agent_max_cost_per_decision a < agent_action_cost act then Some CostExceedsBudget else
      validate_parameters act)"

section \<open>Effects\<close>

definition upd_agent :: "string \<Rightarrow> (sl1_agent_runtime \<Rightarrow> sl1_agent_runtime) \<Rightarrow> sl1_runtime \<Rightarrow> sl1_runtime"
  where "upd_agent i f r = r\<lparr>agents := bt_modify i f (agents r)\<rparr>"

definition update_decision_clock :: "string \<Rightarrow> u64 \<Rightarrow> sl1_runtime \<Rightarrow> sl1_runtime" where
  "update_decision_clock i now = upd_agent i (\<lambda>st. st\<lparr>last_decision_tick := Some now\<rparr>)"

fun apply_action :: "sl1_agent_action \<Rightarrow> u64 \<Rightarrow> sl1_runtime \<Rightarrow> sl1_runtime" where
  "apply_action (ThrottleDemand d pause) now r =
     r\<lparr>agent_demand_pauses :=
        bt_upsert d 0 (\<lambda>e. max e (sat_add (sat_add now 1) pause)) (agent_demand_pauses r)\<rparr>"

definition start_cooldown :: "sl1_agent \<Rightarrow> u64 \<Rightarrow> sl1_runtime \<Rightarrow> sl1_runtime" where
  "start_cooldown a now = upd_agent (agent_id a) (\<lambda>st.
     if 0 < agent_cooldown_ticks a
     then st\<lparr>cooldown_until_tick := Some (sat_add now (agent_cooldown_ticks a))\<rparr> else st)"

definition rejected_event ::
  "sl1_agent \<Rightarrow> sl1_agent_action \<Rightarrow> sl1_agent_rejection_reason \<Rightarrow> u64 \<Rightarrow> sim_event" where
  "rejected_event a act reason now =
     Sl1AgentActionRejected (agent_id a) (action_kind_str (agent_action_kind act))
       (action_target_id act) (rejection_str reason) now"

definition applied_event :: "sl1_agent \<Rightarrow> sl1_agent_action \<Rightarrow> u64 \<Rightarrow> sim_event" where
  "applied_event a act now =
     Sl1AgentActionApplied (agent_id a) (action_kind_str (agent_action_kind act))
       (case action_target_id act of Some t \<Rightarrow> t | None \<Rightarrow> []) (agent_action_cost act) now"

section \<open>One agent, all agents\<close>

definition decide_llm :: "sl1_agent \<Rightarrow> sl1_agent_runtime \<Rightarrow> u64 \<Rightarrow> sl1_st \<Rightarrow> sl1_st" where
  "decide_llm a st now s =
     (let s1 = with_rt (update_decision_clock (agent_id a) now) s;
          s2 = (if llm_disabled_emitted st then s1
                else push_event (Sl1AgentLlmDisabled (agent_id a) now) s1)
      in with_rt (upd_agent (agent_id a) (\<lambda>st. st\<lparr>llm_disabled_emitted := True\<rparr>)) s2)"

definition decide_act ::
  "agent_backend \<Rightarrow> sl1_scene \<Rightarrow> sl1_agent \<Rightarrow> sl1_agent_runtime \<Rightarrow> u64 \<Rightarrow> sl1_st \<Rightarrow> sl1_st" where
  "decide_act backend sc a st now s =
     (let proposed = backend a sc now;
          s1 = with_rt (update_decision_clock (agent_id a) now) s
      in case proposed of
           None \<Rightarrow> s1
         | Some act \<Rightarrow>
             (case first_rejection sc a st now act of
                Some reason \<Rightarrow> push_event (rejected_event a act reason now) s1
              | None \<Rightarrow> push_event (applied_event a act now)
                  (with_rt (start_cooldown a now) (with_rt (apply_action act now) s1))))"

definition decide_one ::
  "agent_backend \<Rightarrow> sl1_scene \<Rightarrow> u64 \<Rightarrow> sl1_agent \<Rightarrow> sl1_st \<Rightarrow> sl1_st option" where
  "decide_one backend sc now a s =
     (case bt_get (agents (rt s)) (agent_id a) of
        None \<Rightarrow> Some s
      | Some st \<Rightarrow> do {
          fires \<leftarrow> should_fire a st now;
          Some (if \<not> fires then s
                else if agent_kind a = ALlm then decide_llm a st now s
                else decide_act backend sc a st now s) })"

definition run_with_factory ::
  "(sl1_agent_kind \<Rightarrow> agent_backend) \<Rightarrow> sl1_scene \<Rightarrow> u64 \<Rightarrow> sl1_st \<Rightarrow> sl1_st option" where
  "run_with_factory factory sc now s =
     fold_opt (\<lambda>a. decide_one (factory (agent_kind a)) sc now a) (sc_agents sc) s"

definition agents_run :: "sl1_scene \<Rightarrow> u64 \<Rightarrow> sl1_st \<Rightarrow> sl1_st option" where
  "agents_run sc now s = run_with_factory default_backend sc now s"

section \<open>Frames and totality\<close>

text \<open>Only the agents' clocks and the demand pauses change; pauses only grow.\<close>

definition agents_step :: "sl1_st \<Rightarrow> sl1_st \<Rightarrow> bool" where
  "agents_step s t \<longleftrightarrow> grows s t \<and> msgs t = msgs s
     \<and> rt t = (rt s)\<lparr>agents := agents (rt t), agent_demand_pauses := agent_demand_pauses (rt t)\<rparr>
     \<and> (\<forall>k. bt_get_or 0 (agent_demand_pauses (rt s)) k \<le> bt_get_or 0 (agent_demand_pauses (rt t)) k)"

lemma agents_step_refl: "agents_step s s"
  by (simp add: agents_step_def grows_refl)

lemma agents_step_trans:
  assumes "agents_step s t" and "agents_step t u"
  shows "agents_step s u"
proof -
  have "rt u = (rt s)\<lparr>agents := agents (rt u), agent_demand_pauses := agent_demand_pauses (rt u)\<rparr>"
  proof -
    have "rt u = (rt t)\<lparr>agents := agents (rt u), agent_demand_pauses := agent_demand_pauses (rt u)\<rparr>"
      using assms(2) by (simp add: agents_step_def)
    also have "rt t = (rt s)\<lparr>agents := agents (rt t),
        agent_demand_pauses := agent_demand_pauses (rt t)\<rparr>"
      using assms(1) by (simp add: agents_step_def)
    finally show ?thesis by simp
  qed
  with assms show ?thesis
    unfolding agents_step_def by (auto intro: grows_trans order_trans)
qed

lemma decide_llm_step: "agents_step s (decide_llm a st now s)"
  by (auto simp: agents_step_def decide_llm_def Let_def update_decision_clock_def upd_agent_def
      intro!: mono_append)

lemma apply_action_pauses:
  "bt_get_or 0 (agent_demand_pauses r) k \<le> bt_get_or 0 (agent_demand_pauses (apply_action act now r)) k"
  by (cases act) auto

lemma decide_act_step: "agents_step s (decide_act backend sc a st now s)"
proof -
  have eq: "apply_action act now r = r\<lparr>agent_demand_pauses :=
      agent_demand_pauses (apply_action act now r)\<rparr>" for act and r :: sl1_runtime
    by (cases act) simp
  have "apply_action act now (upd_agent i f r) = (upd_agent i f r)\<lparr>agent_demand_pauses :=
      agent_demand_pauses (apply_action act now r)\<rparr>" for act i f and r :: sl1_runtime
    by (cases act) (simp add: upd_agent_def)
  then show ?thesis
    using apply_action_pauses
    by (auto simp: agents_step_def decide_act_def Let_def update_decision_clock_def
        start_cooldown_def upd_agent_def intro!: mono_append split: option.splits)
qed

lemma decide_one_step: "decide_one backend sc now a s = Some t \<Longrightarrow> agents_step s t"
  by (auto simp: decide_one_def agents_step_refl decide_llm_step decide_act_step
      split: option.splits Option.bind_splits if_splits)

lemma run_with_factory_step: "run_with_factory factory sc now s = Some t \<Longrightarrow> agents_step s t"
  unfolding run_with_factory_def
  by (erule fold_opt_rel [OF _ agents_step_refl agents_step_trans]) (auto intro: decide_one_step)

lemma should_fire_returns: "0 < agent_interval_ticks a \<Longrightarrow> \<exists>b. should_fire a st now = Some b"
  by (auto simp: should_fire_def checked_rem_def split: option.splits)

lemma decide_one_returns:
  assumes "0 < agent_interval_ticks a"
  shows "\<exists>t. decide_one backend sc now a s = Some t"
proof (cases "bt_get (agents (rt s)) (agent_id a)")
  case (Some st)
  obtain b where "should_fire a st now = Some b" using should_fire_returns [OF assms] by blast
  with Some show ?thesis by (simp add: decide_one_def)
qed (simp add: decide_one_def)

lemma run_with_factory_returns:
  assumes "\<And>a. a \<in> set (sc_agents sc) \<Longrightarrow> 0 < agent_interval_ticks a"
  shows "\<exists>t. run_with_factory factory sc now s = Some t"
proof -
  have "\<exists>t. run_with_factory factory sc now s = Some t \<and> True"
    unfolding run_with_factory_def
    by (rule fold_opt_total) (use decide_one_returns assms in auto)
  then show ?thesis by blast
qed

lemma agents_step_rt:
  assumes "agents_step s t"
  shows "rt t = (rt s)\<lparr>agents := agents (rt t), agent_demand_pauses := agent_demand_pauses (rt t)\<rparr>"
  using assms by (simp add: agents_step_def)

lemma agents_step_frame [frame_simps]:
  assumes "agents_step s t"
  shows "inventories (rt t) = inventories (rt s)" "freshness (rt t) = freshness (rt s)"
    "transforms (rt t) = transforms (rt s)"
    "place_capacity_used (rt t) = place_capacity_used (rt s)"
    "pending_outputs (rt t) = pending_outputs (rt s)" "demand (rt t) = demand (rt s)"
    "pressure (rt t) = pressure (rt s)" "objectives (rt t) = objectives (rt s)"
    "failure_conditions (rt t) = failure_conditions (rt s)"
    "victory_conditions (rt t) = victory_conditions (rt s)"
    "outcome (rt t) = outcome (rt s)" "phase (rt t) = phase (rt s)"
    "metric_states (rt t) = metric_states (rt s)"
    "dashboard_states (rt t) = dashboard_states (rt s)"
    "alert_states (rt t) = alert_states (rt s)" "milestones (rt t) = milestones (rt s)"
    "msgs t = msgs s"
  by (subst agents_step_rt [OF assms], simp)+ (use assms in \<open>simp add: agents_step_def\<close>)

lemma agents_step_shape: "agents_step s t \<Longrightarrow> rt_shape sc (rt s) \<Longrightarrow> rt_shape sc (rt t)"
  by (erule rt_shape_mono) (simp_all add: agents_step_frame)

text \<open>The contract holds for every factory of backends, so in particular for the shipped one.\<close>

interpretation agents_factory: sl1_system "run_with_factory factory" "\<lambda>_ _ _. True"
  for factory
proof unfold_locales
  fix sc s now and t :: sl1_st
  show "scene_ok sc \<Longrightarrow> \<exists>t. run_with_factory factory sc now s = Some t"
    using run_with_factory_returns scene_okD(14) by blast
  show "run_with_factory factory sc now s = Some t \<Longrightarrow> grows s t"
    using run_with_factory_step by (auto simp: agents_step_def)
  show "run_with_factory factory sc now s = Some t \<Longrightarrow> rt_shape sc (rt s) \<Longrightarrow> rt_shape sc (rt t)"
    using run_with_factory_step agents_step_shape by blast
qed

section \<open>What a decision does\<close>

text \<open>
  An action takes effect exactly when every check passes; otherwise the runtime moves by
  the decision clock alone and one rejection names the first failed check.
\<close>

lemma first_rejection_None:
  "first_rejection sc a st now (ThrottleDemand d pause) = None \<longleftrightarrow>
     (\<forall>until. cooldown_until_tick st = Some until \<longrightarrow> until \<le> now)
     \<and> ThrottleDemandKind \<in> set (agent_allowed_actions a)
     \<and> d \<in> demand_id ` set (sc_demand sc)
     \<and> ObsDemand d \<in> set (agent_observation_scope a)
     \<and> 1 \<le> agent_max_cost_per_decision a
     \<and> 0 < pause \<and> pause \<le> SL1_AGENT_MAX_COOLDOWN_TICKS"
proof -
  let ?act = "ThrottleDemand d pause"
  have cool: "cooldown_check st now = None
      \<longleftrightarrow> (\<forall>until. cooldown_until_tick st = Some until \<longrightarrow> until \<le> now)"
    by (cases "cooldown_until_tick st") (auto simp: cooldown_check_def not_less not_le)
  have target: "validate_target_exists sc ThrottleDemandKind (Some d) = None
      \<longleftrightarrow> d \<in> demand_id ` set (sc_demand sc)"
    by (auto simp: validate_target_exists_def)
  have "obs_kind_str t = ''demand'' \<and> (case t of ObsDemand i \<Rightarrow> i = d | _ \<Rightarrow> False) \<longleftrightarrow> t = ObsDemand d"
    for t by (cases t) auto
  then have scope: "target_in_scope a ThrottleDemandKind d \<longleftrightarrow> ObsDemand d \<in> set (agent_observation_scope a)"
    by (simp add: target_in_scope_def)
  have par: "validate_parameters ?act = None \<longleftrightarrow> 0 < pause \<and> pause \<le> SL1_AGENT_MAX_COOLDOWN_TICKS"
    by (auto simp: word_gt_0 not_less not_le)
  have cost: "(agent_max_cost_per_decision a < agent_action_cost ?act) \<longleftrightarrow> \<not> 1 \<le> agent_max_cost_per_decision a"
    by (simp add: not_le)
  have "first_rejection sc a st now ?act = None \<longleftrightarrow>
      cooldown_check st now = None \<and> ThrottleDemandKind \<in> set (agent_allowed_actions a)
      \<and> validate_target_exists sc ThrottleDemandKind (Some d) = None
      \<and> target_in_scope a ThrottleDemandKind d
      \<and> \<not> (agent_max_cost_per_decision a < agent_action_cost ?act)
      \<and> validate_parameters ?act = None"
    by (simp add: first_rejection_def Let_def del: validate_parameters.simps agent_action_cost.simps
        split: option.split)
  then show ?thesis unfolding cool target scope par cost by simp
qed

lemma decide_act_rejected:
  assumes "backend a sc now = Some act" and "first_rejection sc a st now act = Some reason"
  shows "decide_act backend sc a st now s
    = push_event (rejected_event a act reason now)
        (with_rt (update_decision_clock (agent_id a) now) s)"
  by (simp add: decide_act_def Let_def assms)

lemma decide_act_applied:
  assumes "backend a sc now = Some (ThrottleDemand d pause)"
    and "first_rejection sc a st now (ThrottleDemand d pause) = None"
  shows "bt_get_or 0 (agent_demand_pauses (rt (decide_act backend sc a st now s))) d
      = max (bt_get_or 0 (agent_demand_pauses (rt s)) d) (sat_add (sat_add now 1) pause)"
    and "evs (decide_act backend sc a st now s)
      = evs s @ [applied_event a (ThrottleDemand d pause) now]"
    and "k \<noteq> d \<Longrightarrow> bt_get (agent_demand_pauses (rt (decide_act backend sc a st now s))) k
      = bt_get (agent_demand_pauses (rt s)) k"
  by (simp_all add: decide_act_def Let_def assms start_cooldown_def update_decision_clock_def
      upd_agent_def)

text \<open>The shipped backends never act: nothing but the clocks and the one-shot event.\<close>

lemma default_backend_None: "default_backend k a sc now = None"
  by (cases k) (simp_all add: default_backend_def mock_backend_def builtin_backend_def llm_backend_def)

definition llm_events :: "sl1_scene \<Rightarrow> u64 \<Rightarrow> sim_event list \<Rightarrow> bool" where
  "llm_events sc now es \<longleftrightarrow> (\<forall>e \<in> set es. \<exists>a \<in> set (sc_agents sc).
     agent_kind a = ALlm \<and> e = Sl1AgentLlmDisabled (agent_id a) now)"

lemma decide_one_default:
  assumes "decide_one (default_backend (agent_kind a)) sc now a s = Some t"
    and "a \<in> set (sc_agents sc)"
  shows "agent_demand_pauses (rt t) = agent_demand_pauses (rt s)"
    and "\<exists>es. evs t = evs s @ es \<and> llm_events sc now es"
  using assms
  by (auto simp: decide_one_def decide_act_def decide_llm_def default_backend_None Let_def
      update_decision_clock_def upd_agent_def llm_events_def
      split: option.splits Option.bind_splits if_splits)

lemma agents_run_default:
  assumes "agents_run sc now s = Some t"
  shows "agent_demand_pauses (rt t) = agent_demand_pauses (rt s)"
    and "\<exists>es. evs t = evs s @ es \<and> llm_events sc now es"
proof -
  have "agent_demand_pauses (rt t) = agent_demand_pauses (rt s)
      \<and> (\<exists>es. evs t = evs s @ es \<and> llm_events sc now es)"
    using assms unfolding agents_run_def run_with_factory_def
  proof (rule fold_opt_inv)
    fix a and u v :: sl1_st
    assume a: "a \<in> set (sc_agents sc)"
      and u: "agent_demand_pauses (rt u) = agent_demand_pauses (rt s)
        \<and> (\<exists>es. evs u = evs s @ es \<and> llm_events sc now es)"
      and step: "decide_one (default_backend (agent_kind a)) sc now a u = Some v"
    from u obtain es where es: "evs u = evs s @ es" "llm_events sc now es" by blast
    obtain es' where es': "evs v = evs u @ es'" "llm_events sc now es'"
      using decide_one_default(2) [OF step a] by blast
    have "evs v = evs s @ (es @ es')" "llm_events sc now (es @ es')"
      using es es' by (auto simp: llm_events_def)
    with u decide_one_default(1) [OF step a]
    show "agent_demand_pauses (rt v) = agent_demand_pauses (rt s)
        \<and> (\<exists>es. evs v = evs s @ es \<and> llm_events sc now es)" by metis
  qed (simp add: llm_events_def)
  then show "agent_demand_pauses (rt t) = agent_demand_pauses (rt s)"
    and "\<exists>es. evs t = evs s @ es \<and> llm_events sc now es" by auto
qed

text \<open>The one-shot latch of a disabled live agent.\<close>

lemma decide_llm_once:
  assumes "bt_get (agents (rt s)) (agent_id a) = Some st"
  shows "evs (decide_llm a st now s)
      = evs s @ (if llm_disabled_emitted st then [] else [Sl1AgentLlmDisabled (agent_id a) now])"
    and "\<exists>st'. bt_get (agents (rt (decide_llm a st now s))) (agent_id a) = Some st'
      \<and> llm_disabled_emitted st' \<and> last_decision_tick st' = Some now"
  using assms
  by (auto simp: decide_llm_def Let_def update_decision_clock_def upd_agent_def)

end
