(* ===== verification/Milestones.thy ===== *)
theory Milestones
  imports Runtime
begin

text \<open>
  \<open>crates/engine/src/sl1_milestones.rs\<close>: one-shot story beats over the state every other
  system has left. A milestone fires at most once, and one that waits for a pressure to
  end is armed first by seeing the pressure active.
\<close>

section \<open>The code\<close>

fun trigger_kind_str :: "sl1_milestone_trigger \<Rightarrow> string" where
  "trigger_kind_str (PressureActivated _) = ''pressure_activated''"
| "trigger_kind_str (PressureDeactivated _) = ''pressure_deactivated''"
| "trigger_kind_str (MetricThreshold _ _ _) = ''metric_threshold''"
| "trigger_kind_str (DashboardStateTrigger _ _) = ''dashboard_state''"

definition dashboard_matches :: "sl1_milestone_dashboard_state \<Rightarrow> sl1_dashboard_state \<Rightarrow> bool" where
  "dashboard_matches target ds =
     (case target of
        MDashOk \<Rightarrow> (case ds of DashOk \<Rightarrow> True | _ \<Rightarrow> False)
      | MDashStale \<Rightarrow> (case ds of DashStale _ \<Rightarrow> True | _ \<Rightarrow> False)
      | MDashNoData \<Rightarrow> (case ds of DashNoData \<Rightarrow> True | _ \<Rightarrow> False))"

definition I64_MAX :: int where "I64_MAX = 9223372036854775807"

text \<open>An observed \<open>u64\<close> above \<open>i64::MAX\<close> is decided by the sign of the comparison.\<close>

definition threshold_satisfied :: "sl1_milestone_predicate \<Rightarrow> u64 \<Rightarrow> i64 \<Rightarrow> bool" where
  "threshold_satisfied p observed target =
     (if I64_MAX < uint observed then p = MGte \<or> p = MGt
      else milestone_evaluate p (uint observed) target)"

definition trigger_satisfied :: "sl1_milestone_trigger \<Rightarrow> sl1_runtime \<Rightarrow> bool" where
  "trigger_satisfied t r =
     (case t of
        PressureActivated p \<Rightarrow> bt_has (pr_active (pressure r)) p
      | PressureDeactivated p \<Rightarrow> \<not> bt_has (pr_active (pressure r)) p
      | MetricThreshold m p v \<Rightarrow>
          (case bt_get (metric_states r) m of
             Some (MetricOk observed) \<Rightarrow> threshold_satisfied p observed v
           | _ \<Rightarrow> False)
      | DashboardStateTrigger d target \<Rightarrow>
          (case bt_get (dashboard_states r) d of
             Some st \<Rightarrow> dashboard_matches target st | None \<Rightarrow> False))"

definition set_milestone :: "string \<Rightarrow> sl1_milestone_runtime \<Rightarrow> sl1_runtime \<Rightarrow> sl1_runtime" where
  "set_milestone i m r = r\<lparr>milestones := bt_insert i m (milestones r)\<rparr>"

definition fired_event :: "u64 \<Rightarrow> sl1_milestone \<Rightarrow> sim_event" where
  "fired_event now m = Sl1MilestoneFired (milestone_id m) (milestone_label m)
     (trigger_kind_str (milestone_trigger m)) (milestone_camera_focus m)
     (milestone_highlight m) now"

definition fire_if_satisfied ::
  "u64 \<Rightarrow> sl1_milestone \<Rightarrow> sl1_milestone_runtime \<Rightarrow> sl1_st \<Rightarrow> sl1_st" where
  "fire_if_satisfied now m entry s =
     (if \<not> trigger_satisfied (milestone_trigger m) (rt s) then s
      else push_event (fired_event now m)
        (with_rt (set_milestone (milestone_id m) (entry\<lparr>ms_fired_at_tick := Some now\<rparr>)) s))"

definition milestone_one :: "u64 \<Rightarrow> sl1_milestone \<Rightarrow> sl1_st \<Rightarrow> sl1_st option" where
  "milestone_one now m s =
     (case bt_get (milestones (rt s)) (milestone_id m) of
        None \<Rightarrow> None
      | Some entry \<Rightarrow> Some (
          if ms_fired_at_tick entry \<noteq> None then s
          else case milestone_trigger m of
            PressureDeactivated p \<Rightarrow>
              if \<not> ms_armed entry \<and> bt_has (pr_active (pressure (rt s))) p
              then with_rt (set_milestone (milestone_id m) (entry\<lparr>ms_armed := True\<rparr>)) s
              else if \<not> ms_armed entry then s
              else fire_if_satisfied now m entry s
          | _ \<Rightarrow> fire_if_satisfied now m entry s))"

definition milestones_run :: "sl1_scene \<Rightarrow> u64 \<Rightarrow> sl1_st \<Rightarrow> sl1_st option" where
  "milestones_run sc now s = fold_opt (milestone_one now) (sc_milestones sc) s"

section \<open>Frames and totality\<close>

definition milestones_step :: "sl1_st \<Rightarrow> sl1_st \<Rightarrow> bool" where
  "milestones_step s t \<longleftrightarrow> grows s t \<and> msgs t = msgs s
     \<and> rt t = (rt s)\<lparr>milestones := milestones (rt t)\<rparr>
     \<and> (\<forall>k. bt_has (milestones (rt s)) k \<longrightarrow> bt_has (milestones (rt t)) k)
     \<and> (\<forall>k e. bt_get (milestones (rt s)) k = Some e \<longrightarrow> ms_fired_at_tick e \<noteq> None \<longrightarrow>
          bt_get (milestones (rt t)) k = Some e)"

lemma milestones_step_refl: "milestones_step s s"
  by (simp add: milestones_step_def grows_refl)

lemma milestones_step_trans:
  assumes "milestones_step s t" and "milestones_step t u"
  shows "milestones_step s u"
proof -
  have "rt u = (rt t)\<lparr>milestones := milestones (rt u)\<rparr>"
    using assms(2) by (simp add: milestones_step_def)
  also have "rt t = (rt s)\<lparr>milestones := milestones (rt t)\<rparr>"
    using assms(1) by (simp add: milestones_step_def)
  finally have "rt u = (rt s)\<lparr>milestones := milestones (rt u)\<rparr>" by simp
  with assms show ?thesis
    unfolding milestones_step_def by (auto intro: grows_trans)
qed

lemma fire_step:
  assumes "bt_get (milestones (rt s)) (milestone_id m) = Some entry" and "ms_fired_at_tick entry = None"
  shows "milestones_step s (fire_if_satisfied now m entry s)"
  using assms
  by (auto simp: fire_if_satisfied_def milestones_step_def set_milestone_def intro!: mono_append)

lemma milestone_one_step: "milestone_one now m s = Some t \<Longrightarrow> milestones_step s t"
  by (auto simp: milestone_one_def milestones_step_refl intro: fire_step
      split: option.splits sl1_milestone_trigger.splits if_splits)
    (auto simp: milestones_step_def set_milestone_def intro!: mono_append)

lemma milestones_run_step: "milestones_run sc now s = Some t \<Longrightarrow> milestones_step s t"
  unfolding milestones_run_def
  by (erule fold_opt_rel [OF _ milestones_step_refl milestones_step_trans])
    (auto intro: milestone_one_step)

lemma milestones_step_rt: "milestones_step s t \<Longrightarrow> rt t = (rt s)\<lparr>milestones := milestones (rt t)\<rparr>"
  by (simp add: milestones_step_def)

lemma milestones_step_frame [frame_simps]:
  assumes "milestones_step s t"
  shows "inventories (rt t) = inventories (rt s)" "freshness (rt t) = freshness (rt s)"
    "transforms (rt t) = transforms (rt s)"
    "place_capacity_used (rt t) = place_capacity_used (rt s)"
    "pending_outputs (rt t) = pending_outputs (rt s)" "demand (rt t) = demand (rt s)"
    "pressure (rt t) = pressure (rt s)" "objectives (rt t) = objectives (rt s)"
    "failure_conditions (rt t) = failure_conditions (rt s)"
    "victory_conditions (rt t) = victory_conditions (rt s)"
    "outcome (rt t) = outcome (rt s)" "phase (rt t) = phase (rt s)"
    "metric_states (rt t) = metric_states (rt s)"
    "dashboard_states (rt t) = dashboard_states (rt s)"
    "alert_states (rt t) = alert_states (rt s)" "agents (rt t) = agents (rt s)"
    "agent_demand_pauses (rt t) = agent_demand_pauses (rt s)" "msgs t = msgs s"
  by (subst milestones_step_rt [OF assms], simp)+ (use assms in \<open>simp add: milestones_step_def\<close>)

lemma milestones_step_shape: "milestones_step s t \<Longrightarrow> rt_shape sc (rt s) \<Longrightarrow> rt_shape sc (rt t)"
  by (erule rt_shape_mono) (simp_all add: milestones_step_frame, simp add: milestones_step_def)

lemma milestones_run_returns:
  assumes "rt_shape sc (rt s)"
  shows "\<exists>t. milestones_run sc now s = Some t"
proof -
  have "\<exists>t. milestones_run sc now s = Some t \<and> rt_shape sc (rt t)"
    unfolding milestones_run_def
  proof (rule fold_opt_total)
    fix m and u :: sl1_st
    assume "m \<in> set (sc_milestones sc)" and sh: "rt_shape sc (rt u)"
    then have "bt_has (milestones (rt u)) (milestone_id m)" by (simp add: rt_shape_def)
    then obtain v where v: "milestone_one now m u = Some v"
      by (auto simp: milestone_one_def bt_has_Some)
    with milestones_step_shape [OF milestone_one_step [OF v] sh]
    show "\<exists>v. milestone_one now m u = Some v \<and> rt_shape sc (rt v)" by blast
  qed (rule assms)
  then show ?thesis by blast
qed

interpretation milestones: sl1_system milestones_run "\<lambda>_ _ _. True"
proof unfold_locales
  fix sc s now and t :: sl1_st
  show "rt_shape sc (rt s) \<Longrightarrow> \<exists>t. milestones_run sc now s = Some t"
    by (rule milestones_run_returns)
  show "milestones_run sc now s = Some t \<Longrightarrow> grows s t"
    using milestones_run_step by (auto simp: milestones_step_def)
  show "milestones_run sc now s = Some t \<Longrightarrow> rt_shape sc (rt s) \<Longrightarrow> rt_shape sc (rt t)"
    using milestones_run_step milestones_step_shape by blast
qed

section \<open>Thresholds compare the true values\<close>

text \<open>
  The case split on \<open>i64::MAX\<close> makes the comparison of a \<open>u64\<close> with an \<open>i64\<close> that of the
  integers they stand for.
\<close>

lemma threshold_satisfied_exact:
  assumes "target \<le> I64_MAX"
  shows "threshold_satisfied p observed target = milestone_evaluate p (uint observed) target"
  using assms by (cases p) (auto simp: threshold_satisfied_def)

section \<open>One milestone, one tick\<close>

definition milestone_next ::
  "u64 \<Rightarrow> sl1_milestone \<Rightarrow> sl1_runtime \<Rightarrow> sl1_milestone_runtime
    \<Rightarrow> sl1_milestone_runtime \<times> sim_event list" where
  "milestone_next now m r entry =
     (if ms_fired_at_tick entry \<noteq> None then (entry, [])
      else case milestone_trigger m of
        PressureDeactivated p \<Rightarrow>
          if ms_armed entry \<and> \<not> bt_has (pr_active (pressure r)) p
          then (entry\<lparr>ms_fired_at_tick := Some now\<rparr>, [fired_event now m])
          else (entry\<lparr>ms_armed := ms_armed entry \<or> bt_has (pr_active (pressure r)) p\<rparr>, [])
      | t \<Rightarrow> if trigger_satisfied t r
             then (entry\<lparr>ms_fired_at_tick := Some now\<rparr>, [fired_event now m]) else (entry, []))"

lemma milestone_one_next:
  assumes "bt_get (milestones (rt s)) (milestone_id m) = Some entry"
    and "milestone_one now m s = Some t"
  shows "bt_get (milestones (rt t)) (milestone_id m) = Some (fst (milestone_next now m (rt s) entry))"
    and "evs t = evs s @ snd (milestone_next now m (rt s) entry)"
    and "k \<noteq> milestone_id m \<Longrightarrow> bt_get (milestones (rt t)) k = bt_get (milestones (rt s)) k"
  using assms
  by (cases "milestone_trigger m";
      auto simp: milestone_one_def milestone_next_def fire_if_satisfied_def trigger_satisfied_def
        set_milestone_def split: if_splits)+

lemma milestone_next_frame:
  "pressure r' = pressure r \<Longrightarrow> metric_states r' = metric_states r \<Longrightarrow>
   dashboard_states r' = dashboard_states r \<Longrightarrow> milestone_next now m r' entry = milestone_next now m r entry"
  by (simp add: milestone_next_def trigger_satisfied_def split: sl1_milestone_trigger.splits)

lemma milestones_run_at:
  assumes "milestones_run sc now s = Some t" and "distinct (map milestone_id (sc_milestones sc))"
    and "m \<in> set (sc_milestones sc)" and "bt_get (milestones (rt s)) (milestone_id m) = Some entry"
  shows "bt_get (milestones (rt t)) (milestone_id m) = Some (fst (milestone_next now m (rt s) entry))"
    (is "?R t")
proof -
  let ?P = "\<lambda>u. milestones_step s u \<and> bt_get (milestones (rt u)) (milestone_id m) = Some entry"
  have get: "\<exists>e. bt_get (milestones (rt u)) (milestone_id m') = Some e"
    if "milestone_one now m' u = Some v" for m' u v
    using that by (auto simp: milestone_one_def split: option.splits)
  show ?thesis
    using assms(1) [unfolded milestones_run_def] assms(2,3)
  proof (rule fold_opt_at [where P = ?P])
    show "?P s" using assms(4) by (simp add: milestones_step_refl)
    fix m' and u v :: sl1_st
    assume ne: "milestone_id m' \<noteq> milestone_id m" and step: "milestone_one now m' u = Some v"
    have same: "bt_get (milestones (rt v)) (milestone_id m) = bt_get (milestones (rt u)) (milestone_id m)"
      using milestone_one_next(3) step get [OF step] ne by metis
    show "?P u \<Longrightarrow> ?P v"
      using same milestone_one_step [OF step] by (auto intro: milestones_step_trans)
    show "?R u \<Longrightarrow> ?R v" using same by simp
  next
    fix u v :: sl1_st
    assume step: "milestone_one now m u = Some v" and P: "?P u"
    then have "milestone_next now m (rt u) entry = milestone_next now m (rt s) entry"
      by (intro milestone_next_frame) (auto simp: milestones_step_frame)
    with milestone_one_next(1) [OF _ step, of entry] P show "?R v" by simp
  qed
qed

end
