(* ===== verification/Sl1_Tick.thy ===== *)
theory Sl1_Tick
  imports Transforms Demand Observability Agents Milestones
begin

text \<open>
  \<open>sl1_runtime::run\<close> and the ticks around it: the eight systems in their order, the tick
  counter of \<open>TickRunner::tick_once\<close>, and the runtimes a scene can reach. The invariant
  \<open>sl1_inv\<close> joins those of the components; under it every tick returns and keeps it.
\<close>

section \<open>One tick\<close>

definition sl1_run :: "sl1_scene \<Rightarrow> u64 \<Rightarrow> sl1_st \<Rightarrow> sl1_st option" where
  "sl1_run sc now s =
     (let s1 = pressure_run sc now s;
          s2 = with_rt (age_freshness sc now) s1;
          s3 = (if sc_transforms sc = [] then s2 else run_transforms sc now s2)
      in do {
        s4 \<leftarrow> (if sc_demand sc = [] then Some s3 else run_demand sc now s3);
        s5 \<leftarrow> objectives_run sc now s4;
        s6 \<leftarrow> observability_run sc now s5;
        s7 \<leftarrow> (if sc_agents sc = [] then Some s6 else agents_run sc now s6);
        (if sc_milestones sc = [] then Some s7 else milestones_run sc now s7) })"

text \<open>
  The SL1 share of \<open>tick_once\<close> on a runnable world: count the tick, clear the buffers, run.
\<close>

type_synonym sl1_world = "u64 \<times> sl1_runtime"

definition fresh_st :: "sl1_runtime \<Rightarrow> sl1_st" where
  "fresh_st r = \<lparr>rt = r, evs = [], msgs = []\<rparr>"

definition sl1_tick :: "sl1_scene \<Rightarrow> sl1_world \<Rightarrow> sl1_world option" where
  "sl1_tick sc w =
     (let now = sat_add (fst w) 1
      in map_option (\<lambda>t. (now, rt t)) (sl1_run sc now (fresh_st (snd w))))"

fun sl1_ticks :: "sl1_scene \<Rightarrow> nat \<Rightarrow> sl1_world \<Rightarrow> sl1_world option" where
  "sl1_ticks sc 0 w = Some w"
| "sl1_ticks sc (Suc n) w = do { w' \<leftarrow> sl1_ticks sc n w; sl1_tick sc w' }"

definition sl1_start :: "sl1_scene \<Rightarrow> sl1_world" where
  "sl1_start sc = (0, from_scene sc)"

text \<open>The worlds a scene reaches.\<close>

inductive sl1_reach :: "sl1_scene \<Rightarrow> sl1_world \<Rightarrow> bool" for sc where
  reach_start: "sl1_reach sc (sl1_start sc)"
| reach_tick: "sl1_reach sc w \<Longrightarrow> sl1_tick sc w = Some w' \<Longrightarrow> sl1_reach sc w'"

inductive_cases sl1_reachE: "sl1_reach sc w"

lemma sl1_reach_ticks: "sl1_reach sc w \<longleftrightarrow> (\<exists>n. sl1_ticks sc n (sl1_start sc) = Some w)"
proof
  assume "sl1_reach sc w"
  then show "\<exists>n. sl1_ticks sc n (sl1_start sc) = Some w"
  proof induction
    case reach_start
    then show ?case by (intro exI [of _ 0]) simp
  next
    case (reach_tick w w')
    then obtain n where "sl1_ticks sc n (sl1_start sc) = Some w" by blast
    with reach_tick(2) show ?case by (intro exI [of _ "Suc n"]) simp
  qed
next
  assume "\<exists>n. sl1_ticks sc n (sl1_start sc) = Some w"
  then obtain n where "sl1_ticks sc n (sl1_start sc) = Some w" ..
  then show "sl1_reach sc w"
    by (induction n arbitrary: w)
      (auto intro: reach_start reach_tick split: Option.bind_splits)
qed

section \<open>The stages of a tick\<close>

lemma age_freshness_frame [simp, frame_simps]:
  "inventories (age_freshness sc now r) = inventories r"
  "transforms (age_freshness sc now r) = transforms r"
  "place_capacity_used (age_freshness sc now r) = place_capacity_used r"
  "pending_outputs (age_freshness sc now r) = pending_outputs r"
  "demand (age_freshness sc now r) = demand r"
  "pressure (age_freshness sc now r) = pressure r"
  "objectives (age_freshness sc now r) = objectives r"
  "failure_conditions (age_freshness sc now r) = failure_conditions r"
  "victory_conditions (age_freshness sc now r) = victory_conditions r"
  "outcome (age_freshness sc now r) = outcome r"
  "phase (age_freshness sc now r) = phase r"
  "metric_states (age_freshness sc now r) = metric_states r"
  "dashboard_states (age_freshness sc now r) = dashboard_states r"
  "alert_states (age_freshness sc now r) = alert_states r"
  "agents (age_freshness sc now r) = agents r"
  "agent_demand_pauses (age_freshness sc now r) = agent_demand_pauses r"
  "milestones (age_freshness sc now r) = milestones r"
  by (simp_all add: age_freshness_def)

definition aged :: "sl1_scene \<Rightarrow> u64 \<Rightarrow> sl1_st \<Rightarrow> sl1_st" where
  "aged sc now s = with_rt (age_freshness sc now) (pressure_run sc now s)"

definition transformed :: "sl1_scene \<Rightarrow> u64 \<Rightarrow> sl1_st \<Rightarrow> sl1_st" where
  "transformed sc now s =
     (if sc_transforms sc = [] then aged sc now s else run_transforms sc now (aged sc now s))"

lemma aged_shape: "rt_shape sc (rt s) \<Longrightarrow> rt_shape sc (rt (aged sc now s))"
  by (erule rt_shape_mono) (simp_all add: aged_def)

lemma transformed_shape: "rt_shape sc (rt s) \<Longrightarrow> rt_shape sc (rt (transformed sc now s))"
  by (simp add: transformed_def aged_shape run_transforms_shape)

lemma transformed_grows: "grows s (transformed sc now s)"
proof -
  have "grows s (aged sc now s)"
    by (simp add: aged_def pressure_run_grows grows_push(3))
  then show ?thesis
    by (auto simp: transformed_def intro: grows_trans run_transforms_grows)
qed

lemma sl1_run_eq:
  "sl1_run sc now s = do {
     s4 \<leftarrow> (if sc_demand sc = [] then Some (transformed sc now s)
           else run_demand sc now (transformed sc now s));
     s5 \<leftarrow> objectives_run sc now s4;
     s6 \<leftarrow> observability_run sc now s5;
     s7 \<leftarrow> (if sc_agents sc = [] then Some s6 else agents_run sc now s6);
     (if sc_milestones sc = [] then Some s7 else milestones_run sc now s7) }"
  by (simp only: sl1_run_def transformed_def aged_def Let_def)

lemma sl1_run_stages:
  assumes "sl1_run sc now s = Some t"
  obtains s4 s5 s6 s7 :: sl1_st where
    "(if sc_demand sc = [] then Some (transformed sc now s)
      else run_demand sc now (transformed sc now s)) = Some s4"
    and "objectives_run sc now s4 = Some s5" and "observability_run sc now s5 = Some s6"
    and "(if sc_agents sc = [] then Some s6 else agents_run sc now s6) = Some s7"
    and "(if sc_milestones sc = [] then Some s7 else milestones_run sc now s7) = Some t"
  using assms unfolding sl1_run_eq bind_eq_Some_conv by blast

section \<open>The invariant\<close>

definition transforms_inv :: "sl1_scene \<Rightarrow> sl1_runtime \<Rightarrow> bool" where
  "transforms_inv sc r \<longleftrightarrow> bt_wf (transforms r) \<and> reservations_ok sc (transforms r) r
     \<and> (\<forall>t \<in> set (sc_transforms sc). \<forall>\<sigma>.
          bt_get (transforms r) (transform_id t) = Some \<sigma> \<longrightarrow> attempts_ok t \<sigma>)"

definition sl1_inv :: "sl1_scene \<Rightarrow> sl1_world \<Rightarrow> bool" where
  "sl1_inv sc w \<longleftrightarrow>
     rt_shape sc (snd w) \<and> active_declared sc (fst w) (snd w)
     \<and> transforms_inv sc (snd w) \<and> demands_inv sc (fst w) (snd w)
     \<and> agent_demand_pauses (snd w) = []"

lemma transform_defs_declared:
  assumes "distinct (map transform_id (sc_transforms sc))" and "t \<in> set (sc_transforms sc)"
  shows "bt_get (transform_defs sc) (transform_id t) = Some t"
proof -
  have "distinct (map fst (map (\<lambda>t. (transform_id t, t)) (sc_transforms sc)))"
    using assms(1) by (simp add: comp_def)
  from bt_get_collect [OF this] show ?thesis
    unfolding transform_defs_def using assms
    by (auto simp: map_of_eq_Some_iff comp_def)
qed

lemma run_transforms_inv:
  assumes "scene_ok sc" and "transforms_inv sc (rt s)"
  shows "transforms_inv sc (rt (run_transforms sc now s))"
proof -
  let ?t = "run_transforms sc now s"
  have wf: "bt_wf (transforms (rt s))" using assms(2) by (simp add: transforms_inv_def)
  have att: "attempts_ok t \<sigma>"
    if t: "t \<in> set (sc_transforms sc)" and \<sigma>: "bt_get (transforms (rt ?t)) (transform_id t) = Some \<sigma>"
    for t \<sigma>
  proof -
    note def = transform_defs_declared [OF scene_okD(3) [OF assms(1)] t]
    have "0 < transform_max_attempts t"
      using scene_okD(5) [OF assms(1) t] by (simp add: transform_ok_def)
    note keep = next_state_attempts [OF _ this]
    show ?thesis
    proof (cases "bt_get (transforms (rt s)) (transform_id t)")
      case None
      have "bt_get (transforms (rt ?t)) (transform_id t) = None"
        unfolding run_transforms_def
      proof (rule fold_inv [where P = "\<lambda>u. bt_get (transforms (rt u)) (transform_id t) = None"])
        fix i and u :: sl1_st
        assume i: "i \<in> set (bt_keys (transforms (rt s)))"
          and u: "bt_get (transforms (rt u)) (transform_id t) = None"
        have "i \<noteq> transform_id t"
          using i None bt_has_keys [of "transforms (rt s)" i] by (auto simp: bt_has_def)
        with u show "bt_get (transforms (rt (case bt_get (transform_defs sc) i of None \<Rightarrow> u
            | Some def \<Rightarrow> process_one (storage_caps sc) (place_caps sc) now def i u)))
            (transform_id t) = None"
        proof (cases "bt_get (transform_defs sc) i")
          case (Some d)
          then have "transform_id d = i" by (auto dest: transform_defs_SomeD)
          with Some u \<open>i \<noteq> transform_id t\<close> show ?thesis
            using process_one_transforms [of sc now d u] by (simp only: option.case bt_get_insert) auto
        qed simp
      qed (rule None)
      with \<sigma> show ?thesis by simp
    next
      case (Some \<sigma>0)
      then have "attempts_ok t \<sigma>0" using assms(2) t by (auto simp: transforms_inv_def)
      moreover obtain s0 where "bt_get (transforms (rt ?t)) (transform_id t)
          = Some (next_state sc now t \<sigma>0 s0)"
        using run_transforms_at [OF wf def Some] by blast
      ultimately show ?thesis using \<sigma> keep by auto
    qed
  qed
  with assms show ?thesis
    by (auto simp: transforms_inv_def run_transforms_wf run_transforms_reservations)
qed

lemma reservations_ok_frame:
  assumes "place_capacity_used r' = place_capacity_used r" and "pending_outputs r' = pending_outputs r"
  shows "reservations_ok sc m r' = reservations_ok sc m r"
proof -
  have "held_capacity r' = held_capacity r" "held_output r' = held_output r"
    using assms by (auto simp: held_capacity_def held_output_def)
  then show ?thesis by (simp add: reservations_ok_def booked_def capacity_within_def)
qed

lemma transforms_inv_frame:
  "transforms r' = transforms r \<Longrightarrow> place_capacity_used r' = place_capacity_used r \<Longrightarrow>
   pending_outputs r' = pending_outputs r \<Longrightarrow> transforms_inv sc r' = transforms_inv sc r"
  using reservations_ok_frame [of r' r] by (simp add: transforms_inv_def)

lemma active_declared_frame:
  "pressure r' = pressure r \<Longrightarrow> active_declared sc now r' = active_declared sc now r"
  by (simp add: active_declared_def)

lemma demands_inv_frame: "demand r' = demand r \<Longrightarrow> demands_inv sc now r' = demands_inv sc now r"
  by (simp add: demands_inv_def)

lemma transformed_inv:
  assumes "scene_ok sc" and "transforms_inv sc (rt s)"
  shows "transforms_inv sc (rt (transformed sc now s))"
proof -
  have "transforms_inv sc (rt (aged sc now s))"
    using assms(2) by (subst transforms_inv_frame [of _ "rt s"]) (simp_all add: aged_def)
  with assms(1) show ?thesis by (simp add: transformed_def run_transforms_inv)
qed

lemma transformed_frame [simp]:
  "demand (rt (transformed sc now s)) = demand (rt s)"
  "pressure (rt (transformed sc now s)) = pressure (rt (pressure_run sc now s))"
  "agent_demand_pauses (rt (transformed sc now s)) = agent_demand_pauses (rt s)"
  "outcome (rt (transformed sc now s)) = outcome (rt s)"
  "milestones (rt (transformed sc now s)) = milestones (rt s)"
  by (simp_all add: transformed_def aged_def)

text \<open>With no pause in force the demand phase leaves the pause table empty.\<close>

lemma spawn_phase_no_pauses:
  assumes "spawn_phase now d drt r = Some (outc, r1)" and "agent_demand_pauses r = []"
  shows "agent_demand_pauses r1 = []"
proof -
  have "pause_check now (demand_id d) r = (False, r)" by (simp add: pause_check_def assms(2))
  with assms show ?thesis
    by (auto simp: spawn_phase_def Let_def case_prod_unfold split: Option.bind_splits if_splits)
qed

lemma drop_phase_pauses [simp]:
  "agent_demand_pauses (rt (drop_phase now d w)) = agent_demand_pauses (rt w)"
  by (auto simp: drop_phase_def split: option.splits prod.splits)

lemma demand_one_no_pauses:
  assumes "demand_one now d u = Some v" and "agent_demand_pauses (rt u) = []"
  shows "agent_demand_pauses (rt v) = []"
proof (cases "bt_get (demand (rt u)) (demand_id d)")
  case None
  with assms show ?thesis by (simp add: demand_one_def)
next
  case (Some drt)
  with assms(1) obtain outc r1 where sp: "spawn_phase now d drt (rt u) = Some (outc, r1)"
    by (auto simp: demand_one_def split: Option.bind_splits)
  have "agent_demand_pauses r1 = []" by (rule spawn_phase_no_pauses [OF sp assms(2)])
  with assms(1) Some sp show ?thesis by (auto simp: demand_one_def Let_def)
qed

lemma run_demand_no_pauses:
  assumes "run_demand sc now s = Some t" and "agent_demand_pauses (rt s) = []"
  shows "agent_demand_pauses (rt t) = []"
  using assms(1) unfolding run_demand_def
  by (rule fold_opt_inv [where P = "\<lambda>u. agent_demand_pauses (rt u) = []"])
    (auto simp: assms(2) intro: demand_one_no_pauses)


section \<open>Every tick returns\<close>

lemma sl1_run_returns:
  assumes ok: "scene_ok sc" and "rt_shape sc (rt s)" and "demand_pre sc now (rt s)"
  shows "\<exists>t. sl1_run sc now s = Some t \<and> rt_shape sc (rt t)"
proof -
  have pre: "demand_pre sc now (rt (transformed sc now s))"
    using assms(3) by (simp add: demand_pre_def demands_inv_def)
  note sh = transformed_shape [OF assms(2), of now]
  have last: "\<exists>u. (if sc_milestones sc = [] then Some t else milestones_run sc now t) = Some u
      \<and> rt_shape sc (rt u)" if "rt_shape sc (rt t)" for t
    using milestones.then_returns [OF ok that TrueI, of now Some] that by auto
  have agents: "\<exists>u. ((if sc_agents sc = [] then Some t else agents_run sc now t) \<bind>
      (\<lambda>s7. if sc_milestones sc = [] then Some s7 else milestones_run sc now s7)) = Some u
      \<and> rt_shape sc (rt u)" if "rt_shape sc (rt t)" for t
    using last that
    by (auto simp: agents_run_def intro!: agents_factory.then_returns [OF ok that TrueI])
  have rest: "\<exists>u. (objectives_run sc now t \<bind> (\<lambda>s5. observability_run sc now s5 \<bind> (\<lambda>s6.
      (if sc_agents sc = [] then Some s6 else agents_run sc now s6) \<bind>
      (\<lambda>s7. if sc_milestones sc = [] then Some s7 else milestones_run sc now s7)))) = Some u
      \<and> rt_shape sc (rt u)" if "rt_shape sc (rt t)" for t
    by (intro objectives.then_returns [OF ok that TrueI]
        observability.then_returns [OF ok _ TrueI] agents)
  show ?thesis
    unfolding sl1_run_eq
  proof (cases "sc_demand sc = []")
    case True
    with rest [OF sh] show "\<exists>t. ((if sc_demand sc = [] then Some (transformed sc now s)
        else run_demand sc now (transformed sc now s)) \<bind> (\<lambda>s4. objectives_run sc now s4 \<bind>
        (\<lambda>s5. observability_run sc now s5 \<bind> (\<lambda>s6.
        (if sc_agents sc = [] then Some s6 else agents_run sc now s6) \<bind>
        (\<lambda>s7. if sc_milestones sc = [] then Some s7 else milestones_run sc now s7))))) = Some t
        \<and> rt_shape sc (rt t)" by simp
  next
    case False
    have "\<exists>t. (run_demand sc now (transformed sc now s) \<bind> (\<lambda>s4. objectives_run sc now s4 \<bind>
        (\<lambda>s5. observability_run sc now s5 \<bind> (\<lambda>s6.
        (if sc_agents sc = [] then Some s6 else agents_run sc now s6) \<bind>
        (\<lambda>s7. if sc_milestones sc = [] then Some s7 else milestones_run sc now s7))))) = Some t
        \<and> rt_shape sc (rt t)"
      by (rule demand.then_returns [OF ok sh pre]) (rule rest)
    with False show "\<exists>t. ((if sc_demand sc = [] then Some (transformed sc now s)
        else run_demand sc now (transformed sc now s)) \<bind> (\<lambda>s4. objectives_run sc now s4 \<bind>
        (\<lambda>s5. observability_run sc now s5 \<bind> (\<lambda>s6.
        (if sc_agents sc = [] then Some s6 else agents_run sc now s6) \<bind>
        (\<lambda>s7. if sc_milestones sc = [] then Some s7 else milestones_run sc now s7))))) = Some t
        \<and> rt_shape sc (rt t)" by simp
  qed
qed

lemma sl1_run_grows:
  assumes "sl1_run sc now s = Some t"
  shows "grows s t"
proof -
  obtain s4 s5 s6 s7 :: sl1_st where
    4: "(if sc_demand sc = [] then Some (transformed sc now s)
      else run_demand sc now (transformed sc now s)) = Some s4"
    and 5: "objectives_run sc now s4 = Some s5" and 6: "observability_run sc now s5 = Some s6"
    and 7: "(if sc_agents sc = [] then Some s6 else agents_run sc now s6) = Some s7"
    and t: "(if sc_milestones sc = [] then Some s7 else milestones_run sc now s7) = Some t"
    by (rule sl1_run_stages [OF assms])
  have "grows (transformed sc now s) s4" using 4 demand.step_grows by (auto split: if_splits intro: grows_refl)
  moreover have "grows s6 s7" using 7 agents_factory.step_grows
    by (auto simp: agents_run_def split: if_splits intro: grows_refl)
  moreover have "grows s7 t" using t milestones.step_grows by (auto split: if_splits intro: grows_refl)
  ultimately show ?thesis
    using transformed_grows [of s sc now] objectives.step_grows [OF 5] observability.step_grows [OF 6]
    by (meson grows_trans)
qed

text \<open>What the later stages leave of the earlier ones' results.\<close>

lemma sl1_run_results:
  assumes "sl1_run sc now s = Some t"
  obtains s4 s5 :: sl1_st where
    "(if sc_demand sc = [] then Some (transformed sc now s)
      else run_demand sc now (transformed sc now s)) = Some s4"
    and "objectives_run sc now s4 = Some s5"
    and "transforms (rt t) = transforms (rt (transformed sc now s))"
    and "place_capacity_used (rt t) = place_capacity_used (rt (transformed sc now s))"
    and "pending_outputs (rt t) = pending_outputs (rt (transformed sc now s))"
    and "inventories (rt t) = inventories (rt (transformed sc now s))"
    and "freshness (rt t) = freshness (rt (transformed sc now s))"
    and "pressure (rt t) = pressure (rt (pressure_run sc now s))"
    and "demand (rt t) = demand (rt s4)"
    and "agent_demand_pauses (rt t) = agent_demand_pauses (rt s4)"
    and "outcome (rt t) = outcome (rt s5)" and "phase (rt t) = phase (rt s5)"
    and "failure_conditions (rt t) = failure_conditions (rt s5)"
    and "victory_conditions (rt t) = victory_conditions (rt s5)"
    and "objectives (rt t) = objectives (rt s5)"
proof -
  obtain s4 s5 s6 s7 :: sl1_st where
    4: "(if sc_demand sc = [] then Some (transformed sc now s)
      else run_demand sc now (transformed sc now s)) = Some s4"
    and 5: "objectives_run sc now s4 = Some s5" and 6: "observability_run sc now s5 = Some s6"
    and 7: "(if sc_agents sc = [] then Some s6 else agents_run sc now s6) = Some s7"
    and t: "(if sc_milestones sc = [] then Some s7 else milestones_run sc now s7) = Some t"
    by (rule sl1_run_stages [OF assms])
  have a: "agents_step s6 s7" using 7 run_with_factory_step
    by (auto simp: agents_run_def agents_step_refl split: if_splits)
  have m: "milestones_step s7 t" using t milestones_run_step
    by (auto simp: milestones_step_refl split: if_splits)
  have ap: "agent_demand_pauses (rt s7) = agent_demand_pauses (rt s6)"
    using 7 agents_run_default(1) by (auto split: if_splits)
  note later = objectives_run_frame [OF 5] observability_run_frame [OF 6] agents_step_frame [OF a]
    milestones_step_frame [OF m]
  have d: "inventories (rt s4) = inventories (rt (transformed sc now s))"
    "freshness (rt s4) = freshness (rt (transformed sc now s))"
    "transforms (rt s4) = transforms (rt (transformed sc now s))"
    "place_capacity_used (rt s4) = place_capacity_used (rt (transformed sc now s))"
    "pending_outputs (rt s4) = pending_outputs (rt (transformed sc now s))"
    "pressure (rt s4) = pressure (rt (pressure_run sc now s))"
    using 4 by (auto simp: run_demand_frame split: if_splits)
  show ?thesis
    by (rule that [OF 4 5]) (simp_all add: later d ap)
qed

lemma sl1_run_inv:
  assumes ok: "scene_ok sc" and inv: "sl1_inv sc (now0, rt s)" and lt: "now0 < now"
    and fits: "MAX_DEMAND_OUTSTANDING * unat now < 2 ^ 64"
  shows "\<exists>t. sl1_run sc now s = Some t \<and> sl1_inv sc (now, rt t)"
proof -
  have pre: "demand_pre sc now (rt s)"
    using inv lt fits by (auto simp: demand_pre_def sl1_inv_def)
  have sh: "rt_shape sc (rt s)" using inv by (simp add: sl1_inv_def)
  obtain t where t: "sl1_run sc now s = Some t" and sht: "rt_shape sc (rt t)"
    using sl1_run_returns [OF ok sh pre] by blast
  obtain s4 s5 :: sl1_st where
    4: "(if sc_demand sc = [] then Some (transformed sc now s)
      else run_demand sc now (transformed sc now s)) = Some s4"
    and tr: "transforms (rt t) = transforms (rt (transformed sc now s))"
      "place_capacity_used (rt t) = place_capacity_used (rt (transformed sc now s))"
      "pending_outputs (rt t) = pending_outputs (rt (transformed sc now s))"
    and pr: "pressure (rt t) = pressure (rt (pressure_run sc now s))"
    and de: "demand (rt t) = demand (rt s4)"
    and pa: "agent_demand_pauses (rt t) = agent_demand_pauses (rt s4)"
    by (rule sl1_run_results [OF t])
  have act: "active_declared sc now (rt s)"
    using inv lt active_declared_mono [of sc now0 "rt s" now] by (simp add: sl1_inv_def)
  have "active_declared sc now (rt t)"
    using active_declared_pressure_run [OF scene_okD(8) [OF ok] act]
    by (simp add: active_declared_def pr)
  moreover have "transforms_inv sc (rt t)"
    using transformed_inv [OF ok, of s now] inv transforms_inv_frame [OF tr]
    by (simp add: sl1_inv_def)
  moreover have "demands_inv sc now (rt t)"
  proof (cases "sc_demand sc = []")
    case False
    have "demands_inv sc now0 (rt (transformed sc now s))"
      using inv by (simp add: sl1_inv_def demands_inv_def)
    from run_demand_total [OF ok this lt fits] False 4 have "demands_inv sc now (rt s4)" by auto
    then show ?thesis by (simp add: demands_inv_def de)
  qed (simp add: demands_inv_def)
  moreover have "agent_demand_pauses (rt t) = []"
    using 4 inv run_demand_no_pauses [of sc now "transformed sc now s" s4]
    by (auto simp: pa sl1_inv_def split: if_splits)
  ultimately show ?thesis using t sht by (auto simp: sl1_inv_def)
qed

lemma sl1_inv_start: "scene_ok sc \<Longrightarrow> sl1_inv sc (sl1_start sc)"
proof -
  assume ok: "scene_ok sc"
  have "bt_wf (transforms (from_scene sc))" by (simp add: from_scene_def)
  then show ?thesis
    using reservations_ok_from_scene [of sc] demands_inv_from_scene [OF scene_okD(6) [OF ok]]
    by (auto simp: sl1_inv_def sl1_start_def rt_shape_from_scene active_declared_from_scene
        transforms_inv_def dest: get_initial_transforms) (simp add: from_scene_def)
qed

lemma sl1_ticks_inv:
  assumes "scene_ok sc" and "MAX_DEMAND_OUTSTANDING * n < 2 ^ 64"
  shows "\<exists>r. sl1_ticks sc n (sl1_start sc) = Some (of_nat n, r) \<and> sl1_inv sc (of_nat n, r)"
  using assms(2)
proof (induction n)
  case 0
  then show ?case using sl1_inv_start [OF assms(1)] by (simp add: sl1_start_def)
next
  case (Suc n)
  then have "MAX_DEMAND_OUTSTANDING * n < 2 ^ 64" by simp
  then obtain r where r: "sl1_ticks sc n (sl1_start sc) = Some (of_nat n, r)" "sl1_inv sc (of_nat n, r)"
    using Suc.IH by blast
  have small: "Suc n < 2 ^ 64" using Suc.prems by (simp add: MAX_DEMAND_OUTSTANDING_def)
  then have un: "unat (of_nat n :: u64) = n" "unat (of_nat (Suc n) :: u64) = Suc n"
    by (simp_all add: unat_of_nat take_bit_nat_eq_self_iff del: of_nat_Suc)
  have now: "sat_add (of_nat n) 1 = (of_nat (Suc n) :: u64)"
    using small un(1) by (simp add: sat_add_def)
  have lt: "(of_nat n :: u64) < of_nat (Suc n)"
    using un by (simp add: word_less_nat_alt del: of_nat_Suc)
  have "sl1_inv sc (of_nat n, rt (fresh_st r))" using r(2) by (simp add: fresh_st_def)
  then obtain t where t: "sl1_run sc (of_nat (Suc n)) (fresh_st r) = Some t"
    "sl1_inv sc (of_nat (Suc n), rt t)"
    using sl1_run_inv [OF assms(1) _ lt, of "fresh_st r"] Suc.prems un(2) by auto
  then have "sl1_tick sc (of_nat n, r) = Some (of_nat (Suc n), rt t)"
    by (simp only: sl1_tick_def fst_conv snd_conv Let_def now) simp
  with r(1) t(2) show ?case by (simp del: of_nat_Suc)
qed


lemma sl1_ticks_invD:
  assumes "scene_ok sc" and "MAX_DEMAND_OUTSTANDING * n < 2 ^ 64"
    and "sl1_ticks sc n (sl1_start sc) = Some (now, r)"
  shows "now = of_nat n" and "sl1_inv sc (of_nat n, r)" and "unat now = n"
proof -
  obtain r' where r': "sl1_ticks sc n (sl1_start sc) = Some (of_nat n, r')" "sl1_inv sc (of_nat n, r')"
    using sl1_ticks_inv [OF assms(1,2)] by blast
  with assms(3) have eq: "now = of_nat n" "r = r'" by auto
  show "now = of_nat n" "sl1_inv sc (of_nat n, r)" using eq r'(2) by simp_all
  have "n < 2 ^ 64" using assms(2) by (simp add: MAX_DEMAND_OUTSTANDING_def)
  then show "unat now = n"
    unfolding eq by (simp add: unat_of_nat take_bit_nat_eq_self_iff)
qed

lemma sl1_ticks_Suc:
  assumes "sl1_ticks sc (Suc n) w = Some (now, r)"
  obtains now0 r0 and t :: sl1_st where "sl1_ticks sc n w = Some (now0, r0)"
    and "now = sat_add now0 1" and "sl1_run sc now (fresh_st r0) = Some t" and "r = rt t"
  using assms by (auto simp: sl1_tick_def Let_def split: Option.bind_splits)

text \<open>An invariant of the runtime that every tick keeps holds after any number of ticks.\<close>

lemma sl1_ticks_induct:
  assumes "sl1_ticks sc n (sl1_start sc) = Some (now, r)" and "P (from_scene sc)"
    and "\<And>m now0 r0 t. m < n \<Longrightarrow> sl1_ticks sc m (sl1_start sc) = Some (now0, r0) \<Longrightarrow> P r0 \<Longrightarrow>
      sl1_run sc (sat_add now0 1) (fresh_st r0) = Some t \<Longrightarrow> P (rt t)"
  shows "P r"
  using assms(1,3)
proof (induction n arbitrary: now r)
  case 0
  then show ?case using assms(2) by (simp add: sl1_start_def)
next
  case (Suc n)
  from sl1_ticks_Suc [OF Suc.prems(1)] obtain now0 r0 and t :: sl1_st where
    t: "sl1_ticks sc n (sl1_start sc) = Some (now0, r0)" "now = sat_add now0 1"
    "sl1_run sc now (fresh_st r0) = Some t" "r = rt t" .
  have "P r0" using Suc.IH [OF t(1)] Suc.prems(2) by (meson less_SucI)
  with Suc.prems(2) [OF _ t(1)] t show ?case by auto
qed

section \<open>Storage\<close>

lemma storage_within_frame:
  "inventories r' = inventories r \<Longrightarrow> pending_outputs r' = pending_outputs r \<Longrightarrow>
   storage_within sc r' = storage_within sc r"
  by (simp add: storage_within_def stock_def held_output_def)

lemma sl1_run_storage:
  assumes ok: "scene_ok sc" and b: "storage_bounded sc" and ni: "no_injection sc"
    and inv: "transforms_inv sc (rt s)" and w: "storage_within sc (rt s)"
    and run: "sl1_run sc now s = Some t"
  shows "storage_within sc (rt t)"
proof -
  have wa: "storage_within sc (rt (aged sc now s))"
    using w storage_within_frame [of "rt (aged sc now s)" "rt s"]
    by (simp add: aged_def no_injection_inventories [OF ni])
  have ra: "reservations_ok sc (transforms (rt (aged sc now s))) (rt (aged sc now s))"
    using inv reservations_ok_frame [of "rt (aged sc now s)" "rt s"]
    by (simp add: transforms_inv_def aged_def)
  have "storage_within sc (rt (transformed sc now s))"
    using wa run_transforms_storage [OF ok b ra wa] by (simp add: transformed_def)
  moreover obtain s4 s5 :: sl1_st where
    "inventories (rt t) = inventories (rt (transformed sc now s))"
    "pending_outputs (rt t) = pending_outputs (rt (transformed sc now s))"
    by (rule sl1_run_results [OF run])
  ultimately show ?thesis
    using storage_within_frame [of "rt t" "rt (transformed sc now s)"] by simp
qed

lemma sl1_ticks_storage:
  assumes "scene_ok sc" and "storage_bounded sc" and "no_injection sc"
    and "MAX_DEMAND_OUTSTANDING * n < 2 ^ 64"
    and "sl1_ticks sc n (sl1_start sc) = Some (now, r)"
  shows "storage_within sc r"
  using assms(5)
proof (rule sl1_ticks_induct)
  show "storage_within sc (from_scene sc)" by (rule storage_within_from_scene [OF assms(1)])
  fix m now0 r0 and t :: sl1_st
  assume m: "m < n" "sl1_ticks sc m (sl1_start sc) = Some (now0, r0)" "storage_within sc r0"
    "sl1_run sc (sat_add now0 1) (fresh_st r0) = Some t"
  have "MAX_DEMAND_OUTSTANDING * m < 2 ^ 64" using assms(4) m(1) by (simp add: MAX_DEMAND_OUTSTANDING_def)
  from sl1_ticks_invD(2) [OF assms(1) this m(2)] have "transforms_inv sc r0"
    by (simp add: sl1_inv_def)
  with sl1_run_storage [OF assms(1-3) _ _ m(4)] m(3) show "storage_within sc (rt t)"
    by (simp add: fresh_st_def)
qed

section \<open>Outcome and phase\<close>

lemma sl1_run_outcome_sticky:
  assumes "sl1_run sc now s = Some t" and "is_terminal (outcome (rt s))"
  shows "outcome (rt t) = outcome (rt s)"
proof -
  obtain s4 s5 :: sl1_st where
    4: "(if sc_demand sc = [] then Some (transformed sc now s)
      else run_demand sc now (transformed sc now s)) = Some s4"
    and 5: "objectives_run sc now s4 = Some s5" and o: "outcome (rt t) = outcome (rt s5)"
    by (rule sl1_run_results [OF assms(1)])
  have "outcome (rt s4) = outcome (rt s)"
    using 4 by (auto simp: run_demand_frame split: if_splits)
  with 5 assms(2) o show ?thesis by (simp add: objectives_run_def)
qed

definition phase_agrees :: "sl1_runtime \<Rightarrow> bool" where
  "phase_agrees r \<longleftrightarrow>
     (case outcome r of
        Won \<Rightarrow> phase r = PhWon
      | Lost _ \<Rightarrow> phase r = PhLost
      | InProgress \<Rightarrow> phase r \<noteq> PhWon \<and> phase r \<noteq> PhLost)"

lemma compute_phase_agrees: "phase r = compute_phase sc r \<Longrightarrow> phase_agrees r"
  by (cases "outcome r") (auto simp: phase_agrees_def compute_phase_def)

lemma sl1_run_phase:
  assumes "sl1_run sc now s = Some t" and "phase_agrees (rt s)"
  shows "phase_agrees (rt t)"
proof -
  obtain s4 s5 :: sl1_st where
    4: "(if sc_demand sc = [] then Some (transformed sc now s)
      else run_demand sc now (transformed sc now s)) = Some s4"
    and 5: "objectives_run sc now s4 = Some s5"
    and o: "outcome (rt t) = outcome (rt s5)" "phase (rt t) = phase (rt s5)"
    by (rule sl1_run_results [OF assms(1)])
  have p: "phase (rt (transformed sc now s)) = phase (rt s)"
    by (simp add: transformed_def aged_def)
  have s4: "outcome (rt s4) = outcome (rt s)" "phase (rt s4) = phase (rt s)"
    using 4 p by (auto simp: run_demand_frame split: if_splits)
  have "phase_agrees (rt s5)"
  proof (cases "is_terminal (outcome (rt s4))")
    case True
    with 5 have "s5 = s4" by (simp add: objectives_run_def)
    then have "outcome (rt s5) = outcome (rt s)" "phase (rt s5) = phase (rt s)"
      using s4 by simp_all
    with assms(2) show ?thesis by (simp only: phase_agrees_def)
  next
    case False
    from objectives_run_outcome(2) [OF 5 False] show ?thesis by (rule compute_phase_agrees)
  qed
  then show ?thesis by (simp only: phase_agrees_def o)
qed

section \<open>One transform across ticks\<close>

lemma sl1_tick_transform:
  assumes ok: "scene_ok sc" and run: "sl1_run sc now s = Some u" and wf: "bt_wf (transforms (rt s))"
    and t: "t \<in> set (sc_transforms sc)" and \<sigma>: "bt_get (transforms (rt s)) (transform_id t) = Some \<sigma>"
  obtains s0 where "bt_get (transforms (rt u)) (transform_id t) = Some (next_state sc now t \<sigma> s0)"
proof -
  have ne: "sc_transforms sc \<noteq> []" using t by auto
  have "transforms (rt (aged sc now s)) = transforms (rt s)" by (simp add: aged_def)
  then obtain s0 where "bt_get (transforms (rt (run_transforms sc now (aged sc now s)))) (transform_id t)
      = Some (next_state sc now t \<sigma> s0)"
    using run_transforms_at [OF _ transform_defs_declared [OF scene_okD(3) [OF ok] t],
        of "aged sc now s" \<sigma> now] wf \<sigma> by auto
  moreover obtain s4 s5 :: sl1_st where "transforms (rt u) = transforms (rt (transformed sc now s))"
    by (rule sl1_run_results [OF run])
  ultimately show ?thesis using ne by (intro that) (simp add: transformed_def)
qed

fun is_late :: "sl1_transform_state \<Rightarrow> bool" where
  "is_late (TLate _ _ _) = True"
| "is_late _ = False"

fun late_attempt_of :: "sl1_transform_state \<Rightarrow> nat" where
  "late_attempt_of (TLate _ att _) = unat att"
| "late_attempt_of _ = 0"

text \<open>The state of a declared transform after \<open>n\<close> ticks.\<close>

definition transform_at :: "sl1_scene \<Rightarrow> nat \<Rightarrow> string \<Rightarrow> sl1_transform_state option" where
  "transform_at sc n i =
     (case sl1_ticks sc n (sl1_start sc) of
        None \<Rightarrow> None | Some w \<Rightarrow> bt_get (transforms (snd w)) i)"

lemma transform_at_Suc:
  assumes ok: "scene_ok sc" and fits: "MAX_DEMAND_OUTSTANDING * Suc n < 2 ^ 64"
    and t: "t \<in> set (sc_transforms sc)"
    and \<sigma>: "transform_at sc n (transform_id t) = Some \<sigma>"
  shows "\<exists>s0. transform_at sc (Suc n) (transform_id t)
    = Some (next_state sc (of_nat (Suc n)) t \<sigma> s0)" and "attempts_ok t \<sigma>"
proof -
  have fits': "MAX_DEMAND_OUTSTANDING * n < 2 ^ 64" using fits by simp
  obtain r where r: "sl1_ticks sc n (sl1_start sc) = Some (of_nat n, r)" "sl1_inv sc (of_nat n, r)"
    using sl1_ticks_inv [OF ok fits'] by blast
  obtain r' where r': "sl1_ticks sc (Suc n) (sl1_start sc) = Some (of_nat (Suc n), r')"
    using sl1_ticks_inv [OF ok fits] by blast
  obtain now0 r0 and u :: sl1_st where "sl1_ticks sc n (sl1_start sc) = Some (now0, r0)"
    and run: "sl1_run sc (of_nat (Suc n)) (fresh_st r0) = Some u" "r' = rt u"
    by (rule sl1_ticks_Suc [OF r'])
  with r(1) have u: "sl1_run sc (of_nat (Suc n)) (fresh_st r) = Some u" "r' = rt u"
    by (simp_all del: of_nat_Suc)
  have \<sigma>': "bt_get (transforms (rt (fresh_st r))) (transform_id t) = Some \<sigma>"
    using \<sigma> r(1) by (simp add: transform_at_def fresh_st_def)
  have wf: "bt_wf (transforms (rt (fresh_st r)))"
    using r(2) by (simp add: sl1_inv_def transforms_inv_def fresh_st_def)
  obtain s0 where "bt_get (transforms (rt u)) (transform_id t)
      = Some (next_state sc (of_nat (Suc n)) t \<sigma> s0)"
    by (rule sl1_tick_transform [OF ok u(1) wf t \<sigma>'])
  then show "\<exists>s0. transform_at sc (Suc n) (transform_id t)
      = Some (next_state sc (of_nat (Suc n)) t \<sigma> s0)"
    using r' u(2) by (auto simp: transform_at_def simp del: sl1_ticks.simps)
  show "attempts_ok t \<sigma>"
    using r(2) t \<sigma>' by (auto simp: sl1_inv_def transforms_inv_def fresh_st_def)
qed

lemma late_run_bounded:
  assumes ok: "scene_ok sc" and fits: "MAX_DEMAND_OUTSTANDING * Suc (n + k) < 2 ^ 64"
    and t: "t \<in> set (sc_transforms sc)"
    and late: "\<And>j. j \<le> k \<Longrightarrow> \<exists>\<sigma>. transform_at sc (n + j) (transform_id t) = Some \<sigma> \<and> is_late \<sigma>"
  shows "Suc k < unat (transform_max_attempts t)"
proof -
  have grow: "\<exists>\<sigma>. transform_at sc (n + j) (transform_id t) = Some \<sigma> \<and> is_late \<sigma> \<and> Suc j < late_attempt_of \<sigma>"
    if "j \<le> k" for j
    using that
  proof (induction j)
    case 0
    obtain \<sigma> where \<sigma>: "transform_at sc n (transform_id t) = Some \<sigma>" "is_late \<sigma>" using late [of 0] by auto
    have "MAX_DEMAND_OUTSTANDING * Suc n < 2 ^ 64"
      using fits by (simp add: MAX_DEMAND_OUTSTANDING_def)
    from transform_at_Suc(2) [OF ok this t \<sigma>(1)] \<sigma>(2) have "Suc 0 < late_attempt_of \<sigma>"
      by (cases \<sigma>) (auto simp: word_le_nat_alt)
    with \<sigma> show ?case by auto
  next
    case (Suc j)
    then obtain \<sigma> where \<sigma>: "transform_at sc (n + j) (transform_id t) = Some \<sigma>" "is_late \<sigma>"
      "Suc j < late_attempt_of \<sigma>" by auto
    have f: "MAX_DEMAND_OUTSTANDING * Suc (n + j) < 2 ^ 64"
      using fits Suc.prems by (simp add: MAX_DEMAND_OUTSTANDING_def)
    obtain \<sigma>' where \<sigma>': "transform_at sc (n + Suc j) (transform_id t) = Some \<sigma>'" "is_late \<sigma>'"
      using late [OF Suc.prems] by blast
    obtain s0 where step: "next_state sc (of_nat (Suc (n + j))) t \<sigma> s0 = \<sigma>'"
      using transform_at_Suc(1) [OF ok f t \<sigma>(1)] \<sigma>'(1) by auto
    obtain a b c where a: "\<sigma> = TLate a b c" using \<sigma>(2) by (cases \<sigma>) auto
    obtain a' b' c' where a': "\<sigma>' = TLate a' b' c'" using \<sigma>'(2) by (cases \<sigma>') auto
    note st = a a'
    from step have "next_state sc (of_nat (Suc (n + j))) t (TLate a b c) s0 = TLate a' b' c'"
      unfolding a a' .
    then have b': "b' = sat_add b 1" "b' \<le> transform_max_attempts t"
      using next_state_late by blast+
    have "b < transform_max_attempts t \<or> unat b = 2 ^ 32 - 1"
      using b' unat_max [of b] by (auto simp: word_le_nat_alt word_less_nat_alt unat_sat_add)
    moreover have "transform_max_attempts t \<le> 1000"
      using scene_okD(5) [OF ok t] by (simp add: transform_ok_def MAX_TRANSFORM_MAX_ATTEMPTS_def)
    moreover have "attempts_ok t \<sigma>"
      using transform_at_Suc(2) [OF ok f t \<sigma>(1)] .
    ultimately have "unat b' = unat b + 1"
      using st(1) by (auto simp: b'(1) unat_sat_add word_le_nat_alt word_less_nat_alt)
    with \<sigma>(3) st \<sigma>' show ?case by auto
  qed
  then obtain \<sigma> where \<sigma>: "transform_at sc (n + k) (transform_id t) = Some \<sigma>" "is_late \<sigma>"
    "Suc k < late_attempt_of \<sigma>" by auto
  from transform_at_Suc(2) [OF ok fits t \<sigma>(1)] \<sigma>(2,3) show ?thesis
    by (cases \<sigma>) (auto simp: word_le_nat_alt)
qed

end
