(* ===== verification/Sl1_Keys.thy ===== *)
theory Sl1_Keys
  imports Sl1_Tick
begin

text \<open>
  No state is lost: every declared transform, demand, agent, metric and storage slot has its
  entry in the runtime that is built from a scene, and no system removes one.
\<close>

section \<open>The keys of a runtime\<close>

definition row_has :: "('a, ('b, 'v) btree_map) btree_map \<Rightarrow> 'a \<Rightarrow> 'b \<Rightarrow> bool" where
  "row_has m p k \<longleftrightarrow> (case bt_get m p of None \<Rightarrow> False | Some row \<Rightarrow> bt_has row k)"

definition keys_kept :: "sl1_runtime \<Rightarrow> sl1_runtime \<Rightarrow> bool" where
  "keys_kept r r' \<longleftrightarrow>
     (\<forall>k. bt_has (transforms r) k \<longrightarrow> bt_has (transforms r') k)
     \<and> (\<forall>k. bt_has (demand r) k \<longrightarrow> bt_has (demand r') k)
     \<and> (\<forall>k. bt_has (agents r) k \<longrightarrow> bt_has (agents r') k)
     \<and> (\<forall>k. bt_has (metric_states r) k \<longrightarrow> bt_has (metric_states r') k)
     \<and> (\<forall>p k. row_has (inventories r) p k \<longrightarrow> row_has (inventories r') p k)
     \<and> (\<forall>k. bt_has (freshness r) k \<longrightarrow> bt_has (freshness r') k)"

text \<open>Every declaration of the scene has its state.\<close>

definition rt_complete :: "sl1_scene \<Rightarrow> sl1_runtime \<Rightarrow> bool" where
  "rt_complete sc r \<longleftrightarrow> rt_shape sc r
     \<and> (\<forall>t \<in> set (sc_transforms sc). bt_has (transforms r) (transform_id t))
     \<and> (\<forall>d \<in> set (sc_demand sc). bt_has (demand r) (demand_id d))
     \<and> (\<forall>a \<in> set (sc_agents sc). bt_has (agents r) (agent_id a))
     \<and> (case sc_observability sc of None \<Rightarrow> True
        | Some obs \<Rightarrow> \<forall>m \<in> set (obs_metrics obs). bt_has (metric_states r) (metric_id m))
     \<and> (\<forall>p \<in> set (sc_places sc). \<forall>k. bt_has (place_storage p) k \<longrightarrow>
          row_has (inventories r) (place_id p) k \<and> bt_has (freshness r) (place_id p, k))"

lemma keys_kept_refl [simp]: "keys_kept r r"
  by (simp add: keys_kept_def)

lemma keys_kept_trans: "keys_kept a b \<Longrightarrow> keys_kept b c \<Longrightarrow> keys_kept a c"
  by (simp add: keys_kept_def)

lemma rt_complete_kept: "rt_complete sc r \<Longrightarrow> keys_kept r r' \<Longrightarrow> rt_shape sc r' \<Longrightarrow> rt_complete sc r'"
  by (auto simp: rt_complete_def keys_kept_def split: option.splits)

section \<open>Nested maps\<close>

lemma row_has_insert [simp]:
  "row_has (bt_insert p row m) q k \<longleftrightarrow> (if q = p then bt_has row k else row_has m q k)"
  by (simp add: row_has_def)

lemma row_has_get_or: "row_has m p k \<Longrightarrow> bt_has (bt_get_or [] m p) k"
  by (auto simp: row_has_def bt_get_or_def split: option.splits)

lemma row_has_upsert:
  assumes "row_has m q k" and "\<And>row. bt_has row k \<Longrightarrow> bt_has (f row) k"
  shows "row_has (bt_upsert p [] f m) q k"
  using assms row_has_get_or [of m p k] by (auto simp: bt_upsert_def)

lemma bt_has_fold_upsert: "bt_has row k \<Longrightarrow> bt_has (fold (\<lambda>x. bt_upsert (i x) d (f x)) xs row) k"
  by (induction xs arbitrary: row) simp_all

lemma bt_has_fold_insert: "bt_has m k \<Longrightarrow> bt_has (fold (\<lambda>x. bt_insert (i x) (v x)) xs m) k"
  by (induction xs arbitrary: m) simp_all

section \<open>The start\<close>

lemma initial_row:
  assumes "distinct (map place_id (sc_places sc))" and "p \<in> set (sc_places sc)" and "bt_has (place_storage p) k"
  shows "row_has (initial_inventories sc) (place_id p) k"
proof -
  let ?f = "\<lambda>p (m :: (string, (string, u64) btree_map) btree_map).
     if place_storage p = [] then m
     else bt_insert (place_id p)
            (bt_collect (map (\<lambda>(k, slot). (k, slot_initial slot)) (place_storage p))) m"
  have keep: "row_has (fold ?f ps m) q k" if "row_has m q k" and "q \<notin> place_id ` set ps" for q ps m
    using that by (induction ps arbitrary: m) auto
  have own: "bt_has (bt_collect (map (\<lambda>(k, slot). (k, slot_initial slot)) (place_storage p))) k"
    using assms(3) unfolding bt_has_collect by (force simp: bt_has_def dest: map_of_SomeD)
  have "row_has (fold ?f ps m) (place_id p) k" if "distinct (map place_id ps)" and "p \<in> set ps" for ps m
    using that
  proof (induction ps arbitrary: m)
    case (Cons q ps)
    show ?case
    proof (cases "p \<in> set ps")
      case True
      with Cons show ?thesis by simp
    next
      case False
      with Cons.prems have p: "p = q" "place_id p \<notin> place_id ` set ps" by auto
      have "place_storage p \<noteq> []" using assms(3) by auto
      then have "row_has (?f p m) (place_id p) k" using own by simp
      from keep [OF this p(2)] show ?thesis unfolding p(1) by (simp only: fold_Cons o_apply)
    qed
  qed simp
  with assms(1,2) show ?thesis by (simp add: initial_inventories_def)
qed

lemma initial_fresh:
  assumes "p \<in> set (sc_places sc)" and "bt_has (place_storage p) k"
  shows "bt_has (initial_freshness sc) (place_id p, k)"
proof -
  let ?v = "\<lambda>slot. if 0 < slot_initial slot then FOk 0 else FNoData"
  let ?g = "\<lambda>p. fold (\<lambda>(k, slot). bt_insert (place_id p, k) (?v slot)) (place_storage p)"
  have step: "bt_has (fold (\<lambda>(k, slot). bt_insert (q, k) (?v slot)) es m) x" if "bt_has m x" for q es m x
    using that by (induction es arbitrary: m) auto
  have keep: "bt_has (fold ?g ps m) x" if "bt_has m x" for ps m x
    using that by (induction ps arbitrary: m) (simp_all add: step)
  have entry: "bt_has (fold (\<lambda>(k, slot). bt_insert (q, k) (?v slot)) es m) (q, k)" if "bt_has es k" for q es m
    using that
  proof (induction es arbitrary: m)
    case (Cons e es)
    show ?case
    proof (cases "fst e = k")
      case True
      have "bt_has (bt_insert (q, k) (?v (snd e)) m) (q, k)" by simp
      from step [OF this, of q es] True show ?thesis by (cases e) (simp del: if_split add: case_prod_unfold)
    next
      case False
      with Cons show ?thesis by (cases e) (simp add: bt_has_def)
    qed
  qed simp
  have "bt_has (fold ?g ps m) (place_id p, k)" if "p \<in> set ps" for ps m
    using that
  proof (induction ps arbitrary: m)
    case (Cons q ps)
    show ?case
    proof (cases "p = q")
      case True
      have "bt_has (?g p m) (place_id p, k)" by (rule entry [OF assms(2)])
      from keep [OF this] show ?thesis by (simp add: True)
    next
      case False
      with Cons show ?thesis by simp
    qed
  qed simp
  with assms(1) show ?thesis by (simp add: initial_freshness_def)
qed

lemma from_scene_complete:
  assumes "distinct (map place_id (sc_places sc))"
  shows "rt_complete sc (from_scene sc)"
  using initial_row [OF assms] initial_fresh rt_shape_from_scene [of sc]
  by (auto simp: rt_complete_def from_scene_def bt_has_collect image_image split: option.splits)

section \<open>Every system keeps the keys\<close>

lemma pressure_keys: "keys_kept (rt s) (rt (pressure_run sc now s))"
proof -
  have one: "keys_kept r (inject_one caps e r)" for r caps e
    by (cases e) (auto simp: keys_kept_def Let_def bt_upsert2_def upd_pressure_def intro: row_has_upsert)
  have "keys_kept r (fold (inject_one caps) es r)" for es r caps
    by (induction es arbitrary: r) (auto intro: keys_kept_trans [OF one])
  then have inj: "keys_kept r (apply_source_injection sc r)" for r
    by (simp add: apply_source_injection_def)
  define r3 where "r3 = rebuild_overlays sc (rt (fold (activate_one now) (sc_pressure sc)
    (fold (deactivate_one sc now) (expired_ids sc now (rt s)) s)))"
  have "inventories (rt (pressure_run sc now s)) = inventories (rt s)
      \<or> inventories (rt (pressure_run sc now s)) = inventories (apply_source_injection sc r3)"
    and "inventories r3 = inventories (rt s)"
    by (simp_all add: pressure_run_def Let_def r3_def)
  with inj [of r3] have "row_has (inventories (rt s)) p k \<Longrightarrow> row_has (inventories (rt (pressure_run sc now s))) p k" for p k
    by (auto simp: keys_kept_def)
  then show ?thesis by (simp add: keys_kept_def)
qed

lemma produce_keys: "keys_kept r (produce_outputs def now r)"
  by (auto simp: keys_kept_def produce_outputs_def intro: row_has_upsert bt_has_fold_upsert bt_has_fold_insert)

lemma consume_keys: "keys_kept r (consume_inputs def r)"
  by (auto simp: keys_kept_def consume_inputs_def intro: row_has_upsert bt_has_fold_upsert)

lemma reserve_keys [simp]: "keys_kept q (reserve_outputs def (reserve_capacity def r)) = keys_kept q r"
  by (simp add: keys_kept_def reserve_outputs_def reserve_capacity_def)

lemma start_keys: "try_start scaps pcaps def r = (res, r') \<Longrightarrow> keys_kept r r'"
  by (auto simp: try_start_def commit_start_def consume_keys split: if_splits)

lemma release_keys [simp]:
  "keys_kept q (release_pending_outputs def (release_capacity def r)) = keys_kept q r"
  by (simp add: keys_kept_def release_pending_outputs_def release_capacity_def)

lemma move_keys: "transform_move scaps pcaps now def (\<sigma>, r) (\<sigma>', r') \<Longrightarrow> keys_kept r r'"
  by (auto elim!: transform_moveE intro: start_keys produce_keys)

lemma process_keys: "keys_kept (rt s) (rt (process_one scaps pcaps now def i s))"
proof -
  obtain \<sigma>1 and r1 :: sl1_runtime and \<sigma>2 and r2 :: sl1_runtime where
    "transform_move scaps pcaps now def (bt_get_or TIdle (transforms (rt s)) i, rt s) (\<sigma>1, r1)"
    "transform_move scaps pcaps now def (\<sigma>1, r1) (\<sigma>2, r2)"
    "rt (process_one scaps pcaps now def i s) = set_transform i \<sigma>2 r2"
    by (rule process_one_moves)
  moreover have "keys_kept r2 (set_transform i \<sigma>2 r2)" by (auto simp: keys_kept_def set_transform_def)
  ultimately show ?thesis by (metis keys_kept_trans move_keys)
qed

lemma transformed_keys: "keys_kept (rt s) (rt (transformed sc now s))"
proof -
  have "keys_kept (rt u) (rt (run_transforms sc now u))" for u
    unfolding run_transforms_def
    by (rule fold_inv [where P = "\<lambda>v. keys_kept (rt u) (rt v)"])
      (auto split: option.splits intro: keys_kept_trans process_keys)
  moreover have "keys_kept (rt s) (rt (aged sc now s))"
    using pressure_keys [of s sc now] by (auto simp: aged_def age_freshness_def keys_kept_def)
  ultimately show ?thesis by (auto simp: transformed_def intro: keys_kept_trans)
qed

lemma demand_keys:
  assumes "run_demand sc now s = Some t"
  shows "bt_has (demand (rt s)) k \<Longrightarrow> bt_has (demand (rt t)) k"
proof -
  have one: "bt_has (demand (rt s)) k \<longrightarrow> bt_has (demand (rt t)) k" if "demand_one now d s = Some t" for d s t
  proof (cases "k = demand_id d")
    case True
    then show ?thesis using demand_one_at [OF that] by (auto simp: bt_has_Some)
  next
    case False
    then show ?thesis using demand_one_frame(4) [OF that] by (simp add: bt_has_def)
  qed
  have "bt_has (demand (rt s)) k \<longrightarrow> bt_has (demand (rt t)) k"
    using assms unfolding run_demand_def
    by (rule fold_opt_rel [where R = "\<lambda>s t. bt_has (demand (rt s)) k \<longrightarrow> bt_has (demand (rt t)) k"])
      (use one in auto)
  then show "bt_has (demand (rt s)) k \<Longrightarrow> bt_has (demand (rt t)) k" by simp
qed

lemma agents_keys:
  assumes "agents_run sc now s = Some t"
  shows "bt_has (agents (rt s)) k \<Longrightarrow> bt_has (agents (rt t)) k"
proof -
  have upd: "bt_has (agents (upd_agent i f r)) k = bt_has (agents r) k" for i f r
    by (simp add: upd_agent_def)
  have act: "agents (apply_action act now r) = agents r" for act and r :: sl1_runtime
    by (cases act) simp
  have "bt_has (agents (rt t)) k = bt_has (agents (rt s)) k"
    using assms unfolding agents_run_def run_with_factory_def
    by (rule fold_opt_rel [where R = "\<lambda>s t. bt_has (agents (rt t)) k = bt_has (agents (rt s)) k"])
      (auto simp: decide_one_def decide_llm_def decide_act_def Let_def update_decision_clock_def
        start_cooldown_def upd act split: option.splits Option.bind_splits if_splits)
  then show "bt_has (agents (rt s)) k \<Longrightarrow> bt_has (agents (rt t)) k" by simp
qed

lemma sl1_run_keys:
  assumes "sl1_run sc now s = Some t"
  shows "keys_kept (rt s) (rt t)"
proof -
  obtain s4 s5 s6 s7 :: sl1_st where
    4: "(if sc_demand sc = [] then Some (transformed sc now s)
      else run_demand sc now (transformed sc now s)) = Some s4"
    and 5: "objectives_run sc now s4 = Some s5" and 6: "observability_run sc now s5 = Some s6"
    and 7: "(if sc_agents sc = [] then Some s6 else agents_run sc now s6) = Some s7"
    and 8: "(if sc_milestones sc = [] then Some s7 else milestones_run sc now s7) = Some t"
    by (rule sl1_run_stages [OF assms])
  have "keys_kept (rt (transformed sc now s)) (rt s4)"
    using 4 demand_keys run_demand_frame by (auto simp: keys_kept_def split: if_splits)
  moreover have "keys_kept (rt s4) (rt s5)"
    using objectives_run_frame [OF 5] by (simp add: keys_kept_def)
  moreover have "keys_kept (rt s5) (rt s6)"
    using observability_run_step [OF 6] observability_run_frame [OF 6]
    by (simp add: keys_kept_def observability_step_def)
  moreover have "keys_kept (rt s6) (rt s7)"
    using 7 agents_keys agents_step_frame [OF run_with_factory_step]
    by (auto simp: keys_kept_def agents_run_def split: if_splits)
  moreover have "keys_kept (rt s7) (rt t)"
    using 8 milestones_step_frame [OF milestones_run_step] by (auto simp: keys_kept_def split: if_splits)
  ultimately show ?thesis using transformed_keys [of s sc now] by (blast intro: keys_kept_trans)
qed

text \<open>The keys after any number of ticks.\<close>

lemma sl1_ticks_keys:
  assumes "sl1_ticks sc n w = Some w'"
  shows "keys_kept (snd w) (snd w')"
  using assms
proof (induction n arbitrary: w')
  case (Suc n)
  then obtain w1 where w1: "sl1_ticks sc n w = Some w1" "sl1_tick sc w1 = Some w'"
    by (auto split: Option.bind_splits)
  have "keys_kept (snd w1) (snd w')"
    using w1(2) sl1_run_keys [of sc _ "fresh_st (snd w1)"] by (auto simp: sl1_tick_def Let_def fresh_st_def)
  with Suc.IH [OF w1(1)] show ?case by (rule keys_kept_trans)
qed simp

lemma sl1_run_complete:
  assumes "scene_ok sc" and "MAX_DEMAND_OUTSTANDING * n < 2 ^ 64"
  shows "\<exists>r. sl1_ticks sc n (sl1_start sc) = Some (of_nat n, r) \<and> rt_complete sc r"
proof -
  obtain r where r: "sl1_ticks sc n (sl1_start sc) = Some (of_nat n, r)" "sl1_inv sc (of_nat n, r)"
    using sl1_ticks_inv [OF assms] by blast
  have "rt_complete sc (from_scene sc)" by (rule from_scene_complete [OF scene_okD(1) [OF assms(1)]])
  moreover have "keys_kept (from_scene sc) r" using sl1_ticks_keys [OF r(1)] by (simp add: sl1_start_def)
  ultimately show ?thesis using r by (auto simp: sl1_inv_def intro: rt_complete_kept)
qed

end
