(* ===== verification/Sl1_Properties.thy ===== *)
theory Sl1_Properties
  imports Sl1_Tick Demo
begin

text \<open>
  The properties of the single SL1 systems, each over the operation of one source file, with
  a witness that applies it to the scene of \<open>Demo\<close> or to concrete values. The properties
  of whole runs are in the root theory.
\<close>

section \<open>Transforms\<close>

text \<open>
  A start attempt is all or nothing: it succeeds exactly when the inputs are in stock,
  every capacity bucket has headroom under the active quota cuts, and every output has room;
  otherwise the runtime is returned unchanged, and it says which of the two is missing.
\<close>

lemma try_start_all_or_nothing:
  "(fst (try_start scaps pcaps t r) = Started \<longleftrightarrow>
      inputs_available t r \<and> capacity_headroom pcaps t r \<and> output_room scaps t r)
   \<and> (fst (try_start scaps pcaps t r) = StartStarved \<longleftrightarrow> \<not> inputs_available t r)
   \<and> (if fst (try_start scaps pcaps t r) = Started
      then snd (try_start scaps pcaps t r) = commit_start t r
      else snd (try_start scaps pcaps t r) = r)"
  by (simp add: try_start_def)

text \<open>
  A started transform consumes exactly its inputs and books exactly its capacity cost
  and its output room, at every place and key, whatever the rest of the runtime holds.
\<close>

lemma start_books_exactly:
  assumes "try_start scaps pcaps t r = (Started, r')" and "ios_ok (transform_inputs t)"
    and "held_capacity r pk + capacity_claim t pk < 2 ^ 64"
    and "held_output r pk + output_claim t pk < 2 ^ 64"
  shows "stock r' pk + input_need t pk = stock r pk
    \<and> held_capacity r' pk = held_capacity r pk + capacity_claim t pk
    \<and> held_output r' pk = held_output r pk + output_claim t pk"
  using try_start_effect [OF assms(1), of pk] assms(2-4) by (simp add: min_def)

lemma start_books_exactly_witness:
  "\<exists>r'. try_start (storage_caps demo) (place_caps demo) demo_transform (from_scene demo) = (Started, r')
    \<and> stock r' (''yard'', ''ore'') = 15 \<and> held_output r' (''yard'', ''gas'') = 20"
proof -
  let ?o = "try_start (storage_caps demo) (place_caps demo) demo_transform (from_scene demo)"
  have o: "?o = (Started, snd ?o)" by code_simp
  have ios: "ios_ok (transform_inputs demo_transform)" by code_simp
  have "held_capacity (from_scene demo) (''yard'', ''ore'') = 0"
    "capacity_claim demo_transform (''yard'', ''ore'') = 0"
    "held_output (from_scene demo) (''yard'', ''ore'') = 0"
    "output_claim demo_transform (''yard'', ''ore'') = 0"
    "input_need demo_transform (''yard'', ''ore'') = 10"
    "stock (from_scene demo) (''yard'', ''ore'') = 25" by code_simp+
  then have ore: "stock (snd ?o) (''yard'', ''ore'') = 15"
    using start_books_exactly [OF o ios, of "(''yard'', ''ore'')"] by simp
  have "held_capacity (from_scene demo) (''yard'', ''gas'') = 0"
    "capacity_claim demo_transform (''yard'', ''gas'') = 0"
    "held_output (from_scene demo) (''yard'', ''gas'') = 0"
    "output_claim demo_transform (''yard'', ''gas'') = 20" by code_simp+
  then have "held_output (snd ?o) (''yard'', ''gas'') = 20"
    using start_books_exactly [OF o ios, of "(''yard'', ''gas'')"] by simp
  with o ore show ?thesis by (intro exI [of _ "snd ?o"]) simp
qed

text \<open>
  A transform that reaches its completion tick within its deadline becomes idle, adds
  its outputs to the inventory, marks each of them fresh at this tick, gives back its
  capacity and output room, and pushes neither an event nor a warning.
\<close>

lemma completion_effect:
  assumes "advance_running t i sched started att now s = (\<sigma>', s')"
    and "now \<le> sat_add sched (transform_deadline_ticks t)"
    and "sat_add started (transform_duration_ticks t) \<le> now"
  shows "\<sigma>' = TIdle \<and> evs s' = evs s \<and> msgs s' = msgs s
    \<and> (\<forall>pk. stock (rt s') pk = min (stock (rt s) pk + output_claim t pk) (2 ^ 64 - 1)
         \<and> held_output (rt s') pk = held_output (rt s) pk - output_claim t pk
         \<and> held_capacity (rt s') pk = held_capacity (rt s) pk - capacity_claim t pk)
    \<and> (\<forall>out \<in> set (transform_outputs t).
         bt_get (freshness (rt s')) (transform_runs_on t, io_thing_id out) = Some (FOk now))"
  using advance_running_completes [OF assms] by blast

lemma completion_effect_witness:
  "fst (advance_running demo_transform ''refine'' 2 2 1 3 (fresh_st (from_scene demo))) = TIdle
   \<and> stock (rt (snd (advance_running demo_transform ''refine'' 2 2 1 3 (fresh_st (from_scene demo)))))
       (''yard'', ''gas'') = 20"
proof -
  let ?o = "advance_running demo_transform ''refine'' 2 2 1 3 (fresh_st (from_scene demo))"
  have "?o = (fst ?o, snd ?o)" by simp
  note effect = completion_effect [OF this]
  have late: "(3 :: u64) \<le> sat_add 2 (transform_deadline_ticks demo_transform)"
    and due: "sat_add 2 (transform_duration_ticks demo_transform) \<le> (3 :: u64)" by code_simp+
  have "stock (rt (fresh_st (from_scene demo))) (''yard'', ''gas'') = 0"
    "output_claim demo_transform (''yard'', ''gas'') = 20" by code_simp+
  with effect [OF late due] show ?thesis by simp
qed

section \<open>Pressure\<close>

text \<open>
  A quota cut never raises a capacity, and where \<open>base * 100\<close> fits in 64 bits the
  capacity left is the floor of \<open>base * (100 - reduction) / 100\<close>.
\<close>

lemma quota_cut_floor:
  assumes "unat (bt_get_or 0 (pr_quota_reduction p) (place, bucket)) \<le> 100"
    and "unat base * 100 < 2 ^ 64"
  shows "effective_capacity p place bucket base \<le> base
    \<and> unat (effective_capacity p place bucket base)
      = unat base * (100 - unat (bt_get_or 0 (pr_quota_reduction p) (place, bucket))) div 100"
  using assms effective_capacity_le effective_capacity_floor by auto

lemma quota_cut_floor_witness:
  "unat (effective_capacity (pressure_runtime_default\<lparr>pr_quota_reduction := [((''yard'', ''slots''), 35)]\<rparr>)
     ''yard'' ''slots'' 10) = 6"
  using quota_cut_floor [of "pressure_runtime_default\<lparr>pr_quota_reduction := [((''yard'', ''slots''), 35)]\<rparr>"
      "''yard''" "''slots''" 10]
  by (simp add: bt_get_or_def)

text \<open>
  The injection of source multipliers only adds to a stock, and never lifts it above
  the declared storage capacity; a stock that is already above stays as it is.
\<close>

lemma injection_clamped:
  "unat (bt_get2 (inventories (rt s)) p k)
     \<le> unat (bt_get2 (inventories (rt (pressure_run sc now s))) p k)
   \<and> unat (bt_get2 (inventories (rt (pressure_run sc now s))) p k)
     \<le> max (unat (bt_get2 (inventories (rt s)) p k)) (unat (bt_get_or 0 (storage_caps sc) (p, k)))"
  by (rule pressure_run_inventory_bounds)

section \<open>Demand\<close>

text \<open>
  A demand's schedule fires exactly at its declared ticks: a fixed schedule at
  \<open>start + k * every\<close>, a scripted one at its listed ticks, and neither at tick 0. The cursor of
  a scripted schedule never skips a listed tick, and the queue is left alone.
\<close>

lemma schedule_fires_as_declared:
  assumes "schedule_ok (demand_spawn_schedule d)"
    and "cursor_ok (demand_spawn_schedule d) now (scripted_cursor drt)"
  shows "\<exists>drt1. should_spawn d now drt = Some (now \<noteq> 0 \<and> fires_at (demand_spawn_schedule d) now, drt1)
    \<and> pending drt1 = pending drt \<and> next_sequence drt1 = next_sequence drt
    \<and> cursor_past (demand_spawn_schedule d) now (scripted_cursor drt1)"
  by (rule should_spawn_spec [OF assms]) blast

lemma schedule_fires_as_declared_witness:
  "\<exists>drt1. should_spawn (demo_demand\<lparr>demand_spawn_schedule := Scripted [2, 5]\<rparr>) 5
      (demand_runtime_default\<lparr>scripted_cursor := 1\<rparr>) = Some (True, drt1)"
  using schedule_fires_as_declared [of "demo_demand\<lparr>demand_spawn_schedule := Scripted [2, 5]\<rparr>" 5
      "demand_runtime_default\<lparr>scripted_cursor := 1\<rparr>"]
  by auto

text \<open>
  C18. One tick of a demand: unless an agent paused it, it spawns the effective count of
  instances on a tick its schedule lists, as far as the backlog of 10000 allows; it then
  drops the expired instances, and fulfils one if every required thing is in stock at the
  target. The invariant of the queue holds again afterwards.
\<close>

theorem demand_tick:
  assumes "demand_ok d" and "demand_inv d now0 drt" and "now0 < now"
    and "MAX_DEMAND_OUTSTANDING * unat now < 2 ^ 64"
    and "demand_one now d s = Some s'" and "bt_get (demand (rt s)) (demand_id d) = Some drt"
  shows "\<exists>drt1 drt'. bt_get (demand (rt s')) (demand_id d) = Some drt'
    \<and> drt' = settled_rt now (requirements_present d (rt s)) drt1
    \<and> length (pending drt1) = length (pending drt) + spawn_count now d (paused_at now (demand_id d) (rt s))
        (effective_spawn_count (pressure (rt s)) (demand_id d)) drt
    \<and> demand_inv d now drt'"
proof -
  let ?p = "paused_at now (demand_id d) (rt s)"
    and ?w = "effective_spawn_count (pressure (rt s)) (demand_id d)"
    and ?r = "requirements_present d (rt s)"
  have q: "queue_ok d now0 drt" "unat (next_sequence drt) \<le> MAX_DEMAND_OUTSTANDING * unat now0"
    "cursor_past (demand_spawn_schedule d) now0 (scripted_cursor drt)"
    using assms(2) by (simp_all add: demand_inv_def)
  obtain drt1 where spawned: "spawned_rt now d ?p ?w drt = Some drt1"
    and len: "length (pending drt1) = length (pending drt) + spawn_count now d ?p ?w drt"
    by (rule spawned_rt_spec [OF assms(1) q(1) assms(3) q(2,3) assms(4)])
  obtain drt2 where "spawned_rt now d ?p ?w drt = Some drt2" "demand_inv d now (settled_rt now ?r drt2)"
    by (rule demand_inv_step [OF assms(1-4)])
  moreover obtain drt3 where "spawned_rt now d ?p ?w drt = Some drt3"
    "bt_get (demand (rt s')) (demand_id d) = Some (settled_rt now ?r drt3)"
    by (rule demand_one_at [OF assms(5,6)])
  ultimately show ?thesis using spawned len by auto
qed

theorem demand_tick_witness:
  "\<exists>s' drt'. demand_one 1 demo_demand (fresh_st (from_scene demo)) = Some s'
    \<and> bt_get (demand (rt s')) ''feed'' = Some drt' \<and> demand_inv demo_demand 1 drt'"
proof -
  let ?s = "fresh_st (from_scene demo)"
  have ok: "demand_ok demo_demand" by code_simp
  have got: "bt_get (demand (rt ?s)) (demand_id demo_demand) = Some demand_runtime_default" by code_simp
  have run: "demand_one 1 demo_demand ?s = Some (the (demand_one 1 demo_demand ?s))" by code_simp
  have id: "demand_id demo_demand = ''feed''" by code_simp
  have fits: "MAX_DEMAND_OUTSTANDING * unat (1 :: u64) < 2 ^ 64"
    by (simp add: MAX_DEMAND_OUTSTANDING_def)
  have pos: "(0 :: u64) < 1" by simp
  obtain drt' where "bt_get (demand (rt (the (demand_one 1 demo_demand ?s)))) ''feed'' = Some drt'"
    "demand_inv demo_demand 1 drt'"
    using demand_tick [OF ok demand_inv_initial pos fits run got] unfolding id by blast
  with run show ?thesis by blast
qed

section \<open>Objectives, failure conditions, outcome\<close>

text \<open>
  The utilisation percentage is the exact floor of \<open>100 * min used cap / cap\<close> (no
  overflow, because the product is taken at 128 bits), so it is at most 100.
\<close>

lemma utilisation_exact:
  assumes "0 < cap"
  shows "unat (used_percent used cap) = min (unat used) (unat cap) * 100 div unat cap
    \<and> used_percent used cap \<le> 100"
  using assms by (simp add: unat_used_percent used_percent_le_100)

lemma utilisation_exact_witness:
  "unat (used_percent 18446744073709551615 18446744073709551615) = 100"
  using utilisation_exact [of "18446744073709551615" "18446744073709551615"] by simp

text \<open>
  A failure condition fires at the first tick whose run of consecutive breached ticks is
  longer than the grace, and keeps that tick for ever: over any history of evaluations, the
  recorded tick is that of the first prefix with more than \<open>grace\<close> trailing breaches.
\<close>

lemma failure_fires_after_grace:
  assumes "unat grace < 2 ^ 64 - 1"
  shows "fc_fired_at_tick (fc_history grace hs fc_initial) =
    (case find (\<lambda>n. unat grace < trailing (map snd (take n hs))) [1..<length hs + 1] of
       None \<Rightarrow> None | Some n \<Rightarrow> Some (fst (hs ! (n - 1))))"
  by (rule fc_history_fired [OF assms])

lemma failure_fires_after_grace_witness:
  "fc_fired_at_tick (fc_history 1 [(1, True), (2, False), (3, True), (4, True), (5, False)] fc_initial)
    = Some 4"
  using failure_fires_after_grace [of 1 "[(1, True), (2, False), (3, True), (4, True), (5, False)]"]
  by (simp add: trailing_def upt_rec)

text \<open>
  A loss outranks a victory: when some failure condition has fired, the outcome of the
  tick is a loss, named after the fired condition with the smallest id.
\<close>

lemma loss_names_lowest:
  assumes "sorted_wrt (<) (map fc_id (sc_failure_conditions sc))"
    and "fc \<in> set (sc_failure_conditions sc)" and "fc_has_fired r fc"
  shows "\<exists>low \<in> set (sc_failure_conditions sc). fc_has_fired r low
    \<and> (\<forall>fc' \<in> set (sc_failure_conditions sc). fc_has_fired r fc' \<longrightarrow> fc_id low \<le> fc_id fc')
    \<and> new_outcome sc r = Lost (''failure_condition:'' @ fc_id low)"
  by (rule new_outcome_lost [OF assms]) blast

lemma loss_names_lowest_witness:
  "\<exists>low \<in> set (sc_failure_conditions demo). new_outcome demo
     ((from_scene demo)\<lparr>failure_conditions := [(''overrun'', \<lparr>breach_streak_ticks = 1, fc_fired_at_tick = Some 4\<rparr>)]\<rparr>)
     = Lost (''failure_condition:'' @ fc_id low)"
proof -
  let ?r = "(from_scene demo)\<lparr>failure_conditions := [(''overrun'', \<lparr>breach_streak_ticks = 1, fc_fired_at_tick = Some 4\<rparr>)]\<rparr>"
  have "sorted_wrt (<) (map fc_id (sc_failure_conditions demo))" "demo_failure \<in> set (sc_failure_conditions demo)"
    by (simp_all add: demo_defs)
  moreover have "fc_has_fired ?r demo_failure" by (simp add: fc_has_fired_def demo_failure_def)
  ultimately show ?thesis using loss_names_lowest [of demo demo_failure ?r] by blast
qed

section \<open>Observability\<close>

text \<open>
  The freshness of a dashboard is the largest, over the things it depends on, of the
  smallest age of that thing anywhere in the yard; it is unknown as soon as one of them has
  never been produced.
\<close>

lemma dashboard_freshness_max_min:
  "dashboard_freshness d r now =
     (if \<exists>t \<in> set (dashboard_depends_on d). ages now r t = {} then None
      else Some (Max (insert 0 ((\<lambda>t. Min (ages now r t)) ` set (dashboard_depends_on d)))))"
  by (rule dashboard_freshness_spec)

text \<open>
  Alerts are edge triggered: an update pushes one event when the predicate becomes true,
  one when it stops being true, none in between; a metric without data counts as false, and
  an alert that keeps firing keeps the tick at which it began.
\<close>

lemma alert_edge_triggered:
  assumes "bt_get (metric_states (rt s)) (alert_metric a) = Some ms"
    and "bt_get (alert_states (rt s)) (alert_id a) = Some prev"
    and "update_alert now a s = Some s'"
  shows "evs s' = evs s @ alert_edge now a ms prev
    \<and> (\<exists>st. bt_get (alert_states (rt s')) (alert_id a) = Some st
         \<and> (is_firing st \<longleftrightarrow> alert_holds a ms) \<and> (is_firing prev \<and> is_firing st \<longrightarrow> st = prev))"
  using update_alert_edge [OF assms] by blast

definition demo_alert :: sl1_alert where
  "demo_alert = \<lparr>alert_id = ''low'', alert_metric = ''gas'', alert_predicate = AlertLt 10,
     alert_severity = SevWarning\<rparr>"

lemma alert_edge_triggered_witness:
  "evs (the (update_alert 7 demo_alert
      (fresh_st ((from_scene demo)\<lparr>metric_states := [(''gas'', MetricOk 4)]\<rparr>))))
    = [Sl1AlertFired ''low'' ''gas'' 4 ''warning'' ''< 10'' 7]"
proof -
  let ?s = "fresh_st ((from_scene demo)\<lparr>metric_states := [(''gas'', MetricOk 4)]\<rparr>)"
  have "bt_get (metric_states (rt ?s)) (alert_metric demo_alert) = Some (MetricOk 4)" by code_simp
  moreover have "bt_get (alert_states (rt ?s)) (alert_id demo_alert) = Some AlertInactive" by code_simp
  moreover have "update_alert 7 demo_alert ?s = Some (the (update_alert 7 demo_alert ?s))" by code_simp
  ultimately have "evs (the (update_alert 7 demo_alert ?s))
      = evs ?s @ alert_edge 7 demo_alert (MetricOk 4) AlertInactive"
    using alert_edge_triggered by blast
  moreover have "alert_edge 7 demo_alert (MetricOk 4) AlertInactive
      = [Sl1AlertFired ''low'' ''gas'' 4 ''warning'' ''< 10'' 7]" by code_simp
  ultimately show ?thesis by (simp add: fresh_st_def)
qed

section \<open>Agents\<close>

text \<open>
  The validation of a proposed action accepts exactly the throttles that are out of
  cooldown, allowed by the manifest, aimed at a declared demand that is in the agent's
  observation scope, affordable, and with a duration in range.
\<close>

lemma agent_action_accepted_iff:
  "first_rejection sc a st now (ThrottleDemand d pause) = None \<longleftrightarrow>
     (case cooldown_until_tick st of None \<Rightarrow> True | Some until \<Rightarrow> until \<le> now)
     \<and> ThrottleDemandKind \<in> set (agent_allowed_actions a)
     \<and> d \<in> demand_id ` set (sc_demand sc)
     \<and> ObsDemand d \<in> set (agent_observation_scope a)
     \<and> 1 \<le> agent_max_cost_per_decision a
     \<and> 0 < pause \<and> pause \<le> SL1_AGENT_MAX_COOLDOWN_TICKS"
  by (auto simp: first_rejection_None split: option.splits)

text \<open>
  What a decision does: a rejected action leaves one rejection event and the decision
  clock, nothing else; an accepted throttle extends the pause of its demand to the later of
  the old end and \<open>now + 1 + pause\<close>, leaves other pauses alone, and leaves one event.
\<close>

lemma agent_decision_effect:
  assumes "backend a sc now = Some (ThrottleDemand d pause)"
  shows "case first_rejection sc a st now (ThrottleDemand d pause) of
      Some reason \<Rightarrow> decide_act backend sc a st now s
        = push_event (rejected_event a (ThrottleDemand d pause) reason now)
            (with_rt (update_decision_clock (agent_id a) now) s)
    | None \<Rightarrow> evs (decide_act backend sc a st now s)
          = evs s @ [applied_event a (ThrottleDemand d pause) now]
        \<and> bt_get_or 0 (agent_demand_pauses (rt (decide_act backend sc a st now s))) d
          = max (bt_get_or 0 (agent_demand_pauses (rt s)) d) (sat_add (sat_add now 1) pause)
        \<and> (\<forall>k. k = d \<or> bt_get (agent_demand_pauses (rt (decide_act backend sc a st now s))) k
            = bt_get (agent_demand_pauses (rt s)) k)"
proof (cases "first_rejection sc a st now (ThrottleDemand d pause)")
  case None
  from decide_act_applied [of backend a sc now d pause, OF assms None] show ?thesis
    by (simp add: None) blast
next
  case (Some reason)
  from decide_act_rejected [of backend a sc now, OF assms Some] show ?thesis
    by (simp add: Some)
qed

lemma agent_decision_effect_witness:
  "evs (decide_act (scripted_backend [(2, ThrottleDemand ''feed'' 3)]) demo demo_agent
      agent_runtime_default 2 (fresh_st (from_scene demo)))
    = [applied_event demo_agent (ThrottleDemand ''feed'' 3) 2]"
proof -
  have b: "scripted_backend [(2, ThrottleDemand ''feed'' 3)] demo_agent demo 2
      = Some (ThrottleDemand ''feed'' 3)" by (simp add: scripted_backend_def)
  have "first_rejection demo demo_agent agent_runtime_default 2 (ThrottleDemand ''feed'' 3) = None"
    by code_simp
  with agent_decision_effect [of "scripted_backend [(2, ThrottleDemand ''feed'' 3)]", OF b,
      of agent_runtime_default "fresh_st (from_scene demo)"]
  show ?thesis by (simp add: fresh_st_def)
qed

text \<open>
  The agents the engine ships never act: with the default factory a tick of the agents
  leaves the demand pauses as they are, pushes no message, and only \<open>LlmDisabled\<close> events.
\<close>

lemma shipped_agents_do_not_act:
  assumes "agents_run sc now s = Some s'"
  shows "agent_demand_pauses (rt s') = agent_demand_pauses (rt s) \<and> msgs s' = msgs s
    \<and> (\<exists>es. evs s' = evs s @ es \<and> llm_events sc now es)"
  using agents_run_default [OF assms] run_with_factory_step [OF assms [unfolded agents_run_def]]
  by (simp add: agents_step_def)

lemma shipped_agents_do_not_act_witness:
  "agent_demand_pauses (rt (the (agents_run demo 2 (fresh_st (from_scene demo))))) = []"
proof -
  have "agents_run demo 2 (fresh_st (from_scene demo))
      = Some (the (agents_run demo 2 (fresh_st (from_scene demo))))" by code_simp
  from shipped_agents_do_not_act [OF this] show ?thesis
    by (simp add: fresh_st_def from_scene_def)
qed

section \<open>Milestones\<close>

text \<open>
  The comparison of an unsigned observation with a signed target is the comparison of
  their values, also for observations above the largest signed integer.
\<close>

lemma milestone_threshold_exact:
  assumes "target \<le> I64_MAX"
  shows "threshold_satisfied p observed target = milestone_evaluate p (uint observed) target"
  by (rule threshold_satisfied_exact [OF assms])

lemma milestone_threshold_exact_witness:
  "threshold_satisfied MGt 18446744073709551615 9223372036854775807"
  using milestone_threshold_exact [of 9223372036854775807 MGt 18446744073709551615]
  by (simp add: I64_MAX_def)

text \<open>
  Each milestone steps on its own: its entry after the tick is \<open>milestone_next\<close> of the
  entry before, which fires it once, never again, and a deactivation trigger only after the
  pressure has been seen active.
\<close>

lemma milestone_tick:
  assumes "milestones_run sc now s = Some s'" and "distinct (map milestone_id (sc_milestones sc))"
    and "m \<in> set (sc_milestones sc)" and "bt_get (milestones (rt s)) (milestone_id m) = Some entry"
  shows "bt_get (milestones (rt s')) (milestone_id m) = Some (fst (milestone_next now m (rt s) entry))"
  by (rule milestones_run_at [OF assms])

lemma milestone_tick_witness:
  "bt_get (milestones (rt (the (milestones_run demo 3 (fresh_st (from_scene demo)))))) ''after_surge''
    = Some \<lparr>ms_fired_at_tick = None, ms_armed = False\<rparr>"
proof -
  let ?s = "fresh_st (from_scene demo)"
  have "milestones_run demo 3 ?s = Some (the (milestones_run demo 3 ?s))" by code_simp
  moreover have "distinct (map milestone_id (sc_milestones demo))"
    "demo_milestone \<in> set (sc_milestones demo)" by (simp_all add: demo_defs)
  moreover have "bt_get (milestones (rt ?s)) (milestone_id demo_milestone)
      = Some \<lparr>ms_fired_at_tick = None, ms_armed = False\<rparr>" by code_simp
  ultimately have "bt_get (milestones (rt (the (milestones_run demo 3 ?s)))) (milestone_id demo_milestone)
      = Some (fst (milestone_next 3 demo_milestone (rt ?s) \<lparr>ms_fired_at_tick = None, ms_armed = False\<rparr>))"
    by (rule milestone_tick)
  moreover have "fst (milestone_next 3 demo_milestone (rt ?s) \<lparr>ms_fired_at_tick = None, ms_armed = False\<rparr>)
      = \<lparr>ms_fired_at_tick = None, ms_armed = False\<rparr>" by code_simp
  moreover have "milestone_id demo_milestone = ''after_surge''" by code_simp
  ultimately show ?thesis by simp
qed

end
