(* ===== verification/Lifecycle.thy ===== *)
theory Lifecycle
  imports Protocol "HOL-Library.Multiset"
begin

text \<open>
  \<open>crates/engine/src/lifecycle.rs\<close>: the request lifecycle of the asynchronous agent
  boundary. Requests are pending until a reply is drained or their deadline passes; ids
  that left are remembered in bounded rings. The pending map is a hash map, whose iteration
  order is arbitrary: it is a list of entries here, and the results are shown not to depend
  on the order of that list. The contract of the ring is the locale \<open>bounded_log\<close>.
\<close>

section \<open>Requests and replies\<close>

record request_id =
  timeline_id :: u64
  rid_agent_id :: string
  source_tick :: u64
  attempt :: u32

definition next_attempt :: "request_id \<Rightarrow> request_id" where
  "next_attempt i = i\<lparr>attempt := sat_add (attempt i) 1\<rparr>"

record agent_request =
  rq_id :: request_id
  rq_deadline_ticks :: u32
  rq_observation_json :: string

record agent_reply =
  rp_id :: request_id
  rp_chosen :: "action option"
  rp_rationale :: string
  rp_confidence :: f32_bits

definition MAX_ATTEMPTS :: u32 where "MAX_ATTEMPTS = 2"

definition COMPLETED_RING_CAP :: nat where "COMPLETED_RING_CAP = 1024"

datatype drain_outcome =
    Apply string "action option" string f32_bits
  | Duplicate sim_message
  | Stale sim_message
  | UnknownId sim_message

datatype expiry_outcome =
    Reissue agent_request sim_message
  | GiveUp sim_message

datatype enqueue_outcome = Enqueued | BackpressureDropped sim_message

record pending_entry =
  deadline_abs :: u64
  pe_request :: agent_request

section \<open>The state\<close>

record request_lifecycle =
  lc_pending :: "(request_id \<times> pending_entry) list"
  lc_completed :: "request_id list"
  lc_expired :: "request_id list"
  lc_completed_cap :: nat
  lc_expired_cap :: nat

definition with_caps :: "nat \<Rightarrow> nat \<Rightarrow> request_lifecycle" where
  "with_caps c e = \<lparr>lc_pending = [], lc_completed = [], lc_expired = [],
     lc_completed_cap = c, lc_expired_cap = e\<rparr>"

definition new_lifecycle :: request_lifecycle where
  "new_lifecycle = with_caps COMPLETED_RING_CAP COMPLETED_RING_CAP"

definition has_pending_for_agent :: "request_lifecycle \<Rightarrow> string \<Rightarrow> bool" where
  "has_pending_for_agent lc a \<longleftrightarrow> (\<exists>e \<in> set (lc_pending lc). rid_agent_id (fst e) = a)"

definition pending_count :: "request_lifecycle \<Rightarrow> nat" where
  "pending_count lc = length (lc_pending lc)"

definition hm_remove :: "'k \<Rightarrow> ('k \<times> 'v) list \<Rightarrow> ('k \<times> 'v) list" where
  "hm_remove k m = filter (\<lambda>e. fst e \<noteq> k) m"

definition hm_insert :: "'k \<Rightarrow> 'v \<Rightarrow> ('k \<times> 'v) list \<Rightarrow> ('k \<times> 'v) list" where
  "hm_insert k v m = (k, v) # hm_remove k m"

definition push_ring :: "'a list \<Rightarrow> 'a \<Rightarrow> nat \<Rightarrow> 'a list" where
  "push_ring ring x cap = (if cap \<le> length ring then tl ring else ring) @ [x]"

section \<open>Warnings\<close>

definition backpressure_warning_for :: "string \<Rightarrow> u64 \<Rightarrow> u64 \<Rightarrow> sim_message" where
  "backpressure_warning_for a current source =
     Warning (Behind (ucast (max (sat_sub current source) 1)) (Some a))"

definition behind_warning :: "u64 \<Rightarrow> request_id \<Rightarrow> sim_message" where
  "behind_warning current i =
     Warning (Behind (max (ucast (sat_sub current (source_tick i))) 1) (Some (rid_agent_id i)))"

definition duplicate_warning :: "request_id \<Rightarrow> sim_message" where
  "duplicate_warning i = Warning (InvalidAction (rid_agent_id i) ''duplicate reply'')"

definition unknown_fault :: "request_id \<Rightarrow> sim_message" where
  "unknown_fault i = Fault (EngineFault
     (''unknown request id: timeline_id='' @ dec (timeline_id i) @ '' agent_id='' @ rid_agent_id i
      @ '' source_tick='' @ dec (source_tick i) @ '' attempt='' @ dec (attempt i)))"

definition give_up_warning :: "request_id \<Rightarrow> sim_message" where
  "give_up_warning i = Warning (InvalidAction (rid_agent_id i)
     (''max attempts ('' @ dec MAX_ATTEMPTS @ '') exceeded; giving up on decision (timeline_id=''
      @ dec (timeline_id i) @ '', last attempt='' @ dec (attempt i) @ '')''))"

section \<open>Operations\<close>

definition try_enqueue ::
  "agent_request \<Rightarrow> u64 \<Rightarrow> request_lifecycle \<Rightarrow> enqueue_outcome \<times> request_lifecycle" where
  "try_enqueue rq current lc =
     (let i = rq_id rq in
      if has_pending_for_agent lc (rid_agent_id i)
      then (BackpressureDropped
              (backpressure_warning_for (rid_agent_id i) current (source_tick i)), lc)
      else (Enqueued, lc\<lparr>lc_pending := hm_insert i
              \<lparr>deadline_abs = sat_add current (ucast (rq_deadline_ticks rq)), pe_request = rq\<rparr>
              (lc_pending lc)\<rparr>))"

definition drain_reply ::
  "agent_reply \<Rightarrow> u64 \<Rightarrow> request_lifecycle \<Rightarrow> drain_outcome \<times> request_lifecycle" where
  "drain_reply rp current lc =
     (let i = rp_id rp in
      if i \<in> set (lc_completed lc) then (Duplicate (duplicate_warning i), lc)
      else if i \<in> set (lc_expired lc) then (Stale (behind_warning current i), lc)
      else case map_of (lc_pending lc) i of
        Some entry \<Rightarrow>
          let lc1 = lc\<lparr>lc_pending := hm_remove i (lc_pending lc)\<rparr> in
          if current \<le> deadline_abs entry then
            (Apply (rid_agent_id i) (rp_chosen rp) (rp_rationale rp) (rp_confidence rp),
             lc1\<lparr>lc_completed := push_ring (lc_completed lc1) i (lc_completed_cap lc1)\<rparr>)
          else (Stale (behind_warning current i),
             lc1\<lparr>lc_expired := push_ring (lc_expired lc1) i (lc_expired_cap lc1)\<rparr>)
      | None \<Rightarrow> (UnknownId (unknown_fault i), lc))"

definition overdue_ids :: "u64 \<Rightarrow> (request_id \<times> pending_entry) list \<Rightarrow> request_id list" where
  "overdue_ids current m =
     sort_key (\<lambda>i. (rid_agent_id i, timeline_id i, attempt i))
       (map fst (filter (\<lambda>e. deadline_abs (snd e) < current) m))"

definition expire_one ::
  "u64 \<Rightarrow> request_id \<Rightarrow> request_lifecycle \<times> expiry_outcome list
    \<Rightarrow> request_lifecycle \<times> expiry_outcome list" where
  "expire_one current i st =
     (case st of (lc, outs) \<Rightarrow>
        (case map_of (lc_pending lc) i of
           None \<Rightarrow> (lc, outs)
         | Some entry \<Rightarrow>
             (lc\<lparr>lc_pending := hm_remove i (lc_pending lc),
                 lc_expired := push_ring (lc_expired lc) i (lc_expired_cap lc)\<rparr>,
              outs @ [if attempt i < MAX_ATTEMPTS
                      then Reissue ((pe_request entry)\<lparr>rq_id := next_attempt i\<rparr>)
                             (behind_warning current i)
                      else GiveUp (give_up_warning i)])))"

definition expire_overdue ::
  "u64 \<Rightarrow> request_lifecycle \<Rightarrow> expiry_outcome list \<times> request_lifecycle" where
  "expire_overdue current lc =
     prod.swap (fold (expire_one current) (overdue_ids current (lc_pending lc)) (lc, []))"

section \<open>The ring contract\<close>

locale bounded_log =
  fixes push :: "'r \<Rightarrow> 'a \<Rightarrow> nat \<Rightarrow> 'r"
    and contents :: "'r \<Rightarrow> 'a list"
  assumes contents_push:
    "length (contents r) \<le> max 1 cap \<Longrightarrow>
     contents (push r x cap) = drop (Suc (length (contents r)) - max 1 cap) (contents r @ [x])"
begin

lemma push_bounded:
  assumes "length (contents r) \<le> max 1 cap"
  shows "length (contents (push r x cap)) \<le> max 1 cap"
  using contents_push [OF assms, of x] assms by simp

lemma push_mem:
  assumes "length (contents r) \<le> max 1 cap"
  shows "x \<in> set (contents (push r x cap))"
  using contents_push [OF assms, of x] assms by simp

text \<open>Pushing a sequence keeps the last \<open>max 1 cap\<close> elements ever pushed.\<close>

lemma push_all:
  assumes "contents r = drop (length zs - max 1 cap) zs"
  shows "contents (fold (\<lambda>x r. push r x cap) xs r) = drop (length (zs @ xs) - max 1 cap) (zs @ xs)"
  using assms
proof (induction xs arbitrary: r zs)
  case Nil
  then show ?case by simp
next
  case (Cons x xs)
  let ?m = "max 1 cap"
  have len: "length (contents r) = min (length zs) ?m"
    using Cons.prems by simp
  then have c: "contents (push r x cap) = drop (Suc (length (contents r)) - ?m) (contents r @ [x])"
    by (intro contents_push) simp
  have "contents (push r x cap) = drop (length (zs @ [x]) - ?m) (zs @ [x])"
  proof (cases "length zs < ?m")
    case True
    with c len Cons.prems show ?thesis by simp
  next
    case False
    then have one: "Suc (length (contents r)) - ?m = 1"
      and suc: "length (zs @ [x]) - ?m = Suc (length zs - ?m)"
      and pos: "Suc (length zs - ?m) \<le> length zs" "1 \<le> length (contents r)"
      using len by (auto simp: max_def split: if_splits)
    have "drop 1 (contents r @ [x]) = drop 1 (contents r) @ [x]" using pos(2) by simp
    moreover have "drop (Suc (length zs - ?m)) (zs @ [x]) = drop (Suc (length zs - ?m)) zs @ [x]"
      using pos(1) by simp
    moreover have "drop 1 (contents r) = drop (Suc (length zs - ?m)) zs"
      unfolding Cons.prems by (simp only: drop_drop plus_1_eq_Suc)
    ultimately show ?thesis unfolding c one suc by simp
  qed
  from Cons.IH [OF this] show ?case by simp
qed

end

lemma push_ring_contents:
  "length ring \<le> max 1 cap \<Longrightarrow>
   push_ring ring x cap = drop (Suc (length ring) - max 1 cap) (ring @ [x])"
  by (cases ring) (auto simp: push_ring_def max_def)

interpretation ring: bounded_log push_ring "\<lambda>r. r"
  by unfold_locales (rule push_ring_contents)


section \<open>The invariant\<close>

text \<open>At most one outstanding request per agent, and rings within their bound.\<close>

definition lc_inv :: "request_lifecycle \<Rightarrow> bool" where
  "lc_inv lc \<longleftrightarrow>
     distinct (map (\<lambda>e. rid_agent_id (fst e)) (lc_pending lc))
     \<and> length (lc_completed lc) \<le> max 1 (lc_completed_cap lc)
     \<and> length (lc_expired lc) \<le> max 1 (lc_expired_cap lc)"

lemma lc_inv_with_caps: "lc_inv (with_caps c e)"
  by (simp add: lc_inv_def with_caps_def)

lemma distinct_filter_map: "distinct (map f xs) \<Longrightarrow> distinct (map f (filter P xs))"
  by (induction xs) auto

lemma lc_inv_keys: "lc_inv lc \<Longrightarrow> distinct (map fst (lc_pending lc))"
  unfolding lc_inv_def by (auto simp: distinct_map inj_on_def)

lemma hm_remove_simps [simp]:
  "map_of (hm_remove k m) k' = (if k' = k then None else map_of m k')"
  "set (hm_remove k m) = {e \<in> set m. fst e \<noteq> k}"
proof -
  show "map_of (hm_remove k m) k' = (if k' = k then None else map_of m k')"
    by (induction m) (auto simp: hm_remove_def)
qed (simp add: hm_remove_def)

lemma lc_inv_enqueue:
  assumes "lc_inv lc" and "try_enqueue rq t lc = (oc, lc')"
  shows "lc_inv lc'"
proof (cases "has_pending_for_agent lc (rid_agent_id (rq_id rq))")
  case True
  with assms show ?thesis by (auto simp: try_enqueue_def Let_def)
next
  case False
  then have "rid_agent_id (rq_id rq) \<notin> (\<lambda>e. rid_agent_id (fst e)) ` set (hm_remove (rq_id rq) (lc_pending lc))"
    by (auto simp: has_pending_for_agent_def)
  moreover have "distinct (map (\<lambda>e. rid_agent_id (fst e)) (hm_remove (rq_id rq) (lc_pending lc)))"
    using assms(1) by (simp add: lc_inv_def hm_remove_def distinct_filter_map)
  ultimately show ?thesis
    using assms False by (auto simp: try_enqueue_def Let_def lc_inv_def hm_insert_def)
qed

lemma lc_inv_drain:
  assumes "lc_inv lc" and "drain_reply rp t lc = (oc, lc')"
  shows "lc_inv lc'"
  using assms ring.push_bounded [of "lc_completed lc" "lc_completed_cap lc" "rp_id rp"]
    ring.push_bounded [of "lc_expired lc" "lc_expired_cap lc" "rp_id rp"]
  by (auto simp: drain_reply_def Let_def lc_inv_def hm_remove_def distinct_filter_map
      split: if_splits option.splits)

section \<open>Draining\<close>

text \<open>
  A reply is applied exactly when its id is neither completed nor expired and its request
  is pending and not past its deadline; the request then leaves the pending set.
\<close>

lemma drain_apply_iff:
  "(\<exists>a c r f. fst (drain_reply rp t lc) = Apply a c r f) \<longleftrightarrow>
     rp_id rp \<notin> set (lc_completed lc) \<and> rp_id rp \<notin> set (lc_expired lc)
     \<and> (\<exists>e. map_of (lc_pending lc) (rp_id rp) = Some e \<and> t \<le> deadline_abs e)"
  by (auto simp: drain_reply_def Let_def split: option.splits)

lemma drain_apply_content:
  "fst (drain_reply rp t lc) = Apply a c r f \<Longrightarrow>
   a = rid_agent_id (rp_id rp) \<and> c = rp_chosen rp \<and> r = rp_rationale rp \<and> f = rp_confidence rp"
  by (auto simp: drain_reply_def Let_def split: option.splits if_splits)

lemma drain_pending:
  "map_of (lc_pending (snd (drain_reply rp t lc))) k =
     (if k = rp_id rp \<and> rp_id rp \<notin> set (lc_completed lc) \<and> rp_id rp \<notin> set (lc_expired lc)
      then None else map_of (lc_pending lc) k)"
  by (auto simp: drain_reply_def Let_def split: option.splits)

lemma drain_twice:
  assumes "lc_inv lc" and "fst (drain_reply rp t lc) = Apply a c r f"
    and "rp_id rp' = rp_id rp"
  shows "fst (drain_reply rp' t' (snd (drain_reply rp t lc))) = Duplicate (duplicate_warning (rp_id rp))"
proof -
  have "rp_id rp \<in> set (lc_completed (snd (drain_reply rp t lc)))"
    using assms(1,2) ring.push_mem [of "lc_completed lc" "lc_completed_cap lc" "rp_id rp"]
    by (auto simp: drain_reply_def Let_def lc_inv_def split: option.splits if_splits)
  then show ?thesis using assms(3) by (simp add: drain_reply_def Let_def)
qed

section \<open>Expiry\<close>

definition expiry_of ::
  "u64 \<Rightarrow> (request_id \<times> pending_entry) list \<Rightarrow> request_id \<Rightarrow> expiry_outcome list" where
  "expiry_of current m i =
     (case map_of m i of
        None \<Rightarrow> []
      | Some entry \<Rightarrow>
          [if attempt i < MAX_ATTEMPTS
           then Reissue ((pe_request entry)\<lparr>rq_id := next_attempt i\<rparr>) (behind_warning current i)
           else GiveUp (give_up_warning i)])"

lemma fold_expire:
  assumes "distinct ids" and "set ids \<subseteq> fst ` set (lc_pending lc)"
  shows "fold (expire_one current) ids (lc, outs) =
    (lc\<lparr>lc_pending := filter (\<lambda>e. fst e \<notin> set ids) (lc_pending lc),
        lc_expired := fold (\<lambda>i r. push_ring r i (lc_expired_cap lc)) ids (lc_expired lc)\<rparr>,
     outs @ concat (map (expiry_of current (lc_pending lc)) ids))"
  using assms
proof (induction ids arbitrary: lc outs)
  case Nil
  have "filter (\<lambda>e. True) m = m" for m :: "(request_id \<times> pending_entry) list" by simp
  then show ?case by simp
next
  case (Cons i ids)
  from Cons.prems(2) obtain entry where e: "map_of (lc_pending lc) i = Some entry"
    by (metis insert_subset list.simps(15) map_of_eq_None_iff not_None_eq)
  define lc1 where "lc1 = lc\<lparr>lc_pending := hm_remove i (lc_pending lc),
      lc_expired := push_ring (lc_expired lc) i (lc_expired_cap lc)\<rparr>"
  have step: "expire_one current i (lc, outs) = (lc1, outs @ expiry_of current (lc_pending lc) i)"
    by (simp add: expire_one_def e expiry_of_def lc1_def)
  have sub: "set ids \<subseteq> fst ` set (lc_pending lc1)"
    using Cons.prems by (fastforce simp: lc1_def)
  have same: "map (expiry_of current (lc_pending lc1)) ids = map (expiry_of current (lc_pending lc)) ids"
    using Cons.prems(1) by (auto simp: expiry_of_def lc1_def)
  have filt: "filter (\<lambda>e. fst e \<notin> set ids) (hm_remove i m) = filter (\<lambda>e. fst e \<notin> set (i # ids)) m"
    for m :: "(request_id \<times> pending_entry) list"
    by (auto simp: hm_remove_def intro: filter_cong)
  have "fold (expire_one current) (i # ids) (lc, outs)
      = fold (expire_one current) ids (lc1, outs @ expiry_of current (lc_pending lc) i)"
    by (simp add: step)
  also have "\<dots> = (lc1\<lparr>lc_pending := filter (\<lambda>e. fst e \<notin> set ids) (lc_pending lc1),
        lc_expired := fold (\<lambda>i r. push_ring r i (lc_expired_cap lc1)) ids (lc_expired lc1)\<rparr>,
     (outs @ expiry_of current (lc_pending lc) i)
       @ concat (map (expiry_of current (lc_pending lc1)) ids))"
    using Cons.prems(1) by (intro Cons.IH sub) simp
  finally show ?case
    using filt [of "lc_pending lc"] by (simp add: same) (simp add: lc1_def)
qed

lemma overdue_ids_set:
  "set (overdue_ids t m) = fst ` {e \<in> set m. deadline_abs (snd e) < t}"
  by (auto simp: overdue_ids_def)

lemma overdue_ids_distinct: "distinct (map fst m) \<Longrightarrow> distinct (overdue_ids t m)"
  by (simp add: overdue_ids_def distinct_filter_map)

lemma expire_overdue_eq:
  assumes "lc_inv lc"
  shows "fst (expire_overdue t lc)
      = concat (map (expiry_of t (lc_pending lc)) (overdue_ids t (lc_pending lc)))"
    and "lc_pending (snd (expire_overdue t lc)) = filter (\<lambda>e. t \<le> deadline_abs (snd e)) (lc_pending lc)"
    and "lc_expired (snd (expire_overdue t lc))
      = fold (\<lambda>i r. push_ring r i (lc_expired_cap lc)) (overdue_ids t (lc_pending lc)) (lc_expired lc)"
    and "lc_completed (snd (expire_overdue t lc)) = lc_completed lc"
    and "lc_completed_cap (snd (expire_overdue t lc)) = lc_completed_cap lc"
    and "lc_expired_cap (snd (expire_overdue t lc)) = lc_expired_cap lc"
proof -
  let ?ids = "overdue_ids t (lc_pending lc)"
  have keys: "distinct (map fst (lc_pending lc))" by (rule lc_inv_keys [OF assms])
  have sub: "set ?ids \<subseteq> fst ` set (lc_pending lc)" by (auto simp: overdue_ids_set)
  note eq = fold_expire [OF overdue_ids_distinct [OF keys] sub, of t "[]"]
  have "fst e \<in> set ?ids \<longleftrightarrow> deadline_abs (snd e) < t" if "e \<in> set (lc_pending lc)" for e
  proof -
    have "e = e'" if "e' \<in> set (lc_pending lc)" "fst e' = fst e" for e'
      using keys that \<open>e \<in> set (lc_pending lc)\<close> by (auto simp: distinct_map inj_on_def)
    then show ?thesis using that by (fastforce simp: overdue_ids_set)
  qed
  then have "filter (\<lambda>e. fst e \<notin> set ?ids) (lc_pending lc)
      = filter (\<lambda>e. t \<le> deadline_abs (snd e)) (lc_pending lc)"
    by (intro filter_cong) (auto simp: not_less)
  with eq show "fst (expire_overdue t lc) = concat (map (expiry_of t (lc_pending lc)) ?ids)"
    "lc_pending (snd (expire_overdue t lc)) = filter (\<lambda>e. t \<le> deadline_abs (snd e)) (lc_pending lc)"
    "lc_expired (snd (expire_overdue t lc))
      = fold (\<lambda>i r. push_ring r i (lc_expired_cap lc)) ?ids (lc_expired lc)"
    "lc_completed (snd (expire_overdue t lc)) = lc_completed lc"
    "lc_completed_cap (snd (expire_overdue t lc)) = lc_completed_cap lc"
    "lc_expired_cap (snd (expire_overdue t lc)) = lc_expired_cap lc"
    by (simp_all add: expire_overdue_def)
qed

lemma lc_inv_expire:
  assumes "lc_inv lc"
  shows "lc_inv (snd (expire_overdue t lc))"
proof -
  have "length (fold (\<lambda>i r. push_ring r i c) ids r) \<le> max 1 c"
    if "length r \<le> max 1 c" for ids r c
    using that
    by (induction ids arbitrary: r)
      (simp, simp only: fold_simps o_apply, blast intro: ring.push_bounded)
  from this [of "lc_expired lc" "lc_expired_cap lc"] show ?thesis
    using assms unfolding lc_inv_def expire_overdue_eq [OF assms]
    by (simp add: distinct_filter_map)
qed

text \<open>
  The order in which the hash map hands out its entries does not matter: the sort key
  separates the overdue ids, because no agent has two requests outstanding.
\<close>

lemma overdue_key_inj:
  assumes "distinct (map (\<lambda>e. rid_agent_id (fst e)) m)"
  shows "inj_on (\<lambda>i. (rid_agent_id i, timeline_id i, attempt i)) (fst ` set m)"
  using assms by (auto simp: inj_on_def distinct_map)

lemma overdue_ids_perm:
  assumes "distinct (map (\<lambda>e. rid_agent_id (fst e)) m)" and "mset m = mset m'"
  shows "overdue_ids t m = overdue_ids t m'"
proof -
  let ?k = "\<lambda>i. (rid_agent_id i, timeline_id i, attempt i)"
  have sets: "set m = set m'" using assms(2) by (rule mset_eq_setD)
  have "distinct (map (\<lambda>e. rid_agent_id (fst e)) m')"
    using assms by (metis mset_eq_imp_distinct_iff mset_map)
  then have k: "distinct (map fst m)" "distinct (map fst m')"
    using assms(1) by (auto simp: distinct_map inj_on_def)
  have inj: "inj_on ?k (set (overdue_ids t m) \<union> set (overdue_ids t m'))"
    by (rule inj_on_subset [OF overdue_key_inj [OF assms(1)]]) (auto simp: overdue_ids_set sets)
  have srt: "sorted (map ?k (overdue_ids t x))" for x by (simp add: overdue_ids_def)
  have dst: "distinct (map ?k (overdue_ids t m))" "distinct (map ?k (overdue_ids t m'))"
    unfolding distinct_map
    using inj overdue_ids_distinct [OF k(1)] overdue_ids_distinct [OF k(2)]
    by (simp_all add: inj_on_Un)
  show ?thesis
    by (rule map_sorted_distinct_set_unique [OF inj srt dst(1) srt dst(2)])
      (simp add: overdue_ids_set sets)
qed

lemma map_of_perm:
  "distinct (map fst m) \<Longrightarrow> mset m = mset m' \<Longrightarrow> map_of m = map_of m'"
  using map_of_inject_set [of m m'] mset_eq_setD [of m m']
  by (metis mset_eq_imp_distinct_iff mset_map)

section \<open>Histories\<close>

text \<open>
  A history is the sequence of calls the driver makes. \<open>lc_entered\<close>, \<open>lc_applied\<close>, \<open>lc_late\<close> and
  \<open>lc_lapsed\<close> count, for one request id, the requests accepted, the replies applied, the
  replies that arrived after the deadline, and the requests that expiry removed.
\<close>

datatype lc_op =
    OpEnqueue agent_request u64
  | OpDrain agent_reply u64
  | OpExpire u64

fun lc_step :: "lc_op \<Rightarrow> request_lifecycle \<Rightarrow> request_lifecycle" where
  "lc_step (OpEnqueue rq t) lc = snd (try_enqueue rq t lc)"
| "lc_step (OpDrain rp t) lc = snd (drain_reply rp t lc)"
| "lc_step (OpExpire t) lc = snd (expire_overdue t lc)"

primrec lc_run :: "lc_op list \<Rightarrow> request_lifecycle \<Rightarrow> request_lifecycle" where
  "lc_run [] lc = lc"
| "lc_run (x # xs) lc = lc_run xs (lc_step x lc)"

fun was_applied :: "drain_outcome \<Rightarrow> bool" where
  "was_applied (Apply _ _ _ _) = True"
| "was_applied _ = False"

fun lc_entered1 :: "request_id \<Rightarrow> lc_op \<Rightarrow> request_lifecycle \<Rightarrow> nat" where
  "lc_entered1 i (OpEnqueue rq t) lc = of_bool (rq_id rq = i \<and> fst (try_enqueue rq t lc) = Enqueued)"
| "lc_entered1 i _ lc = 0"

fun lc_applied1 :: "request_id \<Rightarrow> lc_op \<Rightarrow> request_lifecycle \<Rightarrow> nat" where
  "lc_applied1 i (OpDrain rp t) lc = of_bool (rp_id rp = i \<and> was_applied (fst (drain_reply rp t lc)))"
| "lc_applied1 i _ lc = 0"

fun lc_late1 :: "request_id \<Rightarrow> lc_op \<Rightarrow> request_lifecycle \<Rightarrow> nat" where
  "lc_late1 i (OpDrain rp t) lc =
     of_bool (rp_id rp = i \<and> i \<notin> set (lc_completed lc) \<and> i \<notin> set (lc_expired lc)
              \<and> (\<exists>e. map_of (lc_pending lc) i = Some e \<and> deadline_abs e < t))"
| "lc_late1 i _ lc = 0"

fun lc_lapsed1 :: "request_id \<Rightarrow> lc_op \<Rightarrow> request_lifecycle \<Rightarrow> nat" where
  "lc_lapsed1 i (OpExpire t) lc = of_bool (i \<in> set (overdue_ids t (lc_pending lc)))"
| "lc_lapsed1 i _ lc = 0"

primrec tally :: "(lc_op \<Rightarrow> request_lifecycle \<Rightarrow> nat) \<Rightarrow> lc_op list \<Rightarrow> request_lifecycle \<Rightarrow> nat" where
  "tally f [] lc = 0"
| "tally f (x # xs) lc = f x lc + tally f xs (lc_step x lc)"

definition pending_of :: "request_id \<Rightarrow> request_lifecycle \<Rightarrow> nat" where
  "pending_of i lc = of_bool (map_of (lc_pending lc) i \<noteq> None)"

lemma lc_inv_step: "lc_inv lc \<Longrightarrow> lc_inv (lc_step x lc)"
  by (cases x) (metis lc_step.simps lc_inv_enqueue lc_inv_drain lc_inv_expire surjective_pairing)+

lemma lc_inv_run: "lc_inv lc \<Longrightarrow> lc_inv (lc_run xs lc)"
  by (induction xs arbitrary: lc) (simp_all add: lc_inv_step)

lemma pending_of_mem: "pending_of i lc = of_bool (i \<in> fst ` set (lc_pending lc))"
  by (simp add: pending_of_def map_of_eq_None_iff)

lemma lc_step_balance:
  assumes "lc_inv lc"
  shows "pending_of i lc + lc_entered1 i x lc
       = pending_of i (lc_step x lc) + lc_applied1 i x lc + lc_late1 i x lc + lc_lapsed1 i x lc"
proof (cases x)
  case (OpEnqueue rq t)
  have "map_of (lc_pending lc) (rq_id rq) = None" if "\<not> has_pending_for_agent lc (rid_agent_id (rq_id rq))"
    using that by (auto simp: has_pending_for_agent_def map_of_eq_None_iff)
  with OpEnqueue show ?thesis
    by (auto simp: try_enqueue_def Let_def pending_of_def hm_insert_def)
next
  case (OpDrain rp t)
  then show ?thesis
    by (cases "map_of (lc_pending lc) (rp_id rp)")
      (auto simp: drain_reply_def Let_def pending_of_def not_le)
next
  case (OpExpire t)
  have "(i \<in> fst ` {e \<in> set (lc_pending lc). t \<le> deadline_abs (snd e)}) \<longleftrightarrow>
        i \<in> fst ` set (lc_pending lc) \<and> i \<notin> fst ` {e \<in> set (lc_pending lc). deadline_abs (snd e) < t}"
    using lc_inv_keys [OF assms] by (fastforce simp: distinct_map inj_on_def not_less)
  moreover have "i \<in> fst ` set (lc_pending lc)"
    if "i \<in> fst ` {e \<in> set (lc_pending lc). deadline_abs (snd e) < t}"
    using that by auto
  ultimately show ?thesis using OpExpire
    by (simp add: pending_of_mem expire_overdue_eq [OF assms] overdue_ids_set)
qed

lemma tally_balance:
  "lc_inv lc \<Longrightarrow>
   pending_of i lc + tally (lc_entered1 i) xs lc
     = pending_of i (lc_run xs lc) + tally (lc_applied1 i) xs lc
       + tally (lc_late1 i) xs lc + tally (lc_lapsed1 i) xs lc"
proof (induction xs arbitrary: lc)
  case (Cons x xs)
  from Cons.IH [OF lc_inv_step [OF Cons.prems], of x] lc_step_balance [OF Cons.prems, of i x]
  show ?case by (simp only: tally.simps lc_run.simps)
qed simp

section \<open>Properties\<close>

definition demo_id :: request_id where
  "demo_id = \<lparr>timeline_id = 1, rid_agent_id = ''ops'', source_tick = 4, attempt = 1\<rparr>"

definition demo_request :: agent_request where
  "demo_request = \<lparr>rq_id = demo_id, rq_deadline_ticks = 3, rq_observation_json = ''{}''\<rparr>"

definition demo_reply :: agent_reply where
  "demo_reply = \<lparr>rp_id = demo_id, rp_chosen = Some NoOp, rp_rationale = [], rp_confidence = 0\<rparr>"

definition demo_lc :: request_lifecycle where
  "demo_lc = snd (try_enqueue demo_request 4 new_lifecycle)"

lemma demo_lc_inv: "lc_inv demo_lc"
  unfolding demo_lc_def new_lifecycle_def
  by (rule lc_inv_enqueue [OF lc_inv_with_caps]) (rule prod.collapse [symmetric])

text \<open>
  A reply is applied exactly when its request is pending, in time, and its id is neither
  among the completed nor among the expired ones; what is applied is the reply's own content.
\<close>

lemma reply_applied_iff:
  "(\<exists>a c r f. fst (drain_reply rp t lc) = Apply a c r f) = (
     rp_id rp \<notin> set (lc_completed lc) \<and> rp_id rp \<notin> set (lc_expired lc)
     \<and> (\<exists>e. map_of (lc_pending lc) (rp_id rp) = Some e \<and> t \<le> deadline_abs e))
   \<and> (was_applied (fst (drain_reply rp t lc)) = (fst (drain_reply rp t lc) =
        Apply (rid_agent_id (rp_id rp)) (rp_chosen rp) (rp_rationale rp) (rp_confidence rp)))"
  using drain_apply_iff [of rp t lc] drain_apply_content [of rp t lc]
  by (cases "fst (drain_reply rp t lc)") auto

text \<open>
  No reply is applied twice: after one is applied, the next reply with the same id is
  reported as a duplicate, whatever its content and whenever it comes.
\<close>

lemma reply_not_applied_twice:
  assumes "lc_inv lc" and "was_applied (fst (drain_reply rp t lc))" and "rp_id rp' = rp_id rp"
  shows "fst (drain_reply rp' t' (snd (drain_reply rp t lc))) = Duplicate (duplicate_warning (rp_id rp))"
proof -
  from assms(2) obtain a c r f where "fst (drain_reply rp t lc) = Apply a c r f"
    by (cases "fst (drain_reply rp t lc)") auto
  with assms show ?thesis by (intro drain_twice)
qed

lemma reply_not_applied_twice_witness:
  "fst (drain_reply demo_reply 6 (snd (drain_reply demo_reply 5 demo_lc)))
    = Duplicate (duplicate_warning demo_id)"
proof -
  have "was_applied (fst (drain_reply demo_reply 5 demo_lc))" by code_simp
  from reply_not_applied_twice [OF demo_lc_inv this refl] show ?thesis
    by (simp add: demo_reply_def)
qed

text \<open>
  Expiry does not depend on the order in which the hash map hands out its entries: two
  lifecycles with the same entries in any order give the same outcomes in the same order,
  expire the same ids in the same order, and keep the same entries.
\<close>

lemma expiry_order_independent:
  assumes "lc_inv lc" and "lc_inv lc'" and "mset (lc_pending lc) = mset (lc_pending lc')"
    and "lc_expired lc = lc_expired lc'" and "lc_expired_cap lc = lc_expired_cap lc'"
  shows "fst (expire_overdue t lc) = fst (expire_overdue t lc')
    \<and> lc_expired (snd (expire_overdue t lc)) = lc_expired (snd (expire_overdue t lc'))
    \<and> mset (lc_pending (snd (expire_overdue t lc))) = mset (lc_pending (snd (expire_overdue t lc')))"
proof -
  have ids: "overdue_ids t (lc_pending lc) = overdue_ids t (lc_pending lc')"
    using assms(1,3) by (intro overdue_ids_perm) (simp_all add: lc_inv_def)
  have "map_of (lc_pending lc) = map_of (lc_pending lc')"
    by (rule map_of_perm [OF lc_inv_keys [OF assms(1)] assms(3)])
  then have "expiry_of t (lc_pending lc) = expiry_of t (lc_pending lc')"
    by (simp add: expiry_of_def fun_eq_iff)
  with ids assms(3-5) show ?thesis
    by (simp add: expire_overdue_eq [OF assms(1)] expire_overdue_eq [OF assms(2)])
qed

lemma expiry_order_independent_witness:
  "fst (expire_overdue 9 demo_lc) = fst (expire_overdue 9 (demo_lc\<lparr>lc_pending := rev (lc_pending demo_lc)\<rparr>))"
proof -
  let ?r = "demo_lc\<lparr>lc_pending := rev (lc_pending demo_lc)\<rparr>"
  have "lc_inv ?r" using demo_lc_inv by (simp add: lc_inv_def rev_map [symmetric])
  then show ?thesis by (intro conjunct1 [OF expiry_order_independent [OF demo_lc_inv]]) simp_all
qed

text \<open>
  C19. Every accepted request ends exactly once: over any history of calls, the requests
  accepted under an id are those applied, those whose reply came late, those that expired,
  and the one still pending; and at no time has an agent two requests pending.
\<close>

theorem requests_end_once:
  "tally (lc_entered1 i) xs (with_caps c e)
     = pending_of i (lc_run xs (with_caps c e)) + tally (lc_applied1 i) xs (with_caps c e)
       + tally (lc_late1 i) xs (with_caps c e) + tally (lc_lapsed1 i) xs (with_caps c e)
   \<and> distinct (map (\<lambda>e. rid_agent_id (fst e)) (lc_pending (lc_run xs (with_caps c e))))
   \<and> length (lc_completed (lc_run xs (with_caps c e))) \<le> max 1 (lc_completed_cap (lc_run xs (with_caps c e)))"
proof -
  have "pending_of i (with_caps c e) = 0" by (simp add: pending_of_def with_caps_def)
  with tally_balance [OF lc_inv_with_caps, of i c e xs] lc_inv_run [OF lc_inv_with_caps, of xs c e]
  show ?thesis by (simp add: lc_inv_def)
qed

text \<open>
  C20. Expiry leaves nothing overdue behind, and it asks for a retry only below the attempt
  limit: a reissued request has attempt at most \<open>MAX_ATTEMPTS\<close>, one more than its source.
\<close>

theorem expiry_complete_and_bounded:
  assumes "lc_inv lc"
  shows "(\<forall>e \<in> set (lc_pending (snd (expire_overdue t lc))). t \<le> deadline_abs (snd e))
    \<and> length (fst (expire_overdue t lc)) = length (overdue_ids t (lc_pending lc))
    \<and> (\<forall>rq w. Reissue rq w \<in> set (fst (expire_overdue t lc)) \<longrightarrow>
         attempt (rq_id rq) \<le> MAX_ATTEMPTS
         \<and> (\<exists>i \<in> set (overdue_ids t (lc_pending lc)). rq_id rq = next_attempt i))"
proof -
  let ?m = "lc_pending lc"
  have some: "\<exists>x. expiry_of t ?m i = [x]" if "i \<in> set (overdue_ids t ?m)" for i
  proof -
    from that have "i \<in> fst ` set ?m" by (auto simp: overdue_ids_set)
    then obtain x where "map_of ?m i = Some x" by (metis map_of_eq_None_iff not_None_eq)
    then show ?thesis by (simp add: expiry_of_def)
  qed
  have len: "length (concat (map (expiry_of t ?m) is)) = length is" if "set is \<subseteq> set (overdue_ids t ?m)" for "is"
    using that some by (induction "is") fastforce+
  have "attempt (rq_id rq) \<le> MAX_ATTEMPTS \<and> rq_id rq = next_attempt i"
    if "Reissue rq w \<in> set (expiry_of t ?m i)" for rq w i
    using that sat_add_zero [of "attempt i"]
    by (auto simp: expiry_of_def next_attempt_def MAX_ATTEMPTS_def word_le_nat_alt word_less_nat_alt
        unat_sat_add split: option.splits if_splits)
  then show ?thesis
    using len [of "overdue_ids t ?m"] unfolding expire_overdue_eq [OF assms] by fastforce
qed

theorem expiry_complete_and_bounded_witness:
  "length (fst (expire_overdue 9 demo_lc)) = 1"
  using expiry_complete_and_bounded [OF demo_lc_inv, of 9]
  by (simp add: demo_lc_def demo_request_def demo_id_def new_lifecycle_def with_caps_def
      try_enqueue_def Let_def has_pending_for_agent_def hm_insert_def hm_remove_def overdue_ids_def
      sat_add_def)

end
