(* ===== verification/Production.thy ===== *)
theory Production
  imports Base Btree
begin

text \<open>
  \<open>crates/engine/src/systems/production.rs\<close> with the producers and consumers of
  \<open>components.rs\<close>: producers that fire add to the global inventory, then the consumers
  that fire and find enough stock take from it. The scratch vectors are the intermediate
  lists; the part of the world the system touches is the record \<open>prod_world\<close>.
\<close>

section \<open>The world of the production system\<close>

record producer =
  p_id :: u32
  p_resource :: u32
  p_amount :: u64
  p_interval_ticks :: u32

record consumer =
  c_id :: u32
  c_resource :: u32
  c_amount :: u64
  c_interval_ticks :: u32

record prod_world =
  pw_tick :: u64
  pw_producers :: "(u32, producer) btree_map"
  pw_consumers :: "(u32, consumer) btree_map"
  pw_inventory :: "(u32, u64) btree_map"

record production_stats =
  ps_produced :: u64
  ps_consumed :: u64

section \<open>The system\<close>

definition fires :: "u64 \<Rightarrow> u32 \<Rightarrow> bool" where
  "fires t interval_ticks \<longleftrightarrow> 0 < interval_ticks \<and> t mod ucast interval_ticks = 0"

definition produced_scratch :: "'z prod_world_scheme \<Rightarrow> (u32 \<times> u32 \<times> u64) list" where
  "produced_scratch w =
     map (\<lambda>(pid, p). (pid, p_resource p, p_amount p))
       (filter (\<lambda>(pid, p). fires (pw_tick w) (p_interval_ticks p)) (pw_producers w))"

definition add_produced ::
  "u32 \<times> u32 \<times> u64 \<Rightarrow> 'z prod_world_scheme \<times> production_stats \<Rightarrow> 'z prod_world_scheme \<times> production_stats" where
  "add_produced e st = (case (e, st) of ((_, rsrc, amount), (w, stats)) \<Rightarrow>
     (w\<lparr>pw_inventory := bt_upsert rsrc 0 (\<lambda>slot. sat_add slot amount) (pw_inventory w)\<rparr>,
      stats\<lparr>ps_produced := sat_add (ps_produced stats) amount\<rparr>))"

definition consumed_scratch :: "'z prod_world_scheme \<Rightarrow> (u32 \<times> u32 \<times> u64) list" where
  "consumed_scratch w =
     map (\<lambda>(cid, c). (cid, c_resource c, c_amount c))
       (filter (\<lambda>(cid, c). fires (pw_tick w) (c_interval_ticks c)
                  \<and> c_amount c \<le> bt_get_or 0 (pw_inventory w) (c_resource c)) (pw_consumers w))"

definition take_consumed ::
  "u32 \<times> u32 \<times> u64 \<Rightarrow> 'z prod_world_scheme \<times> production_stats \<Rightarrow> 'z prod_world_scheme \<times> production_stats" where
  "take_consumed e st = (case (e, st) of ((_, rsrc, amount), (w, stats)) \<Rightarrow>
     if bt_has (pw_inventory w) rsrc
     then (w\<lparr>pw_inventory := bt_modify rsrc (\<lambda>slot. sat_sub slot amount) (pw_inventory w)\<rparr>,
           stats\<lparr>ps_consumed := sat_add (ps_consumed stats) amount\<rparr>)
     else (w, stats))"

definition production_run :: "'z prod_world_scheme \<Rightarrow> 'z prod_world_scheme \<times> production_stats" where
  "production_run w =
     (let (w1, stats) = fold add_produced (produced_scratch w) (w, \<lparr>ps_produced = 0, ps_consumed = 0\<rparr>) in
      fold take_consumed (consumed_scratch w1) (w1, stats))"

section \<open>What the loops do\<close>

text \<open>The total of the scratch entries for one resource, in \<open>nat\<close>.\<close>

definition scratch_total :: "u32 \<Rightarrow> (u32 \<times> u32 \<times> u64) list \<Rightarrow> nat" where
  "scratch_total r es = sum_list (map (\<lambda>(_, r', a). if r' = r then unat a else 0) es)"

abbreviation stock_of :: "'z prod_world_scheme \<Rightarrow> u32 \<Rightarrow> u64" where
  "stock_of w r \<equiv> bt_get_or 0 (pw_inventory w) r"

lemma scratch_total_simps [simp]:
  "scratch_total r [] = 0"
  "scratch_total r ((i, r', a) # es) = (if r' = r then unat a else 0) + scratch_total r es"
  by (simp_all add: scratch_total_def)

lemma stock_fold_produced:
  "unat (stock_of (fst (fold add_produced es (w, s))) r)
     = min (unat (stock_of w r) + scratch_total r es) (2 ^ 64 - 1)"
proof (induction es arbitrary: w s)
  case Nil
  show ?case using unat_max [of "stock_of w r"] by simp
next
  case (Cons e es)
  obtain i r' a where e: "e = (i, r', a)" by (cases e)
  show ?case
    unfolding e fold_simps o_apply
    by (simp only: add_produced_def prod.case Cons.IH)
      (simp add: unat_sat_add min_def)
qed

lemma stock_fold_consumed:
  "unat (stock_of (fst (fold take_consumed es (w, s))) r)
     = unat (stock_of w r) - scratch_total r es"
proof (induction es arbitrary: w s)
  case (Cons e es)
  obtain i r' a where e: "e = (i, r', a)" by (cases e)
  have "bt_get_or 0 (bt_modify r' f m) r = (if r = r' \<and> bt_has m r' then f (bt_get_or 0 m r) else bt_get_or 0 m r)"
    for f :: "u64 \<Rightarrow> u64" and m :: "(u32, u64) btree_map"
    by (auto simp: bt_get_or_def bt_has_def)
  moreover have "bt_get_or 0 m r' = 0" if "\<not> bt_has m r'" for m :: "(u32, u64) btree_map"
    using that by (simp add: bt_get_or_def bt_has_def)
  ultimately show ?case
    unfolding e fold_simps o_apply
    by (auto simp: take_consumed_def Cons.IH unat_sat_sub)
qed simp

text \<open>The system only ever writes the inventory.\<close>

lemma only_inventory_fold:
  assumes "\<And>x u. fst (f x u) = (fst u)\<lparr>pw_inventory := pw_inventory (fst (f x u))\<rparr>"
  shows "fst (fold f es st) = (fst st)\<lparr>pw_inventory := pw_inventory (fst (fold f es st))\<rparr>"
proof (induction es arbitrary: st)
  case (Cons e es)
  have "fst (fold f es (f e st)) = (fst (f e st))\<lparr>pw_inventory := pw_inventory (fst (fold f es (f e st)))\<rparr>"
    by (rule Cons.IH)
  also have "\<dots> = (fst st)\<lparr>pw_inventory := pw_inventory (fst (fold f es (f e st)))\<rparr>"
    by (subst assms) simp
  finally show ?case by simp
qed simp

lemma production_run_frame:
  fixes w :: "'z prod_world_scheme"
  shows "fst (production_run w) = w\<lparr>pw_inventory := pw_inventory (fst (production_run w))\<rparr>"
proof -
  let ?z = "\<lparr>ps_produced = 0, ps_consumed = 0\<rparr>"
  have a: "fst (add_produced e u) = (fst u)\<lparr>pw_inventory := pw_inventory (fst (add_produced e u))\<rparr>"
    and t: "fst (take_consumed e u) = (fst u)\<lparr>pw_inventory := pw_inventory (fst (take_consumed e u))\<rparr>"
    for e and u :: "'z prod_world_scheme \<times> production_stats"
    by (auto simp: add_produced_def take_consumed_def split: prod.splits)
  let ?st = "fold add_produced (produced_scratch w) (w, ?z)"
  let ?es = "consumed_scratch (fst ?st)"
  have run: "production_run w = fold take_consumed ?es ?st"
    by (simp add: production_run_def case_prod_beta)
  have "fst (fold take_consumed ?es ?st)
      = (fst ?st)\<lparr>pw_inventory := pw_inventory (fst (fold take_consumed ?es ?st))\<rparr>"
    by (rule only_inventory_fold [OF t])
  also have "\<dots> = w\<lparr>pw_inventory := pw_inventory (fst (fold take_consumed ?es ?st))\<rparr>"
    by (subst only_inventory_fold [OF a]) simp
  finally show ?thesis by (simp only: run)
qed

lemma production_run_frames [simp]:
  "pw_tick (fst (production_run w)) = pw_tick w"
  "pw_producers (fst (production_run w)) = pw_producers w"
  "pw_consumers (fst (production_run w)) = pw_consumers w"
  "prod_world.more (fst (production_run w)) = prod_world.more w"
  by (subst production_run_frame, simp)+

text \<open>The inventory stays a map, and its keys are the old ones and the producers' resources.\<close>

lemma production_run_keys:
  fixes w :: "'z prod_world_scheme"
  assumes "bt_wf (pw_inventory w)" and "\<And>i p. (i, p) \<in> set (pw_producers w) \<Longrightarrow> P (p_resource p)"
    and "\<And>k. bt_has (pw_inventory w) k \<Longrightarrow> P k"
  shows "bt_wf (pw_inventory (fst (production_run w)))
    \<and> (\<forall>k. bt_has (pw_inventory w) k \<longrightarrow> bt_has (pw_inventory (fst (production_run w))) k)
    \<and> (\<forall>k. bt_has (pw_inventory (fst (production_run w))) k \<longrightarrow> P k)"
proof -
  let ?I = "\<lambda>st :: 'z prod_world_scheme \<times> production_stats. bt_wf (pw_inventory (fst st))
    \<and> (\<forall>k. bt_has (pw_inventory w) k \<longrightarrow> bt_has (pw_inventory (fst st)) k)
    \<and> (\<forall>k. bt_has (pw_inventory (fst st)) k \<longrightarrow> P k)"
  have made: "?I (fold add_produced (produced_scratch w) (w, s))" for s
    using assms by (intro fold_inv [where P = ?I])
      (auto simp: add_produced_def produced_scratch_def split: prod.splits)
  have taken: "?I (fold take_consumed es st)" if "?I st" for es st
    using that by (rule fold_inv [where P = ?I]) (auto simp: take_consumed_def split: prod.splits)
  have "?I (production_run w)"
    unfolding production_run_def Let_def case_prod_beta prod.collapse by (rule taken [OF made])
  then show ?thesis .
qed

text \<open>What one resource gains and loses in a tick, and the demand of its consumers.\<close>

definition gain :: "'z prod_world_scheme \<Rightarrow> u32 \<Rightarrow> nat" where
  "gain w r = scratch_total r (produced_scratch w)"

definition stock_made :: "'z prod_world_scheme \<Rightarrow> u32 \<Rightarrow> nat" where
  "stock_made w r = min (unat (stock_of w r) + gain w r) (2 ^ 64 - 1)"

definition takers :: "'z prod_world_scheme \<Rightarrow> u32 \<Rightarrow> nat list" where
  "takers w r = map (\<lambda>e. unat (c_amount (snd e)))
     (filter (\<lambda>e. fires (pw_tick w) (c_interval_ticks (snd e)) \<and> c_resource (snd e) = r
        \<and> unat (c_amount (snd e)) \<le> stock_made w r) (pw_consumers w))"

lemma fold_add_frame:
  "pw_tick (fst (fold add_produced es (w, s))) = pw_tick w
   \<and> pw_consumers (fst (fold add_produced es (w, s))) = pw_consumers w"
  by (rule fold_inv [where P = "\<lambda>st. pw_tick (fst st) = pw_tick w \<and> pw_consumers (fst st) = pw_consumers w"])
    (auto simp: add_produced_def split: prod.splits)

lemma scratch_total_consumed:
  assumes "\<And>c. c \<in> snd ` set (pw_consumers w) \<Longrightarrow> c_resource c = r \<Longrightarrow>
      c_amount c \<le> bt_get_or 0 (pw_inventory w) (c_resource c) \<longleftrightarrow> unat (c_amount c) \<le> q"
  shows "scratch_total r (consumed_scratch w)
    = sum_list (map (\<lambda>e. unat (c_amount (snd e)))
        (filter (\<lambda>e. fires (pw_tick w) (c_interval_ticks (snd e)) \<and> c_resource (snd e) = r
           \<and> unat (c_amount (snd e)) \<le> q) (pw_consumers w)))"
proof -
  have "scratch_total r (map (\<lambda>(cid, c). (cid, c_resource c, c_amount c))
      (filter (\<lambda>(cid, c). fires t (c_interval_ticks c) \<and> c_amount c \<le> bt_get_or 0 inv (c_resource c)) es))
    = sum_list (map (\<lambda>e. unat (c_amount (snd e)))
        (filter (\<lambda>e. fires t (c_interval_ticks (snd e)) \<and> c_resource (snd e) = r
           \<and> unat (c_amount (snd e)) \<le> q) es))"
    if "\<And>c. c \<in> snd ` set es \<Longrightarrow> c_resource c = r \<Longrightarrow>
      c_amount c \<le> bt_get_or 0 inv (c_resource c) \<longleftrightarrow> unat (c_amount c) \<le> q" for es t inv
    using that by (induction es) auto
  then show ?thesis unfolding consumed_scratch_def using assms by blast
qed

lemma production_stock:
  "unat (stock_of (fst (production_run w)) r) = stock_made w r - sum_list (takers w r)"
proof -
  let ?z = "\<lparr>ps_produced = 0, ps_consumed = 0\<rparr>"
  obtain w1 st where w1: "fold add_produced (produced_scratch w) (w, ?z) = (w1, st)" by (cases "fold add_produced (produced_scratch w) (w, ?z)")
  have made: "unat (stock_of w1 r) = stock_made w r"
    using stock_fold_produced [of "produced_scratch w" w ?z r] by (simp add: w1 stock_made_def gain_def)
  have fr: "pw_tick w1 = pw_tick w" "pw_consumers w1 = pw_consumers w"
    using fold_add_frame [of "produced_scratch w" w ?z] by (simp_all add: w1)
  have "scratch_total r (consumed_scratch w1) = sum_list (takers w r)"
    unfolding takers_def fr [symmetric]
    by (rule scratch_total_consumed) (simp add: word_le_nat_alt made)
  then show ?thesis
    using stock_fold_consumed [of "consumed_scratch w1" w1 st r] made
    by (simp add: production_run_def w1)
qed

lemma fires_iff:
  "fires t n \<longleftrightarrow> 0 < unat n \<and> unat n dvd unat t"
proof -
  have "unat (ucast n :: u64) = unat n" by (rule unat_ucast_up) simp
  then have "unat (t mod ucast n) = unat t mod unat n" by (simp add: unat_mod)
  then have "t mod ucast n = 0 \<longleftrightarrow> unat n dvd unat t"
    by (metis dvd_eq_mod_eq_0 unat_0 unat_eq_zero)
  then show ?thesis by (simp add: fires_def word_less_nat_alt)
qed

lemma length_filter_mono: "(\<And>x. P x \<Longrightarrow> Q x) \<Longrightarrow> length (filter P xs) \<le> length (filter Q xs)"
  by (induction xs) auto

lemma sum_list_short_le:
  fixes g :: "'a \<Rightarrow> nat"
  assumes "length xs \<le> 1" and "\<And>e. e \<in> set xs \<Longrightarrow> g e \<le> b"
  shows "sum_list (map g xs) \<le> b"
  using assms by (cases xs) auto

section \<open>Properties\<close>

text \<open>
  What a tick does to a resource: the firing producers' amounts are added (capped at 64
  bits), then the amounts of the firing consumers that the stock so made covers one by one
  are taken, stopping at zero; ticks, producers and consumers stay as they are.
\<close>

lemma production_tick:
  "unat (stock_of (fst (production_run w)) r) = stock_made w r - sum_list (takers w r)
   \<and> pw_tick (fst (production_run w)) = pw_tick w
   \<and> pw_producers (fst (production_run w)) = pw_producers w
   \<and> pw_consumers (fst (production_run w)) = pw_consumers w"
  using production_stock [of w r] by simp

text \<open>
  With at most one consumer per resource nothing is overdrawn: what is left and what is
  taken add up to what was there after production.
\<close>

lemma no_overdraft_single_consumer:
  assumes "length (filter (\<lambda>e. c_resource (snd e) = r) (pw_consumers w)) \<le> 1"
  shows "unat (stock_of (fst (production_run w)) r) + sum_list (takers w r) = stock_made w r"
proof -
  let ?f = "\<lambda>e. fires (pw_tick w) (c_interval_ticks (snd e)) \<and> c_resource (snd e) = r
        \<and> unat (c_amount (snd e)) \<le> stock_made w r"
  have "length (filter ?f (pw_consumers w)) \<le> length (filter (\<lambda>e. c_resource (snd e) = r) (pw_consumers w))"
    by (rule length_filter_mono) simp
  then have "length (filter ?f (pw_consumers w)) \<le> 1"
    using assms by linarith
  then have "sum_list (takers w r) \<le> stock_made w r"
    unfolding takers_def by (rule sum_list_short_le) simp
  then show ?thesis by (simp add: production_stock)
qed

definition demo_prod :: "u64 \<Rightarrow> (u32 \<times> consumer) list \<Rightarrow> prod_world" where
  "demo_prod stock cs = \<lparr>pw_tick = 4, pw_producers = [(1, \<lparr>p_id = 1, p_resource = 7, p_amount = 3, p_interval_ticks = 2\<rparr>)],
     pw_consumers = cs, pw_inventory = [(7, stock)]\<rparr>"

lemma no_overdraft_single_consumer_witness:
  "unat (stock_of (fst (production_run (demo_prod 5 [(1, \<lparr>c_id = 1, c_resource = 7, c_amount = 6, c_interval_ticks = 4\<rparr>)]))) 7)
     + sum_list (takers (demo_prod 5 [(1, \<lparr>c_id = 1, c_resource = 7, c_amount = 6, c_interval_ticks = 4\<rparr>)]) 7)
   = stock_made (demo_prod 5 [(1, \<lparr>c_id = 1, c_resource = 7, c_amount = 6, c_interval_ticks = 4\<rparr>)]) 7"
  by (rule no_overdraft_single_consumer) (simp add: demo_prod_def)

text \<open>
  Two consumers of one resource can overdraw it: every consumer is checked against the
  stock before any has taken its share, so two consumers of 6 both pass on a stock of 8, the
  statistics report 12 consumed, and the subtraction saturates at zero.
\<close>

lemma overdraft_two_consumers:
  "let w = demo_prod 5 [(1, \<lparr>c_id = 1, c_resource = 7, c_amount = 6, c_interval_ticks = 4\<rparr>),
                        (2, \<lparr>c_id = 2, c_resource = 7, c_amount = 6, c_interval_ticks = 1\<rparr>)]
   in ps_produced (snd (production_run w)) = 3 \<and> ps_consumed (snd (production_run w)) = 12
      \<and> stock_of (fst (production_run w)) 7 = 0"
  by code_simp

text \<open>What the statistics count.\<close>

definition amounts_total :: "(u32 \<times> u32 \<times> u64) list \<Rightarrow> nat" where
  "amounts_total es = sum_list (map (\<lambda>(_, _, a). unat a) es)"

lemma amounts_total_simps [simp]:
  "amounts_total [] = 0" "amounts_total ((i, r, a) # es) = unat a + amounts_total es"
  by (simp_all add: amounts_total_def)

lemma produced_stats:
  "unat (ps_produced (snd (fold add_produced es (w, s)))) = min (unat (ps_produced s) + amounts_total es) (2 ^ 64 - 1)
   \<and> ps_consumed (snd (fold add_produced es (w, s))) = ps_consumed s"
proof (induction es arbitrary: w s)
  case Nil
  show ?case using unat_max [of "ps_produced s"] by simp
next
  case (Cons e es)
  obtain i r a where e: "e = (i, r, a)" by (cases e)
  show ?case
    unfolding e fold_simps o_apply by (simp only: add_produced_def prod.case Cons.IH) (simp add: unat_sat_add)
qed

lemma take_one: "take_consumed (i, r, a) (w, s) =
    (if bt_has (pw_inventory w) r
     then (w\<lparr>pw_inventory := bt_modify r (\<lambda>slot. sat_sub slot a) (pw_inventory w)\<rparr>,
           s\<lparr>ps_consumed := sat_add (ps_consumed s) a\<rparr>)
     else (w, s))"
  by (simp add: take_consumed_def)

text \<open>An entry that takes nothing needs no stock; any other one that passed the check has some.\<close>

lemma consumed_stats:
  assumes "\<And>i r a. (i, r, a) \<in> set es \<Longrightarrow> a = 0 \<or> bt_has (pw_inventory w) r"
  shows "unat (ps_consumed (snd (fold take_consumed es (w, s)))) = min (unat (ps_consumed s) + amounts_total es) (2 ^ 64 - 1)
   \<and> ps_produced (snd (fold take_consumed es (w, s))) = ps_produced s"
  using assms
proof (induction es arbitrary: w s)
  case Nil
  show ?case using unat_max [of "ps_consumed s"] by simp
next
  case (Cons e es)
  obtain i r a where e: "e = (i, r, a)" by (cases e)
  show ?case
  proof (cases "bt_has (pw_inventory w) r")
    case True
    let ?w = "w\<lparr>pw_inventory := bt_modify r (\<lambda>slot. sat_sub slot a) (pw_inventory w)\<rparr>"
    have "\<And>i r a. (i, r, a) \<in> set es \<Longrightarrow> a = 0 \<or> bt_has (pw_inventory ?w) r" using Cons.prems by auto
    from Cons.IH [of ?w, OF this] show ?thesis
      unfolding e fold_simps o_apply take_one if_P [OF True] by (simp add: unat_sat_add)
  next
    case False
    then have "a = 0" using Cons.prems [of i r a] e by simp
    moreover have "\<And>i r a. (i, r, a) \<in> set es \<Longrightarrow> a = 0 \<or> bt_has (pw_inventory w) r" using Cons.prems by auto
    note Cons.IH [of w s, OF this]
    ultimately show ?thesis
      unfolding e fold_simps o_apply take_one if_not_P [OF False] by simp
  qed
qed

lemma consumed_backed:
  assumes "(i, r, a) \<in> set (consumed_scratch w)"
  shows "a = 0 \<or> bt_has (pw_inventory w) r"
  using assms by (auto simp: consumed_scratch_def bt_get_or_def bt_has_def split: option.splits)

text \<open>
  C21. The production system, exactly. Of each resource the amounts of all firing producers are
  added, capped at 64 bits; then every firing consumer whose own amount the stock so made covers
  is granted it, whatever the others were granted, and the stock stops at zero. The statistics
  count what was produced and what was granted, so they exceed what was there whenever the
  granted amounts add up to more than the stock. Nothing but the inventory changes.
\<close>

theorem production_exact:
  "unat (stock_of (fst (production_run w)) r) = stock_made w r - sum_list (takers w r)
   \<and> unat (ps_produced (snd (production_run w)))
       = min (\<Sum>e\<leftarrow>filter (\<lambda>e. fires (pw_tick w) (p_interval_ticks (snd e))) (pw_producers w). unat (p_amount (snd e)))
             (2 ^ 64 - 1)
   \<and> unat (ps_consumed (snd (production_run w)))
       = min (\<Sum>e\<leftarrow>filter (\<lambda>e. fires (pw_tick w) (c_interval_ticks (snd e))
                \<and> unat (c_amount (snd e)) \<le> stock_made w (c_resource (snd e))) (pw_consumers w). unat (c_amount (snd e)))
             (2 ^ 64 - 1)
   \<and> fst (production_run w) = w\<lparr>pw_inventory := pw_inventory (fst (production_run w))\<rparr>"
proof -
  let ?z = "\<lparr>ps_produced = 0, ps_consumed = 0\<rparr>"
  obtain w1 st where w1: "fold add_produced (produced_scratch w) (w, ?z) = (w1, st)"
    by (cases "fold add_produced (produced_scratch w) (w, ?z)")
  have made: "unat (stock_of w1 q) = stock_made w q" for q
    using stock_fold_produced [of "produced_scratch w" w ?z q] by (simp add: w1 stock_made_def gain_def)
  have fr: "pw_tick w1 = pw_tick w" "pw_consumers w1 = pw_consumers w"
    using fold_add_frame [of "produced_scratch w" w ?z] by (simp_all add: w1)
  have p: "amounts_total (produced_scratch w)
      = (\<Sum>e\<leftarrow>filter (\<lambda>e. fires (pw_tick w) (p_interval_ticks (snd e))) (pw_producers w). unat (p_amount (snd e)))"
    by (simp add: amounts_total_def produced_scratch_def case_prod_unfold comp_def)
  have c: "amounts_total (consumed_scratch w1)
      = (\<Sum>e\<leftarrow>filter (\<lambda>e. fires (pw_tick w) (c_interval_ticks (snd e))
                \<and> unat (c_amount (snd e)) \<le> stock_made w (c_resource (snd e))) (pw_consumers w). unat (c_amount (snd e)))"
    by (simp add: amounts_total_def consumed_scratch_def case_prod_unfold comp_def fr word_le_nat_alt made)
  show ?thesis
    using produced_stats [of "produced_scratch w" w ?z] consumed_stats [of "consumed_scratch w1" w1 st, OF consumed_backed]
      production_run_frame [of w] production_stock [of w r]
    by (simp add: production_run_def w1 p c)
qed

end
