(* ===== verification/Load_Error.thy ===== *)
theory Load_Error
  imports Base
begin

text \<open>
  \<open>Sl1LoadError\<close>, the closed enumeration of everything the scene validator can report.
  The Rust enum is flat with 199 variants; here the variants of each section form a datatype of
  their own and \<open>sl1_load_error\<close> is their sum, with the constructors under their Rust
  names and the fields of a variant in the order of its declaration. The display text
  of a variant is presentation and is not modelled; \<open>PressureMultiplierOutOfRange\<close> carries the
  rejected float where the code carries its rendering.
\<close>

datatype scene_error =
    UnsupportedSchema u32 u32
  | UnknownField string
  | ExpectedObject string
  | Parse string
  | PrimitiveNotImplemented string
  | TooManyItems string nat nat

datatype place_error =
    PlaceDuplicateId string
  | PlaceInvalidId string
  | PlaceEmptyRole string
  | PlaceInvalidPos string
  | PlaceStorageInitialExceedsCapacity string string u64 u64
  | PlaceStorageCapacityZero string string
  | PlaceEmptyEntry string string
  | PlaceDuplicateEntry string string string
  | PlaceUnsupportedPredicate string string string
  | PlacePercentThresholdOutOfRange string string u64 u8
  | PlaceEmptyOperatingStateName string
  | PlaceEmptyShape string
  | PlacePredicateUnknownMetric string string string
  | PlaceStorageUnknownThing string string
  | PlaceUnknownThingReference string string string

datatype link_error =
    LinkDuplicateId string
  | LinkInvalidId string
  | LinkEmptyType string
  | LinkUnknownPlace string string string
  | LinkSelfLoop string string
  | LinkMissingDirection string
  | LinkUnknownDirection string string
  | LinkMissingBackpressure string
  | LinkUnknownBackpressure string string
  | LinkEmptyEntry string string
  | LinkDuplicateCompatibility string string
  | LinkTravelTicksZero string
  | LinkTravelTicksOutOfRange string u64 u64
  | LinkQueueCapacityZero string
  | LinkQueueCapacityOutOfRange string u64 u64
  | LinkEmptyRenderStyle string
  | LinkCompatibilityUnknownReference string string

datatype thing_error =
    ThingDuplicateId string
  | ThingInvalidId string
  | ThingEmptyKind string
  | ThingEmptyTag string
  | ThingDuplicateTag string string
  | ThingSchemaVersionZero string
  | ThingFreshnessBudgetZero string
  | ThingFreshnessBudgetOutOfRange string u64 u64
  | ThingQualityMaxDropPercentOutOfRange string f64_bits
  | ThingQualityMaxLateTicksZero string
  | ThingQualityMaxLateTicksOutOfRange string u64 u64
  | ThingQualityRequiredFieldEmpty string
  | ThingQualityRequiredFieldDuplicate string string
  | ThingEmptyRenderGlyph string

datatype transform_error =
    TransformInvalidId string
  | TransformDuplicateId string
  | TransformEmptyType string
  | TransformUnknownPlace string string
  | TransformEmptyOutputs string
  | TransformUnknownThing string string string
  | TransformDuplicateIo string string string
  | TransformIoAmountZero string string string
  | TransformIoAmountOutOfRange string string string u64 u64
  | TransformCadenceZero string
  | TransformDurationZero string
  | TransformDeadlineZero string
  | TransformDeadlineLessThanDuration string u64 u64
  | TransformTicksOutOfRange string string u64 u64
  | TransformCapacityCostEmptyKey string
  | TransformCapacityCostZero string string
  | TransformCapacityCostOutOfRange string string u64 u64
  | TransformUnknownCapacityKey string string string
  | TransformInvalidFailurePolicy string string
  | TransformMaxAttemptsZero string
  | TransformMaxAttemptsOutOfRange string u32 u32

datatype demand_error =
    DemandInvalidId string
  | DemandDuplicateId string
  | DemandEmptyType string
  | DemandUnknownTargetKind string string
  | DemandTargetKindNotImplemented string string
  | DemandUnknownTarget string string
  | DemandRequiresEmpty string
  | DemandRequiresTooMany string nat nat
  | DemandUnknownRequires string string
  | DemandDuplicateRequires string string
  | DemandScheduleNotImplemented string string
  | DemandUnknownScheduleType string string
  | DemandScheduleMissingField string string string
  | DemandScheduleFieldZero string string
  | DemandScheduleFieldOutOfRange string string u64 u64
  | DemandScheduleScriptedEmpty string
  | DemandScheduleScriptedNotIncreasing string u64
  | DemandScheduleScriptedTooMany string nat nat
  | DemandScheduleScriptedTickZero string
  | DemandScheduleUnexpectedField string string string
  | DemandDeadlineZero string
  | DemandDeadlineOutOfRange string u64 u64
  | DemandInvalidPriority string string
  | DemandValueOutOfRange string u64 u64
  | DemandPenaltyScorePositive string i64
  | DemandPenaltyScoreOutOfRange string i64 i64
  | DemandPenaltyWarningEmpty string

datatype pressure_error =
    PressureInvalidId string
  | PressureDuplicateId string
  | PressureUnknownType string string
  | PressureMissingField string string string
  | PressureUnexpectedField string string string
  | PressureDurationZero string
  | PressureAtTickOutOfRange string u64 u64
  | PressureDurationOutOfRange string u64 u64
  | PressureEndOverflow string u64 u64 u64
  | PressureUnknownTarget string string string
  | PressureUnknownThing string string
  | PressureNoStorageSlot string string string
  | PressureUnknownCapacityBucket string string string
  | PressureMultiplierOutOfRange string f64_bits u64
  | PressureSpawnMultiplierOutOfRange string u32 u32
  | PressureReductionPercentOutOfRange string u8 u8

datatype objective_error =
    ObjectiveInvalidId string
  | ObjectiveDuplicateId string
  | ObjectiveUnknownType string string
  | ObjectiveMissingField string string string
  | ObjectiveUnexpectedField string string string
  | ObjectiveWeightOutOfRange string u32 u32
  | ObjectiveUnknownTarget string string string
  | ObjectiveNoStorageSlot string string string
  | ObjectiveValueOutOfRange string string u64 u64
  | ObjectiveInvalidPercentRange string u8 u8
  | ObjectiveUnknownCapacityBucket string string string

datatype failure_condition_error =
    FailureConditionInvalidId string
  | FailureConditionDuplicateId string
  | FailureConditionUnknownType string string
  | FailureConditionMissingField string string string
  | FailureConditionUnexpectedField string string string
  | FailureConditionThresholdOutOfRange string u64 u64
  | FailureConditionGraceOutOfRange string u64 u64
  | FailureConditionMaxCountOutOfRange string u64 u64
  | FailureConditionNoStorageSlot string string string
  | FailureConditionUnknownTarget string string string
  | FailureConditionUnknownPlaceState string string string
  | FailureConditionPlaceStatePredicateUnsupported string string string string
  | FailureConditionUnknownObjective string string

datatype victory_condition_error =
    VictoryConditionInvalidId string
  | VictoryConditionDuplicateId string
  | VictoryConditionUnknownType string string
  | VictoryConditionMissingField string string string
  | VictoryConditionUnexpectedField string string string
  | VictoryConditionAtTickOutOfRange string u64 u64

datatype observability_error =
    ObservabilityTooManyItems string nat nat
  | MetricInvalidId string
  | MetricDuplicateId string
  | MetricUnsupportedSource string string
  | MetricMissingField string string string
  | MetricExtraField string string string
  | MetricUnknownPlace string string
  | MetricUnknownThing string string
  | MetricUnknownCapacityBucket string string string
  | MetricNoStorageSlot string string string
  | MetricUnknownDashboard string string
  | DashboardInvalidId string
  | DashboardDuplicateId string
  | DashboardUnsupportedKind string string
  | DashboardInvalidDependsOn string string
  | DashboardUnknownThing string string
  | DashboardFreshnessSloZero string
  | AlertInvalidId string
  | AlertDuplicateId string
  | AlertUnknownMetric string string
  | AlertOutOfRangeInverted string u64 u64
  | AlertUnsupportedSeverity string string

datatype agent_error =
    AgentInvalidId string
  | AgentDuplicateId string
  | AgentUnknownKind string string
  | AgentRoleEmpty string
  | AgentIntervalTicksZero string
  | AgentIntervalTicksOutOfRange string u64 u64
  | AgentObservationScopeMalformed string string
  | AgentObservationScopeUnknownId string string string
  | AgentObservationScopeDuplicate string string
  | AgentAllowedActionsUnknownKind string string
  | AgentAllowedActionsDuplicate string string
  | AgentMaxCostPerDecisionZero string
  | AgentCooldownTicksOutOfRange string u64 u64
  | AgentObjectiveWeightNonFinite string string
  | AgentObjectiveWeightOutOfRange string string f64_bits
  | AgentObjectiveWeightUnknown string string
  | AgentTooManyEntries string string nat nat

datatype milestone_error =
    MilestoneInvalidId string
  | MilestoneDuplicateId string
  | MilestoneEmptyLabel string
  | MilestoneEmptyCameraFocus string
  | MilestoneEmptyCameraFocusEntry string
  | MilestoneDuplicateCameraFocus string string
  | MilestoneEmptyHighlight string
  | MilestoneUnknownCameraFocus string string
  | MilestoneUnknownHighlight string string
  | MilestoneUnknownPressure string string
  | MilestoneUnknownMetric string string
  | MilestoneUnknownPredicate string string
  | MilestoneUnknownDashboard string string
  | MilestoneUnknownDashboardState string string

datatype sl1_load_error =
    SceneError scene_error
  | PlaceError place_error
  | LinkError link_error
  | ThingError thing_error
  | TransformError transform_error
  | DemandError demand_error
  | PressureError pressure_error
  | ObjectiveError objective_error
  | FailureConditionError failure_condition_error
  | VictoryConditionError victory_condition_error
  | ObservabilityError observability_error
  | AgentError agent_error
  | MilestoneError milestone_error

end
