(* ===== verification/Load_Raw.thy ===== *)
theory Load_Raw
  imports Scene
begin

text \<open>
  The input of the scene validator: the \<open>RawSl1*\<close> structs that serde fills from the JSON
  of the \<open>scenario_language_v1\<close> block, one record per struct with the struct's fields in
  its order. The JSON values that the validator never looks into (\<open>catalog\<close> and the
  values of unknown fields) have the type \<open>'v\<close>. The maps of the input are \<open>BTreeMap\<close>s
  in the code, so their entry lists are strictly sorted: \<open>raw_wf\<close>.
\<close>

text \<open>The two inputs that are enums in the code, tagged by a \<open>type\<close> or \<open>kind\<close> field of the JSON.\<close>

datatype raw_alert_predicate = RawGt u64 | RawLt u64 | RawOutOfRange u64 u64

datatype raw_milestone_trigger =
    RawPressureActivated string
  | RawPressureDeactivated string
  | RawMetricThreshold string string i64
  | RawDashboardState string string

record raw_storage_slot =
  rss_capacity :: u64
  rss_initial :: u64

record raw_operating_state =
  ros_when :: string
  ros_grace_ticks :: "u64 option"

record raw_place =
  rp_id :: string
  rp_role :: string
  rp_pos :: "f32_bits \<times> f32_bits"
  rp_shape :: "string option"
  rp_color :: "u32 option"
  rp_capacity :: "(string, u64) btree_map"
  rp_storage :: "(string, raw_storage_slot) btree_map"
  rp_accepts :: "string list"
  rp_produces :: "string list"
  rp_failure_domains :: "string list"
  rp_operating_states :: "(string, raw_operating_state) btree_map"

record raw_link_render_hint =
  rlh_style :: string
  rlh_color :: "u32 option"

record raw_link =
  rl_id :: string
  rl_link_type :: string
  rl_from :: string
  rl_to :: string
  rl_direction :: "string option"
  rl_capacity :: "(string, u64) btree_map"
  rl_travel_ticks :: u64
  rl_compatibility :: "string list"
  rl_queue_capacity :: u64
  rl_backpressure :: "string option"
  rl_render :: "raw_link_render_hint option"

record raw_thing_quality_contract =
  rqc_max_drop_percent :: "f64_bits option"
  rqc_max_late_ticks :: "u64 option"
  rqc_required_fields :: "string list"

record raw_thing_render_hint =
  rtr_glyph :: string
  rtr_color :: "u32 option"

record raw_thing =
  rth_id :: string
  rth_kind :: string
  rth_tags :: "string list"
  rth_schema_version :: "u32 option"
  rth_freshness_budget_ticks :: "u64 option"
  rth_quality_contract :: "raw_thing_quality_contract option"
  rth_render :: "raw_thing_render_hint option"

record raw_transform_io =
  rio_thing :: string
  rio_amount :: u64

record raw_transform =
  rx_id :: string
  rx_kind :: string
  rx_runs_on :: string
  rx_inputs :: "raw_transform_io list"
  rx_outputs :: "raw_transform_io list"
  rx_cadence_ticks :: u64
  rx_duration_ticks :: u64
  rx_deadline_ticks :: u64
  rx_capacity_cost :: "(string, u64) btree_map"
  rx_failure_policy :: string
  rx_max_attempts :: u32

record raw_demand_target =
  rdt_kind :: string
  rdt_id :: string

record raw_demand_schedule =
  rds_kind :: string
  rds_every_ticks :: "u64 option"
  rds_start_tick :: "u64 option"
  rds_ticks :: "u64 list option"

record raw_demand_penalty =
  rdp_score :: i64
  rdp_warning :: "string option"

record raw_demand =
  rd_id :: string
  rd_kind :: string
  rd_target :: raw_demand_target
  rd_requires :: "string list"
  rd_spawn_schedule :: raw_demand_schedule
  rd_deadline_ticks :: u64
  rd_priority :: string
  rd_value :: u64
  rd_penalty :: raw_demand_penalty

record raw_pressure =
  rpr_id :: string
  rpr_kind :: string
  rpr_at_tick :: u64
  rpr_duration_ticks :: u64
  rpr_target :: string
  rpr_thing :: "string option"
  rpr_multiplier :: "f64_bits option"
  rpr_spawn_multiplier :: "u32 option"
  rpr_capacity :: "string option"
  rpr_reduction_percent :: "u8 option"

record raw_objective =
  ro_id :: string
  ro_kind :: string
  ro_weight :: "u32 option"
  ro_place :: "string option"
  ro_thing :: "string option"
  ro_max_stale_ticks :: "u64 option"
  ro_demand :: "string option"
  ro_max_missed :: "u64 option"
  ro_capacity :: "string option"
  ro_min_percent :: "u8 option"
  ro_max_percent :: "u8 option"
  ro_max_cost :: "u64 option"
  ro_max_contract_violations :: "u64 option"
  ro_p95_max_ticks :: "u64 option"
  ro_target :: "string option"

record raw_failure_condition =
  rfc_id :: string
  rfc_kind :: string
  rfc_place :: "string option"
  rfc_thing :: "string option"
  rfc_threshold_ticks :: "u64 option"
  rfc_grace_ticks :: "u64 option"
  rfc_state :: "string option"
  rfc_objective_id :: "string option"
  rfc_max_count :: "u64 option"

record raw_victory_condition =
  rvc_id :: string
  rvc_kind :: string
  rvc_at_tick :: "u64 option"

record raw_agent_budgets =
  rab_max_cost_per_decision :: u64
  rab_cooldown_ticks :: u64

record raw_agent =
  ra_id :: string
  ra_kind :: string
  ra_role :: string
  ra_interval_ticks :: u64
  ra_observation_scope :: "string list"
  ra_allowed_actions :: "string list"
  ra_budgets :: raw_agent_budgets
  ra_objective_weights :: "(string, f64_bits) btree_map"

record raw_metric =
  rm_id :: string
  rm_source :: string
  rm_place :: "string option"
  rm_capacity :: "string option"
  rm_thing :: "string option"
  rm_dashboard :: "string option"

record raw_dashboard =
  rdb_id :: string
  rdb_kind :: string
  rdb_depends_on :: "string list"
  rdb_freshness_slo_ticks :: u64

record raw_alert =
  ral_id :: string
  ral_metric :: string
  ral_predicate :: raw_alert_predicate
  ral_severity :: string

record raw_observability =
  rob_metrics :: "raw_metric list"
  rob_dashboards :: "raw_dashboard list"
  rob_alerts :: "raw_alert list"

record raw_milestone =
  rms_id :: string
  rms_trigger :: raw_milestone_trigger
  rms_label :: string
  rms_camera_focus :: "string list option"
  rms_highlight :: "string option"

record 'v raw_scene =
  rs_schema_version :: u32
  rs_places :: "raw_place list"
  rs_links :: "raw_link list"
  rs_things :: "raw_thing list"
  rs_transforms :: "raw_transform list"
  rs_demand :: "raw_demand list"
  rs_pressure :: "raw_pressure list"
  rs_objectives :: "raw_objective list"
  rs_failure_conditions :: "raw_failure_condition list"
  rs_victory_conditions :: "raw_victory_condition list"
  rs_agents :: "raw_agent list"
  rs_observability :: "raw_observability option"
  rs_milestones :: "raw_milestone list"
  rs_catalog :: "'v option"
  rs_extra :: "(string, 'v) btree_map"

text \<open>\<open>default_sl1_schema_version\<close> and \<open>default_transform_max_attempts\<close>, what serde fills in.\<close>

definition SL1_SCHEMA_VERSION :: u32 where "SL1_SCHEMA_VERSION = 1"
definition default_sl1_schema_version :: u32 where "default_sl1_schema_version = SL1_SCHEMA_VERSION"
definition default_transform_max_attempts :: u32 where "default_transform_max_attempts = 1"

section \<open>What the Rust types guarantee\<close>

definition raw_place_wf :: "raw_place \<Rightarrow> bool" where
  "raw_place_wf r \<longleftrightarrow> bt_wf (rp_capacity r) \<and> bt_wf (rp_storage r) \<and> bt_wf (rp_operating_states r)"

definition raw_wf :: "'v raw_scene \<Rightarrow> bool" where
  "raw_wf raw \<longleftrightarrow> list_all raw_place_wf (rs_places raw)
     \<and> list_all (\<lambda>r. bt_wf (rl_capacity r)) (rs_links raw)
     \<and> list_all (\<lambda>r. bt_wf (rx_capacity_cost r)) (rs_transforms raw)
     \<and> list_all (\<lambda>r. bt_wf (ra_objective_weights r)) (rs_agents raw)
     \<and> bt_wf (rs_extra raw)"

end
