(* ===== verification/Load_Base.thy ===== *)
theory Load_Base
  imports Btree "HOL-Library.Multiset"
begin

text \<open>
  The prelude of the scene validator. A \<open>Result\<close> is a sum (\<open>Inl\<close> is \<open>Err\<close>, \<open>Inr\<close> is
  \<open>Ok\<close>) and \<open>ebind\<close> is the question mark operator. The string operations of the Rust
  standard library act on UTF-8 bytes (a \<open>string\<close> of the model); floats are compared
  through their bit patterns. \<open>load_section\<close> is the loop every section of the scene
  goes through: validate an item, reject a repeated id, cross-check, push, and finally
  sort by id. Its two laws, that an accepted section is strictly sorted and that the
  order of declaration does not matter, are proved once here.
\<close>

named_theorems load_simps \<open>when a validation step succeeds\<close>

section \<open>Results\<close>

fun ebind :: "'e + 'a \<Rightarrow> ('a \<Rightarrow> 'e + 'b) \<Rightarrow> 'e + 'b" where
  "ebind (Inl e) f = Inl e"
| "ebind (Inr x) f = f x"

definition require :: "bool \<Rightarrow> 'e \<Rightarrow> 'e + unit" where
  "require b e = (if b then Inr () else Inl e)"

definition lift_err :: "('e \<Rightarrow> 'f) \<Rightarrow> 'e + 'a \<Rightarrow> 'f + 'a" where
  "lift_err w m = map_sum w id m"

text \<open>A \<open>for\<close> loop whose body returns early with an error.\<close>

fun each :: "('a \<Rightarrow> 'e + unit) \<Rightarrow> 'a list \<Rightarrow> 'e + unit" where
  "each f [] = Inr ()"
| "each f (x # xs) = ebind (f x) (\<lambda>_. each f xs)"

fun emap :: "('a \<Rightarrow> 'e + 'b) \<Rightarrow> 'a list \<Rightarrow> 'e + 'b list" where
  "emap f [] = Inr []"
| "emap f (x # xs) = ebind (f x) (\<lambda>y. ebind (emap f xs) (\<lambda>ys. Inr (y # ys)))"

fun traverse_option :: "('a \<Rightarrow> 'e + 'b) \<Rightarrow> 'a option \<Rightarrow> 'e + 'b option" where
  "traverse_option f None = Inr None"
| "traverse_option f (Some x) = ebind (f x) (\<lambda>y. Inr (Some y))"

lemma ebind_Inr [load_simps]: "ebind m f = Inr y \<longleftrightarrow> (\<exists>x. m = Inr x \<and> f x = Inr y)"
  by (cases m) auto

lemma ebind_Inl: "ebind m f = Inl e \<longleftrightarrow> m = Inl e \<or> (\<exists>x. m = Inr x \<and> f x = Inl e)"
  by (cases m) auto

lemma require_Inr [load_simps]: "require b e = Inr u \<longleftrightarrow> b"
  by (simp add: require_def)

lemma if_Inl_Inr [load_simps]: "(if b then Inl e else m) = Inr y \<longleftrightarrow> \<not> b \<and> m = Inr y"
  by simp

lemma case_option_Inr [load_simps]:
  "(case m of None \<Rightarrow> Inl e | Some x \<Rightarrow> f x) = Inr y \<longleftrightarrow> (\<exists>x. m = Some x \<and> f x = Inr y)"
  by (cases m) auto

lemma lift_err_Inr [load_simps]: "lift_err w m = Inr y \<longleftrightarrow> m = Inr y"
  by (cases m) (auto simp: lift_err_def)

lemma lift_err_simps [simp]: "lift_err w (Inl e) = Inl (w e)" "lift_err w (Inr x) = Inr x"
  by (simp_all add: lift_err_def)

lemma lift_err_Inl: "lift_err w m = Inl e \<longleftrightarrow> (\<exists>d. m = Inl d \<and> e = w d)"
  by (cases m) (auto simp: lift_err_def)

lemma each_Inr [load_simps]: "each f xs = Inr u \<longleftrightarrow> (\<forall>x \<in> set xs. f x = Inr ())"
  by (induction xs) (auto simp: ebind_Inr)

lemma emap_Inr [load_simps]: "emap f xs = Inr ys \<longleftrightarrow> list_all2 (\<lambda>x y. f x = Inr y) xs ys"
  by (induction xs arbitrary: ys) (auto simp: ebind_Inr list_all2_Cons1)

lemma traverse_option_Inr [load_simps]:
  "traverse_option f m = Inr y \<longleftrightarrow> rel_option (\<lambda>x y. f x = Inr y) m y"
  by (cases m; cases y) (auto simp: ebind_Inr)

lemma word_one_le: "1 \<le> x \<longleftrightarrow> 0 < x" for x :: "'a::len word"
  by (simp add: word_le_nat_alt word_less_nat_alt Suc_le_eq)

text \<open>\<open>checked_add\<close>: a sum that wraps is none.\<close>

definition checked_add :: "'a::len word \<Rightarrow> 'a word \<Rightarrow> 'a word option" where
  "checked_add a b = (if a + b < a then None else Some (a + b))"

lemma checked_add_Some:
  assumes "checked_add a b = Some c"
  shows "unat c = unat a + unat b"
proof -
  from assms have c: "c = a + b" "\<not> a + b < a" by (auto simp: checked_add_def split: if_splits)
  show ?thesis
  proof (cases "unat a + unat b < 2 ^ LENGTH('a)")
    case True
    with c show ?thesis by (simp add: unat_word_ariths(1))
  next
    case False
    have "unat (a + b) = (unat a + unat b - 2 ^ LENGTH('a)) mod 2 ^ LENGTH('a)"
      using False by (simp add: unat_word_ariths(1) le_mod_geq)
    then have "unat (a + b) \<le> unat a + unat b - 2 ^ LENGTH('a)" by simp
    with False unat_lt [of b] have "unat (a + b) < unat a" by linarith
    with c show ?thesis by (simp add: word_less_nat_alt)
  qed
qed

section \<open>Strings\<close>

text \<open>
  The characters with the Unicode property \<open>White_Space\<close>, as UTF-8 byte sequences: what
  \<open>str::trim\<close> removes.
\<close>

definition white_space :: "string list" where
  "white_space =
     [[CHR 0x09], [CHR 0x0A], [CHR 0x0B], [CHR 0x0C], [CHR 0x0D], [CHR 0x20], [CHR 0xC2, 
      CHR 0x85], [CHR 0xC2, CHR 0xA0], [CHR 0xE1, CHR 0x9A, CHR 0x80], [CHR 0xE2, CHR 0x80, 
      CHR 0x80], [CHR 0xE2, CHR 0x80, CHR 0x81], [CHR 0xE2, CHR 0x80, CHR 0x82], [CHR 0xE2, 
      CHR 0x80, CHR 0x83], [CHR 0xE2, CHR 0x80, CHR 0x84], [CHR 0xE2, CHR 0x80, CHR 0x85], [
      CHR 0xE2, CHR 0x80, CHR 0x86], [CHR 0xE2, CHR 0x80, CHR 0x87], [CHR 0xE2, CHR 0x80, 
      CHR 0x88], [CHR 0xE2, CHR 0x80, CHR 0x89], [CHR 0xE2, CHR 0x80, CHR 0x8A], [CHR 0xE2, 
      CHR 0x80, CHR 0xA8], [CHR 0xE2, CHR 0x80, CHR 0xA9], [CHR 0xE2, CHR 0x80, CHR 0xAF], [
      CHR 0xE2, CHR 0x81, CHR 0x9F], [CHR 0xE3, CHR 0x80, CHR 0x80]]"

fun starts_with :: "string \<Rightarrow> string \<Rightarrow> bool" where
  "starts_with [] s = True"
| "starts_with (a # p) [] = False"
| "starts_with (a # p) (b # s) = (a = b \<and> starts_with p s)"

fun strip_ws_fuel :: "nat \<Rightarrow> string list \<Rightarrow> string \<Rightarrow> string" where
  "strip_ws_fuel 0 ws s = s"
| "strip_ws_fuel (Suc n) ws s =
     (case find (\<lambda>w. starts_with w s) ws of
        None \<Rightarrow> s | Some w \<Rightarrow> strip_ws_fuel n ws (drop (length w) s))"

definition trim_start :: "string \<Rightarrow> string" where
  "trim_start s = strip_ws_fuel (length s) white_space s"

definition trim_end :: "string \<Rightarrow> string" where
  "trim_end s = rev (strip_ws_fuel (length s) (map rev white_space) (rev s))"

definition trim :: "string \<Rightarrow> string" where
  "trim s = trim_end (trim_start s)"

definition blank :: "string \<Rightarrow> bool" where
  "blank s \<longleftrightarrow> trim s = []"

text \<open>\<open>str::split_once\<close>: around the first occurrence of a non-empty pattern.\<close>

fun split_once :: "string \<Rightarrow> string \<Rightarrow> (string \<times> string) option" where
  "split_once p [] = None"
| "split_once p (c # cs) =
     (if starts_with p (c # cs) then Some ([], drop (length p) (c # cs))
      else map_option (\<lambda>(a, b). (c # a, b)) (split_once p cs))"

definition strip_suffix :: "string \<Rightarrow> string \<Rightarrow> string option" where
  "strip_suffix p s =
     (if length p \<le> length s \<and> drop (length s - length p) s = p
      then Some (take (length s - length p) s) else None)"

text \<open>\<open>str::parse::<u64>\<close>: an optional plus sign and decimal digits, within 64 bits.\<close>

definition is_digit :: "char \<Rightarrow> bool" where
  "is_digit c \<longleftrightarrow> CHR ''0'' \<le> c \<and> c \<le> CHR ''9''"

definition digits_value :: "string \<Rightarrow> int" where
  "digits_value = foldl (\<lambda>n c. 10 * n + (of_char c - 48)) 0"

definition parse_u64 :: "string \<Rightarrow> u64 option" where
  "parse_u64 s =
     (let ds = (if starts_with ''+'' s then drop 1 s else s)
      in if ds \<noteq> [] \<and> list_all is_digit ds \<and> digits_value ds < 2 ^ 64
         then Some (word_of_int (digits_value ds)) else None)"

definition MAX_SL1_ID_LEN :: nat where "MAX_SL1_ID_LEN = 64"

definition is_ascii_alphanumeric :: "char \<Rightarrow> bool" where
  "is_ascii_alphanumeric c \<longleftrightarrow> CHR ''0'' \<le> c \<and> c \<le> CHR ''9''
     \<or> CHR ''A'' \<le> c \<and> c \<le> CHR ''Z'' \<or> CHR ''a'' \<le> c \<and> c \<le> CHR ''z''"

definition is_valid_sl1_id :: "string \<Rightarrow> bool" where
  "is_valid_sl1_id s \<longleftrightarrow> s \<noteq> [] \<and> length s \<le> MAX_SL1_ID_LEN
     \<and> list_all (\<lambda>c. is_ascii_alphanumeric c \<or> c = CHR ''_'' \<or> c = CHR ''-'') s"

section \<open>Floats\<close>

text \<open>
  The order of IEEE numbers from their bit patterns: sign and magnitude. The two zeros
  have the same key and a NaN compares false with everything.
\<close>

definition f32_mag :: "f32_bits \<Rightarrow> u32" where "f32_mag b = take_bit 31 b"
definition f64_mag :: "f64_bits \<Rightarrow> u64" where "f64_mag b = take_bit 63 b"

definition f32_is_finite :: "f32_bits \<Rightarrow> bool" where
  "f32_is_finite b \<longleftrightarrow> f32_mag b < 0x7F800000"

definition f64_is_finite :: "f64_bits \<Rightarrow> bool" where
  "f64_is_finite b \<longleftrightarrow> f64_mag b < 0x7FF0000000000000"

definition f64_is_nan :: "f64_bits \<Rightarrow> bool" where
  "f64_is_nan b \<longleftrightarrow> 0x7FF0000000000000 < f64_mag b"

definition f64_key :: "f64_bits \<Rightarrow> int" where
  "f64_key b = (if bit b 63 then - uint (f64_mag b) else uint (f64_mag b))"

definition f64_le :: "f64_bits \<Rightarrow> f64_bits \<Rightarrow> bool" where
  "f64_le a b \<longleftrightarrow> \<not> f64_is_nan a \<and> \<not> f64_is_nan b \<and> f64_key a \<le> f64_key b"

definition f64_lt :: "f64_bits \<Rightarrow> f64_bits \<Rightarrow> bool" where
  "f64_lt a b \<longleftrightarrow> \<not> f64_is_nan a \<and> \<not> f64_is_nan b \<and> f64_key a < f64_key b"

definition f64_zero :: f64_bits where "f64_zero = 0"
definition f64_one :: f64_bits where "f64_one = 0x3FF0000000000000"

text \<open>\<open>x.abs() > SL1_COORD_LIMIT\<close> with the limit \<open>1.0e6f32\<close>; only asked of finite numbers.\<close>

definition SL1_COORD_LIMIT :: f32_bits where "SL1_COORD_LIMIT = 0x49742400"

definition f32_abs_gt :: "f32_bits \<Rightarrow> f32_bits \<Rightarrow> bool" where
  "f32_abs_gt a lim \<longleftrightarrow> f32_mag a \<le> 0x7F800000 \<and> f32_mag lim < f32_mag a"

section \<open>Sets of strings in canonical order\<close>

text \<open>
  The loop behind every set-like field: reject an empty entry, reject a repeated entry,
  and collect in the order of a \<open>BTreeSet\<close>.
\<close>

fun canonicalize :: "'e \<Rightarrow> (string \<Rightarrow> 'e) \<Rightarrow> string list \<Rightarrow> string list \<Rightarrow> 'e + string list" where
  "canonicalize em dup seen [] = Inr seen"
| "canonicalize em dup seen (x # xs) =
     (if blank x then Inl em
      else if x \<in> set seen then Inl (dup x)
      else canonicalize em dup (insort x seen) xs)"

lemma canonicalize_Inr:
  "canonicalize em dup seen xs = Inr ys \<longleftrightarrow>
     (\<forall>x \<in> set xs. \<not> blank x) \<and> distinct xs \<and> set xs \<inter> set seen = {}
     \<and> ys = fold insort xs seen"
  by (induction xs arbitrary: seen) (auto simp: set_insort_key)

lemma canonicalize_sorted [load_simps]:
  "canonicalize em dup [] xs = Inr ys \<longleftrightarrow>
     (\<forall>x \<in> set xs. \<not> blank x) \<and> distinct xs \<and> ys = sort xs"
proof -
  have "sorted (fold insort xs [])"
    by (rule fold_inv [where P = sorted]) (simp_all add: sorted_insort)
  moreover have "mset (fold insort xs zs) = mset xs + mset zs" for zs
    by (induction xs arbitrary: zs) simp_all
  then have "mset (fold insort xs []) = mset xs" by simp
  ultimately have "fold insort xs [] = sort xs"
    by (metis properties_for_sort)
  then show ?thesis by (auto simp: canonicalize_Inr)
qed

section \<open>The loop over a section\<close>

fun load_loop :: "('r \<Rightarrow> 'e + 'a) \<Rightarrow> ('a \<Rightarrow> string) \<Rightarrow> (string \<Rightarrow> 'e) \<Rightarrow> ('a \<Rightarrow> 'e + unit)
    \<Rightarrow> string set \<Rightarrow> 'r list \<Rightarrow> 'e + 'a list" where
  "load_loop v key dup post seen [] = Inr []"
| "load_loop v key dup post seen (r # rs) =
     ebind (v r) (\<lambda>x.
       if key x \<in> seen then Inl (dup (key x))
       else ebind (post x) (\<lambda>_.
         ebind (load_loop v key dup post (insert (key x) seen) rs) (\<lambda>xs. Inr (x # xs))))"

definition load_section :: "('r \<Rightarrow> 'e + 'a) \<Rightarrow> ('a \<Rightarrow> string) \<Rightarrow> (string \<Rightarrow> 'e) \<Rightarrow> ('a \<Rightarrow> 'e + unit)
    \<Rightarrow> 'r list \<Rightarrow> 'e + 'a list" where
  "load_section v key dup post rs =
     ebind (load_loop v key dup post {} rs) (\<lambda>xs. Inr (sort_key key xs))"

definition no_check :: "'a \<Rightarrow> 'e + unit" where
  "no_check x = Inr ()"

lemma load_loop_Cons:
  "load_loop v key dup post seen (r # rs) = Inr xs \<longleftrightarrow>
     (\<exists>x zs. xs = x # zs \<and> v r = Inr x \<and> key x \<notin> seen \<and> post x = Inr ()
        \<and> load_loop v key dup post (insert (key x) seen) rs = Inr zs)"
  by (cases "v r") (auto simp: ebind_Inr)

lemma load_loop_Inr:
  "load_loop v key dup post seen rs = Inr xs \<longleftrightarrow>
     list_all2 (\<lambda>r x. v r = Inr x \<and> post x = Inr ()) rs xs
     \<and> distinct (map key xs) \<and> (\<forall>x \<in> set xs. key x \<notin> seen)"
proof (induction rs arbitrary: seen xs)
  case Nil
  then show ?case by auto
next
  case (Cons r rs)
  show ?case
  proof
    assume "load_loop v key dup post seen (r # rs) = Inr xs"
    then show "list_all2 (\<lambda>r x. v r = Inr x \<and> post x = Inr ()) (r # rs) xs
        \<and> distinct (map key xs) \<and> (\<forall>x \<in> set xs. key x \<notin> seen)"
      unfolding load_loop_Cons Cons.IH by fastforce
  next
    assume a: "list_all2 (\<lambda>r x. v r = Inr x \<and> post x = Inr ()) (r # rs) xs
        \<and> distinct (map key xs) \<and> (\<forall>x \<in> set xs. key x \<notin> seen)"
    then obtain x zs where xs: "xs = x # zs" "v r = Inr x" "post x = Inr ()"
      "list_all2 (\<lambda>r x. v r = Inr x \<and> post x = Inr ()) rs zs"
      by (auto simp: list_all2_Cons1)
    with a have "load_loop v key dup post (insert (key x) seen) rs = Inr zs"
      unfolding Cons.IH by (auto simp: image_iff)
    with a xs show "load_loop v key dup post seen (r # rs) = Inr xs"
      unfolding load_loop_Cons by auto
  qed
qed

lemma load_section_Inr:
  "load_section v key dup post rs = Inr ys \<longleftrightarrow>
     (\<exists>xs. list_all2 (\<lambda>r x. v r = Inr x \<and> post x = Inr ()) rs xs \<and> distinct (map key xs)
        \<and> ys = sort_key key xs)"
  by (auto simp: load_section_def ebind_Inr load_loop_Inr)

lemma list_all2_rightD: "list_all2 P xs ys \<Longrightarrow> y \<in> set ys \<Longrightarrow> \<exists>x \<in> set xs. P x y"
  by (induction xs ys rule: list_all2_induct) auto

lemma list_all2_leftD: "list_all2 P xs ys \<Longrightarrow> x \<in> set xs \<Longrightarrow> \<exists>y \<in> set ys. P x y"
  by (induction xs ys rule: list_all2_induct) auto

lemma load_section_item:
  assumes "load_section v key dup post rs = Inr ys" and "y \<in> set ys"
  shows "\<exists>r \<in> set rs. v r = Inr y \<and> post y = Inr ()"
  using assms by (auto simp: load_section_Inr dest: list_all2_rightD)

lemma load_section_all:
  assumes "load_section v key dup post rs = Inr ys" and "r \<in> set rs"
  shows "\<exists>y \<in> set ys. v r = Inr y"
  using assms by (auto simp: load_section_Inr dest: list_all2_leftD)

lemma load_section_length:
  "load_section v key dup post rs = Inr ys \<Longrightarrow> length ys = length rs"
  by (auto simp: load_section_Inr list_all2_lengthD)

lemma load_section_sorted:
  assumes "load_section v key dup post rs = Inr ys"
  shows "sorted_wrt (<) (map key ys)"
proof -
  from assms obtain xs where d: "distinct (map key xs)" and ys: "ys = sort_key key xs"
    by (auto simp: load_section_Inr)
  have "mset (map key ys) = mset (map key xs)" using ys by simp
  with d have "distinct (map key ys)" by (metis mset_eq_imp_distinct_iff)
  with ys show ?thesis by (simp add: strict_sorted_iff)
qed

text \<open>The order of declaration does not matter for a section that loads.\<close>

lemma load_section_order:
  assumes "load_section v key dup post rs = Inr ys" and "mset rs' = mset rs"
  shows "load_section v key dup post rs' = Inr ys"
proof -
  from assms(1) obtain xs where x: "list_all2 (\<lambda>r x. v r = Inr x \<and> post x = Inr ()) rs xs"
    and d: "distinct (map key xs)" and ys: "ys = sort_key key xs"
    by (auto simp: load_section_Inr)
  have xs: "xs = map (projr \<circ> v) rs"
    using x by (induction rule: list_all2_induct) auto
  have ok: "\<forall>r \<in> set rs. v r = Inr (projr (v r)) \<and> post (projr (v r)) = Inr ()"
    using x by (auto dest!: list_all2_leftD)
  define xs' where "xs' = map (projr \<circ> v) rs'"
  have "set rs' = set rs" using assms(2) by (rule mset_eq_setD)
  then have "list_all2 (\<lambda>r x. v r = Inr x \<and> post x = Inr ()) rs' xs'"
    using ok unfolding xs'_def list_all2_map2 by (simp add: list_all2_same)
  moreover have m: "mset xs' = mset xs" using assms(2) by (simp add: xs xs'_def)
  then have "distinct (map key xs')"
    using d by (metis mset_eq_imp_distinct_iff mset_map)
  moreover have "sort_key key xs = sort_key key xs'"
  proof (rule sort_key_inj_key_eq)
    show "mset xs = mset (sort_key key xs')" using m by simp
    show "inj_on key (set xs)" using d by (simp add: distinct_map)
    show "sorted (map key (sort_key key xs'))" by simp
  qed
  ultimately show ?thesis unfolding load_section_Inr ys by (intro exI [of _ xs'] conjI)
qed

text \<open>
  A section that does not load reports the first item that fails, in the order of
  declaration, and for that item the first check that fails.
\<close>

definition first_offender :: "('r \<Rightarrow> 'e + 'a) \<Rightarrow> ('a \<Rightarrow> string) \<Rightarrow> (string \<Rightarrow> 'e) \<Rightarrow> ('a \<Rightarrow> 'e + unit)
    \<Rightarrow> 'r list \<Rightarrow> 'r \<Rightarrow> 'e \<Rightarrow> bool" where
  "first_offender v key dup post pre r e \<longleftrightarrow>
     (\<exists>xs. list_all2 (\<lambda>r x. v r = Inr x \<and> post x = Inr ()) pre xs \<and> distinct (map key xs)
        \<and> (case v r of
             Inl d \<Rightarrow> e = d
           | Inr x \<Rightarrow> if key x \<in> key ` set xs then e = dup (key x) else post x = Inl e))"

lemma load_loop_Inl:
  assumes "load_loop v key dup post seen rs = Inl e"
  shows "\<exists>pre r suf xs. rs = pre @ r # suf
    \<and> list_all2 (\<lambda>r x. v r = Inr x \<and> post x = Inr ()) pre xs \<and> distinct (map key xs)
    \<and> (\<forall>x \<in> set xs. key x \<notin> seen)
    \<and> (case v r of Inl d \<Rightarrow> e = d
        | Inr x \<Rightarrow> if key x \<in> key ` set xs \<union> seen then e = dup (key x) else post x = Inl e)"
  using assms
proof (induction rs arbitrary: seen)
  case (Cons r rs)
  show ?case
  proof (cases "load_loop v key dup post seen [r]")
    case (Inl d)
    with Cons.prems have "case v r of Inl d \<Rightarrow> e = d
        | Inr x \<Rightarrow> if key x \<in> seen then e = dup (key x) else post x = Inl e"
      by (auto simp: ebind_Inl split: sum.splits if_splits)
    then have "r # rs = [] @ r # rs \<and> list_all2 (\<lambda>r x. v r = Inr x \<and> post x = Inr ()) [] []
        \<and> distinct (map key []) \<and> (\<forall>x \<in> set []. key x \<notin> seen)
        \<and> (case v r of Inl d \<Rightarrow> e = d
            | Inr x \<Rightarrow> if key x \<in> key ` set [] \<union> seen then e = dup (key x) else post x = Inl e)"
      by (simp split: sum.splits)
    then show ?thesis by blast
  next
    case (Inr ys)
    then obtain x where x: "v r = Inr x" "key x \<notin> seen" "post x = Inr ()"
      by (auto simp: load_loop_Cons simp del: load_loop.simps)
    with Cons.prems have "load_loop v key dup post (insert (key x) seen) rs = Inl e"
      by (auto simp: ebind_Inl)
    from Cons.IH [OF this] obtain pre q suf xs where
      h: "rs = pre @ q # suf" "list_all2 (\<lambda>r x. v r = Inr x \<and> post x = Inr ()) pre xs"
      "distinct (map key xs)" "\<forall>y \<in> set xs. key y \<notin> insert (key x) seen"
      "case v q of Inl d \<Rightarrow> e = d
        | Inr y \<Rightarrow> if key y \<in> key ` set xs \<union> insert (key x) seen then e = dup (key y) else post y = Inl e"
      by blast
    show ?thesis
      by (rule exI [of _ "r # pre"], rule exI [of _ q], rule exI [of _ suf], rule exI [of _ "x # xs"])
        (use h x in \<open>auto split: sum.splits if_splits\<close>)
  qed
qed simp

lemma load_section_Inl:
  assumes "load_section v key dup post rs = Inl e"
  shows "\<exists>pre r suf. rs = pre @ r # suf \<and> first_offender v key dup post pre r e"
proof -
  from assms have "load_loop v key dup post {} rs = Inl e" by (auto simp: load_section_def ebind_Inl)
  from load_loop_Inl [OF this] show ?thesis
    unfolding first_offender_def Un_empty_right by (elim exE conjE) (intro exI conjI)
qed

lemma load_loop_offender:
  assumes "list_all2 (\<lambda>r x. v r = Inr x \<and> post x = Inr ()) pre xs" and "distinct (map key xs)"
    and "\<forall>x \<in> set xs. key x \<notin> seen"
    and "case v r of Inl d \<Rightarrow> e = d
        | Inr x \<Rightarrow> if key x \<in> key ` set xs \<union> seen then e = dup (key x) else post x = Inl e"
  shows "load_loop v key dup post seen (pre @ r # suf) = Inl e"
  using assms
proof (induction pre xs arbitrary: seen rule: list_all2_induct)
  case Nil
  then show ?case by (cases "v r") (auto split: if_splits)
next
  case (Cons p pre x xs)
  have "load_loop v key dup post (insert (key x) seen) (pre @ r # suf) = Inl e"
    by (rule Cons.IH) (use Cons.prems in \<open>auto simp: image_iff split: sum.splits if_splits\<close>)
  with Cons show ?case by simp
qed

lemma load_section_offender:
  "first_offender v key dup post pre r e \<Longrightarrow> load_section v key dup post (pre @ r # suf) = Inl e"
  unfolding first_offender_def load_section_def
  by (elim exE conjE, subst load_loop_offender) (auto split: sum.splits)

end
