(* ===== verification/Load_Places.thy ===== *)
theory Load_Places
  imports Load_Base Load_Error Load_Raw
begin

text \<open>
  Validation of the three catalogues the rest of a scene refers to: things, places and
  links (\<open>validate_thing\<close>, \<open>validate_place\<close>, \<open>validate_link\<close> and their helpers in
  \<open>scenario_language_v1.rs\<close>), with the checks in the order of the code, so that the first
  error is the one the code reports.
\<close>

definition SL1_PERCENT_MAX :: u8 where "SL1_PERCENT_MAX = 100"
definition MAX_LINK_QUEUE_CAPACITY :: u64 where "MAX_LINK_QUEUE_CAPACITY = 1000000000"
definition MAX_LINK_TRAVEL_TICKS :: u64 where "MAX_LINK_TRAVEL_TICKS = 1000000000"
definition MAX_THING_FRESHNESS_BUDGET :: u64 where "MAX_THING_FRESHNESS_BUDGET = 1000000000"
definition MAX_THING_LATE_TICKS :: u64 where "MAX_THING_LATE_TICKS = 1000000000"

section \<open>Things\<close>

definition canonicalize_thing_tags :: "string \<Rightarrow> string list \<Rightarrow> thing_error + string list" where
  "canonicalize_thing_tags tid raw = canonicalize (ThingEmptyTag tid) (ThingDuplicateTag tid) [] raw"

definition check_max_drop_percent :: "string \<Rightarrow> f64_bits \<Rightarrow> thing_error + f64_bits" where
  "check_max_drop_percent tid v =
     (if \<not> f64_is_finite v \<or> \<not> (f64_le f64_zero v \<and> f64_le v f64_one)
      then Inl (ThingQualityMaxDropPercentOutOfRange tid v)
      else Inr (if f64_key v = 0 then f64_zero else v))"

definition validate_thing_quality_contract ::
    "string \<Rightarrow> raw_thing_quality_contract \<Rightarrow> thing_error + sl1_thing_quality_contract" where
  "validate_thing_quality_contract tid raw =
     ebind (traverse_option (check_max_drop_percent tid) (rqc_max_drop_percent raw)) (\<lambda>drop_pc.
     ebind (case rqc_max_late_ticks raw of None \<Rightarrow> Inr ()
        | Some late \<Rightarrow>
            if late = 0 then Inl (ThingQualityMaxLateTicksZero tid)
            else require (late \<le> MAX_THING_LATE_TICKS)
              (ThingQualityMaxLateTicksOutOfRange tid late MAX_THING_LATE_TICKS)) (\<lambda>_.
     ebind (canonicalize (ThingQualityRequiredFieldEmpty tid)
        (ThingQualityRequiredFieldDuplicate tid) [] (rqc_required_fields raw)) (\<lambda>fields.
     Inr \<lparr>qc_max_drop_percent = drop_pc, qc_max_late_ticks = rqc_max_late_ticks raw,
          qc_required_fields = fields\<rparr>)))"

definition validate_thing_render :: "string \<Rightarrow> raw_thing_render_hint \<Rightarrow> thing_error + sl1_thing_render_hint" where
  "validate_thing_render tid hint =
     (if blank (rtr_glyph hint) then Inl (ThingEmptyRenderGlyph tid)
      else Inr \<lparr>trh_glyph = rtr_glyph hint, trh_color = rtr_color hint\<rparr>)"

definition validate_thing :: "raw_thing \<Rightarrow> thing_error + sl1_thing" where
  "validate_thing raw =
     (let i = rth_id raw in
      if \<not> is_valid_sl1_id i then Inl (ThingInvalidId i)
      else if blank (rth_kind raw) then Inl (ThingEmptyKind i)
      else
        ebind (canonicalize_thing_tags i (rth_tags raw)) (\<lambda>tags.
        ebind (require (rth_schema_version raw \<noteq> Some 0) (ThingSchemaVersionZero i)) (\<lambda>_.
        ebind (case rth_freshness_budget_ticks raw of None \<Rightarrow> Inr ()
           | Some budget \<Rightarrow>
               if budget = 0 then Inl (ThingFreshnessBudgetZero i)
               else require (budget \<le> MAX_THING_FRESHNESS_BUDGET)
                 (ThingFreshnessBudgetOutOfRange i budget MAX_THING_FRESHNESS_BUDGET)) (\<lambda>_.
        ebind (traverse_option (validate_thing_quality_contract i) (rth_quality_contract raw)) (\<lambda>qc.
        ebind (traverse_option (validate_thing_render i) (rth_render raw)) (\<lambda>render.
        Inr \<lparr>thing_id = i, thing_kind = rth_kind raw, thing_tags = tags,
             thing_schema_version = rth_schema_version raw,
             thing_freshness_budget_ticks = rth_freshness_budget_ticks raw,
             thing_quality_contract = qc, thing_render = render\<rparr>))))))"

section \<open>Places\<close>

definition canonicalize_set :: "string \<Rightarrow> string \<Rightarrow> string list \<Rightarrow> place_error + string list" where
  "canonicalize_set pid field raw = canonicalize (PlaceEmptyEntry pid field) (PlaceDuplicateEntry pid field) [] raw"

text \<open>
  \<open>parse_predicate\<close>: the two templates of an operating state's \<open>when\<close>. The first one
  is left only when its left side is not an id followed by \<open>.used_percent\<close>.
\<close>

definition parse_used_percent :: "string \<Rightarrow> (string \<times> string) option" where
  "parse_used_percent trimmed =
     (case split_once ''>='' trimmed of None \<Rightarrow> None
      | Some (lhs, rhs) \<Rightarrow>
          (case strip_suffix ''.used_percent'' (trim lhs) of None \<Rightarrow> None
           | Some metric \<Rightarrow>
               if is_valid_sl1_id (trim metric) then Some (trim metric, trim rhs) else None))"

definition parse_overloaded :: "string \<Rightarrow> string option" where
  "parse_overloaded trimmed =
     (case split_once ''>'' trimmed of None \<Rightarrow> None
      | Some (lhs, rhs) \<Rightarrow>
          if trim lhs = ''overloaded_ticks'' \<and> \<not> starts_with ''='' (trim rhs)
          then Some (trim rhs) else None)"

definition parse_predicate :: "string \<Rightarrow> string \<Rightarrow> string \<Rightarrow> place_error + sl1_operating_predicate" where
  "parse_predicate pid state_name when_str =
     (let trimmed = trim when_str; unsupported = Inl (PlaceUnsupportedPredicate pid state_name when_str) in
      case parse_used_percent trimmed of
        Some (metric, rhs) \<Rightarrow>
          (case parse_u64 rhs of None \<Rightarrow> unsupported
           | Some threshold \<Rightarrow>
               if ucast SL1_PERCENT_MAX < threshold
               then Inl (PlacePercentThresholdOutOfRange pid state_name threshold SL1_PERCENT_MAX)
               else Inr (UsedPercentGte metric (ucast threshold)))
      | None \<Rightarrow>
          (case parse_overloaded trimmed of
             Some rhs \<Rightarrow>
               (case parse_u64 rhs of None \<Rightarrow> unsupported
                | Some ticks \<Rightarrow> Inr (OverloadedTicksGt ticks))
           | None \<Rightarrow> unsupported))"

definition check_storage_slot :: "string \<Rightarrow> string \<times> raw_storage_slot \<Rightarrow> place_error + unit" where
  "check_storage_slot pid e =
     (case e of (slot, d) \<Rightarrow>
        if blank slot then Inl (PlaceEmptyEntry pid ''storage'')
        else if rss_capacity d = 0 then Inl (PlaceStorageCapacityZero pid slot)
        else if rss_capacity d < rss_initial d
          then Inl (PlaceStorageInitialExceedsCapacity pid slot (rss_initial d) (rss_capacity d))
        else Inr ())"

definition validate_operating_state ::
    "string \<Rightarrow> (string, u64) btree_map \<Rightarrow> string \<times> raw_operating_state
      \<Rightarrow> place_error + string \<times> sl1_operating_state" where
  "validate_operating_state pid capacity e =
     (case e of (state_name, rs) \<Rightarrow>
        if blank state_name then Inl (PlaceEmptyOperatingStateName pid)
        else
          ebind (parse_predicate pid state_name (ros_when rs)) (\<lambda>predicate.
          ebind (case predicate of
              UsedPercentGte metric _ \<Rightarrow>
                require (bt_has capacity metric) (PlacePredicateUnknownMetric pid state_name metric)
            | OverloadedTicksGt _ \<Rightarrow> Inr ()) (\<lambda>_.
          Inr (state_name, \<lparr>os_predicate = predicate, os_grace_ticks = ros_grace_ticks rs\<rparr>))))"

definition pos_ok :: "f32_bits \<times> f32_bits \<Rightarrow> bool" where
  "pos_ok pos \<longleftrightarrow> f32_is_finite (fst pos) \<and> f32_is_finite (snd pos)
     \<and> \<not> f32_abs_gt (fst pos) SL1_COORD_LIMIT \<and> \<not> f32_abs_gt (snd pos) SL1_COORD_LIMIT"

definition validate_place :: "raw_place \<Rightarrow> place_error + sl1_place" where
  "validate_place raw =
     (let i = rp_id raw in
      if \<not> is_valid_sl1_id i then Inl (PlaceInvalidId i)
      else if blank (rp_role raw) then Inl (PlaceEmptyRole i)
      else if \<not> pos_ok (rp_pos raw) then Inl (PlaceInvalidPos i)
      else if (case rp_shape raw of None \<Rightarrow> False | Some shape \<Rightarrow> blank shape)
        then Inl (PlaceEmptyShape i)
      else
        ebind (each (\<lambda>k. require (\<not> blank k) (PlaceEmptyEntry i ''capacity''))
           (bt_keys (rp_capacity raw))) (\<lambda>_.
        ebind (each (check_storage_slot i) (rp_storage raw)) (\<lambda>_.
        ebind (canonicalize_set i ''accepts'' (rp_accepts raw)) (\<lambda>accepts.
        ebind (canonicalize_set i ''produces'' (rp_produces raw)) (\<lambda>produces.
        ebind (canonicalize_set i ''failure_domains'' (rp_failure_domains raw)) (\<lambda>domains.
        ebind (emap (validate_operating_state i (rp_capacity raw)) (rp_operating_states raw)) (\<lambda>states.
        Inr \<lparr>place_id = i, place_role = rp_role raw, place_pos = rp_pos raw,
             place_shape = rp_shape raw, place_color = rp_color raw,
             place_capacity = rp_capacity raw,
             place_storage = bt_collect (map (\<lambda>(k, d).
               (k, \<lparr>slot_capacity = rss_capacity d, slot_initial = rss_initial d\<rparr>)) (rp_storage raw)),
             place_accepts = accepts, place_produces = produces,
             place_failure_domains = domains,
             place_operating_states = bt_collect states\<rparr>)))))))"

text \<open>The cross-checks of a place against the thing catalogue, in \<open>validate\<close>.\<close>

definition place_refs :: "string set \<Rightarrow> string set \<Rightarrow> sl1_place \<Rightarrow> place_error + unit" where
  "place_refs ids tags p =
     ebind (each (\<lambda>k. require (k \<in> ids) (PlaceStorageUnknownThing (place_id p) k))
        (bt_keys (place_storage p))) (\<lambda>_.
     ebind (each (\<lambda>v. require (v \<in> ids \<or> v \<in> tags)
        (PlaceUnknownThingReference (place_id p) ''accepts'' v)) (place_accepts p)) (\<lambda>_.
     each (\<lambda>v. require (v \<in> ids \<or> v \<in> tags)
        (PlaceUnknownThingReference (place_id p) ''produces'' v)) (place_produces p)))"

section \<open>Links\<close>

definition canonicalize_link_compatibility :: "string \<Rightarrow> string list \<Rightarrow> link_error + string list" where
  "canonicalize_link_compatibility lid raw =
     canonicalize (LinkEmptyEntry lid ''compatibility'') (LinkDuplicateCompatibility lid) [] raw"

fun parse_direction :: "string \<Rightarrow> string option \<Rightarrow> link_error + sl1_link_direction" where
  "parse_direction lid None = Inl (LinkMissingDirection lid)"
| "parse_direction lid (Some s) =
     (if s = ''forward'' then Inr Forward
      else if s = ''bidirectional'' then Inr Bidirectional
      else Inl (LinkUnknownDirection lid s))"

fun parse_backpressure :: "string \<Rightarrow> string option \<Rightarrow> link_error + sl1_link_backpressure" where
  "parse_backpressure lid None = Inl (LinkMissingBackpressure lid)"
| "parse_backpressure lid (Some s) =
     (if s = ''block_upstream'' then Inr BlockUpstream
      else if s = ''drop_low_priority'' then Inr DropLowPriority
      else if s = ''spill_to_buffer'' then Inr SpillToBuffer
      else if s = ''degrade_quality'' then Inr DegradeQuality
      else Inl (LinkUnknownBackpressure lid s))"

definition validate_link_render :: "string \<Rightarrow> raw_link_render_hint \<Rightarrow> link_error + sl1_link_render_hint" where
  "validate_link_render lid r =
     (if blank (rlh_style r) then Inl (LinkEmptyRenderStyle lid)
      else Inr \<lparr>lrh_style = rlh_style r, lrh_color = rlh_color r\<rparr>)"

definition validate_link :: "string set \<Rightarrow> raw_link \<Rightarrow> link_error + sl1_link" where
  "validate_link place_ids raw =
     (let i = rl_id raw in
      if \<not> is_valid_sl1_id i then Inl (LinkInvalidId i)
      else if blank (rl_link_type raw) then Inl (LinkEmptyType i)
      else if rl_from raw \<notin> place_ids then Inl (LinkUnknownPlace i ''from'' (rl_from raw))
      else if rl_to raw \<notin> place_ids then Inl (LinkUnknownPlace i ''to'' (rl_to raw))
      else if rl_from raw = rl_to raw then Inl (LinkSelfLoop i (rl_from raw))
      else
        ebind (parse_direction i (rl_direction raw)) (\<lambda>direction.
        ebind (parse_backpressure i (rl_backpressure raw)) (\<lambda>backpressure.
        ebind (each (\<lambda>k. require (\<not> blank k) (LinkEmptyEntry i ''capacity''))
           (bt_keys (rl_capacity raw))) (\<lambda>_.
        if rl_travel_ticks raw = 0 then Inl (LinkTravelTicksZero i)
        else if MAX_LINK_TRAVEL_TICKS < rl_travel_ticks raw
          then Inl (LinkTravelTicksOutOfRange i (rl_travel_ticks raw) MAX_LINK_TRAVEL_TICKS)
        else if rl_queue_capacity raw = 0 then Inl (LinkQueueCapacityZero i)
        else if MAX_LINK_QUEUE_CAPACITY < rl_queue_capacity raw
          then Inl (LinkQueueCapacityOutOfRange i (rl_queue_capacity raw) MAX_LINK_QUEUE_CAPACITY)
        else
          ebind (canonicalize_link_compatibility i (rl_compatibility raw)) (\<lambda>compatibility.
          ebind (traverse_option (validate_link_render i) (rl_render raw)) (\<lambda>render.
          Inr \<lparr>link_id = i, link_type = rl_link_type raw, link_from = rl_from raw,
               link_to = rl_to raw, link_direction = direction, link_capacity = rl_capacity raw,
               link_travel_ticks = rl_travel_ticks raw, link_compatibility = compatibility,
               link_queue_capacity = rl_queue_capacity raw, link_backpressure = backpressure,
               link_render = render\<rparr>))))))"

definition link_refs :: "string set \<Rightarrow> string set \<Rightarrow> sl1_link \<Rightarrow> link_error + unit" where
  "link_refs ids tags l =
     each (\<lambda>v. require (v \<in> ids \<or> v \<in> tags) (LinkCompatibilityUnknownReference (link_id l) v))
       (link_compatibility l)"

section \<open>What acceptance means\<close>

lemma validate_place_keys:
  assumes "validate_place r = Inr p"
  shows "place_id p = rp_id r" "is_valid_sl1_id (place_id p)" "place_capacity p = rp_capacity r"
    "\<forall>e \<in> set (rp_storage r). check_storage_slot (rp_id r) e = Inr ()"
    "place_storage p = bt_collect (map (\<lambda>(k, d).
               (k, \<lparr>slot_capacity = rss_capacity d, slot_initial = rss_initial d\<rparr>)) (rp_storage r))"
  using assms
  by (auto simp: validate_place_def Let_def load_simps split: if_splits)

lemma check_storage_slot_Inr:
  "check_storage_slot i (k, d) = Inr () \<longleftrightarrow>
     \<not> blank k \<and> rss_capacity d \<noteq> 0 \<and> rss_initial d \<le> rss_capacity d"
  by (auto simp: check_storage_slot_def split: if_splits)

lemma validate_place_ok:
  assumes "validate_place r = Inr p" and "raw_place_wf r"
  shows "place_ok p"
proof -
  note v = validate_place_keys [OF assms(1)]
  have wf: "bt_wf (place_capacity p)" "bt_wf (place_storage p)"
    using assms(2) v(3,5) by (simp_all add: raw_place_wf_def)
  have "slot_initial slot \<le> slot_capacity slot" if "(k, slot) \<in> set (place_storage p)" for k slot
  proof -
    have "bt_get (place_storage p) k = Some slot" using that wf(2) by (simp add: bt_wf_get)
    then have "(k, slot) \<in> set (map (\<lambda>(k, d).
        (k, \<lparr>slot_capacity = rss_capacity d, slot_initial = rss_initial d\<rparr>)) (rp_storage r))"
      unfolding v(5) by (rule bt_get_collect_SomeD)
    then obtain d where "(k, d) \<in> set (rp_storage r)" "slot_initial slot = rss_initial d"
      "slot_capacity slot = rss_capacity d" by auto
    with v(4) show ?thesis by (auto simp: check_storage_slot_Inr)
  qed
  with wf show ?thesis by (auto simp: place_ok_def)
qed

lemma place_refs_Inr:
  "place_refs ids tags p = Inr u \<longleftrightarrow>
     set (bt_keys (place_storage p)) \<subseteq> ids \<and> set (place_accepts p) \<subseteq> ids \<union> tags
     \<and> set (place_produces p) \<subseteq> ids \<union> tags"
  by (auto simp: place_refs_def load_simps)

lemma validate_link_ok:
  assumes "validate_link ids r = Inr l"
  shows "link_id l = rl_id r" "link_from l \<in> ids" "link_to l \<in> ids" "link_from l \<noteq> link_to l"
  using assms by (auto simp: validate_link_def Let_def load_simps split: if_splits)

lemma link_refs_Inr: "link_refs ids tags l = Inr u \<longleftrightarrow> set (link_compatibility l) \<subseteq> ids \<union> tags"
  by (auto simp: link_refs_def load_simps)

end
