(* ===== verification/Load_Flow.thy ===== *)
theory Load_Flow
  imports Load_Base Load_Error Load_Raw
begin

text \<open>
  Validation of what moves: transforms, demand and pressure (\<open>validate_transform\<close>,
  \<open>validate_demand\<close>, \<open>validate_pressure\<close> and their helpers). The multiplier of a source
  pressure is the one place where the loader computes with a float; the product, its
  rounding and the cast to milli-units are computed exactly on the bit pattern.
\<close>

definition MAX_DEMAND_VALUE :: u64 where "MAX_DEMAND_VALUE = 1000000000"
definition MAX_DEMAND_PENALTY_SCORE :: i64 where "MAX_DEMAND_PENALTY_SCORE = 1000000000"
definition MAX_DEMAND_SCRIPTED_TICKS :: nat where "MAX_DEMAND_SCRIPTED_TICKS = 100000"
definition MAX_DEMAND_REQUIRES :: nat where "MAX_DEMAND_REQUIRES = 64"
definition MAX_PRESSURE_MULTIPLIER_MILLI :: u64 where "MAX_PRESSURE_MULTIPLIER_MILLI = 1000000"
definition MAX_PRESSURE_SPAWN_MULTIPLIER :: u32 where "MAX_PRESSURE_SPAWN_MULTIPLIER = 64"
definition MAX_PRESSURE_REDUCTION_PERCENT :: u8 where "MAX_PRESSURE_REDUCTION_PERCENT = 100"

text \<open>\<open>places_by_id\<close>.\<close>

definition places_map :: "sl1_place list \<Rightarrow> (string, sl1_place) btree_map" where
  "places_map places = bt_collect (map (\<lambda>p. (place_id p, p)) places)"

section \<open>Transforms\<close>

definition check_io_amount :: "string \<Rightarrow> string \<Rightarrow> sl1_transform_io \<Rightarrow> transform_error + unit" where
  "check_io_amount i field io =
     (if io_amount io = 0 then Inl (TransformIoAmountZero i field (io_thing_id io))
      else require (io_amount io \<le> MAX_TRANSFORM_AMOUNT)
        (TransformIoAmountOutOfRange i field (io_thing_id io) (io_amount io) MAX_TRANSFORM_AMOUNT))"

definition known_io_thing :: "string \<Rightarrow> string \<Rightarrow> string set \<Rightarrow> raw_transform_io
    \<Rightarrow> transform_error + sl1_transform_io" where
  "known_io_thing i field ids e =
     (if rio_thing e \<notin> ids then Inl (TransformUnknownThing i field (rio_thing e))
      else Inr \<lparr>io_thing_id = rio_thing e, io_amount = rio_amount e\<rparr>)"

definition validate_transform_io :: "string \<Rightarrow> string \<Rightarrow> string set \<Rightarrow> raw_transform_io list
    \<Rightarrow> transform_error + sl1_transform_io list" where
  "validate_transform_io i field ids raw =
     load_section (known_io_thing i field ids) io_thing_id (TransformDuplicateIo i field)
       (check_io_amount i field) raw"

definition check_transform_ticks :: "raw_transform \<Rightarrow> transform_error + unit" where
  "check_transform_ticks raw =
     (let i = rx_id raw in
      if rx_cadence_ticks raw = 0 then Inl (TransformCadenceZero i)
      else if MAX_TRANSFORM_TICKS < rx_cadence_ticks raw
        then Inl (TransformTicksOutOfRange i ''cadence_ticks'' (rx_cadence_ticks raw) MAX_TRANSFORM_TICKS)
      else if rx_duration_ticks raw = 0 then Inl (TransformDurationZero i)
      else if MAX_TRANSFORM_TICKS < rx_duration_ticks raw
        then Inl (TransformTicksOutOfRange i ''duration_ticks'' (rx_duration_ticks raw) MAX_TRANSFORM_TICKS)
      else if rx_deadline_ticks raw = 0 then Inl (TransformDeadlineZero i)
      else if MAX_TRANSFORM_TICKS < rx_deadline_ticks raw
        then Inl (TransformTicksOutOfRange i ''deadline_ticks'' (rx_deadline_ticks raw) MAX_TRANSFORM_TICKS)
      else if rx_deadline_ticks raw < rx_duration_ticks raw
        then Inl (TransformDeadlineLessThanDuration i (rx_deadline_ticks raw) (rx_duration_ticks raw))
      else Inr ())"

definition check_capacity_cost ::
    "raw_transform \<Rightarrow> sl1_place \<Rightarrow> string \<times> u64 \<Rightarrow> transform_error + unit" where
  "check_capacity_cost raw place e =
     (case e of (key, v) \<Rightarrow>
        if blank key then Inl (TransformCapacityCostEmptyKey (rx_id raw))
        else if v = 0 then Inl (TransformCapacityCostZero (rx_id raw) key)
        else if MAX_TRANSFORM_CAPACITY_COST < v
          then Inl (TransformCapacityCostOutOfRange (rx_id raw) key v MAX_TRANSFORM_CAPACITY_COST)
        else require (bt_has (place_capacity place) key)
          (TransformUnknownCapacityKey (rx_id raw) key (rx_runs_on raw)))"

definition parse_failure_policy :: "string \<Rightarrow> string \<Rightarrow> transform_error + sl1_failure_policy" where
  "parse_failure_policy i s =
     (if s = ''retry_then_warn'' then Inr RetryThenWarn
      else if s = ''drop'' then Inr DropPolicy
      else Inl (TransformInvalidFailurePolicy i s))"

definition validate_transform :: "(string, sl1_place) btree_map \<Rightarrow> string set \<Rightarrow> raw_transform
    \<Rightarrow> transform_error + sl1_transform" where
  "validate_transform places_by_id ids raw =
     (let i = rx_id raw in
      if \<not> is_valid_sl1_id i then Inl (TransformInvalidId i)
      else if blank (rx_kind raw) then Inl (TransformEmptyType i)
      else
        (case bt_get places_by_id (rx_runs_on raw) of
           None \<Rightarrow> Inl (TransformUnknownPlace i (rx_runs_on raw))
         | Some place \<Rightarrow>
             ebind (validate_transform_io i ''inputs'' ids (rx_inputs raw)) (\<lambda>inputs.
             if rx_outputs raw = [] then Inl (TransformEmptyOutputs i)
             else
               ebind (validate_transform_io i ''outputs'' ids (rx_outputs raw)) (\<lambda>outputs.
               ebind (check_transform_ticks raw) (\<lambda>_.
               ebind (each (check_capacity_cost raw place) (rx_capacity_cost raw)) (\<lambda>_.
               ebind (parse_failure_policy i (rx_failure_policy raw)) (\<lambda>policy.
               if rx_max_attempts raw = 0 then Inl (TransformMaxAttemptsZero i)
               else if MAX_TRANSFORM_MAX_ATTEMPTS < rx_max_attempts raw
                 then Inl (TransformMaxAttemptsOutOfRange i (rx_max_attempts raw) MAX_TRANSFORM_MAX_ATTEMPTS)
               else Inr \<lparr>transform_id = i, transform_kind = rx_kind raw,
                      transform_runs_on = rx_runs_on raw, transform_inputs = inputs,
                      transform_outputs = outputs, transform_cadence_ticks = rx_cadence_ticks raw,
                      transform_duration_ticks = rx_duration_ticks raw,
                      transform_deadline_ticks = rx_deadline_ticks raw,
                      transform_capacity_cost = rx_capacity_cost raw,
                      transform_failure_policy = policy,
                      transform_max_attempts = rx_max_attempts raw\<rparr>))))))) "

section \<open>Demand\<close>

definition validate_demand_target ::
    "string \<Rightarrow> string set \<Rightarrow> raw_demand_target \<Rightarrow> demand_error + sl1_demand_target" where
  "validate_demand_target i place_ids raw =
     (if rdt_kind raw = ''place'' then
        (if rdt_id raw \<notin> place_ids then Inl (DemandUnknownTarget i (rdt_id raw))
         else Inr (TargetPlace (rdt_id raw)))
      else if rdt_kind raw \<in> {''transform'', ''dashboard'', ''virtual_sink''}
        then Inl (DemandTargetKindNotImplemented i (rdt_kind raw))
      else Inl (DemandUnknownTargetKind i (rdt_kind raw)))"

definition validate_demand_requires ::
    "string \<Rightarrow> string set \<Rightarrow> string list \<Rightarrow> demand_error + string list" where
  "validate_demand_requires i ids raw =
     (if raw = [] then Inl (DemandRequiresEmpty i)
      else if MAX_DEMAND_REQUIRES < length raw
        then Inl (DemandRequiresTooMany i (length raw) MAX_DEMAND_REQUIRES)
      else load_section (\<lambda>v. if v \<notin> ids then Inl (DemandUnknownRequires i v) else Inr v)
        (\<lambda>v. v) (DemandDuplicateRequires i) no_check raw)"

fun check_scripted_ticks :: "string \<Rightarrow> u64 option \<Rightarrow> u64 list \<Rightarrow> demand_error + unit" where
  "check_scripted_ticks i prev [] = Inr ()"
| "check_scripted_ticks i prev (tick # ticks) =
     (if tick = 0 then Inl (DemandScheduleScriptedTickZero i)
      else if MAX_DEMAND_TICKS < tick
        then Inl (DemandScheduleFieldOutOfRange i ''ticks'' tick MAX_DEMAND_TICKS)
      else if (case prev of None \<Rightarrow> False | Some p \<Rightarrow> tick \<le> p)
        then Inl (DemandScheduleScriptedNotIncreasing i tick)
      else check_scripted_ticks i (Some tick) ticks)"

definition required :: "'a option \<Rightarrow> 'e \<Rightarrow> 'e + 'a" where
  "required m e = (case m of None \<Rightarrow> Inl e | Some x \<Rightarrow> Inr x)"

lemma required_Inr [load_simps]: "required m e = Inr x \<longleftrightarrow> m = Some x"
  by (auto simp: required_def split: option.splits)

definition validate_fixed :: "string \<Rightarrow> raw_demand_schedule \<Rightarrow> demand_error + sl1_demand_schedule" where
  "validate_fixed i raw =
     (if rds_ticks raw \<noteq> None then Inl (DemandScheduleUnexpectedField i ''fixed'' ''ticks'')
      else
        ebind (required (rds_every_ticks raw) (DemandScheduleMissingField i ''fixed'' ''every_ticks'')) (\<lambda>every.
        ebind (required (rds_start_tick raw) (DemandScheduleMissingField i ''fixed'' ''start_tick'')) (\<lambda>start.
        if every = 0 then Inl (DemandScheduleFieldZero i ''every_ticks'')
        else if start = 0 then Inl (DemandScheduleFieldZero i ''start_tick'')
        else if MAX_DEMAND_TICKS < every
          then Inl (DemandScheduleFieldOutOfRange i ''every_ticks'' every MAX_DEMAND_TICKS)
        else if MAX_DEMAND_TICKS < start
          then Inl (DemandScheduleFieldOutOfRange i ''start_tick'' start MAX_DEMAND_TICKS)
        else Inr (Fixed every start))))"

definition validate_scripted :: "string \<Rightarrow> raw_demand_schedule \<Rightarrow> demand_error + sl1_demand_schedule" where
  "validate_scripted i raw =
     (if rds_every_ticks raw \<noteq> None
        then Inl (DemandScheduleUnexpectedField i ''scripted'' ''every_ticks'')
      else if rds_start_tick raw \<noteq> None
        then Inl (DemandScheduleUnexpectedField i ''scripted'' ''start_tick'')
      else
        ebind (required (rds_ticks raw) (DemandScheduleMissingField i ''scripted'' ''ticks'')) (\<lambda>ticks.
        if ticks = [] then Inl (DemandScheduleScriptedEmpty i)
        else if MAX_DEMAND_SCRIPTED_TICKS < length ticks
          then Inl (DemandScheduleScriptedTooMany i (length ticks) MAX_DEMAND_SCRIPTED_TICKS)
        else ebind (check_scripted_ticks i None ticks) (\<lambda>_. Inr (Scripted ticks))))"

definition validate_demand_schedule ::
    "string \<Rightarrow> raw_demand_schedule \<Rightarrow> demand_error + sl1_demand_schedule" where
  "validate_demand_schedule i raw =
     (if rds_kind raw = ''fixed'' then validate_fixed i raw
      else if rds_kind raw = ''scripted'' then validate_scripted i raw
      else if rds_kind raw = ''wave'' then Inl (DemandScheduleNotImplemented i ''wave'')
      else Inl (DemandUnknownScheduleType i (rds_kind raw)))"

text \<open>\<open>i64::saturating_abs\<close>: the least number has no positive counterpart.\<close>

definition saturating_abs :: "i64 \<Rightarrow> i64" where
  "saturating_abs x = min \<bar>x\<bar> (2 ^ 63 - 1)"

definition validate_demand_penalty ::
    "string \<Rightarrow> raw_demand_penalty \<Rightarrow> demand_error + sl1_demand_penalty" where
  "validate_demand_penalty i raw =
     (let a = saturating_abs (rdp_score raw) in
      if 0 < rdp_score raw then Inl (DemandPenaltyScorePositive i (rdp_score raw))
      else if MAX_DEMAND_PENALTY_SCORE < a
        then Inl (DemandPenaltyScoreOutOfRange i a MAX_DEMAND_PENALTY_SCORE)
      else if (case rdp_warning raw of None \<Rightarrow> False | Some w \<Rightarrow> blank w)
        then Inl (DemandPenaltyWarningEmpty i)
      else Inr \<lparr>penalty_score = rdp_score raw, penalty_warning = rdp_warning raw\<rparr>)"

definition parse_priority :: "string \<Rightarrow> string \<Rightarrow> demand_error + sl1_demand_priority" where
  "parse_priority i s =
     (if s = ''low'' then Inr PriLow else if s = ''normal'' then Inr PriNormal
      else if s = ''high'' then Inr PriHigh else if s = ''critical'' then Inr PriCritical
      else Inl (DemandInvalidPriority i s))"

definition validate_demand :: "string set \<Rightarrow> string set \<Rightarrow> raw_demand \<Rightarrow> demand_error + sl1_demand" where
  "validate_demand place_ids ids raw =
     (let i = rd_id raw in
      if \<not> is_valid_sl1_id i then Inl (DemandInvalidId i)
      else if blank (rd_kind raw) then Inl (DemandEmptyType i)
      else
        ebind (validate_demand_target i place_ids (rd_target raw)) (\<lambda>target.
        ebind (validate_demand_requires i ids (rd_requires raw)) (\<lambda>requires.
        ebind (validate_demand_schedule i (rd_spawn_schedule raw)) (\<lambda>schedule.
        if rd_deadline_ticks raw = 0 then Inl (DemandDeadlineZero i)
        else if MAX_DEMAND_TICKS < rd_deadline_ticks raw
          then Inl (DemandDeadlineOutOfRange i (rd_deadline_ticks raw) MAX_DEMAND_TICKS)
        else
          ebind (parse_priority i (rd_priority raw)) (\<lambda>priority.
          if MAX_DEMAND_VALUE < rd_value raw
            then Inl (DemandValueOutOfRange i (rd_value raw) MAX_DEMAND_VALUE)
          else
            ebind (validate_demand_penalty i (rd_penalty raw)) (\<lambda>penalty.
            Inr \<lparr>demand_id = i, demand_kind = rd_kind raw, demand_target = target,
                 demand_requires = requires, demand_spawn_schedule = schedule,
                 demand_deadline_ticks = rd_deadline_ticks raw, demand_priority = priority,
                 demand_value = rd_value raw, demand_penalty = penalty\<rparr>))))))"

section \<open>Pressure\<close>

text \<open>
  \<open>(multiplier * 1000.0).round() as u64\<close> of a positive finite \<open>f64\<close>. Its value is
  \<open>mant * 2 ^ ex\<close>; the product has at most 63 bits and is rounded to 53, half to even;
  \<open>round\<close> rounds half away from zero and the cast saturates, so a product beyond the
  largest float, which the code sees as infinity, gives the same result.
\<close>

definition f64_mant :: "f64_bits \<Rightarrow> int" where
  "f64_mant b = (let m = uint (f64_mag b) in if m div 2 ^ 52 = 0 then m else 2 ^ 52 + m mod 2 ^ 52)"

definition f64_exp :: "f64_bits \<Rightarrow> int" where
  "f64_exp b = (let e = uint (f64_mag b) div 2 ^ 52 in if e = 0 then - 1074 else e - 1075)"

definition excess_bits :: "int \<Rightarrow> nat" where
  "excess_bits n = length (filter (\<lambda>k. 2 ^ (53 + k) \<le> n) [0..<11])"

definition round_half_even :: "int \<Rightarrow> nat \<Rightarrow> int" where
  "round_half_even n k =
     (let q = n div 2 ^ k; r = n mod 2 ^ k
      in if 2 ^ k < 2 * r \<or> 2 ^ k = 2 * r \<and> odd q then q + 1 else q)"

definition round_half_away :: "int \<Rightarrow> int \<Rightarrow> int" where
  "round_half_away q x =
     (if 0 \<le> x then q * 2 ^ nat x
      else (q + 2 ^ (nat (- x) - 1)) div 2 ^ nat (- x))"

definition to_milli :: "f64_bits \<Rightarrow> u64" where
  "to_milli b =
     (let n = f64_mant b * 1000; k = excess_bits n;
          r = round_half_away (round_half_even n k) (f64_exp b + int k)
      in if r < 2 ^ 64 then word_of_int r else - 1)"

definition pressure_kind_from_str :: "string \<Rightarrow> string \<Rightarrow> pressure_error + sl1_pressure_kind" where
  "pressure_kind_from_str i s =
     (case find (\<lambda>k. pressure_kind_str k = s)
         [KSourceMultiplier, KDemandGrowth, KQuotaReduction, KPathOutage, KSchemaDrift,
          KDashboardStorm, KSpotEvictionWave, KStorageMetadataStorm, KCoolingDegradation] of
        None \<Rightarrow> Inl (PressureUnknownType i s) | Some k \<Rightarrow> Inr k)"

definition require_pressure_field :: "string \<Rightarrow> string \<Rightarrow> string \<Rightarrow> 'a option \<Rightarrow> pressure_error + 'a" where
  "require_pressure_field i kind field v = required v (PressureMissingField i kind field)"

definition reject_pressure_field :: "string \<Rightarrow> string \<Rightarrow> string \<Rightarrow> bool \<Rightarrow> pressure_error + unit" where
  "reject_pressure_field i kind field present =
     require (\<not> present) (PressureUnexpectedField i kind field)"

text \<open>Fields another kind of pressure consumes are rejected in the order of the code.\<close>

definition reject_fields :: "raw_pressure \<Rightarrow> sl1_pressure_kind \<Rightarrow> (string \<times> bool) list
    \<Rightarrow> pressure_error + unit" where
  "reject_fields raw k fs =
     each (\<lambda>(field, present). reject_pressure_field (rpr_id raw) (pressure_kind_str k) field present) fs"

definition validate_source_multiplier :: "(string, sl1_place) btree_map \<Rightarrow> string set \<Rightarrow> raw_pressure
    \<Rightarrow> pressure_error + sl1_pressure_params" where
  "validate_source_multiplier places_by_id ids raw =
     (let i = rpr_id raw; k = ''source_multiplier'' in
      ebind (reject_fields raw KSourceMultiplier
        [(''spawn_multiplier'', rpr_spawn_multiplier raw \<noteq> None), (''capacity'', rpr_capacity raw \<noteq> None),
         (''reduction_percent'', rpr_reduction_percent raw \<noteq> None)]) (\<lambda>_.
      ebind (require_pressure_field i k ''thing'' (rpr_thing raw)) (\<lambda>thing.
      if thing \<notin> ids then Inl (PressureUnknownThing i thing)
      else
        (case bt_get places_by_id (rpr_target raw) of
           None \<Rightarrow> Inl (PressureUnknownTarget i ''place'' (rpr_target raw))
         | Some place \<Rightarrow>
             if \<not> bt_has (place_storage place) thing
               then Inl (PressureNoStorageSlot i (rpr_target raw) thing)
             else
               ebind (require_pressure_field i k ''multiplier'' (rpr_multiplier raw)) (\<lambda>m.
               if \<not> f64_is_finite m \<or> f64_le m f64_zero
                 then Inl (PressureMultiplierOutOfRange i m MAX_PRESSURE_MULTIPLIER_MILLI)
               else if to_milli m = 0 \<or> MAX_PRESSURE_MULTIPLIER_MILLI < to_milli m
                 then Inl (PressureMultiplierOutOfRange i m MAX_PRESSURE_MULTIPLIER_MILLI)
               else Inr (SourceMultiplier thing (to_milli m)))))))"

definition validate_demand_growth :: "string set \<Rightarrow> raw_pressure \<Rightarrow> pressure_error + sl1_pressure_params" where
  "validate_demand_growth demand_ids raw =
     (let i = rpr_id raw in
      ebind (reject_fields raw KDemandGrowth
        [(''thing'', rpr_thing raw \<noteq> None), (''multiplier'', rpr_multiplier raw \<noteq> None),
         (''capacity'', rpr_capacity raw \<noteq> None),
         (''reduction_percent'', rpr_reduction_percent raw \<noteq> None)]) (\<lambda>_.
      if rpr_target raw \<notin> demand_ids then Inl (PressureUnknownTarget i ''demand'' (rpr_target raw))
      else
        ebind (require_pressure_field i ''demand_growth'' ''spawn_multiplier'' (rpr_spawn_multiplier raw)) (\<lambda>spawn.
        if spawn = 0 \<or> MAX_PRESSURE_SPAWN_MULTIPLIER < spawn
          then Inl (PressureSpawnMultiplierOutOfRange i spawn MAX_PRESSURE_SPAWN_MULTIPLIER)
        else Inr (DemandGrowth spawn))))"

definition validate_quota_reduction :: "(string, sl1_place) btree_map \<Rightarrow> raw_pressure
    \<Rightarrow> pressure_error + sl1_pressure_params" where
  "validate_quota_reduction places_by_id raw =
     (let i = rpr_id raw; k = ''quota_reduction'' in
      ebind (reject_fields raw KQuotaReduction
        [(''thing'', rpr_thing raw \<noteq> None), (''multiplier'', rpr_multiplier raw \<noteq> None),
         (''spawn_multiplier'', rpr_spawn_multiplier raw \<noteq> None)]) (\<lambda>_.
      case bt_get places_by_id (rpr_target raw) of
        None \<Rightarrow> Inl (PressureUnknownTarget i ''place'' (rpr_target raw))
      | Some place \<Rightarrow>
          ebind (require_pressure_field i k ''capacity'' (rpr_capacity raw)) (\<lambda>cap.
          if \<not> bt_has (place_capacity place) cap
            then Inl (PressureUnknownCapacityBucket i (rpr_target raw) cap)
          else
            ebind (require_pressure_field i k ''reduction_percent'' (rpr_reduction_percent raw)) (\<lambda>red.
            if red = 0 \<or> MAX_PRESSURE_REDUCTION_PERCENT < red
              then Inl (PressureReductionPercentOutOfRange i red MAX_PRESSURE_REDUCTION_PERCENT)
            else Inr (QuotaReduction cap red)))))"

definition all_fields :: "raw_pressure \<Rightarrow> (string \<times> bool) list" where
  "all_fields raw =
     [(''thing'', rpr_thing raw \<noteq> None), (''multiplier'', rpr_multiplier raw \<noteq> None),
      (''spawn_multiplier'', rpr_spawn_multiplier raw \<noteq> None), (''capacity'', rpr_capacity raw \<noteq> None),
      (''reduction_percent'', rpr_reduction_percent raw \<noteq> None)]"

definition validate_path_outage :: "string set \<Rightarrow> raw_pressure \<Rightarrow> pressure_error + sl1_pressure_params" where
  "validate_path_outage link_ids raw =
     ebind (reject_fields raw KPathOutage (all_fields raw)) (\<lambda>_.
     if rpr_target raw \<notin> link_ids
       then Inl (PressureUnknownTarget (rpr_id raw) ''link'' (rpr_target raw))
     else Inr PathOutage)"

definition validate_unsupported :: "(string, sl1_place) btree_map \<Rightarrow> string set \<Rightarrow> sl1_pressure_kind
    \<Rightarrow> raw_pressure \<Rightarrow> pressure_error + sl1_pressure_params" where
  "validate_unsupported places_by_id ids kind raw =
     ebind (reject_fields raw kind (all_fields raw)) (\<lambda>_.
     let expected = (if kind = KSchemaDrift then ''thing'' else ''place'');
         resolved = (if kind = KSchemaDrift then rpr_target raw \<in> ids
                     else bt_has places_by_id (rpr_target raw))
     in if \<not> resolved then Inl (PressureUnknownTarget (rpr_id raw) expected (rpr_target raw))
        else Inr PressureUnsupported)"

definition check_pressure_window :: "raw_pressure \<Rightarrow> pressure_error + unit" where
  "check_pressure_window raw =
     (let i = rpr_id raw; a = rpr_at_tick raw; d = rpr_duration_ticks raw in
      if d = 0 then Inl (PressureDurationZero i)
      else if MAX_PRESSURE_TICKS < a then Inl (PressureAtTickOutOfRange i a MAX_PRESSURE_TICKS)
      else if MAX_PRESSURE_TICKS < d then Inl (PressureDurationOutOfRange i d MAX_PRESSURE_TICKS)
      else
        (case checked_add a d of
           None \<Rightarrow> Inl (PressureEndOverflow i a d MAX_PRESSURE_TICKS)
         | Some e \<Rightarrow>
             if MAX_PRESSURE_TICKS < e then Inl (PressureEndOverflow i a d MAX_PRESSURE_TICKS)
             else Inr ()))"

definition validate_pressure_params ::
    "(string, sl1_place) btree_map \<Rightarrow> string set \<Rightarrow> string set \<Rightarrow> string set \<Rightarrow> sl1_pressure_kind
      \<Rightarrow> raw_pressure \<Rightarrow> pressure_error + sl1_pressure_params" where
  "validate_pressure_params places_by_id ids demand_ids link_ids kind raw =
     (case kind of
        KSourceMultiplier \<Rightarrow> validate_source_multiplier places_by_id ids raw
      | KDemandGrowth \<Rightarrow> validate_demand_growth demand_ids raw
      | KQuotaReduction \<Rightarrow> validate_quota_reduction places_by_id raw
      | KPathOutage \<Rightarrow> validate_path_outage link_ids raw
      | _ \<Rightarrow> validate_unsupported places_by_id ids kind raw)"

definition validate_pressure :: "(string, sl1_place) btree_map \<Rightarrow> string set \<Rightarrow> string set \<Rightarrow> string set
    \<Rightarrow> raw_pressure \<Rightarrow> pressure_error + sl1_pressure" where
  "validate_pressure places_by_id ids demand_ids link_ids raw =
     (let i = rpr_id raw in
      if \<not> is_valid_sl1_id i then Inl (PressureInvalidId i)
      else
        ebind (check_pressure_window raw) (\<lambda>_.
        ebind (pressure_kind_from_str i (rpr_kind raw)) (\<lambda>kind.
        if blank (rpr_target raw)
          then Inl (PressureMissingField i (pressure_kind_str kind) ''target'')
        else
          ebind (validate_pressure_params places_by_id ids demand_ids link_ids kind raw) (\<lambda>params.
          Inr \<lparr>pressure_id = i, pressure_kind = kind, pressure_at_tick = rpr_at_tick raw,
               pressure_duration_ticks = rpr_duration_ticks raw, pressure_target = rpr_target raw,
               pressure_params = params\<rparr>))))"

section \<open>What acceptance means\<close>

lemma places_map_SomeD:
  "bt_get (places_map places) k = Some p \<Longrightarrow> p \<in> set places \<and> place_id p = k"
  unfolding places_map_def by (drule bt_get_collect_SomeD) auto

lemma validate_transform_io_ok:
  assumes "validate_transform_io i field ids raw = Inr ios"
  shows "ios_ok ios" "io_thing_id ` set ios \<subseteq> ids" "sorted_wrt (<) (map io_thing_id ios)"
proof -
  note l = assms [unfolded validate_transform_io_def]
  show s: "sorted_wrt (<) (map io_thing_id ios)" using l by (rule load_section_sorted)
  have "0 < io_amount io \<and> io_amount io \<le> MAX_TRANSFORM_AMOUNT \<and> io_thing_id io \<in> ids"
    if "io \<in> set ios" for io
    using load_section_item [OF l that]
    by (auto simp: known_io_thing_def check_io_amount_def load_simps word_neq_0_conv split: if_splits)
  with s show "ios_ok ios" "io_thing_id ` set ios \<subseteq> ids"
    by (auto simp: ios_ok_def strict_sorted_iff)
qed

lemma check_transform_ticks_Inr:
  "check_transform_ticks r = Inr u \<Longrightarrow>
     0 < rx_cadence_ticks r \<and> rx_cadence_ticks r \<le> MAX_TRANSFORM_TICKS
     \<and> 0 < rx_duration_ticks r \<and> rx_duration_ticks r \<le> rx_deadline_ticks r
     \<and> rx_deadline_ticks r \<le> MAX_TRANSFORM_TICKS"
  by (auto simp: check_transform_ticks_def Let_def word_neq_0_conv not_less split: if_splits)

lemma check_capacity_cost_Inr:
  "check_capacity_cost r place (k, v) = Inr u \<longleftrightarrow>
     \<not> blank k \<and> 0 < v \<and> v \<le> MAX_TRANSFORM_CAPACITY_COST \<and> bt_has (place_capacity place) k"
  by (auto simp: check_capacity_cost_def load_simps word_neq_0_conv split: if_splits)

lemma validate_transform_ok:
  assumes "validate_transform (places_map (sc_places sc)) ids r = Inr t"
    and "bt_wf (rx_capacity_cost r)"
  shows "transform_ok sc t" "transform_id t = rx_id r"
    "transform_runs_on t \<in> place_id ` set (sc_places sc)"
    "io_thing_id ` set (transform_inputs t) \<subseteq> ids" "io_thing_id ` set (transform_outputs t) \<subseteq> ids"
    "transform_outputs t \<noteq> [] "
proof -
  from assms(1) obtain place ins outs where
    p: "bt_get (places_map (sc_places sc)) (rx_runs_on r) = Some place"
    and ins: "validate_transform_io (rx_id r) ''inputs'' ids (rx_inputs r) = Inr ins"
    and outs: "validate_transform_io (rx_id r) ''outputs'' ids (rx_outputs r) = Inr outs"
    and ne: "rx_outputs r \<noteq> []"
    and tk: "check_transform_ticks r = Inr ()"
    and cc: "\<forall>e \<in> set (rx_capacity_cost r). check_capacity_cost r place e = Inr ()"
    and ma: "rx_max_attempts r \<noteq> 0" "rx_max_attempts r \<le> MAX_TRANSFORM_MAX_ATTEMPTS"
    and t: "transform_id t = rx_id r" "transform_runs_on t = rx_runs_on r"
      "transform_inputs t = ins" "transform_outputs t = outs"
      "transform_cadence_ticks t = rx_cadence_ticks r"
      "transform_duration_ticks t = rx_duration_ticks r"
      "transform_deadline_ticks t = rx_deadline_ticks r"
      "transform_capacity_cost t = rx_capacity_cost r"
      "transform_max_attempts t = rx_max_attempts r"
    unfolding validate_transform_def Let_def
    by (auto simp: load_simps not_less split: if_splits option.splits)
  note pl = places_map_SomeD [OF p]
  show "transform_id t = rx_id r" by (rule t)
  show "transform_runs_on t \<in> place_id ` set (sc_places sc)" using pl t(2) by (metis imageI)
  show "io_thing_id ` set (transform_inputs t) \<subseteq> ids" "io_thing_id ` set (transform_outputs t) \<subseteq> ids"
    using validate_transform_io_ok(2) [OF ins] validate_transform_io_ok(2) [OF outs] t by auto
  show "transform_outputs t \<noteq> []"
    using load_section_length [OF outs [unfolded validate_transform_io_def]] ne t by auto
  have "0 < v \<and> v \<le> MAX_TRANSFORM_CAPACITY_COST \<and> bt_has (place_capacity place) k"
    if "(k, v) \<in> set (rx_capacity_cost r)" for k v
    using bspec [OF cc that] by (simp add: check_capacity_cost_Inr)
  then show "transform_ok sc t"
    using validate_transform_io_ok(1) [OF ins] validate_transform_io_ok(1) [OF outs]
      check_transform_ticks_Inr [OF tk] ma assms(2) t pl
    by (auto simp: transform_ok_def word_neq_0_conv)
qed

lemma check_scripted_ticks_Inr:
  "check_scripted_ticks i prev ts = Inr u \<Longrightarrow>
     sorted_wrt (<) ts \<and> (\<forall>t \<in> set ts. 0 < t \<and> t \<le> MAX_DEMAND_TICKS \<and> (\<forall>p. prev = Some p \<longrightarrow> p < t))"
proof (induction i prev ts rule: check_scripted_ticks.induct)
  case (2 i prev tick ticks)
  then show ?case
    by (auto simp: word_neq_0_conv not_less not_le split: if_splits option.splits intro: less_trans)
qed simp

lemma validate_demand_schedule_ok:
  "validate_demand_schedule i r = Inr s \<Longrightarrow> schedule_ok s"
  by (auto simp: validate_demand_schedule_def validate_fixed_def validate_scripted_def load_simps
      word_neq_0_conv dest: check_scripted_ticks_Inr split: if_splits)

lemma validate_demand_requires_ok:
  assumes "validate_demand_requires i ids raw = Inr rs"
  shows "set rs \<subseteq> ids" "sorted_wrt (<) rs" "rs \<noteq> []"
proof -
  from assms have l: "load_section (\<lambda>v. if v \<notin> ids then Inl (DemandUnknownRequires i v) else Inr v)
        (\<lambda>v. v) (DemandDuplicateRequires i) no_check raw = Inr rs" and ne: "raw \<noteq> []"
    by (auto simp: validate_demand_requires_def split: if_splits)
  show "set rs \<subseteq> ids" using load_section_item [OF l] by (fastforce split: if_splits)
  show "sorted_wrt (<) rs" using load_section_sorted [OF l] by simp
  show "rs \<noteq> []" using load_section_length [OF l] ne by auto
qed

lemma validate_demand_target_ok:
  "validate_demand_target i ids raw = Inr tg \<Longrightarrow> target_place tg \<in> ids"
  by (auto simp: validate_demand_target_def split: if_splits)

lemma validate_demand_ok:
  assumes "validate_demand pids ids r = Inr d"
  shows "demand_ok d" "demand_id d = rd_id r" "target_place (demand_target d) \<in> pids"
    "set (demand_requires d) \<subseteq> ids"
  using assms
  by (auto simp: validate_demand_def Let_def load_simps demand_ok_def not_less split: if_splits
      dest: validate_demand_schedule_ok validate_demand_requires_ok(1) [THEN subsetD]
        validate_demand_target_ok)

lemma check_pressure_window_Inr:
  assumes "check_pressure_window r = Inr u"
  shows "0 < rpr_duration_ticks r" "rpr_duration_ticks r \<le> MAX_PRESSURE_TICKS"
    "rpr_at_tick r \<le> MAX_PRESSURE_TICKS"
    "unat (rpr_at_tick r) + unat (rpr_duration_ticks r) \<le> unat MAX_PRESSURE_TICKS"
proof -
  from assms obtain e where "0 < rpr_duration_ticks r" "rpr_duration_ticks r \<le> MAX_PRESSURE_TICKS"
    "rpr_at_tick r \<le> MAX_PRESSURE_TICKS" and
    e: "checked_add (rpr_at_tick r) (rpr_duration_ticks r) = Some e" "e \<le> MAX_PRESSURE_TICKS"
    by (auto simp: check_pressure_window_def Let_def load_simps word_neq_0_conv not_less)
  then show "0 < rpr_duration_ticks r" "rpr_duration_ticks r \<le> MAX_PRESSURE_TICKS"
    "rpr_at_tick r \<le> MAX_PRESSURE_TICKS" by auto
  show "unat (rpr_at_tick r) + unat (rpr_duration_ticks r) \<le> unat MAX_PRESSURE_TICKS"
    using checked_add_Some [OF e(1)] e(2) by (simp add: word_le_nat_alt)
qed

fun pressure_refs :: "sl1_place list \<Rightarrow> string set \<Rightarrow> string set \<Rightarrow> string set \<Rightarrow> string
    \<Rightarrow> sl1_pressure_params \<Rightarrow> bool" where
  "pressure_refs places ids demand_ids link_ids target (SourceMultiplier th m) \<longleftrightarrow> th \<in> ids
     \<and> (\<exists>p \<in> set places. place_id p = target \<and> bt_has (place_storage p) th)
     \<and> 0 < m \<and> m \<le> MAX_PRESSURE_MULTIPLIER_MILLI"
| "pressure_refs places ids demand_ids link_ids target (DemandGrowth n) \<longleftrightarrow>
     target \<in> demand_ids \<and> 0 < n \<and> n \<le> MAX_PRESSURE_SPAWN_MULTIPLIER"
| "pressure_refs places ids demand_ids link_ids target (QuotaReduction c r) \<longleftrightarrow>
     (\<exists>p \<in> set places. place_id p = target \<and> bt_has (place_capacity p) c)
     \<and> 0 < r \<and> r \<le> MAX_PRESSURE_REDUCTION_PERCENT"
| "pressure_refs places ids demand_ids link_ids target PathOutage \<longleftrightarrow> target \<in> link_ids"
| "pressure_refs places ids demand_ids link_ids target PressureUnsupported \<longleftrightarrow>
     target \<in> ids \<or> target \<in> place_id ` set places"

lemma bt_has_places_map:
  "bt_has (places_map places) k \<Longrightarrow> k \<in> place_id ` set places"
  by (auto simp: places_map_def bt_has_collect)

lemma validate_pressure_params_ok:
  assumes "validate_pressure_params (places_map places) ids demand_ids link_ids
      kind r = Inr params"
  shows "pressure_refs places ids demand_ids link_ids (rpr_target r) params"
  using assms
  by (auto simp: validate_pressure_params_def validate_source_multiplier_def
      validate_demand_growth_def validate_quota_reduction_def validate_path_outage_def
      validate_unsupported_def Let_def load_simps word_neq_0_conv not_less
      split: sl1_pressure_kind.splits if_splits option.splits
      dest!: places_map_SomeD bt_has_places_map)

lemma validate_pressure_ok:
  assumes "validate_pressure (places_map places) ids demand_ids link_ids r = Inr p"
  shows "pressure_ok p" "pressure_id p = rpr_id r"
    "pressure_refs places ids demand_ids link_ids (pressure_target p) (pressure_params p)"
    "unat (pressure_at_tick p) + unat (pressure_duration_ticks p) \<le> unat MAX_PRESSURE_TICKS"
  using assms
  by (auto simp: validate_pressure_def Let_def load_simps pressure_ok_def split: if_splits
      dest: check_pressure_window_Inr validate_pressure_params_ok)

end
