(* ===== verification/Load_Goals.thy ===== *)
theory Load_Goals
  imports Load_Flow
begin

text \<open>
  Validation of what decides a game: objectives, failure conditions and victory
  conditions (\<open>validate_objective\<close>, \<open>validate_failure_condition\<close>,
  \<open>validate_victory_condition\<close> and their helpers). Each kind has fields it requires and
  fields it rejects, checked in the order of the code.
\<close>

definition MAX_OBJECTIVE_TICKS :: u64 where "MAX_OBJECTIVE_TICKS = 1000000"
definition MAX_OBJECTIVE_WEIGHT :: u32 where "MAX_OBJECTIVE_WEIGHT = 10000"
definition MAX_OBJECTIVE_BREACH_COUNT :: u64 where "MAX_OBJECTIVE_BREACH_COUNT = 1000000"

text \<open>\<open>places.iter().find(|p| p.id == id)\<close>.\<close>

definition place_named :: "sl1_place list \<Rightarrow> string \<Rightarrow> sl1_place option" where
  "place_named places i = find (\<lambda>p. place_id p = i) places"

section \<open>Objectives\<close>

definition require_objective_field :: "string \<Rightarrow> string \<Rightarrow> string \<Rightarrow> 'a option \<Rightarrow> objective_error + 'a" where
  "require_objective_field i kind field v = required v (ObjectiveMissingField i kind field)"

definition reject_objective_field :: "string \<Rightarrow> string \<Rightarrow> string \<Rightarrow> bool \<Rightarrow> objective_error + unit" where
  "reject_objective_field i kind field present =
     require (\<not> present) (ObjectiveUnexpectedField i kind field)"

definition objective_kind_from_str :: "string \<Rightarrow> string \<Rightarrow> objective_error + sl1_objective_kind" where
  "objective_kind_from_str i s =
     (case find (\<lambda>k. objective_kind_str k = s)
         [OKeepFresh, OCompleteJobs, OMaintainUtilization, OCostBudget, ODataQuality, OQueryLatency] of
        None \<Rightarrow> Inl (ObjectiveUnknownType i s) | Some k \<Rightarrow> Inr k)"

definition check_ticks_in_range :: "string \<Rightarrow> string \<Rightarrow> u64 \<Rightarrow> u64 \<Rightarrow> objective_error + unit" where
  "check_ticks_in_range i field v lo =
     require (lo \<le> v \<and> v \<le> MAX_OBJECTIVE_TICKS) (ObjectiveValueOutOfRange i field v MAX_OBJECTIVE_TICKS)"

definition reject_objective_fields :: "string \<Rightarrow> sl1_objective_kind \<Rightarrow> (string \<times> bool) list
    \<Rightarrow> objective_error + unit" where
  "reject_objective_fields i kind fs =
     each (\<lambda>(field, present). reject_objective_field i (objective_kind_str kind) field present) fs"

definition validate_keep_fresh :: "sl1_place list \<Rightarrow> string set \<Rightarrow> raw_objective
    \<Rightarrow> objective_error + sl1_objective_params" where
  "validate_keep_fresh places ids raw =
     (let i = ro_id raw; k = ''keep_fresh'' in
      ebind (require_objective_field i k ''place'' (ro_place raw)) (\<lambda>place.
      ebind (require_objective_field i k ''thing'' (ro_thing raw)) (\<lambda>thing.
      ebind (require_objective_field i k ''max_stale_ticks'' (ro_max_stale_ticks raw)) (\<lambda>stale.
      ebind (reject_objective_fields i OKeepFresh
        [(''demand'', ro_demand raw \<noteq> None), (''max_missed'', ro_max_missed raw \<noteq> None),
         (''capacity'', ro_capacity raw \<noteq> None), (''min_percent'', ro_min_percent raw \<noteq> None),
         (''max_percent'', ro_max_percent raw \<noteq> None), (''max_cost'', ro_max_cost raw \<noteq> None),
         (''max_contract_violations'', ro_max_contract_violations raw \<noteq> None),
         (''p95_max_ticks'', ro_p95_max_ticks raw \<noteq> None), (''target'', ro_target raw \<noteq> None)]) (\<lambda>_.
      ebind (check_ticks_in_range i ''max_stale_ticks'' stale 1) (\<lambda>_.
      case place_named places place of
        None \<Rightarrow> Inl (ObjectiveUnknownTarget i ''place'' place)
      | Some p \<Rightarrow>
          if thing \<notin> ids then Inl (ObjectiveUnknownTarget i ''thing'' thing)
          else if \<not> bt_has (place_storage p) thing then Inl (ObjectiveNoStorageSlot i place thing)
          else Inr (KeepFresh place thing stale)))))))"

definition validate_complete_jobs :: "string set \<Rightarrow> raw_objective
    \<Rightarrow> objective_error + sl1_objective_params" where
  "validate_complete_jobs demand_ids raw =
     (let i = ro_id raw; k = ''complete_jobs_before_deadline'' in
      ebind (require_objective_field i k ''demand'' (ro_demand raw)) (\<lambda>dem.
      ebind (require_objective_field i k ''max_missed'' (ro_max_missed raw)) (\<lambda>missed.
      ebind (reject_objective_fields i OCompleteJobs
        [(''place'', ro_place raw \<noteq> None), (''thing'', ro_thing raw \<noteq> None),
         (''max_stale_ticks'', ro_max_stale_ticks raw \<noteq> None), (''capacity'', ro_capacity raw \<noteq> None),
         (''min_percent'', ro_min_percent raw \<noteq> None), (''max_percent'', ro_max_percent raw \<noteq> None),
         (''max_cost'', ro_max_cost raw \<noteq> None),
         (''max_contract_violations'', ro_max_contract_violations raw \<noteq> None),
         (''p95_max_ticks'', ro_p95_max_ticks raw \<noteq> None), (''target'', ro_target raw \<noteq> None)]) (\<lambda>_.
      ebind (check_ticks_in_range i ''max_missed'' missed 1) (\<lambda>_.
      if dem \<notin> demand_ids then Inl (ObjectiveUnknownTarget i ''demand'' dem)
      else Inr (CompleteJobsBeforeDeadline dem missed))))))"

definition validate_maintain_utilization :: "sl1_place list \<Rightarrow> raw_objective
    \<Rightarrow> objective_error + sl1_objective_params" where
  "validate_maintain_utilization places raw =
     (let i = ro_id raw; k = ''maintain_utilization'' in
      ebind (require_objective_field i k ''place'' (ro_place raw)) (\<lambda>place.
      ebind (require_objective_field i k ''capacity'' (ro_capacity raw)) (\<lambda>cap.
      ebind (require_objective_field i k ''min_percent'' (ro_min_percent raw)) (\<lambda>lo.
      ebind (require_objective_field i k ''max_percent'' (ro_max_percent raw)) (\<lambda>hi.
      ebind (reject_objective_fields i OMaintainUtilization
        [(''thing'', ro_thing raw \<noteq> None), (''max_stale_ticks'', ro_max_stale_ticks raw \<noteq> None),
         (''demand'', ro_demand raw \<noteq> None), (''max_missed'', ro_max_missed raw \<noteq> None),
         (''max_cost'', ro_max_cost raw \<noteq> None),
         (''max_contract_violations'', ro_max_contract_violations raw \<noteq> None),
         (''p95_max_ticks'', ro_p95_max_ticks raw \<noteq> None), (''target'', ro_target raw \<noteq> None)]) (\<lambda>_.
      if 100 < lo \<or> 100 < hi \<or> hi < lo then Inl (ObjectiveInvalidPercentRange i lo hi)
      else
        (case place_named places place of
           None \<Rightarrow> Inl (ObjectiveUnknownTarget i ''place'' place)
         | Some p \<Rightarrow>
             if \<not> bt_has (place_capacity p) cap
               then Inl (ObjectiveUnknownCapacityBucket i place cap)
             else Inr (MaintainUtilization place cap lo hi))))))))"

text \<open>The kinds without a runtime effect are permissive, but what is given must make sense.\<close>

definition check_optional_ticks :: "string \<Rightarrow> string \<Rightarrow> u64 option \<Rightarrow> objective_error + unit" where
  "check_optional_ticks i field m =
     (case m of None \<Rightarrow> Inr ()
      | Some v \<Rightarrow> if v = 0 \<or> MAX_OBJECTIVE_TICKS < v
          then Inl (ObjectiveValueOutOfRange i field v MAX_OBJECTIVE_TICKS) else Inr ())"

definition validate_other_objective :: "string set \<Rightarrow> raw_objective
    \<Rightarrow> objective_error + sl1_objective_params" where
  "validate_other_objective known raw =
     (let i = ro_id raw in
      ebind (check_optional_ticks i ''max_cost'' (ro_max_cost raw)) (\<lambda>_.
      ebind (check_optional_ticks i ''max_contract_violations'' (ro_max_contract_violations raw)) (\<lambda>_.
      ebind (check_optional_ticks i ''p95_max_ticks'' (ro_p95_max_ticks raw)) (\<lambda>_.
      case ro_target raw of
        Some target \<Rightarrow>
          if target \<notin> known
            then Inl (ObjectiveUnknownTarget i ''place|thing|transform|demand'' target)
          else Inr ObjectiveUnsupported
      | None \<Rightarrow> Inr ObjectiveUnsupported))))"

definition validate_objective :: "sl1_place list \<Rightarrow> string set \<Rightarrow> string set \<Rightarrow> string set \<Rightarrow> string set
    \<Rightarrow> raw_objective \<Rightarrow> objective_error + sl1_objective" where
  "validate_objective places place_ids ids transform_ids demand_ids raw =
     (let i = ro_id raw; weight = (case ro_weight raw of None \<Rightarrow> 1 | Some w \<Rightarrow> w) in
      if \<not> is_valid_sl1_id i then Inl (ObjectiveInvalidId i)
      else
        ebind (objective_kind_from_str i (ro_kind raw)) (\<lambda>kind.
        if weight = 0 \<or> MAX_OBJECTIVE_WEIGHT < weight
          then Inl (ObjectiveWeightOutOfRange i weight MAX_OBJECTIVE_WEIGHT)
        else
          ebind (case kind of
              OKeepFresh \<Rightarrow> validate_keep_fresh places ids raw
            | OCompleteJobs \<Rightarrow> validate_complete_jobs demand_ids raw
            | OMaintainUtilization \<Rightarrow> validate_maintain_utilization places raw
            | _ \<Rightarrow> validate_other_objective (place_ids \<union> ids \<union> transform_ids \<union> demand_ids) raw) (\<lambda>params.
          Inr \<lparr>objective_id = i, objective_kind = kind, objective_weight = weight,
               objective_params = params\<rparr>)))"

section \<open>Failure conditions\<close>

definition require_fc_field :: "string \<Rightarrow> string \<Rightarrow> string \<Rightarrow> 'a option \<Rightarrow> failure_condition_error + 'a" where
  "require_fc_field i kind field v = required v (FailureConditionMissingField i kind field)"

definition reject_fc_field :: "string \<Rightarrow> string \<Rightarrow> string \<times> bool \<Rightarrow> failure_condition_error + unit" where
  "reject_fc_field i kind f =
     (case f of (field, present) \<Rightarrow>
        require (\<not> present) (FailureConditionUnexpectedField i kind field))"

definition fc_kind_from_str :: "string \<Rightarrow> string \<Rightarrow> failure_condition_error + sl1_failure_condition_kind" where
  "fc_kind_from_str i s =
     (if s = ''stale_target'' then Inr FStaleTarget
      else if s = ''place_state'' then Inr FPlaceState
      else if s = ''objective_breach_count'' then Inr FObjectiveBreachCount
      else Inl (FailureConditionUnknownType i s))"

definition validate_stale_target :: "sl1_place list \<Rightarrow> string set \<Rightarrow> raw_failure_condition
    \<Rightarrow> failure_condition_error + sl1_failure_condition_params" where
  "validate_stale_target places ids raw =
     (let i = rfc_id raw; k = ''stale_target'';
          grace = (case rfc_grace_ticks raw of None \<Rightarrow> 0 | Some g \<Rightarrow> g) in
      ebind (require_fc_field i k ''place'' (rfc_place raw)) (\<lambda>place.
      ebind (require_fc_field i k ''thing'' (rfc_thing raw)) (\<lambda>thing.
      ebind (require_fc_field i k ''threshold_ticks'' (rfc_threshold_ticks raw)) (\<lambda>threshold.
      ebind (each (reject_fc_field i k)
        [(''state'', rfc_state raw \<noteq> None), (''objective_id'', rfc_objective_id raw \<noteq> None),
         (''max_count'', rfc_max_count raw \<noteq> None)]) (\<lambda>_.
      if threshold = 0 \<or> MAX_OBJECTIVE_TICKS < threshold
        then Inl (FailureConditionThresholdOutOfRange i threshold MAX_OBJECTIVE_TICKS)
      else if MAX_OBJECTIVE_TICKS < grace
        then Inl (FailureConditionGraceOutOfRange i grace MAX_OBJECTIVE_TICKS)
      else
        (case place_named places place of
           None \<Rightarrow> Inl (FailureConditionUnknownTarget i ''place'' place)
         | Some p \<Rightarrow>
             if thing \<notin> ids then Inl (FailureConditionUnknownTarget i ''thing'' thing)
             else if \<not> bt_has (place_storage p) thing
               then Inl (FailureConditionNoStorageSlot i place thing)
             else Inr (StaleTarget place thing threshold grace)))))))"

definition validate_place_state :: "sl1_place list \<Rightarrow> raw_failure_condition
    \<Rightarrow> failure_condition_error + sl1_failure_condition_params" where
  "validate_place_state places raw =
     (let i = rfc_id raw; k = ''place_state'';
          grace = (case rfc_grace_ticks raw of None \<Rightarrow> 0 | Some g \<Rightarrow> g) in
      ebind (require_fc_field i k ''place'' (rfc_place raw)) (\<lambda>place.
      ebind (require_fc_field i k ''state'' (rfc_state raw)) (\<lambda>st.
      ebind (each (reject_fc_field i k)
        [(''thing'', rfc_thing raw \<noteq> None), (''threshold_ticks'', rfc_threshold_ticks raw \<noteq> None),
         (''objective_id'', rfc_objective_id raw \<noteq> None), (''max_count'', rfc_max_count raw \<noteq> None)]) (\<lambda>_.
      if MAX_OBJECTIVE_TICKS < grace
        then Inl (FailureConditionGraceOutOfRange i grace MAX_OBJECTIVE_TICKS)
      else
        (case place_named places place of
           None \<Rightarrow> Inl (FailureConditionUnknownTarget i ''place'' place)
         | Some p \<Rightarrow>
             (case bt_get (place_operating_states p) st of
                None \<Rightarrow> Inl (FailureConditionUnknownPlaceState i place st)
              | Some os \<Rightarrow>
                  (case os_predicate os of
                     UsedPercentGte _ _ \<Rightarrow> Inr (PlaceState place st grace)
                   | OverloadedTicksGt _ \<Rightarrow>
                       Inl (FailureConditionPlaceStatePredicateUnsupported i place st
                         ''overloaded_ticks_gt''))))))))"

definition validate_breach_count :: "string set \<Rightarrow> raw_failure_condition
    \<Rightarrow> failure_condition_error + sl1_failure_condition_params" where
  "validate_breach_count objective_ids raw =
     (let i = rfc_id raw; k = ''objective_breach_count'' in
      ebind (require_fc_field i k ''objective_id'' (rfc_objective_id raw)) (\<lambda>oid.
      ebind (require_fc_field i k ''max_count'' (rfc_max_count raw)) (\<lambda>count.
      ebind (each (reject_fc_field i k)
        [(''place'', rfc_place raw \<noteq> None), (''thing'', rfc_thing raw \<noteq> None),
         (''threshold_ticks'', rfc_threshold_ticks raw \<noteq> None),
         (''grace_ticks'', rfc_grace_ticks raw \<noteq> None), (''state'', rfc_state raw \<noteq> None)]) (\<lambda>_.
      if count = 0 \<or> MAX_OBJECTIVE_BREACH_COUNT < count
        then Inl (FailureConditionMaxCountOutOfRange i count MAX_OBJECTIVE_BREACH_COUNT)
      else if oid \<notin> objective_ids then Inl (FailureConditionUnknownObjective i oid)
      else Inr (ObjectiveBreachCount oid count)))))"

definition validate_failure_condition :: "sl1_place list \<Rightarrow> string set \<Rightarrow> string set
    \<Rightarrow> raw_failure_condition \<Rightarrow> failure_condition_error + sl1_failure_condition" where
  "validate_failure_condition places ids objective_ids raw =
     (let i = rfc_id raw in
      if \<not> is_valid_sl1_id i then Inl (FailureConditionInvalidId i)
      else
        ebind (fc_kind_from_str i (rfc_kind raw)) (\<lambda>kind.
        ebind (case kind of
            FStaleTarget \<Rightarrow> validate_stale_target places ids raw
          | FPlaceState \<Rightarrow> validate_place_state places raw
          | FObjectiveBreachCount \<Rightarrow> validate_breach_count objective_ids raw) (\<lambda>params.
        Inr \<lparr>fc_id = i, fc_kind = kind, fc_params = params\<rparr>)))"

section \<open>Victory conditions\<close>

definition require_vc_field :: "string \<Rightarrow> string \<Rightarrow> string \<Rightarrow> 'a option \<Rightarrow> victory_condition_error + 'a" where
  "require_vc_field i kind field v = required v (VictoryConditionMissingField i kind field)"

definition vc_kind_from_str :: "string \<Rightarrow> string \<Rightarrow> victory_condition_error + sl1_victory_condition_kind" where
  "vc_kind_from_str i s =
     (if s = ''survive_until'' then Inr VSurviveUntil else Inl (VictoryConditionUnknownType i s))"

definition validate_victory_condition ::
    "raw_victory_condition \<Rightarrow> victory_condition_error + sl1_victory_condition" where
  "validate_victory_condition raw =
     (let i = rvc_id raw in
      if \<not> is_valid_sl1_id i then Inl (VictoryConditionInvalidId i)
      else
        ebind (vc_kind_from_str i (rvc_kind raw)) (\<lambda>kind.
        ebind (require_vc_field i ''survive_until'' ''at_tick'' (rvc_at_tick raw)) (\<lambda>at.
        if at = 0 \<or> MAX_OBJECTIVE_TICKS < at
          then Inl (VictoryConditionAtTickOutOfRange i at MAX_OBJECTIVE_TICKS)
        else Inr \<lparr>vc_id = i, vc_kind = kind, vc_params = SurviveUntil at\<rparr>)))"

section \<open>What acceptance means\<close>

lemma place_named_SomeD: "place_named places i = Some p \<Longrightarrow> p \<in> set places \<and> place_id p = i"
  unfolding place_named_def by (rule find_SomeD)

fun objective_refs :: "sl1_place list \<Rightarrow> string set \<Rightarrow> sl1_objective_params \<Rightarrow> bool" where
  "objective_refs places demand_ids (KeepFresh p t n) \<longleftrightarrow>
     (\<exists>q \<in> set places. place_id q = p \<and> bt_has (place_storage q) t) \<and> 0 < n \<and> n \<le> MAX_OBJECTIVE_TICKS"
| "objective_refs places demand_ids (CompleteJobsBeforeDeadline d n) \<longleftrightarrow>
     d \<in> demand_ids \<and> 0 < n \<and> n \<le> MAX_OBJECTIVE_TICKS"
| "objective_refs places demand_ids (MaintainUtilization p c lo hi) \<longleftrightarrow>
     (\<exists>q \<in> set places. place_id q = p \<and> bt_has (place_capacity q) c) \<and> lo \<le> hi \<and> hi \<le> 100"
| "objective_refs places demand_ids ObjectiveUnsupported \<longleftrightarrow> True"

lemma validate_keep_fresh_ok:
  "validate_keep_fresh places ids r = Inr ps \<Longrightarrow> objective_refs places dids ps"
  by (auto simp: validate_keep_fresh_def require_objective_field_def check_ticks_in_range_def Let_def word_one_le
      load_simps not_less split: if_splits option.splits dest!: place_named_SomeD)

lemma validate_complete_jobs_ok:
  "validate_complete_jobs dids r = Inr ps \<Longrightarrow> objective_refs places dids ps"
  by (auto simp: validate_complete_jobs_def require_objective_field_def check_ticks_in_range_def Let_def word_one_le
      load_simps not_less split: if_splits option.splits)

lemma validate_maintain_utilization_ok:
  "validate_maintain_utilization places r = Inr ps \<Longrightarrow> objective_refs places dids ps"
  by (auto simp: validate_maintain_utilization_def require_objective_field_def Let_def
      load_simps not_less split: if_splits option.splits dest!: place_named_SomeD)

lemma validate_other_objective_ok:
  "validate_other_objective known r = Inr ps \<Longrightarrow> objective_refs places dids ps"
  by (auto simp: validate_other_objective_def Let_def load_simps split: if_splits option.splits)

lemma validate_objective_ok:
  assumes "validate_objective places pids ids tids dids r = Inr ob"
  shows "objective_id ob = ro_id r" "objective_refs places dids (objective_params ob)"
proof -
  from assms obtain kind ps where "(case kind of
              OKeepFresh \<Rightarrow> validate_keep_fresh places ids r
            | OCompleteJobs \<Rightarrow> validate_complete_jobs dids r
            | OMaintainUtilization \<Rightarrow> validate_maintain_utilization places r
            | _ \<Rightarrow> validate_other_objective (pids \<union> ids \<union> tids \<union> dids) r) = Inr ps"
    and "objective_params ob = ps" and "objective_id ob = ro_id r"
    by (auto simp: validate_objective_def Let_def load_simps)
  then show "objective_id ob = ro_id r" "objective_refs places dids (objective_params ob)"
    by (cases kind; auto dest: validate_keep_fresh_ok validate_complete_jobs_ok
        validate_maintain_utilization_ok validate_other_objective_ok)+
qed

fun fc_refs :: "sl1_place list \<Rightarrow> string set \<Rightarrow> sl1_failure_condition_params \<Rightarrow> bool" where
  "fc_refs places objective_ids (StaleTarget p t n g) \<longleftrightarrow>
     (\<exists>q \<in> set places. place_id q = p \<and> bt_has (place_storage q) t)
     \<and> 0 < n \<and> n \<le> MAX_OBJECTIVE_TICKS \<and> g \<le> MAX_OBJECTIVE_TICKS"
| "fc_refs places objective_ids (PlaceState p s g) \<longleftrightarrow>
     (\<exists>q \<in> set places. \<exists>os m n. place_id q = p \<and> bt_get (place_operating_states q) s = Some os
        \<and> os_predicate os = UsedPercentGte m n) \<and> g \<le> MAX_OBJECTIVE_TICKS"
| "fc_refs places objective_ids (ObjectiveBreachCount oid n) \<longleftrightarrow>
     oid \<in> objective_ids \<and> 0 < n \<and> n \<le> MAX_OBJECTIVE_BREACH_COUNT"

lemma validate_stale_target_ok:
  "validate_stale_target places ids r = Inr ps \<Longrightarrow> fc_refs places oids ps"
  by (auto simp: validate_stale_target_def require_fc_field_def Let_def
      load_simps not_less word_neq_0_conv split: if_splits option.splits dest!: place_named_SomeD)

lemma case_predicate_Inr:
  "(case q of UsedPercentGte m n \<Rightarrow> Inr y | OverloadedTicksGt t \<Rightarrow> Inl e) = Inr z \<longleftrightarrow>
     (\<exists>m n. q = UsedPercentGte m n) \<and> y = z"
  by (cases q) auto

lemma validate_place_state_ok:
  "validate_place_state places r = Inr ps \<Longrightarrow> fc_refs places oids ps"
  unfolding validate_place_state_def require_fc_field_def Let_def load_simps case_predicate_Inr
  by (fastforce simp: not_less dest!: place_named_SomeD split: option.splits)

lemma validate_breach_count_ok:
  "validate_breach_count oids r = Inr ps \<Longrightarrow> fc_refs places oids ps"
  by (auto simp: validate_breach_count_def require_fc_field_def Let_def
      load_simps not_less word_neq_0_conv split: if_splits option.splits)

lemma validate_failure_condition_ok:
  assumes "validate_failure_condition places ids oids r = Inr fc"
  shows "fc_id fc = rfc_id r" "fc_refs places oids (fc_params fc)"
proof -
  from assms obtain kind ps where "(case kind of
            FStaleTarget \<Rightarrow> validate_stale_target places ids r
          | FPlaceState \<Rightarrow> validate_place_state places r
          | FObjectiveBreachCount \<Rightarrow> validate_breach_count oids r) = Inr ps"
    and "fc_params fc = ps" and "fc_id fc = rfc_id r"
    by (auto simp: validate_failure_condition_def Let_def load_simps)
  then show "fc_id fc = rfc_id r" "fc_refs places oids (fc_params fc)"
    by (cases kind; auto dest: validate_stale_target_ok validate_place_state_ok
        validate_breach_count_ok)+
qed

lemma validate_victory_condition_ok:
  "validate_victory_condition r = Inr vc \<Longrightarrow>
     vc_id vc = rvc_id r \<and> 0 < su_at_tick (vc_params vc) \<and> su_at_tick (vc_params vc) \<le> MAX_OBJECTIVE_TICKS"
  by (auto simp: validate_victory_condition_def Let_def load_simps not_less word_neq_0_conv split: if_splits)

end
