(* ===== verification/Load_Views.thy ===== *)
theory Load_Views
  imports Load_Goals
begin

text \<open>
  Validation of what watches a scene and acts on it: observability (dashboards, metrics,
  alerts), agents and milestones (\<open>validate_observability\<close>, \<open>validate_agent\<close>,
  \<open>validate_milestone\<close> and their helpers).
\<close>

definition MAX_OBSERVABILITY_ITEMS :: nat where "MAX_OBSERVABILITY_ITEMS = 1000"
definition SL1_AGENT_MAX_INTERVAL_TICKS :: u64 where "SL1_AGENT_MAX_INTERVAL_TICKS = 1000000"
definition SL1_AGENT_MAX_LIST_LEN :: nat where "SL1_AGENT_MAX_LIST_LEN = 256"
definition SL1_AGENT_MAX_OBJECTIVE_WEIGHTS :: nat where "SL1_AGENT_MAX_OBJECTIVE_WEIGHTS = 256"

section \<open>Dashboards, metrics, alerts\<close>

definition parse_dashboard_kind :: "string \<Rightarrow> string \<Rightarrow> observability_error + sl1_dashboard_kind" where
  "parse_dashboard_kind i s =
     (if s = ''report'' then Inr DReport else if s = ''live'' then Inr DLive
      else if s = ''ad_hoc'' then Inr DAdHoc else Inl (DashboardUnsupportedKind i s))"

fun depends_loop :: "string \<Rightarrow> string set \<Rightarrow> string set \<Rightarrow> string list
    \<Rightarrow> observability_error + string list" where
  "depends_loop i ids seen [] = Inr []"
| "depends_loop i ids seen (entry # entries) =
     (if blank entry \<or> entry \<in> seen then Inl (DashboardInvalidDependsOn i entry)
      else if entry \<notin> ids then Inl (DashboardUnknownThing i entry)
      else ebind (depends_loop i ids (insert entry seen) entries) (\<lambda>rest. Inr (entry # rest)))"

definition validate_dashboard :: "string set \<Rightarrow> raw_dashboard \<Rightarrow> observability_error + sl1_dashboard" where
  "validate_dashboard ids raw =
     (let i = rdb_id raw in
      if \<not> is_valid_sl1_id i then Inl (DashboardInvalidId i)
      else
        ebind (parse_dashboard_kind i (rdb_kind raw)) (\<lambda>kind.
        if rdb_freshness_slo_ticks raw = 0 then Inl (DashboardFreshnessSloZero i)
        else
          ebind (depends_loop i ids {} (rdb_depends_on raw)) (\<lambda>deps.
          Inr \<lparr>dashboard_id = i, dashboard_kind = kind, dashboard_depends_on = sort deps,
               dashboard_freshness_slo_ticks = rdb_freshness_slo_ticks raw\<rparr>)))"

definition take_field :: "string \<Rightarrow> string \<Rightarrow> string \<Rightarrow> string option \<Rightarrow> observability_error + string" where
  "take_field i source field m = required m (MetricMissingField i source field)"

definition forbid_field :: "string \<Rightarrow> string \<Rightarrow> string \<Rightarrow> string option \<Rightarrow> observability_error + unit" where
  "forbid_field i source field m = require (m = None) (MetricExtraField i source field)"

definition metric_capacity_source :: "sl1_place list \<Rightarrow> raw_metric \<Rightarrow> observability_error + sl1_metric_source" where
  "metric_capacity_source places raw =
     (let i = rm_id raw; k = ''place_capacity_used_percent'' in
      ebind (forbid_field i k ''thing'' (rm_thing raw)) (\<lambda>_.
      ebind (forbid_field i k ''dashboard'' (rm_dashboard raw)) (\<lambda>_.
      ebind (take_field i k ''place'' (rm_place raw)) (\<lambda>place.
      ebind (take_field i k ''capacity'' (rm_capacity raw)) (\<lambda>cap.
      case place_named places place of
        None \<Rightarrow> Inl (MetricUnknownPlace i place)
      | Some p \<Rightarrow>
          if \<not> bt_has (place_capacity p) cap then Inl (MetricUnknownCapacityBucket i place cap)
          else Inr (PlaceCapacityUsedPercent place cap))))))"

definition metric_inventory_source :: "sl1_place list \<Rightarrow> string set \<Rightarrow> raw_metric
    \<Rightarrow> observability_error + sl1_metric_source" where
  "metric_inventory_source places ids raw =
     (let i = rm_id raw; k = ''place_inventory_count'' in
      ebind (forbid_field i k ''capacity'' (rm_capacity raw)) (\<lambda>_.
      ebind (forbid_field i k ''dashboard'' (rm_dashboard raw)) (\<lambda>_.
      ebind (take_field i k ''place'' (rm_place raw)) (\<lambda>place.
      ebind (take_field i k ''thing'' (rm_thing raw)) (\<lambda>thing.
      case place_named places place of
        None \<Rightarrow> Inl (MetricUnknownPlace i place)
      | Some p \<Rightarrow>
          if thing \<notin> ids then Inl (MetricUnknownThing i thing)
          else if \<not> bt_has (place_storage p) thing then Inl (MetricNoStorageSlot i place thing)
          else Inr (PlaceInventoryCount place thing))))))"

definition metric_dashboard_source :: "string set \<Rightarrow> raw_metric \<Rightarrow> observability_error + sl1_metric_source" where
  "metric_dashboard_source dashboard_ids raw =
     (let i = rm_id raw; k = ''dashboard_freshness'' in
      ebind (forbid_field i k ''place'' (rm_place raw)) (\<lambda>_.
      ebind (forbid_field i k ''thing'' (rm_thing raw)) (\<lambda>_.
      ebind (forbid_field i k ''capacity'' (rm_capacity raw)) (\<lambda>_.
      ebind (take_field i k ''dashboard'' (rm_dashboard raw)) (\<lambda>d.
      if d \<notin> dashboard_ids then Inl (MetricUnknownDashboard i d)
      else Inr (DashboardFreshness d))))))"

definition validate_metric :: "sl1_place list \<Rightarrow> string set \<Rightarrow> string set \<Rightarrow> raw_metric
    \<Rightarrow> observability_error + sl1_metric" where
  "validate_metric places ids dashboard_ids raw =
     (let i = rm_id raw in
      if \<not> is_valid_sl1_id i then Inl (MetricInvalidId i)
      else
        ebind (if rm_source raw = ''place_capacity_used_percent'' then metric_capacity_source places raw
          else if rm_source raw = ''place_inventory_count'' then metric_inventory_source places ids raw
          else if rm_source raw = ''dashboard_freshness'' then metric_dashboard_source dashboard_ids raw
          else Inl (MetricUnsupportedSource i (rm_source raw))) (\<lambda>source.
        Inr \<lparr>metric_id = i, metric_source = source\<rparr>))"

fun validate_alert_predicate :: "string \<Rightarrow> raw_alert_predicate \<Rightarrow> observability_error + sl1_alert_predicate" where
  "validate_alert_predicate i (RawGt t) = Inr (AlertGt t)"
| "validate_alert_predicate i (RawLt t) = Inr (AlertLt t)"
| "validate_alert_predicate i (RawOutOfRange lo hi) =
     (if hi < lo then Inl (AlertOutOfRangeInverted i lo hi) else Inr (OutOfRange lo hi))"

definition parse_severity :: "string \<Rightarrow> string \<Rightarrow> observability_error + sl1_alert_severity" where
  "parse_severity i s =
     (if s = ''info'' then Inr SevInfo else if s = ''warning'' then Inr SevWarning
      else if s = ''critical'' then Inr SevCritical else Inl (AlertUnsupportedSeverity i s))"

definition validate_alert :: "string set \<Rightarrow> raw_alert \<Rightarrow> observability_error + sl1_alert" where
  "validate_alert metric_ids raw =
     (let i = ral_id raw in
      if \<not> is_valid_sl1_id i then Inl (AlertInvalidId i)
      else if ral_metric raw \<notin> metric_ids then Inl (AlertUnknownMetric i (ral_metric raw))
      else
        ebind (validate_alert_predicate i (ral_predicate raw)) (\<lambda>predicate.
        ebind (parse_severity i (ral_severity raw)) (\<lambda>severity.
        Inr \<lparr>alert_id = i, alert_metric = ral_metric raw, alert_predicate = predicate,
             alert_severity = severity\<rparr>)))"

definition check_list_cap :: "string \<Rightarrow> 'a list \<Rightarrow> observability_error + unit" where
  "check_list_cap section_name xs =
     require (length xs \<le> MAX_OBSERVABILITY_ITEMS)
       (ObservabilityTooManyItems section_name (length xs) MAX_OBSERVABILITY_ITEMS)"

definition validate_observability :: "sl1_place list \<Rightarrow> sl1_thing list \<Rightarrow> raw_observability
    \<Rightarrow> observability_error + sl1_observability" where
  "validate_observability places things raw =
     ebind (check_list_cap ''metrics'' (rob_metrics raw)) (\<lambda>_.
     ebind (check_list_cap ''dashboards'' (rob_dashboards raw)) (\<lambda>_.
     ebind (check_list_cap ''alerts'' (rob_alerts raw)) (\<lambda>_.
     let ids = thing_id ` set things in
     ebind (load_section (validate_dashboard ids) dashboard_id DashboardDuplicateId no_check
       (rob_dashboards raw)) (\<lambda>dashboards.
     ebind (load_section (validate_metric places ids (dashboard_id ` set dashboards)) metric_id
       MetricDuplicateId no_check (rob_metrics raw)) (\<lambda>metrics.
     ebind (load_section (validate_alert (metric_id ` set metrics)) alert_id AlertDuplicateId no_check
       (rob_alerts raw)) (\<lambda>alerts.
     Inr \<lparr>obs_metrics = metrics, obs_dashboards = dashboards, obs_alerts = alerts\<rparr>))))))"

section \<open>Agents\<close>

text \<open>The derived orders of the two enums: the variant first, then the id.\<close>

fun obs_rank :: "sl1_agent_observation_target \<Rightarrow> nat" where
  "obs_rank (ObsPlace _) = 0"
| "obs_rank (ObsTransform _) = 1"
| "obs_rank (ObsDemand _) = 2"
| "obs_rank (ObsDashboard _) = 3"
| "obs_rank (ObsMetric _) = 4"

fun action_rank :: "sl1_agent_action_kind \<Rightarrow> nat" where
  "action_rank SetJobPriority = 0"
| "action_rank ThrottleDemandKind = 1"
| "action_rank ScalePlaceCapacity = 2"
| "action_rank WarmCache = 3"
| "action_rank PrioritizeTransform = 4"
| "action_rank PauseReportRefresh = 5"

lemma obs_rank_inj: "(obs_rank a, obs_id a) = (obs_rank b, obs_id b) \<Longrightarrow> a = b"
  by (cases a; cases b) auto

lemma action_rank_inj: "action_rank a = action_rank b \<Longrightarrow> a = b"
  by (cases a; cases b) auto

instantiation sl1_agent_observation_target :: linorder
begin

definition less_eq_sl1_agent_observation_target :: "sl1_agent_observation_target \<Rightarrow> sl1_agent_observation_target \<Rightarrow> bool" where
  "less_eq_sl1_agent_observation_target a b \<longleftrightarrow> (obs_rank a, obs_id a) \<le> (obs_rank b, obs_id b)"

definition less_sl1_agent_observation_target :: "sl1_agent_observation_target \<Rightarrow> sl1_agent_observation_target \<Rightarrow> bool" where
  "less_sl1_agent_observation_target a b \<longleftrightarrow> (obs_rank a, obs_id a) < (obs_rank b, obs_id b)"

instance
  by standard
    (auto simp: less_eq_sl1_agent_observation_target_def less_sl1_agent_observation_target_def
      less_le_not_le intro: obs_rank_inj)

end

instantiation sl1_agent_action_kind :: linorder
begin

definition less_eq_sl1_agent_action_kind :: "sl1_agent_action_kind \<Rightarrow> sl1_agent_action_kind \<Rightarrow> bool" where
  "less_eq_sl1_agent_action_kind a b \<longleftrightarrow> action_rank a \<le> action_rank b"

definition less_sl1_agent_action_kind :: "sl1_agent_action_kind \<Rightarrow> sl1_agent_action_kind \<Rightarrow> bool" where
  "less_sl1_agent_action_kind a b \<longleftrightarrow> action_rank a < action_rank b"

instance
  by standard
    (auto simp: less_eq_sl1_agent_action_kind_def less_sl1_agent_action_kind_def intro: action_rank_inj)

end

definition parse_agent_kind :: "string \<Rightarrow> string \<Rightarrow> agent_error + sl1_agent_kind" where
  "parse_agent_kind i s =
     (if s = ''mock'' then Inr AMock else if s = ''builtin'' then Inr ABuiltin
      else if s = ''llm'' then Inr ALlm else Inl (AgentUnknownKind i s))"

text \<open>The id sets an agent may refer to.\<close>

record scope_ids =
  sid_places :: "string set"
  sid_transforms :: "string set"
  sid_demand :: "string set"
  sid_dashboards :: "string set"
  sid_metrics :: "string set"

definition known_target :: "string \<Rightarrow> string \<Rightarrow> string set \<Rightarrow> (string \<Rightarrow> sl1_agent_observation_target) \<Rightarrow> string
    \<Rightarrow> agent_error + sl1_agent_observation_target" where
  "known_target i kind ids con t =
     (if t \<notin> ids then Inl (AgentObservationScopeUnknownId i kind t) else Inr (con t))"

definition parse_observation_target :: "string \<Rightarrow> scope_ids \<Rightarrow> string
    \<Rightarrow> agent_error + sl1_agent_observation_target" where
  "parse_observation_target i sids entry =
     (case split_once '':'' entry of
        None \<Rightarrow> Inl (AgentObservationScopeMalformed i entry)
      | Some (kind, t) \<Rightarrow>
          if t = [] then Inl (AgentObservationScopeMalformed i entry)
          else if kind = ''place'' then known_target i kind (sid_places sids) ObsPlace t
          else if kind = ''transform'' then known_target i kind (sid_transforms sids) ObsTransform t
          else if kind = ''demand'' then known_target i kind (sid_demand sids) ObsDemand t
          else if kind = ''dashboard'' then known_target i kind (sid_dashboards sids) ObsDashboard t
          else if kind = ''metric'' then known_target i kind (sid_metrics sids) ObsMetric t
          else Inl (AgentObservationScopeMalformed i entry))"

definition parse_action_kind :: "string \<Rightarrow> string \<Rightarrow> agent_error + sl1_agent_action_kind" where
  "parse_action_kind i s =
     (case find (\<lambda>k. action_kind_str k = s)
         [SetJobPriority, ThrottleDemandKind, ScalePlaceCapacity, WarmCache, PrioritizeTransform,
          PauseReportRefresh] of
        None \<Rightarrow> Inl (AgentAllowedActionsUnknownKind i s) | Some k \<Rightarrow> Inr k)"

text \<open>A repeated entry is rejected before the entry is parsed.\<close>

fun parse_distinct :: "(string \<Rightarrow> 'e) \<Rightarrow> (string \<Rightarrow> 'e + 'a) \<Rightarrow> string set \<Rightarrow> string list
    \<Rightarrow> 'e + 'a list" where
  "parse_distinct dup f seen [] = Inr []"
| "parse_distinct dup f seen (s # ss) =
     (if s \<in> seen then Inl (dup s)
      else ebind (f s) (\<lambda>x.
        ebind (parse_distinct dup f (insert s seen) ss) (\<lambda>xs. Inr (x # xs))))"

definition check_entries :: "string \<Rightarrow> string \<Rightarrow> nat \<Rightarrow> nat \<Rightarrow> agent_error + unit" where
  "check_entries i field n limit = require (n \<le> limit) (AgentTooManyEntries i field n limit)"

definition check_objective_weight :: "string \<Rightarrow> string set \<Rightarrow> string \<times> f64_bits \<Rightarrow> agent_error + unit" where
  "check_objective_weight i objective_ids e =
     (case e of (obj, w) \<Rightarrow>
        if \<not> f64_is_finite w then Inl (AgentObjectiveWeightNonFinite i obj)
        else if \<not> (f64_le f64_zero w \<and> f64_le w f64_one) then Inl (AgentObjectiveWeightOutOfRange i obj w)
        else require (obj \<in> objective_ids) (AgentObjectiveWeightUnknown i obj))"

definition validate_agent :: "scope_ids \<Rightarrow> string set \<Rightarrow> raw_agent \<Rightarrow> agent_error + sl1_agent" where
  "validate_agent sids objective_ids raw =
     (let i = ra_id raw; budgets = ra_budgets raw in
      if \<not> is_valid_sl1_id i then Inl (AgentInvalidId i)
      else
        ebind (parse_agent_kind i (ra_kind raw)) (\<lambda>kind.
        if blank (ra_role raw) then Inl (AgentRoleEmpty i)
        else if ra_interval_ticks raw = 0 then Inl (AgentIntervalTicksZero i)
        else if SL1_AGENT_MAX_INTERVAL_TICKS < ra_interval_ticks raw
          then Inl (AgentIntervalTicksOutOfRange i (ra_interval_ticks raw) SL1_AGENT_MAX_INTERVAL_TICKS)
        else
          ebind (check_entries i ''observation_scope'' (length (ra_observation_scope raw))
            SL1_AGENT_MAX_LIST_LEN) (\<lambda>_.
          ebind (check_entries i ''allowed_actions'' (length (ra_allowed_actions raw))
            SL1_AGENT_MAX_LIST_LEN) (\<lambda>_.
          ebind (check_entries i ''objective_weights'' (length (ra_objective_weights raw))
            SL1_AGENT_MAX_OBJECTIVE_WEIGHTS) (\<lambda>_.
          ebind (parse_distinct (AgentObservationScopeDuplicate i) (parse_observation_target i sids) {}
            (ra_observation_scope raw)) (\<lambda>scope.
          ebind (parse_distinct (AgentAllowedActionsDuplicate i) (parse_action_kind i) {}
            (ra_allowed_actions raw)) (\<lambda>actions.
          if rab_max_cost_per_decision budgets = 0 then Inl (AgentMaxCostPerDecisionZero i)
          else if SL1_AGENT_MAX_COOLDOWN_TICKS < rab_cooldown_ticks budgets
            then Inl (AgentCooldownTicksOutOfRange i (rab_cooldown_ticks budgets) SL1_AGENT_MAX_COOLDOWN_TICKS)
          else
            ebind (each (check_objective_weight i objective_ids) (ra_objective_weights raw)) (\<lambda>_.
            Inr \<lparr>agent_id = i, agent_kind = kind, agent_role = ra_role raw,
                 agent_interval_ticks = ra_interval_ticks raw,
                 agent_observation_scope = sort scope, agent_allowed_actions = sort actions,
                 agent_max_cost_per_decision = rab_max_cost_per_decision budgets,
                 agent_cooldown_ticks = rab_cooldown_ticks budgets,
                 agent_objective_weights = ra_objective_weights raw\<rparr>))))))))"

section \<open>Milestones\<close>

fun camera_loop :: "string \<Rightarrow> string set \<Rightarrow> string set \<Rightarrow> string list \<Rightarrow> milestone_error + unit" where
  "camera_loop i focusable seen [] = Inr ()"
| "camera_loop i focusable seen (entry # entries) =
     (if blank entry then Inl (MilestoneEmptyCameraFocusEntry i)
      else if entry \<in> seen then Inl (MilestoneDuplicateCameraFocus i entry)
      else if entry \<notin> focusable then Inl (MilestoneUnknownCameraFocus i entry)
      else camera_loop i focusable (insert entry seen) entries)"

definition validate_camera_focus :: "string \<Rightarrow> string set \<Rightarrow> string list option
    \<Rightarrow> milestone_error + string list" where
  "validate_camera_focus i focusable m =
     (case m of None \<Rightarrow> Inr []
      | Some xs \<Rightarrow>
          if xs = [] then Inl (MilestoneEmptyCameraFocus i)
          else ebind (camera_loop i focusable {} xs) (\<lambda>_. Inr xs))"

definition check_highlight :: "string \<Rightarrow> string set \<Rightarrow> string option \<Rightarrow> milestone_error + unit" where
  "check_highlight i focusable m =
     (case m of None \<Rightarrow> Inr ()
      | Some s \<Rightarrow>
          if blank s then Inl (MilestoneEmptyHighlight i)
          else require (s \<in> focusable) (MilestoneUnknownHighlight i s))"

definition predicate_from_str :: "string \<Rightarrow> sl1_milestone_predicate option" where
  "predicate_from_str s =
     (if s = ''gte'' then Some MGte else if s = ''lte'' then Some MLte
      else if s = ''gt'' then Some MGt else if s = ''lt'' then Some MLt else None)"

fun predicate_str :: "sl1_milestone_predicate \<Rightarrow> string" where
  "predicate_str MGte = ''gte''"
| "predicate_str MLte = ''lte''"
| "predicate_str MGt = ''gt''"
| "predicate_str MLt = ''lt''"

definition dashboard_state_from_str :: "string \<Rightarrow> sl1_milestone_dashboard_state option" where
  "dashboard_state_from_str s =
     (if s = ''ok'' then Some MDashOk else if s = ''stale'' then Some MDashStale
      else if s = ''no_data'' then Some MDashNoData else None)"

fun dashboard_state_str :: "sl1_milestone_dashboard_state \<Rightarrow> string" where
  "dashboard_state_str MDashOk = ''ok''"
| "dashboard_state_str MDashStale = ''stale''"
| "dashboard_state_str MDashNoData = ''no_data''"

fun validate_trigger :: "string \<Rightarrow> string set \<Rightarrow> string set \<Rightarrow> string set \<Rightarrow> raw_milestone_trigger
    \<Rightarrow> milestone_error + sl1_milestone_trigger" where
  "validate_trigger i pressures metrics dashboards (RawPressureActivated p) =
     (if p \<notin> pressures then Inl (MilestoneUnknownPressure i p) else Inr (PressureActivated p))"
| "validate_trigger i pressures metrics dashboards (RawPressureDeactivated p) =
     (if p \<notin> pressures then Inl (MilestoneUnknownPressure i p) else Inr (PressureDeactivated p))"
| "validate_trigger i pressures metrics dashboards (RawMetricThreshold m predicate v) =
     (if m \<notin> metrics then Inl (MilestoneUnknownMetric i m)
      else ebind (required (predicate_from_str predicate) (MilestoneUnknownPredicate i predicate)) (\<lambda>q.
        Inr (MetricThreshold m q v)))"
| "validate_trigger i pressures metrics dashboards (RawDashboardState d st) =
     (if d \<notin> dashboards then Inl (MilestoneUnknownDashboard i d)
      else ebind (required (dashboard_state_from_str st) (MilestoneUnknownDashboardState i st)) (\<lambda>q.
        Inr (DashboardStateTrigger d q)))"

definition validate_milestone :: "string set \<Rightarrow> string set \<Rightarrow> string set \<Rightarrow> string set \<Rightarrow> raw_milestone
    \<Rightarrow> milestone_error + sl1_milestone" where
  "validate_milestone pressures metrics dashboards focusable raw =
     (let i = rms_id raw in
      if \<not> is_valid_sl1_id i then Inl (MilestoneInvalidId i)
      else if blank (rms_label raw) then Inl (MilestoneEmptyLabel i)
      else
        ebind (validate_camera_focus i focusable (rms_camera_focus raw)) (\<lambda>focus.
        ebind (check_highlight i focusable (rms_highlight raw)) (\<lambda>_.
        ebind (validate_trigger i pressures metrics dashboards (rms_trigger raw)) (\<lambda>trigger.
        Inr \<lparr>milestone_id = i, milestone_trigger = trigger, milestone_label = rms_label raw,
             milestone_camera_focus = focus, milestone_highlight = rms_highlight raw\<rparr>))))"

section \<open>What acceptance means\<close>

lemma metric_capacity_source_ok:
  assumes "metric_capacity_source places r = Inr s"
  shows "\<exists>p \<in> set places. \<exists>c. s = PlaceCapacityUsedPercent (place_id p) c \<and> bt_has (place_capacity p) c"
  using assms by (auto simp: metric_capacity_source_def Let_def load_simps dest!: place_named_SomeD split: if_splits)

lemma metric_inventory_source_ok:
  assumes "metric_inventory_source places ids r = Inr s"
  shows "\<exists>p \<in> set places. \<exists>t \<in> ids. s = PlaceInventoryCount (place_id p) t \<and> bt_has (place_storage p) t"
  using assms by (auto simp: metric_inventory_source_def Let_def load_simps dest!: place_named_SomeD split: if_splits)

lemma metric_dashboard_source_ok:
  assumes "metric_dashboard_source dids r = Inr s"
  shows "\<exists>d \<in> dids. s = DashboardFreshness d"
  using assms by (auto simp: metric_dashboard_source_def Let_def load_simps split: if_splits)

fun metric_refs :: "sl1_place list \<Rightarrow> string set \<Rightarrow> sl1_metric_source \<Rightarrow> bool" where
  "metric_refs places dids (PlaceCapacityUsedPercent p c) \<longleftrightarrow>
     (\<exists>q \<in> set places. place_id q = p \<and> bt_has (place_capacity q) c)"
| "metric_refs places dids (PlaceInventoryCount p t) \<longleftrightarrow>
     (\<exists>q \<in> set places. place_id q = p \<and> bt_has (place_storage q) t)"
| "metric_refs places dids (DashboardFreshness d) \<longleftrightarrow> d \<in> dids"

lemma validate_metric_ok:
  "validate_metric places ids dids r = Inr m \<Longrightarrow>
     metric_id m = rm_id r \<and> metric_refs places dids (metric_source m)"
  by (auto simp: validate_metric_def Let_def load_simps split: if_splits
      dest!: metric_capacity_source_ok metric_inventory_source_ok metric_dashboard_source_ok)

lemma validate_alert_ok:
  "validate_alert mids r = Inr a \<Longrightarrow> alert_id a = ral_id r \<and> alert_metric a \<in> mids"
  by (auto simp: validate_alert_def Let_def load_simps split: if_splits)

lemma depends_loop_ok:
  "depends_loop i ids seen xs = Inr ys \<Longrightarrow> ys = xs \<and> set xs \<subseteq> ids \<and> distinct xs \<and> set xs \<inter> seen = {}"
  by (induction xs arbitrary: seen ys) (fastforce simp: load_simps split: if_splits)+

lemma validate_dashboard_ok:
  "validate_dashboard ids r = Inr d \<Longrightarrow>
     dashboard_id d = rdb_id r \<and> set (dashboard_depends_on d) \<subseteq> ids \<and> 0 < dashboard_freshness_slo_ticks d"
  by (auto simp: validate_dashboard_def Let_def load_simps word_neq_0_conv split: if_splits
      dest!: depends_loop_ok)

definition obs_refs :: "sl1_place list \<Rightarrow> string set \<Rightarrow> sl1_observability \<Rightarrow> bool" where
  "obs_refs places ids obs \<longleftrightarrow>
     (\<forall>m \<in> set (obs_metrics obs). metric_refs places (dashboard_id ` set (obs_dashboards obs)) (metric_source m))
     \<and> (\<forall>d \<in> set (obs_dashboards obs). set (dashboard_depends_on d) \<subseteq> ids)
     \<and> (\<forall>a \<in> set (obs_alerts obs). alert_metric a \<in> metric_id ` set (obs_metrics obs))"

lemma validate_observability_ok:
  assumes "validate_observability places things r = Inr obs"
  shows "sorted_wrt (<) (map metric_id (obs_metrics obs))"
    "sorted_wrt (<) (map dashboard_id (obs_dashboards obs))"
    "sorted_wrt (<) (map alert_id (obs_alerts obs))"
    "obs_refs places (thing_id ` set things) obs"
proof -
  let ?ids = "thing_id ` set things"
  from assms have
    d: "load_section (validate_dashboard ?ids) dashboard_id DashboardDuplicateId no_check
      (rob_dashboards r) = Inr (obs_dashboards obs)" and
    m: "load_section (validate_metric places ?ids (dashboard_id ` set (obs_dashboards obs))) metric_id
      MetricDuplicateId no_check (rob_metrics r) = Inr (obs_metrics obs)" and
    a: "load_section (validate_alert (metric_id ` set (obs_metrics obs))) alert_id AlertDuplicateId
      no_check (rob_alerts r) = Inr (obs_alerts obs)"
    by (auto simp: validate_observability_def Let_def load_simps)
  show "sorted_wrt (<) (map metric_id (obs_metrics obs))" using m by (rule load_section_sorted)
  show "sorted_wrt (<) (map dashboard_id (obs_dashboards obs))" using d by (rule load_section_sorted)
  show "sorted_wrt (<) (map alert_id (obs_alerts obs))" using a by (rule load_section_sorted)
  show "obs_refs places ?ids obs"
    using load_section_item [OF d] load_section_item [OF m] load_section_item [OF a]
    unfolding obs_refs_def by (blast dest: validate_dashboard_ok validate_metric_ok validate_alert_ok)
qed

lemma parse_distinct_Inr:
  "parse_distinct dup f seen xs = Inr ys \<longleftrightarrow>
     list_all2 (\<lambda>x y. f x = Inr y) xs ys \<and> distinct xs \<and> set xs \<inter> seen = {}"
  by (induction xs arbitrary: seen ys) (auto simp: load_simps list_all2_Cons1)

fun target_known :: "scope_ids \<Rightarrow> sl1_agent_observation_target \<Rightarrow> bool" where
  "target_known s (ObsPlace i) \<longleftrightarrow> i \<in> sid_places s"
| "target_known s (ObsTransform i) \<longleftrightarrow> i \<in> sid_transforms s"
| "target_known s (ObsDemand i) \<longleftrightarrow> i \<in> sid_demand s"
| "target_known s (ObsDashboard i) \<longleftrightarrow> i \<in> sid_dashboards s"
| "target_known s (ObsMetric i) \<longleftrightarrow> i \<in> sid_metrics s"

lemma parse_observation_target_ok:
  "parse_observation_target i sids e = Inr t \<Longrightarrow> target_known sids t"
  by (auto simp: parse_observation_target_def known_target_def load_simps split: if_splits)

lemma check_objective_weight_Inr:
  "check_objective_weight i oids (obj, w) = Inr u \<longleftrightarrow>
     f64_is_finite w \<and> f64_le f64_zero w \<and> f64_le w f64_one \<and> obj \<in> oids"
  by (auto simp: check_objective_weight_def load_simps split: if_splits)

lemma validate_agent_ok:
  assumes "validate_agent sids oids r = Inr a"
  shows "agent_id a = ra_id r" "0 < agent_interval_ticks a"
    "agent_interval_ticks a \<le> SL1_AGENT_MAX_INTERVAL_TICKS"
    "agent_cooldown_ticks a \<le> SL1_AGENT_MAX_COOLDOWN_TICKS"
    "\<forall>t \<in> set (agent_observation_scope a). target_known sids t"
    "set (bt_keys (agent_objective_weights a)) \<subseteq> oids"
proof -
  from assms obtain scope where
    sc: "parse_distinct (AgentObservationScopeDuplicate (ra_id r)) (parse_observation_target (ra_id r) sids) {}
      (ra_observation_scope r) = Inr scope" and
    w: "\<forall>e \<in> set (ra_objective_weights r). check_objective_weight (ra_id r) oids e = Inr ()" and
    a: "agent_observation_scope a = sort scope" "agent_objective_weights a = ra_objective_weights r" and
    rest: "agent_id a = ra_id r" "0 < agent_interval_ticks a"
      "agent_interval_ticks a \<le> SL1_AGENT_MAX_INTERVAL_TICKS"
      "agent_cooldown_ticks a \<le> SL1_AGENT_MAX_COOLDOWN_TICKS"
    by (auto simp: validate_agent_def Let_def load_simps word_neq_0_conv not_less)
  from rest show "agent_id a = ra_id r" "0 < agent_interval_ticks a"
    "agent_interval_ticks a \<le> SL1_AGENT_MAX_INTERVAL_TICKS"
    "agent_cooldown_ticks a \<le> SL1_AGENT_MAX_COOLDOWN_TICKS" by auto
  show "\<forall>t \<in> set (agent_observation_scope a). target_known sids t"
    using sc a(1) by (auto simp: parse_distinct_Inr dest!: list_all2_rightD dest: parse_observation_target_ok)
  show "set (bt_keys (agent_objective_weights a)) \<subseteq> oids"
    using w a(2) by (auto simp: check_objective_weight_Inr)
qed

fun trigger_refs :: "string set \<Rightarrow> string set \<Rightarrow> string set \<Rightarrow> sl1_milestone_trigger \<Rightarrow> bool" where
  "trigger_refs pressures metrics dashboards (PressureActivated p) \<longleftrightarrow> p \<in> pressures"
| "trigger_refs pressures metrics dashboards (PressureDeactivated p) \<longleftrightarrow> p \<in> pressures"
| "trigger_refs pressures metrics dashboards (MetricThreshold m q v) \<longleftrightarrow> m \<in> metrics"
| "trigger_refs pressures metrics dashboards (DashboardStateTrigger d q) \<longleftrightarrow> d \<in> dashboards"

lemma validate_trigger_ok:
  "validate_trigger i ps ms ds t = Inr tr \<Longrightarrow> trigger_refs ps ms ds tr"
  by (cases t) (auto simp: load_simps split: if_splits)

lemma camera_loop_ok: "camera_loop i focusable seen xs = Inr u \<Longrightarrow> set xs \<subseteq> focusable \<and> distinct xs"
proof -
  have "camera_loop i focusable seen xs = Inr u \<Longrightarrow>
      set xs \<subseteq> focusable \<and> distinct xs \<and> set xs \<inter> seen = {}"
    by (induction xs arbitrary: seen) (fastforce split: if_splits)+
  then show "camera_loop i focusable seen xs = Inr u \<Longrightarrow> set xs \<subseteq> focusable \<and> distinct xs" by simp
qed

lemma validate_milestone_ok:
  assumes "validate_milestone ps ms ds focusable r = Inr m"
  shows "milestone_id m = rms_id r" "trigger_refs ps ms ds (milestone_trigger m)"
    "set (milestone_camera_focus m) \<subseteq> focusable" "set_option (milestone_highlight m) \<subseteq> focusable"
  using assms
  by (auto simp: validate_milestone_def validate_camera_focus_def check_highlight_def Let_def load_simps
      split: if_splits option.splits dest: validate_trigger_ok camera_loop_ok [THEN conjunct1, THEN subsetD])

end
