(* ===== verification/Validate.thy ===== *)
theory Validate
  imports Load_Places Load_Views
begin

text \<open>
  The scene validator \<open>validate\<close>: the schema check, the unknown-field check, the item
  caps, then the sections in dependency order, each one a \<open>load_section\<close> with the id
  sets of the sections before it. What it establishes is \<open>scene_ok\<close>, the assumption of
  the runtime theories, and \<open>refs_ok\<close>, that every reference of the scene resolves.
\<close>

section \<open>Schema, fields and caps\<close>

definition check_section_cap :: "string \<Rightarrow> nat \<Rightarrow> scene_error + unit" where
  "check_section_cap section_name n =
     require (n \<le> MAX_SL1_ITEMS_PER_SECTION)
       (TooManyItems section_name n MAX_SL1_ITEMS_PER_SECTION)"

definition section_sizes :: "'v raw_scene \<Rightarrow> (string \<times> nat) list" where
  "section_sizes raw =
     [(''places'', length (rs_places raw)), (''links'', length (rs_links raw)),
      (''things'', length (rs_things raw)), (''transforms'', length (rs_transforms raw)),
      (''demand'', length (rs_demand raw)), (''pressure'', length (rs_pressure raw)),
      (''objectives'', length (rs_objectives raw)),
      (''failure_conditions'', length (rs_failure_conditions raw)),
      (''victory_conditions'', length (rs_victory_conditions raw)),
      (''agents'', length (rs_agents raw)), (''milestones'', length (rs_milestones raw))]"

definition check_schema :: "'v raw_scene \<Rightarrow> scene_error + unit" where
  "check_schema raw =
     (if rs_schema_version raw \<noteq> SL1_SCHEMA_VERSION
      then Inl (UnsupportedSchema (rs_schema_version raw) SL1_SCHEMA_VERSION)
      else case rs_extra raw of
        (name, _) # _ \<Rightarrow> Inl (UnknownField name)
      | [] \<Rightarrow> each (\<lambda>(n, c). check_section_cap n c) (section_sizes raw))"

section \<open>The sections\<close>

definition thing_tag_set :: "sl1_thing list \<Rightarrow> string set" where
  "thing_tag_set things = set (concat (map thing_tags things))"

definition load_things :: "'v raw_scene \<Rightarrow> sl1_load_error + sl1_thing list" where
  "load_things raw = lift_err ThingError
     (load_section validate_thing thing_id ThingDuplicateId no_check (rs_things raw))"

definition load_places :: "sl1_thing list \<Rightarrow> 'v raw_scene \<Rightarrow> sl1_load_error + sl1_place list" where
  "load_places things raw = lift_err PlaceError
     (load_section validate_place place_id PlaceDuplicateId
       (place_refs (thing_id ` set things) (thing_tag_set things)) (rs_places raw))"

definition load_links :: "sl1_thing list \<Rightarrow> sl1_place list \<Rightarrow> 'v raw_scene \<Rightarrow> sl1_load_error + sl1_link list" where
  "load_links things places raw = lift_err LinkError
     (load_section (validate_link (place_id ` set places)) link_id LinkDuplicateId
       (link_refs (thing_id ` set things) (thing_tag_set things)) (rs_links raw))"

definition load_transforms :: "sl1_thing list \<Rightarrow> sl1_place list \<Rightarrow> 'v raw_scene
    \<Rightarrow> sl1_load_error + sl1_transform list" where
  "load_transforms things places raw = lift_err TransformError
     (load_section (validate_transform (places_map places) (thing_id ` set things)) transform_id
       TransformDuplicateId no_check (rs_transforms raw))"

definition load_demand :: "sl1_thing list \<Rightarrow> sl1_place list \<Rightarrow> 'v raw_scene
    \<Rightarrow> sl1_load_error + sl1_demand list" where
  "load_demand things places raw = lift_err DemandError
     (load_section (validate_demand (place_id ` set places) (thing_id ` set things)) demand_id
       DemandDuplicateId no_check (rs_demand raw))"

definition load_pressure :: "sl1_thing list \<Rightarrow> sl1_place list \<Rightarrow> sl1_link list \<Rightarrow> sl1_demand list
    \<Rightarrow> 'v raw_scene \<Rightarrow> sl1_load_error + sl1_pressure list" where
  "load_pressure things places links demand raw = lift_err PressureError
     (load_section (validate_pressure (places_map places) (thing_id ` set things)
         (demand_id ` set demand) (link_id ` set links)) pressure_id
       PressureDuplicateId no_check (rs_pressure raw))"

definition load_objectives :: "sl1_thing list \<Rightarrow> sl1_place list \<Rightarrow> sl1_transform list \<Rightarrow> sl1_demand list
    \<Rightarrow> 'v raw_scene \<Rightarrow> sl1_load_error + sl1_objective list" where
  "load_objectives things places transforms demand raw = lift_err ObjectiveError
     (load_section (validate_objective places (place_id ` set places) (thing_id ` set things)
         (transform_id ` set transforms) (demand_id ` set demand)) objective_id
       ObjectiveDuplicateId no_check (rs_objectives raw))"

definition load_failure_conditions :: "sl1_thing list \<Rightarrow> sl1_place list \<Rightarrow> sl1_objective list
    \<Rightarrow> 'v raw_scene \<Rightarrow> sl1_load_error + sl1_failure_condition list" where
  "load_failure_conditions things places objectives raw = lift_err FailureConditionError
     (load_section (validate_failure_condition places (thing_id ` set things)
         (objective_id ` set objectives)) fc_id
       FailureConditionDuplicateId no_check (rs_failure_conditions raw))"

definition load_victory_conditions :: "'v raw_scene \<Rightarrow> sl1_load_error + sl1_victory_condition list" where
  "load_victory_conditions raw = lift_err VictoryConditionError
     (load_section validate_victory_condition vc_id VictoryConditionDuplicateId no_check
       (rs_victory_conditions raw))"

definition load_observability :: "sl1_thing list \<Rightarrow> sl1_place list \<Rightarrow> 'v raw_scene
    \<Rightarrow> sl1_load_error + sl1_observability option" where
  "load_observability things places raw = lift_err ObservabilityError
     (traverse_option (validate_observability places things) (rs_observability raw))"

text \<open>\<open>observability.as_ref().map(...).unwrap_or_default()\<close>.\<close>

definition obs_ids :: "(sl1_observability \<Rightarrow> 'a list) \<Rightarrow> ('a \<Rightarrow> string) \<Rightarrow> sl1_observability option
    \<Rightarrow> string set" where
  "obs_ids sel key obs = (case obs of None \<Rightarrow> {} | Some o1 \<Rightarrow> key ` set (sel o1))"

definition scope_of :: "sl1_place list \<Rightarrow> sl1_transform list \<Rightarrow> sl1_demand list
    \<Rightarrow> sl1_observability option \<Rightarrow> scope_ids" where
  "scope_of places transforms demand obs =
     \<lparr>sid_places = place_id ` set places, sid_transforms = transform_id ` set transforms,
      sid_demand = demand_id ` set demand,
      sid_dashboards = obs_ids obs_dashboards dashboard_id obs,
      sid_metrics = obs_ids obs_metrics metric_id obs\<rparr>"

definition load_agents :: "scope_ids \<Rightarrow> sl1_objective list \<Rightarrow> 'v raw_scene
    \<Rightarrow> sl1_load_error + sl1_agent list" where
  "load_agents sids objectives raw = lift_err AgentError
     (load_section (validate_agent sids (objective_id ` set objectives)) agent_id AgentDuplicateId
       no_check (rs_agents raw))"

text \<open>Everything a camera may focus on: every id of the scene but those of victory conditions.\<close>

definition focusable_ids :: "sl1_scene \<Rightarrow> string set" where
  "focusable_ids sc =
     place_id ` set (sc_places sc) \<union> link_id ` set (sc_links sc) \<union> thing_id ` set (sc_things sc)
     \<union> transform_id ` set (sc_transforms sc) \<union> demand_id ` set (sc_demand sc)
     \<union> pressure_id ` set (sc_pressure sc) \<union> objective_id ` set (sc_objectives sc)
     \<union> fc_id ` set (sc_failure_conditions sc)
     \<union> obs_ids obs_metrics metric_id (sc_observability sc)
     \<union> obs_ids obs_dashboards dashboard_id (sc_observability sc)
     \<union> obs_ids obs_alerts alert_id (sc_observability sc)
     \<union> agent_id ` set (sc_agents sc)"

text \<open>Milestones come last, when the rest of the scene is known.\<close>

definition load_milestones :: "sl1_scene \<Rightarrow> 'v raw_scene \<Rightarrow> sl1_load_error + sl1_milestone list" where
  "load_milestones sc raw = lift_err MilestoneError
     (load_section (validate_milestone (pressure_id ` set (sc_pressure sc))
         (obs_ids obs_metrics metric_id (sc_observability sc))
         (obs_ids obs_dashboards dashboard_id (sc_observability sc)) (focusable_ids sc)) milestone_id
       MilestoneDuplicateId no_check (rs_milestones raw))"

section \<open>The validator\<close>

definition validate :: "'v raw_scene \<Rightarrow> sl1_load_error + sl1_scene" where
  "validate raw =
     ebind (lift_err SceneError (check_schema raw)) (\<lambda>_.
     ebind (load_things raw) (\<lambda>things.
     ebind (load_places things raw) (\<lambda>places.
     ebind (load_links things places raw) (\<lambda>links.
     ebind (load_transforms things places raw) (\<lambda>transforms.
     ebind (load_demand things places raw) (\<lambda>demand.
     ebind (load_pressure things places links demand raw) (\<lambda>pressure.
     ebind (load_objectives things places transforms demand raw) (\<lambda>objectives.
     ebind (load_failure_conditions things places objectives raw) (\<lambda>fcs.
     ebind (load_victory_conditions raw) (\<lambda>vcs.
     ebind (load_observability things places raw) (\<lambda>obs.
     ebind (load_agents (scope_of places transforms demand obs) objectives raw) (\<lambda>agents.
     let sc = \<lparr>sc_schema_version = rs_schema_version raw, sc_places = places, sc_links = links,
        sc_things = things, sc_transforms = transforms, sc_demand = demand, sc_pressure = pressure,
        sc_objectives = objectives, sc_failure_conditions = fcs, sc_victory_conditions = vcs,
        sc_agents = agents, sc_observability = obs, sc_milestones = []\<rparr> in
     ebind (load_milestones sc raw) (\<lambda>milestones.
     Inr (sc\<lparr>sc_milestones := milestones\<rparr>))))))))))))))"

section \<open>The JSON entry points\<close>

text \<open>
  \<open>load_value\<close> and \<open>load_str\<close>. The JSON values and the two conversions are those of
  serde_json and serde, parameters here: what kind a value is, the parser with its error
  message, and the derived deserialiser of \<open>RawSl1Scene\<close>.
\<close>

datatype json_kind = JNull | JBool | JNumber | JString | JArray | JObject

fun json_kind_str :: "json_kind \<Rightarrow> string" where
  "json_kind_str JNull = ''null''"
| "json_kind_str JBool = ''bool''"
| "json_kind_str JNumber = ''number''"
| "json_kind_str JString = ''string''"
| "json_kind_str JArray = ''array''"
| "json_kind_str JObject = ''object''"

definition load_value :: "('v \<Rightarrow> json_kind) \<Rightarrow> ('v \<Rightarrow> string + 'v raw_scene) \<Rightarrow> 'v
    \<Rightarrow> sl1_load_error + sl1_scene" where
  "load_value kind_of from_value v =
     (if kind_of v \<noteq> JObject then Inl (SceneError (ExpectedObject (json_kind_str (kind_of v))))
      else ebind (lift_err (\<lambda>m. SceneError (Parse m)) (from_value v)) validate)"

definition load_str :: "(string \<Rightarrow> string + 'v) \<Rightarrow> ('v \<Rightarrow> json_kind) \<Rightarrow> ('v \<Rightarrow> string + 'v raw_scene)
    \<Rightarrow> string \<Rightarrow> sl1_load_error + sl1_scene" where
  "load_str parse_json kind_of from_value s =
     ebind (lift_err (\<lambda>m. SceneError (Parse m)) (parse_json s)) (load_value kind_of from_value)"

section \<open>The sections of an accepted scene\<close>

lemma load_milestones_frame [simp]:
  "load_milestones (sc\<lparr>sc_milestones := ms\<rparr>) raw = load_milestones sc raw"
  by (simp add: load_milestones_def focusable_ids_def)

lemma validate_Inr:
  "validate raw = Inr sc \<longleftrightarrow>
     check_schema raw = Inr () \<and> sc_schema_version sc = rs_schema_version raw
     \<and> load_things raw = Inr (sc_things sc)
     \<and> load_places (sc_things sc) raw = Inr (sc_places sc)
     \<and> load_links (sc_things sc) (sc_places sc) raw = Inr (sc_links sc)
     \<and> load_transforms (sc_things sc) (sc_places sc) raw = Inr (sc_transforms sc)
     \<and> load_demand (sc_things sc) (sc_places sc) raw = Inr (sc_demand sc)
     \<and> load_pressure (sc_things sc) (sc_places sc) (sc_links sc) (sc_demand sc) raw = Inr (sc_pressure sc)
     \<and> load_objectives (sc_things sc) (sc_places sc) (sc_transforms sc) (sc_demand sc) raw = Inr (sc_objectives sc)
     \<and> load_failure_conditions (sc_things sc) (sc_places sc) (sc_objectives sc) raw
         = Inr (sc_failure_conditions sc)
     \<and> load_victory_conditions raw = Inr (sc_victory_conditions sc)
     \<and> load_observability (sc_things sc) (sc_places sc) raw = Inr (sc_observability sc)
     \<and> load_agents (scope_of (sc_places sc) (sc_transforms sc) (sc_demand sc) (sc_observability sc))
         (sc_objectives sc) raw = Inr (sc_agents sc)
     \<and> load_milestones sc raw = Inr (sc_milestones sc)"
  (is "?v \<longleftrightarrow> ?s")
proof
  assume ?v
  then show ?s by (auto simp: validate_def Let_def load_simps focusable_ids_def load_milestones_def)
next
  assume ?s
  then have s: "check_schema raw = Inr ()" "sc_schema_version sc = rs_schema_version raw"
     "load_things raw = Inr (sc_things sc)"
     "load_places (sc_things sc) raw = Inr (sc_places sc)"
     "load_links (sc_things sc) (sc_places sc) raw = Inr (sc_links sc)"
     "load_transforms (sc_things sc) (sc_places sc) raw = Inr (sc_transforms sc)"
     "load_demand (sc_things sc) (sc_places sc) raw = Inr (sc_demand sc)"
     "load_pressure (sc_things sc) (sc_places sc) (sc_links sc) (sc_demand sc) raw = Inr (sc_pressure sc)"
     "load_objectives (sc_things sc) (sc_places sc) (sc_transforms sc) (sc_demand sc) raw = Inr (sc_objectives sc)"
     "load_failure_conditions (sc_things sc) (sc_places sc) (sc_objectives sc) raw
         = Inr (sc_failure_conditions sc)"
     "load_victory_conditions raw = Inr (sc_victory_conditions sc)"
     "load_observability (sc_things sc) (sc_places sc) raw = Inr (sc_observability sc)"
     "load_agents (scope_of (sc_places sc) (sc_transforms sc) (sc_demand sc) (sc_observability sc))
         (sc_objectives sc) raw = Inr (sc_agents sc)"
     "load_milestones (sc\<lparr>sc_milestones := []\<rparr>) raw = Inr (sc_milestones sc)" by auto
  have e: "sc\<lparr>sc_milestones := []\<rparr> = \<lparr>sc_schema_version = rs_schema_version raw,
      sc_places = sc_places sc, sc_links = sc_links sc,
        sc_things = sc_things sc, sc_transforms = sc_transforms sc, sc_demand = sc_demand sc,
        sc_pressure = sc_pressure sc, sc_objectives = sc_objectives sc,
        sc_failure_conditions = sc_failure_conditions sc,
        sc_victory_conditions = sc_victory_conditions sc,
        sc_agents = sc_agents sc, sc_observability = sc_observability sc, sc_milestones = []\<rparr>"
    using s(2) by (cases sc) simp
  show ?v unfolding validate_def Let_def s(1,3-13) ebind.simps lift_err_simps e [symmetric] s(14) by simp
qed

lemma check_schema_Inr:
  "check_schema raw = Inr u \<longleftrightarrow> rs_schema_version raw = SL1_SCHEMA_VERSION \<and> rs_extra raw = []
     \<and> (\<forall>(n, c) \<in> set (section_sizes raw). c \<le> MAX_SL1_ITEMS_PER_SECTION)"
  by (auto simp: check_schema_def check_section_cap_def load_simps split: list.splits)

lemma accepted_transform_count:
  "validate raw = Inr sc \<Longrightarrow> length (sc_transforms sc) \<le> MAX_SL1_ITEMS_PER_SECTION"
  by (auto simp: validate_Inr check_schema_Inr load_transforms_def load_simps section_sizes_def
      dest!: load_section_length)

lemma accepted_sections:
  assumes "validate raw = Inr sc"
  shows "load_section validate_thing thing_id ThingDuplicateId no_check (rs_things raw) = Inr (sc_things sc)"
    and "load_section validate_place place_id PlaceDuplicateId
      (place_refs (thing_id ` set (sc_things sc)) (thing_tag_set (sc_things sc))) (rs_places raw)
        = Inr (sc_places sc)"
    and "load_section (validate_link (place_id ` set (sc_places sc))) link_id LinkDuplicateId
      (link_refs (thing_id ` set (sc_things sc)) (thing_tag_set (sc_things sc))) (rs_links raw)
        = Inr (sc_links sc)"
    and "load_section (validate_transform (places_map (sc_places sc)) (thing_id ` set (sc_things sc)))
      transform_id TransformDuplicateId no_check (rs_transforms raw) = Inr (sc_transforms sc)"
    and "load_section (validate_demand (place_id ` set (sc_places sc)) (thing_id ` set (sc_things sc)))
      demand_id DemandDuplicateId no_check (rs_demand raw) = Inr (sc_demand sc)"
    and "load_section (validate_pressure (places_map (sc_places sc)) (thing_id ` set (sc_things sc))
        (demand_id ` set (sc_demand sc)) (link_id ` set (sc_links sc)))
      pressure_id PressureDuplicateId no_check (rs_pressure raw) = Inr (sc_pressure sc)"
    and "load_section (validate_objective (sc_places sc) (place_id ` set (sc_places sc))
        (thing_id ` set (sc_things sc)) (transform_id ` set (sc_transforms sc)) (demand_id ` set (sc_demand sc)))
      objective_id ObjectiveDuplicateId no_check (rs_objectives raw) = Inr (sc_objectives sc)"
    and "load_section (validate_failure_condition (sc_places sc) (thing_id ` set (sc_things sc))
        (objective_id ` set (sc_objectives sc)))
      fc_id FailureConditionDuplicateId no_check (rs_failure_conditions raw) = Inr (sc_failure_conditions sc)"
    and "load_section validate_victory_condition vc_id VictoryConditionDuplicateId no_check
      (rs_victory_conditions raw) = Inr (sc_victory_conditions sc)"
    and "traverse_option (validate_observability (sc_places sc) (sc_things sc)) (rs_observability raw)
      = Inr (sc_observability sc)"
    and "load_section (validate_agent (scope_of (sc_places sc) (sc_transforms sc) (sc_demand sc)
        (sc_observability sc)) (objective_id ` set (sc_objectives sc)))
      agent_id AgentDuplicateId no_check (rs_agents raw) = Inr (sc_agents sc)"
    and "load_section (validate_milestone (pressure_id ` set (sc_pressure sc))
        (obs_ids obs_metrics metric_id (sc_observability sc))
        (obs_ids obs_dashboards dashboard_id (sc_observability sc)) (focusable_ids sc))
      milestone_id MilestoneDuplicateId no_check (rs_milestones raw) = Inr (sc_milestones sc)"
  using assms unfolding validate_Inr load_things_def load_places_def load_links_def load_transforms_def
    load_demand_def load_pressure_def load_objectives_def load_failure_conditions_def
    load_victory_conditions_def load_observability_def load_agents_def load_milestones_def lift_err_Inr
  by (simp_all only: simp_thms)

lemma accepted_sorted:
  assumes "validate raw = Inr sc"
  shows "sorted_wrt (<) (map thing_id (sc_things sc))" "sorted_wrt (<) (map place_id (sc_places sc))"
    "sorted_wrt (<) (map link_id (sc_links sc))" "sorted_wrt (<) (map transform_id (sc_transforms sc))"
    "sorted_wrt (<) (map demand_id (sc_demand sc))" "sorted_wrt (<) (map pressure_id (sc_pressure sc))"
    "sorted_wrt (<) (map objective_id (sc_objectives sc))"
    "sorted_wrt (<) (map fc_id (sc_failure_conditions sc))"
    "sorted_wrt (<) (map vc_id (sc_victory_conditions sc))"
    "sorted_wrt (<) (map agent_id (sc_agents sc))" "sorted_wrt (<) (map milestone_id (sc_milestones sc))"
  by (rule load_section_sorted, rule accepted_sections, rule assms)+

section \<open>References resolve\<close>

definition thing_or_tag :: "sl1_scene \<Rightarrow> string \<Rightarrow> bool" where
  "thing_or_tag sc v \<longleftrightarrow> v \<in> thing_id ` set (sc_things sc) \<or> v \<in> thing_tag_set (sc_things sc)"

text \<open>A state on the used share of a capacity bucket names a bucket of its place.\<close>

definition state_refs :: "sl1_place \<Rightarrow> sl1_operating_state \<Rightarrow> bool" where
  "state_refs p os \<longleftrightarrow> (case os_predicate os of
     UsedPercentGte metric _ \<Rightarrow> bt_has (place_capacity p) metric | OverloadedTicksGt _ \<Rightarrow> True)"

definition catalogue_refs :: "sl1_scene \<Rightarrow> bool" where
  "catalogue_refs sc \<longleftrightarrow>
     (\<forall>p \<in> set (sc_places sc).
        set (bt_keys (place_storage p)) \<subseteq> thing_id ` set (sc_things sc)
        \<and> (\<forall>v \<in> set (place_accepts p) \<union> set (place_produces p). thing_or_tag sc v)
        \<and> (\<forall>(n, os) \<in> set (place_operating_states p). state_refs p os))
     \<and> (\<forall>l \<in> set (sc_links sc).
        link_from l \<in> place_id ` set (sc_places sc) \<and> link_to l \<in> place_id ` set (sc_places sc)
        \<and> link_from l \<noteq> link_to l \<and> (\<forall>v \<in> set (link_compatibility l). thing_or_tag sc v))"

text \<open>A pressure the engine does not support still names a thing or a place, as its kind asks.\<close>

definition unsupported_refs :: "sl1_scene \<Rightarrow> sl1_pressure \<Rightarrow> bool" where
  "unsupported_refs sc p \<longleftrightarrow> (pressure_params p = PressureUnsupported \<longrightarrow>
     pressure_target p \<in> (if pressure_kind p = KSchemaDrift then thing_id ` set (sc_things sc)
       else place_id ` set (sc_places sc)))"

definition flow_refs :: "sl1_scene \<Rightarrow> bool" where
  "flow_refs sc \<longleftrightarrow>
     (\<forall>t \<in> set (sc_transforms sc).
        transform_runs_on t \<in> place_id ` set (sc_places sc) \<and> transform_outputs t \<noteq> []
        \<and> io_thing_id ` (set (transform_inputs t) \<union> set (transform_outputs t))
            \<subseteq> thing_id ` set (sc_things sc)
        \<and> (\<exists>p \<in> set (sc_places sc). place_id p = transform_runs_on t
            \<and> (\<forall>k \<in> set (bt_keys (transform_capacity_cost t)). bt_has (place_capacity p) k)))
     \<and> (\<forall>d \<in> set (sc_demand sc).
        target_place (demand_target d) \<in> place_id ` set (sc_places sc)
        \<and> set (demand_requires d) \<subseteq> thing_id ` set (sc_things sc))
     \<and> (\<forall>p \<in> set (sc_pressure sc).
        pressure_refs (sc_places sc) (thing_id ` set (sc_things sc)) (demand_id ` set (sc_demand sc))
          (link_id ` set (sc_links sc)) (pressure_target p) (pressure_params p)
        \<and> unsupported_refs sc p
        \<and> unat (pressure_at_tick p) + unat (pressure_duration_ticks p) \<le> unat MAX_PRESSURE_TICKS)"

definition goal_refs :: "sl1_scene \<Rightarrow> bool" where
  "goal_refs sc \<longleftrightarrow>
     (\<forall>ob \<in> set (sc_objectives sc).
        objective_refs (sc_places sc) (demand_id ` set (sc_demand sc)) (objective_params ob))
     \<and> (\<forall>fc \<in> set (sc_failure_conditions sc).
        fc_refs (sc_places sc) (objective_id ` set (sc_objectives sc)) (fc_params fc))"

definition view_refs :: "sl1_scene \<Rightarrow> bool" where
  "view_refs sc \<longleftrightarrow>
     (case sc_observability sc of None \<Rightarrow> True
      | Some obs \<Rightarrow> obs_refs (sc_places sc) (thing_id ` set (sc_things sc)) obs)
     \<and> (\<forall>a \<in> set (sc_agents sc).
        (\<forall>t \<in> set (agent_observation_scope a).
           target_known (scope_of (sc_places sc) (sc_transforms sc) (sc_demand sc) (sc_observability sc)) t)
        \<and> set (bt_keys (agent_objective_weights a)) \<subseteq> objective_id ` set (sc_objectives sc))
     \<and> (\<forall>m \<in> set (sc_milestones sc).
        trigger_refs (pressure_id ` set (sc_pressure sc))
          (obs_ids obs_metrics metric_id (sc_observability sc))
          (obs_ids obs_dashboards dashboard_id (sc_observability sc)) (milestone_trigger m)
        \<and> set (milestone_camera_focus m) \<subseteq> focusable_ids sc
        \<and> set_option (milestone_highlight m) \<subseteq> focusable_ids sc)"

definition refs_ok :: "sl1_scene \<Rightarrow> bool" where
  "refs_ok sc \<longleftrightarrow> catalogue_refs sc \<and> flow_refs sc \<and> goal_refs sc \<and> view_refs sc"

lemma validate_place_states:
  assumes "validate_place r = Inr p" and "(n, os) \<in> set (place_operating_states p)"
  shows "state_refs p os"
proof -
  obtain states where st: "emap (validate_operating_state (rp_id r) (rp_capacity r)) (rp_operating_states r) = Inr states"
    and p: "place_operating_states p = bt_collect states" "place_capacity p = rp_capacity r"
    using assms(1) by (auto simp: validate_place_def Let_def load_simps split: if_splits)
  have "bt_get (bt_collect states) n = Some os" using assms(2) by (simp add: p bt_wf_get)
  then have "(n, os) \<in> set states" by (rule bt_get_collect_SomeD)
  with st [unfolded emap_Inr] have "\<exists>e. validate_operating_state (rp_id r) (rp_capacity r) e = Inr (n, os)"
    by (induction rule: list_all2_induct) auto
  then obtain e where "validate_operating_state (rp_id r) (rp_capacity r) e = Inr (n, os)" ..
  then have "(case os_predicate os of
      UsedPercentGte metric _ \<Rightarrow>
        require (bt_has (rp_capacity r) metric) (PlacePredicateUnknownMetric (rp_id r) n metric)
    | OverloadedTicksGt _ \<Rightarrow> Inr ()) = Inr ()"
    by (auto simp: validate_operating_state_def ebind_Inr split: prod.splits if_splits)
  then show ?thesis
    by (cases "os_predicate os") (simp_all add: state_refs_def p load_simps)
qed

lemma validate_transform_buckets:
  assumes "validate_transform (places_map places) ids r = Inr t"
  shows "\<exists>p \<in> set places. place_id p = transform_runs_on t
    \<and> (\<forall>k \<in> set (bt_keys (transform_capacity_cost t)). bt_has (place_capacity p) k)"
proof -
  from assms obtain place where p: "bt_get (places_map places) (rx_runs_on r) = Some place"
    and cc: "\<forall>e \<in> set (rx_capacity_cost r). check_capacity_cost r place e = Inr ()"
    and t: "transform_runs_on t = rx_runs_on r" "transform_capacity_cost t = rx_capacity_cost r"
    by (auto simp: validate_transform_def Let_def load_simps split: if_splits option.splits)
  have "bt_has (place_capacity place) k" if "k \<in> set (bt_keys (rx_capacity_cost r))" for k
    using that cc by (force simp: check_capacity_cost_Inr)
  with places_map_SomeD [OF p] t show ?thesis by auto
qed

lemma validate_pressure_unsupported:
  assumes "validate_pressure (places_map (sc_places sc)) (thing_id ` set (sc_things sc)) demand_ids link_ids r = Inr p"
  shows "unsupported_refs sc p"
proof -
  obtain kind params where k: "validate_pressure_params (places_map (sc_places sc)) (thing_id ` set (sc_things sc))
      demand_ids link_ids kind r = Inr params"
    and p: "pressure_kind p = kind" "pressure_params p = params" "pressure_target p = rpr_target r"
    using assms by (auto simp: validate_pressure_def Let_def load_simps split: if_splits)
  from k show ?thesis unfolding unsupported_refs_def p
    by (cases kind) (auto simp: validate_pressure_params_def validate_source_multiplier_def
        validate_demand_growth_def validate_quota_reduction_def validate_path_outage_def
        validate_unsupported_def Let_def load_simps split: if_splits option.splits dest!: bt_has_places_map)
qed

lemma accepted_catalogue_refs:
  assumes "validate raw = Inr sc"
  shows "catalogue_refs sc"
proof -
  note pl = load_section_item [OF accepted_sections(2) [OF assms]]
  note ln = load_section_item [OF accepted_sections(3) [OF assms]]
  have p: "set (bt_keys (place_storage p)) \<subseteq> thing_id ` set (sc_things sc)
        \<and> (\<forall>v \<in> set (place_accepts p) \<union> set (place_produces p). thing_or_tag sc v)"
    if "p \<in> set (sc_places sc)" for p
    using pl [OF that] unfolding place_refs_Inr thing_or_tag_def by blast
  have s: "\<forall>(n, os) \<in> set (place_operating_states p). state_refs p os" if "p \<in> set (sc_places sc)" for p
    using pl [OF that] by (auto dest: validate_place_states)
  have l: "link_from l \<in> place_id ` set (sc_places sc) \<and> link_to l \<in> place_id ` set (sc_places sc)
        \<and> link_from l \<noteq> link_to l \<and> (\<forall>v \<in> set (link_compatibility l). thing_or_tag sc v)"
    if "l \<in> set (sc_links sc)" for l
    using ln [OF that] unfolding link_refs_Inr thing_or_tag_def by (blast dest: validate_link_ok)
  show ?thesis using p s l by (simp add: catalogue_refs_def)
qed

lemma accepted_transform:
  assumes "validate raw = Inr sc" and "t \<in> set (sc_transforms sc)"
  obtains r where "r \<in> set (rs_transforms raw)"
    "validate_transform (places_map (sc_places sc)) (thing_id ` set (sc_things sc)) r = Inr t"
  using load_section_item [OF accepted_sections(4) [OF assms(1)] assms(2)] by blast

lemma accepted_flow_refs:
  assumes "raw_wf raw" and "validate raw = Inr sc"
  shows "flow_refs sc"
proof -
  note dm = load_section_item [OF accepted_sections(5) [OF assms(2)]]
  note pr = load_section_item [OF accepted_sections(6) [OF assms(2)]]
  have "transform_runs_on t \<in> place_id ` set (sc_places sc) \<and> transform_outputs t \<noteq> []
        \<and> io_thing_id ` (set (transform_inputs t) \<union> set (transform_outputs t))
            \<subseteq> thing_id ` set (sc_things sc)
        \<and> (\<exists>p \<in> set (sc_places sc). place_id p = transform_runs_on t
            \<and> (\<forall>k \<in> set (bt_keys (transform_capacity_cost t)). bt_has (place_capacity p) k))"
    if t: "t \<in> set (sc_transforms sc)" for t
  proof -
    from assms(2) t obtain r where r: "r \<in> set (rs_transforms raw)"
      "validate_transform (places_map (sc_places sc)) (thing_id ` set (sc_things sc)) r = Inr t"
      by (rule accepted_transform)
    then have "bt_wf (rx_capacity_cost r)" using assms(1) by (simp add: raw_wf_def list_all_iff)
    note v = validate_transform_ok [OF r(2) this]
    show ?thesis using v(3-6) validate_transform_buckets [OF r(2)] by (simp add: image_Un)
  qed
  moreover have "target_place (demand_target d) \<in> place_id ` set (sc_places sc)
        \<and> set (demand_requires d) \<subseteq> thing_id ` set (sc_things sc)" if "d \<in> set (sc_demand sc)" for d
    using dm [OF that] by (blast dest: validate_demand_ok)
  moreover have "pressure_refs (sc_places sc) (thing_id ` set (sc_things sc)) (demand_id ` set (sc_demand sc))
          (link_id ` set (sc_links sc)) (pressure_target p) (pressure_params p)
        \<and> unsupported_refs sc p
        \<and> unat (pressure_at_tick p) + unat (pressure_duration_ticks p) \<le> unat MAX_PRESSURE_TICKS"
    if "p \<in> set (sc_pressure sc)" for p
    using pr [OF that] by (blast dest: validate_pressure_ok validate_pressure_unsupported)
  ultimately show ?thesis by (simp add: flow_refs_def)
qed

lemma accepted_goal_refs:
  assumes "validate raw = Inr sc"
  shows "goal_refs sc"
  using load_section_item [OF accepted_sections(7) [OF assms]]
    load_section_item [OF accepted_sections(8) [OF assms]]
  unfolding goal_refs_def by (blast dest: validate_objective_ok validate_failure_condition_ok)

lemma accepted_obs:
  assumes "validate raw = Inr sc" and "sc_observability sc = Some obs"
  obtains r where "validate_observability (sc_places sc) (sc_things sc) r = Inr obs"
  using accepted_sections(10) [OF assms(1)] assms(2) by (auto simp: traverse_option_Inr option_rel_Some2)

lemma accepted_view_refs:
  assumes "validate raw = Inr sc"
  shows "view_refs sc"
proof -
  have "obs_refs (sc_places sc) (thing_id ` set (sc_things sc)) obs" if "sc_observability sc = Some obs" for obs
    using assms that by (rule accepted_obs) (rule validate_observability_ok)
  then have "case sc_observability sc of None \<Rightarrow> True
      | Some obs \<Rightarrow> obs_refs (sc_places sc) (thing_id ` set (sc_things sc)) obs"
    by (simp split: option.split)
  moreover note load_section_item [OF accepted_sections(11) [OF assms]]
    load_section_item [OF accepted_sections(12) [OF assms]]
  ultimately show ?thesis
    unfolding view_refs_def by (blast dest: validate_agent_ok validate_milestone_ok)
qed

lemma accepted_refs: "raw_wf raw \<Longrightarrow> validate raw = Inr sc \<Longrightarrow> refs_ok sc"
  by (simp add: refs_ok_def accepted_catalogue_refs accepted_flow_refs accepted_goal_refs accepted_view_refs)

section \<open>Acceptance establishes the invariant of the runtime\<close>

lemma observability_ok_refs:
  assumes "validate_observability (sc_places sc) (sc_things sc) r = Inr obs"
  shows "observability_ok sc obs"
proof -
  note v = validate_observability_ok [OF assms]
  have "metric_ok sc obs (metric_source m)" if "m \<in> set (obs_metrics obs)" for m
  proof -
    have "metric_refs (sc_places sc) (dashboard_id ` set (obs_dashboards obs)) (metric_source m)"
      using v(4) that by (simp add: obs_refs_def)
    then show ?thesis by (cases "metric_source m") auto
  qed
  with v show ?thesis by (auto simp: observability_ok_def strict_sorted_iff obs_refs_def)
qed

lemma accepted_scene_ok:
  assumes "raw_wf raw" and "validate raw = Inr sc"
  shows "scene_ok sc"
proof -
  note items = load_section_item [OF accepted_sections(2) [OF assms(2)]]
    load_section_item [OF accepted_sections(5) [OF assms(2)]]
    load_section_item [OF accepted_sections(6) [OF assms(2)]]
    load_section_item [OF accepted_sections(11) [OF assms(2)]]
  have p: "\<forall>p \<in> set (sc_places sc). place_ok p"
    using items(1) assms(1) by (auto simp: raw_wf_def list_all_iff dest: validate_place_ok)
  have t: "\<forall>t \<in> set (sc_transforms sc). transform_ok sc t"
  proof
    fix t assume t: "t \<in> set (sc_transforms sc)"
    from assms(2) t obtain r where r: "r \<in> set (rs_transforms raw)"
      "validate_transform (places_map (sc_places sc)) (thing_id ` set (sc_things sc)) r = Inr t"
      by (rule accepted_transform)
    then have "bt_wf (rx_capacity_cost r)" using assms(1) by (simp add: raw_wf_def list_all_iff)
    with r(2) show "transform_ok sc t" by (rule validate_transform_ok)
  qed
  have d: "\<forall>d \<in> set (sc_demand sc). demand_ok d" using items(2) by (blast dest: validate_demand_ok)
  have pr: "\<forall>p \<in> set (sc_pressure sc). pressure_ok p" using items(3) by (blast dest: validate_pressure_ok)
  have a: "\<forall>a \<in> set (sc_agents sc). 0 < agent_interval_ticks a"
    using items(4) by (blast dest: validate_agent_ok)
  have "observability_ok sc obs" if "sc_observability sc = Some obs" for obs
    using assms(2) that by (rule accepted_obs) (rule observability_ok_refs)
  then have o: "case sc_observability sc of None \<Rightarrow> True | Some obs \<Rightarrow> observability_ok sc obs"
    by (simp split: option.split)
  have "distinct (map place_id (sc_places sc))"
    using accepted_sorted(2) [OF assms(2)] by (simp add: strict_sorted_iff)
  then show ?thesis
    unfolding scene_ok_def
    using p t d pr a o accepted_sorted [OF assms(2)] accepted_transform_count [OF assms(2)] by blast
qed

section \<open>Declaration order\<close>

definition same_items :: "'v raw_scene \<Rightarrow> 'v raw_scene \<Rightarrow> bool" where
  "same_items raw raw' \<longleftrightarrow>
     rs_schema_version raw = rs_schema_version raw' \<and> rs_extra raw = rs_extra raw'
     \<and> mset (rs_places raw) = mset (rs_places raw') \<and> mset (rs_links raw) = mset (rs_links raw')
     \<and> mset (rs_things raw) = mset (rs_things raw') \<and> mset (rs_transforms raw) = mset (rs_transforms raw')
     \<and> mset (rs_demand raw) = mset (rs_demand raw') \<and> mset (rs_pressure raw) = mset (rs_pressure raw')
     \<and> mset (rs_objectives raw) = mset (rs_objectives raw')
     \<and> mset (rs_failure_conditions raw) = mset (rs_failure_conditions raw')
     \<and> mset (rs_victory_conditions raw) = mset (rs_victory_conditions raw')
     \<and> mset (rs_agents raw) = mset (rs_agents raw') \<and> mset (rs_milestones raw) = mset (rs_milestones raw')
     \<and> rs_observability raw = rs_observability raw'"

lemma same_items_schema:
  assumes "same_items raw raw'" and "check_schema raw = Inr u"
  shows "check_schema raw' = Inr u"
proof -
  have "section_sizes raw' = section_sizes raw"
    using assms(1) by (auto simp: section_sizes_def same_items_def dest: mset_eq_length)
  with assms show ?thesis by (simp add: check_schema_Inr same_items_def)
qed

lemma accepted_any_order:
  assumes "same_items raw raw'" and "validate raw = Inr sc"
  shows "validate raw' = Inr sc"
proof -
  note s = accepted_sections [OF assms(2)]
  note m = assms(1) [unfolded same_items_def]
  have "check_schema raw' = Inr ()" "sc_schema_version sc = rs_schema_version raw'"
    using assms same_items_schema [OF assms(1)] by (auto simp: validate_Inr same_items_def)
  moreover note load_section_order [OF s(1), of "rs_things raw'"] load_section_order [OF s(2), of "rs_places raw'"]
    load_section_order [OF s(3), of "rs_links raw'"] load_section_order [OF s(4), of "rs_transforms raw'"]
    load_section_order [OF s(5), of "rs_demand raw'"] load_section_order [OF s(6), of "rs_pressure raw'"]
    load_section_order [OF s(7), of "rs_objectives raw'"]
    load_section_order [OF s(8), of "rs_failure_conditions raw'"]
    load_section_order [OF s(9), of "rs_victory_conditions raw'"]
    load_section_order [OF s(11), of "rs_agents raw'"] load_section_order [OF s(12), of "rs_milestones raw'"]
  ultimately show ?thesis
    unfolding validate_Inr load_things_def load_places_def load_links_def load_transforms_def
      load_demand_def load_pressure_def load_objectives_def load_failure_conditions_def
      load_victory_conditions_def load_observability_def load_agents_def load_milestones_def lift_err_Inr
    using m s(10) by simp
qed

end
