(* ===== verification/Load_Demo.thy ===== *)
theory Load_Demo
  imports Validate Demo
begin

text \<open>
  The input that loads as the demonstration scene, with the items of its sections
  declared out of order.
\<close>

definition raw_demo_place :: raw_place where
  "raw_demo_place =
     \<lparr>rp_id = ''yard'', rp_role = ''refinery'', rp_pos = (0, 0), rp_shape = None, rp_color = None,
      rp_capacity = [(''slots'', 10)],
      rp_storage =
        [(''gas'', \<lparr>rss_capacity = 60, rss_initial = 0\<rparr>),
         (''ore'', \<lparr>rss_capacity = 100, rss_initial = 25\<rparr>)],
      rp_accepts = [''ore''], rp_produces = [''gas''], rp_failure_domains = [],
      rp_operating_states =
        [(''busy'', \<lparr>ros_when = '' slots.used_percent >= 40'', ros_grace_ticks = None\<rparr>)]\<rparr>"

definition raw_demo_thing :: "string \<Rightarrow> u64 option \<Rightarrow> raw_thing" where
  "raw_demo_thing i budget =
     \<lparr>rth_id = i, rth_kind = ''fluid'', rth_tags = [], rth_schema_version = None,
      rth_freshness_budget_ticks = budget, rth_quality_contract = None, rth_render = None\<rparr>"

definition raw_demo_transform :: raw_transform where
  "raw_demo_transform =
     \<lparr>rx_id = ''refine'', rx_kind = ''batch'', rx_runs_on = ''yard'',
      rx_inputs = [\<lparr>rio_thing = ''ore'', rio_amount = 10\<rparr>],
      rx_outputs = [\<lparr>rio_thing = ''gas'', rio_amount = 20\<rparr>],
      rx_cadence_ticks = 2, rx_duration_ticks = 1, rx_deadline_ticks = 2,
      rx_capacity_cost = [(''slots'', 4)], rx_failure_policy = ''retry_then_warn'',
      rx_max_attempts = 3\<rparr>"

definition raw_demo_demand :: raw_demand where
  "raw_demo_demand =
     \<lparr>rd_id = ''feed'', rd_kind = ''order'', rd_target = \<lparr>rdt_kind = ''place'', rdt_id = ''yard''\<rparr>,
      rd_requires = [''gas''],
      rd_spawn_schedule = \<lparr>rds_kind = ''fixed'', rds_every_ticks = Some 1, rds_start_tick = Some 1,
        rds_ticks = None\<rparr>,
      rd_deadline_ticks = 1, rd_priority = ''normal'', rd_value = 5,
      rd_penalty = \<lparr>rdp_score = -1, rdp_warning = None\<rparr>\<rparr>"

definition raw_demo_surge :: raw_pressure where
  "raw_demo_surge =
     \<lparr>rpr_id = ''surge'', rpr_kind = ''demand_growth'', rpr_at_tick = 2, rpr_duration_ticks = 2,
      rpr_target = ''feed'', rpr_thing = None, rpr_multiplier = None,
      rpr_spawn_multiplier = Some 2, rpr_capacity = None, rpr_reduction_percent = None\<rparr>"

definition raw_demo_cut :: raw_pressure where
  "raw_demo_cut =
     \<lparr>rpr_id = ''cut'', rpr_kind = ''quota_reduction'', rpr_at_tick = 1, rpr_duration_ticks = 3,
      rpr_target = ''yard'', rpr_thing = None, rpr_multiplier = None,
      rpr_spawn_multiplier = None, rpr_capacity = Some ''slots'', rpr_reduction_percent = Some 50\<rparr>"

definition raw_demo_objective :: raw_objective where
  "raw_demo_objective =
     \<lparr>ro_id = ''fresh_gas'', ro_kind = ''keep_fresh'', ro_weight = None, ro_place = Some ''yard'',
      ro_thing = Some ''gas'', ro_max_stale_ticks = Some 2, ro_demand = None, ro_max_missed = None,
      ro_capacity = None, ro_min_percent = None, ro_max_percent = None, ro_max_cost = None,
      ro_max_contract_violations = None, ro_p95_max_ticks = None, ro_target = None\<rparr>"

definition raw_demo_failure :: raw_failure_condition where
  "raw_demo_failure =
     \<lparr>rfc_id = ''overrun'', rfc_kind = ''objective_breach_count'', rfc_place = None, rfc_thing = None,
      rfc_threshold_ticks = None, rfc_grace_ticks = None, rfc_state = None,
      rfc_objective_id = Some ''fresh_gas'', rfc_max_count = Some 3\<rparr>"

definition raw_demo_agent :: "string \<Rightarrow> string \<Rightarrow> raw_agent" where
  "raw_demo_agent i k =
     \<lparr>ra_id = i, ra_kind = k, ra_role = ''ops'', ra_interval_ticks = 2,
      ra_observation_scope = [''demand:feed''], ra_allowed_actions = [''throttle_demand''],
      ra_budgets = \<lparr>rab_max_cost_per_decision = 1, rab_cooldown_ticks = 4\<rparr>,
      ra_objective_weights = []\<rparr>"

definition raw_demo_observability :: raw_observability where
  "raw_demo_observability =
     \<lparr>rob_metrics =
        [\<lparr>rm_id = ''gas'', rm_source = ''place_inventory_count'', rm_place = Some ''yard'',
          rm_capacity = None, rm_thing = Some ''gas'', rm_dashboard = None\<rparr>,
         \<lparr>rm_id = ''age'', rm_source = ''dashboard_freshness'', rm_place = None, rm_capacity = None,
          rm_thing = None, rm_dashboard = Some ''board''\<rparr>],
      rob_dashboards =
        [\<lparr>rdb_id = ''board'', rdb_kind = ''live'', rdb_depends_on = [''gas''],
          rdb_freshness_slo_ticks = 3\<rparr>],
      rob_alerts =
        [\<lparr>ral_id = ''low'', ral_metric = ''gas'', ral_predicate = RawLt 10, ral_severity = ''warning''\<rparr>]\<rparr>"

definition raw_demo_milestone :: raw_milestone where
  "raw_demo_milestone =
     \<lparr>rms_id = ''after_surge'', rms_trigger = RawPressureDeactivated ''surge'', rms_label = ''calm'',
      rms_camera_focus = None, rms_highlight = None\<rparr>"

definition raw_demo_milestone2 :: raw_milestone where
  "raw_demo_milestone2 =
     \<lparr>rms_id = ''gas_up'', rms_trigger = RawMetricThreshold ''gas'' ''gte'' 20, rms_label = ''gas'',
      rms_camera_focus = Some [''yard''], rms_highlight = None\<rparr>"

definition raw_demo :: "unit raw_scene" where
  "raw_demo =
     \<lparr>rs_schema_version = default_sl1_schema_version, rs_places = [raw_demo_place], rs_links = [],
      rs_things = [raw_demo_thing ''ore'' None, raw_demo_thing ''gas'' (Some 2)],
      rs_transforms = [raw_demo_transform], rs_demand = [raw_demo_demand],
      rs_pressure = [raw_demo_surge, raw_demo_cut], rs_objectives = [raw_demo_objective],
      rs_failure_conditions = [raw_demo_failure],
      rs_victory_conditions = [\<lparr>rvc_id = ''hold'', rvc_kind = ''survive_until'', rvc_at_tick = Some 3\<rparr>],
      rs_agents = [raw_demo_agent ''zed'' ''llm'', raw_demo_agent ''planner'' ''mock''],
      rs_observability = Some raw_demo_observability,
      rs_milestones = [raw_demo_milestone2, raw_demo_milestone],
      rs_catalog = None, rs_extra = []\<rparr>"

text \<open>The same items in another order.\<close>

definition raw_demo_sorted :: "unit raw_scene" where
  "raw_demo_sorted = raw_demo
     \<lparr>rs_things := [raw_demo_thing ''gas'' (Some 2), raw_demo_thing ''ore'' None],
      rs_pressure := [raw_demo_cut, raw_demo_surge],
      rs_agents := [raw_demo_agent ''planner'' ''mock'', raw_demo_agent ''zed'' ''llm'']\<rparr>"

lemma raw_demo_wf: "raw_wf raw_demo"
  by (simp add: raw_wf_def raw_demo_def raw_place_wf_def raw_demo_place_def raw_demo_transform_def
      raw_demo_agent_def bt_wf_def)

lemma raw_demo_same: "same_items raw_demo raw_demo_sorted"
  by (simp add: same_items_def raw_demo_def raw_demo_sorted_def)

lemma raw_demo_schema: "check_schema raw_demo = Inr ()"
  by (simp add: check_schema_Inr raw_demo_def default_sl1_schema_version_def section_sizes_def
      MAX_SL1_ITEMS_PER_SECTION_def)

lemma raw_demo_sections:
  shows "load_things raw_demo = Inr (sc_things demo)"
    and "load_places (sc_things demo) raw_demo = Inr (sc_places demo)"
    and "load_links (sc_things demo) (sc_places demo) raw_demo = Inr (sc_links demo)"
    and "load_transforms (sc_things demo) (sc_places demo) raw_demo = Inr (sc_transforms demo)"
    and "load_demand (sc_things demo) (sc_places demo) raw_demo = Inr (sc_demand demo)"
    and "load_pressure (sc_things demo) (sc_places demo) (sc_links demo) (sc_demand demo) raw_demo
      = Inr (sc_pressure demo)"
    and "load_objectives (sc_things demo) (sc_places demo) (sc_transforms demo) (sc_demand demo) raw_demo
      = Inr (sc_objectives demo)"
    and "load_failure_conditions (sc_things demo) (sc_places demo) (sc_objectives demo) raw_demo
      = Inr (sc_failure_conditions demo)"
    and "load_victory_conditions raw_demo = Inr (sc_victory_conditions demo)"
    and "load_observability (sc_things demo) (sc_places demo) raw_demo = Inr (sc_observability demo)"
    and "load_agents (scope_of (sc_places demo) (sc_transforms demo) (sc_demand demo) (sc_observability demo))
      (sc_objectives demo) raw_demo = Inr (sc_agents demo)"
    and "load_milestones demo raw_demo = Inr (sc_milestones demo)"
  by code_simp+

lemma raw_demo_accepted: "validate raw_demo = Inr demo"
proof -
  have "sc_schema_version demo = rs_schema_version raw_demo" by code_simp
  then show ?thesis by (simp add: validate_Inr raw_demo_schema raw_demo_sections)
qed

end
