(* ===== verification/Load_Format.thy ===== *)
theory Load_Format
  imports Load_Views Load_Places
begin

text \<open>
  The small text formats of the scene language: decimal numbers, the two templates of an
  operating-state predicate, the \<open>kind:id\<close> entries of an agent's observation scope, and the
  names of the enums. What the engine writes with \<open>as_str\<close> and \<open>format!\<close> the loader
  reads back.
\<close>

section \<open>Decimal numbers\<close>

lemma of_char_digit: "n < 10 \<Longrightarrow> (of_char (char_of (48 + n) :: char) :: int) = 48 + int n"
proof -
  assume "n < 10"
  then have "(of_char (char_of (48 + n) :: char) :: nat) = 48 + n" by (simp add: of_char_of)
  then have "int (of_char (char_of (48 + n) :: char)) = 48 + int n" by simp
  then show ?thesis by (simp only: of_nat_of_char)
qed

lemma is_digit_digit: "n < 10 \<Longrightarrow> is_digit (char_of (48 + n :: nat))"
  by (simp add: is_digit_def less_eq_char_def of_char_of)

lemma digits_value_snoc: "digits_value (ds @ [c]) = 10 * digits_value ds + (of_char c - 48)"
  by (simp add: digits_value_def)

lemma digits_value_dec_nat: "digits_value (dec_nat n) = int n"
proof (induction n rule: dec_nat.induct)
  case (1 n)
  show ?case
  proof (cases "n < 10")
    case True
    then show ?thesis by (subst dec_nat.simps) (simp add: digits_value_def of_char_digit)
  next
    case False
    have "digits_value (dec_nat n) = 10 * digits_value (dec_nat (n div 10)) + int (n mod 10)"
      using False by (subst dec_nat.simps) (simp add: digits_value_snoc of_char_digit)
    with 1 False have "digits_value (dec_nat n) = 10 * int (n div 10) + int (n mod 10)" by simp
    moreover have "10 * int (n div 10) + int (n mod 10) = int n" by presburger
    ultimately show ?thesis by simp
  qed
qed

lemma dec_nat_digits: "list_all is_digit (dec_nat n)"
proof (induction n rule: dec_nat.induct)
  case (1 n)
  show ?case
  proof (cases "n < 10")
    case True
    then show ?thesis by (subst dec_nat.simps) (simp add: is_digit_digit)
  next
    case False
    then show ?thesis using 1 by (subst dec_nat.simps) (simp add: is_digit_digit)
  qed
qed

lemma dec_nat_nonempty: "dec_nat n \<noteq> []"
  by (subst dec_nat.simps) simp

lemma starts_with_set: "starts_with p s \<Longrightarrow> set p \<subseteq> set s"
  by (induction p s rule: starts_with.induct) auto

lemma parse_u64_dec: "parse_u64 (dec w) = Some w"
proof -
  have "\<not> is_digit (CHR ''+'')" by (simp add: is_digit_def less_eq_char_def)
  then have "CHR ''+'' \<notin> set (dec w)"
    using dec_nat_digits [of "unat w"] by (auto simp: dec_def list_all_iff)
  then have "\<not> starts_with ''+'' (dec w)" using starts_with_set [of "''+''" "dec w"] by auto
  moreover have "int (unat w) < 2 ^ 64"
    using uint_lt2p [of w] by simp
  ultimately show ?thesis
    by (simp add: parse_u64_def Let_def dec_def dec_nat_nonempty dec_nat_digits digits_value_dec_nat)
qed

section \<open>Trimming and splitting\<close>

definition plain :: "char \<Rightarrow> bool" where
  "plain c \<longleftrightarrow> (\<forall>w \<in> set white_space. hd w \<noteq> c \<and> last w \<noteq> c)"

lemma plain_ascii: "32 < (of_char c :: nat) \<Longrightarrow> (of_char c :: nat) < 128 \<Longrightarrow> plain c"
  by (auto simp: plain_def white_space_def)

lemma starts_with_hd: "starts_with w s \<Longrightarrow> w \<noteq> [] \<Longrightarrow> s \<noteq> [] \<and> hd w = hd s"
  by (cases w; cases s) auto

lemma strip_ws_plain:
  assumes "\<forall>w \<in> set ws. w \<noteq> [] \<and> (s \<noteq> [] \<longrightarrow> hd w \<noteq> hd s)"
  shows "strip_ws_fuel n ws s = s"
proof (cases n)
  case (Suc k)
  have "find (\<lambda>w. starts_with w s) ws = None"
    using assms starts_with_hd by (force simp: find_None_iff)
  then show ?thesis by (simp add: Suc)
qed simp

lemma white_space_nonempty: "w \<in> set white_space \<Longrightarrow> w \<noteq> []"
  by (auto simp: white_space_def)

lemma trim_start_plain: "s = [] \<or> plain (hd s) \<Longrightarrow> trim_start s = s"
  unfolding trim_start_def by (rule strip_ws_plain) (auto simp: plain_def white_space_nonempty)

lemma trim_end_plain: "s = [] \<or> plain (last s) \<Longrightarrow> trim_end s = s"
  unfolding trim_end_def
  by (subst strip_ws_plain) (auto simp: plain_def white_space_nonempty hd_rev)

lemma trim_start_space: "trim_start (CHR '' '' # s) = trim_start s"
  by (simp add: trim_start_def white_space_def)

lemma trim_end_space: "trim_end (s @ '' '') = trim_end s"
  by (simp add: trim_end_def white_space_def)

lemma trim_plain: "s = [] \<or> plain (hd s) \<and> plain (last s) \<Longrightarrow> trim s = s"
  by (auto simp: trim_def trim_start_plain trim_end_plain)

lemma split_once_at:
  assumes "c \<notin> set u"
  shows "split_once (c # p) (u @ (c # p) @ v) = Some (u, v)"
  using assms
proof (induction u)
  case Nil
  have "starts_with p (p @ v)" by (induction p) auto
  then show ?case by simp
qed auto

lemma split_once_None: "c \<in> set p \<Longrightarrow> c \<notin> set s \<Longrightarrow> split_once p s = None"
proof (induction s)
  case (Cons a s)
  then have "\<not> starts_with p (a # s)" using starts_with_set by (meson subsetD)
  with Cons show ?case by simp
qed simp

lemma strip_suffix_append: "strip_suffix p (x @ p) = Some x"
  by (simp add: strip_suffix_def)

lemma valid_id_char:
  assumes "is_valid_sl1_id m" and "c \<in> set m"
  shows "32 < (of_char c :: nat)" "(of_char c :: nat) < 128" "c \<noteq> CHR ''>''" "c \<noteq> CHR '':''"
  using assms by (auto simp: is_valid_sl1_id_def is_ascii_alphanumeric_def list_all_iff less_eq_char_def)

lemma digit_char: "is_digit c \<Longrightarrow> plain c \<and> c \<noteq> CHR ''=''"
  by (auto simp: is_digit_def less_eq_char_def intro!: plain_ascii)

lemma trim_dec: "trim (dec w) = dec w"
proof (rule trim_plain)
  have "hd (dec w) \<in> set (dec w)" "last (dec w) \<in> set (dec w)"
    by (simp_all add: dec_def dec_nat_nonempty)
  then show "dec w = [] \<or> plain (hd (dec w)) \<and> plain (last (dec w))"
    using dec_nat_digits [of "unat w"] digit_char by (auto simp: dec_def list_all_iff)
qed

lemma parse_predicate_used_percent:
  assumes m: "is_valid_sl1_id m" and n: "n \<le> SL1_PERCENT_MAX"
  shows "parse_predicate p s (m @ ''.used_percent >= '' @ dec n) = Inr (UsedPercentGte m n)"
proof -
  let ?w = "m @ ''.used_percent >= '' @ dec n"
  have ne: "m \<noteq> []" using m by (simp add: is_valid_sl1_id_def)
  have pm: "plain c" if "c \<in> set m" for c using valid_id_char(1,2) [OF m that] by (rule plain_ascii)
  have hm: "plain (hd m)" "plain (last m)" using pm ne by simp_all
  have dec: "plain (last (dec n))" "dec n \<noteq> []"
    using dec_nat_digits [of "unat n"] digit_char dec_nat_nonempty [of "unat n"]
    by (auto simp: dec_def list_all_iff)
  have t: "trim ?w = ?w" by (rule trim_plain) (use hm dec ne in simp)
  have w: "?w = (m @ ''.used_percent '') @ ''>='' @ ('' '' @ dec n)" by simp
  have gt: "CHR ''>'' \<notin> set (m @ ''.used_percent '')" using valid_id_char(3) [OF m] by auto
  have sp: "split_once ''>='' ?w = Some (m @ ''.used_percent '', '' '' @ dec n)"
    unfolding w by (rule split_once_at [OF gt])
  have "plain (CHR ''t'')" by (rule plain_ascii) simp_all
  then have "trim_end (m @ ''.used_percent'') = m @ ''.used_percent''" by (intro trim_end_plain) simp
  moreover have "trim_start (m @ ''.used_percent '') = m @ ''.used_percent ''"
    by (rule trim_start_plain) (use hm ne in simp)
  ultimately have l: "trim (m @ ''.used_percent '') = m @ ''.used_percent''"
    using trim_end_space [of "m @ ''.used_percent''"] by (simp add: trim_def)
  have r: "trim ('' '' @ dec n) = dec n"
    using trim_dec [of n] by (simp add: trim_def trim_start_space)
  have tm: "trim m = m" by (rule trim_plain) (use hm in simp)
  have pu: "parse_used_percent ?w = Some (m, dec n)"
    unfolding parse_used_percent_def sp by (simp only: option.case prod.case l strip_suffix_append tm m r if_True)
  have d: "dec n = dec (ucast n :: u64)" by (simp add: dec_def unat_ucast_up)
  have b: "\<not> ucast SL1_PERCENT_MAX < (ucast n :: u64)"
    using n by (simp add: word_less_nat_alt word_le_nat_alt unat_ucast_up)
  have "unat (ucast n :: u64) = unat n" by (rule unat_ucast_up) simp
  then have "unat (ucast (ucast n :: u64) :: u8) = unat n"
    using unat_lt [of n] by (simp only: unat_ucast_mod [where 'b = 8 and x = "ucast n :: u64"]) simp
  then have u: "ucast (ucast n :: u64) = n" by (simp add: word_unat_eq_iff)
  show ?thesis
    unfolding parse_predicate_def Let_def t pu by (simp add: d parse_u64_dec b u)
qed

lemma parse_predicate_overloaded:
  "parse_predicate p s (''overloaded_ticks > '' @ dec t) = Inr (OverloadedTicksGt t)"
proof -
  let ?w = "''overloaded_ticks > '' @ dec t"
  have dec: "plain (last (dec t))" "dec t \<noteq> []" "CHR ''='' \<notin> set (dec t)"
    using dec_nat_digits [of "unat t"] digit_char dec_nat_nonempty [of "unat t"]
    by (auto simp: dec_def list_all_iff)
  have "plain (CHR ''o'')" by (rule plain_ascii) simp_all
  then have t: "trim ?w = ?w" by (intro trim_plain) (use dec in simp)
  have "split_once ''>='' ?w = None"
    by (rule split_once_None [of "CHR ''=''"]) (use dec in simp_all)
  then have pu: "parse_used_percent ?w = None" by (simp add: parse_used_percent_def)
  have w: "?w = ''overloaded_ticks '' @ ''>'' @ ('' '' @ dec t)" by simp
  have sp: "split_once ''>'' ?w = Some (''overloaded_ticks '', '' '' @ dec t)"
    unfolding w by (rule split_once_at) simp
  have l: "trim ''overloaded_ticks '' = ''overloaded_ticks''" by code_simp
  have r: "trim ('' '' @ dec t) = dec t"
    using trim_dec [of t] by (simp add: trim_def trim_start_space)
  have e: "\<not> starts_with ''='' (dec t)" using starts_with_set [of "''=''" "dec t"] dec(3) by auto
  have po: "parse_overloaded ?w = Some (dec t)"
    unfolding parse_overloaded_def sp by (simp only: option.case prod.case l r e simp_thms if_True)
  show ?thesis
    unfolding parse_predicate_def Let_def t pu po by (simp add: parse_u64_dec)
qed

lemma split_once_colon: "CHR '':'' \<notin> set k \<Longrightarrow> split_once '':'' (k @ '':'' @ t) = Some (k, t)"
  using split_once_at [of "CHR '':''" k "[]" t] by simp

lemma parse_scope_entry:
  assumes "target_known sids t" and "obs_id t \<noteq> []"
  shows "parse_observation_target i sids (obs_kind_str t @ '':'' @ obs_id t) = Inr t"
proof -
  have "CHR '':'' \<notin> set (obs_kind_str t)" by (cases t) auto
  then have s: "split_once '':'' (obs_kind_str t @ '':'' @ obs_id t) = Some (obs_kind_str t, obs_id t)"
    by (rule split_once_colon)
  show ?thesis
    unfolding parse_observation_target_def s using assms
    by (cases t) (simp_all add: known_target_def)
qed

lemma names_parse:
  "pressure_kind_from_str i (pressure_kind_str pk) = Inr pk"
  "objective_kind_from_str i (objective_kind_str ok) = Inr ok"
  "parse_action_kind i (action_kind_str ak) = Inr ak"
  "parse_severity i (severity_str sv) = Inr sv"
  "predicate_from_str (predicate_str mp) = Some mp"
  "dashboard_state_from_str (dashboard_state_str ds) = Some ds"
proof -
  show "pressure_kind_from_str i (pressure_kind_str pk) = Inr pk"
    by (cases pk) (simp_all add: pressure_kind_from_str_def)
  show "objective_kind_from_str i (objective_kind_str ok) = Inr ok"
    by (cases ok) (simp_all add: objective_kind_from_str_def)
  show "parse_action_kind i (action_kind_str ak) = Inr ak"
    by (cases ak) (simp_all add: parse_action_kind_def)
  show "parse_severity i (severity_str sv) = Inr sv"
    by (cases sv) (simp_all add: parse_severity_def)
  show "predicate_from_str (predicate_str mp) = Some mp"
    by (cases mp) (simp_all add: predicate_from_str_def)
  show "dashboard_state_from_str (dashboard_state_str ds) = Some ds"
    by (cases ds) (simp_all add: dashboard_state_from_str_def)
qed

end
