(* ===== verification/Load_Properties.thy ===== *)
theory Load_Properties
  imports Load_Demo Load_Format
begin

text \<open>
  The properties of the scene validator: what an accepted scene satisfies, that the order
  of declaration does not matter, which error is reported, and that the text formats
  round-trip.
\<close>

section \<open>Which error is reported\<close>

lemma load_wrappers:
  "load_things raw = Inl x \<Longrightarrow> \<exists>e. x = ThingError e"
  "load_links ths ps raw = Inl x \<Longrightarrow> \<exists>e. x = LinkError e"
  "load_transforms ths ps raw = Inl x \<Longrightarrow> \<exists>e. x = TransformError e"
  "load_demand ths ps raw = Inl x \<Longrightarrow> \<exists>e. x = DemandError e"
  "load_pressure ths ps ls ds raw = Inl x \<Longrightarrow> \<exists>e. x = PressureError e"
  "load_objectives ths ps ts ds raw = Inl x \<Longrightarrow> \<exists>e. x = ObjectiveError e"
  "load_failure_conditions ths ps obs raw = Inl x \<Longrightarrow> \<exists>e. x = FailureConditionError e"
  "load_victory_conditions raw = Inl x \<Longrightarrow> \<exists>e. x = VictoryConditionError e"
  "load_observability ths ps raw = Inl x \<Longrightarrow> \<exists>e. x = ObservabilityError e"
  "load_agents sids obs raw = Inl x \<Longrightarrow> \<exists>e. x = AgentError e"
  "load_milestones sc raw = Inl x \<Longrightarrow> \<exists>e. x = MilestoneError e"
  by (auto simp: load_things_def load_links_def load_transforms_def load_demand_def load_pressure_def
      load_objectives_def load_failure_conditions_def load_victory_conditions_def
      load_observability_def load_agents_def load_milestones_def lift_err_Inl)

lemma validate_place_error:
  "validate raw = Inl (PlaceError e) \<longleftrightarrow>
     check_schema raw = Inr ()
     \<and> (\<exists>things. load_things raw = Inr things \<and> load_places things raw = Inl (PlaceError e))"
  unfolding validate_def Let_def
  by (auto simp: ebind_Inl lift_err_Inl lift_err_Inr dest!: load_wrappers)

lemma load_places_error:
  "load_places things raw = Inl (PlaceError e) \<longleftrightarrow>
     (\<exists>pre r suf. rs_places raw = pre @ r # suf
        \<and> first_offender validate_place place_id PlaceDuplicateId
            (place_refs (thing_id ` set things) (thing_tag_set things)) pre r e)"
  unfolding load_places_def lift_err_Inl
  by (auto dest!: load_section_Inl simp: load_section_offender)

text \<open>
  C11. The validator reports a place error exactly when the schema and the things load and
  some place of the list is the first offender: every place before it is valid, new and
  resolves its references, and its error is the one of its own validation, the duplicate of
  an earlier id, or its first dangling reference, in this order of precedence. Later places
  and sections have no influence.
\<close>

theorem place_error_is_first:
  "validate raw = Inl (PlaceError e) \<longleftrightarrow>
     check_schema raw = Inr ()
     \<and> (\<exists>things pre r suf. load_things raw = Inr things \<and> rs_places raw = pre @ r # suf
        \<and> first_offender validate_place place_id PlaceDuplicateId
            (place_refs (thing_id ` set things) (thing_tag_set things)) pre r e)"
  unfolding validate_place_error load_places_error by blast

section \<open>What an accepted scene satisfies\<close>

text \<open>
  C8. Every scene the validator accepts satisfies the invariant \<open>scene_ok\<close> that the runtime
  theories assume: ids strictly sorted in every section, stocks within capacities, positive
  divisors, amounts and ticks in their bounds, and one state per reference.
\<close>

theorem validated_scene_ok:
  assumes "raw_wf raw" and "validate raw = Inr sc"
  shows "scene_ok sc"
  using assms by (rule accepted_scene_ok)

theorem validated_scene_ok_witness: "scene_ok demo"
  using raw_demo_wf raw_demo_accepted by (rule validated_scene_ok)

text \<open>
  C9. No reference an accepted scene holds dangles: storage keys, accepted and produced
  things, the capacity buckets of operating states, link ends (which also differ), link
  compatibility, transform places and things and the buckets transforms pay from, demand
  targets and requirements, pressure targets of the right kind with the storage slot or
  capacity bucket they act on, objectives, failure conditions (with an operating state that
  can be evaluated), metrics, dashboards, alerts, agent scopes and weights, milestone
  triggers, camera focus and highlight all name something the scene declares.
\<close>

theorem validated_refs_resolve:
  assumes "raw_wf raw" and "validate raw = Inr sc"
  shows "refs_ok sc"
  using assms by (rule accepted_refs)

theorem validated_refs_resolve_witness: "refs_ok demo"
  using raw_demo_wf raw_demo_accepted by (rule validated_refs_resolve)

text \<open>
  C10. The order in which the items of a section are declared does not matter: a scene that
  loads still loads, to the same scene, after any permutation of any of its sections.
\<close>

theorem validated_any_order:
  assumes "same_items raw raw'" and "validate raw = Inr sc"
  shows "validate raw' = Inr sc"
  using assms by (rule accepted_any_order)

theorem validated_any_order_witness: "validate raw_demo_sorted = Inr demo"
  using raw_demo_same raw_demo_accepted by (rule validated_any_order)

section \<open>Formats\<close>

text \<open>
  The two predicate templates of an operating state are read back from their canonical
  text: a valid metric id with a threshold of at most 100, and any 64-bit tick count.
\<close>

lemma predicate_roundtrip:
  assumes "is_valid_sl1_id m" and "n \<le> SL1_PERCENT_MAX"
  shows "parse_predicate p s (m @ ''.used_percent >= '' @ dec n) = Inr (UsedPercentGte m n)
    \<and> parse_predicate p s (''overloaded_ticks > '' @ dec (t :: u64)) = Inr (OverloadedTicksGt t)"
  using parse_predicate_used_percent [OF assms] parse_predicate_overloaded by blast

lemma predicate_roundtrip_witness:
  "parse_predicate ''yard'' ''busy'' ''slots.used_percent >= 40'' = Inr (UsedPercentGte ''slots'' 40)
   \<and> parse_predicate ''yard'' ''busy'' ''overloaded_ticks > 7'' = Inr (OverloadedTicksGt 7)"
proof -
  have "is_valid_sl1_id ''slots''" "(40 :: u8) \<le> SL1_PERCENT_MAX" "dec (40 :: u8) = ''40''"
    "dec (7 :: u64) = ''7''" by code_simp+
  with predicate_roundtrip [of "''slots''" 40 "''yard''" "''busy''" 7] show ?thesis by simp
qed

text \<open>
  The names of pressure kinds, objective kinds, agent actions, alert severities and
  milestone predicates and states parse back to what they name, and so does every
  \<open>kind:id\<close> entry of an agent's scope whose id the scene knows.
\<close>

lemma names_roundtrip:
  assumes "target_known sids t" and "obs_id t \<noteq> []"
  shows "parse_observation_target i sids (obs_kind_str t @ '':'' @ obs_id t) = Inr t
    \<and> pressure_kind_from_str i (pressure_kind_str pk) = Inr pk
    \<and> objective_kind_from_str i (objective_kind_str ok) = Inr ok
    \<and> parse_action_kind i (action_kind_str ak) = Inr ak
    \<and> parse_severity i (severity_str sv) = Inr sv
    \<and> predicate_from_str (predicate_str mp) = Some mp
    \<and> dashboard_state_from_str (dashboard_state_str ds) = Some ds"
  using parse_scope_entry [OF assms] names_parse by blast

lemma names_roundtrip_witness:
  "parse_observation_target ''a'' (scope_of (sc_places demo) [] [] None) ''place:yard'' = Inr (ObsPlace ''yard'')"
proof -
  have "target_known (scope_of (sc_places demo) [] [] None) (ObsPlace ''yard'')" by code_simp
  from names_roundtrip [OF this, of "''a''"] show ?thesis by simp
qed

end
