(* ===== verification/Float32.thy ===== *)
theory Float32
  imports Load_Base
begin

text \<open>
  The \<open>f32\<close> arithmetic of the mover systems, computed exactly on the bit patterns. The value
  of a finite number is an integer multiple of \<open>2 ^ - 149\<close>; sums and products are formed in
  the integers and rounded once, to nearest with ties to even, as IEEE 754 and so Rust
  require. Which NaN an invalid operation returns is not specified by Rust; here it is the
  canonical one, and the code modelled never looks at its payload.
\<close>

section \<open>Classes, order and value\<close>

definition f32_is_nan :: "f32_bits \<Rightarrow> bool" where
  "f32_is_nan b \<longleftrightarrow> 0x7F800000 < f32_mag b"

definition f32_is_inf :: "f32_bits \<Rightarrow> bool" where
  "f32_is_inf b \<longleftrightarrow> f32_mag b = 0x7F800000"

definition f32_neg :: "f32_bits \<Rightarrow> bool" where
  "f32_neg b \<longleftrightarrow> bit b 31"

text \<open>Sign and magnitude order the numbers; the two zeros share a key.\<close>

definition f32_key :: "f32_bits \<Rightarrow> int" where
  "f32_key b = (if f32_neg b then - uint (f32_mag b) else uint (f32_mag b))"

definition f32_le :: "f32_bits \<Rightarrow> f32_bits \<Rightarrow> bool" where
  "f32_le a b \<longleftrightarrow> \<not> f32_is_nan a \<and> \<not> f32_is_nan b \<and> f32_key a \<le> f32_key b"

definition f32_lt :: "f32_bits \<Rightarrow> f32_bits \<Rightarrow> bool" where
  "f32_lt a b \<longleftrightarrow> \<not> f32_is_nan a \<and> \<not> f32_is_nan b \<and> f32_key a < f32_key b"

text \<open>The magnitude of a finite number in units of \<open>2 ^ - 149\<close>, and with its sign.\<close>

definition mag_units :: "int \<Rightarrow> int" where
  "mag_units m = (let e = m div 2 ^ 23; f = m mod 2 ^ 23 in
     if e = 0 then f else (2 ^ 23 + f) * 2 ^ nat (e - 1))"

definition f32_units :: "f32_bits \<Rightarrow> int" where
  "f32_units b = mag_units (uint (f32_mag b))"

definition f32_value :: "f32_bits \<Rightarrow> int" where
  "f32_value b = (if f32_neg b then - f32_units b else f32_units b)"

section \<open>Rounding\<close>

fun bit_len :: "int \<Rightarrow> nat" where
  "bit_len n = (if n \<le> 0 then 0 else Suc (bit_len (n div 2)))"

declare bit_len.simps [simp del]

text \<open>\<open>n / 2 ^ s\<close> to the nearest integer, ties to the even one.\<close>

definition round_even :: "int \<Rightarrow> nat \<Rightarrow> int" where
  "round_even n s = (let d = 2 ^ s; q = n div d; r = n mod d in
     if 2 * r < d \<or> 2 * r = d \<and> even q then q else q + 1)"

text \<open>
  The magnitude bits of \<open>n * 2 ^ - (149 + k)\<close>: at most 24 significant bits are kept, and
  never any below \<open>2 ^ - 149\<close>. A carry out of the significand moves into the exponent.
\<close>

definition f32_round_mag :: "int \<Rightarrow> nat \<Rightarrow> int" where
  "f32_round_mag n k = (let s = max k (bit_len n - 24);
      m = round_even n s + int (s - k) * 2 ^ 23 in min m 0x7F800000)"

definition f32_pack :: "bool \<Rightarrow> int \<Rightarrow> nat \<Rightarrow> f32_bits" where
  "f32_pack neg n k = (if neg then set_bit 31 else id) (word_of_int (f32_round_mag n k))"

section \<open>Operations\<close>

definition F32_NAN :: f32_bits where "F32_NAN = 0x7FC00000"
definition F32_EPSILON :: f32_bits where "F32_EPSILON = 0x34000000"
definition f32_zero :: f32_bits where "f32_zero = 0"
definition f32_one :: f32_bits where "f32_one = 0x3F800000"

definition f32_negate :: "f32_bits \<Rightarrow> f32_bits" where "f32_negate b = flip_bit 31 b"
definition f32_abs :: "f32_bits \<Rightarrow> f32_bits" where "f32_abs b = f32_mag b"

definition f32_add :: "f32_bits \<Rightarrow> f32_bits \<Rightarrow> f32_bits" where
  "f32_add a b =
     (if f32_is_nan a \<or> f32_is_nan b then F32_NAN
      else if f32_is_inf a then if f32_is_inf b \<and> f32_neg a \<noteq> f32_neg b then F32_NAN else a
      else if f32_is_inf b then b
      else let v = f32_value a + f32_value b in
        if v = 0 then if f32_neg a \<and> f32_neg b then f32_negate 0 else 0
        else f32_pack (v < 0) \<bar>v\<bar> 0)"

definition f32_sub :: "f32_bits \<Rightarrow> f32_bits \<Rightarrow> f32_bits" where
  "f32_sub a b = f32_add a (f32_negate b)"

definition f32_mul :: "f32_bits \<Rightarrow> f32_bits \<Rightarrow> f32_bits" where
  "f32_mul a b =
     (if f32_is_nan a \<or> f32_is_nan b then F32_NAN
      else let neg = (f32_neg a \<noteq> f32_neg b) in
        if f32_is_inf a \<or> f32_is_inf b
        then if f32_mag a = 0 \<or> f32_mag b = 0 then F32_NAN
             else (if neg then set_bit 31 else id) 0x7F800000
        else f32_pack neg (f32_units a * f32_units b) 149)"

text \<open>\<open>f32::min\<close> ignores a NaN operand; \<open>clamp\<close> keeps one.\<close>

definition f32_min :: "f32_bits \<Rightarrow> f32_bits \<Rightarrow> f32_bits" where
  "f32_min a b = (if f32_is_nan a then b else if f32_is_nan b then a else if f32_lt b a then b else a)"

definition f32_clamp :: "f32_bits \<Rightarrow> f32_bits \<Rightarrow> f32_bits \<Rightarrow> f32_bits" where
  "f32_clamp x lo hi = (let x1 = (if f32_lt x lo then lo else x) in if f32_lt hi x1 then hi else x1)"

text \<open>
  \<open>0.1 + 0.2\<close>, \<open>1.5 * 100\<close>, \<open>1/60 * 1.0 + 0.5\<close>, a tie to even, an overflow, a subnormal
  product and an exact cancellation, against the values the hardware gives.
\<close>

lemma f32_samples:
  "f32_add 0x3DCCCCCD 0x3E4CCCCD = 0x3E99999A"
  "f32_mul 0x3FC00000 0x42C80000 = 0x43160000"
  "f32_add (f32_mul 0x3C888889 0x3F800000) 0x3F000000 = 0x3F044444"
  "f32_add 0x4B800000 0x3F800000 = 0x4B800000"
  "f32_mul 0x7F7FFFFF 0x40000000 = 0x7F800000"
  "f32_mul 0x1A000000 0x1E000000 = 0x00000080"
  "f32_sub 0x3F800000 0x3F800000 = 0"
  "f32_sub 0x3E4CCCCD 0x3E99999A = 0xBDCCCCCE"
  by code_simp+

section \<open>Rounding is monotone and exact on what is representable\<close>

lemma bit_len_bounds:
  "0 < n \<Longrightarrow> 0 < bit_len n \<and> 2 ^ (bit_len n - 1) \<le> n \<and> n < 2 ^ bit_len n"
proof (induction n rule: bit_len.induct)
  case (1 n)
  then have l: "bit_len n = Suc (bit_len (n div 2))" by (simp add: bit_len.simps [of n])
  show ?case
  proof (cases "n = 1")
    case True
    then have "bit_len n = 1" using l by (simp add: bit_len.simps [of 0])
    with True show ?thesis by simp
  next
    case False
    then have pos: "0 < n div 2" using 1(2) by linarith
    with 1 have h: "0 < bit_len (n div 2)" "2 ^ (bit_len (n div 2) - 1) \<le> n div 2"
      "n div 2 < 2 ^ bit_len (n div 2)" by auto
    obtain k where k: "bit_len (n div 2) = Suc k" using h(1) gr0_conv_Suc by auto
    show ?thesis using h(2,3) by (simp add: l k) linarith
  qed
qed

lemma bit_len_zero [simp]: "bit_len 0 = 0"
  by (simp add: bit_len.simps)

lemma bit_len_eq:
  assumes "0 < l" and "2 ^ (l - 1) \<le> n" and "n < 2 ^ l"
  shows "bit_len n = l"
proof -
  have n: "0 < n" using assms(2) by (smt (verit) zero_less_power)
  note b = bit_len_bounds [OF n]
  have "(2::int) ^ (l - 1) < 2 ^ bit_len n" "(2::int) ^ (bit_len n - 1) < 2 ^ l"
    using assms b by linarith+
  then have "l - 1 < bit_len n" "bit_len n - 1 < l" by simp_all
  with b assms(1) show ?thesis by linarith
qed

lemma bit_len_le: "0 \<le> n \<Longrightarrow> n < 2 ^ l \<Longrightarrow> bit_len n \<le> l"
proof (cases "n = 0")
  case False
  assume "0 \<le> n" "n < 2 ^ l"
  with False have b: "2 ^ (bit_len n - 1) \<le> n" "0 < bit_len n" using bit_len_bounds [of n] by auto
  with \<open>n < 2 ^ l\<close> have "(2::int) ^ (bit_len n - 1) < 2 ^ l" by linarith
  then have "bit_len n - 1 < l" by simp
  with b show ?thesis by linarith
qed simp

lemma bit_len_mono: "0 \<le> m \<Longrightarrow> m \<le> n \<Longrightarrow> bit_len m \<le> bit_len n"
proof (cases "n = 0")
  case False
  assume "0 \<le> m" "m \<le> n"
  with False have "n < 2 ^ bit_len n" using bit_len_bounds [of n] by simp
  with \<open>0 \<le> m\<close> \<open>m \<le> n\<close> show ?thesis by (intro bit_len_le) auto
qed simp

lemma round_even_near: "n div 2 ^ s \<le> round_even n s \<and> round_even n s \<le> n div 2 ^ s + 1"
  by (simp add: round_even_def Let_def)

lemma round_even_exact: "round_even (q * 2 ^ s) s = q"
  by (simp add: round_even_def Let_def)

lemma round_even_mono:
  assumes "n \<le> n'"
  shows "round_even n s \<le> round_even n' s"
proof -
  let ?d = "(2::int) ^ s"
  have le: "n div ?d \<le> n' div ?d" using assms by (simp add: zdiv_mono1)
  show ?thesis
  proof (cases "n div ?d = n' div ?d")
    case True
    with assms have "n mod ?d \<le> n' mod ?d" by (simp flip: minus_div_mult_eq_mod)
    with True show ?thesis by (auto simp: round_even_def Let_def)
  next
    case False
    with le show ?thesis using round_even_near [of n s] round_even_near [of n' s] by linarith
  qed
qed

text \<open>The significand stays within 24 bits, and is normal when bits were cut off.\<close>

definition f32_shift :: "int \<Rightarrow> nat \<Rightarrow> nat" where
  "f32_shift n k = max k (bit_len n - 24)"

lemma int_div_less_mult: "n < a * d \<Longrightarrow> 0 < d \<Longrightarrow> n div d < a" for n :: int
  by (smt (verit) nonzero_mult_div_cancel_right zdiv_mono1 minus_mod_eq_div_mult pos_mod_sign
      mult_le_cancel_right)

lemma significand_upper:
  assumes "0 \<le> n"
  shows "round_even n (f32_shift n k) \<le> 2 ^ 24"
proof -
  let ?s = "f32_shift n k"
  have "n < 2 ^ bit_len n"
    using assms bit_len_bounds [of n] by (cases "n = 0") auto
  also have "\<dots> \<le> 2 ^ (24 + ?s)"
    by (rule power_increasing) (auto simp: f32_shift_def)
  finally have "n < 2 ^ 24 * 2 ^ ?s" by (simp add: power_add)
  then have "n div 2 ^ ?s < 2 ^ 24" by (intro int_div_less_mult) auto
  then show ?thesis using round_even_near [of n ?s] by linarith
qed

lemma significand_lower:
  assumes "k < f32_shift n k" and "0 \<le> n"
  shows "2 ^ 23 \<le> round_even n (f32_shift n k)"
proof -
  let ?s = "f32_shift n k"
  have s: "?s = bit_len n - 24" and l: "24 < bit_len n" using assms by (auto simp: f32_shift_def)
  then have "0 < n" using assms(2) by (cases "n = 0") auto
  then have "2 ^ (bit_len n - 1) \<le> n" using bit_len_bounds by blast
  moreover have "bit_len n - 1 = 23 + ?s" using s l by linarith
  ultimately have "2 ^ 23 * 2 ^ ?s \<le> n" by (simp only: power_add)
  then have "2 ^ 23 \<le> n div 2 ^ ?s"
    using zdiv_mono1 [of "2 ^ 23 * 2 ^ ?s" n "2 ^ ?s"] by simp
  then show ?thesis using round_even_near [of n ?s] by linarith
qed

lemma f32_round_mag_alt:
  "f32_round_mag n k
     = min (round_even n (f32_shift n k) + int (f32_shift n k - k) * 2 ^ 23) 0x7F800000"
  by (simp add: f32_round_mag_def f32_shift_def Let_def)

lemma f32_round_mag_mono:
  assumes "0 \<le> n" and "n \<le> n'"
  shows "f32_round_mag n k \<le> f32_round_mag n' k"
proof -
  let ?s = "f32_shift n k" and ?s' = "f32_shift n' k"
  have le: "?s \<le> ?s'" "k \<le> ?s" using bit_len_mono [OF assms] by (auto simp: f32_shift_def)
  have "round_even n ?s + int (?s - k) * 2 ^ 23 \<le> round_even n' ?s' + int (?s' - k) * 2 ^ 23"
  proof (cases "?s = ?s'")
    case True
    then show ?thesis using round_even_mono [OF assms(2), of ?s'] by simp
  next
    case False
    with le have "?s < ?s'" by simp
    then have "2 ^ 23 \<le> round_even n' ?s'"
      using le assms by (intro significand_lower) auto
    moreover have "int (?s - k) + 1 \<le> int (?s' - k)" using \<open>?s < ?s'\<close> le by linarith
    ultimately show ?thesis using significand_upper [OF assms(1), of k] by simp
  qed
  then show ?thesis by (simp add: f32_round_mag_alt)
qed

lemma f32_round_mag_exact:
  assumes "0 \<le> m" and "m < 0x7F800000"
  shows "f32_round_mag (mag_units m) 0 = m"
proof -
  define e f where "e = m div 2 ^ 23" and "f = m mod 2 ^ 23"
  have f: "0 \<le> f" "f < 2 ^ 23" and e: "0 \<le> e" and m: "m = e * 2 ^ 23 + f"
    using assms(1) by (simp_all add: e_def f_def)
  show ?thesis
  proof (cases "e = 0")
    case True
    then have u: "mag_units m = f" by (simp add: mag_units_def Let_def e_def f_def)
    have "bit_len f \<le> 23" using f by (intro bit_len_le) auto
    then have "f32_shift f 0 = 0" by (simp add: f32_shift_def)
    moreover have mf: "m = f" using True m by simp
    ultimately have "f32_round_mag f 0 = f"
      using assms round_even_exact [of f 0] by (simp add: f32_round_mag_alt)
    with u mf show ?thesis by simp
  next
    case False
    let ?k = "nat (e - 1)"
    from False have u: "mag_units m = (2 ^ 23 + f) * 2 ^ ?k"
      by (simp add: mag_units_def Let_def e_def f_def)
    have "bit_len ((2 ^ 23 + f) * 2 ^ ?k) = 24 + ?k"
    proof (rule bit_len_eq)
      have "(2::int) ^ (24 + ?k - 1) = 2 ^ 23 * 2 ^ ?k" by (simp add: power_add)
      also have "\<dots> \<le> (2 ^ 23 + f) * 2 ^ ?k" using f by (intro mult_right_mono) auto
      finally show "2 ^ (24 + ?k - 1) \<le> (2 ^ 23 + f) * 2 ^ ?k" .
      have "(2 ^ 23 + f) * 2 ^ ?k < 2 ^ 24 * 2 ^ ?k" using f by (intro mult_strict_right_mono) auto
      then show "(2 ^ 23 + f) * 2 ^ ?k < 2 ^ (24 + ?k)" by (simp add: power_add)
    qed simp
    then have "f32_shift ((2 ^ 23 + f) * 2 ^ ?k) 0 = ?k" by (simp add: f32_shift_def)
    then have "f32_round_mag (mag_units m) 0 = min (2 ^ 23 + f + int ?k * 2 ^ 23) 0x7F800000"
      by (simp add: u f32_round_mag_alt round_even_exact)
    moreover have "2 ^ 23 + f + int ?k * 2 ^ 23 = m" using False e m by simp
    ultimately show ?thesis using assms(2) by simp
  qed
qed

section \<open>What the movers rely on\<close>

lemma f32_mag_bound: "uint (f32_mag b) < 2 ^ 31"
  unfolding f32_mag_def unsigned_take_bit_eq by (rule take_bit_int_less_exp)

lemma mag_units_nonneg: "0 \<le> m \<Longrightarrow> 0 \<le> mag_units m"
  by (simp add: mag_units_def Let_def)

lemma f32_units_nonneg: "0 \<le> f32_units b"
  by (simp add: f32_units_def mag_units_nonneg)

lemma mag_units_zero: "0 \<le> m \<Longrightarrow> mag_units m = 0 \<Longrightarrow> m = 0"
proof -
  assume m: "0 \<le> m" "mag_units m = 0"
  have "0 < (2 ^ 23 + m mod 2 ^ 23) * 2 ^ nat (m div 2 ^ 23 - 1)" by (simp add: add_pos_nonneg)
  with m(2) have "m div 2 ^ 23 = 0 \<and> m mod 2 ^ 23 = 0"
    by (simp add: mag_units_def Let_def split: if_splits)
  then show "m = 0" by (metis add_0 mult_zero_left div_mult_mod_eq)
qed

lemma f32_finite_mag: "f32_is_finite b \<longleftrightarrow> uint (f32_mag b) < 0x7F800000"
  by (simp add: f32_is_finite_def word_less_def)

lemma f32_class: "f32_is_finite b \<longleftrightarrow> \<not> f32_is_nan b \<and> \<not> f32_is_inf b"
  by (auto simp: f32_is_finite_def f32_is_nan_def f32_is_inf_def)

text \<open>A packed result is a number of its sign and rounded magnitude.\<close>

lemma round_mag_range: "0 \<le> n \<Longrightarrow> 0 \<le> f32_round_mag n k \<and> f32_round_mag n k \<le> 0x7F800000"
  using round_even_near [of n "f32_shift n k"] pos_imp_zdiv_nonneg_iff [of "2 ^ f32_shift n k" n]
  by (simp add: f32_round_mag_alt)

lemma mag_word_of_int:
  assumes "0 \<le> m" and "m < 2 ^ 31"
  shows "f32_mag (word_of_int m) = word_of_int m" "\<not> f32_neg (word_of_int m)"
    "f32_mag (set_bit 31 (word_of_int m)) = word_of_int m" "f32_neg (set_bit 31 (word_of_int m))"
proof -
  have t: "take_bit 31 m = m" using assms by (simp add: take_bit_int_eq_self)
  have b: "bit m j \<Longrightarrow> j < 31" for j
    using t by (metis bit_take_bit_iff)
  show "f32_mag (word_of_int m) = word_of_int m"
    unfolding f32_mag_def by (rule bit_word_eqI) (auto simp: bit_simps dest: b)
  show "\<not> f32_neg (word_of_int m)" unfolding f32_neg_def by (auto simp: bit_simps dest: b)
  show "f32_mag (set_bit 31 (word_of_int m)) = word_of_int m"
    unfolding f32_mag_def by (rule bit_word_eqI) (auto simp: bit_simps dest: b)
  show "f32_neg (set_bit 31 (word_of_int m))" unfolding f32_neg_def by (auto simp: bit_simps)
qed

lemma f32_pack_props:
  assumes "0 \<le> n"
  shows "f32_neg (f32_pack neg n k) = neg" and "uint (f32_mag (f32_pack neg n k)) = f32_round_mag n k"
    and "\<not> f32_is_nan (f32_pack neg n k)"
proof -
  note r = round_mag_range [OF assms, of k]
  then have b: "0 \<le> f32_round_mag n k" "f32_round_mag n k < 2 ^ 31" by simp_all
  show "f32_neg (f32_pack neg n k) = neg"
    using mag_word_of_int [OF b] by (simp add: f32_pack_def)
  have "f32_mag (f32_pack neg n k) = word_of_int (f32_round_mag n k)"
    using mag_word_of_int [OF b] by (simp add: f32_pack_def)
  then show u: "uint (f32_mag (f32_pack neg n k)) = f32_round_mag n k"
    using b by (simp add: unsigned_of_int take_bit_int_eq_self)
  show "\<not> f32_is_nan (f32_pack neg n k)"
    unfolding f32_is_nan_def word_less_def u using r by simp
qed

text \<open>The numbers that are not negative: zero of either sign, or positive.\<close>

definition f32_nonneg :: "f32_bits \<Rightarrow> bool" where
  "f32_nonneg b \<longleftrightarrow> \<not> f32_is_nan b \<and> 0 \<le> f32_key b"

lemma f32_nonneg_iff: "f32_nonneg b \<longleftrightarrow> \<not> f32_is_nan b \<and> (f32_neg b \<longrightarrow> f32_mag b = 0)"
proof -
  have "0 \<le> - uint x \<longleftrightarrow> x = 0" for x :: u32
    by (metis neg_0_le_iff_le order_antisym order_refl uint_0_iff uint_ge_0)
  then show ?thesis by (simp add: f32_nonneg_def f32_key_def)
qed

lemma f32_nonneg_value: "f32_nonneg b \<Longrightarrow> f32_value b = f32_units b"
  by (auto simp: f32_nonneg_iff f32_value_def f32_units_def mag_units_def)

lemma f32_nonneg_key: "f32_nonneg b \<Longrightarrow> f32_key b = uint (f32_mag b)"
  by (auto simp: f32_nonneg_iff f32_key_def)

lemma f32_mul_nonneg:
  assumes "f32_nonneg a" and "f32_is_finite a" and "f32_nonneg b" and "f32_is_finite b"
  shows "f32_nonneg (f32_mul a b)"
proof -
  have "f32_mul a b = f32_pack (f32_neg a \<noteq> f32_neg b) (f32_units a * f32_units b) 149"
    using assms(2,4) by (simp add: f32_mul_def f32_class)
  moreover have "f32_units a * f32_units b = 0" if "f32_neg a \<noteq> f32_neg b"
    using that assms(1,3) by (auto simp: f32_nonneg_iff f32_units_def mag_units_def)
  moreover have "f32_round_mag 0 149 = 0" by code_simp
  ultimately show ?thesis
    using f32_pack_props [of "f32_units a * f32_units b" "f32_neg a \<noteq> f32_neg b" 149]
    by (auto simp: f32_nonneg_iff f32_units_nonneg uint_0_iff)
qed

text \<open>Adding something that is not negative never moves a number down.\<close>

lemma f32_add_nonneg:
  assumes a: "f32_nonneg a" "f32_is_finite a" and b: "f32_nonneg b"
  shows "f32_nonneg (f32_add a b) \<and> f32_key a \<le> f32_key (f32_add a b)"
proof (cases "f32_is_inf b")
  case True
  then have "f32_add a b = b" using a b by (simp add: f32_add_def f32_class f32_nonneg_def)
  moreover have "f32_key a \<le> f32_key b"
    using True a b f32_finite_mag [of a] by (simp add: f32_nonneg_key f32_is_inf_def)
  ultimately show ?thesis using b by simp
next
  case fin: False
  let ?v = "f32_units a + f32_units b"
  have v: "0 \<le> ?v" using f32_units_nonneg [of a] f32_units_nonneg [of b] by simp
  have sum: "f32_add a b = (if ?v = 0 then if f32_neg a \<and> f32_neg b then f32_negate 0 else 0
      else f32_pack False ?v 0)"
    using a b fin v by (simp add: f32_add_def f32_class f32_nonneg_def f32_nonneg_value Let_def)
  show ?thesis
  proof (cases "?v = 0")
    case True
    then have "f32_units a = 0" using f32_units_nonneg [of a] f32_units_nonneg [of b] by linarith
    then have "uint (f32_mag a) = 0"
      unfolding f32_units_def by (rule mag_units_zero [OF uint_ge_0])
    then have "f32_key a = 0" using a by (simp add: f32_nonneg_key)
    moreover have "f32_nonneg (f32_negate 0) \<and> f32_key (f32_negate 0) = 0" "f32_nonneg 0 \<and> f32_key 0 = 0"
      by code_simp+
    ultimately show ?thesis using True by (simp add: sum)
  next
    case False
    then have s: "f32_add a b = f32_pack False ?v 0" by (simp add: sum)
    note p = f32_pack_props [OF v, of False 0]
    have nn: "f32_nonneg (f32_add a b)" using p by (simp add: s f32_nonneg_iff)
    have "uint (f32_mag a) = f32_round_mag (f32_units a) 0"
      unfolding f32_units_def using a(2) by (subst f32_round_mag_exact) (auto simp: f32_finite_mag)
    also have "\<dots> \<le> f32_round_mag ?v 0"
      using f32_units_nonneg [of a] f32_units_nonneg [of b] by (intro f32_round_mag_mono) auto
    finally have "f32_key a \<le> f32_key (f32_add a b)"
      using p nn a by (simp add: f32_nonneg_key s)
    with nn show ?thesis by simp
  qed
qed

text \<open>\<open>.min(1.0)\<close> always gives a number at most one, and keeps a floor below one.\<close>

lemma f32_one_facts: "\<not> f32_is_nan f32_one" "f32_key f32_one = 0x3F800000" "f32_nonneg f32_one"
  by code_simp+

lemma f32_min_one: "f32_le (f32_min a f32_one) f32_one"
  using f32_one_facts by (auto simp: f32_min_def f32_le_def f32_lt_def)

lemma f32_min_one_key: "\<not> f32_is_nan a \<Longrightarrow> f32_key (f32_min a f32_one) = min (f32_key a) (f32_key f32_one)"
  using f32_one_facts by (auto simp: f32_min_def f32_lt_def)

lemma f32_min_not_nan: "\<not> f32_is_nan b \<Longrightarrow> \<not> f32_is_nan (f32_min a b)"
  by (simp add: f32_min_def)

end
