(* ===== verification/Float_Text.thy ===== *)
theory Float_Text
  imports Float32
begin

text \<open>
  How \<open>format!\<close> prints an \<open>f32\<close>: \<open>{}\<close> gives the shortest decimal that reads back as the
  same number (the closest one among those of that length), never with an exponent;
  \<open>{:.2}\<close> rounds the exact value to two places, ties to even. All on integers.
\<close>

definition ulp_units :: "int \<Rightarrow> int" where
  "ulp_units m = 2 ^ nat (max (m div 2 ^ 23) 1 - 1)"

text \<open>
  In quarters of \<open>2 ^ - 149\<close>: the value and the distances to the ends of the interval that
  reads back; below a power of two the spacing is halved.
\<close>

definition quarters :: "int \<Rightarrow> int" where "quarters m = 4 * mag_units m"
definition gap_above :: "int \<Rightarrow> int" where "gap_above m = 2 * ulp_units m"
definition gap_below :: "int \<Rightarrow> int" where
  "gap_below m = (if 0 < m div 2 ^ 23 \<and> m mod 2 ^ 23 = 0 then ulp_units m else 2 * ulp_units m)"

text \<open>
  At the decimal position \<open>j\<close>: the multiples of \<open>10 ^ j\<close> next to the value, each if it lies in
  the interval; the nearer one if both do, the upper one on a tie. Everything is scaled by
  \<open>2 ^ 151 * 10 ^ 60\<close>.
\<close>

definition digits_at :: "int \<Rightarrow> int \<Rightarrow> int option" where
  "digits_at m j = (let u = 2 ^ 151 * 10 ^ nat (60 + j); v = quarters m * 10 ^ 60;
      q = v div u; r = v mod u; lo = gap_below m * 10 ^ 60; hi = gap_above m * 10 ^ 60;
      dn = (if even m then r \<le> lo else r < lo); up = (if even m then u - r \<le> hi else u - r < hi) in
    if up \<and> (\<not> dn \<or> u \<le> 2 * r) then Some (q + 1) else if dn then Some q else None)"

fun first_position :: "int \<Rightarrow> nat \<Rightarrow> int \<Rightarrow> (int \<times> int) option" where
  "first_position m 0 j = None"
| "first_position m (Suc n) j = (case digits_at m j of
     Some d \<Rightarrow> Some (d, j) | None \<Rightarrow> first_position m n (j - 1))"

definition place_point :: "string \<Rightarrow> nat \<Rightarrow> string" where
  "place_point ds frac =
     (let padded = replicate (Suc frac - length ds) (CHR ''0'') @ ds; k = length padded - frac in
      if frac = 0 then ds else take k padded @ ''.'' @ drop k padded)"

fun dec_int :: "nat \<Rightarrow> int \<Rightarrow> string" where
  "dec_int 0 n = []"
| "dec_int (Suc k) n = (if n < 10 then [char_of (48 + n)]
     else dec_int k (n div 10) @ [char_of (48 + n mod 10)])"

definition decimal_text :: "int \<times> int \<Rightarrow> string" where
  "decimal_text dj = (case dj of (d, j) \<Rightarrow>
     if 0 \<le> j then dec_int 60 d @ replicate (nat j) (CHR ''0'')
     else place_point (dec_int 60 d) (nat (- j)))"

definition with_sign :: "f32_bits \<Rightarrow> string \<Rightarrow> string" where
  "with_sign b s = (if f32_neg b then CHR ''-'' # s else s)"

text \<open>The highest position tried is \<open>10 ^ 39\<close>, above every \<open>f32\<close>; 99 positions reach \<open>10 ^ - 59\<close>.\<close>

definition f32_display :: "f32_bits \<Rightarrow> string" where
  "f32_display b =
     (if f32_is_nan b then ''NaN''
      else if f32_is_inf b then with_sign b ''inf''
      else if f32_mag b = 0 then with_sign b ''0''
      else with_sign b (case first_position (uint (f32_mag b)) 99 39 of
             Some dj \<Rightarrow> decimal_text dj | None \<Rightarrow> ''''))"

definition f32_fixed2 :: "f32_bits \<Rightarrow> string" where
  "f32_fixed2 b =
     (if f32_is_nan b then ''NaN''
      else if f32_is_inf b then with_sign b ''inf''
      else with_sign b (place_point (dec_int 60 (round_even (100 * f32_units b) 149)) 2))"

end
