(* ===== verification/World.thy ===== *)
theory World
  imports Float32 Production Runtime
begin

text \<open>
  The world and its pieces (\<open>world.rs\<close>, \<open>components.rs\<close>): nodes, directed paths, movers
  with their state machine, resources, the production graph and the SL1 half, with the
  invariant \<open>world_wf\<close> that every reference resolves. The random generator is carried and
  never drawn from by the engine; its type and its seeding (the crate \<open>rand_pcg\<close>) are
  parameters. The world extends the record the production system works on.
\<close>

section \<open>Pieces\<close>

datatype run_state = RsIdle | RsLoaded | RsRunning | RsPaused | RsFaulted

datatype node_shape = Circle | Square | Triangle | Diamond | Hexagon

record node =
  n_id :: u32
  n_pos :: "f32_bits \<times> f32_bits"
  n_shape :: node_shape
  n_color :: u8

record path =
  pa_id :: u32
  pa_from :: u32
  pa_to :: u32
  pa_color :: u8

datatype mover_state = MEmpty | MWaiting u32 | MTraveling u32 f32_bits

record mover =
  m_id :: u32
  m_home_path :: u32
  m_speed :: f32_bits
  m_state :: mover_state

record resource =
  re_id :: u32
  re_name :: string
  re_color :: u8

section \<open>The state machine of a mover\<close>

text \<open>Each method fails with the unchanged state, or returns the updated mover.\<close>

definition mover_new :: "u32 \<Rightarrow> u32 \<Rightarrow> f32_bits \<Rightarrow> mover" where
  "mover_new i home speed = \<lparr>m_id = i, m_home_path = home, m_speed = speed, m_state = MEmpty\<rparr>"

definition spawn_at :: "u32 \<Rightarrow> mover \<Rightarrow> mover_state + mover" where
  "spawn_at node m = (case m_state m of
     MEmpty \<Rightarrow> Inr (m\<lparr>m_state := MWaiting node\<rparr>) | other \<Rightarrow> Inl other)"

definition begin_travel :: "u32 \<Rightarrow> mover \<Rightarrow> mover_state + mover" where
  "begin_travel p m = (case m_state m of
     MWaiting _ \<Rightarrow> Inr (m\<lparr>m_state := MTraveling p f32_zero\<rparr>) | other \<Rightarrow> Inl other)"

definition advance_mover :: "f32_bits \<Rightarrow> mover \<Rightarrow> mover_state + mover \<times> f32_bits" where
  "advance_mover dt m = (case m_state m of
     MTraveling p progress \<Rightarrow>
       let pr = f32_min (f32_add progress (f32_mul (m_speed m) dt)) f32_one
       in Inr (m\<lparr>m_state := MTraveling p pr\<rparr>, pr)
   | other \<Rightarrow> Inl other)"

definition arrive :: "u32 \<Rightarrow> mover \<Rightarrow> mover_state + mover" where
  "arrive node m = (case m_state m of
     MTraveling _ _ \<Rightarrow> Inr (m\<lparr>m_state := MWaiting node\<rparr>) | other \<Rightarrow> Inl other)"

definition despawn :: "mover \<Rightarrow> mover_state + mover" where
  "despawn m = (case m_state m of
     MEmpty \<Rightarrow> Inl MEmpty | _ \<Rightarrow> Inr (m\<lparr>m_state := MEmpty\<rparr>))"

section \<open>The world\<close>

record 'r world = prod_world +
  w_dt :: f32_bits
  w_rng :: 'r
  w_state :: run_state
  w_nodes :: "(u32, node) btree_map"
  w_paths :: "(u32, path) btree_map"
  w_movers :: "(u32, mover) btree_map"
  w_resources :: "(u32, resource) btree_map"
  w_sl1 :: "sl1_scene option"
  w_sl1_runtime :: "sl1_runtime option"

text \<open>\<open>1.0 / 60.0\<close> in \<open>f32\<close>.\<close>

definition DEFAULT_DT :: f32_bits where "DEFAULT_DT = 0x3C888889"

definition world_new :: "(u64 \<Rightarrow> 'r) \<Rightarrow> u64 \<Rightarrow> 'r world" where
  "world_new from_seed seed =
     \<lparr>pw_tick = 0, pw_producers = [], pw_consumers = [], pw_inventory = [],
      w_dt = DEFAULT_DT, w_rng = from_seed seed, w_state = RsIdle, w_nodes = [], w_paths = [],
      w_movers = [], w_resources = [], w_sl1 = None, w_sl1_runtime = None\<rparr>"

definition with_dt :: "f32_bits \<Rightarrow> 'r world \<Rightarrow> 'r world" where
  "with_dt dt w = w\<lparr>w_dt := dt\<rparr>"

definition world_is_empty :: "'r world \<Rightarrow> bool" where
  "world_is_empty w \<longleftrightarrow> w_nodes w = [] \<and> w_paths w = [] \<and> w_movers w = [] \<and> w_resources w = []
     \<and> pw_inventory w = [] \<and> pw_producers w = [] \<and> pw_consumers w = []
     \<and> w_sl1 w = None \<and> w_sl1_runtime w = None"

definition sl1_outcome :: "'r world \<Rightarrow> game_outcome" where
  "sl1_outcome w = (case w_sl1_runtime w of Some r \<Rightarrow> outcome r | None \<Rightarrow> InProgress)"

definition resource_id_by_name :: "'r world \<Rightarrow> string \<Rightarrow> u32 option" where
  "resource_id_by_name w name =
     map_option re_id (find (\<lambda>r. re_name r = name) (bt_values (w_resources w)))"

section \<open>Every reference resolves\<close>

definition SPEED_MIN :: f32_bits where "SPEED_MIN = 0"
definition SPEED_MAX :: f32_bits where "SPEED_MAX = 0x42C80000"

definition speed_ok :: "f32_bits \<Rightarrow> bool" where
  "speed_ok s \<longleftrightarrow> f32_is_finite s \<and> \<not> f32_lt s SPEED_MIN \<and> \<not> f32_lt SPEED_MAX s"

definition progress_ok :: "f32_bits \<Rightarrow> bool" where
  "progress_ok p \<longleftrightarrow> f32_nonneg p \<and> f32_le p f32_one"

definition path_ok :: "'r world \<Rightarrow> path \<Rightarrow> bool" where
  "path_ok w p \<longleftrightarrow> bt_has (w_nodes w) (pa_from p) \<and> bt_has (w_nodes w) (pa_to p)"

fun mover_state_ok :: "'r world \<Rightarrow> mover_state \<Rightarrow> bool" where
  "mover_state_ok w MEmpty \<longleftrightarrow> True"
| "mover_state_ok w (MWaiting n) \<longleftrightarrow> bt_has (w_nodes w) n"
| "mover_state_ok w (MTraveling p pr) \<longleftrightarrow> bt_has (w_paths w) p \<and> progress_ok pr"

definition mover_ok :: "'r world \<Rightarrow> mover \<Rightarrow> bool" where
  "mover_ok w m \<longleftrightarrow> bt_has (w_paths w) (m_home_path m) \<and> speed_ok (m_speed m)
     \<and> mover_state_ok w (m_state m)"

text \<open>A table is a map whose values carry their keys and fulfil a condition.\<close>

definition table_ok :: "('v \<Rightarrow> u32) \<Rightarrow> ('v \<Rightarrow> bool) \<Rightarrow> (u32, 'v) btree_map \<Rightarrow> bool" where
  "table_ok key P m \<longleftrightarrow> bt_wf m \<and> (\<forall>k v. bt_get m k = Some v \<longrightarrow> key v = k \<and> P v)"

definition dt_ok :: "f32_bits \<Rightarrow> bool" where
  "dt_ok dt \<longleftrightarrow> f32_is_finite dt \<and> f32_nonneg dt"

definition names_distinct :: "(u32, resource) btree_map \<Rightarrow> bool" where
  "names_distinct rs \<longleftrightarrow> (\<forall>k r k' r'. bt_get rs k = Some r \<longrightarrow> bt_get rs k' = Some r'
     \<longrightarrow> re_name r = re_name r' \<longrightarrow> k = k')"

definition world_wf :: "'r world \<Rightarrow> bool" where
  "world_wf w \<longleftrightarrow> dt_ok (w_dt w)
     \<and> table_ok n_id (\<lambda>_. True) (w_nodes w)
     \<and> table_ok pa_id (path_ok w) (w_paths w)
     \<and> table_ok m_id (mover_ok w) (w_movers w)
     \<and> table_ok re_id (\<lambda>_. True) (w_resources w)
     \<and> names_distinct (w_resources w)
     \<and> table_ok p_id (\<lambda>p. bt_has (w_resources w) (p_resource p)) (pw_producers w)
     \<and> table_ok c_id (\<lambda>c. bt_has (w_resources w) (c_resource c)) (pw_consumers w)
     \<and> bt_wf (pw_inventory w)
     \<and> (\<forall>k. bt_has (pw_inventory w) k \<longleftrightarrow> bt_has (w_resources w) k)"

lemma table_okD:
  assumes "table_ok key P m"
  shows "bt_wf m" and "bt_get m k = Some v \<Longrightarrow> key v = k" and "bt_get m k = Some v \<Longrightarrow> P v"
    and "(k, v) \<in> set m \<Longrightarrow> bt_get m k = Some v"
  using assms by (auto simp: table_ok_def bt_wf_get)

lemma table_ok_Nil [simp]: "table_ok key P []"
  by (simp add: table_ok_def)

lemma table_ok_insert: "table_ok key P m \<Longrightarrow> key v = k \<Longrightarrow> P v \<Longrightarrow> table_ok key P (bt_insert k v m)"
  by (auto simp: table_ok_def)

lemma table_ok_remove: "table_ok key P m \<Longrightarrow> table_ok key P (bt_remove k m)"
  by (auto simp: table_ok_def split: if_splits)

lemma table_ok_weaken:
  "table_ok key P m \<Longrightarrow> (\<And>k v. bt_get m k = Some v \<Longrightarrow> P v \<Longrightarrow> Q v) \<Longrightarrow> table_ok key Q m"
  by (auto simp: table_ok_def)

lemma world_wfD:
  assumes "world_wf w"
  shows "dt_ok (w_dt w)" and "table_ok n_id (\<lambda>_. True) (w_nodes w)"
    and "table_ok pa_id (path_ok w) (w_paths w)" and "table_ok m_id (mover_ok w) (w_movers w)"
    and "table_ok re_id (\<lambda>_. True) (w_resources w)"
    and "table_ok p_id (\<lambda>p. bt_has (w_resources w) (p_resource p)) (pw_producers w)"
    and "table_ok c_id (\<lambda>c. bt_has (w_resources w) (c_resource c)) (pw_consumers w)"
    and "bt_wf (pw_inventory w)"
    and "bt_has (pw_inventory w) k \<longleftrightarrow> bt_has (w_resources w) k"
    and "names_distinct (w_resources w)"
  using assms unfolding world_wf_def by blast+

lemma wf_mover:
  assumes "world_wf w" and "(k, m) \<in> set (w_movers w)"
  shows "m_id m = k" and "mover_ok w m" and "bt_get (w_movers w) k = Some m"
proof -
  note t = world_wfD(4) [OF assms(1)]
  from table_okD(4) [OF t assms(2)] show "bt_get (w_movers w) k = Some m" .
  then show "m_id m = k" "mover_ok w m" using table_okD(2,3) [OF t] by blast+
qed

lemma wf_path:
  assumes "world_wf w" and "bt_get (w_paths w) p = Some pa"
  shows "pa_id pa = p" and "bt_has (w_nodes w) (pa_from pa)" and "bt_has (w_nodes w) (pa_to pa)"
  using table_okD(2,3) [OF world_wfD(3) [OF assms(1)] assms(2)] by (auto simp: path_ok_def)

lemma default_dt_ok: "dt_ok DEFAULT_DT"
  by code_simp

lemma world_new_wf: "world_wf (world_new f seed)"
  using default_dt_ok by (simp add: world_wf_def world_new_def names_distinct_def)

text \<open>What agents and the mover and production systems never touch.\<close>

definition same_clock :: "'r world \<Rightarrow> 'r world \<Rightarrow> bool" where
  "same_clock w w' \<longleftrightarrow> pw_tick w' = pw_tick w \<and> w_dt w' = w_dt w \<and> w_rng w' = w_rng w
     \<and> w_state w' = w_state w \<and> w_sl1 w' = w_sl1 w \<and> w_sl1_runtime w' = w_sl1_runtime w"

lemma same_clock_refl [simp]: "same_clock w w"
  by (simp add: same_clock_def)

lemma same_clock_trans: "same_clock u v \<Longrightarrow> same_clock v w \<Longrightarrow> same_clock u w"
  by (simp add: same_clock_def)

section \<open>Legal moves\<close>

text \<open>
  What one mover may do in a system: keep its identity and home, and take a step of its
  machine along the paths of the world.
\<close>

inductive mover_step :: "'r world \<Rightarrow> mover_state \<Rightarrow> mover_state \<Rightarrow> bool" for w where
  step_spawn: "bt_has (w_nodes w) n \<Longrightarrow> mover_step w MEmpty (MWaiting n)"
| step_depart: "bt_get (w_paths w) p = Some pa \<Longrightarrow> pa_from pa = n \<Longrightarrow>
    mover_step w (MWaiting n) (MTraveling p f32_zero)"
| step_move: "progress_ok pr' \<Longrightarrow> f32_key pr \<le> f32_key pr' \<Longrightarrow>
    mover_step w (MTraveling p pr) (MTraveling p pr')"
| step_arrive: "f32_le f32_one pr \<Longrightarrow> bt_get (w_paths w) p = Some pa \<Longrightarrow> pa_to pa = n \<Longrightarrow>
    mover_step w (MTraveling p pr) (MWaiting n)"

inductive_cases mover_step_EmptyE: "mover_step w MEmpty s"
inductive_cases mover_step_WaitingE: "mover_step w (MWaiting n) s"
inductive_cases mover_step_TravelingE: "mover_step w (MTraveling p pr) s"

abbreviation mover_steps :: "'r world \<Rightarrow> mover_state \<Rightarrow> mover_state \<Rightarrow> bool" where
  "mover_steps w \<equiv> (mover_step w)\<^sup>*\<^sup>*"

lemma progress_ok_ends: "progress_ok f32_zero" "progress_ok f32_one"
  by code_simp+

lemma mover_step_ok:
  assumes "mover_step w s s'" and "world_wf w" and "mover_state_ok w s"
  shows "mover_state_ok w s'"
  using assms
proof cases
  case (step_depart p pa n)
  then show ?thesis by (simp add: bt_has_def progress_ok_ends)
next
  case (step_arrive pr p pa n)
  with wf_path(3) [OF assms(2)] show ?thesis by auto
qed (use assms in auto)

lemma mover_steps_ok:
  assumes "mover_steps w s s'" and "world_wf w" and "mover_state_ok w s"
  shows "mover_state_ok w s'"
  using assms by (induction rule: rtranclp_induct) (auto intro: mover_step_ok)

text \<open>Progress never falls, never leaves the unit interval and is never a NaN.\<close>

lemma advance_progress:
  assumes "progress_ok p" and "speed_ok s" and "dt_ok dt"
  defines "p' \<equiv> f32_min (f32_add p (f32_mul s dt)) f32_one"
  shows "progress_ok p' \<and> f32_key p \<le> f32_key p'"
proof -
  have "\<not> f32_is_nan SPEED_MIN" "f32_key SPEED_MIN = 0" by code_simp+
  then have s: "f32_nonneg s" "f32_is_finite s"
    using assms(2) by (auto simp: speed_ok_def f32_lt_def f32_nonneg_def f32_class)
  have p: "f32_nonneg p" "f32_key p \<le> f32_key f32_one" using assms(1) by (auto simp: progress_ok_def f32_le_def)
  then have pf: "f32_is_finite p"
    using f32_one_facts(2) by (simp add: f32_nonneg_key f32_finite_mag)
  have x: "f32_nonneg (f32_mul s dt)" using s assms(3) by (intro f32_mul_nonneg) (auto simp: dt_ok_def)
  note a = f32_add_nonneg [OF p(1) pf x]
  have nn: "\<not> f32_is_nan (f32_add p (f32_mul s dt))" using a by (simp add: f32_nonneg_def)
  have key: "f32_key p' = min (f32_key (f32_add p (f32_mul s dt))) (f32_key f32_one)"
    unfolding p'_def by (rule f32_min_one_key [OF nn])
  have "f32_nonneg p'"
    using a p key f32_one_facts by (auto simp: f32_nonneg_def p'_def f32_min_not_nan)
  moreover have "f32_le p' f32_one" unfolding p'_def by (rule f32_min_one)
  ultimately show ?thesis using a p key by (auto simp: progress_ok_def)
qed

end
