(* ===== verification/Movers.thy ===== *)
theory Movers
  imports World
begin

text \<open>
  The three mover systems: \<open>systems/lifecycle.rs\<close> spawns, \<open>systems/movement.rs\<close> advances and
  lands, \<open>systems/interaction.rs\<close> routes. Each fills a scratch vector in one pass over the
  movers and applies it in a second. \<open>scratch_loop\<close> shows that such a pair of passes is one
  map over the movers; the contract of the systems is the locale \<open>mover_system\<close>.
\<close>

section \<open>The systems\<close>

type_synonym 'r step_state = "'r world \<times> sim_event list"

text \<open>\<open>lifecycle::run\<close>.\<close>

definition spawn_entry :: "'r world \<Rightarrow> mover \<Rightarrow> (u32 \<times> u32) option" where
  "spawn_entry w m = (case m_state m of
     MEmpty \<Rightarrow> map_option (\<lambda>p. (pa_id p, pa_from p)) (bt_get (w_paths w) (m_home_path m))
   | _ \<Rightarrow> None)"

definition scratch_of :: "('k \<Rightarrow> 'v \<Rightarrow> 'x option) \<Rightarrow> ('k, 'v) btree_map \<Rightarrow> ('k \<times> 'x) list" where
  "scratch_of sel ms = List.map_filter (\<lambda>(k, m). map_option (Pair k) (sel k m)) ms"

definition spawn_scratch :: "'r world \<Rightarrow> (u32 \<times> u32 \<times> u32) list" where
  "spawn_scratch w = scratch_of (\<lambda>_. spawn_entry w) (w_movers w)"

definition spawn_one :: "u32 \<times> u32 \<times> u32 \<Rightarrow> 'r step_state \<Rightarrow> 'r step_state" where
  "spawn_one e st = (case (e, st) of ((mid, pid, from), (w, ev)) \<Rightarrow>
     (case bt_get (w_movers w) mid of
       None \<Rightarrow> (w, ev)
     | Some m \<Rightarrow>
         (case spawn_at from m of
            Inl _ \<Rightarrow> (w, ev)
          | Inr m1 \<Rightarrow>
              (case begin_travel pid m1 of
                 Inl _ \<Rightarrow> (w\<lparr>w_movers := bt_insert mid m1 (w_movers w)\<rparr>, ev)
               | Inr m2 \<Rightarrow> (w\<lparr>w_movers := bt_insert mid m2 (w_movers w)\<rparr>,
                   ev @ [MoverDeparted mid from pid])))))"

definition lifecycle_run :: "'r step_state \<Rightarrow> 'r step_state" where
  "lifecycle_run st = fold spawn_one (spawn_scratch (fst st)) st"

text \<open>\<open>movement::run\<close>: advance everything, then land what reached the end of its path.\<close>

definition advance_entry :: "f32_bits \<Rightarrow> mover \<Rightarrow> mover \<times> u32 option" where
  "advance_entry dt m = (case m_state m of
     MTraveling p _ \<Rightarrow>
       (case advance_mover dt m of
          Inl _ \<Rightarrow> (m, None)
        | Inr (m', progress) \<Rightarrow> (m', if f32_le f32_one progress then Some p else None))
   | _ \<Rightarrow> (m, None))"

definition advance_all :: "'r world \<Rightarrow> 'r world" where
  "advance_all w = w\<lparr>w_movers := bt_map_values (\<lambda>_ m. fst (advance_entry (w_dt w) m)) (w_movers w)\<rparr>"

definition arrival_scratch :: "'r world \<Rightarrow> (u32 \<times> u32) list" where
  "arrival_scratch w = scratch_of (\<lambda>_ m. snd (advance_entry (w_dt w) m)) (w_movers w)"

definition arrive_one :: "u32 \<times> u32 \<Rightarrow> 'r step_state \<times> u32 \<Rightarrow> 'r step_state \<times> u32" where
  "arrive_one e st = (case (e, st) of ((mid, pid), ((w, ev), n)) \<Rightarrow>
     (case (bt_get (w_movers w) mid, map_option pa_to (bt_get (w_paths w) pid)) of
       (Some m, Some to) \<Rightarrow>
         (case arrive to m of
            Inl _ \<Rightarrow> ((w, ev), n)
          | Inr m' \<Rightarrow> ((w\<lparr>w_movers := bt_insert mid m' (w_movers w)\<rparr>,
              ev @ [MoverArrived mid to pid]), n + 1))
     | _ \<Rightarrow> ((w, ev), n)))"

definition movement_run :: "'r step_state \<Rightarrow> 'r step_state \<times> u32" where
  "movement_run st =
     fold arrive_one (arrival_scratch (fst st)) ((advance_all (fst st), snd st), 0)"

text \<open>\<open>interaction::run\<close>: the outgoing path of least id.\<close>

definition route_entry :: "'r world \<Rightarrow> mover \<Rightarrow> (u32 \<times> u32) option" where
  "route_entry w m = (case m_state m of
     MWaiting at \<Rightarrow>
       map_option (\<lambda>e. (fst e, at)) (find (\<lambda>e. pa_from (snd e) = at) (w_paths w))
   | _ \<Rightarrow> None)"

definition route_scratch :: "'r world \<Rightarrow> (u32 \<times> u32 \<times> u32) list" where
  "route_scratch w = scratch_of (\<lambda>_. route_entry w) (w_movers w)"

definition route_one :: "u32 \<times> u32 \<times> u32 \<Rightarrow> 'r step_state \<Rightarrow> 'r step_state" where
  "route_one e st = (case (e, st) of ((mid, pid, from), (w, ev)) \<Rightarrow>
     (case bt_get (w_movers w) mid of
       None \<Rightarrow> (w, ev)
     | Some m \<Rightarrow>
         (case begin_travel pid m of
            Inl _ \<Rightarrow> (w, ev)
          | Inr m' \<Rightarrow> (w\<lparr>w_movers := bt_insert mid m' (w_movers w)\<rparr>,
              ev @ [MoverDeparted mid from pid]))))"

definition interaction_run :: "'r step_state \<Rightarrow> 'r step_state" where
  "interaction_run st = fold route_one (route_scratch (fst st)) st"

section \<open>A scratch vector and its loop are one map\<close>

lemma bt_insert_mid:
  assumes "bt_wf (xs @ (k, m) # ys)"
  shows "bt_insert k v (xs @ (k, m) # ys) = xs @ (k, v) # ys"
  using assms
proof (induction xs)
  case (Cons x xs)
  then have "fst x < k" and "bt_wf (xs @ (k, m) # ys)" by (auto simp: bt_wf_def)
  with Cons.IH show ?case by (cases x) auto
qed (simp add: bt_wf_def)

lemma bt_get_mid:
  assumes "bt_wf (xs @ (k, m) # ys)"
  shows "bt_get (xs @ (k, m) # ys) k = Some m"
  using bt_wf_get [OF assms, of k m] by simp

definition apply_scratch ::
  "('k \<Rightarrow> 'v \<Rightarrow> 'x option) \<Rightarrow> ('k \<Rightarrow> 'x \<Rightarrow> 'v \<Rightarrow> 'v) \<Rightarrow> 'k \<Rightarrow> 'v \<Rightarrow> 'v" where
  "apply_scratch sel f k m = (case sel k m of None \<Rightarrow> m | Some x \<Rightarrow> f k x m)"

definition scratch_log ::
  "('k \<Rightarrow> 'v \<Rightarrow> 'x option) \<Rightarrow> ('k \<Rightarrow> 'x \<Rightarrow> 'v \<Rightarrow> 'e) \<Rightarrow> ('k, 'v) btree_map \<Rightarrow> 'e list" where
  "scratch_log sel g ms = List.map_filter (\<lambda>(k, m). map_option (\<lambda>x. g k x m) (sel k m)) ms"

lemma scratch_loop:
  fixes E :: "('k::linorder, 'v) btree_map \<Rightarrow> 'e list \<Rightarrow> 's"
  assumes "bt_wf ms"
    and body: "\<And>k x m ms' es. (k, m) \<in> set ms \<Longrightarrow> bt_get ms' k = Some m \<Longrightarrow> sel k m = Some x \<Longrightarrow>
      body (k, x) (E ms' es) = E (bt_insert k (f k x m) ms') (es @ [g k x m])"
  shows "fold body (scratch_of sel ms) (E ms es)
    = E (bt_map_values (apply_scratch sel f) ms) (es @ scratch_log sel g ms)"
proof -
  have "fold body (scratch_of sel ys) (E (xs @ ys) es)
      = E (xs @ bt_map_values (apply_scratch sel f) ys) (es @ scratch_log sel g ys)"
    if "bt_wf (xs @ ys)" and "set ys \<subseteq> set ms" for xs ys es
    using that
  proof (induction ys arbitrary: xs es)
    case Nil
    then show ?case by (simp add: scratch_of_def scratch_log_def bt_map_values_def List.map_filter_def)
  next
    case (Cons y ys)
    obtain k m where y: "y = (k, m)" by (cases y)
    from Cons.prems(1) have wf: "bt_wf (xs @ (k, m) # ys)" by (simp add: y)
    have km: "(k, m) \<in> set ms" and sub: "set ys \<subseteq> set ms" using Cons.prems(2) by (auto simp: y)
    have wf': "bt_wf ((xs @ [(k, v)]) @ ys)" for v
      using wf bt_wf_insert [OF wf, of k v] by (simp only: bt_insert_mid [OF wf]) simp
    show ?case
    proof (cases "sel k m")
      case None
      then show ?thesis
        using Cons.IH [OF wf' [of m] sub, of es]
        by (simp add: y scratch_of_def scratch_log_def bt_map_values_def apply_scratch_def List.map_filter_simps)
    next
      case (Some x)
      have "body (k, x) (E (xs @ (k, m) # ys) es) = E (xs @ (k, f k x m) # ys) (es @ [g k x m])"
        using body [OF km bt_get_mid [OF wf] Some] by (simp add: bt_insert_mid [OF wf])
      then show ?thesis
        using Cons.IH [OF wf' [of "f k x m"] sub, of "es @ [g k x m]"] Some
        by (simp add: y scratch_of_def scratch_log_def bt_map_values_def apply_scratch_def List.map_filter_simps)
    qed
  qed
  from this [of "[]" ms es] assms(1) show ?thesis by simp
qed

section \<open>The systems, mover by mover\<close>

lemma bt_map_values_simps [simp]:
  "bt_map_values f [] = []"
  "bt_map_values f ((k, v) # m) = (k, f k v) # bt_map_values f m"
  by (simp_all add: bt_map_values_def)

lemma bt_map_values_insert:
  "bt_map_values (\<lambda>_. h) (bt_insert k v m) = bt_insert k (h v) (bt_map_values (\<lambda>_. h) m)"
  by (induction m) auto

lemma bt_map_values_comp:
  "bt_map_values f (bt_map_values g m) = bt_map_values (\<lambda>k v. f k (g k v)) m"
  by (induction m) auto

lemma bt_map_values_cong:
  "(\<And>k v. (k, v) \<in> set m \<Longrightarrow> f k v = g k v) \<Longrightarrow> bt_map_values f m = bt_map_values g m"
  by (auto simp: bt_map_values_def)

definition spawned :: "'r world \<Rightarrow> mover \<Rightarrow> mover" where
  "spawned w m = (case spawn_entry w m of
     None \<Rightarrow> m | Some (p, _) \<Rightarrow> m\<lparr>m_state := MTraveling p f32_zero\<rparr>)"

definition moved :: "'r world \<Rightarrow> mover \<Rightarrow> mover" where
  "moved w m = (case advance_entry (w_dt w) m of
     (m', None) \<Rightarrow> m'
   | (m', Some p) \<Rightarrow> m'\<lparr>m_state := MWaiting (pa_to (the (bt_get (w_paths w) p)))\<rparr>)"

definition routed :: "'r world \<Rightarrow> mover \<Rightarrow> mover" where
  "routed w m = (case route_entry w m of
     None \<Rightarrow> m | Some (p, _) \<Rightarrow> m\<lparr>m_state := MTraveling p f32_zero\<rparr>)"

abbreviation map_movers :: "(mover \<Rightarrow> mover) \<Rightarrow> 'r world \<Rightarrow> 'r world" where
  "map_movers f w \<equiv> w\<lparr>w_movers := bt_map_values (\<lambda>_. f) (w_movers w)\<rparr>"

lemma world_movers_wf: "world_wf w \<Longrightarrow> bt_wf (w_movers w)"
  using world_wfD(4) by (auto dest: table_okD(1))

lemma lifecycle_pointwise:
  assumes "bt_wf (w_movers w)"
  shows "lifecycle_run (w, ev) = (map_movers (spawned w) w,
    ev @ scratch_log (\<lambda>_. spawn_entry w) (\<lambda>k (p, n) _. MoverDeparted k n p) (w_movers w))"
proof -
  have "fold spawn_one (spawn_scratch w) (w\<lparr>w_movers := w_movers w\<rparr>, ev @ [])
    = (w\<lparr>w_movers := bt_map_values (apply_scratch (\<lambda>_. spawn_entry w)
          (\<lambda>_ (p, _) m. m\<lparr>m_state := MTraveling p f32_zero\<rparr>)) (w_movers w)\<rparr>,
       ev @ [] @ scratch_log (\<lambda>_. spawn_entry w) (\<lambda>k (p, n) _. MoverDeparted k n p) (w_movers w))"
    unfolding spawn_scratch_def
    by (rule scratch_loop [where E = "\<lambda>ms es. (w\<lparr>w_movers := ms\<rparr>, ev @ es)"])
      (use assms in \<open>auto simp: spawn_one_def spawn_entry_def spawn_at_def begin_travel_def
        split: mover_state.splits\<close>)
  moreover have "apply_scratch (\<lambda>_ :: u32. spawn_entry w) (\<lambda>_ (p, _) m. m\<lparr>m_state := MTraveling p f32_zero\<rparr>)
      = (\<lambda>_. spawned w)"
    by (auto simp: fun_eq_iff apply_scratch_def spawned_def split: option.splits)
  ultimately show ?thesis by (simp add: lifecycle_run_def)
qed

lemma interaction_pointwise:
  assumes "bt_wf (w_movers w)"
  shows "interaction_run (w, ev) = (map_movers (routed w) w,
    ev @ scratch_log (\<lambda>_. route_entry w) (\<lambda>k (p, n) _. MoverDeparted k n p) (w_movers w))"
proof -
  have "fold route_one (route_scratch w) (w\<lparr>w_movers := w_movers w\<rparr>, ev @ [])
    = (w\<lparr>w_movers := bt_map_values (apply_scratch (\<lambda>_. route_entry w)
          (\<lambda>_ (p, _) m. m\<lparr>m_state := MTraveling p f32_zero\<rparr>)) (w_movers w)\<rparr>,
       ev @ [] @ scratch_log (\<lambda>_. route_entry w) (\<lambda>k (p, n) _. MoverDeparted k n p) (w_movers w))"
    unfolding route_scratch_def
    by (rule scratch_loop [where E = "\<lambda>ms es. (w\<lparr>w_movers := ms\<rparr>, ev @ es)"])
      (use assms in \<open>auto simp: route_one_def route_entry_def begin_travel_def
        split: mover_state.splits\<close>)
  moreover have "apply_scratch (\<lambda>_ :: u32. route_entry w) (\<lambda>_ (p, _) m. m\<lparr>m_state := MTraveling p f32_zero\<rparr>)
      = (\<lambda>_. routed w)"
    by (auto simp: fun_eq_iff apply_scratch_def routed_def split: option.splits)
  ultimately show ?thesis by (simp add: interaction_run_def)
qed

text \<open>What lands is travelling, on a path that exists, at the end of it.\<close>

lemma advance_entry_Some:
  assumes "advance_entry dt m = (m', Some p)"
  shows "\<exists>pr. m_state m' = MTraveling p pr \<and> f32_le f32_one pr \<and> (\<exists>pr0. m_state m = MTraveling p pr0)"
  using assms by (auto simp: advance_entry_def advance_mover_def Let_def split: mover_state.splits if_splits)

lemma travelling_path:
  assumes "world_wf w" and "(k, m) \<in> set (w_movers w)" and "m_state m = MTraveling p pr"
  shows "\<exists>pa. bt_get (w_paths w) p = Some pa"
  using wf_mover(2) [OF assms(1,2)] assms(3) by (simp add: mover_ok_def bt_has_Some)

definition landing_log :: "'r world \<Rightarrow> sim_event list" where
  "landing_log w = scratch_log (\<lambda>_ m. snd (advance_entry (w_dt w) m))
     (\<lambda>k p _. MoverArrived k (pa_to (the (bt_get (w_paths w) p))) p) (w_movers w)"

lemma movement_pointwise:
  assumes "world_wf w"
  shows "movement_run (w, ev)
    = ((map_movers (moved w) w, ev @ landing_log w), of_nat (length (landing_log w)))"
proof -
  let ?a = "bt_map_values (\<lambda>_. advance_entry (w_dt w)) (w_movers w)"
  let ?E = "\<lambda>ms es. ((w\<lparr>w_movers := bt_map_values (\<lambda>_. fst) ms\<rparr>, ev @ es), of_nat (length es) :: u32)"
  let ?to = "\<lambda>p. pa_to (the (bt_get (w_paths w) p))"
  let ?f = "\<lambda>_ p (m, s). (m\<lparr>m_state := MWaiting (?to p)\<rparr>, s)"
  have wf: "bt_wf ?a" using world_movers_wf [OF assms] by simp
  have "fold arrive_one (scratch_of (\<lambda>_. snd) ?a) (?E ?a [])
    = ?E (bt_map_values (apply_scratch (\<lambda>_. snd) ?f) ?a)
         ([] @ scratch_log (\<lambda>_. snd) (\<lambda>k p _. MoverArrived k (?to p) p) ?a)"
  proof (rule scratch_loop [OF wf])
    fix k x m ms' es
    assume mem: "(k, m) \<in> set ?a" and get: "bt_get ms' k = Some m" and sel: "snd m = Some x"
    from mem obtain m0 where m0: "(k, m0) \<in> set (w_movers w)" "m = advance_entry (w_dt w) m0"
      by (auto simp: bt_map_values_def)
    obtain m1 where m: "m = (m1, Some x)" using sel by (cases m) simp
    with m0(2) obtain pr pr0 where "m_state m1 = MTraveling x pr" and tr: "m_state m0 = MTraveling x pr0"
      using advance_entry_Some [of "w_dt w" m0 m1 x] by auto
    moreover obtain pa where "bt_get (w_paths w) x = Some pa"
      using travelling_path [OF assms m0(1) tr] by blast
    ultimately show "arrive_one (k, x) (?E ms' es) = ?E (bt_insert k (?f k x m) ms') (es @ [MoverArrived k (?to x) x])"
      using get by (simp add: m arrive_one_def arrive_def bt_map_values_insert)
  qed
  moreover have "scratch_of (\<lambda>_. snd) ?a = arrival_scratch w"
    by (simp add: scratch_of_def arrival_scratch_def List.map_filter_def bt_map_values_def filter_map
        o_def case_prod_beta)
  moreover have "scratch_log (\<lambda>_. snd) (\<lambda>k p _. MoverArrived k (?to p) p) ?a = landing_log w"
    by (simp add: scratch_log_def landing_log_def List.map_filter_def bt_map_values_def filter_map
        o_def case_prod_beta)
  moreover have "bt_map_values (\<lambda>_. fst) (bt_map_values (apply_scratch (\<lambda>_. snd) ?f) ?a)
      = bt_map_values (\<lambda>_. moved w) (w_movers w)"
    unfolding bt_map_values_comp
    by (rule bt_map_values_cong) (auto simp: apply_scratch_def moved_def split: prod.splits option.splits)
  moreover have "?E ?a [] = ((advance_all w, ev), 0)"
    by (simp add: advance_all_def bt_map_values_comp)
  ultimately show ?thesis by (simp add: movement_run_def)
qed

section \<open>The contract of the systems\<close>

definition legal_move :: "'r world \<Rightarrow> mover \<Rightarrow> mover \<Rightarrow> bool" where
  "legal_move w m m' \<longleftrightarrow> m_id m' = m_id m \<and> m_home_path m' = m_home_path m
     \<and> m_speed m' = m_speed m \<and> mover_steps w (m_state m) (m_state m')"

text \<open>
  A system gives every mover a legal move, changes nothing else, and only adds events.
\<close>

locale mover_system =
  fixes run :: "'r step_state \<Rightarrow> 'r step_state"
  assumes legal: "world_wf w \<Longrightarrow> \<exists>f. fst (run (w, ev)) = map_movers f w
      \<and> (\<forall>e \<in> set (w_movers w). legal_move w (snd e) (f (snd e)))"
    and appends: "world_wf w \<Longrightarrow> \<exists>new. snd (run (w, ev)) = ev @ new"
begin

lemma keeps_wf:
  assumes "world_wf w"
  shows "world_wf (fst (run (w, ev)))"
proof -
  obtain f where f: "fst (run (w, ev)) = map_movers f w"
    and all: "\<forall>e \<in> set (w_movers w). legal_move w (snd e) (f (snd e))"
    using legal [OF assms, of ev] by auto
  have legal: "legal_move w m (f m)" if "(k, m) \<in> set (w_movers w)" for k m
    using bspec [OF all that] by simp
  have step: "mover_state_ok (map_movers f w) s = mover_state_ok w s" for s
    by (cases s) simp_all
  have p: "path_ok (map_movers f w) = path_ok w"
    by (simp add: fun_eq_iff path_ok_def)
  have "table_ok m_id (mover_ok (map_movers f w)) (bt_map_values (\<lambda>_. f) (w_movers w))"
    unfolding table_ok_def
  proof (intro conjI allI impI)
    show "bt_wf (bt_map_values (\<lambda>_. f) (w_movers w))"
      using table_okD(1) [OF world_wfD(4) [OF assms]] by simp
    fix k m' assume "bt_get (bt_map_values (\<lambda>_. f) (w_movers w)) k = Some m'"
    then obtain m where m: "bt_get (w_movers w) k = Some m" "m' = f m" by auto
    then have mem: "(k, m) \<in> set (w_movers w)" by (auto dest: map_of_SomeD)
    note l = legal [OF mem] and ok = wf_mover [OF assms mem]
    show "m_id m' = k" using l ok m by (simp add: legal_move_def)
    have "mover_state_ok w (m_state m')"
      using l ok mover_steps_ok [OF _ assms] by (auto simp: legal_move_def mover_ok_def m(2))
    then show "mover_ok (map_movers f w) m'"
      using l ok by (simp add: mover_ok_def legal_move_def m(2) step)
  qed
  then show ?thesis using assms unfolding f world_wf_def by (simp add: p)
qed

lemma keeps_rest:
  assumes "world_wf w"
  shows "\<exists>ms. fst (run (w, ev)) = w\<lparr>w_movers := ms\<rparr> \<and> bt_keys ms = bt_keys (w_movers w)"
  using legal [OF assms, of ev] by auto

lemma one_mover:
  assumes "world_wf w" and "bt_get (w_movers w) k = Some m"
  shows "\<exists>m'. bt_get (w_movers (fst (run (w, ev)))) k = Some m' \<and> legal_move w m m'"
proof -
  have "(k, m) \<in> set (w_movers w)" using assms(2) by (rule map_of_SomeD)
  with legal [OF assms(1), of ev] assms(2) show ?thesis by fastforce
qed

end

section \<open>The systems fulfil it\<close>

lemma legal_refl: "legal_move w m m"
  by (simp add: legal_move_def)

lemma spawned_legal:
  assumes "world_wf w"
  shows "legal_move w m (spawned w m)"
proof (cases "spawn_entry w m")
  case None
  then show ?thesis by (simp add: spawned_def legal_refl)
next
  case (Some x)
  then obtain pa where s: "m_state m = MEmpty" and pa: "bt_get (w_paths w) (m_home_path m) = Some pa"
    and x: "x = (pa_id pa, pa_from pa)"
    by (auto simp: spawn_entry_def split: mover_state.splits)
  note p = wf_path [OF assms pa]
  have "mover_step w MEmpty (MWaiting (pa_from pa))" using p by (intro step_spawn) simp
  moreover have "mover_step w (MWaiting (pa_from pa)) (MTraveling (pa_id pa) f32_zero)"
    using pa p by (intro step_depart) auto
  ultimately show ?thesis
    using Some by (simp add: spawned_def x legal_move_def s converse_rtranclp_into_rtranclp)
qed

lemma routed_legal:
  assumes "world_wf w"
  shows "legal_move w m (routed w m)"
proof (cases "route_entry w m")
  case None
  then show ?thesis by (simp add: routed_def legal_refl)
next
  case (Some x)
  then obtain n p pa where s: "m_state m = MWaiting n"
    and f: "find (\<lambda>e. pa_from (snd e) = n) (w_paths w) = Some (p, pa)" and x: "x = (p, n)"
    by (auto simp: route_entry_def split: mover_state.splits)
  from find_SomeD [OF f] have "(p, pa) \<in> set (w_paths w)" "pa_from pa = n" by auto
  moreover have "bt_wf (w_paths w)" using table_okD(1) [OF world_wfD(3) [OF assms]] .
  ultimately have "mover_step w (MWaiting n) (MTraveling p f32_zero)"
    by (intro step_depart) (auto simp: bt_wf_get)
  with Some show ?thesis by (simp add: routed_def x legal_move_def s)
qed

lemma moved_legal:
  assumes "world_wf w" and "(k, m) \<in> set (w_movers w)"
  shows "legal_move w m (moved w m)"
proof (cases "m_state m")
  case (MTraveling p pr)
  note ok = wf_mover(2) [OF assms]
  let ?pr = "f32_min (f32_add pr (f32_mul (m_speed m) (w_dt w))) f32_one"
  have pr: "progress_ok ?pr \<and> f32_key pr \<le> f32_key ?pr"
    using ok world_wfD(1) [OF assms(1)]
    by (intro advance_progress) (auto simp: mover_ok_def MTraveling)
  then have s1: "mover_step w (MTraveling p pr) (MTraveling p ?pr)" by (intro step_move) auto
  have e: "advance_entry (w_dt w) m
      = (m\<lparr>m_state := MTraveling p ?pr\<rparr>, if f32_le f32_one ?pr then Some p else None)"
    by (simp add: advance_entry_def advance_mover_def MTraveling Let_def)
  show ?thesis
  proof (cases "f32_le f32_one ?pr")
    case True
    obtain pa where pa: "bt_get (w_paths w) p = Some pa"
      using travelling_path [OF assms MTraveling] by blast
    have "mover_step w (MTraveling p ?pr) (MWaiting (pa_to pa))"
      using True pa by (intro step_arrive) auto
    with s1 e True pa show ?thesis
      by (simp add: moved_def legal_move_def MTraveling converse_rtranclp_into_rtranclp)
  next
    case False
    with s1 e show ?thesis by (auto simp: moved_def legal_move_def MTraveling)
  qed
qed (simp_all add: moved_def advance_entry_def legal_refl)

interpretation spawning: mover_system lifecycle_run
  by unfold_locales (use spawned_legal in \<open>auto simp: lifecycle_pointwise world_movers_wf\<close>)

interpretation routing: mover_system interaction_run
  by unfold_locales (use routed_legal in \<open>auto simp: interaction_pointwise world_movers_wf\<close>)

lemma moved_legal_all: "world_wf w \<Longrightarrow> \<forall>e \<in> set (w_movers w). legal_move w (snd e) (moved w (snd e))"
  by (auto intro: moved_legal)

interpretation landing: mover_system "fst \<circ> movement_run"
  by unfold_locales (use moved_legal_all in \<open>auto simp: movement_pointwise\<close>)

end
