(* ===== verification/Actions.thy ===== *)
theory Actions
  imports World Float_Text
begin

text \<open>
  \<open>actions.rs\<close>: what the actions of a hosted agent do to the world. Every request is checked;
  a refused one leaves the world and the events alone and carries the warning. New pieces
  take the least free id (\<open>next_dense\<close>), and a node goes only when no mover depends on it.
\<close>

section \<open>Outcomes\<close>

datatype action_outcome = Applied | NoChange | Rejected warning_payload

definition invalid :: "string \<Rightarrow> string \<Rightarrow> action_outcome" where
  "invalid agent reason = Rejected (InvalidAction agent reason)"

type_synonym 'r act_state = "'r world \<times> sim_event list"
type_synonym 'r act_result = "('r world \<times> sim_event list) \<times> action_outcome"

definition COORD_LIMIT :: f32_bits where "COORD_LIMIT = 0x49742400"
definition MAX_PIECE_KIND_LEN :: nat where "MAX_PIECE_KIND_LEN = 64"
definition MAX_RESOURCE_NAME_LEN :: nat where "MAX_RESOURCE_NAME_LEN = 64"
definition AMOUNT_MAX :: u64 where "AMOUNT_MAX = 1000000"
definition INTERVAL_MAX :: u32 where "INTERVAL_MAX = 10000"

section \<open>Strings\<close>

text \<open>\<open>chars().count()\<close>: the bytes that do not continue a character.\<close>

definition char_count :: "string \<Rightarrow> nat" where
  "char_count s = length (filter (\<lambda>c. (of_char c :: int) div 64 \<noteq> 2) s)"

definition to_ascii_lowercase :: "string \<Rightarrow> string" where
  "to_ascii_lowercase s =
     map (\<lambda>c. if CHR ''A'' \<le> c \<and> c \<le> CHR ''Z'' then char_of (of_char c + (32 :: int)) else c) s"

definition quoted :: "string \<Rightarrow> string" where "quoted s = ''`'' @ s @ ''`''"

section \<open>Free ids\<close>

text \<open>The keys come in increasing order.\<close>

fun next_dense :: "u32 \<Rightarrow> u32 list \<Rightarrow> u32 option" where
  "next_dense candidate [] = Some candidate"
| "next_dense candidate (i # ids) =
     (if i = candidate
      then (case checked_add candidate 1 of None \<Rightarrow> None | Some c \<Rightarrow> next_dense c ids)
      else if candidate < i then Some candidate
      else next_dense candidate ids)"

definition next_node_id :: "'r world \<Rightarrow> u32 option" where
  "next_node_id w = next_dense 0 (bt_keys (w_nodes w))"

definition next_path_id :: "'r world \<Rightarrow> u32 option" where
  "next_path_id w = next_dense 0 (bt_keys (w_paths w))"

definition next_resource_id :: "'r world \<Rightarrow> u32 option" where
  "next_resource_id w = next_dense 0 (bt_keys (w_resources w))"

definition next_producer_id :: "'r world \<Rightarrow> u32 option" where
  "next_producer_id w = next_dense 0 (bt_keys (pw_producers w))"

definition next_consumer_id :: "'r world \<Rightarrow> u32 option" where
  "next_consumer_id w = next_dense 0 (bt_keys (pw_consumers w))"

section \<open>Speeds\<close>

definition set_speed :: "string \<Rightarrow> u32 \<Rightarrow> f32_bits \<Rightarrow> 'r act_state \<Rightarrow> 'r act_result" where
  "set_speed agent mid speed st = (case st of (w, ev) \<Rightarrow>
     if \<not> speed_ok speed
     then (st, invalid agent (''speed '' @ f32_display speed @ '' out of range ['' @ f32_display SPEED_MIN
            @ '','' @ f32_display SPEED_MAX @ '']''))
     else (case bt_get (w_movers w) mid of
        None \<Rightarrow> (st, invalid agent (''unknown mover '' @ dec mid))
      | Some m \<Rightarrow>
          let old = m_speed m in
          if f32_lt (f32_abs (f32_sub old speed)) F32_EPSILON then (st, NoChange)
          else ((w\<lparr>w_movers := bt_insert mid (m\<lparr>m_speed := speed\<rparr>) (w_movers w)\<rparr>,
                 ev @ [MoverSpeedChange mid old speed]), Applied)))"

section \<open>Nodes and paths\<close>

definition normalize_kind :: "string \<Rightarrow> string" where
  "normalize_kind s = map (\<lambda>c. if c = CHR ''-'' \<or> c = CHR '':'' then CHR ''_'' else c)
     (to_ascii_lowercase (trim s))"

definition node_shape_for_piece_kind :: "string \<Rightarrow> node_shape option" where
  "node_shape_for_piece_kind kind =
     (let n = normalize_kind kind in
      if n \<in> {''node'', ''circle'', ''node_circle''} then Some Circle
      else if n \<in> {''square'', ''node_square''} then Some Square
      else if n \<in> {''triangle'', ''node_triangle''} then Some Triangle
      else if n \<in> {''diamond'', ''node_diamond''} then Some Diamond
      else if n \<in> {''hexagon'', ''node_hexagon''} then Some Hexagon
      else None)"

definition coord_bad :: "f32_bits \<Rightarrow> bool" where
  "coord_bad c \<longleftrightarrow> \<not> f32_is_finite c \<or> f32_lt COORD_LIMIT (f32_abs c)"

definition place_piece ::
  "string \<Rightarrow> string \<Rightarrow> f32_bits \<times> f32_bits \<Rightarrow> 'r act_state \<Rightarrow> 'r act_result" where
  "place_piece agent kind pos st = (case st of (w, ev) \<Rightarrow>
     if blank kind then (st, invalid agent ''piece_kind is empty'')
     else if MAX_PIECE_KIND_LEN < char_count kind
     then (st, invalid agent (''piece_kind longer than '' @ dec_nat MAX_PIECE_KIND_LEN @ '' chars''))
     else (case node_shape_for_piece_kind kind of
        None \<Rightarrow> (st, invalid agent (''unsupported piece_kind '' @ quoted kind
                  @ ''; expected node or node shape''))
      | Some shape \<Rightarrow>
          if coord_bad (fst pos) \<or> coord_bad (snd pos)
          then (st, invalid agent (''position ['' @ f32_display (fst pos) @ '', '' @ f32_display (snd pos)
                 @ ''] is non-finite or outside '' @ [CHR 0xC2, CHR 0xB1] @ f32_display COORD_LIMIT))
          else (case next_node_id w of
             None \<Rightarrow> (st, invalid agent ''node id space exhausted'')
           | Some i \<Rightarrow>
               ((w\<lparr>w_nodes := bt_insert i \<lparr>n_id = i, n_pos = pos, n_shape = shape, n_color = 0\<rparr> (w_nodes w)\<rparr>,
                 ev @ [NodeHighlighted i AgentFocus]), Applied))))"

definition connect_pieces :: "string \<Rightarrow> u32 \<Rightarrow> u32 \<Rightarrow> 'r act_state \<Rightarrow> 'r act_result" where
  "connect_pieces agent fr to st = (case st of (w, ev) \<Rightarrow>
     if fr = to then (st, invalid agent (''cannot connect node '' @ dec fr @ '' to itself''))
     else if \<not> bt_has (w_nodes w) fr then (st, invalid agent (''unknown from node '' @ dec fr))
     else if \<not> bt_has (w_nodes w) to then (st, invalid agent (''unknown to node '' @ dec to))
     else if list_ex (\<lambda>p. pa_from p = fr \<and> pa_to p = to) (bt_values (w_paths w))
     then (st, invalid agent (''path from node '' @ dec fr @ '' to node '' @ dec to @ '' already exists''))
     else (case next_path_id w of
        None \<Rightarrow> (st, invalid agent ''path id space exhausted'')
      | Some i \<Rightarrow>
          ((w\<lparr>w_paths := bt_insert i \<lparr>pa_id = i, pa_from = fr, pa_to = to, pa_color = 0\<rparr> (w_paths w)\<rparr>,
            ev @ [PathPulsed i]), Applied)))"

definition incident_paths :: "'r world \<Rightarrow> u32 \<Rightarrow> u32 list" where
  "incident_paths w i =
     map fst (filter (\<lambda>(_, p). pa_from p = i \<or> pa_to p = i) (w_paths w))"

text \<open>The first mover, in id order, that needs the node, and why.\<close>

definition mover_blocks :: "u32 \<Rightarrow> u32 list \<Rightarrow> mover \<Rightarrow> string option" where
  "mover_blocks i incident m =
     (let by_state = (case m_state m of
         MWaiting at \<Rightarrow> if at = i
           then Some (''node '' @ dec i @ '' has mover '' @ dec (m_id m) @ '' waiting at it'') else None
       | MTraveling p _ \<Rightarrow> if p \<in> set incident
           then Some (''node '' @ dec i @ '' is used by mover '' @ dec (m_id m) @ '' traveling on path ''
                  @ dec p) else None
       | MEmpty \<Rightarrow> None) in
      case by_state of
        Some r \<Rightarrow> Some r
      | None \<Rightarrow> if m_home_path m \<in> set incident
          then Some (''node '' @ dec i @ '' is used by mover '' @ dec (m_id m) @ '' home path ''
                 @ dec (m_home_path m)) else None)"

fun first_blocker :: "u32 \<Rightarrow> u32 list \<Rightarrow> mover list \<Rightarrow> string option" where
  "first_blocker i incident [] = None"
| "first_blocker i incident (m # ms) =
     (case mover_blocks i incident m of Some r \<Rightarrow> Some r | None \<Rightarrow> first_blocker i incident ms)"

definition remove_piece :: "string \<Rightarrow> u32 \<Rightarrow> 'r act_state \<Rightarrow> 'r act_result" where
  "remove_piece agent i st = (case st of (w, ev) \<Rightarrow>
     if \<not> bt_has (w_nodes w) i then (st, invalid agent (''unknown node '' @ dec i))
     else let incident = incident_paths w i in
       (case first_blocker i incident (bt_values (w_movers w)) of
          Some r \<Rightarrow> (st, invalid agent r)
        | None \<Rightarrow> ((w\<lparr>w_paths := fold bt_remove incident (w_paths w),
                      w_nodes := bt_remove i (w_nodes w)\<rparr>, ev), Applied)))"

section \<open>Author tools\<close>

definition validate_resource_name :: "string \<Rightarrow> string \<Rightarrow> action_outcome + unit" where
  "validate_resource_name agent name =
     (if name = [] then Inl (invalid agent ''resource name is empty'')
      else if MAX_RESOURCE_NAME_LEN < char_count name
      then Inl (invalid agent (''resource name longer than '' @ dec_nat MAX_RESOURCE_NAME_LEN @ '' chars''))
      else if \<not> list_all (\<lambda>c. is_ascii_alphanumeric c \<or> c = CHR ''_'' \<or> c = CHR ''-'') name
      then Inl (invalid agent (''resource name '' @ quoted name @ '' must match [A-Za-z0-9_-]+''))
      else Inr ())"

definition validate_amount_and_interval :: "string \<Rightarrow> u64 \<Rightarrow> u32 \<Rightarrow> action_outcome + unit" where
  "validate_amount_and_interval agent amount interval =
     (if amount = 0 \<or> AMOUNT_MAX < amount
      then Inl (invalid agent (''amount '' @ dec amount @ '' out of range (1..='' @ dec AMOUNT_MAX @ '')''))
      else if interval = 0 \<or> INTERVAL_MAX < interval
      then Inl (invalid agent (''interval_ticks '' @ dec interval @ '' out of range (1..=''
             @ dec INTERVAL_MAX @ '')''))
      else Inr ())"

definition define_resource :: "string \<Rightarrow> string \<Rightarrow> u8 \<Rightarrow> 'r act_state \<Rightarrow> 'r act_result" where
  "define_resource agent name color st = (case st of (w, ev) \<Rightarrow>
     (case validate_resource_name agent name of
        Inl r \<Rightarrow> (st, r)
      | Inr _ \<Rightarrow>
          if list_ex (\<lambda>r. re_name r = name) (bt_values (w_resources w))
          then (st, invalid agent (''resource '' @ quoted name @ '' already exists''))
          else (case next_resource_id w of
             None \<Rightarrow> (st, invalid agent ''resource id space exhausted'')
           | Some i \<Rightarrow>
               ((w\<lparr>w_resources := bt_insert i \<lparr>re_id = i, re_name = name, re_color = color\<rparr> (w_resources w),
                   pw_inventory := bt_insert i 0 (pw_inventory w)\<rparr>, ev), Applied))))"

definition add_producer :: "string \<Rightarrow> string \<Rightarrow> u64 \<Rightarrow> u32 \<Rightarrow> 'r act_state \<Rightarrow> 'r act_result" where
  "add_producer agent rname amount interval st = (case st of (w, ev) \<Rightarrow>
     (case resource_id_by_name w rname of
        None \<Rightarrow> (st, invalid agent (''unknown resource '' @ quoted rname))
      | Some rid \<Rightarrow>
          (case validate_amount_and_interval agent amount interval of
             Inl r \<Rightarrow> (st, r)
           | Inr _ \<Rightarrow>
               (case next_producer_id w of
                  None \<Rightarrow> (st, invalid agent ''producer id space exhausted'')
                | Some i \<Rightarrow>
                    ((w\<lparr>pw_producers := bt_insert i \<lparr>p_id = i, p_resource = rid, p_amount = amount,
                         p_interval_ticks = interval\<rparr> (pw_producers w)\<rparr>, ev), Applied)))))"

definition add_consumer :: "string \<Rightarrow> string \<Rightarrow> u64 \<Rightarrow> u32 \<Rightarrow> 'r act_state \<Rightarrow> 'r act_result" where
  "add_consumer agent rname amount interval st = (case st of (w, ev) \<Rightarrow>
     (case resource_id_by_name w rname of
        None \<Rightarrow> (st, invalid agent (''unknown resource '' @ quoted rname))
      | Some rid \<Rightarrow>
          (case validate_amount_and_interval agent amount interval of
             Inl r \<Rightarrow> (st, r)
           | Inr _ \<Rightarrow>
               (case next_consumer_id w of
                  None \<Rightarrow> (st, invalid agent ''consumer id space exhausted'')
                | Some i \<Rightarrow>
                    ((w\<lparr>pw_consumers := bt_insert i \<lparr>c_id = i, c_resource = rid, c_amount = amount,
                         c_interval_ticks = interval\<rparr> (pw_consumers w)\<rparr>, ev), Applied)))))"

definition set_goal :: "string \<Rightarrow> string \<Rightarrow> 'r act_state \<Rightarrow> 'r act_result" where
  "set_goal agent goal st =
     (let n = map (\<lambda>c. if c = CHR ''-'' then CHR ''_'' else c) (to_ascii_lowercase (trim goal)) in
      if n = ''loop_forever'' then (st, NoChange)
      else (st, invalid agent (''unknown goal '' @ quoted n)))"

section \<open>Dispatch\<close>

fun apply_world_action :: "string \<Rightarrow> action \<Rightarrow> 'r act_state \<Rightarrow> 'r act_result" where
  "apply_world_action agent NoOp st = (st, NoChange)"
| "apply_world_action agent (SetSpeed m s) st = set_speed agent m s st"
| "apply_world_action agent (PlacePiece k pos) st = place_piece agent k pos st"
| "apply_world_action agent (ConnectPieces a b) st = connect_pieces agent a b st"
| "apply_world_action agent (RemovePiece i) st = remove_piece agent i st"
| "apply_world_action agent (DefineResource n c) st = define_resource agent n c st"
| "apply_world_action agent (AddProducer r a i) st = add_producer agent r a i st"
| "apply_world_action agent (AddConsumer r a i) st = add_consumer agent r a i st"
| "apply_world_action agent (SetGoal g) st = set_goal agent g st"

section \<open>The free id is the least one\<close>

lemma checked_add_one: "checked_add c 1 = Some d \<Longrightarrow> d = c + 1 \<and> c < d" for c :: u32
  using checked_add_Some [of c 1 d] by (auto simp: word_less_nat_alt checked_add_def split: if_splits)

lemma checked_add_one_None: "j \<le> c" if "checked_add c 1 = None" for c :: u32
proof (rule ccontr)
  assume "\<not> j \<le> c"
  then have "unat c + 1 < 2 ^ 32" using unat_lt [of j] by (simp add: word_le_nat_alt)
  then have "unat (c + 1) = unat c + 1" by (simp add: unat_word_ariths(1))
  with that show False by (simp add: checked_add_def word_less_nat_alt split: if_splits)
qed

lemma next_dense_spec:
  assumes "sorted_wrt (<) ids" and "\<And>x. x \<in> set ids \<Longrightarrow> c \<le> x"
  shows "case next_dense c ids of
      Some i \<Rightarrow> c \<le> i \<and> i \<notin> set ids \<and> (\<forall>j. c \<le> j \<and> j < i \<longrightarrow> j \<in> set ids)
    | None \<Rightarrow> (\<forall>j. c \<le> j \<longrightarrow> j \<in> set ids)"
  using assms
proof (induction c ids rule: next_dense.induct)
  case (2 c i ids)
  show ?case
  proof (cases "i = c")
    case True
    show ?thesis
    proof (cases "checked_add c 1")
      case None
      then show ?thesis using True checked_add_one_None [OF None] by (auto intro: antisym)
    next
      case (Some d)
      have d: "d = c + 1" "c < d" using checked_add_one [OF Some] by auto
      have up: "d \<le> x" if "c < x" for x
        using that d by (simp add: inc_le)
      with True 2(3) have "\<And>x. x \<in> set ids \<Longrightarrow> d \<le> x" by auto
      with 2(1) [OF True Some] 2(3) have ih: "case next_dense d ids of
          Some i \<Rightarrow> d \<le> i \<and> i \<notin> set ids \<and> (\<forall>j. d \<le> j \<and> j < i \<longrightarrow> j \<in> set ids)
        | None \<Rightarrow> (\<forall>j. d \<le> j \<longrightarrow> j \<in> set ids)" by simp
      have split: "c \<le> j \<longleftrightarrow> j = c \<or> d \<le> j" for j
        using up [of j] d(2) by (auto simp: order_le_less)
      show ?thesis
        using ih True Some d(2) by (auto simp: split split: option.splits)
    qed
  next
    case False
    with 2(4) [of i] have "c < i" by simp
    then show ?thesis using False 2(3) by auto
  qed
qed (auto simp: not_less)

text \<open>With every key of a well-formed table taken into account.\<close>

lemma next_dense_fresh:
  assumes "bt_wf m" and "next_dense 0 (bt_keys m) = Some i"
  shows "\<not> bt_has m i" and "j < i \<Longrightarrow> bt_has m j"
  using next_dense_spec [of "bt_keys m" 0] assms by (auto simp: bt_wf_def bt_has_keys)

lemma next_dense_full:
  assumes "bt_wf m" and "next_dense 0 (bt_keys m) = None"
  shows "bt_has m j"
  using next_dense_spec [of "bt_keys m" 0] assms by (auto simp: bt_wf_def bt_has_keys)

section \<open>Every action keeps the references intact\<close>

lemma table_ok_mono: "table_ok key P m \<Longrightarrow> (\<And>v. P v \<Longrightarrow> Q v) \<Longrightarrow> table_ok key Q m"
  by (auto simp: table_ok_def)

text \<open>A mover stays sound when nodes and paths are only added.\<close>

lemma mover_ok_mono:
  assumes "mover_ok w m" and "\<And>k. bt_has (w_nodes w) k \<Longrightarrow> bt_has (w_nodes w') k"
    and "\<And>k. bt_has (w_paths w) k \<Longrightarrow> bt_has (w_paths w') k"
  shows "mover_ok w' m"
  using assms by (cases "m_state m") (auto simp: mover_ok_def)

lemma add_node_wf:
  assumes "world_wf w" and "n_id n = i"
  shows "world_wf (w\<lparr>w_nodes := bt_insert i n (w_nodes w)\<rparr>)" (is "world_wf ?w")
proof -
  have "table_ok pa_id (path_ok ?w) (w_paths w)"
    by (rule table_ok_mono [OF world_wfD(3) [OF assms(1)]]) (auto simp: path_ok_def)
  moreover have "table_ok m_id (mover_ok ?w) (w_movers w)"
    by (rule table_ok_mono [OF world_wfD(4) [OF assms(1)]]) (rule mover_ok_mono, auto)
  moreover have "table_ok n_id (\<lambda>_. True) (bt_insert i n (w_nodes w))"
    by (rule table_ok_insert [OF world_wfD(2) [OF assms(1)] assms(2)]) simp
  ultimately show ?thesis using assms(1) unfolding world_wf_def by simp
qed

lemma add_path_wf:
  assumes "world_wf w" and "pa_id q = i" and "path_ok w q"
  shows "world_wf (w\<lparr>w_paths := bt_insert i q (w_paths w)\<rparr>)" (is "world_wf ?w")
proof -
  have p: "path_ok ?w = path_ok w" by (auto simp: path_ok_def fun_eq_iff)
  have "table_ok m_id (mover_ok ?w) (w_movers w)"
    by (rule table_ok_mono [OF world_wfD(4) [OF assms(1)]]) (rule mover_ok_mono, auto)
  moreover have "table_ok pa_id (path_ok w) (bt_insert i q (w_paths w))"
    by (rule table_ok_insert [OF world_wfD(3) [OF assms(1)] assms(2,3)])
  ultimately show ?thesis using assms(1) unfolding world_wf_def p by simp
qed

lemma set_speed_wf:
  assumes "world_wf w" and "bt_get (w_movers w) k = Some m" and "speed_ok s"
  shows "world_wf (w\<lparr>w_movers := bt_insert k (m\<lparr>m_speed := s\<rparr>) (w_movers w)\<rparr>)" (is "world_wf ?w")
proof -
  have st: "mover_state_ok ?w x = mover_state_ok w x" for x by (cases x) simp_all
  have eq: "path_ok ?w = path_ok w" "mover_ok ?w = mover_ok w"
    by (auto simp: path_ok_def mover_ok_def fun_eq_iff st)
  have "(k, m) \<in> set (w_movers w)" using assms(2) by (rule map_of_SomeD)
  note ok = wf_mover [OF assms(1) this]
  have "table_ok m_id (mover_ok w) (bt_insert k (m\<lparr>m_speed := s\<rparr>) (w_movers w))"
    using ok assms(3) by (intro table_ok_insert world_wfD(4) [OF assms(1)]) (auto simp: mover_ok_def)
  with assms(1) show ?thesis unfolding world_wf_def eq by simp
qed

lemma add_resource_wf:
  assumes "world_wf w" and "re_id r = i" and "\<not> bt_has (w_resources w) i"
    and "\<not> list_ex (\<lambda>q. re_name q = re_name r) (bt_values (w_resources w))"
  shows "world_wf (w\<lparr>w_resources := bt_insert i r (w_resources w), pw_inventory := bt_insert i 0 (pw_inventory w)\<rparr>)"
    (is "world_wf ?w")
proof -
  have st: "mover_state_ok ?w x = mover_state_ok w x" for x by (cases x) simp_all
  have eq: "path_ok ?w = path_ok w" "mover_ok ?w = mover_ok w"
    by (auto simp: path_ok_def mover_ok_def fun_eq_iff st)
  have new: "re_name q \<noteq> re_name r" if "bt_get (w_resources w) k = Some q" for k q
    using assms(4) map_of_SomeD [OF that] by (auto simp: list_ex_iff)
  have "names_distinct (bt_insert i r (w_resources w))"
    using world_wfD(10) [OF assms(1)] new new [THEN not_sym] unfolding names_distinct_def by auto
  moreover have "table_ok re_id (\<lambda>_. True) (bt_insert i r (w_resources w))"
    by (rule table_ok_insert [OF world_wfD(5) [OF assms(1)] assms(2)]) simp
  moreover have "table_ok p_id (\<lambda>p. bt_has (bt_insert i r (w_resources w)) (p_resource p)) (pw_producers w)"
    by (rule table_ok_mono [OF world_wfD(6) [OF assms(1)]]) simp
  moreover have "table_ok c_id (\<lambda>c. bt_has (bt_insert i r (w_resources w)) (c_resource c)) (pw_consumers w)"
    by (rule table_ok_mono [OF world_wfD(7) [OF assms(1)]]) simp
  ultimately show ?thesis using assms(1) unfolding world_wf_def eq by simp
qed

lemma add_producer_wf:
  assumes "world_wf w" and "p_id q = i" and "bt_has (w_resources w) (p_resource q)"
  shows "world_wf (w\<lparr>pw_producers := bt_insert i q (pw_producers w)\<rparr>)" (is "world_wf ?w")
proof -
  have st: "mover_state_ok ?w x = mover_state_ok w x" for x by (cases x) simp_all
  have eq: "path_ok ?w = path_ok w" "mover_ok ?w = mover_ok w"
    by (auto simp: path_ok_def mover_ok_def fun_eq_iff st)
  from assms show ?thesis unfolding world_wf_def eq by (simp add: table_ok_insert)
qed

lemma add_consumer_wf:
  assumes "world_wf w" and "c_id q = i" and "bt_has (w_resources w) (c_resource q)"
  shows "world_wf (w\<lparr>pw_consumers := bt_insert i q (pw_consumers w)\<rparr>)" (is "world_wf ?w")
proof -
  have st: "mover_state_ok ?w x = mover_state_ok w x" for x by (cases x) simp_all
  have eq: "path_ok ?w = path_ok w" "mover_ok ?w = mover_ok w"
    by (auto simp: path_ok_def mover_ok_def fun_eq_iff st)
  from assms show ?thesis unfolding world_wf_def eq by (simp add: table_ok_insert)
qed

text \<open>Removing a node takes its paths along; the checks made sure no mover uses either.\<close>

lemma bt_get_fold_remove: "bt_get (fold bt_remove ks m) k = (if k \<in> set ks then None else bt_get m k)"
  by (induction ks arbitrary: m) auto

lemma bt_wf_fold_remove: "bt_wf m \<Longrightarrow> bt_wf (fold bt_remove ks m)"
  by (induction ks arbitrary: m) auto

lemma first_blocker_None: "first_blocker i inc ms = None \<longleftrightarrow> (\<forall>m \<in> set ms. mover_blocks i inc m = None)"
  by (induction ms) (auto split: option.splits)

lemma mover_blocks_None:
  "mover_blocks i inc m = None \<longleftrightarrow> m_home_path m \<notin> set inc
     \<and> (case m_state m of MEmpty \<Rightarrow> True | MWaiting at \<Rightarrow> at \<noteq> i | MTraveling p _ \<Rightarrow> p \<notin> set inc)"
  by (auto simp: mover_blocks_def split: mover_state.splits)

lemma remove_node_wf:
  assumes wf: "world_wf w" and free: "first_blocker i (incident_paths w i) (bt_values (w_movers w)) = None"
  shows "world_wf (w\<lparr>w_paths := fold bt_remove (incident_paths w i) (w_paths w),
    w_nodes := bt_remove i (w_nodes w)\<rparr>)" (is "world_wf ?w")
proof -
  let ?inc = "incident_paths w i"
  have inc: "k \<in> set ?inc \<longleftrightarrow> (\<exists>p. bt_get (w_paths w) k = Some p \<and> (pa_from p = i \<or> pa_to p = i))" for k
    using table_okD(1) [OF world_wfD(3) [OF wf]]
    by (auto simp: incident_paths_def bt_wf_get image_iff split: prod.splits)
  have "table_ok pa_id (path_ok ?w) (fold bt_remove ?inc (w_paths w))"
    using world_wfD(3) [OF wf] unfolding table_ok_def
    by (auto simp: bt_get_fold_remove inc path_ok_def intro!: bt_wf_fold_remove split: if_splits)
  moreover have "table_ok m_id (mover_ok ?w) (w_movers w)"
  proof (rule table_ok_weaken [OF world_wfD(4) [OF wf]])
    fix k m assume get: "bt_get (w_movers w) k = Some m" and ok: "mover_ok w m"
    from map_of_SomeD [OF get] have "m \<in> set (bt_values (w_movers w))" by force
    with free have "mover_blocks i ?inc m = None" unfolding first_blocker_None by blast
    with ok show "mover_ok ?w m"
      by (cases "m_state m") (auto simp: mover_blocks_None mover_ok_def bt_has_def bt_get_fold_remove)
  qed
  moreover have "table_ok n_id (\<lambda>_. True) (bt_remove i (w_nodes w))"
    using world_wfD(2) [OF wf] by (rule table_ok_remove)
  ultimately show ?thesis using wf unfolding world_wf_def by simp
qed

section \<open>The contract of an action\<close>

text \<open>
  An action keeps the world sound, leaves the clock and the SL1 half alone, only adds events,
  and changes nothing unless it is applied; what it refuses it blames on the agent.
\<close>

locale world_action =
  fixes act :: "'r act_state \<Rightarrow> 'r act_result" and agent :: string
  assumes keeps: "world_wf w \<Longrightarrow> world_wf (fst (fst (act (w, ev))))"
    and frame: "same_clock w (fst (fst (act (w, ev))))"
    and appends: "\<exists>new. snd (fst (act (w, ev))) = ev @ new"
    and refuses: "snd (act st) \<noteq> Applied \<Longrightarrow> fst (act st) = st"
    and blames: "snd (act st) = Rejected p \<Longrightarrow> \<exists>reason. p = InvalidAction agent reason"
begin

lemma sound:
  assumes "act (w, ev) = ((w', ev'), out)" and "world_wf w"
  shows "world_wf w' \<and> same_clock w w' \<and> (\<exists>new. ev' = ev @ new)
    \<and> (out \<noteq> Applied \<longrightarrow> w' = w \<and> ev' = ev)"
  using keeps [OF assms(2), of ev] frame [of w ev] appends [of w ev] refuses [of "(w, ev)"] assms(1)
  by auto

end

interpretation no_op: world_action "apply_world_action agent NoOp" agent
  by unfold_locales auto

interpretation setting_speed: world_action "set_speed agent mid speed" agent
  by unfold_locales
    (auto simp: set_speed_def invalid_def same_clock_def Let_def intro: set_speed_wf
      split: option.splits if_splits prod.splits)

interpretation placing: world_action "place_piece agent k pos" agent
  by unfold_locales
    (auto simp: place_piece_def invalid_def same_clock_def intro: add_node_wf
      split: option.splits if_splits prod.splits)

interpretation connecting: world_action "connect_pieces agent a b" agent
  by unfold_locales
    (auto simp: connect_pieces_def invalid_def same_clock_def path_ok_def intro: add_path_wf
      split: option.splits if_splits prod.splits)

interpretation removing: world_action "remove_piece agent i" agent
  by unfold_locales
    (auto simp: remove_piece_def invalid_def same_clock_def Let_def intro: remove_node_wf
      split: option.splits if_splits prod.splits)

lemma next_resource_id_fresh:
  "world_wf w \<Longrightarrow> next_resource_id w = Some i \<Longrightarrow> \<not> bt_has (w_resources w) i"
  using next_dense_fresh(1) [OF table_okD(1) [OF world_wfD(5)]] by (simp add: next_resource_id_def)

interpretation defining: world_action "define_resource agent name color" agent
  by unfold_locales
    (auto simp: define_resource_def invalid_def same_clock_def validate_resource_name_def
      intro!: add_resource_wf dest: next_resource_id_fresh
      split: option.splits if_splits prod.splits sum.splits)

lemma resource_id_by_name_has:
  assumes "world_wf w" and "resource_id_by_name w n = Some i"
  shows "bt_has (w_resources w) i"
proof -
  obtain r where r: "find (\<lambda>r. re_name r = n) (bt_values (w_resources w)) = Some r" "i = re_id r"
    using assms(2) by (auto simp: resource_id_by_name_def)
  then obtain k where "(k, r) \<in> set (w_resources w)" using find_SomeD [OF r(1)] by auto
  then have "bt_get (w_resources w) k = Some r" by (rule table_okD(4) [OF world_wfD(5) [OF assms(1)]])
  with table_okD(2) [OF world_wfD(5) [OF assms(1)] this] r(2) show ?thesis by (simp add: bt_has_def)
qed

interpretation producing: world_action "add_producer agent r a i" agent
  by unfold_locales
    (auto simp: add_producer_def invalid_def same_clock_def validate_amount_and_interval_def
      intro!: add_producer_wf resource_id_by_name_has
      split: option.splits if_splits prod.splits sum.splits)

interpretation consuming: world_action "add_consumer agent r a i" agent
  by unfold_locales
    (auto simp: add_consumer_def invalid_def same_clock_def validate_amount_and_interval_def
      intro!: add_consumer_wf resource_id_by_name_has
      split: option.splits if_splits prod.splits sum.splits)

interpretation aiming: world_action "set_goal agent g" agent
  by unfold_locales (auto simp: set_goal_def invalid_def Let_def split: if_splits)

lemma dispatch:
  "apply_world_action agent (SetSpeed m s) = set_speed agent m s"
  "apply_world_action agent (PlacePiece k pos) = place_piece agent k pos"
  "apply_world_action agent (ConnectPieces a b) = connect_pieces agent a b"
  "apply_world_action agent (RemovePiece i) = remove_piece agent i"
  "apply_world_action agent (DefineResource n c) = define_resource agent n c"
  "apply_world_action agent (AddProducer r x t) = add_producer agent r x t"
  "apply_world_action agent (AddConsumer r x t) = add_consumer agent r x t"
  "apply_world_action agent (SetGoal g) = set_goal agent g"
  by (auto simp: fun_eq_iff)

interpretation acting: world_action "apply_world_action agent a" agent
proof (cases a)
  case NoOp
  then show "world_action (apply_world_action agent a) agent"
    using no_op.world_action_axioms by simp
qed (simp_all only: dispatch setting_speed.world_action_axioms placing.world_action_axioms
    connecting.world_action_axioms removing.world_action_axioms defining.world_action_axioms
    producing.world_action_axioms consuming.world_action_axioms aiming.world_action_axioms)

end
