(* ===== verification/Agent_Host.thy ===== *)
theory Agent_Host
  imports Actions
begin

text \<open>
  Hosted agents: the trait \<open>Agent\<close> and its safety boundary \<open>AgentHost\<close> (\<open>agent/mod.rs\<close>), what
  an agent sees (\<open>agent/observation.rs\<close>), the built-in \<open>SpeedTuner\<close> (\<open>agent/speed_tuner.rs\<close>) and
  the mapping of errors to messages (\<open>error.rs\<close>, \<open>events.rs\<close>). An agent is any pair of
  functions on a state of its own; a panic is a value of its result.
\<close>

section \<open>Errors and their messages\<close>

datatype host_error =
    Panicked string string
  | InvalidActionError string string
  | TimeoutError string u32

datatype engine_fault =
    NumericDriftFault u64 u32
  | BaselineHashMismatchFault string string
  | ChannelSaturated u32
  | SystemPanic string string

fun agent_error_to_message :: "host_error \<Rightarrow> sim_message" where
  "agent_error_to_message (Panicked a m) = Fault (AgentCrashed a m)"
| "agent_error_to_message (InvalidActionError a r) = Warning (InvalidAction a r)"
| "agent_error_to_message (TimeoutError a ms) =
     Warning (InvalidAction a (''timeout after '' @ dec ms @ ''ms''))"

fun engine_fault_to_payload :: "engine_fault \<Rightarrow> fault_payload" where
  "engine_fault_to_payload (NumericDriftFault t _) = NumericDrift t"
| "engine_fault_to_payload (BaselineHashMismatchFault e f) = BaselineHashMismatch e f"
| "engine_fault_to_payload (ChannelSaturated lag) =
     EngineFault (''snapshot channel saturated; behind '' @ dec lag @ '' frames'')"
| "engine_fault_to_payload (SystemPanic s m) =
     EngineFault (''system '' @ [CHR 0x27] @ s @ [CHR 0x27] @ '' panicked: '' @ m)"

section \<open>Observations\<close>

record mover_observation =
  mo_id :: u32
  mo_state :: mover_state
  mo_speed :: f32_bits
  mo_home_path :: u32

record observation =
  ob_tick :: u64
  ob_movers :: "mover_observation list"

definition observation_default :: observation where
  "observation_default = \<lparr>ob_tick = 0, ob_movers = []\<rparr>"

definition observation_from_world :: "'r world \<Rightarrow> observation" where
  "observation_from_world w = \<lparr>ob_tick = pw_tick w,
     ob_movers = map (\<lambda>m. \<lparr>mo_id = m_id m, mo_state = m_state m, mo_speed = m_speed m,
        mo_home_path = m_home_path m\<rparr>) (bt_values (w_movers w))\<rparr>"

section \<open>The host\<close>

definition MAX_CONSIDERED :: nat where "MAX_CONSIDERED = 1000"
definition MAX_RATIONALE_CHARS :: nat where "MAX_RATIONALE_CHARS = 512"

datatype panic_payload = StrPanic string | StringPanic string | OtherPanic

fun panic_message :: "panic_payload \<Rightarrow> string" where
  "panic_message (StrPanic s) = s"
| "panic_message (StringPanic s) = s"
| "panic_message OtherPanic = ''non-string panic payload''"

text \<open>
  The trait object: \<open>observe\<close> and \<open>act\<close> may change the agent's state, and \<open>Inl\<close> of a payload
  is a panic. A panicking call leaves whatever state it had reached.
\<close>

record ('r, 's) agent_host =
  h_id :: string
  h_interval_ticks :: u32
  h_agent :: 's
  h_observe :: "'s \<Rightarrow> 'r world \<Rightarrow> 's \<times> (panic_payload + observation)"
  h_act :: "'s \<Rightarrow> observation \<Rightarrow> 's \<times> (panic_payload + host_error + agent_report)"

definition host_should_fire :: "('r, 's) agent_host \<Rightarrow> u64 \<Rightarrow> bool" where
  "host_should_fire h tick \<longleftrightarrow> (let i = ucast (max (h_interval_ticks h) 1) in 0 < tick \<and> tick mod i = 0)"

text \<open>\<open>chars().take(n)\<close>: whole characters only.\<close>

fun take_chars :: "nat \<Rightarrow> string \<Rightarrow> string" where
  "take_chars n [] = []"
| "take_chars n (c # cs) =
     (if (of_char c :: int) div 64 = 2 then c # take_chars n cs
      else (case n of 0 \<Rightarrow> [] | Suc k \<Rightarrow> c # take_chars k cs))"

definition trim_report :: "agent_report \<Rightarrow> agent_report" where
  "trim_report r = r\<lparr>
     ar_considered := (if MAX_CONSIDERED < length (ar_considered r)
        then take MAX_CONSIDERED (ar_considered r) else ar_considered r),
     ar_rationale := (if MAX_RATIONALE_CHARS < char_count (ar_rationale r)
        then take_chars MAX_RATIONALE_CHARS (ar_rationale r) else ar_rationale r),
     ar_confidence := f32_clamp (ar_confidence r) f32_zero f32_one\<rparr>"

definition observe_only :: "('r, 's) agent_host \<Rightarrow> 'r world \<Rightarrow> ('r, 's) agent_host \<times> observation" where
  "observe_only h w = (case h_observe h (h_agent h) w of
     (s, Inr ob) \<Rightarrow> (h\<lparr>h_agent := s\<rparr>, ob)
   | (s, Inl _) \<Rightarrow> (h\<lparr>h_agent := s\<rparr>, observation_default))"

definition host_step ::
  "('r, 's) agent_host \<Rightarrow> 'r world \<Rightarrow> ('r, 's) agent_host \<times> (host_error + agent_report)" where
  "host_step h w = (case h_observe h (h_agent h) w of
     (s, Inl p) \<Rightarrow> (h\<lparr>h_agent := s\<rparr>, Inl (Panicked (h_id h) (panic_message p)))
   | (s, Inr ob) \<Rightarrow>
       (case h_act h s ob of
          (s', Inr (Inr report)) \<Rightarrow> (h\<lparr>h_agent := s'\<rparr>, Inr (trim_report report))
        | (s', Inr (Inl err)) \<Rightarrow> (h\<lparr>h_agent := s'\<rparr>, Inl err)
        | (s', Inl p) \<Rightarrow> (h\<lparr>h_agent := s'\<rparr>, Inl (Panicked (h_id h) (panic_message p)))))"

section \<open>The built-in agent\<close>

definition SPEED_UP_FACTOR :: f32_bits where "SPEED_UP_FACTOR = 0x3FC00000"
definition SPEED_CAP :: f32_bits where "SPEED_CAP = 0x42C80000"

fun is_waiting :: "mover_state \<Rightarrow> bool" where
  "is_waiting (MWaiting _) = True"
| "is_waiting _ = False"

text \<open>The confidences are \<open>0.7\<close>, \<open>0.2\<close>, \<open>0.1\<close> and \<open>0.5\<close>.\<close>

definition speed_tuner_act :: "string \<Rightarrow> observation \<Rightarrow> host_error + agent_report" where
  "speed_tuner_act name ob = Inr (case find (\<lambda>m. is_waiting (mo_state m)) (ob_movers ob) of
     Some t \<Rightarrow>
       let current = mo_speed t;
           proposed = f32_min (f32_mul current SPEED_UP_FACTOR) SPEED_CAP;
           speed_up = SetSpeed (mo_id t) proposed
       in \<lparr>ar_tick = ob_tick ob, ar_agent_id = name,
           ar_considered = [\<lparr>ca_action = speed_up, ca_confidence = 0x3F333333\<rparr>,
             \<lparr>ca_action = SetSpeed (mo_id t) current, ca_confidence = 0x3E4CCCCD\<rparr>,
             \<lparr>ca_action = NoOp, ca_confidence = 0x3DCCCCCD\<rparr>],
           ar_chosen = Some speed_up,
           ar_rationale = ''mover '' @ dec (mo_id t) @ '' is waiting; nudging speed ''
             @ f32_fixed2 current @ [CHR 0x20, CHR 0xE2, CHR 0x86, CHR 0x92, CHR 0x20]
             @ f32_fixed2 proposed @ '' to clear the queue'',
           ar_confidence = 0x3F333333\<rparr>
   | None \<Rightarrow> \<lparr>ar_tick = ob_tick ob, ar_agent_id = name,
       ar_considered = [\<lparr>ca_action = NoOp, ca_confidence = 0x3F000000\<rparr>],
       ar_chosen = Some NoOp, ar_rationale = ''no mover is waiting; nothing to tune'',
       ar_confidence = 0x3F000000\<rparr>)"

text \<open>Its own state never changes.\<close>

definition speed_tuner :: "string \<Rightarrow> u32 \<Rightarrow> 's \<Rightarrow> ('r, 's) agent_host" where
  "speed_tuner name interval s0 = \<lparr>h_id = name, h_interval_ticks = max interval 1, h_agent = s0,
     h_observe = (\<lambda>s w. (s, Inr (observation_from_world w))),
     h_act = (\<lambda>s ob. (s, Inr (speed_tuner_act name ob)))\<rparr>"

section \<open>What the boundary guarantees\<close>

lemma char_count_simps [simp]:
  "char_count [] = 0"
  "char_count (c # cs) = (if (of_char c :: int) div 64 = 2 then char_count cs else Suc (char_count cs))"
  by (simp_all add: char_count_def)

lemma char_count_take_chars: "char_count (take_chars n s) = min n (char_count s)"
  by (induction n s rule: take_chars.induct) (auto split: nat.splits)

lemma f32_clamp_unit:
  assumes "\<not> f32_is_nan x"
  shows "progress_ok (f32_clamp x f32_zero f32_one)"
proof -
  have k: "f32_key f32_zero = 0" "f32_key f32_one = 0x3F800000" "\<not> f32_is_nan f32_zero"
    "\<not> f32_is_nan f32_one" by code_simp+
  then show ?thesis
    using assms by (auto simp: f32_clamp_def Let_def progress_ok_def f32_nonneg_def f32_le_def f32_lt_def)
qed

lemma trim_report_bounds:
  "length (ar_considered (trim_report r)) \<le> MAX_CONSIDERED
   \<and> char_count (ar_rationale (trim_report r)) \<le> MAX_RATIONALE_CHARS
   \<and> (\<not> f32_is_nan (ar_confidence r) \<longrightarrow> progress_ok (ar_confidence (trim_report r)))"
  by (simp add: trim_report_def char_count_take_chars f32_clamp_unit)

text \<open>A step changes the agent's own state only.\<close>

lemma host_step_frame:
  "h_id (fst (host_step h w)) = h_id h" "h_interval_ticks (fst (host_step h w)) = h_interval_ticks h"
  "h_observe (fst (host_step h w)) = h_observe h" "h_act (fst (host_step h w)) = h_act h"
  by (auto simp: host_step_def split: prod.splits sum.splits)

lemma observe_only_frame:
  "h_id (fst (observe_only h w)) = h_id h" "h_interval_ticks (fst (observe_only h w)) = h_interval_ticks h"
  "h_observe (fst (observe_only h w)) = h_observe h" "h_act (fst (observe_only h w)) = h_act h"
  by (auto simp: observe_only_def split: prod.splits sum.splits)

text \<open>\<open>u64::from(interval.max(1))\<close> is positive.\<close>

lemma host_should_fire_iff:
  "host_should_fire h t \<longleftrightarrow> 0 < unat t \<and> max (unat (h_interval_ticks h)) 1 dvd unat t"
proof -
  have u: "unat (ucast (max (h_interval_ticks h) 1) :: u64) = max (unat (h_interval_ticks h)) 1"
    by (simp add: unat_ucast_up unat_max_word)
  have "t mod i = 0 \<longleftrightarrow> unat i dvd unat t" for i :: u64
    by (metis dvd_eq_mod_eq_0 unat_0 unat_eq_zero unat_mod)
  then show ?thesis unfolding host_should_fire_def Let_def u [symmetric]
    by (simp add: word_less_nat_alt)
qed

section \<open>The built-in agent stays within the rules\<close>

lemma speed_tuner_speed_ok:
  assumes "speed_ok s"
  shows "speed_ok (f32_min (f32_mul s SPEED_UP_FACTOR) SPEED_CAP)"
proof -
  have c: "f32_nonneg SPEED_UP_FACTOR" "f32_is_finite SPEED_UP_FACTOR" "\<not> f32_is_nan SPEED_CAP"
    "\<not> f32_is_nan SPEED_MIN" "\<not> f32_is_nan SPEED_MAX" "f32_key SPEED_MIN = 0"
    "f32_key SPEED_CAP = 0x42C80000" "f32_key SPEED_MAX = 0x42C80000" by code_simp+
  have "f32_nonneg s" "f32_is_finite s"
    using assms c by (auto simp: speed_ok_def f32_lt_def f32_nonneg_def f32_class)
  then have m: "f32_nonneg (f32_mul s SPEED_UP_FACTOR)" using c by (intro f32_mul_nonneg)
  let ?p = "f32_min (f32_mul s SPEED_UP_FACTOR) SPEED_CAP"
  have key: "f32_key ?p = min (f32_key (f32_mul s SPEED_UP_FACTOR)) 0x42C80000"
    and nn: "\<not> f32_is_nan ?p" using m c by (auto simp: f32_min_def f32_lt_def f32_nonneg_def)
  have nonneg: "f32_nonneg ?p" using key nn m by (simp add: f32_nonneg_def)
  then have "uint (f32_mag ?p) \<le> 0x42C80000" using key by (simp add: f32_nonneg_key)
  then have "f32_is_finite ?p" by (simp add: f32_finite_mag)
  then show ?thesis using key nn m c by (auto simp: speed_ok_def f32_lt_def f32_nonneg_def)
qed

lemma speed_tuner_accepted:
  assumes "world_wf w" and "snd (h_act (speed_tuner name i s0) s (observation_from_world w)) = Inr (Inr r)"
    and "ar_chosen r = Some a"
  shows "\<exists>w' ev' out. apply_world_action name a (w, ev) = ((w', ev'), out) \<and> (out = Applied \<or> out = NoChange)"
proof (cases "find (\<lambda>m. is_waiting (mo_state m)) (ob_movers (observation_from_world w))")
  case None
  then have "a = NoOp" using assms(2,3) by (auto simp: speed_tuner_def speed_tuner_act_def)
  then show ?thesis by simp
next
  case (Some t)
  then have a: "a = SetSpeed (mo_id t) (f32_min (f32_mul (mo_speed t) SPEED_UP_FACTOR) SPEED_CAP)"
    using assms(2,3) by (auto simp: speed_tuner_def speed_tuner_act_def Let_def)
  obtain k m where km: "(k, m) \<in> set (w_movers w)" and t: "mo_id t = m_id m" "mo_speed t = m_speed m"
    using find_SomeD [OF Some] by (auto simp: observation_from_world_def)
  note ok = wf_mover [OF assms(1) km]
  have "bt_get (w_movers w) (mo_id t) = Some m" using ok t by simp
  moreover have "speed_ok (f32_min (f32_mul (mo_speed t) SPEED_UP_FACTOR) SPEED_CAP)"
    using ok t by (intro speed_tuner_speed_ok) (simp add: mover_ok_def)
  ultimately show ?thesis by (simp add: a set_speed_def Let_def)
qed

end
