(* ===== verification/Agent_Log.thy ===== *)
theory Agent_Log
  imports Agent_Host
begin

text \<open>
  The append-only decision log (\<open>agent_log.rs\<close>) and the redactor in front of it
  (\<open>redactor.rs\<close>). Parameters: the regular expressions of the crate \<open>regex\<close> (count the
  matches, replace them), the JSON text of an entry (\<open>serde_json\<close>) and the sink the bytes go
  to (any writer, which may fail). Opening files and deriving paths are not modelled.
\<close>

unbundle bit_operations_syntax

section \<open>Redaction\<close>

definition backslash :: string where "backslash = [CHR 0x5C]"

text \<open>The patterns, the more specific ones first.\<close>

definition PATTERN_DEFINITIONS :: "(string \<times> string) list" where
  "PATTERN_DEFINITIONS =
     [(''anthropic_api_key'', ''sk-ant-[A-Za-z0-9-]{32,}''),
      (''openai_api_key'', ''sk-[A-Za-z0-9]{20,}''),
      (''github_fine_grained_pat'', ''github_pat_[A-Za-z0-9_]{82}''),
      (''github_modern_token'', ''(ghs|ghu|ghr|ghp)_[A-Za-z0-9]{36,}''),
      (''github_legacy_oauth'', ''gho_[A-Za-z0-9]{36}''),
      (''aws_access_key'', ''(AKIA|ASIA)[A-Z0-9]{16}''),
      (''google_api_key'', ''AIza[A-Za-z0-9_-]{35}''),
      (''azure_openai_key'', ''[a-f0-9]{32}.{0,200}('' @ backslash @ ''.openai'' @ backslash @ ''.azure''
         @ backslash @ ''.com|'' @ backslash @ ''.cognitiveservices'' @ backslash @ ''.azure''
         @ backslash @ ''.com)''),
      (''jwt'', ''eyJ[A-Za-z0-9_-]+'' @ backslash @ ''.eyJ[A-Za-z0-9_-]+'' @ backslash
         @ ''.[A-Za-z0-9_-]+''),
      (''pem_private_key'', ''-----BEGIN [A-Z ]*PRIVATE KEY-----['' @ backslash @ ''s'' @ backslash
         @ ''S]*?-----END [A-Z ]*PRIVATE KEY-----'')]"

definition marker_for :: "string \<Rightarrow> string" where
  "marker_for name = ''<redacted: '' @ name @ ''>''"

record redaction_result =
  rr_redacted :: string
  rr_count :: nat

text \<open>A compiled pattern: how often it matches, and the text with every match replaced.\<close>

type_synonym regex_engine = "string \<Rightarrow> (string \<Rightarrow> nat) \<times> (string \<Rightarrow> string \<Rightarrow> string)"

definition redact_one :: "regex_engine \<Rightarrow> string \<times> string \<Rightarrow> redaction_result \<Rightarrow> redaction_result" where
  "redact_one rx pat res = (case pat of (name, re) \<Rightarrow>
     let n = fst (rx re) (rr_redacted res) in
     if n = 0 then res
     else \<lparr>rr_redacted = snd (rx re) (rr_redacted res) (marker_for name), rr_count = rr_count res + n\<rparr>)"

definition redact_secrets :: "regex_engine \<Rightarrow> string \<Rightarrow> redaction_result" where
  "redact_secrets rx input =
     fold (redact_one rx) PATTERN_DEFINITIONS \<lparr>rr_redacted = input, rr_count = 0\<rparr>"

definition redact_string :: "regex_engine \<Rightarrow> string \<Rightarrow> string" where
  "redact_string rx input = rr_redacted (redact_secrets rx input)"

section \<open>Entries\<close>

definition SCHEMA_VERSION :: u32 where "SCHEMA_VERSION = 2"
definition RAW_RESPONSE_MAX_BYTES :: nat where "RAW_RESPONSE_MAX_BYTES = 64 * 1024"
definition AGENT_ID_MAX_LEN :: nat where "AGENT_ID_MAX_LEN = 256"
definition RATIONALE_MAX_LEN :: nat where "RATIONALE_MAX_LEN = 4096"
definition PROVENANCE_STR_MAX_LEN :: nat where "PROVENANCE_STR_MAX_LEN = 128"
definition DEFAULT_RING_CAP :: nat where "DEFAULT_RING_CAP = 4096"

record agent_log_entry =
  le_schema_version :: u32
  le_tick :: u64
  le_agent_id :: string
  le_observation_hash :: u64
  le_raw_response :: "string option"
  le_truncated_bytes :: "nat option"
  le_parsed_action :: "action option"
  le_considered_count :: nat
  le_rationale :: string
  le_backend :: "string option"
  le_model :: "string option"
  le_latency_ms :: "u32 option"
  le_prompt_tokens :: "u32 option"
  le_completion_tokens :: "u32 option"

record llm_provenance =
  lp_backend :: "string option"
  lp_model :: "string option"
  lp_latency_ms :: "u32 option"
  lp_prompt_tokens :: "u32 option"
  lp_completion_tokens :: "u32 option"

definition provenance_default :: llm_provenance where
  "provenance_default = \<lparr>lp_backend = None, lp_model = None, lp_latency_ms = None,
     lp_prompt_tokens = None, lp_completion_tokens = None\<rparr>"

text \<open>FNV-1a over the numbers of the observation.\<close>

definition fnv_mix :: "u64 \<Rightarrow> u64 \<Rightarrow> u64" where
  "fnv_mix x h = (h XOR x) * 0x100000001B3"

fun hash_mover_state :: "mover_state \<Rightarrow> u64 \<Rightarrow> u64" where
  "hash_mover_state MEmpty h = fnv_mix 0xE0 h"
| "hash_mover_state (MWaiting n) h = fnv_mix (ucast n) (fnv_mix 0xE1 h)"
| "hash_mover_state (MTraveling p pr) h = fnv_mix (ucast pr) (fnv_mix (ucast p) (fnv_mix 0xE2 h))"

definition hash_mover :: "mover_observation \<Rightarrow> u64 \<Rightarrow> u64" where
  "hash_mover m h = hash_mover_state (mo_state m)
     (fnv_mix (ucast (mo_home_path m)) (fnv_mix (ucast (mo_speed m)) (fnv_mix (ucast (mo_id m)) h)))"

definition observation_hash :: "observation \<Rightarrow> u64" where
  "observation_hash ob = fold hash_mover (ob_movers ob) (fnv_mix (ob_tick ob) 0xCBF29CE484222325)"

text \<open>
  The cut moves left to a character boundary: a position is one if it is an end of the text
  or the byte there does not continue a character.
\<close>

definition is_char_boundary :: "string \<Rightarrow> nat \<Rightarrow> bool" where
  "is_char_boundary s k \<longleftrightarrow> k = 0 \<or> k = length s
     \<or> k < length s \<and> (of_char (s ! k) :: int) div 64 \<noteq> 2"

fun back_to_boundary :: "string \<Rightarrow> nat \<Rightarrow> nat" where
  "back_to_boundary s 0 = 0"
| "back_to_boundary s (Suc k) = (if is_char_boundary s (Suc k) then Suc k else back_to_boundary s k)"

definition cap_raw_response :: "string option \<Rightarrow> string option \<times> nat option" where
  "cap_raw_response raw = (case raw of
     None \<Rightarrow> (None, None)
   | Some s \<Rightarrow>
       if length s \<le> RAW_RESPONSE_MAX_BYTES then (Some s, None)
       else (Some (take (back_to_boundary s RAW_RESPONSE_MAX_BYTES) s), Some (length s)))"

definition entry_with_provenance ::
  "regex_engine \<Rightarrow> observation \<Rightarrow> string \<Rightarrow> action option \<Rightarrow> nat \<Rightarrow> string \<Rightarrow> string option
    \<Rightarrow> llm_provenance \<Rightarrow> agent_log_entry" where
  "entry_with_provenance rx ob agent chosen considered rationale raw prov =
     (let (raw', truncated) = cap_raw_response (map_option (redact_string rx) raw) in
      \<lparr>le_schema_version = SCHEMA_VERSION, le_tick = ob_tick ob, le_agent_id = agent,
       le_observation_hash = observation_hash ob, le_raw_response = raw', le_truncated_bytes = truncated,
       le_parsed_action = chosen, le_considered_count = considered, le_rationale = rationale,
       le_backend = lp_backend prov, le_model = lp_model prov, le_latency_ms = lp_latency_ms prov,
       le_prompt_tokens = lp_prompt_tokens prov, le_completion_tokens = lp_completion_tokens prov\<rparr>)"

definition entry_new ::
  "regex_engine \<Rightarrow> observation \<Rightarrow> string \<Rightarrow> action option \<Rightarrow> nat \<Rightarrow> string \<Rightarrow> string option
    \<Rightarrow> agent_log_entry" where
  "entry_new rx ob agent chosen considered rationale raw =
     entry_with_provenance rx ob agent chosen considered rationale raw provenance_default"

section \<open>Schema validation\<close>

datatype schema_error =
    UnsupportedVersionErr u32
  | EmptyAgentId
  | AgentIdTooLong nat
  | RationaleTooLong nat
  | UncappedRawResponse
  | TruncatedBytesWithoutResponse
  | TruncatedBytesOnSmallResponse nat nat
  | TruncatedBytesNotGreaterThanCurrent nat nat
  | BackendTooLong nat
  | ModelTooLong nat

definition check_raw :: "string option \<Rightarrow> nat option \<Rightarrow> schema_error + unit" where
  "check_raw raw truncated = (case (raw, truncated) of
     (None, None) \<Rightarrow> Inr ()
   | (None, Some _) \<Rightarrow> Inl TruncatedBytesWithoutResponse
   | (Some s, None) \<Rightarrow> require (length s \<le> RAW_RESPONSE_MAX_BYTES) UncappedRawResponse
   | (Some s, Some orig) \<Rightarrow>
       if orig \<le> RAW_RESPONSE_MAX_BYTES then Inl (TruncatedBytesOnSmallResponse orig (length s))
       else require (length s < orig) (TruncatedBytesNotGreaterThanCurrent orig (length s)))"

definition check_len :: "(nat \<Rightarrow> schema_error) \<Rightarrow> string option \<Rightarrow> schema_error + unit" where
  "check_len err s = (case s of None \<Rightarrow> Inr ()
     | Some b \<Rightarrow> require (length b \<le> PROVENANCE_STR_MAX_LEN) (err (length b)))"

definition validate_entry :: "agent_log_entry \<Rightarrow> schema_error + unit" where
  "validate_entry e =
     (if le_schema_version e = 0 \<or> SCHEMA_VERSION < le_schema_version e
      then Inl (UnsupportedVersionErr (le_schema_version e))
      else if le_agent_id e = [] then Inl EmptyAgentId
      else if AGENT_ID_MAX_LEN < length (le_agent_id e) then Inl (AgentIdTooLong (length (le_agent_id e)))
      else if RATIONALE_MAX_LEN < length (le_rationale e) then Inl (RationaleTooLong (length (le_rationale e)))
      else ebind (check_raw (le_raw_response e) (le_truncated_bytes e)) (\<lambda>_.
        ebind (check_len BackendTooLong (le_backend e)) (\<lambda>_. check_len ModelTooLong (le_model e))))"

section \<open>Scene ids as path components\<close>

datatype scene_id_error = SceneIdEmpty | SceneIdTooLong nat | SceneIdInvalidChar nat

fun first_bad_byte :: "nat \<Rightarrow> string \<Rightarrow> nat option" where
  "first_bad_byte i [] = None"
| "first_bad_byte i (c # cs) =
     (if is_ascii_alphanumeric c \<or> c = CHR ''_'' \<or> c = CHR ''-'' then first_bad_byte (Suc i) cs
      else Some i)"

definition validate_scene_id :: "string \<Rightarrow> scene_id_error + unit" where
  "validate_scene_id s =
     (if s = [] then Inl SceneIdEmpty
      else if 64 < length s then Inl (SceneIdTooLong (length s))
      else (case first_bad_byte 0 s of Some i \<Rightarrow> Inl (SceneIdInvalidChar i) | None \<Rightarrow> Inr ()))"

section \<open>The log\<close>

text \<open>The sink takes bytes and says whether it could.\<close>

record 'k agent_log =
  al_sink :: 'k
  al_write :: "'k \<Rightarrow> string \<Rightarrow> 'k \<times> bool"
  al_ring :: "string list"
  al_ring_cap :: nat
  al_degraded :: bool
  al_dropped :: u64

definition log_with_capacity :: "'k \<Rightarrow> ('k \<Rightarrow> string \<Rightarrow> 'k \<times> bool) \<Rightarrow> nat \<Rightarrow> 'k agent_log" where
  "log_with_capacity k wr cap = \<lparr>al_sink = k, al_write = wr, al_ring = [], al_ring_cap = cap,
     al_degraded = False, al_dropped = 0\<rparr>"

definition log_new :: "'k \<Rightarrow> ('k \<Rightarrow> string \<Rightarrow> 'k \<times> bool) \<Rightarrow> 'k agent_log" where
  "log_new k wr = log_with_capacity k wr DEFAULT_RING_CAP"

definition force_degrade :: "'k agent_log \<Rightarrow> 'k agent_log" where
  "force_degrade l = l\<lparr>al_degraded := True\<rparr>"

definition push_ring_line :: "string \<Rightarrow> 'k agent_log \<Rightarrow> 'k agent_log" where
  "push_ring_line line l =
     (let l1 = (if al_ring_cap l \<le> length (al_ring l)
                then l\<lparr>al_ring := tl (al_ring l), al_dropped := sat_add (al_dropped l) 1\<rparr> else l)
      in l1\<lparr>al_ring := al_ring l1 @ [line]\<rparr>)"

definition first_degrade :: "'k agent_log \<Rightarrow> 'k agent_log \<times> warning_payload option" where
  "first_degrade l = (if \<not> al_degraded l then (l\<lparr>al_degraded := True\<rparr>, Some AgentLogSlow) else (l, None))"

text \<open>The line and its end go out in two writes; the second is not tried if the first fails.\<close>

definition write_line :: "string \<Rightarrow> 'k agent_log \<Rightarrow> 'k agent_log \<times> bool" where
  "write_line line l = (case al_write l (al_sink l) line of
     (k, False) \<Rightarrow> (l\<lparr>al_sink := k\<rparr>, False)
   | (k, True) \<Rightarrow> (case al_write l k [CHR 0x0A] of (k', ok) \<Rightarrow> (l\<lparr>al_sink := k'\<rparr>, ok)))"

definition serialize_failure_line :: "string \<Rightarrow> string" where
  "serialize_failure_line agent =
     ''{'' @ [CHR 0x22] @ ''error'' @ [CHR 0x22] @ '':'' @ [CHR 0x22] @ ''serialize'' @ [CHR 0x22] @ '',''
     @ [CHR 0x22] @ ''agent_id'' @ [CHR 0x22] @ '':'' @ [CHR 0x22] @ agent @ [CHR 0x22] @ ''}''"

definition log_append ::
  "(agent_log_entry \<Rightarrow> string option) \<Rightarrow> agent_log_entry \<Rightarrow> 'k agent_log
    \<Rightarrow> 'k agent_log \<times> warning_payload option" where
  "log_append to_json e l = (case validate_entry e of
     Inl _ \<Rightarrow> first_degrade (l\<lparr>al_dropped := sat_add (al_dropped l) 1\<rparr>)
   | Inr _ \<Rightarrow>
       (case to_json e of
          None \<Rightarrow> first_degrade (push_ring_line (serialize_failure_line (le_agent_id e)) l)
        | Some line \<Rightarrow>
            if al_degraded l then (push_ring_line line l, None)
            else (case write_line line l of
               (l', False) \<Rightarrow> first_degrade (push_ring_line line l')
             | (l', True) \<Rightarrow> (l', None))))"

section \<open>Cutting at a character boundary\<close>

lemma back_to_boundary: "back_to_boundary s k \<le> k \<and> is_char_boundary s (back_to_boundary s k)"
  by (induction k) (auto simp: is_char_boundary_def)

lemma cap_raw_response_ok: "check_raw (fst (cap_raw_response raw)) (snd (cap_raw_response raw)) = Inr ()"
proof (cases raw)
  case (Some s)
  have "min (length s) (back_to_boundary s RAW_RESPONSE_MAX_BYTES) \<le> RAW_RESPONSE_MAX_BYTES"
    using back_to_boundary [of s RAW_RESPONSE_MAX_BYTES] by linarith
  then show ?thesis
    using Some by (auto simp: cap_raw_response_def check_raw_def require_def)
qed (simp add: cap_raw_response_def check_raw_def)

lemma cap_raw_response_prefix:
  assumes "cap_raw_response (Some s) = (raw, truncated)"
  shows "\<exists>k. raw = Some (take k s) \<and> is_char_boundary s k \<and> length (take k s) \<le> RAW_RESPONSE_MAX_BYTES
    \<and> truncated = (if length s \<le> RAW_RESPONSE_MAX_BYTES then None else Some (length s))"
proof (cases "length s \<le> RAW_RESPONSE_MAX_BYTES")
  case True
  then show ?thesis
    using assms by (intro exI [of _ "length s"]) (auto simp: cap_raw_response_def is_char_boundary_def)
next
  case False
  then show ?thesis
    using assms back_to_boundary [of s RAW_RESPONSE_MAX_BYTES]
    by (intro exI [of _ "back_to_boundary s RAW_RESPONSE_MAX_BYTES"]) (auto simp: cap_raw_response_def)
qed

text \<open>An entry of the constructor fails validation only for an over-long or empty text.\<close>

lemma built_entry_valid:
  assumes "agent \<noteq> []" and "length agent \<le> AGENT_ID_MAX_LEN" and "length rationale \<le> RATIONALE_MAX_LEN"
  shows "validate_entry (entry_new rx ob agent chosen n rationale raw) = Inr ()"
  using assms cap_raw_response_ok [of "map_option (redact_string rx) raw"]
  by (simp add: validate_entry_def entry_new_def entry_with_provenance_def case_prod_beta Let_def
      SCHEMA_VERSION_def provenance_default_def check_len_def)

section \<open>Every row is accounted for\<close>

primrec log_run ::
  "(agent_log_entry \<Rightarrow> string option) \<Rightarrow> agent_log_entry list \<Rightarrow> 'k agent_log
    \<Rightarrow> 'k agent_log \<times> warning_payload list" where
  "log_run to_json [] l = (l, [])"
| "log_run to_json (e # es) l =
     (let (l1, w) = log_append to_json e l; (l2, ws) = log_run to_json es l1
      in (l2, (case w of None \<Rightarrow> [] | Some p \<Rightarrow> [p]) @ ws))"

text \<open>The rows the sink took, counted along the run.\<close>

definition row_written :: "(agent_log_entry \<Rightarrow> string option) \<Rightarrow> agent_log_entry \<Rightarrow> 'k agent_log \<Rightarrow> bool" where
  "row_written to_json e l \<longleftrightarrow> validate_entry e = Inr () \<and> \<not> al_degraded l
     \<and> (\<exists>line. to_json e = Some line \<and> snd (write_line line l))"

primrec rows_written :: "(agent_log_entry \<Rightarrow> string option) \<Rightarrow> agent_log_entry list \<Rightarrow> 'k agent_log \<Rightarrow> nat" where
  "rows_written to_json [] l = 0"
| "rows_written to_json (e # es) l =
     (if row_written to_json e l then 1 else 0) + rows_written to_json es (fst (log_append to_json e l))"

definition ring_ok :: "'k agent_log \<Rightarrow> bool" where
  "ring_ok l \<longleftrightarrow> 0 < al_ring_cap l \<and> length (al_ring l) \<le> al_ring_cap l"

definition kept :: "'k agent_log \<Rightarrow> nat" where
  "kept l = length (al_ring l) + unat (al_dropped l)"

lemma write_line_frame:
  "al_ring (fst (write_line line l)) = al_ring l" "al_ring_cap (fst (write_line line l)) = al_ring_cap l"
  "al_degraded (fst (write_line line l)) = al_degraded l" "al_dropped (fst (write_line line l)) = al_dropped l"
  by (auto simp: write_line_def split: prod.splits bool.splits)

lemma first_degrade_frame:
  "al_ring (fst (first_degrade l)) = al_ring l" "al_ring_cap (fst (first_degrade l)) = al_ring_cap l"
  "al_dropped (fst (first_degrade l)) = al_dropped l" "al_degraded (fst (first_degrade l))"
  "snd (first_degrade l) = (if al_degraded l then None else Some AgentLogSlow)"
  by (auto simp: first_degrade_def)

lemma push_ring_line:
  assumes "ring_ok l" and "unat (al_dropped l) + 1 < 2 ^ 64"
  shows "ring_ok (push_ring_line line l) \<and> kept (push_ring_line line l) = kept l + 1
    \<and> unat (al_dropped (push_ring_line line l)) \<le> unat (al_dropped l) + 1
    \<and> al_degraded (push_ring_line line l) = al_degraded l"
proof -
  have "unat (sat_add (al_dropped l) 1) = unat (al_dropped l) + 1"
    using assms(2) by (simp add: sat_add_exact)
  then show ?thesis
    using assms(1) by (auto simp: push_ring_line_def Let_def ring_ok_def kept_def)
qed

lemma log_append_step:
  assumes "ring_ok l" and "unat (al_dropped l) + 1 < 2 ^ 64"
  shows "ring_ok (fst (log_append to_json e l))
    \<and> kept (fst (log_append to_json e l)) + (if row_written to_json e l then 1 else 0) = kept l + 1
    \<and> unat (al_dropped (fst (log_append to_json e l))) \<le> unat (al_dropped l) + 1
    \<and> (al_degraded l \<longrightarrow> al_degraded (fst (log_append to_json e l)))
    \<and> snd (log_append to_json e l)
        = (if al_degraded (fst (log_append to_json e l)) \<and> \<not> al_degraded l then Some AgentLogSlow else None)"
proof (cases "validate_entry e")
  case (Inl err)
  have "unat (sat_add (al_dropped l) 1) = unat (al_dropped l) + 1"
    using assms(2) by (simp add: sat_add_exact)
  then show ?thesis
    using Inl assms(1)
    by (auto simp: log_append_def row_written_def first_degrade_frame ring_ok_def kept_def)
next
  case (Inr u)
  show ?thesis
  proof (cases "to_json e")
    case None
    then show ?thesis
      using Inr push_ring_line [OF assms, of "serialize_failure_line (le_agent_id e)"]
      by (auto simp: log_append_def row_written_def first_degrade_frame ring_ok_def kept_def)
  next
    case (Some line)
    have frame: "ring_ok (fst (write_line line l)) = ring_ok l" "kept (fst (write_line line l)) = kept l"
      by (simp_all add: ring_ok_def kept_def write_line_frame)
    have "unat (al_dropped (fst (write_line line l))) + 1 < 2 ^ 64" using assms(2) by (simp add: write_line_frame)
    with assms(1) frame have p: "ring_ok (push_ring_line line (fst (write_line line l)))
        \<and> kept (push_ring_line line (fst (write_line line l))) = kept l + 1
        \<and> unat (al_dropped (push_ring_line line (fst (write_line line l)))) \<le> unat (al_dropped l) + 1
        \<and> al_degraded (push_ring_line line (fst (write_line line l))) = al_degraded l"
      using push_ring_line [of "fst (write_line line l)" line] by (simp add: write_line_frame)
    show ?thesis
    proof (cases "al_degraded l")
      case True
      then show ?thesis
        using Inr Some push_ring_line [OF assms, of line] by (simp add: log_append_def row_written_def)
    next
      case False
      obtain l' ok where wl: "write_line line l = (l', ok)" by (cases "write_line line l")
      with False show ?thesis
        using Inr Some p frame assms write_line_frame [of line l]
        by (cases ok) (auto simp: log_append_def row_written_def first_degrade_frame ring_ok_def kept_def)
    qed
  qed
qed

lemma log_run_accounts:
  assumes "ring_ok l" and "unat (al_dropped l) + length es < 2 ^ 64"
  shows "ring_ok (fst (log_run to_json es l))
    \<and> kept (fst (log_run to_json es l)) + rows_written to_json es l = kept l + length es
    \<and> (al_degraded l \<longrightarrow> al_degraded (fst (log_run to_json es l)))
    \<and> snd (log_run to_json es l)
        = (if al_degraded (fst (log_run to_json es l)) \<and> \<not> al_degraded l then [AgentLogSlow] else [])"
  using assms
proof (induction es arbitrary: l)
  case (Cons e es)
  obtain l1 w where ap: "log_append to_json e l = (l1, w)" by (cases "log_append to_json e l")
  obtain l2 ws where rn: "log_run to_json es l1 = (l2, ws)" by (cases "log_run to_json es l1")
  from Cons.prems have fits: "unat (al_dropped l) + 1 < 2 ^ 64" by simp
  note st = log_append_step [OF Cons.prems(1) fits, of to_json e, unfolded ap fst_conv snd_conv]
  from st Cons.prems(2) have "unat (al_dropped l1) + length es < 2 ^ 64" by auto
  with Cons.IH [of l1] st have ih: "ring_ok l2 \<and> kept l2 + rows_written to_json es l1 = kept l1 + length es
      \<and> (al_degraded l1 \<longrightarrow> al_degraded l2)
      \<and> ws = (if al_degraded l2 \<and> \<not> al_degraded l1 then [AgentLogSlow] else [])"
    by (simp add: rn)
  have run: "log_run to_json (e # es) l = (l2, (case w of None \<Rightarrow> [] | Some p \<Rightarrow> [p]) @ ws)"
    by (simp add: ap rn)
  have "kept l2 + rows_written to_json (e # es) l = kept l + length (e # es)"
    using st ih by (simp add: ap)
  moreover have "(case w of None \<Rightarrow> [] | Some p \<Rightarrow> [p]) @ ws
      = (if al_degraded l2 \<and> \<not> al_degraded l then [AgentLogSlow] else [])"
    using st ih by (cases "al_degraded l"; cases "al_degraded l1") simp_all
  moreover have "al_degraded l \<longrightarrow> al_degraded l2" and "ring_ok l2" using st ih by blast+
  ultimately show ?case unfolding run fst_conv snd_conv by blast
qed simp

end
