(* ===== verification/Sl1_Buffers.thy ===== *)
theory Sl1_Buffers
  imports Sl1_Tick
begin

text \<open>
  The SL1 systems write to the buffers and never read them: what was in the buffers before
  stays in front, and the runtime does not depend on it. So the SL1 half of a whole tick,
  which finds the events of the movers and the agents in the buffers, is \<open>sl1_tick\<close>.
\<close>

named_theorems shift_simps \<open>a system commutes with older buffer contents\<close>

definition shift :: "sim_event list \<Rightarrow> sim_message list \<Rightarrow> sl1_st \<Rightarrow> sl1_st" where
  "shift e m s = s\<lparr>evs := e @ evs s, msgs := m @ msgs s\<rparr>"

lemma shift_base [simp]:
  "rt (shift e m s) = rt s"
  "push_event x (shift e m s) = shift e m (push_event x s)"
  "push_message y (shift e m s) = shift e m (push_message y s)"
  "with_rt f (shift e m s) = shift e m (with_rt f s)"
  by (simp_all add: shift_def push_event_def push_message_def with_rt_def)

lemma shift_fresh: "shift e m (fresh_st r) = \<lparr>rt = r, evs = e, msgs = m\<rparr>"
  by (simp add: shift_def fresh_st_def)

lemma fold_shift:
  assumes "\<And>x s. f x (shift e m s) = shift e m (f x s)"
  shows "fold f xs (shift e m s) = shift e m (fold f xs s)"
  using assms by (induction xs arbitrary: s) simp_all

lemma fold_opt_shift:
  assumes "\<And>x s. f x (shift e m s) = map_option (shift e m) (f x s)"
  shows "fold_opt f xs (shift e m s) = map_option (shift e m) (fold_opt f xs s)"
proof (induction xs arbitrary: s)
  case (Cons x xs)
  show ?case using assms Cons.IH by (cases "f x s") simp_all
qed simp

text \<open>A step that also returns a value.\<close>

abbreviation shift_snd :: "sim_event list \<Rightarrow> sim_message list \<Rightarrow> 'a \<times> sl1_st \<Rightarrow> 'a \<times> sl1_st" where
  "shift_snd e m \<equiv> map_prod id (shift e m)"

section \<open>System by system\<close>

lemma pressure_shift [shift_simps]: "pressure_run sc now (shift e m s) = shift e m (pressure_run sc now s)"
proof -
  have "deactivate_one sc now i (shift e m s) = shift e m (deactivate_one sc now i s)" for i s
    by (simp add: deactivate_one_def Let_def split: option.split)
  moreover have "activate_one now d (shift e m s) = shift e m (activate_one now d s)" for d s
    by (simp add: activate_one_def Let_def)
  ultimately show ?thesis
    by (simp add: pressure_run_def Let_def fold_shift)
qed

lemma transform_steps_shift:
  "handle_failure_policy def i t att now (shift e m s) = shift_snd e m (handle_failure_policy def i t att now s)"
  "emit_warning i k t a (shift e m s) = shift e m (emit_warning i k t a s)"
  "start_attempt scaps pcaps def i t now att (shift e m s)
     = shift_snd e m (start_attempt scaps pcaps def i t now att s)"
  "start_attempt_quiet scaps pcaps def t since att now (shift e m s)
     = shift_snd e m (start_attempt_quiet scaps pcaps def t since att now s)"
  by (simp_all add: handle_failure_policy_def emit_warning_def start_attempt_def start_attempt_quiet_def
      Let_def split: sl1_failure_policy.split prod.split start_result.split)

lemma advance_shift:
  "advance scaps pcaps def i now state (shift e m s) = shift_snd e m (advance scaps pcaps def i now state s)"
  by (cases state)
    (simp_all add: advance_def advance_running_def advance_waiting_def advance_late_def Let_def
      transform_steps_shift split: sl1_failure_policy.split prod.split)

lemma fire_slot_shift:
  "fire_slot scaps pcaps def i now state (shift e m s) = shift_snd e m (fire_slot scaps pcaps def i now state s)"
  by (simp add: fire_slot_def transform_steps_shift)

lemma process_one_shift:
  "process_one scaps pcaps now def i (shift e m s) = shift e m (process_one scaps pcaps now def i s)"
  by (simp add: process_one_def Let_def advance_shift fire_slot_shift case_prod_beta)

lemma transforms_shift [shift_simps]: "run_transforms sc now (shift e m s) = shift e m (run_transforms sc now s)"
  unfolding run_transforms_def shift_base
  by (rule fold_shift) (simp add: process_one_shift split: option.split)

lemma drop_phase_shift: "drop_phase now def (shift e m s) = shift e m (drop_phase now def s)"
  by (simp add: drop_phase_def Let_def case_prod_beta fold_shift split: option.split)

lemma demand_shift [shift_simps]: "run_demand sc now (shift e m s) = map_option (shift e m) (run_demand sc now s)"
proof -
  have "demand_one now def (shift e m s) = map_option (shift e m) (demand_one now def s)" for def s
    by (auto simp: demand_one_def Let_def drop_phase_shift split: option.split Option.bind_split)
  then show ?thesis unfolding run_demand_def by (rule fold_opt_shift)
qed

lemma objectives_shift [shift_simps]:
  "objectives_run sc now (shift e m s) = map_option (shift e m) (objectives_run sc now s)"
proof -
  have o: "evaluate_objectives sc now (shift e m s) = map_option (shift e m) (evaluate_objectives sc now s)" for s
    unfolding evaluate_objectives_def
    by (rule fold_opt_shift) (simp add: evaluate_objective_def warn_unsupported_def Let_def split: option.split)
  have f: "evaluate_failure_conditions sc now (shift e m s)
      = map_option (shift e m) (evaluate_failure_conditions sc now s)" for s
    unfolding evaluate_failure_conditions_def
    by (rule fold_opt_shift)
      (simp add: evaluate_failure_condition_def Let_def case_prod_beta split: option.split)
  have v: "evaluate_victory_conditions sc now (shift e m s)
      = map_option (shift e m) (evaluate_victory_conditions sc now s)" for s
    unfolding evaluate_victory_conditions_def
    by (rule fold_opt_shift) (simp add: evaluate_victory_condition_def split: option.split)
  have r: "recompute_outcome sc now (shift e m s) = shift e m (recompute_outcome sc now s)" for s
    by (simp add: recompute_outcome_def Let_def)
  show ?thesis
    by (auto simp: objectives_run_def o f v r Let_def split: Option.bind_split)
qed

lemma observability_shift [shift_simps]:
  "observability_run sc now (shift e m s) = map_option (shift e m) (observability_run sc now s)"
proof -
  have d: "fold_opt (update_dashboard now) ds (shift e m s)
      = map_option (shift e m) (fold_opt (update_dashboard now) ds s)" for ds s
    by (rule fold_opt_shift) (simp add: update_dashboard_def Let_def split: option.split)
  have mt: "fold_opt (update_metric sc now) ms (shift e m s)
      = map_option (shift e m) (fold_opt (update_metric sc now) ms s)" for ms s
    by (rule fold_opt_shift) (simp add: update_metric_def split: option.split)
  have a: "fold_opt (update_alert now) as (shift e m s)
      = map_option (shift e m) (fold_opt (update_alert now) as s)" for as s
    by (rule fold_opt_shift)
      (auto simp: update_alert_def Let_def case_prod_beta split: Option.bind_split sl1_alert_state.split)
  show ?thesis
    by (auto simp: observability_run_def d mt a split: option.split Option.bind_split)
qed

lemma agents_shift [shift_simps]: "agents_run sc now (shift e m s) = map_option (shift e m) (agents_run sc now s)"
proof -
  have l: "decide_llm a st now (shift e m s) = shift e m (decide_llm a st now s)" for a st s
    by (simp add: decide_llm_def Let_def)
  have c: "decide_act b sc a st now (shift e m s) = shift e m (decide_act b sc a st now s)" for a b st s
    by (simp add: decide_act_def Let_def split: option.split)
  have "decide_one b sc now a (shift e m s) = map_option (shift e m) (decide_one b sc now a s)" for a b s
    by (auto simp: decide_one_def l c split: option.split Option.bind_split)
  then show ?thesis unfolding agents_run_def run_with_factory_def by (rule fold_opt_shift)
qed

lemma milestones_shift [shift_simps]:
  "milestones_run sc now (shift e m s) = map_option (shift e m) (milestones_run sc now s)"
  unfolding milestones_run_def
  by (rule fold_opt_shift)
    (simp add: milestone_one_def fire_if_satisfied_def split: option.split sl1_milestone_trigger.split)

section \<open>The pipeline\<close>

lemma bind_shift:
  assumes "x' = map_option (shift e m) x" and "\<And>s. g (shift e m s) = map_option (shift e m) (g s)"
  shows "Option.bind x' g = map_option (shift e m) (Option.bind x g)"
  using assms by (cases x) simp_all

lemma sl1_run_shift: "sl1_run sc now (shift e m s) = map_option (shift e m) (sl1_run sc now s)"
  unfolding sl1_run_def Let_def
  by (intro bind_shift) (simp_all add: shift_simps)

text \<open>Whatever the buffers hold, the runtime moves as in \<open>sl1_tick\<close> and the buffers only grow.\<close>

lemma sl1_run_buffers:
  assumes "sl1_tick sc (t, r) = Some (now, r')"
  shows "\<exists>e' m'. sl1_run sc now \<lparr>rt = r, evs = e, msgs = m\<rparr> = Some \<lparr>rt = r', evs = e @ e', msgs = m @ m'\<rparr>"
proof -
  from assms obtain s where s: "sl1_run sc now (fresh_st r) = Some s" "rt s = r'"
    by (auto simp: sl1_tick_def Let_def)
  then have "sl1_run sc now (shift e m (fresh_st r)) = Some (shift e m s)" by (simp add: sl1_run_shift)
  then show ?thesis
    unfolding shift_fresh using s(2) by (cases s) (auto simp: shift_def)
qed

end
