(* ===== verification/Tick.thy ===== *)
theory Tick
  imports Movers Agent_Log Sl1_Buffers
begin

text \<open>
  The tick runner (\<open>tick.rs\<close>): one tick of the whole engine, with its hosted agents and the
  optional decision log, and the fixed-step accumulator. Parameters are the regular
  expressions and the JSON text of the log, and the agents themselves. The scratch vectors
  are the local lists of the systems. A panic of the SL1 systems is \<open>None\<close>.
\<close>

section \<open>The runner\<close>

record ('r, 's, 'k) tick_runner =
  tr_events :: "sim_event list"
  tr_messages :: "sim_message list"
  tr_hosts :: "('r, 's) agent_host list"
  tr_agent_log :: "'k agent_log option"
  tr_last_arrivals :: u32
  tr_topology_dirty :: bool

definition runner_new :: "('r, 's, 'k) tick_runner" where
  "runner_new = \<lparr>tr_events = [], tr_messages = [], tr_hosts = [], tr_agent_log = None,
     tr_last_arrivals = 0, tr_topology_dirty = False\<rparr>"

text \<open>\<open>partition_point\<close> on the sorted hosts: before the first that is not smaller.\<close>

definition register_agent ::
  "('r, 's) agent_host \<Rightarrow> ('r, 's, 'k) tick_runner \<Rightarrow> ('r, 's, 'k) tick_runner" where
  "register_agent h r =
     (let pos = length (takeWhile (\<lambda>x. h_id x < h_id h) (tr_hosts r))
      in r\<lparr>tr_hosts := take pos (tr_hosts r) @ h # drop pos (tr_hosts r)\<rparr>)"

definition attach_agent_log :: "'k agent_log \<Rightarrow> ('r, 's, 'k) tick_runner \<Rightarrow> ('r, 's, 'k) tick_runner" where
  "attach_agent_log l r = r\<lparr>tr_agent_log := Some l\<rparr>"

definition take_agent_log ::
  "('r, 's, 'k) tick_runner \<Rightarrow> 'k agent_log option \<times> ('r, 's, 'k) tick_runner" where
  "take_agent_log r = (tr_agent_log r, r\<lparr>tr_agent_log := None\<rparr>)"

section \<open>The agents' turn\<close>

fun action_changes_topology :: "action \<Rightarrow> bool" where
  "action_changes_topology (PlacePiece _ _) = True"
| "action_changes_topology (ConnectPieces _ _) = True"
| "action_changes_topology (RemovePiece _) = True"
| "action_changes_topology _ = False"

text \<open>What the loop over the hosts threads.\<close>

record ('r, 'k) turn_state =
  tu_world :: "'r world"
  tu_events :: "sim_event list"
  tu_messages :: "sim_message list"
  tu_log :: "'k agent_log option"
  tu_dirty :: bool

definition turn_act :: "string \<Rightarrow> action option \<Rightarrow> ('r, 'k) turn_state \<Rightarrow> ('r, 'k) turn_state" where
  "turn_act agent chosen st = (case chosen of
     Some a \<Rightarrow>
       let ((w, ev), out) = apply_world_action agent a (tu_world st, tu_events st) in
       st\<lparr>tu_world := w, tu_events := ev @ [AgentDecided agent (tag a)],
          tu_messages := tu_messages st @ (case out of Rejected p \<Rightarrow> [Warning p] | _ \<Rightarrow> []),
          tu_dirty := tu_dirty st \<or> out = Applied \<and> action_changes_topology a\<rparr>
   | None \<Rightarrow> st\<lparr>tu_events := tu_events st @ [AgentDecided agent TagNoOp]\<rparr>)"

definition turn_log ::
  "regex_engine \<Rightarrow> (agent_log_entry \<Rightarrow> string option) \<Rightarrow> string \<Rightarrow> observation option \<Rightarrow> agent_report
    \<Rightarrow> ('r, 'k) turn_state \<Rightarrow> ('r, 'k) turn_state" where
  "turn_log rx js agent ob report st = (case (tu_log st, ob) of
     (Some l, Some ob) \<Rightarrow>
       let (l', warn) = log_append js (entry_new rx ob agent (ar_chosen report)
             (length (ar_considered report)) (ar_rationale report) None) l
       in st\<lparr>tu_log := Some l',
             tu_messages := tu_messages st @ (case warn of None \<Rightarrow> [] | Some p \<Rightarrow> [Warning p])\<rparr>
   | _ \<Rightarrow> st)"

fun is_fault :: "sim_message \<Rightarrow> bool" where
  "is_fault (Fault _) = True"
| "is_fault _ = False"

definition agent_turn ::
  "regex_engine \<Rightarrow> (agent_log_entry \<Rightarrow> string option) \<Rightarrow> u64 \<Rightarrow> ('r, 's) agent_host
    \<Rightarrow> ('r, 'k) turn_state \<Rightarrow> ('r, 's) agent_host \<times> ('r, 'k) turn_state" where
  "agent_turn rx js tick h st =
     (if \<not> host_should_fire h tick then (h, st)
      else let (h1, ob) = (if tu_log st \<noteq> None
                 then map_prod id Some (observe_only h (tu_world st)) else (h, None)) in
        (case host_step h1 (tu_world st) of
           (h2, Inr report) \<Rightarrow>
             let st2 = turn_log rx js (h_id h) ob report (turn_act (h_id h) (ar_chosen report) st)
             in (h2, st2\<lparr>tu_messages := tu_messages st2 @ [AgentReport report]\<rparr>)
         | (h2, Inl err) \<Rightarrow>
             let msg = agent_error_to_message err;
                 st1 = (if is_fault msg
                        then st\<lparr>tu_world := (tu_world st)\<lparr>w_state := RsFaulted\<rparr>\<rparr> else st)
             in (h2, st1\<lparr>tu_messages := tu_messages st1 @ [msg]\<rparr>)))"

fun run_agents ::
  "regex_engine \<Rightarrow> (agent_log_entry \<Rightarrow> string option) \<Rightarrow> u64 \<Rightarrow> ('r, 's) agent_host list
    \<Rightarrow> ('r, 'k) turn_state \<Rightarrow> ('r, 's) agent_host list \<times> ('r, 'k) turn_state" where
  "run_agents rx js tick [] st = ([], st)"
| "run_agents rx js tick (h # hs) st =
     (let (h', st1) = agent_turn rx js tick h st; (hs', st2) = run_agents rx js tick hs st1
      in (h' # hs', st2))"

section \<open>One tick\<close>

definition sl1_half ::
  "'r world \<Rightarrow> sim_event list \<Rightarrow> sim_message list \<Rightarrow> ('r world \<times> sim_event list \<times> sim_message list) option" where
  "sl1_half w ev ms = (case (w_sl1 w, w_sl1_runtime w) of
     (Some sc, Some r) \<Rightarrow>
       map_option (\<lambda>s. (w\<lparr>w_sl1_runtime := Some (rt s)\<rparr>, evs s, msgs s))
         (sl1_run sc (pw_tick w) \<lparr>rt = r, evs = ev, msgs = ms\<rparr>)
   | _ \<Rightarrow> Some (w, ev, ms))"

definition frozen :: "'r world \<Rightarrow> bool" where
  "frozen w \<longleftrightarrow> w_state w = RsPaused \<or> w_state w = RsFaulted"

definition begin_tick :: "'r world \<Rightarrow> 'r world" where
  "begin_tick w = w\<lparr>w_state := (if w_state w = RsIdle \<or> w_state w = RsLoaded then RsRunning else w_state w),
     pw_tick := sat_add (pw_tick w) 1\<rparr>"

text \<open>The systems before the SL1 half; the turn state carries the world.\<close>

definition early_half ::
  "regex_engine \<Rightarrow> (agent_log_entry \<Rightarrow> string option) \<Rightarrow> ('r, 's, 'k) tick_runner \<Rightarrow> 'r world
    \<Rightarrow> ('r, 's) agent_host list \<times> ('r, 'k) turn_state \<times> u32" where
  "early_half rx js r w =
     (let spawned = lifecycle_run (begin_tick w, []);
          ((w1, ev1), arrivals) = movement_run spawned;
          (hosts, st) = run_agents rx js (pw_tick w1) (tr_hosts r)
            \<lparr>tu_world = w1, tu_events = ev1, tu_messages = [], tu_log = tr_agent_log r, tu_dirty = False\<rparr>;
          (w2, ev2) = interaction_run (tu_world st, tu_events st);
          w3 = fst (production_run w2)
      in (hosts, st\<lparr>tu_world := w3, tu_events := ev2\<rparr>, arrivals))"

definition tick_once ::
  "regex_engine \<Rightarrow> (agent_log_entry \<Rightarrow> string option) \<Rightarrow> ('r, 's, 'k) tick_runner \<Rightarrow> 'r world
    \<Rightarrow> (('r, 's, 'k) tick_runner \<times> 'r world \<times> u32) option" where
  "tick_once rx js r w =
     (if frozen w
      then Some (r\<lparr>tr_events := [], tr_messages := [], tr_last_arrivals := 0, tr_topology_dirty := False\<rparr>, w, 0)
      else let (hosts, st, arrivals) = early_half rx js r w in
        map_option (\<lambda>(w', ev, ms).
          (r\<lparr>tr_events := ev @ [Tick (pw_tick w')], tr_messages := ms, tr_hosts := hosts,
             tr_agent_log := tu_log st, tr_last_arrivals := arrivals, tr_topology_dirty := tu_dirty st\<rparr>,
           w', arrivals))
          (sl1_half (tu_world st) (tu_events st) (tu_messages st)))"

text \<open>The wrapper without a long-lived runner: no hosts, no log.\<close>

record tick_output =
  to_events :: "sim_event list"
  to_snapshot_dirty :: bool

definition tick_alone :: "'r world \<Rightarrow> (tick_output \<times> 'r world) option" where
  "tick_alone w = map_option (\<lambda>(r, w', arrivals).
     (\<lparr>to_events = tr_events (r :: ('r, unit, unit) tick_runner),
       to_snapshot_dirty = (0 < arrivals \<or> w_movers w' \<noteq> [])\<rparr>, w'))
     (tick_once (\<lambda>_. (\<lambda>_. 0, \<lambda>s _. s)) (\<lambda>_. None) runner_new w)"

text \<open>The accumulator; the fuel is the number of ticks still allowed.\<close>

fun accumulate ::
  "nat \<Rightarrow> 'r world \<Rightarrow> f32_bits \<Rightarrow> (tick_output list \<times> 'r world \<times> f32_bits) option" where
  "accumulate 0 w acc = Some ([], w, acc)"
| "accumulate (Suc n) w acc =
     (if f32_le (w_dt w) acc
      then do { (out, w1) \<leftarrow> tick_alone w;
                (outs, w2, acc2) \<leftarrow> accumulate n w1 (f32_sub acc (w_dt w1));
                Some (out # outs, w2, acc2) }
      else Some ([], w, acc))"

definition tick_accumulator ::
  "'r world \<Rightarrow> f32_bits \<Rightarrow> f32_bits \<Rightarrow> u32 \<Rightarrow> (tick_output list \<times> 'r world \<times> f32_bits) option" where
  "tick_accumulator w real_dt acc max_ticks =
     map_option (\<lambda>(outs, w', acc'). (outs, w', if f32_le (w_dt w') acc' then f32_zero else acc'))
       (accumulate (unat max_ticks) w (f32_add acc real_dt))"

end
