(* ===== verification/Engine.thy ===== *)
theory Engine
  imports Tick
begin

text \<open>
  Whole ticks: what the phases keep, the run of many ticks, and its projection onto the SL1
  half. The hosted agents are arbitrary: they may ask for anything and may panic.
\<close>

section \<open>What the phases keep\<close>

text \<open>Between the start of a tick and its SL1 half only the run state may change, to faulted.\<close>

definition same_sl1 :: "'r world \<Rightarrow> 'r world \<Rightarrow> bool" where
  "same_sl1 w w' \<longleftrightarrow> pw_tick w' = pw_tick w \<and> w_sl1 w' = w_sl1 w \<and> w_sl1_runtime w' = w_sl1_runtime w
     \<and> w_dt w' = w_dt w \<and> (w_state w' = w_state w \<or> w_state w' = RsFaulted)"

lemma same_sl1_refl [simp]: "same_sl1 w w"
  by (simp add: same_sl1_def)

lemma same_sl1_trans: "same_sl1 u v \<Longrightarrow> same_sl1 v w \<Longrightarrow> same_sl1 u w"
  by (auto simp: same_sl1_def)

lemma same_clock_sl1: "same_clock u v \<Longrightarrow> same_sl1 u v"
  by (simp add: same_clock_def same_sl1_def)

text \<open>One phase: soundness is kept, the SL1 half and the clock are left alone.\<close>

definition phase_ok :: "'r world \<Rightarrow> 'r world \<Rightarrow> bool" where
  "phase_ok w w' \<longleftrightarrow> world_wf w' \<and> same_sl1 w w'"

lemma phase_ok_trans: "phase_ok u v \<Longrightarrow> phase_ok v w \<Longrightarrow> phase_ok u w"
  by (auto simp: phase_ok_def intro: same_sl1_trans)

lemma wf_state_update: "world_wf (w\<lparr>w_state := s\<rparr>) = world_wf w"
  and wf_tick_update: "world_wf (w\<lparr>pw_tick := t\<rparr>) = world_wf w"
  and wf_runtime_update: "world_wf (w\<lparr>w_sl1_runtime := r\<rparr>) = world_wf w"
proof -
  have st: "mover_state_ok (w\<lparr>w_state := s\<rparr>) = mover_state_ok w"
    "mover_state_ok (w\<lparr>pw_tick := t\<rparr>) = mover_state_ok w"
    "mover_state_ok (w\<lparr>w_sl1_runtime := r\<rparr>) = mover_state_ok w"
  proof -
    have "mover_state_ok (w\<lparr>w_state := s\<rparr>) x = mover_state_ok w x"
      "mover_state_ok (w\<lparr>pw_tick := t\<rparr>) x = mover_state_ok w x"
      "mover_state_ok (w\<lparr>w_sl1_runtime := r\<rparr>) x = mover_state_ok w x" for x
      by (cases x; simp)+
    then show "mover_state_ok (w\<lparr>w_state := s\<rparr>) = mover_state_ok w"
      "mover_state_ok (w\<lparr>pw_tick := t\<rparr>) = mover_state_ok w"
      "mover_state_ok (w\<lparr>w_sl1_runtime := r\<rparr>) = mover_state_ok w" by blast+
  qed
  have eq: "path_ok (w\<lparr>w_state := s\<rparr>) = path_ok w" "mover_ok (w\<lparr>w_state := s\<rparr>) = mover_ok w"
    "path_ok (w\<lparr>pw_tick := t\<rparr>) = path_ok w" "mover_ok (w\<lparr>pw_tick := t\<rparr>) = mover_ok w"
    "path_ok (w\<lparr>w_sl1_runtime := r\<rparr>) = path_ok w" "mover_ok (w\<lparr>w_sl1_runtime := r\<rparr>) = mover_ok w"
    by (auto simp: path_ok_def mover_ok_def fun_eq_iff st)
  show "world_wf (w\<lparr>w_state := s\<rparr>) = world_wf w" "world_wf (w\<lparr>pw_tick := t\<rparr>) = world_wf w"
    "world_wf (w\<lparr>w_sl1_runtime := r\<rparr>) = world_wf w"
    unfolding world_wf_def eq by simp_all
qed

lemma begin_tick_wf: "world_wf w \<Longrightarrow> world_wf (begin_tick w)"
  by (simp add: begin_tick_def wf_state_update wf_tick_update)

lemma movers_phase:
  assumes "world_wf w"
  shows "phase_ok w (fst (lifecycle_run (w, ev)))" "phase_ok w (fst (fst (movement_run (w, ev))))"
    "phase_ok w (fst (interaction_run (w, ev)))"
  using spawning.keeps_wf [OF assms, of ev] spawning.keeps_rest [OF assms, of ev]
    landing.keeps_wf [OF assms, of ev] landing.keeps_rest [OF assms, of ev]
    routing.keeps_wf [OF assms, of ev] routing.keeps_rest [OF assms, of ev]
  by (auto simp: phase_ok_def same_sl1_def)

lemma production_phase:
  assumes "world_wf w"
  shows "phase_ok w (fst (production_run w))"
proof -
  let ?w = "fst (production_run w)"
  have keys: "bt_wf (pw_inventory ?w)
    \<and> (\<forall>k. bt_has (pw_inventory w) k \<longrightarrow> bt_has (pw_inventory ?w) k)
    \<and> (\<forall>k. bt_has (pw_inventory ?w) k \<longrightarrow> bt_has (w_resources w) k)"
  proof (rule production_run_keys)
    show "bt_wf (pw_inventory w)" by (rule world_wfD(8) [OF assms])
    show "bt_has (w_resources w) (p_resource p)" if "(i, p) \<in> set (pw_producers w)" for i p
      using table_okD(3) [OF world_wfD(6) [OF assms]] table_okD(4) [OF world_wfD(6) [OF assms] that] by blast
    show "bt_has (w_resources w) k" if "bt_has (pw_inventory w) k" for k
      using that world_wfD(9) [OF assms] by blast
  qed
  have frame: "?w = w\<lparr>pw_inventory := pw_inventory ?w\<rparr>" by (rule production_run_frame)
  have rest: "w_dt ?w = w_dt w" "w_state ?w = w_state w" "w_nodes ?w = w_nodes w" "w_paths ?w = w_paths w"
    "w_movers ?w = w_movers w" "w_resources ?w = w_resources w" "w_sl1 ?w = w_sl1 w"
    "w_sl1_runtime ?w = w_sl1_runtime w" "pw_producers ?w = pw_producers w" "pw_consumers ?w = pw_consumers w"
    by (subst frame, simp)+
  have st: "mover_state_ok ?w x = mover_state_ok w x" for x by (cases x) (simp_all add: rest)
  have eq: "path_ok ?w = path_ok w" "mover_ok ?w = mover_ok w"
    by (auto simp: path_ok_def mover_ok_def fun_eq_iff st rest)
  have "world_wf ?w"
    using assms keys unfolding world_wf_def eq rest by blast
  then show ?thesis by (simp add: phase_ok_def same_sl1_def rest)
qed

lemma turn_act_phase:
  assumes "world_wf (tu_world st)"
  shows "phase_ok (tu_world st) (tu_world (turn_act agent chosen st))"
proof (cases chosen)
  case (Some a)
  obtain w ev out where r: "apply_world_action agent a (tu_world st, tu_events st) = ((w, ev), out)"
    by (metis prod.exhaust)
  from acting.sound [OF r assms] have "world_wf w \<and> same_clock (tu_world st) w" by blast
  then show ?thesis using Some r by (simp add: turn_act_def phase_ok_def same_clock_sl1)
qed (use assms in \<open>simp add: turn_act_def phase_ok_def\<close>)

lemma turn_log_world [simp]: "tu_world (turn_log rx js agent ob report st) = tu_world st"
  by (simp add: turn_log_def case_prod_beta split: option.split)

lemma agent_turn_phase:
  assumes "world_wf (tu_world st)"
  shows "phase_ok (tu_world st) (tu_world (snd (agent_turn rx js tick h st)))"
proof (cases "host_should_fire h tick")
  case True
  define p where "p = (if tu_log st \<noteq> None then map_prod id Some (observe_only h (tu_world st)) else (h, None))"
  obtain h1 ob where p': "p = (h1, ob)" by (cases p)
  obtain h2 res where s: "host_step h1 (tu_world st) = (h2, res)" by (cases "host_step h1 (tu_world st)")
  have t: "agent_turn rx js tick h st = (case (h2, res) of
      (h2, Inr report) \<Rightarrow>
        let st2 = turn_log rx js (h_id h) ob report (turn_act (h_id h) (ar_chosen report) st)
        in (h2, st2\<lparr>tu_messages := tu_messages st2 @ [AgentReport report]\<rparr>)
    | (h2, Inl err) \<Rightarrow>
        let msg = agent_error_to_message err;
            st1 = (if is_fault msg then st\<lparr>tu_world := (tu_world st)\<lparr>w_state := RsFaulted\<rparr>\<rparr> else st)
        in (h2, st1\<lparr>tu_messages := tu_messages st1 @ [msg]\<rparr>))"
    using True by (simp only: agent_turn_def not_not if_False simp_thms p_def [symmetric] p' s prod.case Let_def)
  show ?thesis
  proof (cases res)
    case (Inl err)
    then show ?thesis using assms
      by (auto simp: t Let_def phase_ok_def same_sl1_def wf_state_update)
  next
    case (Inr report)
    then show ?thesis using turn_act_phase [OF assms] by (simp add: t Let_def)
  qed
qed (use assms in \<open>simp add: agent_turn_def phase_ok_def\<close>)

lemma run_agents_phase:
  "world_wf (tu_world st) \<Longrightarrow> phase_ok (tu_world st) (tu_world (snd (run_agents rx js tick hs st)))"
proof (induction hs arbitrary: st)
  case Nil
  then show ?case by (simp add: phase_ok_def)
next
  case (Cons h hs)
  let ?t = "agent_turn rx js tick h st"
  have a: "phase_ok (tu_world st) (tu_world (snd ?t))" using Cons.prems by (rule agent_turn_phase)
  then have "phase_ok (tu_world (snd ?t)) (tu_world (snd (run_agents rx js tick hs (snd ?t))))"
    by (intro Cons.IH) (simp add: phase_ok_def)
  with a show ?case by (auto simp: case_prod_beta intro: phase_ok_trans)
qed

lemma early_half_phase:
  assumes "world_wf w" and "early_half rx js r w = (hosts, st, arrivals)"
  shows "phase_ok (begin_tick w) (tu_world st)"
proof -
  obtain w0 ev0 where l: "lifecycle_run (begin_tick w, []) = (w0, ev0)" by (metis prod.exhaust)
  obtain w1 ev1 n where m: "movement_run (w0, ev0) = ((w1, ev1), n)" by (metis prod.exhaust)
  obtain hs st1 where a: "run_agents rx js (pw_tick w1) (tr_hosts r)
      \<lparr>tu_world = w1, tu_events = ev1, tu_messages = [], tu_log = tr_agent_log r, tu_dirty = False\<rparr> = (hs, st1)"
    by (metis prod.exhaust)
  obtain w2 ev2 where i: "interaction_run (tu_world st1, tu_events st1) = (w2, ev2)" by (metis prod.exhaust)
  have 1: "phase_ok (begin_tick w) w0"
    using movers_phase(1) [OF begin_tick_wf [OF assms(1)], of "[]"] by (simp only: l fst_conv)
  then have 2: "phase_ok w0 w1" using movers_phase(2) [of w0 ev0] by (simp add: m phase_ok_def)
  then have 3: "phase_ok w1 (tu_world st1)"
    using run_agents_phase [of "\<lparr>tu_world = w1, tu_events = ev1, tu_messages = [], tu_log = tr_agent_log r,
        tu_dirty = False\<rparr>" rx js "pw_tick w1" "tr_hosts r"]
    by (simp add: a phase_ok_def)
  then have 4: "phase_ok (tu_world st1) w2"
    using movers_phase(3) [of "tu_world st1" "tu_events st1"] by (simp add: i phase_ok_def)
  then have 5: "phase_ok w2 (fst (production_run w2))" using production_phase [of w2] by (simp add: phase_ok_def)
  have "tu_world st = fst (production_run w2)"
    using assms(2) by (auto simp: early_half_def l m a i)
  with phase_ok_trans [OF phase_ok_trans [OF phase_ok_trans [OF phase_ok_trans [OF 1 2] 3] 4] 5]
  show ?thesis by simp
qed

section \<open>One tick\<close>

lemma sl1_half_none:
  "w_sl1 w = None \<or> w_sl1_runtime w = None \<Longrightarrow> sl1_half w ev ms = Some (w, ev, ms)"
  by (auto simp: sl1_half_def split: option.split)

lemma sl1_half_wf: "sl1_half w ev ms = Some (w', ev', ms') \<Longrightarrow> world_wf w' = world_wf w"
  by (auto simp: sl1_half_def wf_runtime_update split: option.splits)

lemma tick_once_frozen:
  "frozen w \<Longrightarrow> tick_once rx js r w
    = Some (r\<lparr>tr_events := [], tr_messages := [], tr_last_arrivals := 0, tr_topology_dirty := False\<rparr>, w, 0)"
  by (simp add: tick_once_def)

text \<open>A tick that runs: its early half, then its SL1 half.\<close>

lemma tick_once_halves:
  assumes "\<not> frozen w" and "early_half rx js r w = (hosts, st, arrivals)"
  shows "tick_once rx js r w = map_option (\<lambda>(w', ev, ms).
      (r\<lparr>tr_events := ev @ [Tick (pw_tick w')], tr_messages := ms, tr_hosts := hosts,
         tr_agent_log := tu_log st, tr_last_arrivals := arrivals, tr_topology_dirty := tu_dirty st\<rparr>, w', arrivals))
      (sl1_half (tu_world st) (tu_events st) (tu_messages st))"
  using assms by (simp add: tick_once_def)

lemma tick_once_wf:
  assumes "world_wf w" and "tick_once rx js r w = Some (r', w', n)"
  shows "world_wf w'"
proof (cases "frozen w")
  case True
  then show ?thesis using assms by (auto simp: tick_once_frozen)
next
  case False
  obtain hosts st arrivals where e: "early_half rx js r w = (hosts, st, arrivals)" by (metis prod.exhaust)
  from early_half_phase [OF assms(1) e] have "world_wf (tu_world st)" by (simp add: phase_ok_def)
  then show ?thesis using assms(2) by (auto simp: tick_once_halves [OF False e] dest: sl1_half_wf)
qed

text \<open>What a running tick does to the SL1 half of a world.\<close>

lemma tick_once_sl1:
  assumes "world_wf w" and "\<not> frozen w" and "w_sl1 w = Some sc" and "w_sl1_runtime w = Some rt0"
    and tick: "sl1_tick sc (pw_tick w, rt0) = Some (now, rt1)"
  obtains r' w' n where "tick_once rx js r w = Some (r', w', n)" and "world_wf w'" and "w_sl1 w' = Some sc"
    and "w_sl1_runtime w' = Some rt1" and "pw_tick w' = now" and "w_dt w' = w_dt w"
proof -
  obtain hosts st arrivals where e: "early_half rx js r w = (hosts, st, arrivals)" by (metis prod.exhaust)
  from early_half_phase [OF assms(1) e] have ph: "world_wf (tu_world st)" "same_sl1 (begin_tick w) (tu_world st)"
    by (simp_all add: phase_ok_def)
  have now: "now = sat_add (pw_tick w) 1" using tick by (auto simp: sl1_tick_def Let_def)
  have h: "w_sl1 (tu_world st) = Some sc" "w_sl1_runtime (tu_world st) = Some rt0" "pw_tick (tu_world st) = now"
    "w_dt (tu_world st) = w_dt w"
    using ph(2) assms(3,4) now by (auto simp: same_sl1_def begin_tick_def)
  from sl1_run_buffers [OF tick] obtain e' m' where
    "sl1_run sc now \<lparr>rt = rt0, evs = tu_events st, msgs = tu_messages st\<rparr>
      = Some \<lparr>rt = rt1, evs = tu_events st @ e', msgs = tu_messages st @ m'\<rparr>" by blast
  then have half: "sl1_half (tu_world st) (tu_events st) (tu_messages st)
      = Some ((tu_world st)\<lparr>w_sl1_runtime := Some rt1\<rparr>, tu_events st @ e', tu_messages st @ m')"
    by (simp add: sl1_half_def h)
  show thesis
    by (rule that [OF tick_once_halves [OF assms(2) e, unfolded half option.map prod.case]])
      (simp_all add: h ph(1) wf_runtime_update)
qed

section \<open>Many ticks\<close>

fun engine_ticks ::
  "regex_engine \<Rightarrow> (agent_log_entry \<Rightarrow> string option) \<Rightarrow> nat \<Rightarrow> ('r, 's, 'k) tick_runner \<Rightarrow> 'r world
    \<Rightarrow> (('r, 's, 'k) tick_runner \<times> 'r world) option" where
  "engine_ticks rx js 0 r w = Some (r, w)"
| "engine_ticks rx js (Suc n) r w =
     do { (r1, w1) \<leftarrow> engine_ticks rx js n r w; (r2, w2, _) \<leftarrow> tick_once rx js r1 w1; Some (r2, w2) }"

lemma engine_ticks_wf:
  "world_wf w \<Longrightarrow> engine_ticks rx js n r w = Some (r', w') \<Longrightarrow> world_wf w'"
  by (induction n arbitrary: r' w') (auto split: Option.bind_splits dest: tick_once_wf)

lemma engine_ticks_frozen:
  "frozen w \<Longrightarrow> \<exists>r'. engine_ticks rx js n r w = Some (r', w)"
  by (induction n) (auto simp: tick_once_frozen)

text \<open>Without an SL1 scene every tick returns and none appears.\<close>

lemma tick_once_no_sl1:
  assumes "world_wf w" and "w_sl1 w = None"
  obtains r' w' n where "tick_once rx js r w = Some (r', w', n)" and "world_wf w'" and "w_sl1 w' = None"
proof (cases "frozen w")
  case True
  with assms show ?thesis by (auto simp: tick_once_frozen intro: that)
next
  case False
  obtain hosts st arrivals where e: "early_half rx js r w = (hosts, st, arrivals)" by (metis prod.exhaust)
  from early_half_phase [OF assms(1) e] have "world_wf (tu_world st)" "w_sl1 (tu_world st) = None"
    using assms(2) by (simp_all add: phase_ok_def same_sl1_def begin_tick_def)
  then show ?thesis
    using that [OF tick_once_halves [OF False e, unfolded sl1_half_none [OF disjI1, OF \<open>w_sl1 (tu_world st) = None\<close>]
        option.map prod.case]] by simp
qed

lemma engine_ticks_no_sl1:
  assumes "world_wf w" and "w_sl1 w = None"
  shows "\<exists>r' w'. engine_ticks rx js n r w = Some (r', w') \<and> world_wf w' \<and> w_sl1 w' = None"
proof (induction n)
  case (Suc n)
  then obtain r1 w1 where n: "engine_ticks rx js n r w = Some (r1, w1)" "world_wf w1" "w_sl1 w1 = None" by blast
  obtain r2 w2 k where "tick_once rx js r1 w1 = Some (r2, w2, k)" "world_wf w2" "w_sl1 w2 = None"
    by (rule tick_once_no_sl1 [OF n(2,3)])
  with n(1) show ?case by simp
qed (use assms in simp)

end
