(* ===== verification/Engine_Properties.thy ===== *)
theory Engine_Properties
  imports Engine Demo
begin

text \<open>
  Properties of the whole tick: its SL1 half, its hosted agents, its movers, its actions and
  its decision log. \<open>demo_world\<close> is a world of two nodes, a path and a mover around the demo
  scene; \<open>reckless\<close> is an agent that panics in every call.
\<close>

section \<open>A world and its agents\<close>

definition demo_world :: "unit world" where
  "demo_world = \<lparr>pw_tick = 0,
     pw_producers = [(0, \<lparr>p_id = 0, p_resource = 0, p_amount = 3, p_interval_ticks = 2\<rparr>)],
     pw_consumers = [], pw_inventory = [(0, 5)], w_dt = DEFAULT_DT, w_rng = (), w_state = RsLoaded,
     w_nodes = [(1, \<lparr>n_id = 1, n_pos = (f32_zero, f32_zero), n_shape = Circle, n_color = 0\<rparr>),
       (2, \<lparr>n_id = 2, n_pos = (f32_one, f32_zero), n_shape = Square, n_color = 1\<rparr>)],
     w_paths = [(7, \<lparr>pa_id = 7, pa_from = 1, pa_to = 2, pa_color = 0\<rparr>)],
     w_movers = [(5, \<lparr>m_id = 5, m_home_path = 7, m_speed = f32_one, m_state = MWaiting 1\<rparr>)],
     w_resources = [(0, \<lparr>re_id = 0, re_name = ''ore'', re_color = 2\<rparr>)],
     w_sl1 = Some demo, w_sl1_runtime = Some (from_scene demo)\<rparr>"

lemma demo_world_wf: "world_wf demo_world"
proof -
  have "dt_ok DEFAULT_DT" "speed_ok f32_one" by code_simp+
  then show ?thesis
    by (simp add: world_wf_def demo_world_def table_ok_def names_distinct_def path_ok_def mover_ok_def
        bt_wf_def bt_has_def)
qed

definition reckless :: "string \<Rightarrow> (unit, unit) agent_host" where
  "reckless name = \<lparr>h_id = name, h_interval_ticks = 1, h_agent = (),
     h_observe = (\<lambda>s w. (s, Inr observation_default)), h_act = (\<lambda>s ob. (s, Inl OtherPanic))\<rparr>"

definition no_regex :: regex_engine where "no_regex = (\<lambda>_. (\<lambda>_. 0, \<lambda>s _. s))"
definition no_json :: "agent_log_entry \<Rightarrow> string option" where "no_json = (\<lambda>_. None)"

definition demo_runner :: "(unit, unit, unit) tick_runner" where
  "demo_runner = register_agent (reckless ''b'') (register_agent (speed_tuner ''a'' 1 ()) runner_new)"

section \<open>Whole runs\<close>

lemma engine_ticks_sl1:
  assumes ok: "scene_ok sc" and "MAX_DEMAND_OUTSTANDING * n < 2 ^ 64"
    and w: "world_wf w" "w_sl1 w = Some sc" "w_sl1_runtime w = Some (from_scene sc)" "pw_tick w = 0"
  shows "\<exists>r' w' k r1. engine_ticks rx js n r w = Some (r', w') \<and> world_wf w' \<and> w_sl1 w' = Some sc
    \<and> k \<le> n \<and> sl1_ticks sc k (sl1_start sc) = Some (pw_tick w', r1) \<and> w_sl1_runtime w' = Some r1
    \<and> pw_tick w' = of_nat k \<and> (k = n \<or> frozen w')"
  using assms(2)
proof (induction n)
  case 0
  show ?case by (rule exI [of _ r], rule exI [of _ w], rule exI [of _ 0]) (simp add: w sl1_start_def)
next
  case (Suc n)
  then have fits: "MAX_DEMAND_OUTSTANDING * n < 2 ^ 64" by simp
  from Suc.IH [OF fits] obtain r' w' k r1 where e: "engine_ticks rx js n r w = Some (r', w')"
    and w': "world_wf w'" "w_sl1 w' = Some sc" "w_sl1_runtime w' = Some r1" "pw_tick w' = of_nat k"
    and k: "k \<le> n" "sl1_ticks sc k (sl1_start sc) = Some (pw_tick w', r1)" "k = n \<or> frozen w'" by blast
  show ?case
  proof (cases "frozen w'")
    case True
    then show ?thesis using e w' k by (auto simp: tick_once_frozen intro!: exI [of _ k])
  next
    case False
    with k have kn: "k = n" by simp
    from sl1_ticks_inv [OF ok Suc.prems] obtain r2 where r2: "sl1_ticks sc (Suc n) (sl1_start sc) = Some (of_nat (Suc n), r2)"
      by blast
    then have t: "sl1_tick sc (pw_tick w', r1) = Some (of_nat (Suc n), r2)"
      using k(2) kn by (simp del: of_nat_Suc)
    obtain r3 w3 m where "tick_once rx js r' w' = Some (r3, w3, m)" "world_wf w3" "w_sl1 w3 = Some sc"
      "w_sl1_runtime w3 = Some r2" "pw_tick w3 = of_nat (Suc n)"
      by (rule tick_once_sl1 [OF w'(1) False w'(2,3) t])
    then show ?thesis using e r2
      by (intro exI [of _ r3] exI [of _ w3] exI [of _ "Suc n"] exI [of _ r2]) (simp del: of_nat_Suc sl1_ticks.simps)
  qed
qed

text \<open>
  C2. The whole engine refines the SL1 engine. Whatever the hosted agents do (they may change
  the world through any action, return errors, or panic), and whatever their log does, \<open>n\<close>
  ticks of \<open>tick_once\<close> return, every reference of the world still resolves, and the SL1 half
  is exactly where \<open>k\<close> ticks of the SL1 engine alone bring it; \<open>k\<close> is \<open>n\<close> unless the world
  froze because an agent faulted (or was paused).
\<close>

theorem engine_refines_sl1:
  assumes "scene_ok sc" and "MAX_DEMAND_OUTSTANDING * n < 2 ^ 64" and "world_wf w"
    and "w_sl1 w = Some sc" and "w_sl1_runtime w = Some (from_scene sc)" and "pw_tick w = 0"
  shows "\<exists>r' w' k r1. engine_ticks rx js n r w = Some (r', w') \<and> world_wf w'
    \<and> k \<le> n \<and> (k = n \<or> frozen w')
    \<and> sl1_ticks sc k (sl1_start sc) = Some (pw_tick w', r1) \<and> w_sl1_runtime w' = Some r1"
  using engine_ticks_sl1 [OF assms, of rx js r] by blast

theorem engine_refines_sl1_witness:
  "\<exists>r' w'. engine_ticks no_regex no_json 1000 demo_runner demo_world = Some (r', w') \<and> world_wf w'"
proof -
  have "MAX_DEMAND_OUTSTANDING * 1000 < 2 ^ 64" by (simp add: MAX_DEMAND_OUTSTANDING_def)
  moreover have "w_sl1 demo_world = Some demo" "w_sl1_runtime demo_world = Some (from_scene demo)"
    "pw_tick demo_world = 0" by (simp_all add: demo_world_def)
  ultimately show ?thesis
    using engine_refines_sl1 [OF demo_ok _ demo_world_wf, of 1000 no_regex no_json demo_runner] by blast
qed

section \<open>The order of registration\<close>

lemma register_insort:
  "tr_hosts (register_agent h r) = insort_key h_id h (tr_hosts r)"
proof -
  have "take (length (takeWhile (\<lambda>x. h_id x < h_id h) hs)) hs @ h # drop (length (takeWhile (\<lambda>x. h_id x < h_id h) hs)) hs
      = insort_key h_id h hs" for hs
    by (induction hs) (auto simp: not_less)
  then show ?thesis by (simp add: register_agent_def Let_def)
qed

lemma fold_register: "tr_hosts (fold register_agent hs r) = fold (insort_key h_id) hs (tr_hosts r)"
  by (induction hs arbitrary: r) (simp_all add: register_insort)

lemma register_all: "tr_hosts (fold register_agent hs runner_new) = sort_key h_id (rev hs)"
  by (simp add: fold_register runner_new_def sort_key_def foldr_conv_fold)

text \<open>Hosts of equal ids end up in the reverse order of their registration.\<close>

lemma equal_ids_reversed:
  "filter (\<lambda>h. h_id h = i) (tr_hosts (fold register_agent hs runner_new)) = rev (filter (\<lambda>h. h_id h = i) hs)"
  by (simp add: register_all sort_key_stable rev_filter)

text \<open>
  Which hosts a runner ends with does not depend on the order in which they were
  registered, as long as their ids differ: the agents take their turns by increasing id.
\<close>

lemma registration_order_irrelevant:
  assumes "mset hs = mset hs'" and "distinct (map h_id hs)"
  shows "tr_hosts (fold register_agent hs runner_new) = tr_hosts (fold register_agent hs' runner_new)
    \<and> sorted (map h_id (tr_hosts (fold register_agent hs runner_new)))"
proof -
  have "sort_key h_id (rev hs) = sort_key h_id (rev hs')"
    using assms by (intro sort_key_inj_key_eq) (auto simp: distinct_map)
  then show ?thesis by (simp add: register_all)
qed

lemma registration_order_irrelevant_witness:
  "tr_hosts (fold register_agent [reckless ''b'', speed_tuner ''a'' 1 (), reckless ''c''] (runner_new :: (unit, unit, unit) tick_runner))
    = tr_hosts (fold register_agent [reckless ''c'', reckless ''b'', speed_tuner ''a'' 1 ()] runner_new)"
proof -
  have "mset [reckless ''b'', speed_tuner ''a'' 1 (), reckless ''c'']
      = mset [reckless ''c'', reckless ''b'', speed_tuner ''a'' 1 ()]" by simp
  moreover have "distinct (map h_id [reckless ''b'', speed_tuner ''a'' 1 () :: (unit, unit) agent_host, reckless ''c''])"
    by (simp add: reckless_def speed_tuner_def)
  ultimately show ?thesis using registration_order_irrelevant by blast
qed

section \<open>The mover systems\<close>

text \<open>
  C24. The movement system, with its two passes and its scratch vector, is one function applied
  to every mover: a travelling one advances by speed times \<open>dt\<close>, capped at one, and waits at
  the end of its path when it has reached it; exactly these arrivals are reported and counted.
\<close>

theorem movement_exact:
  assumes "world_wf w"
  shows "movement_run (w, ev)
    = ((map_movers (moved w) w, ev @ landing_log w), of_nat (length (landing_log w)))"
  by (rule movement_pointwise [OF assms])

theorem movement_exact_witness:
  "movement_run (demo_world, [])
    = ((map_movers (moved demo_world) demo_world, [] @ landing_log demo_world),
       of_nat (length (landing_log demo_world)))"
  using movement_exact [OF demo_world_wf] .

lemma route_entry_least:
  assumes "world_wf w" and "route_entry w m = Some (p, n)"
  shows "m_state m = MWaiting n \<and> (\<exists>pa. bt_get (w_paths w) p = Some pa \<and> pa_from pa = n)
    \<and> (\<forall>q pa. bt_get (w_paths w) q = Some pa \<and> pa_from pa = n \<longrightarrow> p \<le> q)"
proof -
  have wf: "bt_wf (w_paths w)" using table_okD(1) [OF world_wfD(3) [OF assms(1)]] .
  obtain pa where s: "m_state m = MWaiting n" and f: "find (\<lambda>e. pa_from (snd e) = n) (w_paths w) = Some (p, pa)"
    using assms(2) by (auto simp: route_entry_def split: mover_state.splits)
  have "(\<exists>pa. (p, pa) \<in> set xs \<and> pa_from pa = n) \<and> (\<forall>q qa. (q, qa) \<in> set xs \<and> pa_from qa = n \<longrightarrow> p \<le> q)"
    if "bt_wf xs" "find (\<lambda>e. pa_from (snd e) = n) xs = Some (p, pa)" for xs
    using that
  proof (induction xs)
    case (Cons x xs)
    from Cons.prems(1) have "bt_wf xs" and less: "\<And>y. y \<in> set xs \<Longrightarrow> fst x < fst y" by (auto simp: bt_wf_def)
    with Cons show ?case by (cases "pa_from (snd x) = n") (auto simp: less_imp_le)
  qed simp
  from this [OF wf f] wf s show ?thesis by (auto simp: bt_wf_get)
qed

lemma route_entry_none:
  assumes "world_wf w" and "m_state m = MWaiting n" and "route_entry w m = None"
    and "bt_get (w_paths w) q = Some pa"
  shows "pa_from pa \<noteq> n"
proof -
  have "(q, pa) \<in> set (w_paths w)" using assms(4) by (rule map_of_SomeD)
  with assms(2,3) show ?thesis by (auto simp: route_entry_def find_None_iff)
qed

text \<open>
  After the interaction system no mover waits at a node that some path leaves: it travels,
  from the start, on the outgoing path with the smallest id, and its departure is reported.
\<close>

lemma waiting_movers_depart:
  assumes "world_wf w" and "bt_get (w_movers w) k = Some m" and "m_state m = MWaiting n"
    and "bt_get (w_paths w) q = Some pa" and "pa_from pa = n"
    and "interaction_run (w, ev) = (w', ev')"
  shows "\<exists>p. bt_get (w_movers w') k = Some (m\<lparr>m_state := MTraveling p f32_zero\<rparr>)
    \<and> (\<exists>pp. bt_get (w_paths w) p = Some pp \<and> pa_from pp = n) \<and> p \<le> q
    \<and> MoverDeparted k n p \<in> set ev'"
proof -
  obtain p n' where r: "route_entry w m = Some (p, n')"
    using route_entry_none [OF assms(1,3) _ assms(4)] assms(5) by (cases "route_entry w m") auto
  note least = route_entry_least [OF assms(1) r]
  then have n: "n' = n" using assms(3) by simp
  have km: "(k, m) \<in> set (w_movers w)" using assms(2) by (rule map_of_SomeD)
  have run: "w' = map_movers (routed w) w"
    "ev' = ev @ scratch_log (\<lambda>_. route_entry w) (\<lambda>k (p, n) _. MoverDeparted k n p) (w_movers w)"
    using interaction_pointwise [OF world_movers_wf [OF assms(1)], of ev] assms(6) by simp_all
  have "bt_get (w_movers w') k = Some (m\<lparr>m_state := MTraveling p f32_zero\<rparr>)"
    using assms(2) r by (simp add: run routed_def)
  moreover have "MoverDeparted k n p \<in> set ev'"
    using km r n by (force simp: run scratch_log_def List.map_filter_def)
  ultimately show ?thesis using least n assms(4,5) by blast
qed

lemma waiting_movers_depart_witness:
  "\<exists>w' ev' p. interaction_run (demo_world, []) = (w', ev') \<and> MoverDeparted 5 1 p \<in> set ev'"
proof -
  obtain w' ev' where i: "interaction_run (demo_world, []) = (w', ev')" by (metis prod.exhaust)
  have "bt_get (w_movers demo_world) 5 = Some \<lparr>m_id = 5, m_home_path = 7, m_speed = f32_one, m_state = MWaiting 1\<rparr>"
    "bt_get (w_paths demo_world) 7 = Some \<lparr>pa_id = 7, pa_from = 1, pa_to = 2, pa_color = 0\<rparr>"
    by (simp_all add: demo_world_def)
  from waiting_movers_depart [OF demo_world_wf this(1) _ this(2) _ i, of 1] i show ?thesis by auto
qed

section \<open>Actions\<close>

text \<open>
  C22. An action of an agent keeps every reference of the world resolved, leaves the clock, the
  run state and the SL1 half alone and only adds events; when it is not applied it changes
  nothing at all, and a refusal is a warning that names the agent.
\<close>

theorem action_contract:
  assumes "world_wf w" and "apply_world_action agent a (w, ev) = ((w', ev'), out)"
  shows "world_wf w' \<and> same_clock w w' \<and> (\<exists>new. ev' = ev @ new)
    \<and> (out \<noteq> Applied \<longrightarrow> w' = w \<and> ev' = ev)
    \<and> (\<forall>p. out = Rejected p \<longrightarrow> (\<exists>reason. p = InvalidAction agent reason))"
  using acting.sound [OF assms(2,1)] acting.blames [of agent a "(w, ev)"] assms(2) by auto

theorem action_contract_witness:
  "fst (apply_world_action ''bot'' (RemovePiece 9) (demo_world, [])) = (demo_world, [])"
proof -
  obtain w' ev' out where r: "apply_world_action ''bot'' (RemovePiece 9) (demo_world, []) = ((w', ev'), out)"
    by (metis prod.exhaust)
  moreover have "out \<noteq> Applied"
    using r by (auto simp: remove_piece_def demo_world_def bt_has_def invalid_def)
  ultimately show ?thesis using action_contract [OF demo_world_wf r] by simp
qed

text \<open>Which movers need a node.\<close>

definition needs_node :: "'r world \<Rightarrow> u32 \<Rightarrow> mover \<Rightarrow> bool" where
  "needs_node w i m \<longleftrightarrow> m_state m = MWaiting i
     \<or> (\<exists>p pa. (m_home_path m = p \<or> (\<exists>pr. m_state m = MTraveling p pr))
          \<and> bt_get (w_paths w) p = Some pa \<and> (pa_from pa = i \<or> pa_to pa = i))"

lemma incident_paths_iff:
  assumes "world_wf w"
  shows "k \<in> set (incident_paths w i)
    \<longleftrightarrow> (\<exists>p. bt_get (w_paths w) k = Some p \<and> (pa_from p = i \<or> pa_to p = i))"
  using table_okD(1) [OF world_wfD(3) [OF assms]]
  by (auto simp: incident_paths_def bt_wf_get image_iff split: prod.splits)

lemma mover_blocks_needs:
  "world_wf w \<Longrightarrow> mover_blocks i (incident_paths w i) m = None \<longleftrightarrow> \<not> needs_node w i m"
  by (auto simp: mover_blocks_None needs_node_def incident_paths_iff split: mover_state.splits)

text \<open>
  C23. A node is removed exactly when it exists and no mover needs it (none waits at it, none
  travels on or has its home on a path that touches it), and then it goes together with
  exactly the paths that touch it.
\<close>

theorem remove_piece_exact:
  assumes "world_wf w" and "apply_world_action agent (RemovePiece i) (w, ev) = ((w', ev'), out)"
  shows "(out = Applied \<longleftrightarrow> bt_has (w_nodes w) i \<and> (\<forall>k m. bt_get (w_movers w) k = Some m \<longrightarrow> \<not> needs_node w i m))
    \<and> (out = Applied \<longrightarrow> (\<forall>k. bt_get (w_nodes w') k = (if k = i then None else bt_get (w_nodes w) k))
        \<and> (\<forall>k. bt_get (w_paths w') k = (case bt_get (w_paths w) k of None \<Rightarrow> None
              | Some p \<Rightarrow> if pa_from p = i \<or> pa_to p = i then None else Some p)))"
proof -
  let ?inc = "incident_paths w i"
  have mem: "m \<in> set (bt_values (w_movers w)) \<longleftrightarrow> (\<exists>k. bt_get (w_movers w) k = Some m)" for m
    using bt_wf_get [OF world_movers_wf [OF assms(1)]] by force
  have free: "first_blocker i ?inc (bt_values (w_movers w)) = None
      \<longleftrightarrow> (\<forall>k m. bt_get (w_movers w) k = Some m \<longrightarrow> \<not> needs_node w i m)"
    unfolding first_blocker_None using mem mover_blocks_needs [OF assms(1)] by blast
  have r: "remove_piece agent i (w, ev) = ((w', ev'), out)" using assms(2) by simp
  show ?thesis
  proof (cases "bt_has (w_nodes w) i \<and> first_blocker i ?inc (bt_values (w_movers w)) = None")
    case True
    with r have "out = Applied" and w': "w' = w\<lparr>w_paths := fold bt_remove ?inc (w_paths w), w_nodes := bt_remove i (w_nodes w)\<rparr>"
      by (simp_all add: remove_piece_def Let_def)
    moreover have "bt_get (w_paths w') k = (case bt_get (w_paths w) k of None \<Rightarrow> None
              | Some p \<Rightarrow> if pa_from p = i \<or> pa_to p = i then None else Some p)" for k
      using incident_paths_iff [OF assms(1), of k i] by (auto simp: w' bt_get_fold_remove split: option.split)
    moreover have "bt_get (w_nodes w') k = (if k = i then None else bt_get (w_nodes w) k)" for k
      by (simp add: w')
    ultimately show ?thesis using True free by blast
  next
    case False
    with r have "out \<noteq> Applied" by (auto simp: remove_piece_def Let_def invalid_def split: if_splits option.splits)
    with False free show ?thesis by blast
  qed
qed

theorem remove_piece_exact_witness:
  "snd (apply_world_action ''bot'' (RemovePiece 2) (demo_world, [])) \<noteq> Applied"
proof -
  obtain w' ev' out where r: "apply_world_action ''bot'' (RemovePiece 2) (demo_world, []) = ((w', ev'), out)"
    by (metis prod.exhaust)
  let ?m = "\<lparr>m_id = 5, m_home_path = 7, m_speed = f32_one, m_state = MWaiting 1\<rparr>"
  have "bt_get (w_movers demo_world) 5 = Some ?m" "needs_node demo_world 2 ?m"
    by (simp_all add: demo_world_def needs_node_def)
  with remove_piece_exact [OF demo_world_wf r] r show ?thesis by auto
qed

text \<open>
  A placed piece gets the least free node id, whatever pieces were removed before, and is
  refused for lack of ids only when all of them are taken.
\<close>

lemma placed_piece_id:
  assumes "world_wf w" and "apply_world_action agent (PlacePiece kind pos) (w, ev) = ((w', ev'), Applied)"
  shows "\<exists>i shape. node_shape_for_piece_kind kind = Some shape
    \<and> \<not> bt_has (w_nodes w) i \<and> (\<forall>j < i. bt_has (w_nodes w) j)
    \<and> w' = w\<lparr>w_nodes := bt_insert i \<lparr>n_id = i, n_pos = pos, n_shape = shape, n_color = 0\<rparr> (w_nodes w)\<rparr>
    \<and> f32_is_finite (fst pos) \<and> f32_is_finite (snd pos)"
proof -
  have wf: "bt_wf (w_nodes w)" using table_okD(1) [OF world_wfD(2) [OF assms(1)]] .
  from assms(2) obtain i shape where "next_node_id w = Some i" and "node_shape_for_piece_kind kind = Some shape"
    and "w' = w\<lparr>w_nodes := bt_insert i \<lparr>n_id = i, n_pos = pos, n_shape = shape, n_color = 0\<rparr> (w_nodes w)\<rparr>"
    and "\<not> coord_bad (fst pos)" "\<not> coord_bad (snd pos)"
    by (auto simp: place_piece_def invalid_def split: if_splits option.splits)
  moreover from this(1) have "\<not> bt_has (w_nodes w) i" "\<forall>j < i. bt_has (w_nodes w) j"
    using next_dense_fresh [OF wf] by (auto simp: next_node_id_def)
  ultimately show ?thesis by (auto simp: coord_bad_def)
qed

lemma placed_piece_id_witness:
  "\<exists>w' ev'. apply_world_action ''bot'' (PlacePiece ''circle'' (f32_zero, f32_one)) (demo_world, []) = ((w', ev'), Applied)
    \<and> bt_has (w_nodes w') 0"
proof -
  have "\<not> blank ''circle''" "\<not> MAX_PIECE_KIND_LEN < char_count ''circle''"
    "node_shape_for_piece_kind ''circle'' = Some Circle" "\<not> coord_bad f32_zero" "\<not> coord_bad f32_one" by code_simp+
  moreover have "next_node_id demo_world = Some 0" by (simp add: next_node_id_def demo_world_def)
  ultimately obtain w' ev' where r:
    "apply_world_action ''bot'' (PlacePiece ''circle'' (f32_zero, f32_one)) (demo_world, []) = ((w', ev'), Applied)"
    by (simp add: place_piece_def)
  from placed_piece_id [OF demo_world_wf r] obtain i where i: "\<not> bt_has (w_nodes demo_world) i" "\<forall>j < i. bt_has (w_nodes demo_world) j"
    "bt_has (w_nodes w') i" by auto
  have "i = 0"
  proof (rule ccontr)
    assume "i \<noteq> 0"
    then have "bt_has (w_nodes demo_world) 0" using i(2) by (simp add: word_neq_0_conv)
    then show False by (simp add: demo_world_def bt_has_def)
  qed
  with i r show ?thesis by blast
qed

section \<open>Agents and their log\<close>

text \<open>
  The built-in agent never asks for what the engine refuses: whatever sound world it
  observes, applying its choice is not rejected, because a speed within the limits, sped up
  and capped, is again within the limits (in \<open>f32\<close> arithmetic).
\<close>

lemma speed_tuner_never_refused:
  assumes "world_wf w" and "snd (h_act (speed_tuner name i s0) s (observation_from_world w)) = Inr (Inr r)"
    and "ar_chosen r = Some a" and "apply_world_action name a (w, ev) = ((w', ev'), out)"
  shows "out = Applied \<or> out = NoChange"
  using speed_tuner_accepted [OF assms(1-3), of ev] assms(4) by auto

lemma speed_tuner_never_refused_witness:
  "snd (apply_world_action ''a'' (SetSpeed 5 (f32_min (f32_mul f32_one SPEED_UP_FACTOR) SPEED_CAP))
     (demo_world, [])) \<in> {Applied, NoChange}"
proof -
  let ?ob = "observation_from_world demo_world"
  obtain w' ev' out where a: "apply_world_action ''a''
      (SetSpeed 5 (f32_min (f32_mul f32_one SPEED_UP_FACTOR) SPEED_CAP)) (demo_world, []) = ((w', ev'), out)"
    by (metis prod.exhaust)
  have "ob_movers ?ob = [\<lparr>mo_id = 5, mo_state = MWaiting 1, mo_speed = f32_one, mo_home_path = 7\<rparr>]"
    by (simp add: observation_from_world_def demo_world_def)
  then obtain r where "speed_tuner_act ''a'' ?ob = Inr r"
    and r: "ar_chosen r = Some (SetSpeed 5 (f32_min (f32_mul f32_one SPEED_UP_FACTOR) SPEED_CAP))"
    by (simp add: speed_tuner_act_def Let_def)
  then have "snd (h_act (speed_tuner ''a'' 1 ()) () ?ob) = Inr (Inr r)" by (simp add: speed_tuner_def)
  from speed_tuner_never_refused [OF demo_world_wf this r a] a show ?thesis by auto
qed

text \<open>
  C25. No row of the decision log vanishes silently: over any run, each row was written to the
  sink, is in the ring or is counted as dropped; the ring keeps its bound; and the one warning
  comes exactly when the log degrades.
\<close>

theorem log_accounts_for_rows:
  assumes "ring_ok l" and "unat (al_dropped l) + length es < 2 ^ 64"
  shows "kept (fst (log_run to_json es l)) + rows_written to_json es l = kept l + length es
    \<and> length (al_ring (fst (log_run to_json es l))) \<le> al_ring_cap (fst (log_run to_json es l))
    \<and> snd (log_run to_json es l)
        = (if al_degraded (fst (log_run to_json es l)) \<and> \<not> al_degraded l then [AgentLogSlow] else [])"
  using log_run_accounts [OF assms, of to_json] by (auto simp: ring_ok_def)

definition dead_sink :: "unit agent_log" where
  "dead_sink = log_new () (\<lambda>s _. (s, False))"

definition demo_entry :: agent_log_entry where
  "demo_entry = entry_new no_regex observation_default ''a'' None 0 ''none'' None"

theorem log_accounts_for_rows_witness:
  "kept (fst (log_run no_json (replicate 5 demo_entry) dead_sink))
    + rows_written no_json (replicate 5 demo_entry) dead_sink = 5"
proof -
  have "ring_ok dead_sink" "unat (al_dropped dead_sink) + length (replicate 5 demo_entry) < 2 ^ 64"
    "kept dead_sink = 0"
    by (simp_all add: dead_sink_def log_new_def log_with_capacity_def ring_ok_def kept_def DEFAULT_RING_CAP_def)
  with log_accounts_for_rows [of dead_sink "replicate 5 demo_entry" no_json] show ?thesis by simp
qed

text \<open>
  A raw response is stored uncut if it fits 64 KiB; otherwise its longest stored prefix
  ends at a character boundary within the limit and the original size is recorded, so the
  validation of rows accepts it.
\<close>

lemma raw_response_cut:
  assumes "cap_raw_response (Some s) = (raw, truncated)"
  shows "check_raw raw truncated = Inr ()
    \<and> (\<exists>k. raw = Some (take k s) \<and> is_char_boundary s k \<and> length (take k s) \<le> RAW_RESPONSE_MAX_BYTES
        \<and> (\<forall>j. k < j \<and> j \<le> RAW_RESPONSE_MAX_BYTES \<and> j \<le> length s \<longrightarrow> \<not> is_char_boundary s j))
    \<and> truncated = (if length s \<le> RAW_RESPONSE_MAX_BYTES then None else Some (length s))"
proof -
  have last: "\<not> is_char_boundary s j" if "back_to_boundary s n < j" "j \<le> n" for n j
    using that by (induction n) (auto split: if_splits simp: le_Suc_eq)
  have "\<exists>k. raw = Some (take k s) \<and> is_char_boundary s k \<and> length (take k s) \<le> RAW_RESPONSE_MAX_BYTES
        \<and> (\<forall>j. k < j \<and> j \<le> RAW_RESPONSE_MAX_BYTES \<and> j \<le> length s \<longrightarrow> \<not> is_char_boundary s j)"
  proof (cases "length s \<le> RAW_RESPONSE_MAX_BYTES")
    case True
    then show ?thesis
      using assms by (intro exI [of _ "length s"]) (auto simp: cap_raw_response_def is_char_boundary_def)
  next
    case False
    then show ?thesis
      using assms back_to_boundary [of s RAW_RESPONSE_MAX_BYTES] last
      by (intro exI [of _ "back_to_boundary s RAW_RESPONSE_MAX_BYTES"]) (auto simp: cap_raw_response_def)
  qed
  with cap_raw_response_prefix [OF assms] cap_raw_response_ok [of "Some s"] assms show ?thesis by auto
qed

lemma raw_response_cut_witness:
  "check_raw (fst (cap_raw_response (Some ''ok''))) (snd (cap_raw_response (Some ''ok''))) = Inr ()"
  by (rule raw_response_cut [OF prod.collapse [symmetric], THEN conjunct1])

end
