(* ===== verification/Scene_File.thy ===== *)
theory Scene_File
  imports Actions Validate
begin

text \<open>
  The loader of scene files (\<open>loader.rs\<close>): the deserialised scene is checked field by field,
  string ids become dense numbers in the order of declaration, references are resolved, and
  the world is built. The JSON parser with the derived deserialisers is a parameter, as are
  the random generator and the build feature \<open>llm-live\<close>.
\<close>

section \<open>Errors\<close>

text \<open>\<open>LoadError\<close> of \<open>error.rs\<close>.\<close>

datatype load_error =
    LeParse u32 u32 string
  | LeUnsupportedVersion u32 u32
  | LeInvalidName string
  | LePaletteTooLarge nat nat
  | LeInvalidColor string string
  | LePaletteIndexOOB string nat nat
  | LeTooManyPieces string nat nat
  | LeDuplicateId string string
  | LeInvalidId string string
  | LeNonFiniteCoord string
  | LeSpeedOutOfRange string f32_bits
  | LeIntervalOOB string nat u32
  | LeAmountOOB string u64
  | LeUnknownReference string string
  | LeMissingField string
  | LeUnknownAgentKind nat string
  | LeAgentKindRequiresFeature nat string
  | LeSl1ReservedKeyAtTopLevel string
  | LeSl1MisspelledTopLevelKey string
  | LeSl1 sl1_load_error

section \<open>Limits\<close>

definition MIN_SCHEMA_VERSION :: u32 where "MIN_SCHEMA_VERSION = 1"
definition SUPPORTED_SCHEMA_VERSION :: u32 where "SUPPORTED_SCHEMA_VERSION = 2"
definition MAX_NAME_LEN :: nat where "MAX_NAME_LEN = 200"
definition MAX_PALETTE_ENTRIES :: nat where "MAX_PALETTE_ENTRIES = 32"
definition MAX_PIECES_PER_SECTION :: nat where "MAX_PIECES_PER_SECTION = 100000"
definition MAX_ID_LEN :: nat where "MAX_ID_LEN = 64"
definition INTERVAL_MIN :: u32 where "INTERVAL_MIN = 1"
definition AMOUNT_MIN :: u64 where "AMOUNT_MIN = 1"
definition DEFAULT_LLM_DEADLINE_TICKS :: u32 where "DEFAULT_LLM_DEADLINE_TICKS = 60"
definition KNOWN_AGENT_KINDS :: "string list" where "KNOWN_AGENT_KINDS = [''speed_tuner'', ''llm'']"
definition FEATURE_GATED_AGENT_KINDS :: "string list" where "FEATURE_GATED_AGENT_KINDS = [''llm'']"

section \<open>The deserialised scene\<close>

record raw_theme = rth_palette :: "string list" rth_background_index :: u8 rth_font :: string

definition default_font :: string where "default_font = ''system-ui''"

record raw_node = rno_id :: string rno_pos :: "f32_bits \<times> f32_bits" rno_shape :: node_shape rno_color :: u8
record raw_path = rpa_id :: string rpa_from :: string rpa_to :: string rpa_color :: u8
record raw_mover = rmo_id :: string rmo_on_path :: string rmo_speed :: f32_bits

record raw_pieces =
  rpi_nodes :: "raw_node list"
  rpi_paths :: "raw_path list"
  rpi_movers :: "raw_mover list"

datatype raw_goal = RawLoopForever

record raw_agent_spec =
  ras_kind :: string
  ras_interval_ticks :: u32
  ras_deadline_ticks :: "u32 option"

record raw_resource = rre_id :: string rre_color :: u8
record raw_inventory = riv_resource :: string riv_amount :: u64
record raw_producer = rpr_id :: string rpr_resource :: string rpr_amount :: u64 rpr_interval_ticks :: u32
record raw_consumer = rco_id :: string rco_resource :: string rco_amount :: u64 rco_interval_ticks :: u32

record 'v raw_scene_file =
  rsf_schema_version :: u32
  rsf_name :: string
  rsf_theme :: "raw_theme option"
  rsf_pieces :: raw_pieces
  rsf_goals :: "raw_goal list"
  rsf_agents :: "raw_agent_spec list"
  rsf_resources :: "raw_resource list"
  rsf_inventory :: "raw_inventory list"
  rsf_producers :: "raw_producer list"
  rsf_consumers :: "raw_consumer list"
  rsf_sl1 :: "'v option"
  rsf_extra :: "(string, 'v) btree_map"

section \<open>The loaded scene\<close>

datatype goal = LoopForever

record agent_spec = as_kind :: string as_interval_ticks :: u32 as_deadline_ticks :: u32
record theme = th_palette :: "string list" th_background_index :: u8 th_font :: string

text \<open>A direction of the id map each.\<close>

type_synonym by_name = "(string, u32) btree_map"
type_synonym id_names = "(u32, string) btree_map"

record id_map =
  im_nodes_by_name :: by_name
  im_paths_by_name :: by_name
  im_movers_by_name :: by_name
  im_resources_by_name :: by_name
  im_producers_by_name :: by_name
  im_consumers_by_name :: by_name
  im_node_names :: id_names
  im_path_names :: id_names
  im_mover_names :: id_names
  im_resource_names :: id_names
  im_producer_names :: id_names
  im_consumer_names :: id_names

definition id_map_default :: id_map where
  "id_map_default = \<lparr>im_nodes_by_name = [], im_paths_by_name = [], im_movers_by_name = [],
     im_resources_by_name = [], im_producers_by_name = [], im_consumers_by_name = [],
     im_node_names = [], im_path_names = [], im_mover_names = [], im_resource_names = [],
     im_producer_names = [], im_consumer_names = []\<rparr>"

record 'r loaded_scene =
  ls_name :: string
  ls_theme :: theme
  ls_goals :: "goal list"
  ls_agents :: "agent_spec list"
  ls_id_map :: id_map
  ls_world :: "'r world"
  ls_sl1 :: "sl1_scene option"

section \<open>Field checks\<close>

text \<open>\<open>char::is_control\<close>, the category Cc: below 32, 127, and U+0080 to U+009F in two bytes.\<close>

fun has_control :: "string \<Rightarrow> bool" where
  "has_control [] = False"
| "has_control [c] = ((of_char c :: int) < 32 \<or> (of_char c :: int) = 127)"
| "has_control (c # d # cs) = ((of_char c :: int) < 32 \<or> (of_char c :: int) = 127
     \<or> c = CHR 0xC2 \<and> (of_char d :: int) < 160 \<or> has_control (d # cs))"

definition validate_name :: "string \<Rightarrow> load_error + unit" where
  "validate_name s =
     (if s = [] then Inl (LeInvalidName ''empty'')
      else if MAX_NAME_LEN < char_count s
      then Inl (LeInvalidName (''longer than '' @ dec_nat MAX_NAME_LEN @ '' chars''))
      else if has_control s then Inl (LeInvalidName ''contains control character'')
      else Inr ())"

definition is_ascii_hexdigit :: "char \<Rightarrow> bool" where
  "is_ascii_hexdigit c \<longleftrightarrow> CHR ''0'' \<le> c \<and> c \<le> CHR ''9'' \<or> CHR ''A'' \<le> c \<and> c \<le> CHR ''F''
     \<or> CHR ''a'' \<le> c \<and> c \<le> CHR ''f''"

definition is_valid_hex_color :: "string \<Rightarrow> bool" where
  "is_valid_hex_color s \<longleftrightarrow> length s = 7 \<and> hd s = CHR ''#'' \<and> list_all is_ascii_hexdigit (tl s)"

fun check_colors :: "nat \<Rightarrow> string list \<Rightarrow> load_error + unit" where
  "check_colors i [] = Inr ()"
| "check_colors i (c # cs) =
     (if is_valid_hex_color c then check_colors (Suc i) cs
      else Inl (LeInvalidColor (''theme.palette['' @ dec_nat i @ '']'') c))"

definition check_palette_index :: "string \<Rightarrow> u8 \<Rightarrow> nat \<Rightarrow> load_error + unit" where
  "check_palette_index field color n =
     (if n \<le> unat color then Inl (LePaletteIndexOOB field (unat color) n) else Inr ())"

definition validate_theme :: "raw_theme option \<Rightarrow> load_error + theme" where
  "validate_theme raw = (case raw of
     None \<Rightarrow> Inl (LeMissingField ''theme'')
   | Some r \<Rightarrow>
       if MAX_PALETTE_ENTRIES < length (rth_palette r)
       then Inl (LePaletteTooLarge (length (rth_palette r)) MAX_PALETTE_ENTRIES)
       else if rth_palette r = [] then Inl (LePaletteTooLarge 0 MAX_PALETTE_ENTRIES)
       else ebind (check_colors 0 (rth_palette r)) (\<lambda>_.
            ebind (check_palette_index ''theme.background_index'' (rth_background_index r)
                     (length (rth_palette r))) (\<lambda>_.
            Inr \<lparr>th_palette = rth_palette r, th_background_index = rth_background_index r,
                 th_font = rth_font r\<rparr>)))"

definition check_pieces_cap :: "string \<Rightarrow> nat \<Rightarrow> load_error + unit" where
  "check_pieces_cap section n =
     (if MAX_PIECES_PER_SECTION < n then Inl (LeTooManyPieces section n MAX_PIECES_PER_SECTION) else Inr ())"

lemma check_pieces_cap_code [code]:
  "check_pieces_cap section n =
     (if 100000 < int n then Inl (LeTooManyPieces section n MAX_PIECES_PER_SECTION) else Inr ())"
  by (simp add: check_pieces_cap_def MAX_PIECES_PER_SECTION_def)

definition validate_id :: "string \<Rightarrow> string \<Rightarrow> load_error + unit" where
  "validate_id section i =
     (if i = [] \<or> MAX_ID_LEN < length i
         \<or> \<not> list_all (\<lambda>c. is_ascii_alphanumeric c \<or> c = CHR ''_'' \<or> c = CHR ''-'') i
      then Inl (LeInvalidId section i) else Inr ())"

definition validate_coord :: "string \<Rightarrow> f32_bits \<times> f32_bits \<Rightarrow> load_error + unit" where
  "validate_coord i pos =
     (if coord_bad (fst pos) \<or> coord_bad (snd pos) then Inl (LeNonFiniteCoord i) else Inr ())"

definition validate_interval :: "string \<Rightarrow> nat \<Rightarrow> u32 \<Rightarrow> load_error + unit" where
  "validate_interval section index interval =
     (if INTERVAL_MIN \<le> interval \<and> interval \<le> INTERVAL_MAX then Inr ()
      else Inl (LeIntervalOOB section index interval))"

definition validate_amount :: "string \<Rightarrow> u64 \<Rightarrow> load_error + unit" where
  "validate_amount field amount =
     (if AMOUNT_MIN \<le> amount \<and> amount \<le> AMOUNT_MAX then Inr () else Inl (LeAmountOOB field amount))"

definition validate_inventory_amount :: "string \<Rightarrow> u64 \<Rightarrow> load_error + unit" where
  "validate_inventory_amount field amount =
     (if AMOUNT_MAX < amount then Inl (LeAmountOOB field amount) else Inr ())"

definition validate_agent_kind :: "bool \<Rightarrow> nat \<Rightarrow> string \<Rightarrow> load_error + unit" where
  "validate_agent_kind llm_live index kind =
     (if kind \<notin> set KNOWN_AGENT_KINDS then Inl (LeUnknownAgentKind index kind)
      else if kind \<in> set FEATURE_GATED_AGENT_KINDS \<and> \<not> llm_live
      then Inl (LeAgentKindRequiresFeature index kind)
      else Inr ())"

section \<open>Top-level keys\<close>

definition SL1_RESERVED_TOP_LEVEL_KEYS :: "string list" where
  "SL1_RESERVED_TOP_LEVEL_KEYS =
     [''places'', ''links'', ''things'', ''transforms'', ''demand'', ''pressure'', ''objectives'',
      ''failure_conditions'', ''observability'', ''milestones'']"

definition check_extra_keys :: "string list \<Rightarrow> load_error + unit" where
  "check_extra_keys keys =
     ebind (each (\<lambda>r. require (r \<notin> set keys) (LeSl1ReservedKeyAtTopLevel r)) SL1_RESERVED_TOP_LEVEL_KEYS)
       (\<lambda>_. each (\<lambda>k. require (\<not> starts_with ''scenario_'' (to_ascii_lowercase k))
                 (LeSl1MisspelledTopLevelKey k)) keys)"

section \<open>The sections\<close>

text \<open>A loop over the entries of a section with their index.\<close>

fun each_at :: "(nat \<Rightarrow> 'a \<Rightarrow> 's \<Rightarrow> 'e + 's) \<Rightarrow> nat \<Rightarrow> 'a list \<Rightarrow> 's \<Rightarrow> 'e + 's" where
  "each_at f i [] s = Inr s"
| "each_at f i (x # xs) s = ebind (f i x s) (each_at f (Suc i) xs)"

text \<open>What the loops fill: the id map and the tables of the world.\<close>

record scene_build =
  sb_ids :: id_map
  sb_nodes :: "(u32, node) btree_map"
  sb_paths :: "(u32, path) btree_map"
  sb_movers :: "(u32, mover) btree_map"
  sb_resources :: "(u32, resource) btree_map"
  sb_inventory :: "(u32, u64) btree_map"
  sb_producers :: "(u32, producer) btree_map"
  sb_consumers :: "(u32, consumer) btree_map"

definition build_start :: scene_build where
  "build_start = \<lparr>sb_ids = id_map_default, sb_nodes = [], sb_paths = [], sb_movers = [],
     sb_resources = [], sb_inventory = [], sb_producers = [], sb_consumers = []\<rparr>"

definition dense_id :: "nat \<Rightarrow> u32" where
  "dense_id i = (if i < 2 ^ 32 then of_nat i else - 1)"

lemma dense_id_code [code]: "dense_id i = (if int i < 4294967296 then of_nat i else - 1)"
  by (simp add: dense_id_def)

definition check_fresh :: "string \<Rightarrow> by_name \<Rightarrow> string \<Rightarrow> load_error + unit" where
  "check_fresh section names i =
     ebind (validate_id section i) (\<lambda>_. require (\<not> bt_has names i) (LeDuplicateId section i))"

definition resolve :: "string \<Rightarrow> by_name \<Rightarrow> string \<Rightarrow> load_error + u32" where
  "resolve from names to = (case bt_get names to of
     Some k \<Rightarrow> Inr k | None \<Rightarrow> Inl (LeUnknownReference from to))"

definition at_index :: "string \<Rightarrow> nat \<Rightarrow> string \<Rightarrow> string" where
  "at_index section i field = section @ ''['' @ dec_nat i @ '']'' @ field"

definition load_node :: "nat \<Rightarrow> nat \<Rightarrow> raw_node \<Rightarrow> scene_build \<Rightarrow> load_error + scene_build" where
  "load_node colors i n b =
     ebind (check_fresh ''nodes'' (im_nodes_by_name (sb_ids b)) (rno_id n)) (\<lambda>_.
     ebind (validate_coord (rno_id n) (rno_pos n)) (\<lambda>_.
     ebind (check_palette_index (at_index ''pieces.nodes'' i ''.color'') (rno_color n) colors) (\<lambda>_.
     let k = dense_id i in
     Inr (b\<lparr>sb_ids := (sb_ids b)\<lparr>im_nodes_by_name := bt_insert (rno_id n) k (im_nodes_by_name (sb_ids b)),
              im_node_names := bt_insert k (rno_id n) (im_node_names (sb_ids b))\<rparr>,
            sb_nodes := bt_insert k \<lparr>n_id = k, n_pos = rno_pos n, n_shape = rno_shape n,
              n_color = rno_color n\<rparr> (sb_nodes b)\<rparr>))))"

definition load_path :: "nat \<Rightarrow> nat \<Rightarrow> raw_path \<Rightarrow> scene_build \<Rightarrow> load_error + scene_build" where
  "load_path colors i p b =
     ebind (check_fresh ''paths'' (im_paths_by_name (sb_ids b)) (rpa_id p)) (\<lambda>_.
     ebind (resolve (at_index ''pieces.paths'' i ''.from'') (im_nodes_by_name (sb_ids b)) (rpa_from p)) (\<lambda>from.
     ebind (resolve (at_index ''pieces.paths'' i ''.to'') (im_nodes_by_name (sb_ids b)) (rpa_to p)) (\<lambda>to.
     ebind (check_palette_index (at_index ''pieces.paths'' i ''.color'') (rpa_color p) colors) (\<lambda>_.
     let k = dense_id i in
     Inr (b\<lparr>sb_ids := (sb_ids b)\<lparr>im_paths_by_name := bt_insert (rpa_id p) k (im_paths_by_name (sb_ids b)),
              im_path_names := bt_insert k (rpa_id p) (im_path_names (sb_ids b))\<rparr>,
            sb_paths := bt_insert k \<lparr>pa_id = k, pa_from = from, pa_to = to, pa_color = rpa_color p\<rparr>
              (sb_paths b)\<rparr>)))))"

definition load_mover :: "nat \<Rightarrow> raw_mover \<Rightarrow> scene_build \<Rightarrow> load_error + scene_build" where
  "load_mover i m b =
     ebind (check_fresh ''movers'' (im_movers_by_name (sb_ids b)) (rmo_id m)) (\<lambda>_.
     ebind (require (speed_ok (rmo_speed m)) (LeSpeedOutOfRange (rmo_id m) (rmo_speed m))) (\<lambda>_.
     ebind (resolve (at_index ''pieces.movers'' i ''.on_path'') (im_paths_by_name (sb_ids b)) (rmo_on_path m)) (\<lambda>home.
     let k = dense_id i in
     Inr (b\<lparr>sb_ids := (sb_ids b)\<lparr>im_movers_by_name := bt_insert (rmo_id m) k (im_movers_by_name (sb_ids b)),
              im_mover_names := bt_insert k (rmo_id m) (im_mover_names (sb_ids b))\<rparr>,
            sb_movers := bt_insert k (mover_new k home (rmo_speed m)) (sb_movers b)\<rparr>))))"

definition load_resource :: "nat \<Rightarrow> nat \<Rightarrow> raw_resource \<Rightarrow> scene_build \<Rightarrow> load_error + scene_build" where
  "load_resource colors i r b =
     ebind (check_fresh ''resources'' (im_resources_by_name (sb_ids b)) (rre_id r)) (\<lambda>_.
     ebind (check_palette_index (at_index ''resources'' i ''.color'') (rre_color r) colors) (\<lambda>_.
     let k = dense_id i in
     Inr (b\<lparr>sb_ids := (sb_ids b)\<lparr>im_resources_by_name := bt_insert (rre_id r) k (im_resources_by_name (sb_ids b)),
              im_resource_names := bt_insert k (rre_id r) (im_resource_names (sb_ids b))\<rparr>,
            sb_resources := bt_insert k \<lparr>re_id = k, re_name = rre_id r, re_color = rre_color r\<rparr> (sb_resources b),
            sb_inventory := bt_insert k 0 (sb_inventory b)\<rparr>)))"

text \<open>The loop over the inventory also carries what it has seen.\<close>

definition load_inventory ::
  "raw_inventory \<Rightarrow> u32 list \<times> scene_build \<Rightarrow> load_error + u32 list \<times> scene_build" where
  "load_inventory r st = (case st of (seen, b) \<Rightarrow>
     ebind (validate_inventory_amount ''inventory.amount'' (riv_amount r)) (\<lambda>_.
     ebind (resolve ''inventory[].resource'' (im_resources_by_name (sb_ids b)) (riv_resource r)) (\<lambda>k.
     if k \<in> set seen then Inl (LeDuplicateId ''inventory'' (riv_resource r))
     else Inr (k # seen, b\<lparr>sb_inventory := bt_insert k (riv_amount r) (sb_inventory b)\<rparr>))))"

definition load_producer :: "nat \<Rightarrow> raw_producer \<Rightarrow> scene_build \<Rightarrow> load_error + scene_build" where
  "load_producer i p b =
     ebind (check_fresh ''producers'' (im_producers_by_name (sb_ids b)) (rpr_id p)) (\<lambda>_.
     ebind (validate_amount ''producers[].amount'' (rpr_amount p)) (\<lambda>_.
     ebind (validate_interval ''producers'' i (rpr_interval_ticks p)) (\<lambda>_.
     ebind (resolve (at_index ''producers'' i ''.resource'') (im_resources_by_name (sb_ids b)) (rpr_resource p)) (\<lambda>r.
     let k = dense_id i in
     Inr (b\<lparr>sb_ids := (sb_ids b)\<lparr>im_producers_by_name := bt_insert (rpr_id p) k (im_producers_by_name (sb_ids b)),
              im_producer_names := bt_insert k (rpr_id p) (im_producer_names (sb_ids b))\<rparr>,
            sb_producers := bt_insert k \<lparr>p_id = k, p_resource = r, p_amount = rpr_amount p,
              p_interval_ticks = rpr_interval_ticks p\<rparr> (sb_producers b)\<rparr>)))))"

definition load_consumer :: "nat \<Rightarrow> raw_consumer \<Rightarrow> scene_build \<Rightarrow> load_error + scene_build" where
  "load_consumer i c b =
     ebind (check_fresh ''consumers'' (im_consumers_by_name (sb_ids b)) (rco_id c)) (\<lambda>_.
     ebind (validate_amount ''consumers[].amount'' (rco_amount c)) (\<lambda>_.
     ebind (validate_interval ''consumers'' i (rco_interval_ticks c)) (\<lambda>_.
     ebind (resolve (at_index ''consumers'' i ''.resource'') (im_resources_by_name (sb_ids b)) (rco_resource c)) (\<lambda>r.
     let k = dense_id i in
     Inr (b\<lparr>sb_ids := (sb_ids b)\<lparr>im_consumers_by_name := bt_insert (rco_id c) k (im_consumers_by_name (sb_ids b)),
              im_consumer_names := bt_insert k (rco_id c) (im_consumer_names (sb_ids b))\<rparr>,
            sb_consumers := bt_insert k \<lparr>c_id = k, c_resource = r, c_amount = rco_amount c,
              c_interval_ticks = rco_interval_ticks c\<rparr> (sb_consumers b)\<rparr>)))))"

definition load_agent_spec ::
  "bool \<Rightarrow> nat \<Rightarrow> raw_agent_spec \<Rightarrow> agent_spec list \<Rightarrow> load_error + agent_spec list" where
  "load_agent_spec llm_live i a specs =
     ebind (validate_interval ''agents'' i (ras_interval_ticks a)) (\<lambda>_.
     ebind (validate_agent_kind llm_live i (ras_kind a)) (\<lambda>_.
     Inr (specs @ [\<lparr>as_kind = ras_kind a, as_interval_ticks = ras_interval_ticks a,
       as_deadline_ticks = (case ras_deadline_ticks a of Some d \<Rightarrow> d | None \<Rightarrow> DEFAULT_LLM_DEADLINE_TICKS)\<rparr>])))"

section \<open>Loading\<close>

definition check_header :: "'v raw_scene_file \<Rightarrow> load_error + theme" where
  "check_header raw =
     (if rsf_schema_version raw < MIN_SCHEMA_VERSION \<or> SUPPORTED_SCHEMA_VERSION < rsf_schema_version raw
      then Inl (LeUnsupportedVersion (rsf_schema_version raw) SUPPORTED_SCHEMA_VERSION)
      else
        ebind (check_extra_keys (bt_keys (rsf_extra raw))) (\<lambda>_.
        ebind (validate_name (rsf_name raw)) (\<lambda>_.
        ebind (validate_theme (rsf_theme raw)) (\<lambda>theme.
        ebind (check_pieces_cap ''nodes'' (length (rpi_nodes (rsf_pieces raw)))) (\<lambda>_.
        ebind (check_pieces_cap ''paths'' (length (rpi_paths (rsf_pieces raw)))) (\<lambda>_.
        ebind (check_pieces_cap ''movers'' (length (rpi_movers (rsf_pieces raw)))) (\<lambda>_.
        ebind (check_pieces_cap ''resources'' (length (rsf_resources raw))) (\<lambda>_.
        ebind (check_pieces_cap ''inventory'' (length (rsf_inventory raw))) (\<lambda>_.
        ebind (check_pieces_cap ''producers'' (length (rsf_producers raw))) (\<lambda>_.
        ebind (check_pieces_cap ''consumers'' (length (rsf_consumers raw))) (\<lambda>_.
        Inr theme)))))))))))"

definition load_sections :: "nat \<Rightarrow> 'v raw_scene_file \<Rightarrow> load_error + scene_build" where
  "load_sections colors raw =
     ebind (each_at (load_node colors) 0 (rpi_nodes (rsf_pieces raw)) build_start) (\<lambda>b1.
     ebind (each_at (load_path colors) 0 (rpi_paths (rsf_pieces raw)) b1) (\<lambda>b2.
     ebind (each_at load_mover 0 (rpi_movers (rsf_pieces raw)) b2) (\<lambda>b3.
     ebind (each_at (load_resource colors) 0 (rsf_resources raw) b3) (\<lambda>b4.
     ebind (each_at (\<lambda>_. load_inventory) 0 (rsf_inventory raw) ([], b4)) (\<lambda>(_, b5).
     ebind (each_at load_producer 0 (rsf_producers raw) b5) (\<lambda>b6.
     each_at load_consumer 0 (rsf_consumers raw) b6))))))"

definition goal_of :: "raw_goal \<Rightarrow> goal" where
  "goal_of g = (case g of RawLoopForever \<Rightarrow> LoopForever)"

definition build_world ::
  "(u64 \<Rightarrow> 'r) \<Rightarrow> u64 \<Rightarrow> scene_build \<Rightarrow> sl1_scene option \<Rightarrow> 'r world" where
  "build_world from_seed seed b sl1 = (world_new from_seed seed)\<lparr>
     w_nodes := sb_nodes b, w_paths := sb_paths b, w_movers := sb_movers b, w_resources := sb_resources b,
     pw_inventory := sb_inventory b, pw_producers := sb_producers b, pw_consumers := sb_consumers b,
     w_sl1 := sl1, w_sl1_runtime := map_option from_scene sl1, w_state := RsLoaded\<rparr>"

definition validate_scene_file ::
  "('v \<Rightarrow> json_kind) \<Rightarrow> ('v \<Rightarrow> string + 'v raw_scene) \<Rightarrow> bool \<Rightarrow> (u64 \<Rightarrow> 'r)
    \<Rightarrow> 'v raw_scene_file \<Rightarrow> u64 \<Rightarrow> load_error + 'r loaded_scene" where
  "validate_scene_file kind_of from_value llm_live from_seed raw seed =
     ebind (check_header raw) (\<lambda>theme.
     ebind (load_sections (length (th_palette theme)) raw) (\<lambda>b.
     ebind (each_at (load_agent_spec llm_live) 0 (rsf_agents raw) []) (\<lambda>agents.
     ebind (traverse_option (\<lambda>v. lift_err LeSl1 (load_value kind_of from_value v)) (rsf_sl1 raw)) (\<lambda>sl1.
     Inr \<lparr>ls_name = rsf_name raw, ls_theme = theme, ls_goals = map goal_of (rsf_goals raw),
          ls_agents = agents, ls_id_map = sb_ids b, ls_world = build_world from_seed seed b sl1,
          ls_sl1 = sl1\<rparr>))))"

text \<open>The parser reports a line, a column and a text.\<close>

definition u32_try_from :: "nat \<Rightarrow> u32" where
  "u32_try_from n = (if n < 2 ^ 32 then of_nat n else 0)"

definition load_scene_str ::
  "(string \<Rightarrow> (nat \<times> nat \<times> string) + 'v raw_scene_file) \<Rightarrow> ('v \<Rightarrow> json_kind)
    \<Rightarrow> ('v \<Rightarrow> string + 'v raw_scene) \<Rightarrow> bool \<Rightarrow> (u64 \<Rightarrow> 'r) \<Rightarrow> string \<Rightarrow> u64
    \<Rightarrow> load_error + 'r loaded_scene" where
  "load_scene_str parse kind_of from_value llm_live from_seed json seed =
     ebind (lift_err (\<lambda>(line, col, m). LeParse (u32_try_from line) (u32_try_from col) m) (parse json))
       (\<lambda>raw. validate_scene_file kind_of from_value llm_live from_seed raw seed)"

end
