(* ===== verification/Scene_File_Proofs.thy ===== *)
theory Scene_File_Proofs
  imports Scene_File
begin

text \<open>
  What a loaded scene looks like: every section is the translation of its declarations, id by
  id, the two directions of the id map are inverse, and the world is sound. The step that all
  six sections share is proved once (\<open>declared_step\<close>).
\<close>

section \<open>Loops\<close>

lemma each_at_inv:
  assumes "each_at f i xs s = Inr s'" and "P 0 s"
    and "\<And>j s s'. j < length xs \<Longrightarrow> P j s \<Longrightarrow> f (i + j) (xs ! j) s = Inr s' \<Longrightarrow> P (Suc j) s'"
  shows "P (length xs) s'"
  using assms
proof (induction xs arbitrary: i s P)
  case (Cons x xs)
  then obtain s1 where s1: "f i x s = Inr s1" "each_at f (Suc i) xs s1 = Inr s'" by (auto simp: ebind_Inr)
  have "P 1 s1" using Cons.prems(3) [of 0 s s1] Cons.prems(2) s1(1) by simp
  moreover have "P (Suc (Suc j)) t'"
    if "j < length xs" "P (Suc j) t" "f (Suc i + j) (xs ! j) t = Inr t'" for j t t'
    using Cons.prems(3) [of "Suc j" t t'] that by simp
  ultimately have "P (Suc (length xs)) s'"
    using Cons.IH [of "Suc i" s1 "\<lambda>j. P (Suc j)"] s1(2) by simp
  then show ?case by simp
qed simp

section \<open>Interned sections\<close>

definition interned :: "string list \<Rightarrow> by_name \<Rightarrow> id_names \<Rightarrow> bool" where
  "interned ids m n \<longleftrightarrow> distinct ids
     \<and> (\<forall>k s. bt_get n k = Some s \<longleftrightarrow> unat k < length ids \<and> ids ! unat k = s)
     \<and> (\<forall>s k. bt_get m s = Some k \<longleftrightarrow> bt_get n k = Some s)"

text \<open>A section of the world: each entry is the translation \<open>g\<close> of its declaration.\<close>

definition declared ::
  "('a \<Rightarrow> string) \<Rightarrow> (u32 \<Rightarrow> 'a \<Rightarrow> 'b option) \<Rightarrow> 'a list \<Rightarrow> by_name \<Rightarrow> id_names \<Rightarrow> (u32, 'b) btree_map \<Rightarrow> bool" where
  "declared key g xs m n t \<longleftrightarrow> interned (map key xs) m n \<and> bt_wf t
     \<and> (\<forall>k v. bt_get t k = Some v \<longleftrightarrow> unat k < length xs \<and> g k (xs ! unat k) = Some v)
     \<and> (\<forall>x \<in> set xs. \<forall>k. g k x \<noteq> None)"

lemma unat_dense: "i < 2 ^ 32 \<Longrightarrow> unat (dense_id i) = i"
  by (simp add: dense_id_def unat_of_nat take_bit_nat_eq_self_iff)

lemma interned_Nil: "interned [] [] []"
  by (simp add: interned_def)

lemma declared_Nil: "declared key g [] [] [] []"
  by (simp add: declared_def interned_Nil)

lemma interned_fresh: "interned ids m n \<Longrightarrow> s \<in> set ids \<longleftrightarrow> bt_has m s" if "length ids \<le> 2 ^ 32"
proof -
  assume i: "interned ids m n"
  have "s \<in> set ids \<longleftrightarrow> (\<exists>k :: u32. unat k < length ids \<and> ids ! unat k = s)"
  proof
    assume "s \<in> set ids"
    then obtain j where j: "j < length ids" "ids ! j = s" by (auto simp: in_set_conv_nth)
    with that show "\<exists>k :: u32. unat k < length ids \<and> ids ! unat k = s"
      by (intro exI [of _ "dense_id j"]) (simp add: unat_dense)
  qed auto
  with i show ?thesis unfolding interned_def bt_has_Some by blast
qed

lemma interned_step:
  assumes "interned ids m n" and "\<not> bt_has m s" and "length ids < 2 ^ 32"
  shows "interned (ids @ [s]) (bt_insert s (dense_id (length ids)) m) (bt_insert (dense_id (length ids)) s n)"
proof -
  let ?k = "dense_id (length ids)"
  have u: "unat ?k = length ids" using assms(3) by (rule unat_dense)
  have eq: "k = ?k \<longleftrightarrow> unat k = length ids" for k by (simp add: word_unat_eq_iff u)
  have eq': "?k = k \<longleftrightarrow> unat k = length ids" for k using eq [of k] by (simp add: eq_commute)
  have n: "bt_get n k = Some t \<longleftrightarrow> unat k < length ids \<and> ids ! unat k = t" for k t
    using assms(1) by (simp add: interned_def)
  have m: "bt_get m t = Some k \<longleftrightarrow> bt_get n k = Some t" for k t using assms(1) by (simp add: interned_def)
  have fresh: "s \<notin> set ids" using interned_fresh [OF _ assms(1)] assms(2,3) by simp
  have "bt_get (bt_insert ?k s n) k = Some t \<longleftrightarrow> unat k < length (ids @ [s]) \<and> (ids @ [s]) ! unat k = t" for k t
    using n [of k t] by (auto simp: eq nth_append)
  moreover have "bt_get (bt_insert s ?k m) t = Some k \<longleftrightarrow> bt_get (bt_insert ?k s n) k = Some t" for k t
    using m [of t k] n [of k t] fresh by (auto simp: eq u eq' dest: nth_mem)
  ultimately show ?thesis
    using assms(1) fresh by (simp add: interned_def)
qed

lemma declared_step:
  assumes "declared key g xs m n t" and "\<not> bt_has m (key x)" and "length xs < 2 ^ 32"
    and "g (dense_id (length xs)) x = Some v" and "\<And>k. g k x \<noteq> None"
  shows "declared key g (xs @ [x]) (bt_insert (key x) (dense_id (length xs)) m)
    (bt_insert (dense_id (length xs)) (key x) n) (bt_insert (dense_id (length xs)) v t)"
proof -
  let ?k = "dense_id (length xs)"
  have u: "unat ?k = length xs" using assms(3) by (rule unat_dense)
  have eq: "k = ?k \<longleftrightarrow> unat k = length xs" for k by (simp add: word_unat_eq_iff u)
  have "bt_get (bt_insert ?k v t) k = Some w \<longleftrightarrow> unat k < length (xs @ [x]) \<and> g k ((xs @ [x]) ! unat k) = Some w" for k w
    using assms(1,4) by (auto simp: eq nth_append declared_def) (simp_all add: eq [symmetric])
  then show ?thesis
    using assms(1,5) interned_step [of "map key xs" m n "key x"] assms(2,3) by (simp add: declared_def)
qed

text \<open>The loop of a section, given that one round is a step.\<close>

lemma declared_loop:
  assumes "each_at f 0 xs (E [] [] []) = Inr b" and "length xs < 2 ^ 32"
    and step: "\<And>i x m n t b'. x \<in> set xs \<Longrightarrow> f i x (E m n t) = Inr b' \<Longrightarrow>
      \<not> bt_has m (key x) \<and> (\<forall>k. g k x \<noteq> None)
      \<and> (\<forall>v. g (dense_id i) x = Some v \<longrightarrow>
           b' = E (bt_insert (key x) (dense_id i) m) (bt_insert (dense_id i) (key x) n) (bt_insert (dense_id i) v t))"
  shows "\<exists>m n t. b = E m n t \<and> declared key g xs m n t"
proof -
  have "\<exists>m n t. b = E m n t \<and> declared key g (take (length xs) xs) m n t"
  proof (rule each_at_inv [OF assms(1), of "\<lambda>j b. \<exists>m n t. b = E m n t \<and> declared key g (take j xs) m n t"])
    show "\<exists>m n t. E [] [] [] = E m n t \<and> declared key g (take 0 xs) m n t"
      using declared_Nil [of key g] by auto
  next
    fix j s s'
    assume j: "j < length xs" and f: "f (0 + j) (xs ! j) s = Inr s'"
      and "\<exists>m n t. s = E m n t \<and> declared key g (take j xs) m n t"
    then obtain m n t where s: "s = E m n t" "declared key g (take j xs) m n t" by blast
    have len: "length (take j xs) = j" using j by simp
    obtain v where v: "g (dense_id j) (xs ! j) = Some v" using step [of "xs ! j" j m n t s'] f j s(1) by fastforce
    with step [of "xs ! j" j m n t s'] f j s(1)
    have "\<not> bt_has m (key (xs ! j))" "\<And>k. g k (xs ! j) \<noteq> None"
      "s' = E (bt_insert (key (xs ! j)) (dense_id j) m) (bt_insert (dense_id j) (key (xs ! j)) n)
         (bt_insert (dense_id j) v t)" by auto
    with declared_step [OF s(2), of "xs ! j" v] j assms(2) v
    show "\<exists>m n t. s' = E m n t \<and> declared key g (take (Suc j) xs) m n t"
      by (auto simp: len take_Suc_conv_app_nth)
  qed
  then show ?thesis by simp
qed

section \<open>The sections\<close>

definition node_of :: "u32 \<Rightarrow> raw_node \<Rightarrow> node option" where
  "node_of k n = Some \<lparr>n_id = k, n_pos = rno_pos n, n_shape = rno_shape n, n_color = rno_color n\<rparr>"

definition path_of :: "by_name \<Rightarrow> u32 \<Rightarrow> raw_path \<Rightarrow> path option" where
  "path_of nodes k p = (case (bt_get nodes (rpa_from p), bt_get nodes (rpa_to p)) of
     (Some a, Some b) \<Rightarrow> Some \<lparr>pa_id = k, pa_from = a, pa_to = b, pa_color = rpa_color p\<rparr> | _ \<Rightarrow> None)"

definition mover_of :: "by_name \<Rightarrow> u32 \<Rightarrow> raw_mover \<Rightarrow> mover option" where
  "mover_of paths k m = (case bt_get paths (rmo_on_path m) of
     Some h \<Rightarrow> (if speed_ok (rmo_speed m) then Some (mover_new k h (rmo_speed m)) else None) | None \<Rightarrow> None)"

definition resource_of :: "u32 \<Rightarrow> raw_resource \<Rightarrow> resource option" where
  "resource_of k r = Some \<lparr>re_id = k, re_name = rre_id r, re_color = rre_color r\<rparr>"

definition producer_of :: "by_name \<Rightarrow> u32 \<Rightarrow> raw_producer \<Rightarrow> producer option" where
  "producer_of resources k p = (case bt_get resources (rpr_resource p) of
     Some r \<Rightarrow> Some \<lparr>p_id = k, p_resource = r, p_amount = rpr_amount p, p_interval_ticks = rpr_interval_ticks p\<rparr>
   | None \<Rightarrow> None)"

definition consumer_of :: "by_name \<Rightarrow> u32 \<Rightarrow> raw_consumer \<Rightarrow> consumer option" where
  "consumer_of resources k c = (case bt_get resources (rco_resource c) of
     Some r \<Rightarrow> Some \<lparr>c_id = k, c_resource = r, c_amount = rco_amount c, c_interval_ticks = rco_interval_ticks c\<rparr>
   | None \<Rightarrow> None)"

lemma resolve_Inr [load_simps]: "resolve from names to = Inr k \<longleftrightarrow> bt_get names to = Some k"
  by (auto simp: resolve_def split: option.splits)

lemma check_fresh_Inr [load_simps]:
  "check_fresh sec m i = Inr u \<longleftrightarrow> validate_id sec i = Inr () \<and> \<not> bt_has m i"
  by (auto simp: check_fresh_def load_simps)

text \<open>Each loop fills its two id maps and its table, and nothing else.\<close>

abbreviation with_nodes :: "scene_build \<Rightarrow> by_name \<Rightarrow> id_names \<Rightarrow> (u32, node) btree_map \<Rightarrow> scene_build" where
  "with_nodes b m n t \<equiv> b\<lparr>sb_ids := (sb_ids b)\<lparr>im_nodes_by_name := m, im_node_names := n\<rparr>, sb_nodes := t\<rparr>"

abbreviation with_paths :: "scene_build \<Rightarrow> by_name \<Rightarrow> id_names \<Rightarrow> (u32, path) btree_map \<Rightarrow> scene_build" where
  "with_paths b m n t \<equiv> b\<lparr>sb_ids := (sb_ids b)\<lparr>im_paths_by_name := m, im_path_names := n\<rparr>, sb_paths := t\<rparr>"

abbreviation with_movers :: "scene_build \<Rightarrow> by_name \<Rightarrow> id_names \<Rightarrow> (u32, mover) btree_map \<Rightarrow> scene_build" where
  "with_movers b m n t \<equiv> b\<lparr>sb_ids := (sb_ids b)\<lparr>im_movers_by_name := m, im_mover_names := n\<rparr>, sb_movers := t\<rparr>"

abbreviation with_producers :: "scene_build \<Rightarrow> by_name \<Rightarrow> id_names \<Rightarrow> (u32, producer) btree_map \<Rightarrow> scene_build" where
  "with_producers b m n t \<equiv>
     b\<lparr>sb_ids := (sb_ids b)\<lparr>im_producers_by_name := m, im_producer_names := n\<rparr>, sb_producers := t\<rparr>"

abbreviation with_consumers :: "scene_build \<Rightarrow> by_name \<Rightarrow> id_names \<Rightarrow> (u32, consumer) btree_map \<Rightarrow> scene_build" where
  "with_consumers b m n t \<equiv>
     b\<lparr>sb_ids := (sb_ids b)\<lparr>im_consumers_by_name := m, im_consumer_names := n\<rparr>, sb_consumers := t\<rparr>"

text \<open>The inventory starts with a zero for every resource.\<close>

abbreviation with_resources :: "scene_build \<Rightarrow> by_name \<Rightarrow> id_names \<Rightarrow> (u32, resource) btree_map \<Rightarrow> scene_build" where
  "with_resources b m n t \<equiv> b\<lparr>sb_ids := (sb_ids b)\<lparr>im_resources_by_name := m, im_resource_names := n\<rparr>,
     sb_resources := t, sb_inventory := bt_map_values (\<lambda>_ _. 0) t\<rparr>"

lemma bt_map_values_insert_const:
  "bt_map_values (\<lambda>_ _. c) (bt_insert k v m) = bt_insert k c (bt_map_values (\<lambda>_ _. c) m)"
  by (induction m) (auto simp: bt_map_values_def)

lemma load_nodes_ok:
  assumes "each_at (load_node c) 0 xs (with_nodes b [] [] []) = Inr b'" and "length xs < 2 ^ 32"
  shows "\<exists>m n t. b' = with_nodes b m n t \<and> declared rno_id node_of xs m n t"
  by (rule declared_loop [where E = "with_nodes b", OF assms])
    (auto simp: load_node_def load_simps Let_def node_of_def)

lemma load_paths_ok:
  assumes "each_at (load_path c) 0 xs (with_paths b [] [] []) = Inr b'" and "length xs < 2 ^ 32"
  shows "\<exists>m n t. b' = with_paths b m n t \<and> declared rpa_id (path_of (im_nodes_by_name (sb_ids b))) xs m n t"
  by (rule declared_loop [where E = "with_paths b", OF assms])
    (auto simp: load_path_def load_simps Let_def path_of_def)

lemma load_movers_ok:
  assumes "each_at load_mover 0 xs (with_movers b [] [] []) = Inr b'" and "length xs < 2 ^ 32"
  shows "\<exists>m n t. b' = with_movers b m n t \<and> declared rmo_id (mover_of (im_paths_by_name (sb_ids b))) xs m n t"
  by (rule declared_loop [where E = "with_movers b", OF assms])
    (auto simp: load_mover_def load_simps Let_def mover_of_def)

lemma load_resources_ok:
  assumes "each_at (load_resource c) 0 xs (with_resources b [] [] []) = Inr b'" and "length xs < 2 ^ 32"
  shows "\<exists>m n t. b' = with_resources b m n t \<and> declared rre_id resource_of xs m n t"
  by (rule declared_loop [where E = "with_resources b", OF assms])
    (auto simp: load_resource_def load_simps Let_def resource_of_def bt_map_values_insert_const)

lemma load_producers_ok:
  assumes "each_at load_producer 0 xs (with_producers b [] [] []) = Inr b'" and "length xs < 2 ^ 32"
  shows "\<exists>m n t. b' = with_producers b m n t
    \<and> declared rpr_id (producer_of (im_resources_by_name (sb_ids b))) xs m n t"
  by (rule declared_loop [where E = "with_producers b", OF assms])
    (auto simp: load_producer_def load_simps Let_def producer_of_def)

lemma load_consumers_ok:
  assumes "each_at load_consumer 0 xs (with_consumers b [] [] []) = Inr b'" and "length xs < 2 ^ 32"
  shows "\<exists>m n t. b' = with_consumers b m n t
    \<and> declared rco_id (consumer_of (im_resources_by_name (sb_ids b))) xs m n t"
  by (rule declared_loop [where E = "with_consumers b", OF assms])
    (auto simp: load_consumer_def load_simps Let_def consumer_of_def)

text \<open>The inventory: what is declared, and zero elsewhere.\<close>

definition stocked :: "by_name \<Rightarrow> raw_inventory list \<Rightarrow> (u32, u64) btree_map \<Rightarrow> (u32, u64) btree_map \<Rightarrow> bool" where
  "stocked names xs iv0 iv \<longleftrightarrow> bt_wf iv
     \<and> (\<forall>r \<in> set xs. \<exists>k. bt_get names (riv_resource r) = Some k \<and> bt_get iv k = Some (riv_amount r)
          \<and> riv_amount r \<le> AMOUNT_MAX)
     \<and> (\<forall>k. (\<forall>r \<in> set xs. bt_get names (riv_resource r) \<noteq> Some k) \<longrightarrow> bt_get iv k = bt_get iv0 k)"

lemma load_inventory_ok:
  assumes "each_at (\<lambda>_. load_inventory) 0 xs ([], b) = Inr (seen, b')" and "bt_wf (sb_inventory b)"
  shows "\<exists>iv. b' = b\<lparr>sb_inventory := iv\<rparr>
    \<and> stocked (im_resources_by_name (sb_ids b)) xs (sb_inventory b) iv"
proof -
  let ?N = "im_resources_by_name (sb_ids b)"
  let ?P = "\<lambda>j (seen, b'). \<exists>iv. b' = b\<lparr>sb_inventory := iv\<rparr> \<and> stocked ?N (take j xs) (sb_inventory b) iv
    \<and> (\<forall>k. k \<in> set seen \<longleftrightarrow> (\<exists>r \<in> set (take j xs). bt_get ?N (riv_resource r) = Some k))"
  have "?P (length xs) (seen, b')"
  proof (rule each_at_inv [OF assms(1), of ?P])
    show "?P 0 ([], b)" using assms(2) by (auto simp: stocked_def intro!: exI [of _ "sb_inventory b"])
  next
    fix j st st'
    assume j: "j < length xs" and P: "?P j st" and run: "load_inventory (xs ! j) st = Inr st'"
    obtain sn bb where st: "st = (sn, bb)" by (cases st)
    from P obtain iv where bb: "bb = b\<lparr>sb_inventory := iv\<rparr>"
      and iv: "stocked ?N (take j xs) (sb_inventory b) iv"
      and seen: "\<And>k. k \<in> set sn \<longleftrightarrow> (\<exists>r \<in> set (take j xs). bt_get ?N (riv_resource r) = Some k)"
      by (auto simp: st)
    from run obtain k where k: "bt_get ?N (riv_resource (xs ! j)) = Some k" "k \<notin> set sn"
      and am: "riv_amount (xs ! j) \<le> AMOUNT_MAX"
      and st': "st' = (k # sn, b\<lparr>sb_inventory := bt_insert k (riv_amount (xs ! j)) iv\<rparr>)"
      by (auto simp: load_inventory_def st bb load_simps validate_inventory_amount_def)
    have "stocked ?N (take (Suc j) xs) (sb_inventory b) (bt_insert k (riv_amount (xs ! j)) iv)"
      using iv k seen am by (fastforce simp: stocked_def take_Suc_conv_app_nth [OF j])
    then show "?P (Suc j) st'"
      using seen k by (auto simp: st' take_Suc_conv_app_nth [OF j])
  qed
  then show ?thesis by auto
qed

section \<open>The whole scene\<close>

definition as_declared :: "'v raw_scene_file \<Rightarrow> scene_build \<Rightarrow> bool" where
  "as_declared raw b \<longleftrightarrow> (let i = sb_ids b in
     declared rno_id node_of (rpi_nodes (rsf_pieces raw)) (im_nodes_by_name i) (im_node_names i) (sb_nodes b)
     \<and> declared rpa_id (path_of (im_nodes_by_name i)) (rpi_paths (rsf_pieces raw))
         (im_paths_by_name i) (im_path_names i) (sb_paths b)
     \<and> declared rmo_id (mover_of (im_paths_by_name i)) (rpi_movers (rsf_pieces raw))
         (im_movers_by_name i) (im_mover_names i) (sb_movers b)
     \<and> declared rre_id resource_of (rsf_resources raw) (im_resources_by_name i) (im_resource_names i)
         (sb_resources b)
     \<and> stocked (im_resources_by_name i) (rsf_inventory raw) (bt_map_values (\<lambda>_ _. 0) (sb_resources b))
         (sb_inventory b)
     \<and> declared rpr_id (producer_of (im_resources_by_name i)) (rsf_producers raw)
         (im_producers_by_name i) (im_producer_names i) (sb_producers b)
     \<and> declared rco_id (consumer_of (im_resources_by_name i)) (rsf_consumers raw)
         (im_consumers_by_name i) (im_consumer_names i) (sb_consumers b))"

definition sizes_ok :: "'v raw_scene_file \<Rightarrow> bool" where
  "sizes_ok raw \<longleftrightarrow> length (rpi_nodes (rsf_pieces raw)) < 2 ^ 32 \<and> length (rpi_paths (rsf_pieces raw)) < 2 ^ 32
     \<and> length (rpi_movers (rsf_pieces raw)) < 2 ^ 32 \<and> length (rsf_resources raw) < 2 ^ 32
     \<and> length (rsf_producers raw) < 2 ^ 32 \<and> length (rsf_consumers raw) < 2 ^ 32"

lemma check_header_sizes: "check_header raw = Inr th \<Longrightarrow> sizes_ok raw"
  by (auto simp: check_header_def sizes_ok_def load_simps check_pieces_cap_def MAX_PIECES_PER_SECTION_def)

lemma load_sections_ok:
  assumes "load_sections c raw = Inr b" and "sizes_ok raw"
  shows "as_declared raw b"
proof -
  from assms(1) obtain b1 b2 b3 b4 sn b5 b6 where
    run: "each_at (load_node c) 0 (rpi_nodes (rsf_pieces raw)) build_start = Inr b1"
      "each_at (load_path c) 0 (rpi_paths (rsf_pieces raw)) b1 = Inr b2"
      "each_at load_mover 0 (rpi_movers (rsf_pieces raw)) b2 = Inr b3"
      "each_at (load_resource c) 0 (rsf_resources raw) b3 = Inr b4"
      "each_at (\<lambda>_. load_inventory) 0 (rsf_inventory raw) ([], b4) = Inr (sn, b5)"
      "each_at load_producer 0 (rsf_producers raw) b5 = Inr b6"
      "each_at load_consumer 0 (rsf_consumers raw) b6 = Inr b"
    by (auto simp: load_sections_def load_simps)
  note size = assms(2) [unfolded sizes_ok_def]
  note start = build_start_def id_map_default_def
  have s1: "with_nodes build_start [] [] [] = build_start" by (simp add: start)
  obtain m1 n1 t1 where 1: "b1 = with_nodes build_start m1 n1 t1"
      "declared rno_id node_of (rpi_nodes (rsf_pieces raw)) m1 n1 t1"
    using load_nodes_ok [of c _ build_start b1] run(1) size unfolding s1 by blast
  have s2: "with_paths b1 [] [] [] = b1" and i2: "im_nodes_by_name (sb_ids b1) = m1" by (simp_all add: 1(1) start)
  obtain m2 n2 t2 where 2: "b2 = with_paths b1 m2 n2 t2"
      "declared rpa_id (path_of m1) (rpi_paths (rsf_pieces raw)) m2 n2 t2"
    using load_paths_ok [of c _ b1 b2] run(2) size unfolding s2 i2 by blast
  have s3: "with_movers b2 [] [] [] = b2" and i3: "im_paths_by_name (sb_ids b2) = m2"
    by (simp_all add: 1(1) 2(1) start)
  obtain m3 n3 t3 where 3: "b3 = with_movers b2 m3 n3 t3"
      "declared rmo_id (mover_of m2) (rpi_movers (rsf_pieces raw)) m3 n3 t3"
    using load_movers_ok [of _ b2 b3] run(3) size unfolding s3 i3 by blast
  have s4: "with_resources b3 [] [] [] = b3" by (simp add: 1(1) 2(1) 3(1) start bt_map_values_def)
  obtain m4 n4 t4 where 4: "b4 = with_resources b3 m4 n4 t4"
      "declared rre_id resource_of (rsf_resources raw) m4 n4 t4"
    using load_resources_ok [of c _ b3 b4] run(4) size unfolding s4 by blast
  have "bt_wf t4" using 4(2) by (simp add: declared_def)
  then have w5: "bt_wf (sb_inventory b4)" by (simp add: 4(1))
  have i5: "im_resources_by_name (sb_ids b4) = m4" "sb_inventory b4 = bt_map_values (\<lambda>_ _. 0) t4"
    by (simp_all add: 4(1))
  from load_inventory_ok [OF run(5) w5] obtain iv where 5: "b5 = b4\<lparr>sb_inventory := iv\<rparr>"
    "stocked m4 (rsf_inventory raw) (bt_map_values (\<lambda>_ _. 0) t4) iv" unfolding i5 by blast
  have s6: "with_producers b5 [] [] [] = b5" and i6: "im_resources_by_name (sb_ids b5) = m4"
    by (simp_all add: 1(1) 2(1) 3(1) 4(1) 5(1) start)
  obtain m6 n6 t6 where 6: "b6 = with_producers b5 m6 n6 t6"
      "declared rpr_id (producer_of m4) (rsf_producers raw) m6 n6 t6"
    using load_producers_ok [of _ b5 b6] run(6) size unfolding s6 i6 by blast
  have s7: "with_consumers b6 [] [] [] = b6" and i7: "im_resources_by_name (sb_ids b6) = m4"
    by (simp_all add: 1(1) 2(1) 3(1) 4(1) 5(1) 6(1) start)
  obtain m7 n7 t7 where 7: "b = with_consumers b6 m7 n7 t7"
      "declared rco_id (consumer_of m4) (rsf_consumers raw) m7 n7 t7"
    using load_consumers_ok [of _ b6 b] run(7) size unfolding s7 i7 by blast
  show ?thesis
    using 1(2) 2(2) 3(2) 4(2) 5(2) 6(2) 7(2)
    by (simp add: as_declared_def 7(1) 6(1) 5(1) 4(1) 3(1) 2(1) 1(1))
qed

section \<open>The world is sound\<close>

lemma declaredD:
  assumes "declared key g xs m n t"
  shows "bt_wf t" and "bt_get t k = Some v \<Longrightarrow> unat k < length xs \<and> g k (xs ! unat k) = Some v"
    and "bt_get m s = Some k \<Longrightarrow> bt_has t k" and "distinct (map key xs)"
proof -
  note d = assms [unfolded declared_def]
  show "bt_wf t" "distinct (map key xs)" using d by (auto simp: interned_def)
  show "bt_get t k = Some v \<Longrightarrow> unat k < length xs \<and> g k (xs ! unat k) = Some v" using d by simp
  assume "bt_get m s = Some k"
  with d have "unat k < length xs" by (auto simp: interned_def)
  moreover from this have "g k (xs ! unat k) \<noteq> None" using d by (meson nth_mem)
  ultimately show "bt_has t k" using d by (auto simp: bt_has_Some)
qed

lemma declared_table:
  assumes "declared key g xs m n t" and "\<And>k x v. x \<in> set xs \<Longrightarrow> g k x = Some v \<Longrightarrow> kf v = k \<and> P v"
  shows "table_ok kf P t"
  using declaredD(1,2) [OF assms(1)] assms(2) by (force simp: table_ok_def)

lemma built_world_wf:
  assumes "as_declared raw b"
  shows "world_wf (build_world f seed b sl1)" (is "world_wf ?w")
proof -
  let ?i = "sb_ids b"
  note d = assms [unfolded as_declared_def Let_def]
  have nodes: "declared rno_id node_of (rpi_nodes (rsf_pieces raw)) (im_nodes_by_name ?i) (im_node_names ?i) (sb_nodes b)"
    and paths: "declared rpa_id (path_of (im_nodes_by_name ?i)) (rpi_paths (rsf_pieces raw))
         (im_paths_by_name ?i) (im_path_names ?i) (sb_paths b)"
    and movers: "declared rmo_id (mover_of (im_paths_by_name ?i)) (rpi_movers (rsf_pieces raw))
         (im_movers_by_name ?i) (im_mover_names ?i) (sb_movers b)"
    and res: "declared rre_id resource_of (rsf_resources raw) (im_resources_by_name ?i) (im_resource_names ?i)
         (sb_resources b)"
    and stock: "stocked (im_resources_by_name ?i) (rsf_inventory raw) (bt_map_values (\<lambda>_ _. 0) (sb_resources b))
         (sb_inventory b)"
    and prods: "declared rpr_id (producer_of (im_resources_by_name ?i)) (rsf_producers raw)
         (im_producers_by_name ?i) (im_producer_names ?i) (sb_producers b)"
    and cons: "declared rco_id (consumer_of (im_resources_by_name ?i)) (rsf_consumers raw)
         (im_consumers_by_name ?i) (im_consumer_names ?i) (sb_consumers b)"
    using d by blast+
  note [simp] = build_world_def world_new_def
  have 1: "table_ok n_id (\<lambda>_. True) (w_nodes ?w)"
    using declared_table [OF nodes, of n_id "\<lambda>_. True"] by (fastforce simp: node_of_def)
  have "table_ok pa_id (path_ok ?w) (sb_paths b)"
    using declaredD(3) [OF nodes]
    by (intro declared_table [OF paths]) (auto simp: path_of_def path_ok_def split: option.splits)
  then have 2: "table_ok pa_id (path_ok ?w) (w_paths ?w)" by simp
  have "table_ok m_id (mover_ok ?w) (sb_movers b)"
    using declaredD(3) [OF paths]
    by (intro declared_table [OF movers])
      (auto simp: mover_of_def mover_ok_def mover_new_def split: option.splits if_splits)
  then have 3: "table_ok m_id (mover_ok ?w) (w_movers ?w)" by simp
  have 4: "table_ok re_id (\<lambda>_. True) (w_resources ?w)"
    using declared_table [OF res, of re_id "\<lambda>_. True"] by (fastforce simp: resource_of_def)
  have 5: "names_distinct (w_resources ?w)"
    unfolding names_distinct_def
  proof (intro allI impI)
    fix k r k' r'
    assume r: "bt_get (w_resources ?w) k = Some r" "bt_get (w_resources ?w) k' = Some r'" "re_name r = re_name r'"
    have name: "unat j < length (rsf_resources raw) \<and> rre_id (rsf_resources raw ! unat j) = re_name q"
      if "bt_get (w_resources ?w) j = Some q" for j q
      using declaredD(2) [OF res, of j q] that by (auto simp: resource_of_def)
    from name [OF r(1)] name [OF r(2)] r(3)
    have "unat k < length (rsf_resources raw)" "unat k' < length (rsf_resources raw)"
      "rre_id (rsf_resources raw ! unat k) = rre_id (rsf_resources raw ! unat k')" by auto
    with declaredD(4) [OF res] have "unat k = unat k'" by (simp add: distinct_conv_nth) (metis nth_map)
    then show "k = k'" by (simp add: word_unat_eq_iff)
  qed
  have 6: "table_ok p_id (\<lambda>p. bt_has (w_resources ?w) (p_resource p)) (pw_producers ?w)"
    using declared_table [OF prods, of p_id "\<lambda>p. bt_has (sb_resources b) (p_resource p)"] declaredD(3) [OF res]
    by (fastforce simp: producer_of_def split: option.splits)
  have 7: "table_ok c_id (\<lambda>c. bt_has (w_resources ?w) (c_resource c)) (pw_consumers ?w)"
    using declared_table [OF cons, of c_id "\<lambda>c. bt_has (sb_resources b) (c_resource c)"] declaredD(3) [OF res]
    by (fastforce simp: consumer_of_def split: option.splits)
  have 8: "bt_has (sb_inventory b) k \<longleftrightarrow> bt_has (sb_resources b) k" for k
  proof (cases "\<forall>r \<in> set (rsf_inventory raw). bt_get (im_resources_by_name ?i) (riv_resource r) \<noteq> Some k")
    case True
    with stock have "bt_get (sb_inventory b) k = bt_get (bt_map_values (\<lambda>_ _. 0) (sb_resources b)) k"
      by (simp add: stocked_def)
    then show ?thesis by (simp add: bt_has_def)
  next
    case False
    then obtain r where "r \<in> set (rsf_inventory raw)" "bt_get (im_resources_by_name ?i) (riv_resource r) = Some k"
      by blast
    with stock declaredD(3) [OF res] show ?thesis by (fastforce simp: stocked_def bt_has_Some)
  qed
  have "bt_wf (sb_inventory b)" using stock by (simp add: stocked_def)
  then show ?thesis unfolding world_wf_def using 1 2 3 4 5 6 7 8 default_dt_ok by simp
qed

lemma validate_scene_file_Inr:
  assumes "validate_scene_file kind_of from_value llm f raw seed = Inr ls"
  obtains th b where "check_header raw = Inr th" and "load_sections (length (th_palette th)) raw = Inr b"
    and "ls_id_map ls = sb_ids b" and "ls_world ls = build_world f seed b (ls_sl1 ls)"
    and "rel_option (\<lambda>v sc. load_value kind_of from_value v = Inr sc) (rsf_sl1 raw) (ls_sl1 ls)"
  using assms by (auto simp: validate_scene_file_def load_simps)

end
