(* ===== verification/Scene_File_Properties.thy ===== *)
theory Scene_File_Properties
  imports Scene_File_Proofs Engine_Properties Load_Demo
begin

text \<open>
  Properties of the scene loader, up to the run of what it loads. \<open>demo_file\<close> is a scene file
  with two nodes, a path, a mover, a resource with stock, a producer and an SL1 block.
\<close>

definition demo_file :: "unit raw_scene_file" where
  "demo_file = \<lparr>rsf_schema_version = 2, rsf_name = ''demo'',
     rsf_theme = Some \<lparr>rth_palette = [''#00FF00'', ''#aabbcc''], rth_background_index = 1, rth_font = default_font\<rparr>,
     rsf_pieces = \<lparr>
       rpi_nodes = [\<lparr>rno_id = ''a'', rno_pos = (f32_zero, f32_zero), rno_shape = Circle, rno_color = 0\<rparr>,
         \<lparr>rno_id = ''b'', rno_pos = (f32_one, f32_zero), rno_shape = Square, rno_color = 1\<rparr>],
       rpi_paths = [\<lparr>rpa_id = ''ab'', rpa_from = ''a'', rpa_to = ''b'', rpa_color = 0\<rparr>],
       rpi_movers = [\<lparr>rmo_id = ''m'', rmo_on_path = ''ab'', rmo_speed = f32_one\<rparr>]\<rparr>,
     rsf_goals = [RawLoopForever],
     rsf_agents = [\<lparr>ras_kind = ''speed_tuner'', ras_interval_ticks = 10, ras_deadline_ticks = None\<rparr>],
     rsf_resources = [\<lparr>rre_id = ''ore'', rre_color = 1\<rparr>],
     rsf_inventory = [\<lparr>riv_resource = ''ore'', riv_amount = 7\<rparr>],
     rsf_producers = [\<lparr>rpr_id = ''mine'', rpr_resource = ''ore'', rpr_amount = 2, rpr_interval_ticks = 5\<rparr>],
     rsf_consumers = [], rsf_sl1 = Some (), rsf_extra = [(''notes'', ())]\<rparr>"

abbreviation load_demo_file :: "load_error + unit loaded_scene" where
  "load_demo_file \<equiv> validate_scene_file (\<lambda>_. JObject) (\<lambda>_. Inr raw_demo) False (\<lambda>_. ()) demo_file 42"

lemma demo_header: "check_header demo_file = Inr \<lparr>th_palette = [''#00FF00'', ''#aabbcc''],
    th_background_index = 1, th_font = default_font\<rparr>"
  by code_simp

lemma demo_sections: "\<not> isl (load_sections (length [0, 1 :: nat]) demo_file)"
  by code_simp

lemma demo_agents: "\<not> isl (each_at (load_agent_spec False) 0 (rsf_agents demo_file) [])"
  by code_simp

lemma demo_file_loads:
  obtains ls where "load_demo_file = Inr ls"
proof -
  obtain b where b: "load_sections (length [0, 1 :: nat]) demo_file = Inr b" using demo_sections by (cases "load_sections (length [0, 1 :: nat]) demo_file") auto
  obtain ags where ags: "each_at (load_agent_spec False) 0 (rsf_agents demo_file) [] = Inr ags"
    using demo_agents by (cases "each_at (load_agent_spec False) 0 (rsf_agents demo_file) []") auto
  have "rsf_sl1 demo_file = Some ()" by (simp add: demo_file_def)
  then have "load_demo_file = Inr \<lparr>ls_name = rsf_name demo_file, ls_theme = projr (check_header demo_file),
      ls_goals = map goal_of (rsf_goals demo_file), ls_agents = ags, ls_id_map = sb_ids b,
      ls_world = build_world (\<lambda>_. ()) 42 b (Some demo), ls_sl1 = Some demo\<rparr>"
    using b by (simp add: validate_scene_file_def demo_header ags load_value_def raw_demo_accepted)
  then show thesis by (rule that)
qed

text \<open>
  C4. A loaded scene is what was declared: every piece, resource, producer and consumer has the
  dense id of its place in the file and the declared values, its references are resolved by
  name, the two directions of each id map are inverse, and the inventory holds the declared
  amounts and zero elsewhere.
\<close>

theorem loaded_as_declared:
  assumes "validate_scene_file kind_of from_value llm f raw seed = Inr ls"
  defines "i \<equiv> ls_id_map ls" and "w \<equiv> ls_world ls"
  shows "declared rno_id node_of (rpi_nodes (rsf_pieces raw)) (im_nodes_by_name i) (im_node_names i) (w_nodes w)
    \<and> declared rpa_id (path_of (im_nodes_by_name i)) (rpi_paths (rsf_pieces raw))
        (im_paths_by_name i) (im_path_names i) (w_paths w)
    \<and> declared rmo_id (mover_of (im_paths_by_name i)) (rpi_movers (rsf_pieces raw))
        (im_movers_by_name i) (im_mover_names i) (w_movers w)
    \<and> declared rre_id resource_of (rsf_resources raw) (im_resources_by_name i) (im_resource_names i) (w_resources w)
    \<and> stocked (im_resources_by_name i) (rsf_inventory raw) (bt_map_values (\<lambda>_ _. 0) (w_resources w)) (pw_inventory w)
    \<and> declared rpr_id (producer_of (im_resources_by_name i)) (rsf_producers raw)
        (im_producers_by_name i) (im_producer_names i) (pw_producers w)
    \<and> declared rco_id (consumer_of (im_resources_by_name i)) (rsf_consumers raw)
        (im_consumers_by_name i) (im_consumer_names i) (pw_consumers w)"
proof -
  obtain th b where h: "check_header raw = Inr th" and l: "load_sections (length (th_palette th)) raw = Inr b"
    and i: "i = sb_ids b" and w: "w = build_world f seed b (ls_sl1 ls)"
    using validate_scene_file_Inr [OF assms(1)] unfolding i_def w_def by metis
  have "as_declared raw b" by (rule load_sections_ok [OF l check_header_sizes [OF h]])
  then show ?thesis by (simp add: as_declared_def Let_def i w build_world_def world_new_def)
qed

theorem loaded_as_declared_witness:
  "\<exists>ls. load_demo_file = Inr ls
    \<and> bt_get (w_paths (ls_world ls)) 0 = path_of (im_nodes_by_name (ls_id_map ls)) 0
        \<lparr>rpa_id = ''ab'', rpa_from = ''a'', rpa_to = ''b'', rpa_color = 0\<rparr>"
proof -
  obtain ls where ls: "load_demo_file = Inr ls" by (rule demo_file_loads)
  from loaded_as_declared [OF ls] have d: "declared rpa_id (path_of (im_nodes_by_name (ls_id_map ls))) (rpi_paths (rsf_pieces demo_file))
      (im_paths_by_name (ls_id_map ls)) (im_path_names (ls_id_map ls)) (w_paths (ls_world ls))" by blast
  have "rpi_paths (rsf_pieces demo_file) = [\<lparr>rpa_id = ''ab'', rpa_from = ''a'', rpa_to = ''b'', rpa_color = 0\<rparr>]"
    by (simp add: demo_file_def)
  with d have at: "bt_get (w_paths (ls_world ls)) 0 = Some v"
    if "path_of (im_nodes_by_name (ls_id_map ls)) 0 \<lparr>rpa_id = ''ab'', rpa_from = ''a'', rpa_to = ''b'', rpa_color = 0\<rparr> = Some v"
    for v using that by (simp add: declared_def)
  have "path_of (im_nodes_by_name (ls_id_map ls)) 0
      \<lparr>rpa_id = ''ab'', rpa_from = ''a'', rpa_to = ''b'', rpa_color = 0\<rparr> \<noteq> None"
    using d \<open>rpi_paths (rsf_pieces demo_file) = _\<close> by (simp add: declared_def)
  with at ls show ?thesis by auto
qed

text \<open>
  What an accepted file gives: shared by the property below, the trials of a policy search and
  the sessions of the desktop driver.
\<close>

definition fresh_world :: "'r world \<Rightarrow> bool" where
  "fresh_world w \<longleftrightarrow> world_wf w \<and> (w_sl1 w = None
     \<or> (\<exists>sc. scene_ok sc \<and> w_sl1 w = Some sc \<and> w_sl1_runtime w = Some (from_scene sc) \<and> pw_tick w = 0))"

lemma accepted_file_world:
  assumes "validate_scene_file kind_of from_value llm f raw seed = Inr ls"
    and "\<And>v r. from_value v = Inr r \<Longrightarrow> raw_wf r"
  shows "fresh_world (ls_world ls)"
proof -
  obtain th b where h: "check_header raw = Inr th" and l: "load_sections (length (th_palette th)) raw = Inr b"
    and w: "ls_world ls = build_world f seed b (ls_sl1 ls)"
    and sl1: "rel_option (\<lambda>v sc. load_value kind_of from_value v = Inr sc) (rsf_sl1 raw) (ls_sl1 ls)"
    using validate_scene_file_Inr [OF assms(1)] by metis
  have wf: "world_wf (ls_world ls)"
    unfolding w by (rule built_world_wf [OF load_sections_ok [OF l check_header_sizes [OF h]]])
  show ?thesis
  proof (cases "ls_sl1 ls")
    case None
    with wf show ?thesis by (simp add: w build_world_def fresh_world_def)
  next
    case (Some sc)
    with sl1 obtain v where "load_value kind_of from_value v = Inr sc" by (cases "rsf_sl1 raw") auto
    then obtain rs where "from_value v = Inr rs" "validate rs = Inr sc"
      by (auto simp: load_value_def load_simps split: if_splits)
    then have "scene_ok sc" using assms(2) by (blast intro: accepted_scene_ok)
    with wf Some show ?thesis by (simp add: w build_world_def world_new_def fresh_world_def)
  qed
qed

lemma accepted_file_runs:
  assumes "validate_scene_file kind_of from_value llm f raw seed = Inr ls"
    and "\<And>v r. from_value v = Inr r \<Longrightarrow> raw_wf r" and "MAX_DEMAND_OUTSTANDING * n < 2 ^ 64"
  shows "world_wf (ls_world ls)
    \<and> (\<exists>r' w'. engine_ticks rx js n r (ls_world ls) = Some (r', w') \<and> world_wf w')"
proof -
  have world: "fresh_world (ls_world ls)" using assms(1,2) by (rule accepted_file_world)
  then have wf: "world_wf (ls_world ls)" by (simp add: fresh_world_def)
  with world show ?thesis
    unfolding fresh_world_def using engine_ticks_no_sl1 [OF wf] engine_ticks_sl1 [OF _ assms(3) wf] by blast
qed

text \<open>
  C3. From the file to the run: a scene file the loader accepts gives a world in which every
  reference resolves, and with any hosted agents and any log the engine then runs any number
  of ticks without a panic and keeps it so. Of the deserialiser of the SL1 block only what the
  type \<open>BTreeMap\<close> guarantees is assumed.
\<close>

theorem loaded_scene_runs:
  assumes "validate_scene_file kind_of from_value llm f raw seed = Inr ls"
    and "\<And>v r. from_value v = Inr r \<Longrightarrow> raw_wf r" and "MAX_DEMAND_OUTSTANDING * n < 2 ^ 64"
  shows "world_wf (ls_world ls)
    \<and> (\<exists>r' w'. engine_ticks rx js n r (ls_world ls) = Some (r', w') \<and> world_wf w')"
  using assms by (rule accepted_file_runs)

theorem loaded_scene_runs_witness:
  "\<exists>ls r' w'. load_demo_file = Inr ls
    \<and> engine_ticks no_regex no_json 1000 demo_runner (ls_world ls) = Some (r', w') \<and> world_wf w'"
proof -
  obtain ls where ls: "load_demo_file = Inr ls" by (rule demo_file_loads)
  have "raw_wf r" if "Inr raw_demo = (Inr r :: string + unit raw_scene)" for r
    using that raw_demo_wf by simp
  moreover have "MAX_DEMAND_OUTSTANDING * 1000 < 2 ^ 64" by (simp add: MAX_DEMAND_OUTSTANDING_def)
  ultimately show ?thesis
    using loaded_scene_runs [OF ls, of 1000 no_regex no_json demo_runner] ls by blast
qed

end
