(* ===== verification/Hash_Base.thy ===== *)
theory Hash_Base
  imports Runtime
begin

text \<open>
  The byte stream behind the state hash (\<open>state_hash.rs\<close>). \<open>Sha256::update\<close> appends to the
  stream and \<open>finalize\<close> digests it, so a \<open>feed_*\<close> function of the code is here the bytes it
  appends; the digest itself is a parameter. The contract of an encoding that can be read back
  is the locale \<open>code\<close>: from a stream that starts with it, the value and the rest of the stream
  are determined.
\<close>

section \<open>Bytes\<close>

type_synonym bytes = "u8 list"

text \<open>\<open>to_le_bytes\<close>.\<close>

definition le32 :: "u32 \<Rightarrow> bytes" where
  "le32 w = map (\<lambda>i. ucast (drop_bit (8 * i) w)) [0, 1, 2, 3]"

definition le64 :: "u64 \<Rightarrow> bytes" where
  "le64 w = map (\<lambda>i. ucast (drop_bit (8 * i) w)) [0, 1, 2, 3, 4, 5, 6, 7]"

text \<open>An \<open>i64\<close> in two's complement.\<close>

definition le_i64 :: "i64 \<Rightarrow> bytes" where
  "le_i64 v = le64 (word_of_int v)"

definition as_bytes :: "string \<Rightarrow> bytes" where
  "as_bytes s = map of_char s"

text \<open>\<open>(n as u64).to_le_bytes()\<close>.\<close>

definition feed_len :: "nat \<Rightarrow> bytes" where
  "feed_len n = le64 (of_nat n)"

definition feed_str :: "string \<Rightarrow> bytes" where
  "feed_str s = feed_len (length s) @ as_bytes s"

text \<open>A presence byte, then the value; a length, then the elements.\<close>

definition feed_opt :: "('a \<Rightarrow> bytes) \<Rightarrow> 'a option \<Rightarrow> bytes" where
  "feed_opt f m = (case m of None \<Rightarrow> [0] | Some x \<Rightarrow> 1 # f x)"

definition feed_all :: "('a \<Rightarrow> bytes) \<Rightarrow> 'a list \<Rightarrow> bytes" where
  "feed_all f xs = concat (map f xs)"

definition feed_list :: "('a \<Rightarrow> bytes) \<Rightarrow> 'a list \<Rightarrow> bytes" where
  "feed_list f xs = feed_len (length xs) @ feed_all f xs"

definition feed_pair :: "('a \<Rightarrow> bytes) \<Rightarrow> ('b \<Rightarrow> bytes) \<Rightarrow> 'a \<times> 'b \<Rightarrow> bytes" where
  "feed_pair f g p = f (fst p) @ g (snd p)"

definition feed_bool :: "bool \<Rightarrow> bytes" where
  "feed_bool b = [if b then 1 else 0]"

definition feed_str_list :: "string list \<Rightarrow> bytes" where
  "feed_str_list xs = feed_list feed_str xs"

definition feed_opt_u32 :: "u32 option \<Rightarrow> bytes" where
  "feed_opt_u32 v = feed_opt le32 v"

text \<open>An ordered map: its length and its entries in key order.\<close>

definition feed_map :: "('k \<Rightarrow> bytes) \<Rightarrow> ('v \<Rightarrow> bytes) \<Rightarrow> ('k, 'v) btree_map \<Rightarrow> bytes" where
  "feed_map f g m = feed_list (feed_pair f g) m"

section \<open>Numbers are read back\<close>

lemma length_le [simp]: "length (le32 w) = 4" "length (le64 v) = 8" "length (le_i64 i) = 8" "length (feed_len n) = 8"
  by (simp_all add: le32_def le64_def le_i64_def feed_len_def)

lemma byte_bit: "n < 8 \<Longrightarrow> bit (ucast (drop_bit k w) :: u8) n \<longleftrightarrow> bit w (k + n)"
  by (simp add: bit_ucast_iff bit_drop_bit_eq)

lemma le32_inject [simp]: "le32 v = le32 w \<longleftrightarrow> v = w"
proof
  assume eq: "le32 v = le32 w"
  show "v = w"
  proof (rule bit_word_eqI)
    fix n assume "n < LENGTH(32)"
    then have i: "n div 8 \<in> set [0, 1, 2, 3]" and n: "n = 8 * (n div 8) + n mod 8" by auto
    have "(ucast (drop_bit (8 * (n div 8)) v) :: u8) = ucast (drop_bit (8 * (n div 8)) w)"
      using eq i by (auto simp: le32_def)
    then have "bit (ucast (drop_bit (8 * (n div 8)) v) :: u8) (n mod 8)
        = bit (ucast (drop_bit (8 * (n div 8)) w) :: u8) (n mod 8)" by simp
    then show "bit v n = bit w n" by (simp add: byte_bit)
  qed
qed simp

lemma le64_inject [simp]: "le64 v = le64 w \<longleftrightarrow> v = w"
proof
  assume eq: "le64 v = le64 w"
  show "v = w"
  proof (rule bit_word_eqI)
    fix n assume "n < LENGTH(64)"
    then have i: "n div 8 \<in> set [0, 1, 2, 3, 4, 5, 6, 7]" by auto
    have "(ucast (drop_bit (8 * (n div 8)) v) :: u8) = ucast (drop_bit (8 * (n div 8)) w)"
      using eq i by (auto simp: le64_def)
    then have "bit (ucast (drop_bit (8 * (n div 8)) v) :: u8) (n mod 8)
        = bit (ucast (drop_bit (8 * (n div 8)) w) :: u8) (n mod 8)" by simp
    then show "bit v n = bit w n" by (simp add: byte_bit)
  qed
qed simp

lemma le_split [simp]:
  "le32 v @ xs = le32 w @ ys \<longleftrightarrow> v = w \<and> xs = ys"
  "le64 v' @ xs = le64 w' @ ys \<longleftrightarrow> v' = w' \<and> xs = ys"
  by simp_all

text \<open>What the type \<open>i64\<close> guarantees.\<close>

definition in_i64 :: "i64 \<Rightarrow> bool" where
  "in_i64 v \<longleftrightarrow> - (2 ^ 63) \<le> v \<and> v < 2 ^ 63"

lemma le_i64_inject:
  assumes "in_i64 v" and "in_i64 w"
  shows "le_i64 v = le_i64 w \<longleftrightarrow> v = w"
proof
  have wrap: "uint (word_of_int x :: u64) = (if x < 0 then x + 2 ^ 64 else x)" if "in_i64 x" for x
  proof (cases "x < 0")
    case True
    with that have "(x + 2 ^ 64) mod 2 ^ 64 = x + 2 ^ 64"
      by (intro mod_pos_pos_trivial) (simp_all add: in_i64_def)
    with True show ?thesis by (simp add: uint_word_of_int)
  next
    case False
    with that have "x mod 2 ^ 64 = x" by (intro mod_pos_pos_trivial) (simp_all add: in_i64_def)
    with False show ?thesis by (simp add: uint_word_of_int)
  qed
  assume "le_i64 v = le_i64 w"
  then have "uint (word_of_int v :: u64) = uint (word_of_int w :: u64)" by (simp add: le_i64_def)
  with assms show "v = w" by (simp add: wrap in_i64_def split: if_splits)
qed simp

lemma feed_len_inject:
  assumes "m < 2 ^ 64" and "n < 2 ^ 64"
  shows "feed_len m = feed_len n \<longleftrightarrow> m = n"
proof
  have r: "unat (of_nat k :: u64) = k" if "k < 2 ^ 64" for k
    using that by (simp add: unat_of_nat take_bit_nat_eq_self_iff)
  assume "feed_len m = feed_len n"
  then have "unat (of_nat m :: u64) = unat (of_nat n :: u64)" by (simp add: feed_len_def)
  with assms show "m = n" by (simp only: r)
qed simp

lemma unat_of_char: "unat (of_char c :: u8) = of_char c"
  by (cases c) (simp add: of_char_def)

lemma as_bytes_inject [simp]: "as_bytes s = as_bytes t \<longleftrightarrow> s = t"
proof -
  have "inj (of_char :: char \<Rightarrow> u8)"
    by (rule injI) (metis unat_of_char of_char_eq_iff)
  then show ?thesis by (simp add: as_bytes_def inj_map_eq_map)
qed

lemma length_as_bytes [simp]: "length (as_bytes s) = length s"
  by (simp add: as_bytes_def)

section \<open>Encodings that can be read back\<close>

text \<open>
  \<open>ok\<close> is what the type of a value guarantees. Nothing the code hashes comes near
  \<open>2 ^ 64\<close> bytes; without that bound a length would wrap.
\<close>

locale code =
  fixes enc :: "'a \<Rightarrow> bytes" and ok :: "'a \<Rightarrow> bool"
  assumes nonempty: "enc x \<noteq> []"
    and unique: "enc x @ xs = enc y @ ys \<Longrightarrow> ok x \<Longrightarrow> ok y \<Longrightarrow> length (enc x) < 2 ^ 64
      \<Longrightarrow> length (enc y) < 2 ^ 64 \<Longrightarrow> x = y \<and> xs = ys"
begin

lemma feed_all_unique:
  assumes "feed_all enc as @ xs = feed_all enc bs @ ys" and "length as = length bs"
    and "list_all ok as" and "list_all ok bs"
    and "length (feed_all enc as) < 2 ^ 64" and "length (feed_all enc bs) < 2 ^ 64"
  shows "as = bs \<and> xs = ys"
  using assms(2,1,3-)
proof (induction as bs rule: list_induct2)
  case (Cons a as b bs)
  then have "enc a @ (feed_all enc as @ xs) = enc b @ (feed_all enc bs @ ys)" by (simp add: feed_all_def)
  then have "a = b \<and> feed_all enc as @ xs = feed_all enc bs @ ys"
    by (rule unique) (use Cons.prems in \<open>auto simp: feed_all_def\<close>)
  with Cons show ?case by (simp add: feed_all_def)
qed (simp add: feed_all_def)

lemma length_feed_all: "length as \<le> length (feed_all enc as)"
proof (induction as)
  case (Cons a as)
  have "1 \<le> length (enc a)" using nonempty [of a] by (cases "enc a") auto
  with Cons show ?case by (simp add: feed_all_def)
qed (simp add: feed_all_def)

lemma feed_list_unique:
  assumes "feed_list enc as @ xs = feed_list enc bs @ ys" and "list_all ok as" and "list_all ok bs"
    and "length (feed_list enc as) < 2 ^ 64" and "length (feed_list enc bs) < 2 ^ 64"
  shows "as = bs \<and> xs = ys"
proof -
  have l: "feed_len (length as) = feed_len (length bs)" "feed_all enc as @ xs = feed_all enc bs @ ys"
    using assms(1) by (simp_all add: feed_list_def)
  have "length as < 2 ^ 64" "length bs < 2 ^ 64"
    using assms(4,5) length_feed_all [of as] length_feed_all [of bs] by (simp_all add: feed_list_def)
  with l(1) have "length as = length bs" by (simp add: feed_len_inject)
  with l(2) show ?thesis
    by (rule feed_all_unique) (use assms in \<open>auto simp: feed_list_def\<close>)
qed

lemma feed_opt_unique:
  assumes eq: "feed_opt enc a @ xs = feed_opt enc b @ ys" and ok: "pred_option ok a" "pred_option ok b"
    and l: "length (feed_opt enc a) < 2 ^ 64" "length (feed_opt enc b) < 2 ^ 64"
  shows "a = b \<and> xs = ys"
proof (cases a)
  case None
  with eq show ?thesis by (cases b) (simp_all add: feed_opt_def)
next
  case a: (Some x)
  with eq obtain y where b: "b = Some y" by (cases b) (simp_all add: feed_opt_def)
  have "enc x @ xs = enc y @ ys" using eq by (simp add: a b feed_opt_def)
  then have "x = y \<and> xs = ys"
    by (rule unique) (use ok l in \<open>simp_all add: a b feed_opt_def\<close>)
  then show ?thesis by (simp add: a b)
qed

lemma split:
  "ok x \<Longrightarrow> ok y \<Longrightarrow> length (enc x) < 2 ^ 64 \<Longrightarrow> length (enc y) < 2 ^ 64
    \<Longrightarrow> enc x @ xs = enc y @ ys \<longleftrightarrow> x = y \<and> xs = ys"
  using unique by blast

text \<open>Nothing needs to follow.\<close>

lemma inject:
  assumes "enc x = enc y" and "ok x" and "ok y" and "length (enc y) < 2 ^ 64"
  shows "x = y"
  using unique [of x "[]" y "[]"] assms by simp

lemma opt_code: "code (feed_opt enc) (pred_option ok)"
proof
  show "feed_opt enc m \<noteq> []" for m by (simp add: feed_opt_def split: option.split)
qed (rule feed_opt_unique)

lemma list_code: "code (feed_list enc) (list_all ok)"
proof
  show "feed_list enc as \<noteq> []" for as
    using length_le(4) [of "length as"] by (auto simp: feed_list_def simp del: length_le)
qed (rule feed_list_unique)

end

text \<open>Pairs and ordered maps.\<close>

lemma code_pair:
  assumes f: "code f P" and g: "code g Q"
  shows "code (feed_pair f g) (\<lambda>p. P (fst p) \<and> Q (snd p))"
proof
  show "feed_pair f g p \<noteq> []" for p using code.nonempty [OF f] by (simp add: feed_pair_def)
next
  fix p q xs ys
  assume eq: "feed_pair f g p @ xs = feed_pair f g q @ ys"
    and ok: "P (fst p) \<and> Q (snd p)" "P (fst q) \<and> Q (snd q)"
    and l: "length (feed_pair f g p) < 2 ^ 64" "length (feed_pair f g q) < 2 ^ 64"
  have "f (fst p) @ g (snd p) @ xs = f (fst q) @ g (snd q) @ ys" using eq by (simp add: feed_pair_def)
  then have "fst p = fst q \<and> g (snd p) @ xs = g (snd q) @ ys"
    by (rule code.unique [OF f]) (use ok l in \<open>simp_all add: feed_pair_def\<close>)
  moreover then have "snd p = snd q \<and> xs = ys"
    by (intro code.unique [OF g]) (use ok l in \<open>simp_all add: feed_pair_def\<close>)
  ultimately show "p = q \<and> xs = ys" by (simp add: prod_eq_iff)
qed

lemma code_map:
  assumes "code f P" and "code g Q"
  shows "code (feed_map f g) (list_all (\<lambda>p. P (fst p) \<and> Q (snd p)))"
  using code.list_code [OF code_pair [OF assms]] unfolding feed_map_def .

lemma code_weaken: "code f P \<Longrightarrow> (\<And>x. Q x \<Longrightarrow> P x) \<Longrightarrow> code f Q"
  unfolding code_def by blast

text \<open>The same for types that guarantee nothing beyond themselves.\<close>

lemma code_list_all: "code f (\<lambda>_. True) \<Longrightarrow> code (feed_list f) (\<lambda>_. True)"
  by (rule code_weaken [OF code.list_code], assumption) (simp add: list_all_iff)

lemma code_opt_all: "code f (\<lambda>_. True) \<Longrightarrow> code (feed_opt f) (\<lambda>_. True)"
  by (rule code_weaken [OF code.opt_code], assumption) (simp add: pred_option_def)

lemma code_pair_all: "code f (\<lambda>_. True) \<Longrightarrow> code g (\<lambda>_. True) \<Longrightarrow> code (feed_pair f g) (\<lambda>_. True)"
  by (rule code_weaken [OF code_pair], assumption, assumption) simp

lemma code_map_all: "code f (\<lambda>_. True) \<Longrightarrow> code g (\<lambda>_. True) \<Longrightarrow> code (feed_map f g) (\<lambda>_. True)"
  unfolding feed_map_def [abs_def] by (intro code_list_all code_pair_all)

interpretation word32: code le32 "\<lambda>_. True"
  by unfold_locales (metis length_le(1) list.size(3) zero_neq_numeral, simp)

interpretation word64: code le64 "\<lambda>_. True"
  by unfold_locales (metis length_le(2) list.size(3) zero_neq_numeral, simp)

lemma code_i64: "code le_i64 in_i64"
proof
  show "le_i64 v \<noteq> []" for v using length_le(3) [of v] by (auto simp del: length_le)
qed (auto simp: le_i64_inject)

interpretation int64: code le_i64 in_i64
  by (rule code_i64)

lemma length_feed_str [simp]: "length (feed_str s) = 8 + length s"
  by (simp add: feed_str_def)

lemma code_str: "code feed_str (\<lambda>_. True)"
proof
  show "feed_str s \<noteq> []" for s using length_feed_str [of s] by (auto simp del: length_feed_str)
next
  fix s t xs ys
  assume eq: "feed_str s @ xs = feed_str t @ ys"
    and "length (feed_str s) < 2 ^ 64" "length (feed_str t) < 2 ^ 64"
  then have "length s < 2 ^ 64" "length t < 2 ^ 64" by simp_all
  moreover have "feed_len (length s) = feed_len (length t)" using eq by (simp add: feed_str_def)
  ultimately have "length s = length t" by (simp add: feed_len_inject)
  with eq show "s = t \<and> xs = ys" by (simp add: feed_str_def)
qed

interpretation str: code feed_str "\<lambda>_. True"
  by (rule code_str)

lemma feed_opt_simps [simp]: "feed_opt f None = [0]" "feed_opt f (Some x) = 1 # f x"
  by (simp_all add: feed_opt_def)

text \<open>What the splitting rules of the codes share.\<close>

lemma feed_bool_split [simp]: "feed_bool a @ xs = feed_bool b @ ys \<longleftrightarrow> a = b \<and> xs = ys"
  by (simp add: feed_bool_def)

lemma length_feed_bool [simp]: "length (feed_bool a) = 1"
  by (simp add: feed_bool_def)

lemma code_strs: "code feed_str_list (\<lambda>_. True)"
  unfolding feed_str_list_def [abs_def] by (rule code_list_all [OF code_str])

interpretation strs: code feed_str_list "\<lambda>_. True"
  by (rule code_strs)

interpretation ostr: code "feed_opt feed_str" "\<lambda>_. True"
  by (rule code_opt_all [OF code_str])

interpretation o32: code "feed_opt le32" "\<lambda>_. True"
  by (rule code_opt_all) (rule word32.code_axioms)

interpretation o64: code "feed_opt le64" "\<lambda>_. True"
  by (rule code_opt_all) (rule word64.code_axioms)

interpretation oint: code "feed_opt le_i64" "pred_option in_i64"
  by (rule int64.opt_code)

lemmas code_splits = str.split strs.split ostr.split o32.split o64.split oint.split int64.split

end
