(* ===== verification/Hash_Messages.thy ===== *)
theory Hash_Messages
  imports Hash_Base
begin

text \<open>
  What the state hash takes of actions, agent reports, faults, warnings, messages and events
  (\<open>state_hash.rs\<close>, from \<open>feed_event\<close> to \<open>feed_action\<close>), and the proof that a list of messages,
  and a list of events whose agent ids have no control bytes, can be read back.
\<close>

section \<open>Actions and reports\<close>

fun feed_action :: "action \<Rightarrow> bytes" where
  "feed_action NoOp = [0x50]"
| "feed_action (SetSpeed mover speed) = 0x51 # le32 mover @ le32 speed"
| "feed_action (PlacePiece kind pos) = 0x52 # feed_str kind @ le32 (fst pos) @ le32 (snd pos)"
| "feed_action (ConnectPieces a b) = 0x53 # le32 a @ le32 b"
| "feed_action (RemovePiece i) = 0x54 # le32 i"
| "feed_action (DefineResource name color) = 0x55 # feed_str name @ [color]"
| "feed_action (AddProducer res amount interval) = 0x56 # feed_str res @ le64 amount @ le32 interval"
| "feed_action (AddConsumer res amount interval) = 0x57 # feed_str res @ le64 amount @ le32 interval"
| "feed_action (SetGoal goal) = 0x58 # feed_str goal"

definition feed_considered :: "considered_action \<Rightarrow> bytes" where
  "feed_considered c = feed_action (ca_action c) @ le32 (ca_confidence c)"

definition feed_agent_report :: "agent_report \<Rightarrow> bytes" where
  "feed_agent_report r = le64 (ar_tick r) @ feed_str (ar_agent_id r)
     @ feed_list feed_considered (ar_considered r) @ feed_opt feed_action (ar_chosen r)
     @ feed_str (ar_rationale r) @ le32 (ar_confidence r)"

section \<open>Faults and warnings\<close>

fun feed_fault :: "fault_payload \<Rightarrow> bytes" where
  "feed_fault (LoadErrorFault message line col) =
     0x40 # feed_str message @ feed_opt_u32 line @ feed_opt_u32 col"
| "feed_fault (AgentCrashed agent message) = 0x41 # feed_str agent @ feed_str message"
| "feed_fault (NumericDrift tick) = 0x42 # le64 tick"
| "feed_fault (EngineFault message) = 0x43 # feed_str message"
| "feed_fault (BaselineHashMismatch expected found) = 0x44 # feed_str expected @ feed_str found"
| "feed_fault (SchemaMismatch expected found) = 0x45 # le32 expected @ le32 found"
| "feed_fault TransportLost = [0x46]"

fun sl1_objective_warning_tag :: "sl1_objective_warning_kind \<Rightarrow> u8" where
  "sl1_objective_warning_tag WarnObjectiveUnsupported = 1"

fun sl1_transform_warning_tag :: "sl1_transform_warning_kind \<Rightarrow> u8" where
  "sl1_transform_warning_tag WarnStarved = 1"
| "sl1_transform_warning_tag WarnBlocked = 2"
| "sl1_transform_warning_tag WarnLate = 3"
| "sl1_transform_warning_tag WarnFailed = 4"
| "sl1_transform_warning_tag WarnSlotMissed = 5"

fun sl1_demand_warning_tag :: "sl1_demand_warning_kind \<Rightarrow> u8" where
  "sl1_demand_warning_tag WarnDropped = 1"
| "sl1_demand_warning_tag WarnBacklogOverflow = 2"

fun sl1_pressure_warning_tag :: "sl1_pressure_warning_kind \<Rightarrow> u8" where
  "sl1_pressure_warning_tag WarnPressureUnsupported = 1"

fun feed_warning :: "warning_payload \<Rightarrow> bytes" where
  "feed_warning (InvalidAction agent reason) = 0x30 # feed_str agent @ feed_str reason"
| "feed_warning (Behind lag agent) = 0x31 # le32 lag @ feed_opt feed_str agent"
| "feed_warning (TickOverBudget ms) = 0x32 # le32 ms"
| "feed_warning AgentLogSlow = [0x33]"
| "feed_warning (Sl1TransformWarning tid ev tick attempt) =
     0x34 # feed_str tid @ [sl1_transform_warning_tag ev] @ le64 tick @ feed_opt le32 attempt"
| "feed_warning (Sl1DemandWarning did ev tick seq v score warning) =
     0x35 # feed_str did @ [sl1_demand_warning_tag ev] @ le64 tick @ feed_opt le64 seq
       @ feed_opt le64 v @ feed_opt le_i64 score @ feed_opt feed_str warning"
| "feed_warning (Sl1PressureWarning pid ev kind tick) =
     0x36 # feed_str pid @ [sl1_pressure_warning_tag ev] @ feed_str kind @ le64 tick"
| "feed_warning (Sl1ObjectiveWarning oid ev kind tick) =
     0x37 # feed_str oid @ [sl1_objective_warning_tag ev] @ feed_str kind @ le64 tick"

fun feed_message :: "sim_message \<Rightarrow> bytes" where
  "feed_message (Warning w) = 0x20 # feed_warning w"
| "feed_message (Fault f) = 0x21 # feed_fault f"
| "feed_message (AgentReport r) = 0x22 # feed_agent_report r"

section \<open>Events\<close>

text \<open>\<open>as u8\<close> of an enum without values: the position of the variant.\<close>

fun highlight_byte :: "highlight_reason \<Rightarrow> u8" where
  "highlight_byte AgentFocus = 0"
| "highlight_byte Bottleneck = 1"
| "highlight_byte GoalReached = 2"

fun action_tag_byte :: "action_tag \<Rightarrow> u8" where
  "action_tag_byte TagNoOp = 0"
| "action_tag_byte TagSetSpeed = 1"
| "action_tag_byte TagPlacePiece = 2"
| "action_tag_byte TagConnectPieces = 3"
| "action_tag_byte TagRemovePiece = 4"
| "action_tag_byte TagDefineResource = 5"
| "action_tag_byte TagAddProducer = 6"
| "action_tag_byte TagAddConsumer = 7"
| "action_tag_byte TagSetGoal = 8"

fun sl1_objective_status_byte :: "sl1_objective_status_tag \<Rightarrow> u8" where
  "sl1_objective_status_byte TagUnknown = 0"
| "sl1_objective_status_byte TagMet = 1"
| "sl1_objective_status_byte TagBreached = 2"
| "sl1_objective_status_byte TagUnsupported = 3"

fun sl1_pressure_event_tag :: "sl1_pressure_event_kind \<Rightarrow> u8" where
  "sl1_pressure_event_tag PressureActivatedEv = 1"
| "sl1_pressure_event_tag PressureDeactivatedEv = 2"

fun feed_event :: "sim_event \<Rightarrow> bytes" where
  "feed_event (MoverDeparted mover node path) = 0x10 # le32 mover @ le32 node @ le32 path"
| "feed_event (MoverArrived mover node path) = 0x11 # le32 mover @ le32 node @ le32 path"
| "feed_event (MoverSpeedChange mover old new) = 0x12 # le32 mover @ le32 old @ le32 new"
| "feed_event (NodeHighlighted node reason) = 0x13 # le32 node @ [highlight_byte reason]"
| "feed_event (PathPulsed path) = 0x14 # le32 path"
| "feed_event (AgentDecided agent act) = 0x15 # as_bytes agent @ [action_tag_byte act]"
| "feed_event (Tick tick) = 0x16 # le64 tick"
| "feed_event (Sl1PressureLifecycle pid kind ev tick) =
     0x17 # feed_str pid @ feed_str kind @ [sl1_pressure_event_tag ev] @ le64 tick"
| "feed_event (Sl1ObjectiveStateChanged oid old new tick) =
     0x18 # feed_str oid @ [sl1_objective_status_byte old] @ [sl1_objective_status_byte new] @ le64 tick"
| "feed_event (Sl1FailureConditionFired fid tick) = 0x19 # feed_str fid @ le64 tick"
| "feed_event (Sl1VictoryConditionMet vid tick) = 0x1a # feed_str vid @ le64 tick"
| "feed_event (Sl1GameOutcomeChanged old new tick reason) =
     0x1b # feed_str old @ feed_str new @ le64 tick @ feed_opt feed_str reason"
| "feed_event (Sl1DashboardStateChanged did old new tick fresh) =
     0x1c # feed_str did @ feed_str old @ feed_str new @ le64 tick @ feed_opt le64 fresh"
| "feed_event (Sl1AlertFired aid metric v severity summary tick) =
     0x1d # feed_str aid @ feed_str metric @ le64 v @ feed_str severity @ feed_str summary @ le64 tick"
| "feed_event (Sl1AlertCleared aid metric tick) = 0x1e # feed_str aid @ feed_str metric @ le64 tick"
| "feed_event (Sl1AgentActionApplied agent kind target cost tick) =
     0x1f # feed_str agent @ feed_str kind @ feed_str target @ le64 cost @ le64 tick"
| "feed_event (Sl1AgentActionRejected agent kind target reason tick) =
     0x20 # feed_str agent @ feed_str kind @ feed_opt feed_str target @ feed_str reason @ le64 tick"
| "feed_event (Sl1AgentLlmDisabled agent tick) = 0x21 # feed_str agent @ le64 tick"
| "feed_event (Sl1MilestoneFired mid label kind focus highlight tick) =
     0x22 # feed_str mid @ feed_str label @ feed_str kind @ feed_str_list focus
       @ feed_opt feed_str highlight @ le64 tick"

section \<open>Messages are read back\<close>

lemma tag_inject [simp]:
  "sl1_objective_warning_tag o1 = sl1_objective_warning_tag o2 \<longleftrightarrow> o1 = o2"
  "sl1_transform_warning_tag t1 = sl1_transform_warning_tag t2 \<longleftrightarrow> t1 = t2"
  "sl1_demand_warning_tag d1 = sl1_demand_warning_tag d2 \<longleftrightarrow> d1 = d2"
  "sl1_pressure_warning_tag p1 = sl1_pressure_warning_tag p2 \<longleftrightarrow> p1 = p2"
  "highlight_byte h1 = highlight_byte h2 \<longleftrightarrow> h1 = h2"
  "action_tag_byte a1 = action_tag_byte a2 \<longleftrightarrow> a1 = a2"
  "sl1_objective_status_byte s1 = sl1_objective_status_byte s2 \<longleftrightarrow> s1 = s2"
  "sl1_pressure_event_tag e1 = sl1_pressure_event_tag e2 \<longleftrightarrow> e1 = e2"
        apply (cases o1; cases o2; simp)
       apply (cases t1; cases t2; simp)
      apply (cases d1; cases d2; simp)
     apply (cases p1; cases p2; simp)
    apply (cases h1; cases h2; simp)
   apply (cases a1; cases a2; simp)
  apply (cases s1; cases s2; simp)
  apply (cases e1; cases e2; simp)
  done

lemma code_action: "code feed_action (\<lambda>_. True)"
proof
  show "feed_action a \<noteq> []" for a by (cases a) simp_all
next
  fix a b xs ys
  assume "feed_action a @ xs = feed_action b @ ys"
    and "length (feed_action a) < 2 ^ 64" "length (feed_action b) < 2 ^ 64"
  then show "a = b \<and> xs = ys"
    by (cases a; cases b; simp add: code_splits prod_eq_iff)
qed

interpretation act: code feed_action "\<lambda>_. True"
  by (rule code_action)

lemma code_considered: "code feed_considered (\<lambda>_. True)"
proof
  show "feed_considered c \<noteq> []" for c by (simp add: feed_considered_def act.nonempty)
qed (simp add: feed_considered_def act.split)

interpretation cons: code "feed_list feed_considered" "\<lambda>_. True"
  by (rule code_list_all [OF code_considered])

interpretation oact: code "feed_opt feed_action" "\<lambda>_. True"
  by (rule code_opt_all [OF code_action])

lemma code_report: "code feed_agent_report (\<lambda>_. True)"
proof
  show "feed_agent_report r \<noteq> []" for r
    using length_le(2) [of "ar_tick r"] by (auto simp: feed_agent_report_def simp del: length_le)
qed (auto simp: feed_agent_report_def code_splits cons.split oact.split)

lemma code_fault: "code feed_fault (\<lambda>_. True)"
proof
  show "feed_fault f \<noteq> []" for f by (cases f) simp_all
next
  fix a b xs ys
  assume "feed_fault a @ xs = feed_fault b @ ys"
    and "length (feed_fault a) < 2 ^ 64" "length (feed_fault b) < 2 ^ 64"
  then show "a = b \<and> xs = ys"
    by (cases a; cases b; simp add: code_splits feed_opt_u32_def)
qed

fun warning_ok :: "warning_payload \<Rightarrow> bool" where
  "warning_ok (Sl1DemandWarning _ _ _ _ _ score _) = pred_option in_i64 score"
| "warning_ok _ = True"

lemma code_warning: "code feed_warning warning_ok"
proof
  show "feed_warning w \<noteq> []" for w by (cases w) simp_all
next
  fix a b xs ys
  assume "feed_warning a @ xs = feed_warning b @ ys" "warning_ok a" "warning_ok b"
    and "length (feed_warning a) < 2 ^ 64" "length (feed_warning b) < 2 ^ 64"
  then show "a = b \<and> xs = ys"
    by (cases a; cases b; simp add: code_splits)
qed

fun message_ok :: "sim_message \<Rightarrow> bool" where
  "message_ok (Warning w) = warning_ok w"
| "message_ok _ = True"

lemma code_message: "code feed_message message_ok"
proof
  show "feed_message m \<noteq> []" for m by (cases m) simp_all
next
  fix a b xs ys
  assume "feed_message a @ xs = feed_message b @ ys" "message_ok a" "message_ok b"
    and "length (feed_message a) < 2 ^ 64" "length (feed_message b) < 2 ^ 64"
  then show "a = b \<and> xs = ys"
    by (cases a; cases b; simp add: code.split [OF code_warning] code.split [OF code_fault] code.split [OF code_report])
qed

interpretation message: code feed_message message_ok
  by (rule code_message)

section \<open>Events are read back\<close>

text \<open>
  \<open>AgentDecided\<close> writes its id without a length, so the action's byte, at most 8, is what ends
  it: that works for ids without such bytes.
\<close>

definition plain_id :: "string \<Rightarrow> bool" where
  "plain_id s \<longleftrightarrow> (\<forall>b \<in> set (as_bytes s). 8 < b)"

fun event_ok :: "sim_event \<Rightarrow> bool" where
  "event_ok (AgentDecided agent _) = plain_id agent"
| "event_ok _ = True"

lemma action_tag_le: "\<not> 8 < action_tag_byte t"
  by (cases t) simp_all

lemma stopped_unique:
  assumes "as @ t # xs = bs @ u # ys" and "\<forall>b \<in> set as. P b" and "\<forall>b \<in> set bs. P b"
    and "\<not> P t" and "\<not> P u"
  shows "as = bs \<and> t = u \<and> xs = ys"
  using assms
proof (induction as arbitrary: bs)
  case Nil
  then show ?case by (cases bs) auto
next
  case (Cons a as)
  then show ?case by (cases bs) auto
qed

lemma decided_unique:
  assumes "as_bytes a @ action_tag_byte t # xs = as_bytes b @ action_tag_byte u # ys"
    and "plain_id a" and "plain_id b"
  shows "a = b \<and> t = u \<and> xs = ys"
  using stopped_unique [OF assms(1), of "\<lambda>x. 8 < x"] assms(2,3) action_tag_le
  by (simp add: plain_id_def)

lemma event_unique:
  assumes "feed_event a @ xs = feed_event b @ ys" and "event_ok a" and "event_ok b"
    and "length (feed_event a) < 2 ^ 64" and "length (feed_event b) < 2 ^ 64"
  shows "a = b \<and> xs = ys"
proof (cases a)
  case (AgentDecided agent act)
  with assms(1) obtain agent' act' where b: "b = AgentDecided agent' act'" by (cases b) simp_all
  have "as_bytes agent @ action_tag_byte act # xs = as_bytes agent' @ action_tag_byte act' # ys"
    using assms(1) by (simp add: AgentDecided b)
  from decided_unique [OF this] assms(2,3) show ?thesis by (simp add: AgentDecided b)
qed (use assms in \<open>cases b; simp add: code_splits\<close>)+

lemma code_event: "code feed_event event_ok"
proof
  show "feed_event e \<noteq> []" for e by (cases e) simp_all
qed (rule event_unique)

interpretation event: code feed_event event_ok
  by (rule code_event)

end
