(* ===== verification/Hash_Scene.thy ===== *)
theory Hash_Scene
  imports Hash_Base Load_Views
begin

text \<open>
  What the state hash takes of a validated SL1 scene: the first half of \<open>feed_sl1\<close>
  (\<open>state_hash.rs\<close>), with one definition per section. A kind that is written as a text has no
  length before it, as in the code.
\<close>

section \<open>Tags\<close>

fun demand_priority_tag :: "sl1_demand_priority \<Rightarrow> u8" where
  "demand_priority_tag PriLow = 1"
| "demand_priority_tag PriNormal = 2"
| "demand_priority_tag PriHigh = 3"
| "demand_priority_tag PriCritical = 4"

fun failure_policy_tag :: "sl1_failure_policy \<Rightarrow> u8" where
  "failure_policy_tag RetryThenWarn = 1"
| "failure_policy_tag DropPolicy = 2"

fun link_direction_tag :: "sl1_link_direction \<Rightarrow> u8" where
  "link_direction_tag Forward = 1"
| "link_direction_tag Bidirectional = 2"

fun link_backpressure_tag :: "sl1_link_backpressure \<Rightarrow> u8" where
  "link_backpressure_tag BlockUpstream = 1"
| "link_backpressure_tag DropLowPriority = 2"
| "link_backpressure_tag SpillToBuffer = 3"
| "link_backpressure_tag DegradeQuality = 4"

fun pressure_kind_tag :: "sl1_pressure_kind \<Rightarrow> u8" where
  "pressure_kind_tag KSourceMultiplier = 1"
| "pressure_kind_tag KDemandGrowth = 2"
| "pressure_kind_tag KQuotaReduction = 3"
| "pressure_kind_tag KPathOutage = 4"
| "pressure_kind_tag KSchemaDrift = 5"
| "pressure_kind_tag KDashboardStorm = 6"
| "pressure_kind_tag KSpotEvictionWave = 7"
| "pressure_kind_tag KStorageMetadataStorm = 8"
| "pressure_kind_tag KCoolingDegradation = 9"

fun objective_kind_tag :: "sl1_objective_kind \<Rightarrow> u8" where
  "objective_kind_tag OKeepFresh = 1"
| "objective_kind_tag OCompleteJobs = 2"
| "objective_kind_tag OMaintainUtilization = 3"
| "objective_kind_tag OCostBudget = 4"
| "objective_kind_tag ODataQuality = 5"
| "objective_kind_tag OQueryLatency = 6"

fun failure_condition_kind_tag :: "sl1_failure_condition_kind \<Rightarrow> u8" where
  "failure_condition_kind_tag FStaleTarget = 1"
| "failure_condition_kind_tag FPlaceState = 2"
| "failure_condition_kind_tag FObjectiveBreachCount = 3"

fun victory_condition_kind_tag :: "sl1_victory_condition_kind \<Rightarrow> u8" where
  "victory_condition_kind_tag VSurviveUntil = 1"

section \<open>Places, links, things\<close>

fun feed_predicate :: "sl1_operating_predicate \<Rightarrow> bytes" where
  "feed_predicate (UsedPercentGte metric threshold) = 1 # feed_str metric @ [threshold]"
| "feed_predicate (OverloadedTicksGt ticks) = 2 # le64 ticks"

definition feed_storage_slot :: "sl1_storage_slot \<Rightarrow> bytes" where
  "feed_storage_slot s = le64 (slot_capacity s) @ le64 (slot_initial s)"

definition feed_operating_state :: "sl1_operating_state \<Rightarrow> bytes" where
  "feed_operating_state s = feed_predicate (os_predicate s) @ feed_opt le64 (os_grace_ticks s)"

definition feed_place :: "sl1_place \<Rightarrow> bytes" where
  "feed_place p = as_bytes ''sl1.place.v1'' @ feed_str (place_id p) @ feed_str (place_role p)
     @ le32 (fst (place_pos p)) @ le32 (snd (place_pos p))
     @ feed_opt feed_str (place_shape p) @ feed_opt le32 (place_color p)
     @ feed_map feed_str le64 (place_capacity p) @ feed_map feed_str feed_storage_slot (place_storage p)
     @ feed_str_list (place_accepts p) @ feed_str_list (place_produces p)
     @ feed_str_list (place_failure_domains p)
     @ feed_map feed_str feed_operating_state (place_operating_states p)"

definition feed_link_render :: "sl1_link_render_hint \<Rightarrow> bytes" where
  "feed_link_render r = feed_str (lrh_style r) @ feed_opt le32 (lrh_color r)"

definition feed_link :: "sl1_link \<Rightarrow> bytes" where
  "feed_link l = as_bytes ''sl1.link.v1'' @ feed_str (link_id l) @ feed_str (link_type l)
     @ feed_str (link_from l) @ feed_str (link_to l) @ [link_direction_tag (link_direction l)]
     @ feed_map feed_str le64 (link_capacity l) @ le64 (link_travel_ticks l)
     @ feed_str_list (link_compatibility l) @ le64 (link_queue_capacity l)
     @ [link_backpressure_tag (link_backpressure l)] @ feed_opt feed_link_render (link_render l)"

text \<open>\<open>==\<close> on \<open>f64\<close>; the two zeros are written as one.\<close>

definition f64_eq :: "f64_bits \<Rightarrow> f64_bits \<Rightarrow> bool" where
  "f64_eq a b \<longleftrightarrow> \<not> f64_is_nan a \<and> \<not> f64_is_nan b \<and> f64_key a = f64_key b"

definition canonical :: "f64_bits \<Rightarrow> f64_bits" where
  "canonical v = (if f64_eq v f64_zero then f64_zero else v)"

definition feed_quality_contract :: "sl1_thing_quality_contract \<Rightarrow> bytes" where
  "feed_quality_contract qc = feed_opt (\<lambda>v. le64 (canonical v)) (qc_max_drop_percent qc)
     @ feed_opt le64 (qc_max_late_ticks qc) @ feed_str_list (qc_required_fields qc)"

definition feed_thing_render :: "sl1_thing_render_hint \<Rightarrow> bytes" where
  "feed_thing_render r = feed_str (trh_glyph r) @ feed_opt le32 (trh_color r)"

definition feed_thing :: "sl1_thing \<Rightarrow> bytes" where
  "feed_thing t = as_bytes ''sl1.thing.v1'' @ feed_str (thing_id t) @ feed_str (thing_kind t)
     @ feed_str_list (thing_tags t) @ feed_opt le32 (thing_schema_version t)
     @ feed_opt le64 (thing_freshness_budget_ticks t)
     @ feed_opt feed_quality_contract (thing_quality_contract t)
     @ feed_opt feed_thing_render (thing_render t)"

section \<open>Transforms, demand, pressure\<close>

definition feed_io :: "sl1_transform_io \<Rightarrow> bytes" where
  "feed_io i = feed_str (io_thing_id i) @ le64 (io_amount i)"

definition feed_transform :: "sl1_transform \<Rightarrow> bytes" where
  "feed_transform t = as_bytes ''sl1.transform.v1'' @ feed_str (transform_id t)
     @ feed_str (transform_kind t) @ feed_str (transform_runs_on t)
     @ feed_list feed_io (transform_inputs t) @ feed_list feed_io (transform_outputs t)
     @ le64 (transform_cadence_ticks t) @ le64 (transform_duration_ticks t)
     @ le64 (transform_deadline_ticks t) @ feed_map feed_str le64 (transform_capacity_cost t)
     @ [failure_policy_tag (transform_failure_policy t)] @ le32 (transform_max_attempts t)"

fun feed_demand_target :: "sl1_demand_target \<Rightarrow> bytes" where
  "feed_demand_target (TargetPlace p) = 1 # feed_str p"

fun feed_demand_schedule :: "sl1_demand_schedule \<Rightarrow> bytes" where
  "feed_demand_schedule (Fixed every start) = 1 # le64 every @ le64 start"
| "feed_demand_schedule (Scripted ticks) = 2 # feed_list le64 ticks"

definition feed_demand :: "sl1_demand \<Rightarrow> bytes" where
  "feed_demand d = as_bytes ''sl1.demand.v1'' @ feed_str (demand_id d) @ feed_str (demand_kind d)
     @ feed_demand_target (demand_target d) @ feed_list feed_str (demand_requires d)
     @ feed_demand_schedule (demand_spawn_schedule d) @ le64 (demand_deadline_ticks d)
     @ [demand_priority_tag (demand_priority d)] @ le64 (demand_value d)
     @ le_i64 (penalty_score (demand_penalty d)) @ feed_opt feed_str (penalty_warning (demand_penalty d))"

fun feed_pressure_params :: "sl1_pressure_params \<Rightarrow> bytes" where
  "feed_pressure_params (SourceMultiplier thing milli) = 1 # feed_str thing @ le64 milli"
| "feed_pressure_params (DemandGrowth m) = 2 # le32 m"
| "feed_pressure_params (QuotaReduction cap percent) = 3 # feed_str cap @ [percent]"
| "feed_pressure_params PathOutage = [4]"
| "feed_pressure_params PressureUnsupported = [5]"

definition feed_pressure :: "sl1_pressure \<Rightarrow> bytes" where
  "feed_pressure p = as_bytes ''sl1.pressure.v1'' @ feed_str (pressure_id p)
     @ [pressure_kind_tag (pressure_kind p)] @ le64 (pressure_at_tick p)
     @ le64 (pressure_duration_ticks p) @ feed_str (pressure_target p)
     @ feed_pressure_params (pressure_params p)"

section \<open>Objectives and conditions\<close>

fun feed_objective_params :: "sl1_objective_params \<Rightarrow> bytes" where
  "feed_objective_params (KeepFresh pl th mx) = 1 # feed_str pl @ feed_str th @ le64 mx"
| "feed_objective_params (CompleteJobsBeforeDeadline d mx) = 2 # feed_str d @ le64 mx"
| "feed_objective_params (MaintainUtilization pl cap lo hi) =
     3 # feed_str pl @ feed_str cap @ [lo] @ [hi]"
| "feed_objective_params ObjectiveUnsupported = [4]"

definition feed_objective :: "sl1_objective \<Rightarrow> bytes" where
  "feed_objective ob = as_bytes ''sl1.objective.v1'' @ feed_str (objective_id ob)
     @ [objective_kind_tag (objective_kind ob)] @ le32 (objective_weight ob)
     @ feed_objective_params (objective_params ob)"

fun feed_failure_condition_params :: "sl1_failure_condition_params \<Rightarrow> bytes" where
  "feed_failure_condition_params (StaleTarget pl th ticks grace) =
     1 # feed_str pl @ feed_str th @ le64 ticks @ le64 grace"
| "feed_failure_condition_params (PlaceState pl st grace) = 2 # feed_str pl @ feed_str st @ le64 grace"
| "feed_failure_condition_params (ObjectiveBreachCount ob mx) = 3 # feed_str ob @ le64 mx"

definition feed_failure_condition :: "sl1_failure_condition \<Rightarrow> bytes" where
  "feed_failure_condition fc = as_bytes ''sl1.failure_condition.v1'' @ feed_str (fc_id fc)
     @ [failure_condition_kind_tag (fc_kind fc)] @ feed_failure_condition_params (fc_params fc)"

fun feed_victory_condition_params :: "sl1_victory_condition_params \<Rightarrow> bytes" where
  "feed_victory_condition_params (SurviveUntil tick) = 1 # le64 tick"

definition feed_victory_condition :: "sl1_victory_condition \<Rightarrow> bytes" where
  "feed_victory_condition vc = as_bytes ''sl1.victory_condition.v1'' @ feed_str (vc_id vc)
     @ [victory_condition_kind_tag (vc_kind vc)] @ feed_victory_condition_params (vc_params vc)"

section \<open>Observability\<close>

fun metric_kind_str :: "sl1_metric_source \<Rightarrow> string" where
  "metric_kind_str (PlaceCapacityUsedPercent _ _) = ''place_capacity_used_percent''"
| "metric_kind_str (PlaceInventoryCount _ _) = ''place_inventory_count''"
| "metric_kind_str (DashboardFreshness _) = ''dashboard_freshness''"

fun dashboard_kind_str :: "sl1_dashboard_kind \<Rightarrow> string" where
  "dashboard_kind_str DReport = ''report''"
| "dashboard_kind_str DLive = ''live''"
| "dashboard_kind_str DAdHoc = ''ad_hoc''"

definition feed_metric_source :: "sl1_metric_source \<Rightarrow> bytes" where
  "feed_metric_source s = as_bytes (metric_kind_str s) @ (case s of
       PlaceCapacityUsedPercent pl cap \<Rightarrow> feed_str pl @ feed_str cap
     | PlaceInventoryCount pl th \<Rightarrow> feed_str pl @ feed_str th
     | DashboardFreshness d \<Rightarrow> feed_str d)"

definition feed_metric :: "sl1_metric \<Rightarrow> bytes" where
  "feed_metric m = feed_str (metric_id m) @ feed_metric_source (metric_source m)"

definition feed_dashboard :: "sl1_dashboard \<Rightarrow> bytes" where
  "feed_dashboard d = feed_str (dashboard_id d) @ as_bytes (dashboard_kind_str (dashboard_kind d))
     @ feed_list feed_str (dashboard_depends_on d) @ le64 (dashboard_freshness_slo_ticks d)"

fun feed_alert_predicate :: "sl1_alert_predicate \<Rightarrow> bytes" where
  "feed_alert_predicate (AlertGt t) = 1 # le64 t"
| "feed_alert_predicate (AlertLt t) = 2 # le64 t"
| "feed_alert_predicate (OutOfRange lo hi) = 3 # le64 lo @ le64 hi"

definition feed_alert :: "sl1_alert \<Rightarrow> bytes" where
  "feed_alert a = feed_str (alert_id a) @ feed_str (alert_metric a)
     @ feed_alert_predicate (alert_predicate a) @ as_bytes (severity_str (alert_severity a))"

definition feed_tagged :: "string \<Rightarrow> ('a \<Rightarrow> bytes) \<Rightarrow> 'a list \<Rightarrow> bytes" where
  "feed_tagged t f xs = (if xs = [] then [] else as_bytes t @ feed_list f xs)"

definition feed_observability :: "sl1_observability \<Rightarrow> bytes" where
  "feed_observability obs =
     feed_tagged ''sl1.observability.metrics.v1'' feed_metric (obs_metrics obs)
     @ feed_tagged ''sl1.observability.dashboards.v1'' feed_dashboard (obs_dashboards obs)
     @ feed_tagged ''sl1.observability.alerts.v1'' feed_alert (obs_alerts obs)"

section \<open>Agents and milestones\<close>

fun agent_kind_str :: "sl1_agent_kind \<Rightarrow> string" where
  "agent_kind_str AMock = ''mock''"
| "agent_kind_str ABuiltin = ''builtin''"
| "agent_kind_str ALlm = ''llm''"

definition feed_target :: "sl1_agent_observation_target \<Rightarrow> bytes" where
  "feed_target t = as_bytes (obs_kind_str t) @ feed_str (obs_id t)"

definition feed_agent :: "sl1_agent \<Rightarrow> bytes" where
  "feed_agent a = as_bytes ''sl1.agent.v1'' @ feed_str (agent_id a)
     @ as_bytes (agent_kind_str (agent_kind a)) @ feed_str (agent_role a)
     @ le64 (agent_interval_ticks a) @ feed_list feed_target (agent_observation_scope a)
     @ feed_list (\<lambda>k. as_bytes (action_kind_str k)) (agent_allowed_actions a)
     @ le64 (agent_max_cost_per_decision a) @ le64 (agent_cooldown_ticks a)
     @ feed_map feed_str le64 (agent_objective_weights a)"

fun feed_trigger :: "sl1_milestone_trigger \<Rightarrow> bytes" where
  "feed_trigger (PressureActivated p) = 1 # feed_str p"
| "feed_trigger (PressureDeactivated p) = 2 # feed_str p"
| "feed_trigger (MetricThreshold m pred v) =
     3 # feed_str m @ as_bytes (predicate_str pred) @ le_i64 v"
| "feed_trigger (DashboardStateTrigger d st) = 4 # feed_str d @ as_bytes (dashboard_state_str st)"

definition feed_milestone :: "sl1_milestone \<Rightarrow> bytes" where
  "feed_milestone m = as_bytes ''sl1.milestone.v1'' @ feed_str (milestone_id m)
     @ feed_str (milestone_label m) @ feed_trigger (milestone_trigger m)
     @ feed_str_list (milestone_camera_focus m) @ feed_opt feed_str (milestone_highlight m)"

section \<open>The static half\<close>

definition feed_counts :: "sl1_scene \<Rightarrow> bytes" where
  "feed_counts sc = feed_len (length (sc_places sc)) @ feed_len (length (sc_links sc))
     @ feed_len (length (sc_things sc)) @ feed_len (length (sc_transforms sc))
     @ feed_len (length (sc_demand sc)) @ feed_len (length (sc_pressure sc))
     @ feed_len (length (sc_objectives sc)) @ feed_len (length (sc_failure_conditions sc))
     @ feed_len (length (sc_agents sc)) @ feed_len (length (sc_milestones sc))
     @ feed_bool (sc_observability sc \<noteq> None)"

text \<open>
  A loop over an empty section writes nothing, whether or not the code guards it; the agents
  and the milestones also have a tag of their own, which is guarded.
\<close>

definition feed_scene :: "sl1_scene \<Rightarrow> bytes" where
  "feed_scene sc = as_bytes ''sl1.v1'' @ le32 (sc_schema_version sc) @ feed_counts sc
     @ feed_all feed_place (sc_places sc) @ feed_all feed_link (sc_links sc)
     @ feed_all feed_thing (sc_things sc) @ feed_all feed_transform (sc_transforms sc)
     @ feed_all feed_demand (sc_demand sc) @ feed_all feed_pressure (sc_pressure sc)
     @ feed_all feed_objective (sc_objectives sc)
     @ feed_all feed_failure_condition (sc_failure_conditions sc)
     @ feed_all feed_victory_condition (sc_victory_conditions sc)
     @ (case sc_observability sc of None \<Rightarrow> [] | Some obs \<Rightarrow> feed_observability obs)
     @ (if sc_agents sc = [] then []
        else as_bytes ''sl1.agents.v1'' @ feed_all feed_agent (sc_agents sc))
     @ (if sc_milestones sc = [] then []
        else as_bytes ''sl1.milestones.v1'' @ feed_all feed_milestone (sc_milestones sc))"

end
