(* ===== verification/Hash_Scene_Proofs.thy ===== *)
theory Hash_Scene_Proofs
  imports Hash_Scene
begin

text \<open>The fingerprints of the sections of a scene can be read back.\<close>

section \<open>Places, links, things\<close>

lemma scene_tag_inject [simp]:
  "demand_priority_tag d1 = demand_priority_tag d2 \<longleftrightarrow> d1 = d2"
  "failure_policy_tag f1 = failure_policy_tag f2 \<longleftrightarrow> f1 = f2"
  "link_direction_tag l1 = link_direction_tag l2 \<longleftrightarrow> l1 = l2"
  "link_backpressure_tag b1 = link_backpressure_tag b2 \<longleftrightarrow> b1 = b2"
  "pressure_kind_tag p1 = pressure_kind_tag p2 \<longleftrightarrow> p1 = p2"
  "objective_kind_tag o1 = objective_kind_tag o2 \<longleftrightarrow> o1 = o2"
  "failure_condition_kind_tag c1 = failure_condition_kind_tag c2 \<longleftrightarrow> c1 = c2"
  "victory_condition_kind_tag v1 = victory_condition_kind_tag v2 \<longleftrightarrow> v1 = v2"
         apply (cases d1; cases d2; simp)
        apply (cases f1; cases f2; simp)
       apply (cases l1; cases l2; simp)
      apply (cases b1; cases b2; simp)
     apply (cases p1; cases p2; simp)
    apply (cases o1; cases o2; simp)
   apply (cases c1; cases c2; simp)
  apply (cases v1; cases v2; simp)
  done

lemma text_nonempty [simp]: "as_bytes t = [] \<longleftrightarrow> t = []" "feed_str t \<noteq> []"
  by (simp_all add: as_bytes_def str.nonempty)

lemma code_predicate: "code feed_predicate (\<lambda>_. True)"
proof
  show "feed_predicate p \<noteq> []" for p by (cases p) simp_all
next
  fix a b xs ys
  assume "feed_predicate a @ xs = feed_predicate b @ ys"
    and "length (feed_predicate a) < 2 ^ 64" "length (feed_predicate b) < 2 ^ 64"
  then show "a = b \<and> xs = ys" by (cases a; cases b; simp add: code_splits)
qed

lemma code_slot: "code feed_storage_slot (\<lambda>_. True)"
  by unfold_locales (auto simp: feed_storage_slot_def word64.nonempty)

lemma code_op_state: "code feed_operating_state (\<lambda>_. True)"
  by unfold_locales (auto simp: feed_operating_state_def code_splits code.split [OF code_predicate] code.nonempty [OF code_predicate])

lemma code_amount_map: "code (feed_map feed_str le64) (\<lambda>_. True)"
  by (intro code_map_all code_str word64.code_axioms)

lemmas place_splits = code_splits code.split [OF code_amount_map]
  code.split [OF code_map_all [OF code_str code_slot]]
  code.split [OF code_map_all [OF code_str code_op_state]]

lemma code_place: "code feed_place (\<lambda>_. True)"
proof
  fix a b xs ys
  assume "feed_place a @ xs = feed_place b @ ys"
    and "length (feed_place a) < 2 ^ 64" "length (feed_place b) < 2 ^ 64"
  then show "a = b \<and> xs = ys" by (simp add: feed_place_def place_splits prod_eq_iff)
qed (simp add: feed_place_def)

lemma code_link_render: "code feed_link_render (\<lambda>_. True)"
  by unfold_locales (auto simp: feed_link_render_def code_splits str.nonempty)

lemma code_link: "code feed_link (\<lambda>_. True)"
proof
  fix a b xs ys
  assume "feed_link a @ xs = feed_link b @ ys"
    and "length (feed_link a) < 2 ^ 64" "length (feed_link b) < 2 ^ 64"
  then show "a = b \<and> xs = ys"
    by (simp add: feed_link_def place_splits code.split [OF code_opt_all [OF code_link_render]])
qed (simp add: feed_link_def)

text \<open>A thing is determined up to the sign of a zero percentage.\<close>

definition canonical_contract :: "sl1_thing_quality_contract \<Rightarrow> bool" where
  "canonical_contract qc \<longleftrightarrow> pred_option (\<lambda>v. canonical v = v) (qc_max_drop_percent qc)"

definition canonical_thing :: "sl1_thing \<Rightarrow> bool" where
  "canonical_thing t \<longleftrightarrow> pred_option canonical_contract (thing_quality_contract t)"

lemma code_percent: "code (\<lambda>v. le64 (canonical v)) (\<lambda>v. canonical v = v)"
  by unfold_locales (auto simp: word64.nonempty)

lemma code_contract: "code feed_quality_contract canonical_contract"
  by unfold_locales (auto simp: feed_quality_contract_def canonical_contract_def code_splits
      code.split [OF code.opt_code [OF code_percent]] strs.nonempty)

lemma code_thing_render: "code feed_thing_render (\<lambda>_. True)"
  by unfold_locales (auto simp: feed_thing_render_def code_splits)

lemma code_thing: "code feed_thing canonical_thing"
proof
  fix a b xs ys
  assume "feed_thing a @ xs = feed_thing b @ ys" "canonical_thing a" "canonical_thing b"
    and "length (feed_thing a) < 2 ^ 64" "length (feed_thing b) < 2 ^ 64"
  then show "a = b \<and> xs = ys"
    by (simp add: feed_thing_def canonical_thing_def code_splits code.split [OF code.opt_code [OF code_contract]]
        code.split [OF code_opt_all [OF code_thing_render]])
qed (simp add: feed_thing_def)

section \<open>Transforms, demand, pressure\<close>

lemma code_io: "code feed_io (\<lambda>_. True)"
  by unfold_locales (auto simp: feed_io_def code_splits)

lemma code_transform: "code feed_transform (\<lambda>_. True)"
proof
  fix a b xs ys
  assume "feed_transform a @ xs = feed_transform b @ ys"
    and "length (feed_transform a) < 2 ^ 64" "length (feed_transform b) < 2 ^ 64"
  then show "a = b \<and> xs = ys"
    by (simp add: feed_transform_def place_splits code.split [OF code_list_all [OF code_io]])
qed (simp add: feed_transform_def)

lemma code_schedule: "code feed_demand_schedule (\<lambda>_. True)"
proof
  show "feed_demand_schedule s \<noteq> []" for s by (cases s) simp_all
next
  fix a b xs ys
  assume "feed_demand_schedule a @ xs = feed_demand_schedule b @ ys"
    and "length (feed_demand_schedule a) < 2 ^ 64" "length (feed_demand_schedule b) < 2 ^ 64"
  then show "a = b \<and> xs = ys"
    by (cases a; cases b; simp add: code.split [OF code_list_all [OF word64.code_axioms]])
qed

lemma code_target: "code feed_demand_target (\<lambda>_. True)"
proof
  show "feed_demand_target t \<noteq> []" for t by (cases t) simp
next
  fix a b xs ys
  assume "feed_demand_target a @ xs = feed_demand_target b @ ys"
    and "length (feed_demand_target a) < 2 ^ 64" "length (feed_demand_target b) < 2 ^ 64"
  then show "a = b \<and> xs = ys" by (cases a; cases b; simp add: code_splits)
qed

definition typed_demand :: "sl1_demand \<Rightarrow> bool" where
  "typed_demand d \<longleftrightarrow> in_i64 (penalty_score (demand_penalty d))"

lemma code_demand: "code feed_demand typed_demand"
proof
  fix a b xs ys
  assume "feed_demand a @ xs = feed_demand b @ ys" "typed_demand a" "typed_demand b"
    and "length (feed_demand a) < 2 ^ 64" "length (feed_demand b) < 2 ^ 64"
  then show "a = b \<and> xs = ys"
    by (simp add: feed_demand_def typed_demand_def le_i64_inject code_splits code.split [OF code_target]
        code.split [OF code_schedule] code.split [OF code_list_all [OF code_str]])
qed (simp add: feed_demand_def)

lemma code_pressure_params: "code feed_pressure_params (\<lambda>_. True)"
proof
  show "feed_pressure_params p \<noteq> []" for p by (cases p) simp_all
next
  fix a b xs ys
  assume "feed_pressure_params a @ xs = feed_pressure_params b @ ys"
    and "length (feed_pressure_params a) < 2 ^ 64" "length (feed_pressure_params b) < 2 ^ 64"
  then show "a = b \<and> xs = ys" by (cases a; cases b; simp add: code_splits)
qed

lemma code_pressure: "code feed_pressure (\<lambda>_. True)"
proof
  fix a b xs ys
  assume "feed_pressure a @ xs = feed_pressure b @ ys"
    and "length (feed_pressure a) < 2 ^ 64" "length (feed_pressure b) < 2 ^ 64"
  then show "a = b \<and> xs = ys"
    by (simp add: feed_pressure_def code_splits code.split [OF code_pressure_params])
qed (simp add: feed_pressure_def)

section \<open>Objectives and failure conditions\<close>

lemma code_objective_params: "code feed_objective_params (\<lambda>_. True)"
proof
  show "feed_objective_params p \<noteq> []" for p by (cases p) simp_all
next
  fix a b xs ys
  assume "feed_objective_params a @ xs = feed_objective_params b @ ys"
    and "length (feed_objective_params a) < 2 ^ 64" "length (feed_objective_params b) < 2 ^ 64"
  then show "a = b \<and> xs = ys" by (cases a; cases b; simp add: code_splits)
qed

lemma code_objective: "code feed_objective (\<lambda>_. True)"
proof
  fix a b xs ys
  assume "feed_objective a @ xs = feed_objective b @ ys"
    and "length (feed_objective a) < 2 ^ 64" "length (feed_objective b) < 2 ^ 64"
  then show "a = b \<and> xs = ys"
    by (simp add: feed_objective_def code_splits code.split [OF code_objective_params])
qed (simp add: feed_objective_def)

lemma code_failure_params: "code feed_failure_condition_params (\<lambda>_. True)"
proof
  show "feed_failure_condition_params p \<noteq> []" for p by (cases p) simp_all
next
  fix a b xs ys
  assume "feed_failure_condition_params a @ xs = feed_failure_condition_params b @ ys"
    and "length (feed_failure_condition_params a) < 2 ^ 64" "length (feed_failure_condition_params b) < 2 ^ 64"
  then show "a = b \<and> xs = ys" by (cases a; cases b; simp add: code_splits)
qed

lemma code_failure: "code feed_failure_condition (\<lambda>_. True)"
proof
  fix a b xs ys
  assume "feed_failure_condition a @ xs = feed_failure_condition b @ ys"
    and "length (feed_failure_condition a) < 2 ^ 64" "length (feed_failure_condition b) < 2 ^ 64"
  then show "a = b \<and> xs = ys"
    by (simp add: feed_failure_condition_def code_splits code.split [OF code_failure_params])
qed (simp add: feed_failure_condition_def)

section \<open>The sections of a scene\<close>

text \<open>A counted section: equal counts, then equal elements.\<close>

lemma section_readable:
  assumes c: "code f P" and n: "feed_len (length as) = feed_len (length bs)"
    and eq: "feed_all f as @ xs = feed_all f bs @ ys" and ok: "list_all P as" "list_all P bs"
    and l: "length (feed_all f as) < 2 ^ 64" "length (feed_all f bs) < 2 ^ 64"
  shows "as = bs \<and> xs = ys"
proof -
  have "length as < 2 ^ 64" "length bs < 2 ^ 64"
    using code.length_feed_all [OF c, of as] code.length_feed_all [OF c, of bs] l by simp_all
  with n have "length as = length bs" by (simp add: feed_len_inject)
  with eq show ?thesis by (rule code.feed_all_unique [OF c]) (use ok l in simp_all)
qed

definition same_sections :: "sl1_scene \<Rightarrow> sl1_scene \<Rightarrow> bool" where
  "same_sections sc sc' \<longleftrightarrow> sc_schema_version sc = sc_schema_version sc'
     \<and> sc_places sc = sc_places sc' \<and> sc_links sc = sc_links sc' \<and> sc_things sc = sc_things sc'
     \<and> sc_transforms sc = sc_transforms sc' \<and> sc_demand sc = sc_demand sc'
     \<and> sc_pressure sc = sc_pressure sc' \<and> sc_objectives sc = sc_objectives sc'
     \<and> sc_failure_conditions sc = sc_failure_conditions sc'"

definition scene_typed :: "sl1_scene \<Rightarrow> bool" where
  "scene_typed sc \<longleftrightarrow> list_all canonical_thing (sc_things sc) \<and> list_all typed_demand (sc_demand sc)"

lemma scene_lengths:
  assumes "length (feed_scene sc) < 2 ^ 64"
  shows "length (feed_all feed_place (sc_places sc)) < 2 ^ 64"
    and "length (feed_all feed_link (sc_links sc)) < 2 ^ 64"
    and "length (feed_all feed_thing (sc_things sc)) < 2 ^ 64"
    and "length (feed_all feed_transform (sc_transforms sc)) < 2 ^ 64"
    and "length (feed_all feed_demand (sc_demand sc)) < 2 ^ 64"
    and "length (feed_all feed_pressure (sc_pressure sc)) < 2 ^ 64"
    and "length (feed_all feed_objective (sc_objectives sc)) < 2 ^ 64"
    and "length (feed_all feed_failure_condition (sc_failure_conditions sc)) < 2 ^ 64"
  using assms by (simp_all add: feed_scene_def)

lemma feed_len_split [simp]: "feed_len m @ xs = feed_len n @ ys \<longleftrightarrow> feed_len m = feed_len n \<and> xs = ys"
  by simp

lemma scene_readable:
  assumes eq: "feed_scene sc @ xs = feed_scene sc' @ ys" and ty: "scene_typed sc" "scene_typed sc'"
    and l: "length (feed_scene sc) < 2 ^ 64" "length (feed_scene sc') < 2 ^ 64"
  shows "same_sections sc sc'"
proof -
  note ls = scene_lengths [OF l(1)] and ls' = scene_lengths [OF l(2)]
  have th: "list_all canonical_thing (sc_things sc)" "list_all canonical_thing (sc_things sc')"
    and de: "list_all typed_demand (sc_demand sc)" "list_all typed_demand (sc_demand sc')"
    using ty by (simp_all add: scene_typed_def)
  have all: "list_all (\<lambda>_. True) vs" for vs :: "'v list" by (simp add: list_all_iff)
  have n: "sc_schema_version sc = sc_schema_version sc'"
    "feed_len (length (sc_places sc)) = feed_len (length (sc_places sc'))"
    "feed_len (length (sc_links sc)) = feed_len (length (sc_links sc'))"
    "feed_len (length (sc_things sc)) = feed_len (length (sc_things sc'))"
    "feed_len (length (sc_transforms sc)) = feed_len (length (sc_transforms sc'))"
    "feed_len (length (sc_demand sc)) = feed_len (length (sc_demand sc'))"
    "feed_len (length (sc_pressure sc)) = feed_len (length (sc_pressure sc'))"
    "feed_len (length (sc_objectives sc)) = feed_len (length (sc_objectives sc'))"
    "feed_len (length (sc_failure_conditions sc)) = feed_len (length (sc_failure_conditions sc'))"
    using eq unfolding feed_scene_def feed_counts_def by simp_all
  obtain z z' where "feed_all feed_place (sc_places sc) @ feed_all feed_link (sc_links sc)
      @ feed_all feed_thing (sc_things sc) @ feed_all feed_transform (sc_transforms sc)
      @ feed_all feed_demand (sc_demand sc) @ feed_all feed_pressure (sc_pressure sc)
      @ feed_all feed_objective (sc_objectives sc)
      @ feed_all feed_failure_condition (sc_failure_conditions sc) @ z
    = feed_all feed_place (sc_places sc') @ feed_all feed_link (sc_links sc')
      @ feed_all feed_thing (sc_things sc') @ feed_all feed_transform (sc_transforms sc')
      @ feed_all feed_demand (sc_demand sc') @ feed_all feed_pressure (sc_pressure sc')
      @ feed_all feed_objective (sc_objectives sc')
      @ feed_all feed_failure_condition (sc_failure_conditions sc') @ z'"
    using eq unfolding feed_scene_def feed_counts_def by simp blast
  note 1 = section_readable [OF code_place n(2) this all all ls(1) ls'(1)]
  note 2 = section_readable [OF code_link n(3) conjunct2 [OF 1] all all ls(2) ls'(2)]
  note 3 = section_readable [OF code_thing n(4) conjunct2 [OF 2] th(1,2) ls(3) ls'(3)]
  note 4 = section_readable [OF code_transform n(5) conjunct2 [OF 3] all all ls(4) ls'(4)]
  note 5 = section_readable [OF code_demand n(6) conjunct2 [OF 4] de(1,2) ls(5) ls'(5)]
  note 6 = section_readable [OF code_pressure n(7) conjunct2 [OF 5] all all ls(6) ls'(6)]
  note 7 = section_readable [OF code_objective n(8) conjunct2 [OF 6] all all ls(7) ls'(7)]
  note 8 = section_readable [OF code_failure n(9) conjunct2 [OF 7] all all ls(8) ls'(8)]
  show ?thesis unfolding same_sections_def using n(1) 1 2 3 4 5 6 7 8 by blast
qed

end
