(* ===== verification/Hash_World.thy ===== *)
theory Hash_World
  imports Hash_Messages Hash_Scene Tick
begin

text \<open>
  The state hash of a world and of a run (\<open>state_hash.rs\<close>): the runtime half of \<open>feed_sl1\<close>,
  \<open>feed_world\<close>, \<open>hash_world\<close>, \<open>hash_run\<close>. The digest is a parameter.
\<close>

section \<open>Runtime values\<close>

fun feed_freshness_state :: "freshness_state \<Rightarrow> bytes" where
  "feed_freshness_state FNoData = [1]"
| "feed_freshness_state (FOk tick) = 2 # le64 tick"
| "feed_freshness_state (FStale tick) = 3 # le64 tick"
| "feed_freshness_state FDegraded = [4]"
| "feed_freshness_state FInvalid = [5]"

fun feed_transform_state :: "sl1_transform_state \<Rightarrow> bytes" where
  "feed_transform_state TIdle = [0]"
| "feed_transform_state (TRunning at started attempt) = 1 # le64 at @ le64 started @ le32 attempt"
| "feed_transform_state (TStarved at since attempts) = 2 # le64 at @ le64 since @ le32 attempts"
| "feed_transform_state (TBlocked at since attempts) = 3 # le64 at @ le64 since @ le32 attempts"
| "feed_transform_state (TLate at attempt since) = 4 # le64 at @ le32 attempt @ le64 since"

fun objective_status_tag :: "sl1_objective_status \<Rightarrow> u8" where
  "objective_status_tag StUnknown = 0"
| "objective_status_tag StMet = 1"
| "objective_status_tag StBreached = 2"
| "objective_status_tag StUnsupported = 3"

definition feed_instance :: "sl1_demand_instance \<Rightarrow> bytes" where
  "feed_instance i = le64 (di_sequence i) @ le64 (di_spawned_at i) @ le64 (di_deadline_tick i)"

definition feed_demand_runtime :: "sl1_demand_runtime \<Rightarrow> bytes" where
  "feed_demand_runtime d = le64 (next_sequence d) @ le64 (fulfilled_count d) @ le64 (dropped_count d)
     @ feed_len (scripted_cursor d) @ feed_bool (overflow d) @ feed_list feed_instance (pending d)"

definition feed_objective_runtime :: "sl1_objective_runtime \<Rightarrow> bytes" where
  "feed_objective_runtime s = [objective_status_tag (ob_status s)] @ le64 (ob_breach_tick_count s)
     @ le64 (ob_last_change_tick s)"

definition feed_failure_runtime :: "sl1_failure_condition_runtime \<Rightarrow> bytes" where
  "feed_failure_runtime s = le64 (breach_streak_ticks s) @ feed_opt le64 (fc_fired_at_tick s)"

definition feed_victory_runtime :: "sl1_victory_condition_runtime \<Rightarrow> bytes" where
  "feed_victory_runtime s = feed_opt le64 (met_at_tick s)"

fun phase_str :: "sl1_game_phase \<Rightarrow> string" where
  "phase_str PhStabilizing = ''stabilizing''"
| "phase_str PhWinning = ''winning''"
| "phase_str PhLosing = ''losing''"
| "phase_str PhSpiraling = ''spiraling''"
| "phase_str PhWon = ''won''"
| "phase_str PhLost = ''lost''"

definition feed_outcome :: "game_outcome \<Rightarrow> bytes" where
  "feed_outcome g = as_bytes (outcome_str g)
     @ (case g of Lost reason \<Rightarrow> 1 # feed_str reason | _ \<Rightarrow> [0])"

fun feed_metric_state :: "sl1_metric_state \<Rightarrow> bytes" where
  "feed_metric_state (MetricOk v) = 1 # le64 v"
| "feed_metric_state MetricNoData = [0]"

fun feed_dashboard_state :: "sl1_dashboard_state \<Rightarrow> bytes" where
  "feed_dashboard_state DashOk = [1]"
| "feed_dashboard_state (DashStale ticks) = 2 # le64 ticks"
| "feed_dashboard_state DashNoData = [0]"

fun feed_alert_state :: "sl1_alert_state \<Rightarrow> bytes" where
  "feed_alert_state AlertInactive = [0]"
| "feed_alert_state (AlertFiring tick) = 1 # le64 tick"

definition feed_agent_runtime :: "sl1_agent_runtime \<Rightarrow> bytes" where
  "feed_agent_runtime s = feed_opt le64 (last_decision_tick s) @ feed_opt le64 (cooldown_until_tick s)
     @ feed_bool (llm_disabled_emitted s)"

definition feed_milestone_runtime :: "sl1_milestone_runtime \<Rightarrow> bytes" where
  "feed_milestone_runtime s = feed_opt le64 (ms_fired_at_tick s) @ feed_bool (ms_armed s)"

section \<open>The runtime half of a scene\<close>

text \<open>A section is written when its static counterpart is not empty.\<close>

definition feed_when :: "bool \<Rightarrow> bytes \<Rightarrow> bytes" where
  "feed_when b s = (if b then s else [])"

definition feed_amounts :: "(string, (string, u64) btree_map) btree_map \<Rightarrow> bytes" where
  "feed_amounts m = feed_map feed_str (feed_map feed_str le64) m"

definition feed_rt_things :: "sl1_runtime \<Rightarrow> bytes" where
  "feed_rt_things r = as_bytes ''sl1.runtime.v1'' @ feed_amounts (inventories r)
     @ feed_map (feed_pair feed_str feed_str) feed_freshness_state (freshness r)"

definition feed_rt_transforms :: "sl1_runtime \<Rightarrow> bytes" where
  "feed_rt_transforms r = as_bytes ''sl1.runtime.transforms.v1''
     @ feed_map feed_str feed_transform_state (transforms r) @ feed_amounts (place_capacity_used r)
     @ as_bytes ''sl1.runtime.transforms.pending_outputs.v1''
     @ feed_map (feed_pair feed_str feed_str) le64 (pending_outputs r)"

definition feed_rt_demand :: "sl1_runtime \<Rightarrow> bytes" where
  "feed_rt_demand r = as_bytes ''sl1.runtime.demand.v1''
     @ feed_map feed_str feed_demand_runtime (demand r)"

definition feed_rt_objectives :: "sl1_runtime \<Rightarrow> bytes" where
  "feed_rt_objectives r = as_bytes ''sl1.runtime.objectives.v1''
     @ feed_map feed_str feed_objective_runtime (objectives r)
     @ feed_list feed_str (sorted_list_of_set (unsupported_objectives_warned r))"

definition feed_rt_failures :: "sl1_runtime \<Rightarrow> bytes" where
  "feed_rt_failures r = as_bytes ''sl1.runtime.failure_conditions.v1''
     @ feed_map feed_str feed_failure_runtime (failure_conditions r)"

definition feed_rt_victories :: "sl1_runtime \<Rightarrow> bytes" where
  "feed_rt_victories r = as_bytes ''sl1.runtime.victory_conditions.v1''
     @ feed_map feed_str feed_victory_runtime (victory_conditions r)"

definition feed_rt_outcome :: "sl1_runtime \<Rightarrow> bytes" where
  "feed_rt_outcome r = as_bytes ''sl1.runtime.outcome.v1'' @ feed_outcome (outcome r)
     @ as_bytes (phase_str (phase r))"

definition feed_rt_observability :: "sl1_observability \<Rightarrow> sl1_runtime \<Rightarrow> bytes" where
  "feed_rt_observability obs r =
     feed_when (obs_metrics obs \<noteq> []) (as_bytes ''sl1.runtime.observability.metrics.v1''
       @ feed_map feed_str feed_metric_state (metric_states r))
     @ feed_when (obs_dashboards obs \<noteq> []) (as_bytes ''sl1.runtime.observability.dashboards.v1''
       @ feed_map feed_str feed_dashboard_state (dashboard_states r))
     @ feed_when (obs_alerts obs \<noteq> []) (as_bytes ''sl1.runtime.observability.alerts.v1''
       @ feed_map feed_str feed_alert_state (alert_states r))"

definition feed_rt_agents :: "sl1_runtime \<Rightarrow> bytes" where
  "feed_rt_agents r = as_bytes ''sl1.runtime.agents.v1''
     @ feed_map feed_str feed_agent_runtime (agents r)
     @ feed_map feed_str le64 (agent_demand_pauses r)"

definition feed_rt_milestones :: "sl1_runtime \<Rightarrow> bytes" where
  "feed_rt_milestones r = as_bytes ''sl1.runtime.milestones.v1''
     @ feed_map feed_str feed_milestone_runtime (milestones r)"

definition has_goals :: "sl1_scene \<Rightarrow> bool" where
  "has_goals sc \<longleftrightarrow> sc_objectives sc \<noteq> [] \<or> sc_failure_conditions sc \<noteq> []
     \<or> sc_victory_conditions sc \<noteq> []"

definition feed_runtime :: "sl1_scene \<Rightarrow> sl1_runtime \<Rightarrow> bytes" where
  "feed_runtime sc r =
     feed_when (sc_things sc \<noteq> []) (feed_rt_things r)
     @ feed_when (sc_transforms sc \<noteq> []) (feed_rt_transforms r)
     @ feed_when (sc_demand sc \<noteq> []) (feed_rt_demand r)
     @ feed_when (sc_objectives sc \<noteq> []) (feed_rt_objectives r)
     @ feed_when (sc_failure_conditions sc \<noteq> []) (feed_rt_failures r)
     @ feed_when (sc_victory_conditions sc \<noteq> []) (feed_rt_victories r)
     @ feed_when (has_goals sc) (feed_rt_outcome r)
     @ (case sc_observability sc of None \<Rightarrow> [] | Some obs \<Rightarrow> feed_rt_observability obs r)
     @ feed_when (sc_agents sc \<noteq> []) (feed_rt_agents r)
     @ feed_when (sc_milestones sc \<noteq> []) (feed_rt_milestones r)"

definition feed_sl1 :: "'r world \<Rightarrow> bytes" where
  "feed_sl1 w = (case w_sl1 w of None \<Rightarrow> []
   | Some sc \<Rightarrow> feed_scene sc
       @ (case w_sl1_runtime w of None \<Rightarrow> [] | Some r \<Rightarrow> feed_runtime sc r))"

section \<open>Worlds\<close>

fun feed_mover_state :: "mover_state \<Rightarrow> bytes" where
  "feed_mover_state MEmpty = [0xE0]"
| "feed_mover_state (MWaiting n) = 0xE1 # le32 n"
| "feed_mover_state (MTraveling p progress) = 0xE2 # le32 p @ le32 progress"

fun shape_tag :: "node_shape \<Rightarrow> u8" where
  "shape_tag Circle = 1"
| "shape_tag Square = 2"
| "shape_tag Triangle = 3"
| "shape_tag Diamond = 4"
| "shape_tag Hexagon = 5"

definition feed_node :: "node \<Rightarrow> bytes" where
  "feed_node n = le32 (fst (n_pos n)) @ le32 (snd (n_pos n)) @ [n_color n] @ [shape_tag (n_shape n)]"

definition feed_path :: "path \<Rightarrow> bytes" where
  "feed_path p = le32 (pa_from p) @ le32 (pa_to p) @ [pa_color p]"

definition feed_mover :: "mover \<Rightarrow> bytes" where
  "feed_mover m = le32 (m_home_path m) @ le32 (m_speed m) @ feed_mover_state (m_state m)"

definition feed_resource :: "resource \<Rightarrow> bytes" where
  "feed_resource r = [re_color r]"

definition feed_producer :: "producer \<Rightarrow> bytes" where
  "feed_producer p = le32 (p_resource p) @ le64 (p_amount p) @ le32 (p_interval_ticks p)"

definition feed_consumer :: "consumer \<Rightarrow> bytes" where
  "feed_consumer c = le32 (c_resource c) @ le64 (c_amount c) @ le32 (c_interval_ticks c)"

definition has_production :: "'r world \<Rightarrow> bool" where
  "has_production w \<longleftrightarrow> w_resources w \<noteq> [] \<or> pw_inventory w \<noteq> [] \<or> pw_producers w \<noteq> []
     \<or> pw_consumers w \<noteq> []"

definition feed_production :: "'r world \<Rightarrow> bytes" where
  "feed_production w = as_bytes ''resources.v1'' @ feed_map le32 feed_resource (w_resources w)
     @ feed_map le32 le64 (pw_inventory w) @ feed_map le32 feed_producer (pw_producers w)
     @ feed_map le32 feed_consumer (pw_consumers w)"

definition feed_world :: "'r world \<Rightarrow> bytes" where
  "feed_world w = as_bytes ''world.v1'' @ le32 (w_dt w) @ feed_map le32 feed_node (w_nodes w)
     @ feed_map le32 feed_path (w_paths w) @ feed_map le32 feed_mover (w_movers w)
     @ feed_when (has_production w) (feed_production w) @ feed_sl1 w"

definition hash_world :: "(bytes \<Rightarrow> bytes) \<Rightarrow> 'r world \<Rightarrow> bytes" where
  "hash_world sha256 w = sha256 (feed_world w)"

section \<open>Runs\<close>

definition feed_tick :: "('r, 's, 'k) tick_runner \<Rightarrow> bytes" where
  "feed_tick r = as_bytes ''evs'' @ feed_list feed_event (tr_events r)
     @ as_bytes ''msg'' @ feed_list feed_message (tr_messages r)"

fun feed_ticks ::
  "regex_engine \<Rightarrow> (agent_log_entry \<Rightarrow> string option) \<Rightarrow> nat \<Rightarrow> ('r, 's, 'k) tick_runner \<Rightarrow> 'r world
    \<Rightarrow> (bytes \<times> ('r, 's, 'k) tick_runner \<times> 'r world) option" where
  "feed_ticks rx js 0 r w = Some ([], r, w)"
| "feed_ticks rx js (Suc n) r w =
     do { (r1, w1, _) \<leftarrow> tick_once rx js r w;
          (s, r2, w2) \<leftarrow> feed_ticks rx js n r1 w1;
          Some (feed_tick r1 @ s, r2, w2) }"

definition HEX :: string where "HEX = ''0123456789abcdef''"

definition hex_encode :: "bytes \<Rightarrow> string" where
  "hex_encode bs = concat (map (\<lambda>b. [HEX ! unat (drop_bit 4 b), HEX ! unat (take_bit 4 b)]) bs)"

definition run_stream ::
  "regex_engine \<Rightarrow> (agent_log_entry \<Rightarrow> string option) \<Rightarrow> 'r world \<Rightarrow> ('r, 's, 'k) tick_runner \<Rightarrow> u64
    \<Rightarrow> (bytes \<times> ('r, 's, 'k) tick_runner \<times> 'r world) option" where
  "run_stream rx js w r ticks = map_option (\<lambda>(s, r', w').
     (feed_world w @ s @ as_bytes ''final'' @ feed_world w', r', w')) (feed_ticks rx js (unat ticks) r w)"

definition hash_run ::
  "(bytes \<Rightarrow> bytes) \<Rightarrow> regex_engine \<Rightarrow> (agent_log_entry \<Rightarrow> string option) \<Rightarrow> 'r world
    \<Rightarrow> ('r, 's, 'k) tick_runner \<Rightarrow> u64
    \<Rightarrow> (string \<times> ('r, 's, 'k) tick_runner \<times> 'r world) option" where
  "hash_run sha256 rx js w r ticks =
     map_option (\<lambda>(s, r', w'). (hex_encode (sha256 s), r', w')) (run_stream rx js w r ticks)"

end
