(* ===== verification/Hash_Proofs.thy ===== *)
theory Hash_Proofs
  imports Hash_World Engine
begin

text \<open>
  What the hash of a world determines. \<open>hashed_runtime\<close> is the part of the SL1 runtime that is
  hashed; it can be read back when the scene is known, and so can a well-formed world without
  its resource names.
\<close>

section \<open>Codes of the runtime values\<close>

lemma status_tag_inject [simp]: "objective_status_tag a = objective_status_tag b \<longleftrightarrow> a = b"
  by (cases a; cases b; simp)

lemma code_fresh: "code feed_freshness_state (\<lambda>_. True)"
proof
  show "feed_freshness_state s \<noteq> []" for s by (cases s) simp_all
  show "feed_freshness_state a @ xs = feed_freshness_state b @ ys \<Longrightarrow> a = b \<and> xs = ys" for a b xs ys
    by (cases a; cases b; simp)
qed

lemma code_tstate: "code feed_transform_state (\<lambda>_. True)"
proof
  show "feed_transform_state s \<noteq> []" for s by (cases s) simp_all
  show "feed_transform_state a @ xs = feed_transform_state b @ ys \<Longrightarrow> a = b \<and> xs = ys" for a b xs ys
    by (cases a; cases b; simp)
qed

lemma code_mstate: "code feed_metric_state (\<lambda>_. True)"
proof
  show "feed_metric_state s \<noteq> []" for s by (cases s) simp_all
  show "feed_metric_state a @ xs = feed_metric_state b @ ys \<Longrightarrow> a = b \<and> xs = ys" for a b xs ys
    by (cases a; cases b; simp)
qed

lemma code_dstate: "code feed_dashboard_state (\<lambda>_. True)"
proof
  show "feed_dashboard_state s \<noteq> []" for s by (cases s) simp_all
  show "feed_dashboard_state a @ xs = feed_dashboard_state b @ ys \<Longrightarrow> a = b \<and> xs = ys" for a b xs ys
    by (cases a; cases b; simp)
qed

lemma code_astate: "code feed_alert_state (\<lambda>_. True)"
proof
  show "feed_alert_state s \<noteq> []" for s by (cases s) simp_all
  show "feed_alert_state a @ xs = feed_alert_state b @ ys \<Longrightarrow> a = b \<and> xs = ys" for a b xs ys
    by (cases a; cases b; simp)
qed

text \<open>A record whose first field is a word is never empty.\<close>

lemma words_nonempty [simp]: "le64 v \<noteq> []" "le32 w \<noteq> []"
  by (simp_all add: word64.nonempty word32.nonempty)

lemma feed_opt_nonempty [simp]: "feed_opt f m \<noteq> []"
  by (simp add: feed_opt_def split: option.split)

lemma code_instance: "code feed_instance (\<lambda>_. True)"
  by unfold_locales (auto simp: feed_instance_def)

definition demand_typed :: "sl1_demand_runtime \<Rightarrow> bool" where
  "demand_typed d \<longleftrightarrow> scripted_cursor d < 2 ^ 64"

lemma code_demand_rt: "code feed_demand_runtime demand_typed"
proof
  show "feed_demand_runtime d \<noteq> []" for d by (simp add: feed_demand_runtime_def)
next
  fix a b xs ys
  assume eq: "feed_demand_runtime a @ xs = feed_demand_runtime b @ ys" and ok: "demand_typed a" "demand_typed b"
    and l: "length (feed_demand_runtime a) < 2 ^ 64" "length (feed_demand_runtime b) < 2 ^ 64"
  have s: "next_sequence a = next_sequence b" "fulfilled_count a = fulfilled_count b"
    "dropped_count a = dropped_count b" "feed_len (scripted_cursor a) = feed_len (scripted_cursor b)"
    "overflow a = overflow b" "feed_list feed_instance (pending a) @ xs = feed_list feed_instance (pending b) @ ys"
    using eq by (simp_all add: feed_demand_runtime_def)
  have "pending a = pending b \<and> xs = ys"
    by (rule code.unique [OF code_list_all [OF code_instance] s(6)])
      (use l in \<open>simp_all add: feed_demand_runtime_def\<close>)
  with s ok show "a = b \<and> xs = ys" by (simp add: feed_len_inject demand_typed_def)
qed

lemma code_objective_rt: "code feed_objective_runtime (\<lambda>_. True)"
  by unfold_locales (auto simp: feed_objective_runtime_def)

lemma code_failure_rt: "code feed_failure_runtime (\<lambda>_. True)"
  by unfold_locales (auto simp: feed_failure_runtime_def code_splits)

lemma code_victory_rt: "code feed_victory_runtime (\<lambda>_. True)"
  by unfold_locales (auto simp: feed_victory_runtime_def code_splits)

lemma code_agent_rt: "code feed_agent_runtime (\<lambda>_. True)"
  by unfold_locales (auto simp: feed_agent_runtime_def code_splits)

lemma code_milestone_rt: "code feed_milestone_runtime (\<lambda>_. True)"
  by unfold_locales (auto simp: feed_milestone_runtime_def code_splits)

lemma phase_str_split:
  "as_bytes (phase_str p) @ xs = as_bytes (phase_str q) @ ys \<Longrightarrow> p = q \<and> xs = ys"
  by (cases p; cases q; simp add: as_bytes_def)

lemma outcome_split:
  assumes "feed_outcome a @ xs = feed_outcome b @ ys"
    and "length (feed_outcome a) < 2 ^ 64" and "length (feed_outcome b) < 2 ^ 64"
  shows "a = b \<and> xs = ys"
  using assms by (cases a; cases b; simp add: feed_outcome_def as_bytes_def str.split)

section \<open>Codes of the maps\<close>

lemma code_amounts: "code feed_amounts (\<lambda>_. True)"
  unfolding feed_amounts_def [abs_def] by (intro code_map_all code_str word64.code_axioms)

lemma code_key_pair: "code (feed_pair feed_str feed_str) (\<lambda>_. True)"
  by (intro code_pair_all code_str)

lemma code_demands: "code (feed_map feed_str feed_demand_runtime) (list_all (\<lambda>p. True \<and> demand_typed (snd p)))"
  by (intro code_map code_str code_demand_rt)

lemmas rt_splits =
  code.split [OF code_amounts]
  code.split [OF code_map_all [OF code_key_pair code_fresh]]
  code.split [OF code_map_all [OF code_str code_tstate]]
  code.split [OF code_map_all [OF code_key_pair word64.code_axioms]]
  code.split [OF code_demands]
  code.split [OF code_map_all [OF code_str code_objective_rt]]
  code.split [OF code_list_all [OF code_str]]
  code.split [OF code_map_all [OF code_str code_failure_rt]]
  code.split [OF code_map_all [OF code_str code_victory_rt]]
  code.split [OF code_map_all [OF code_str code_mstate]]
  code.split [OF code_map_all [OF code_str code_dstate]]
  code.split [OF code_map_all [OF code_str code_astate]]
  code.split [OF code_map_all [OF code_str code_agent_rt]]
  code.split [OF code_map_all [OF code_str word64.code_axioms]]
  code.split [OF code_map_all [OF code_str code_milestone_rt]]

section \<open>The sections of the runtime\<close>

text \<open>What the types guarantee: sets are finite and a cursor is a machine integer.\<close>

definition runtime_typed :: "sl1_runtime \<Rightarrow> bool" where
  "runtime_typed r \<longleftrightarrow> finite (unsupported_objectives_warned r) \<and> list_all (\<lambda>p. demand_typed (snd p)) (demand r)"

lemma rt_things_unique:
  assumes "feed_rt_things r @ xs = feed_rt_things s @ ys"
    and "length (feed_rt_things r) < 2 ^ 64" and "length (feed_rt_things s) < 2 ^ 64"
  shows "inventories r = inventories s \<and> freshness r = freshness s \<and> xs = ys"
  using assms by (simp add: feed_rt_things_def rt_splits)

lemma rt_transforms_unique:
  assumes "feed_rt_transforms r @ xs = feed_rt_transforms s @ ys"
    and "length (feed_rt_transforms r) < 2 ^ 64" and "length (feed_rt_transforms s) < 2 ^ 64"
  shows "transforms r = transforms s \<and> place_capacity_used r = place_capacity_used s
    \<and> pending_outputs r = pending_outputs s \<and> xs = ys"
  using assms by (simp add: feed_rt_transforms_def rt_splits)

lemma rt_demand_unique:
  assumes "feed_rt_demand r @ xs = feed_rt_demand s @ ys" and "runtime_typed r" and "runtime_typed s"
    and "length (feed_rt_demand r) < 2 ^ 64" and "length (feed_rt_demand s) < 2 ^ 64"
  shows "demand r = demand s \<and> xs = ys"
  using assms by (simp add: feed_rt_demand_def rt_splits runtime_typed_def)

lemma rt_objectives_unique:
  assumes "feed_rt_objectives r @ xs = feed_rt_objectives s @ ys" and "runtime_typed r" and "runtime_typed s"
    and "length (feed_rt_objectives r) < 2 ^ 64" and "length (feed_rt_objectives s) < 2 ^ 64"
  shows "objectives r = objectives s
    \<and> unsupported_objectives_warned r = unsupported_objectives_warned s \<and> xs = ys"
  using assms by (simp add: feed_rt_objectives_def rt_splits runtime_typed_def)
    (metis sorted_list_of_set_inject)

lemma rt_failures_unique:
  assumes "feed_rt_failures r @ xs = feed_rt_failures s @ ys"
    and "length (feed_rt_failures r) < 2 ^ 64" and "length (feed_rt_failures s) < 2 ^ 64"
  shows "failure_conditions r = failure_conditions s \<and> xs = ys"
  using assms by (simp add: feed_rt_failures_def rt_splits)

lemma rt_victories_unique:
  assumes "feed_rt_victories r @ xs = feed_rt_victories s @ ys"
    and "length (feed_rt_victories r) < 2 ^ 64" and "length (feed_rt_victories s) < 2 ^ 64"
  shows "victory_conditions r = victory_conditions s \<and> xs = ys"
  using assms by (simp add: feed_rt_victories_def rt_splits)

lemma rt_outcome_unique:
  assumes "feed_rt_outcome r @ xs = feed_rt_outcome s @ ys"
    and "length (feed_rt_outcome r) < 2 ^ 64" and "length (feed_rt_outcome s) < 2 ^ 64"
  shows "outcome r = outcome s \<and> phase r = phase s \<and> xs = ys"
proof -
  have "feed_outcome (outcome r) @ as_bytes (phase_str (phase r)) @ xs
      = feed_outcome (outcome s) @ as_bytes (phase_str (phase s)) @ ys"
    using assms(1) by (simp add: feed_rt_outcome_def)
  from outcome_split [OF this] have "outcome r = outcome s
      \<and> as_bytes (phase_str (phase r)) @ xs = as_bytes (phase_str (phase s)) @ ys"
    using assms(2,3) by (simp add: feed_rt_outcome_def)
  then show ?thesis using phase_str_split by blast
qed

lemma rt_agents_unique:
  assumes "feed_rt_agents r @ xs = feed_rt_agents s @ ys"
    and "length (feed_rt_agents r) < 2 ^ 64" and "length (feed_rt_agents s) < 2 ^ 64"
  shows "agents r = agents s \<and> agent_demand_pauses r = agent_demand_pauses s \<and> xs = ys"
  using assms by (simp add: feed_rt_agents_def rt_splits)

lemma rt_milestones_unique:
  assumes "feed_rt_milestones r @ xs = feed_rt_milestones s @ ys"
    and "length (feed_rt_milestones r) < 2 ^ 64" and "length (feed_rt_milestones s) < 2 ^ 64"
  shows "milestones r = milestones s \<and> xs = ys"
  using assms by (simp add: feed_rt_milestones_def rt_splits)

text \<open>A section that may be absent on both sides alike.\<close>

lemma feed_when_simps [simp]: "feed_when True s = s" "feed_when False s = []"
  by (simp_all add: feed_when_def)

section \<open>The hashed part of the runtime\<close>

definition observed :: "(sl1_observability \<Rightarrow> 'a list) \<Rightarrow> sl1_scene \<Rightarrow> bool" where
  "observed f sc \<longleftrightarrow> (case sc_observability sc of None \<Rightarrow> False | Some obs \<Rightarrow> f obs \<noteq> [])"

definition hashed_runtime :: "sl1_scene \<Rightarrow> sl1_runtime \<Rightarrow> sl1_runtime" where
  "hashed_runtime sc r =
     \<lparr>inventories = (if sc_things sc = [] then [] else inventories r),
      freshness = (if sc_things sc = [] then [] else freshness r),
      transforms = (if sc_transforms sc = [] then [] else transforms r),
      place_capacity_used = (if sc_transforms sc = [] then [] else place_capacity_used r),
      pending_outputs = (if sc_transforms sc = [] then [] else pending_outputs r),
      demand = (if sc_demand sc = [] then [] else demand r),
      pressure = pressure_runtime_default,
      objectives = (if sc_objectives sc = [] then [] else objectives r),
      failure_conditions = (if sc_failure_conditions sc = [] then [] else failure_conditions r),
      victory_conditions = (if sc_victory_conditions sc = [] then [] else victory_conditions r),
      outcome = (if has_goals sc then outcome r else InProgress),
      phase = (if has_goals sc then phase r else PhStabilizing),
      unsupported_objectives_warned = (if sc_objectives sc = [] then {} else unsupported_objectives_warned r),
      metric_states = (if observed obs_metrics sc then metric_states r else []),
      dashboard_states = (if observed obs_dashboards sc then dashboard_states r else []),
      alert_states = (if observed obs_alerts sc then alert_states r else []),
      agents = (if sc_agents sc = [] then [] else agents r),
      agent_demand_pauses = (if sc_agents sc = [] then [] else agent_demand_pauses r),
      milestones = (if sc_milestones sc = [] then [] else milestones r)\<rparr>"

text \<open>
  Sections one after the other, each with its guard, its bytes on both sides and what they
  determine.
\<close>

definition section_unique :: "bool \<times> bytes \<times> bytes \<times> bool \<Rightarrow> bool" where
  "section_unique p = (case p of (b, s, t, Q) \<Rightarrow> b \<longrightarrow>
     (\<forall>xs ys. s @ xs = t @ ys \<longrightarrow> length s < 2 ^ 64 \<longrightarrow> length t < 2 ^ 64 \<longrightarrow> Q \<and> xs = ys))"

fun sec_left :: "bool \<times> bytes \<times> bytes \<times> bool \<Rightarrow> bytes" where
  "sec_left (b, s, t, Q) = feed_when b s"

fun sec_right :: "bool \<times> bytes \<times> bytes \<times> bool \<Rightarrow> bytes" where
  "sec_right (b, s, t, Q) = feed_when b t"

fun sec_holds :: "bool \<times> bytes \<times> bytes \<times> bool \<Rightarrow> bool" where
  "sec_holds (b, s, t, Q) \<longleftrightarrow> (b \<longrightarrow> Q)"

lemma section_uniqueI:
  assumes "\<And>xs ys. s @ xs = t @ ys \<Longrightarrow> length s < 2 ^ 64 \<Longrightarrow> length t < 2 ^ 64 \<Longrightarrow> Q \<and> xs = ys"
  shows "section_unique (b, s, t, Q)"
  using assms unfolding section_unique_def prod.case by blast

lemma section_uniqueD:
  assumes "section_unique (b, s, t, Q)" and b
    and "s @ xs = t @ ys" and "length s < 2 ^ 64" and "length t < 2 ^ 64"
  shows "Q \<and> xs = ys"
  using assms unfolding section_unique_def prod.case by blast

lemma sections_unique:
  assumes "list_all section_unique ps"
    and "feed_all sec_left ps @ xs = feed_all sec_right ps @ ys"
    and "length (feed_all sec_left ps) < 2 ^ 64"
    and "length (feed_all sec_right ps) < 2 ^ 64"
  shows "list_all sec_holds ps \<and> xs = ys"
  using assms
proof (induction ps)
  case (Cons p ps)
  obtain b s t Q where p: "p = (b, s, t, Q)" by (metis prod.exhaust)
  show ?case
  proof (cases b)
    case True
    have "Q \<and> feed_all sec_left ps @ xs = feed_all sec_right ps @ ys"
      by (rule section_uniqueD [of b s t]) (use Cons.prems True in \<open>simp_all add: p feed_all_def\<close>)
    with Cons show ?thesis by (simp add: p feed_all_def)
  next
    case False
    with Cons show ?thesis by (simp add: p feed_all_def)
  qed
qed (simp add: feed_all_def)

definition obs_sections :: "sl1_observability \<Rightarrow> sl1_runtime \<Rightarrow> sl1_runtime \<Rightarrow> (bool \<times> bytes \<times> bytes \<times> bool) list" where
  "obs_sections obs r s =
     [(obs_metrics obs \<noteq> [], as_bytes ''sl1.runtime.observability.metrics.v1'' @ feed_map feed_str feed_metric_state (metric_states r),
       as_bytes ''sl1.runtime.observability.metrics.v1'' @ feed_map feed_str feed_metric_state (metric_states s),
       metric_states r = metric_states s),
      (obs_dashboards obs \<noteq> [], as_bytes ''sl1.runtime.observability.dashboards.v1'' @ feed_map feed_str feed_dashboard_state (dashboard_states r),
       as_bytes ''sl1.runtime.observability.dashboards.v1'' @ feed_map feed_str feed_dashboard_state (dashboard_states s),
       dashboard_states r = dashboard_states s),
      (obs_alerts obs \<noteq> [], as_bytes ''sl1.runtime.observability.alerts.v1'' @ feed_map feed_str feed_alert_state (alert_states r),
       as_bytes ''sl1.runtime.observability.alerts.v1'' @ feed_map feed_str feed_alert_state (alert_states s),
       alert_states r = alert_states s)]"

lemma obs_sections_feed:
  "feed_rt_observability obs r = feed_all sec_left (obs_sections obs r s)"
  "feed_rt_observability obs s = feed_all sec_right (obs_sections obs r s)"
  by (simp_all add: feed_rt_observability_def obs_sections_def feed_all_def)

lemma obs_sections_unique: "list_all section_unique (obs_sections obs r s)"
  unfolding obs_sections_def list.pred_inject
  by (intro conjI section_uniqueI TrueI) (simp_all add: rt_splits)

definition rt_sections :: "sl1_scene \<Rightarrow> sl1_runtime \<Rightarrow> sl1_runtime \<Rightarrow> (bool \<times> bytes \<times> bytes \<times> bool) list" where
  "rt_sections sc r s =
     [(sc_things sc \<noteq> [], feed_rt_things r, feed_rt_things s,
        inventories r = inventories s \<and> freshness r = freshness s),
      (sc_transforms sc \<noteq> [], feed_rt_transforms r, feed_rt_transforms s,
        transforms r = transforms s \<and> place_capacity_used r = place_capacity_used s
        \<and> pending_outputs r = pending_outputs s),
      (sc_demand sc \<noteq> [], feed_rt_demand r, feed_rt_demand s, demand r = demand s),
      (sc_objectives sc \<noteq> [], feed_rt_objectives r, feed_rt_objectives s, objectives r = objectives s
        \<and> unsupported_objectives_warned r = unsupported_objectives_warned s),
      (sc_failure_conditions sc \<noteq> [], feed_rt_failures r, feed_rt_failures s,
        failure_conditions r = failure_conditions s),
      (sc_victory_conditions sc \<noteq> [], feed_rt_victories r, feed_rt_victories s,
        victory_conditions r = victory_conditions s),
      (has_goals sc, feed_rt_outcome r, feed_rt_outcome s, outcome r = outcome s \<and> phase r = phase s)]
     @ (case sc_observability sc of None \<Rightarrow> [] | Some obs \<Rightarrow> obs_sections obs r s)
     @ [(sc_agents sc \<noteq> [], feed_rt_agents r, feed_rt_agents s,
          agents r = agents s \<and> agent_demand_pauses r = agent_demand_pauses s),
        (sc_milestones sc \<noteq> [], feed_rt_milestones r, feed_rt_milestones s, milestones r = milestones s)]"

lemma feed_all_simps [simp]:
  "feed_all f [] = []" "feed_all f (x # xs) = f x @ feed_all f xs"
  "feed_all f (xs @ ys) = feed_all f xs @ feed_all f ys"
  by (simp_all add: feed_all_def)

lemma rt_sections_feed:
  "feed_runtime sc r = feed_all sec_left (rt_sections sc r s)"
  "feed_runtime sc s = feed_all sec_right (rt_sections sc r s)"
proof -
  have "(case sc_observability sc of None \<Rightarrow> [] | Some obs \<Rightarrow> feed_rt_observability obs r)
      = feed_all sec_left (case sc_observability sc of None \<Rightarrow> [] | Some obs \<Rightarrow> obs_sections obs r s)"
    by (simp add: obs_sections_feed(1) split: option.split)
  then show "feed_runtime sc r = feed_all sec_left (rt_sections sc r s)"
    unfolding feed_runtime_def rt_sections_def by simp
  have "(case sc_observability sc of None \<Rightarrow> [] | Some obs \<Rightarrow> feed_rt_observability obs s)
      = feed_all sec_right (case sc_observability sc of None \<Rightarrow> [] | Some obs \<Rightarrow> obs_sections obs r s)"
    by (simp add: obs_sections_feed(2) split: option.split)
  then show "feed_runtime sc s = feed_all sec_right (rt_sections sc r s)"
    unfolding feed_runtime_def rt_sections_def by simp
qed

lemma rt_sections_unique:
  assumes "runtime_typed r" and "runtime_typed s"
  shows "list_all section_unique (rt_sections sc r s)"
proof -
  have "section_unique (b, feed_rt_things r, feed_rt_things s, inventories r = inventories s \<and> freshness r = freshness s)" for b
    using rt_things_unique [of r _ s] by (intro section_uniqueI) auto
  moreover have "section_unique (b, feed_rt_transforms r, feed_rt_transforms s, transforms r = transforms s
      \<and> place_capacity_used r = place_capacity_used s \<and> pending_outputs r = pending_outputs s)" for b
    using rt_transforms_unique [of r _ s] by (intro section_uniqueI) auto
  moreover have "section_unique (b, feed_rt_demand r, feed_rt_demand s, demand r = demand s)" for b
    using rt_demand_unique [of r _ s] assms by (intro section_uniqueI) auto
  moreover have "section_unique (b, feed_rt_objectives r, feed_rt_objectives s, objectives r = objectives s
        \<and> unsupported_objectives_warned r = unsupported_objectives_warned s)" for b
    using rt_objectives_unique [of r _ s] assms by (intro section_uniqueI) auto
  moreover have "section_unique (b, feed_rt_failures r, feed_rt_failures s, failure_conditions r = failure_conditions s)" for b
    using rt_failures_unique [of r _ s] by (intro section_uniqueI) auto
  moreover have "section_unique (b, feed_rt_victories r, feed_rt_victories s, victory_conditions r = victory_conditions s)" for b
    using rt_victories_unique [of r _ s] by (intro section_uniqueI) auto
  moreover have "section_unique (b, feed_rt_outcome r, feed_rt_outcome s, outcome r = outcome s \<and> phase r = phase s)" for b
    using rt_outcome_unique [of r _ s] by (intro section_uniqueI) auto
  moreover have "section_unique (b, feed_rt_agents r, feed_rt_agents s,
          agents r = agents s \<and> agent_demand_pauses r = agent_demand_pauses s)" for b
    using rt_agents_unique [of r _ s] by (intro section_uniqueI) auto
  moreover have "section_unique (b, feed_rt_milestones r, feed_rt_milestones s, milestones r = milestones s)" for b
    using rt_milestones_unique [of r _ s] by (intro section_uniqueI) auto
  ultimately show ?thesis
    using obs_sections_unique by (simp add: rt_sections_def split: option.split)
qed

lemma runtime_readable:
  assumes "feed_runtime sc r @ xs = feed_runtime sc s @ ys" and "runtime_typed r" and "runtime_typed s"
    and "length (feed_runtime sc r) < 2 ^ 64" and "length (feed_runtime sc s) < 2 ^ 64"
  shows "hashed_runtime sc r = hashed_runtime sc s \<and> xs = ys"
proof -
  have "list_all sec_holds (rt_sections sc r s) \<and> xs = ys"
    by (rule sections_unique [OF rt_sections_unique [OF assms(2,3)]])
      (use assms in \<open>simp_all flip: rt_sections_feed\<close>)
  then show ?thesis
    by (auto simp: rt_sections_def obs_sections_def hashed_runtime_def observed_def split: option.splits)
qed

section \<open>Tables of the world\<close>

lemma shape_tag_inject [simp]: "shape_tag a = shape_tag b \<longleftrightarrow> a = b"
  by (cases a; cases b; simp)

lemma mover_state_split [simp]:
  "feed_mover_state a @ xs = feed_mover_state b @ ys \<longleftrightarrow> a = b \<and> xs = ys"
  by (cases a; cases b; simp)

text \<open>The id inside a piece is not hashed; it is its key in a well-formed world.\<close>

definition keyed :: "('v \<Rightarrow> u32) \<Rightarrow> u32 \<times> 'v \<Rightarrow> bool" where
  "keyed key p \<longleftrightarrow> key (snd p) = fst p"

lemma table_keyed: "table_ok key P m \<Longrightarrow> list_all (keyed key) m"
  using table_okD(2,4) [of key P m] by (fastforce simp: list_all_iff keyed_def)

lemma code_nodes: "code (feed_map le32 feed_node) (list_all (keyed n_id))"
  unfolding feed_map_def [abs_def]
  by (rule code.list_code, unfold_locales)
    (auto simp: feed_pair_def feed_node_def keyed_def prod_eq_iff)

lemma code_paths: "code (feed_map le32 feed_path) (list_all (keyed pa_id))"
  unfolding feed_map_def [abs_def]
  by (rule code.list_code, unfold_locales)
    (auto simp: feed_pair_def feed_path_def keyed_def prod_eq_iff)

lemma code_movers: "code (feed_map le32 feed_mover) (list_all (keyed m_id))"
  unfolding feed_map_def [abs_def]
  by (rule code.list_code, unfold_locales)
    (auto simp: feed_pair_def feed_mover_def keyed_def prod_eq_iff)

lemma code_producers: "code (feed_map le32 feed_producer) (list_all (keyed p_id))"
  unfolding feed_map_def [abs_def]
  by (rule code.list_code, unfold_locales)
    (auto simp: feed_pair_def feed_producer_def keyed_def prod_eq_iff)

lemma code_consumers: "code (feed_map le32 feed_consumer) (list_all (keyed c_id))"
  unfolding feed_map_def [abs_def]
  by (rule code.list_code, unfold_locales)
    (auto simp: feed_pair_def feed_consumer_def keyed_def prod_eq_iff)

lemma code_inventory: "code (feed_map le32 le64) (\<lambda>_. True)"
  by (intro code_map_all word32.code_axioms word64.code_axioms)

text \<open>Of a resource only its color is hashed.\<close>

definition colors :: "(u32, resource) btree_map \<Rightarrow> (u32, u8) btree_map" where
  "colors m = map (map_prod id re_color) m"

lemma feed_colors: "feed_map le32 feed_resource m = feed_map le32 (\<lambda>c. [c]) (colors m)"
  by (simp add: feed_map_def feed_list_def feed_all_def colors_def feed_pair_def feed_resource_def
      comp_def map_prod_def case_prod_beta feed_pair_def [abs_def])

lemma code_colors: "code (feed_map le32 (\<lambda>c. [c])) (\<lambda>_. True)"
  by (intro code_map_all word32.code_axioms, unfold_locales) simp_all

section \<open>The hashed part of a world\<close>

definition same_hashed :: "'r world \<Rightarrow> 'r world \<Rightarrow> bool" where
  "same_hashed w v \<longleftrightarrow> w_dt w = w_dt v \<and> w_nodes w = w_nodes v \<and> w_paths w = w_paths v
     \<and> w_movers w = w_movers v \<and> colors (w_resources w) = colors (w_resources v)
     \<and> pw_inventory w = pw_inventory v \<and> pw_producers w = pw_producers v
     \<and> pw_consumers w = pw_consumers v \<and> w_sl1 w = w_sl1 v
     \<and> (\<forall>sc. w_sl1 w = Some sc \<longrightarrow> map_option (hashed_runtime sc) (w_sl1_runtime w)
           = map_option (hashed_runtime sc) (w_sl1_runtime v))"

text \<open>Two worlds of the same scene.\<close>

definition same_scene :: "'r world \<Rightarrow> 'r world \<Rightarrow> bool" where
  "same_scene w v \<longleftrightarrow> w_sl1 w = w_sl1 v \<and> (w_sl1_runtime w = None \<longleftrightarrow> w_sl1_runtime v = None)"

lemma production_unique:
  assumes "feed_production w @ xs = feed_production v @ ys" and "world_wf w" and "world_wf v"
    and "length (feed_production w) < 2 ^ 64" and "length (feed_production v) < 2 ^ 64"
  shows "colors (w_resources w) = colors (w_resources v) \<and> pw_inventory w = pw_inventory v
    \<and> pw_producers w = pw_producers v \<and> pw_consumers w = pw_consumers v \<and> xs = ys"
  using assms(1,4,5) table_keyed [OF world_wfD(6) [OF assms(2)]] table_keyed [OF world_wfD(7) [OF assms(2)]]
    table_keyed [OF world_wfD(6) [OF assms(3)]] table_keyed [OF world_wfD(7) [OF assms(3)]]
  by (simp add: feed_production_def feed_colors code.split [OF code_colors] code.split [OF code_inventory]
      code.split [OF code_producers] code.split [OF code_consumers])

lemma sl1_head: "feed_sl1 w = [] \<or> hd (feed_sl1 w) = 0x73"
  by (simp add: feed_sl1_def feed_scene_def as_bytes_def split: option.split)

lemma production_head: "hd (feed_production w @ xs) = 0x72" "feed_production w \<noteq> []"
  by (simp_all add: feed_production_def as_bytes_def)

lemma sl1_unique:
  assumes "feed_sl1 w = feed_sl1 v" and "same_scene w v"
    and "pred_option runtime_typed (w_sl1_runtime w)" and "pred_option runtime_typed (w_sl1_runtime v)"
    and "length (feed_sl1 w) < 2 ^ 64" and "length (feed_sl1 v) < 2 ^ 64" and "w_sl1 w = Some sc"
  shows "map_option (hashed_runtime sc) (w_sl1_runtime w) = map_option (hashed_runtime sc) (w_sl1_runtime v)"
proof (cases "w_sl1_runtime w")
  case None
  with assms(2) show ?thesis by (simp add: same_scene_def)
next
  case r: (Some r)
  with assms(2) obtain s where s: "w_sl1_runtime v = Some s" by (auto simp: same_scene_def)
  have v: "w_sl1 v = Some sc" using assms(2,7) by (simp add: same_scene_def)
  have "feed_runtime sc r @ [] = feed_runtime sc s @ []"
    using assms(1) by (simp add: feed_sl1_def assms(7) v r s)
  from runtime_readable [OF this] assms(3-6) show ?thesis
    by (simp add: feed_sl1_def assms(7) v r s)
qed

lemma world_readable:
  assumes eq: "feed_world w = feed_world v" and wf: "world_wf w" "world_wf v" and sc: "same_scene w v"
    and ty: "pred_option runtime_typed (w_sl1_runtime w)" "pred_option runtime_typed (w_sl1_runtime v)"
    and l: "length (feed_world w) < 2 ^ 64" "length (feed_world v) < 2 ^ 64"
  shows "same_hashed w v"
proof -
  let ?rest = "\<lambda>u. feed_when (has_production u) (feed_production u) @ feed_sl1 u"
  note ks = table_keyed [OF world_wfD(2) [OF wf(1)]] table_keyed [OF world_wfD(2) [OF wf(2)]]
    table_keyed [OF world_wfD(3) [OF wf(1)]] table_keyed [OF world_wfD(3) [OF wf(2)]]
    table_keyed [OF world_wfD(4) [OF wf(1)]] table_keyed [OF world_wfD(4) [OF wf(2)]]
  have ls: "length (feed_map le32 feed_node (w_nodes u)) < 2 ^ 64 \<and> length (feed_map le32 feed_path (w_paths u)) < 2 ^ 64
      \<and> length (feed_map le32 feed_mover (w_movers u)) < 2 ^ 64" if "length (feed_world u) < 2 ^ 64" for u :: "'a world"
    using that by (simp add: feed_world_def)
  have "w_dt w = w_dt v \<and> w_nodes w = w_nodes v \<and> w_paths w = w_paths v \<and> w_movers w = w_movers v \<and> ?rest w = ?rest v"
    using eq ls [OF l(1)] ls [OF l(2)] ks unfolding feed_world_def
    by (simp add: code.split [OF code_nodes] code.split [OF code_paths] code.split [OF code_movers])
  then have p: "w_dt w = w_dt v" "w_nodes w = w_nodes v" "w_paths w = w_paths v" "w_movers w = w_movers v"
    and rest: "?rest w = ?rest v" by blast+
  have lr: "length (?rest u) < 2 ^ 64" if "length (feed_world u) < 2 ^ 64" for u :: "'a world"
    using that by (simp add: feed_world_def)
  have "has_production w = has_production v"
  proof (rule ccontr)
    assume "has_production w \<noteq> has_production v"
    then consider "has_production w" "feed_production w @ feed_sl1 w = feed_sl1 v"
      | "has_production v" "feed_production v @ feed_sl1 v = feed_sl1 w"
      using rest by (cases "has_production w"; cases "has_production v"; simp)
    then show False
      using sl1_head [of w] sl1_head [of v] production_head(1) [of w "feed_sl1 w"]
        production_head(1) [of v "feed_sl1 v"] production_head(2) [of w] production_head(2) [of v]
      by cases auto
  qed
  then consider (none) "\<not> has_production w" "\<not> has_production v" "feed_sl1 w = feed_sl1 v"
    | (some) "has_production w" "has_production v" "feed_production w @ feed_sl1 w = feed_production v @ feed_sl1 v"
    using rest by (cases "has_production w") auto
  then have q: "colors (w_resources w) = colors (w_resources v) \<and> pw_inventory w = pw_inventory v
      \<and> pw_producers w = pw_producers v \<and> pw_consumers w = pw_consumers v \<and> feed_sl1 w = feed_sl1 v"
  proof cases
    case none
    then show ?thesis by (simp add: has_production_def)
  next
    case some
    from production_unique [OF some(3) wf] some(1,2) lr [OF l(1)] lr [OF l(2)] show ?thesis by simp
  qed
  with sl1_unique [OF _ sc ty] lr [OF l(1)] lr [OF l(2)] p sc show ?thesis
    by (auto simp: same_hashed_def same_scene_def)
qed

end
