(* ===== verification/Hash_Runs.thy ===== *)
theory Hash_Runs
  imports Hash_Proofs
begin

text \<open>
  What the hash of a run determines: the events and messages of every tick and the hashed part
  of the world at the end.
\<close>

section \<open>The trace of a run\<close>

type_synonym tick_trace = "sim_event list \<times> sim_message list"

fun run_trace ::
  "regex_engine \<Rightarrow> (agent_log_entry \<Rightarrow> string option) \<Rightarrow> nat \<Rightarrow> ('r, 's, 'k) tick_runner \<Rightarrow> 'r world
    \<Rightarrow> (tick_trace list \<times> 'r world) option" where
  "run_trace rx js 0 r w = Some ([], w)"
| "run_trace rx js (Suc n) r w =
     do { (r1, w1, _) \<leftarrow> tick_once rx js r w;
          (tr, w2) \<leftarrow> run_trace rx js n r1 w1;
          Some ((tr_events r1, tr_messages r1) # tr, w2) }"

definition feed_tick_trace :: "tick_trace \<Rightarrow> bytes" where
  "feed_tick_trace t = as_bytes ''evs'' @ feed_list feed_event (fst t)
     @ as_bytes ''msg'' @ feed_list feed_message (snd t)"

definition tick_typed :: "tick_trace \<Rightarrow> bool" where
  "tick_typed t \<longleftrightarrow> list_all event_ok (fst t) \<and> list_all message_ok (snd t)"

lemma feed_ticks_trace:
  "feed_ticks rx js n r w = Some (s, r', w') \<Longrightarrow>
     \<exists>tr. run_trace rx js n r w = Some (tr, w') \<and> s = feed_all feed_tick_trace tr \<and> length tr = n"
proof (induction n arbitrary: r w s)
  case (Suc n)
  from Suc.prems obtain r1 w1 k s1 where t: "tick_once rx js r w = Some (r1, w1, k)"
    and n: "feed_ticks rx js n r1 w1 = Some (s1, r', w')" and s: "s = feed_tick r1 @ s1"
    by (auto split: Option.bind_splits)
  from Suc.IH [OF n] obtain tr where tr: "run_trace rx js n r1 w1 = Some (tr, w')"
    and s1: "s1 = feed_all feed_tick_trace tr" and l: "length tr = n" by blast
  have "run_trace rx js (Suc n) r w = Some ((tr_events r1, tr_messages r1) # tr, w')"
    by (simp add: t tr)
  moreover have "s = feed_all feed_tick_trace ((tr_events r1, tr_messages r1) # tr)"
    by (simp add: s s1 feed_tick_def feed_tick_trace_def)
  moreover have "length ((tr_events r1, tr_messages r1) # tr) = Suc n" by (simp add: l)
  ultimately show ?case by blast
qed simp

lemma code_tick_trace: "code feed_tick_trace tick_typed"
proof
  show "feed_tick_trace t \<noteq> []" for t by (simp add: feed_tick_trace_def as_bytes_def)
next
  fix a b xs ys
  assume eq: "feed_tick_trace a @ xs = feed_tick_trace b @ ys" and ok: "tick_typed a" "tick_typed b"
    and l: "length (feed_tick_trace a) < 2 ^ 64" "length (feed_tick_trace b) < 2 ^ 64"
  have "feed_list feed_event (fst a) @ as_bytes ''msg'' @ feed_list feed_message (snd a) @ xs
      = feed_list feed_event (fst b) @ as_bytes ''msg'' @ feed_list feed_message (snd b) @ ys"
    using eq by (simp add: feed_tick_trace_def)
  then have e: "fst a = fst b \<and> as_bytes ''msg'' @ feed_list feed_message (snd a) @ xs
      = as_bytes ''msg'' @ feed_list feed_message (snd b) @ ys"
    by (rule event.feed_list_unique) (use ok l in \<open>simp_all add: tick_typed_def feed_tick_trace_def\<close>)
  then have "feed_list feed_message (snd a) @ xs = feed_list feed_message (snd b) @ ys" by simp
  then have "snd a = snd b \<and> xs = ys"
    by (rule message.feed_list_unique) (use ok l in \<open>simp_all add: tick_typed_def feed_tick_trace_def\<close>)
  with e show "a = b \<and> xs = ys" by (simp add: prod_eq_iff)
qed

section \<open>What a tick keeps\<close>

lemma tick_once_scene:
  assumes "world_wf w" and "tick_once rx js r w = Some (r', w', n)"
  shows "same_scene w w'"
proof (cases "frozen w")
  case True
  then show ?thesis using assms(2) by (simp add: tick_once_frozen same_scene_def)
next
  case False
  obtain hosts st arrivals where e: "early_half rx js r w = (hosts, st, arrivals)" by (metis prod.exhaust)
  from early_half_phase [OF assms(1) e] have "same_sl1 (begin_tick w) (tu_world st)" by (simp add: phase_ok_def)
  then have "same_scene w (tu_world st)" by (simp add: same_sl1_def begin_tick_def same_scene_def)
  then show ?thesis using assms(2)
    by (auto simp: tick_once_halves [OF False e] sl1_half_def same_scene_def split: option.splits)
qed

lemma same_scene_trans: "same_scene u v \<Longrightarrow> same_scene v w \<Longrightarrow> same_scene u w"
  by (simp add: same_scene_def)

lemma run_trace_keeps:
  "world_wf w \<Longrightarrow> run_trace rx js n r w = Some (tr, w') \<Longrightarrow> world_wf w' \<and> same_scene w w'"
proof (induction n arbitrary: r w tr)
  case (Suc n)
  from Suc.prems obtain r1 w1 k tr1 where t: "tick_once rx js r w = Some (r1, w1, k)"
    and n: "run_trace rx js n r1 w1 = Some (tr1, w')" by (auto split: Option.bind_splits)
  from Suc.IH [OF tick_once_wf [OF Suc.prems(1) t] n] tick_once_scene [OF Suc.prems(1) t]
  show ?case using same_scene_trans by blast
qed (simp add: same_scene_def)

section \<open>Hexadecimal digits\<close>

lemma hex_distinct: "distinct HEX" "length HEX = 16"
  by code_simp+

lemma hex_digit_inject: "i < 16 \<Longrightarrow> j < 16 \<Longrightarrow> HEX ! i = HEX ! j \<longleftrightarrow> i = j"
  using hex_distinct by (simp add: nth_eq_iff_index_eq)

lemma hex_byte:
  fixes b c :: u8
  assumes "HEX ! unat (drop_bit 4 b) = HEX ! unat (drop_bit 4 c)"
    and "HEX ! unat (take_bit 4 b) = HEX ! unat (take_bit 4 c)"
  shows "b = c"
proof -
  have r: "unat (drop_bit 4 x) < 16" "unat (take_bit 4 x) < 16" for x :: u8
    using unsigned_less [where 'a = nat, of x]
    by (simp_all add: unsigned_drop_bit_eq unsigned_take_bit_eq drop_bit_eq_div take_bit_eq_mod
        unat_div unat_mod less_mult_imp_div_less)
  have "unat (drop_bit 4 b) = unat (drop_bit 4 c)"
    using assms(1) hex_digit_inject [OF r(1) r(1)] by blast
  then have high: "drop_bit 4 b = drop_bit 4 c" by (rule unsigned_word_eqI)
  have "unat (take_bit 4 b) = unat (take_bit 4 c)"
    using assms(2) hex_digit_inject [OF r(2) r(2)] by blast
  then have "take_bit 4 b = take_bit 4 c" by (rule unsigned_word_eqI)
  with high show ?thesis by (metis bits_ident)
qed

lemma hex_encode_inject: "hex_encode bs = hex_encode cs \<longleftrightarrow> bs = cs"
proof
  show "hex_encode bs = hex_encode cs \<Longrightarrow> bs = cs"
  proof (induction bs arbitrary: cs)
    case Nil
    then show ?case by (cases cs) (simp_all add: hex_encode_def)
  next
    case (Cons b bs)
    then obtain c cs' where "cs = c # cs'" by (cases cs) (simp_all add: hex_encode_def)
    with Cons hex_byte [of b c] show ?case by (auto simp: hex_encode_def)
  qed
qed simp

lemma hex_encode_length: "length (hex_encode bs) = 2 * length bs"
  by (induction bs) (simp_all add: hex_encode_def)

section \<open>Equal streams, equal runs\<close>

lemma equal_streams_equal_runs:
  assumes wf: "world_wf w"
    and runs: "run_stream rx js w r n = Some (s, r1, w1)" "run_stream rx' js' w r' n = Some (s, r2, w2)"
    and traces: "run_trace rx js (unat n) r w = Some (tr1, v1)" "run_trace rx' js' (unat n) r' w = Some (tr2, v2)"
    and typed: "list_all tick_typed tr1" "list_all tick_typed tr2"
      "pred_option runtime_typed (w_sl1_runtime w1)" "pred_option runtime_typed (w_sl1_runtime w2)"
    and l: "length s < 2 ^ 64"
  shows "tr1 = tr2 \<and> same_hashed w1 w2"
proof -
  obtain s1 where s1: "feed_ticks rx js (unat n) r w = Some (s1, r1, w1)"
    and s: "s = feed_world w @ s1 @ as_bytes ''final'' @ feed_world w1"
    using runs(1) by (auto simp: run_stream_def)
  obtain s2 where s2: "feed_ticks rx' js' (unat n) r' w = Some (s2, r2, w2)"
    and s': "s = feed_world w @ s2 @ as_bytes ''final'' @ feed_world w2"
    using runs(2) by (auto simp: run_stream_def)
  from feed_ticks_trace [OF s1] traces(1) have 1: "v1 = w1" "s1 = feed_all feed_tick_trace tr1" "length tr1 = unat n"
    by auto
  from feed_ticks_trace [OF s2] traces(2) have 2: "v2 = w2" "s2 = feed_all feed_tick_trace tr2" "length tr2 = unat n"
    by auto
  have l1: "length (feed_all feed_tick_trace tr1) < 2 ^ 64" "length (feed_world w1) < 2 ^ 64"
    using l unfolding s 1 by simp_all
  have l2: "length (feed_all feed_tick_trace tr2) < 2 ^ 64" "length (feed_world w2) < 2 ^ 64"
    using l unfolding s' 2 by simp_all
  have "feed_all feed_tick_trace tr1 @ (as_bytes ''final'' @ feed_world w1)
      = feed_all feed_tick_trace tr2 @ (as_bytes ''final'' @ feed_world w2)"
    using s s' by (simp add: 1 2)
  then have t: "tr1 = tr2 \<and> as_bytes ''final'' @ feed_world w1 = as_bytes ''final'' @ feed_world w2"
    by (rule code.feed_all_unique [OF code_tick_trace])
      (use 1 2 typed(1,2) l1 l2 in \<open>simp_all\<close>)
  have k1: "world_wf w1 \<and> same_scene w w1" by (rule run_trace_keeps [OF wf traces(1) [unfolded 1(1)]])
  have k2: "world_wf w2 \<and> same_scene w w2" by (rule run_trace_keeps [OF wf traces(2) [unfolded 2(1)]])
  have "same_hashed w1 w2"
    by (rule world_readable)
      (use t k1 k2 typed(3,4) l1 l2 in \<open>auto simp: same_scene_def\<close>)
  with t show ?thesis by blast
qed

end
