(* ===== verification/Hash_Properties.thy ===== *)
theory Hash_Properties
  imports Hash_Runs Hash_Scene_Proofs Engine_Properties
begin

text \<open>
  Properties of the state hash: what a stream of bytes determines, and what it does not.
\<close>

section \<open>Events\<close>

text \<open>
  C7. A list of hashed events can be read back from the stream, and so can what follows it, if
  no agent id in an \<open>AgentDecided\<close> event has a byte of at most 8.
\<close>

theorem events_readable:
  assumes "feed_list feed_event es @ xs = feed_list feed_event fs @ ys"
    and "list_all event_ok es" and "list_all event_ok fs"
    and "length (feed_list feed_event es) < 2 ^ 64" and "length (feed_list feed_event fs) < 2 ^ 64"
  shows "es = fs \<and> xs = ys"
  using assms by (rule event.feed_list_unique)


text \<open>
  With such a byte it cannot: the id is written without its length, so two different lists of
  events, of equal length, give the same stream and therefore the same hash.
\<close>

lemma agent_id_not_delimited:
  "feed_list feed_event [AgentDecided ''a'' TagNoOp, PathPulsed 0x00150062]
     = feed_list feed_event [AgentDecided [CHR ''a'', CHR 0x00, CHR 0x14, CHR ''b''] TagNoOp, AgentDecided '''' TagNoOp]"
  by code_simp

text \<open>The witness: what a tuner and a disabled model leave in one tick.\<close>

definition sample_events :: "sim_event list" where
  "sample_events = [MoverSpeedChange 5 0 1, AgentDecided ''tuner'' TagSetSpeed, Sl1AgentLlmDisabled ''llm'' 3]"

theorem events_readable_witness:
  "feed_list feed_event sample_events @ [1] \<noteq> feed_list feed_event [Tick 1] @ [2, 3]"
proof -
  have "list_all event_ok sample_events" "drop 100 (feed_list feed_event sample_events) = []" by code_simp+
  then have "length (feed_list feed_event sample_events) < 2 ^ 64" "list_all event_ok sample_events" by simp_all
  moreover have "length (feed_list feed_event [Tick 1]) < 2 ^ 64"
    by (simp add: feed_list_def feed_all_def)
  ultimately show ?thesis
    using events_readable [of sample_events "[1]" "[Tick 1]" "[2, 3]"] by auto
qed

section \<open>The demo scene\<close>

lemma length_feed:
  "length (feed_list f vs) = 8 + length (feed_all f vs)" "length (feed_map g h m) = 8 + length (feed_all (feed_pair g h) m)"
  "length (feed_str_list ss) = 8 + length (feed_all feed_str ss)"
  "length (feed_pair g h p) = length (g (fst p)) + length (h (snd p))"
  by (simp_all add: feed_list_def feed_map_def feed_pair_def feed_str_list_def)

lemmas feed_scene_defs = feed_scene_def feed_counts_def feed_place_def feed_thing_def feed_transform_def
  feed_demand_def feed_pressure_def feed_objective_def feed_failure_condition_def
  feed_victory_condition_def feed_observability_def feed_tagged_def feed_metric_def
  feed_metric_source_def feed_dashboard_def feed_alert_def feed_agent_def feed_target_def
  feed_milestone_def feed_io_def feed_storage_slot_def feed_operating_state_def

lemma demo_scene_short: "length (feed_scene demo) < 2 ^ 64"
  by (simp add: feed_scene_defs demo_defs length_feed)

text \<open>
  C6. The fingerprint of a scene determines its schema version and its places, links, things,
  transforms, demands, pressures, objectives and failure conditions, up to the sign of a zero
  percentage, whatever follows it in the stream: two scenes that differ in one of them never
  start the same stream.
\<close>

theorem scene_sections_readable:
  assumes "feed_scene sc @ xs = feed_scene sc' @ ys" and "scene_typed sc" and "scene_typed sc'"
    and "length (feed_scene sc) < 2 ^ 64" and "length (feed_scene sc') < 2 ^ 64"
  shows "same_sections sc sc'"
  using assms by (rule scene_readable)

lemma demo_typed: "scene_typed demo"
  by (simp add: scene_typed_def demo_def demo_thing_def demo_demand_def canonical_thing_def typed_demand_def in_i64_def)

theorem scene_sections_readable_witness:
  "feed_scene demo @ [1] \<noteq> feed_scene (demo\<lparr>sc_places := []\<rparr>) @ [2, 3]"
proof
  let ?sc = "demo\<lparr>sc_places := []\<rparr>"
  assume eq: "feed_scene demo @ [1] = feed_scene ?sc @ [2, 3]"
  have "scene_typed ?sc" using demo_typed by (simp add: scene_typed_def)
  moreover have "length (feed_scene ?sc) < 2 ^ 64"
    by (simp add: feed_scene_defs demo_defs length_feed)
  ultimately have "same_sections demo ?sc"
    using scene_sections_readable [OF eq demo_typed] demo_scene_short by blast
  then show False by (simp add: same_sections_def demo_def)
qed

section \<open>Runs\<close>

text \<open>
  C5. The hash of a run is a determinism contract: two runs from the same well-formed world,
  with whatever agents, logs and expressions, that print the same hash have emitted the same
  events and the same messages in every tick, in the same order, and have ended in the same
  world: equal nodes, paths, movers, inventories, producers, consumers, equal colors of
  resources, and an equal hashed part of the SL1 runtime. Two things are assumed: the digest
  does not collide on the two streams, and no agent id of an \<open>AgentDecided\<close> event holds a byte
  of at most 8 (\<open>plain_id\<close>, part of \<open>tick_typed\<close>), because that id is written without its length
  (\<open>agent_id_not_delimited\<close> shows what happens without it). The rest of \<open>tick_typed\<close> and
  \<open>runtime_typed\<close> holds of every value of the Rust types (ranges of integers, finite sets), and a
  stream is shorter than \<open>2 ^ 64\<close> bytes.
\<close>

theorem equal_hash_equal_run:
  assumes "world_wf w"
    and "run_stream rx js w r n = Some (s, r1, w1)" and "run_stream rx' js' w r' n = Some (t, r2, w2)"
    and "map_option fst (hash_run sha256 rx js w r n) = map_option fst (hash_run sha256 rx' js' w r' n)"
    and "inj_on sha256 {s, t}" and "length s < 2 ^ 64"
    and "run_trace rx js (unat n) r w = Some (tr1, v1)" and "run_trace rx' js' (unat n) r' w = Some (tr2, v2)"
    and "list_all tick_typed tr1" and "list_all tick_typed tr2"
    and "pred_option runtime_typed (w_sl1_runtime w1)" and "pred_option runtime_typed (w_sl1_runtime w2)"
  shows "tr1 = tr2 \<and> same_hashed w1 w2"
proof -
  have "sha256 s = sha256 t"
    using assms(4) unfolding hash_run_def assms(2,3) by (simp add: hex_encode_inject)
  from inj_onD [OF assms(5) this] have "s = t" by blast
  with assms(3) have "run_stream rx' js' w r' n = Some (s, r2, w2)" by simp
  from equal_streams_equal_runs [OF assms(1,2) this assms(7-12) assms(6)] show ?thesis .
qed

text \<open>
  The witness runs an empty world with an agent that panics, twice, with different texts for
  log rows.
\<close>

definition blank :: "unit world" where "blank = world_new (\<lambda>_. ()) 7"

definition blank_runner :: "(unit, unit, unit) tick_runner" where
  "blank_runner = register_agent (reckless ''b'') runner_new"

definition some_json :: "agent_log_entry \<Rightarrow> string option" where "some_json = (\<lambda>_. Some ''row'')"

lemma blank_streams:
  "map_option (\<lambda>(s, _). drop 2000 s) (run_stream no_regex no_json blank blank_runner 1) = Some []"
  "map_option fst (run_stream no_regex some_json blank blank_runner 1)
    = map_option fst (run_stream no_regex no_json blank blank_runner 1)"
  by code_simp+

lemma blank_traces:
  "map_option (\<lambda>(tr, w). list_all tick_typed tr \<and> w_sl1_runtime w = None)
    (run_trace no_regex no_json 1 blank_runner blank) = Some True"
  "map_option fst (run_trace no_regex some_json 1 blank_runner blank)
    = map_option fst (run_trace no_regex no_json 1 blank_runner blank)"
  by code_simp+

lemma blank_ticks:
  assumes "run_stream rx js blank blank_runner 1 = Some (s, r1, w1)"
  shows "\<exists>tr. run_trace rx js (unat (1 :: u64)) blank_runner blank = Some (tr, w1)"
proof -
  from assms obtain s' where "feed_ticks rx js (unat (1 :: u64)) blank_runner blank = Some (s', r1, w1)"
    unfolding run_stream_def by auto
  from feed_ticks_trace [OF this] show ?thesis by blast
qed

theorem equal_hash_equal_run_witness:
  "\<exists>s t r1 r2 w1 w2 tr. run_stream no_regex no_json blank blank_runner 1 = Some (s, r1, w1)
     \<and> run_stream no_regex some_json blank blank_runner 1 = Some (t, r2, w2)
     \<and> run_trace no_regex no_json 1 blank_runner blank = Some (tr, w1)
     \<and> run_trace no_regex some_json 1 blank_runner blank = Some (tr, w2) \<and> same_hashed w1 w2"
proof -
  obtain s r1 w1 where s: "run_stream no_regex no_json blank blank_runner 1 = Some (s, r1, w1)"
    and l: "length s < 2 ^ 64" using blank_streams(1) by auto
  obtain t r2 w2 where t: "run_stream no_regex some_json blank blank_runner 1 = Some (t, r2, w2)"
    using blank_streams(2) s by auto
  obtain tr1 where 1: "run_trace no_regex no_json (unat (1 :: u64)) blank_runner blank = Some (tr1, w1)"
    using blank_ticks [OF s] by blast
  obtain tr2 where 2: "run_trace no_regex some_json (unat (1 :: u64)) blank_runner blank = Some (tr2, w2)"
    using blank_ticks [OF t] by blast
  have ty: "list_all tick_typed tr1" "w_sl1_runtime w1 = None" using blank_traces(1) 1 by simp_all
  have eq: "tr2 = tr1" using blank_traces(2) 1 2 by simp
  have wf: "world_wf blank" unfolding blank_def by (rule world_new_wf)
  then have "same_scene blank w2" using run_trace_keeps [OF _ 2] by blast
  then have none: "w_sl1_runtime w2 = None" by (simp add: same_scene_def blank_def world_new_def)
  have "map_option fst (hash_run id no_regex no_json blank blank_runner 1)
      = map_option fst (hash_run id no_regex some_json blank blank_runner 1)"
    using blank_streams(2) by (simp add: hash_run_def s t)
  from equal_hash_equal_run [OF wf s t this _ l 1 2] ty eq none s t 1 2 show ?thesis by auto
qed

definition rename :: "(string \<Rightarrow> string) \<Rightarrow> 'r world \<Rightarrow> 'r world" where
  "rename f w = w\<lparr>w_resources := map (map_prod id (\<lambda>x. x\<lparr>re_name := f (re_name x)\<rparr>)) (w_resources w)\<rparr>"

definition with_pressure :: "sl1_pressure_runtime \<Rightarrow> 'r world \<Rightarrow> 'r world" where
  "with_pressure p w = w\<lparr>w_sl1_runtime := map_option (\<lambda>r. r\<lparr>pressure := p\<rparr>) (w_sl1_runtime w)\<rparr>"

text \<open>
  What the hash does not see: the runtime of the pressures (which are active, which links
  are out, what is carried over to the next injection) and the names of resources.
\<close>

lemma hash_blind_spots:
  "hash_world sha256 (rename f (with_pressure p w)) = hash_world sha256 w"
proof -
  have rt: "feed_runtime sc (r\<lparr>pressure := p\<rparr>) = feed_runtime sc r" for sc and r :: sl1_runtime
    by (simp add: feed_runtime_def feed_rt_things_def feed_rt_transforms_def feed_rt_demand_def
        feed_rt_objectives_def feed_rt_failures_def feed_rt_victories_def feed_rt_outcome_def
        feed_rt_observability_def feed_rt_agents_def feed_rt_milestones_def cong: option.case_cong)
  have "colors (map (map_prod id (\<lambda>x. x\<lparr>re_name := f (re_name x)\<rparr>)) m) = colors m" for m
    by (simp add: colors_def map_prod_def comp_def case_prod_beta)
  then have "feed_world (rename f u) = feed_world u" for u :: "'a world"
    by (simp add: feed_world_def rename_def has_production_def feed_production_def feed_colors feed_sl1_def
        cong: option.case_cong)
  moreover have "feed_world (with_pressure p w) = feed_world w"
    by (simp add: feed_world_def with_pressure_def has_production_def feed_production_def feed_sl1_def rt
        option.case_eq_if option.map_sel)
  ultimately show ?thesis by (simp add: hash_world_def)
qed

end
