(* ===== verification/Timeline.thy ===== *)
theory Timeline
  imports Protocol
begin

text \<open>
  The ledger of agent decisions (\<open>crates/protocol/src/decision_timeline.rs\<close>): a bounded window
  of entries with monotone ids, each a small state machine from pending to one of three final
  states. The transitions are the relation \<open>status_step\<close>, and the contract of every operation
  that targets one entry is the locale \<open>entry_op\<close>.
\<close>

section \<open>Entries\<close>

definition DECISION_TIMELINE_SCHEMA_VERSION :: u32 where "DECISION_TIMELINE_SCHEMA_VERSION = 1"
definition DEFAULT_TIMELINE_CAPACITY :: nat where "DEFAULT_TIMELINE_CAPACITY = 4096"

datatype decision_status =
    DsPending
  | DsApplied (applied_tick: u64)
  | DsExpired (expired_tick: u64)
  | DsGaveUp (last_tick: u64)
  | DsFaulted (fault_tick: u64) (fault_reason: string)

fun status_terminal :: "decision_status \<Rightarrow> bool" where
  "status_terminal DsPending = False"
| "status_terminal (DsApplied _) = True"
| "status_terminal (DsExpired _) = False"
| "status_terminal (DsGaveUp _) = True"
| "status_terminal (DsFaulted _ _) = True"

fun status_name :: "decision_status \<Rightarrow> string" where
  "status_name DsPending = ''pending''"
| "status_name (DsApplied _) = ''applied''"
| "status_name (DsExpired _) = ''expired''"
| "status_name (DsGaveUp _) = ''gave_up''"
| "status_name (DsFaulted _ _) = ''faulted''"

record raw_response_ref =
  rr_scene_id :: string
  rr_byte_offset :: u64
  rr_byte_len :: u64

record decision_response =
  dr_chosen :: "action option"
  dr_rationale :: string
  dr_confidence :: f32_bits
  dr_latency_ms :: "u32 option"
  dr_raw_response_ref :: "raw_response_ref option"

record decision_entry =
  de_schema_version :: u32
  de_id :: u64
  de_source_tick :: u64
  de_agent_id :: string
  de_status :: decision_status
  de_attempts :: u32
  de_response :: "decision_response option"
  de_last_warning :: "warning_payload option"
  de_last_expired_tick :: "u64 option"

record decision_timeline =
  tl_schema_version :: u32
  tl_next_id :: u64
  tl_cap :: nat
  tl_entries :: "decision_entry list"

datatype timeline_error =
    UnknownEntry u64 bool
  | IllegalTransition u64 string string

section \<open>The window\<close>

definition tl_with_capacity :: "nat \<Rightarrow> decision_timeline" where
  "tl_with_capacity n = \<lparr>tl_schema_version = DECISION_TIMELINE_SCHEMA_VERSION, tl_next_id = 1,
     tl_cap = max n 1, tl_entries = []\<rparr>"

definition tl_new :: decision_timeline where
  "tl_new = tl_with_capacity DEFAULT_TIMELINE_CAPACITY"

definition fresh_entry :: "u64 \<Rightarrow> u64 \<Rightarrow> string \<Rightarrow> decision_entry" where
  "fresh_entry i source agent = \<lparr>de_schema_version = DECISION_TIMELINE_SCHEMA_VERSION, de_id = i,
     de_source_tick = source, de_agent_id = agent, de_status = DsPending, de_attempts = 1,
     de_response = None, de_last_warning = None, de_last_expired_tick = None\<rparr>"

text \<open>\<open>pop_front\<close> makes room for the new entry.\<close>

definition allocate :: "u64 \<Rightarrow> string \<Rightarrow> decision_timeline \<Rightarrow> u64 \<times> decision_timeline" where
  "allocate source agent d =
     (let i = tl_next_id d; es = tl_entries d in
      (i, d\<lparr>tl_next_id := sat_add i 1,
            tl_entries := (if tl_cap d \<le> length es then tl es else es) @ [fresh_entry i source agent]\<rparr>))"

definition oldest_id :: "decision_timeline \<Rightarrow> u64 option" where
  "oldest_id d = (case tl_entries d of [] \<Rightarrow> None | e # _ \<Rightarrow> Some (de_id e))"

fun position :: "('a \<Rightarrow> bool) \<Rightarrow> 'a list \<Rightarrow> nat option" where
  "position P [] = None"
| "position P (x # xs) = (if P x then Some 0 else map_option Suc (position P xs))"

definition find_index :: "decision_timeline \<Rightarrow> u64 \<Rightarrow> nat option" where
  "find_index d i = position (\<lambda>e. de_id e = i) (tl_entries d)"

definition was_evicted :: "decision_timeline \<Rightarrow> u64 \<Rightarrow> bool" where
  "was_evicted d i \<longleftrightarrow> 0 < i \<and> i < tl_next_id d \<and> find_index d i = None"

definition tl_get :: "decision_timeline \<Rightarrow> u64 \<Rightarrow> decision_entry option" where
  "tl_get d i = map_option (\<lambda>k. tl_entries d ! k) (find_index d i)"

definition entry_mut :: "decision_timeline \<Rightarrow> u64 \<Rightarrow> timeline_error + nat" where
  "entry_mut d i = (case find_index d i of
     None \<Rightarrow> Inl (UnknownEntry i (was_evicted d i)) | Some k \<Rightarrow> Inr k)"

section \<open>Operations on one entry\<close>

text \<open>The five operations share this shape: find the entry, check its status, update it.\<close>

definition transition ::
  "(decision_status \<Rightarrow> bool) \<Rightarrow> string \<Rightarrow> (decision_entry \<Rightarrow> decision_entry) \<Rightarrow> u64 \<Rightarrow> decision_timeline
    \<Rightarrow> (timeline_error + unit) \<times> decision_timeline" where
  "transition allowed target f i d = (case entry_mut d i of
     Inl err \<Rightarrow> (Inl err, d)
   | Inr k \<Rightarrow> let e = tl_entries d ! k in
       if \<not> allowed (de_status e) then (Inl (IllegalTransition i (status_name (de_status e)) target), d)
       else (Inr (), d\<lparr>tl_entries := (tl_entries d)[k := f e]\<rparr>))"

fun is_pending :: "decision_status \<Rightarrow> bool" where
  "is_pending DsPending = True"
| "is_pending _ = False"

fun is_expired :: "decision_status \<Rightarrow> bool" where
  "is_expired (DsExpired _) = True"
| "is_expired _ = False"

definition applied_entry :: "u64 \<Rightarrow> decision_response \<Rightarrow> decision_entry \<Rightarrow> decision_entry" where
  "applied_entry tick resp e =
     e\<lparr>de_status := DsApplied tick, de_response := Some resp, de_last_warning := None\<rparr>"

definition record_reply ::
  "u64 \<Rightarrow> u64 \<Rightarrow> decision_response \<Rightarrow> decision_timeline \<Rightarrow> (timeline_error + unit) \<times> decision_timeline" where
  "record_reply i tick resp d = transition is_pending ''applied'' (applied_entry tick resp) i d"

definition with_warning :: "warning_payload option \<Rightarrow> decision_entry \<Rightarrow> decision_entry" where
  "with_warning w e = (if w \<noteq> None then e\<lparr>de_last_warning := w\<rparr> else e)"

definition expired_entry :: "u64 \<Rightarrow> warning_payload option \<Rightarrow> decision_entry \<Rightarrow> decision_entry" where
  "expired_entry tick w e =
     with_warning w (e\<lparr>de_status := DsExpired tick, de_last_expired_tick := Some tick\<rparr>)"

definition record_expiry ::
  "u64 \<Rightarrow> u64 \<Rightarrow> warning_payload option \<Rightarrow> decision_timeline \<Rightarrow> (timeline_error + unit) \<times> decision_timeline" where
  "record_expiry i tick w d = transition is_pending ''expired'' (expired_entry tick w) i d"

definition reissued_entry :: "decision_entry \<Rightarrow> decision_entry" where
  "reissued_entry e = e\<lparr>de_attempts := sat_add (de_attempts e) 1, de_status := DsPending\<rparr>"

definition reissue :: "u64 \<Rightarrow> decision_timeline \<Rightarrow> (timeline_error + unit) \<times> decision_timeline" where
  "reissue i d = transition is_expired ''pending(reissue)'' reissued_entry i d"

definition given_up_entry :: "u64 \<Rightarrow> warning_payload option \<Rightarrow> decision_entry \<Rightarrow> decision_entry" where
  "given_up_entry tick w e = with_warning w (e\<lparr>de_status := DsGaveUp tick\<rparr>)"

definition give_up ::
  "u64 \<Rightarrow> u64 \<Rightarrow> warning_payload option \<Rightarrow> decision_timeline \<Rightarrow> (timeline_error + unit) \<times> decision_timeline" where
  "give_up i tick w d = transition is_expired ''gave_up'' (given_up_entry tick w) i d"

definition record_fault ::
  "u64 \<Rightarrow> u64 \<Rightarrow> string \<Rightarrow> decision_timeline \<Rightarrow> (timeline_error + unit) \<times> decision_timeline" where
  "record_fault i tick reason d = transition (\<lambda>s. is_pending s \<or> is_expired s) ''faulted''
     (\<lambda>e. e\<lparr>de_status := DsFaulted tick reason\<rparr>) i d"

section \<open>Snapshots\<close>

record timeline_snapshot =
  ts_schema_version :: u32
  ts_entries :: "decision_entry list"

definition snapshot :: "decision_timeline \<Rightarrow> timeline_snapshot" where
  "snapshot d = \<lparr>ts_schema_version = tl_schema_version d, ts_entries = tl_entries d\<rparr>"

datatype schema_version_mismatch = SchemaVersionMismatch (svm_where: string) (svm_got: u32) (svm_expected: u32)

fun check_entry_versions :: "decision_entry list \<Rightarrow> schema_version_mismatch + unit" where
  "check_entry_versions [] = Inr ()"
| "check_entry_versions (e # es) =
     (if de_schema_version e \<noteq> DECISION_TIMELINE_SCHEMA_VERSION
      then Inl (SchemaVersionMismatch ''entry'' (de_schema_version e) DECISION_TIMELINE_SCHEMA_VERSION)
      else check_entry_versions es)"

definition snapshot_validate :: "timeline_snapshot \<Rightarrow> schema_version_mismatch + unit" where
  "snapshot_validate s =
     (if ts_schema_version s \<noteq> DECISION_TIMELINE_SCHEMA_VERSION
      then Inl (SchemaVersionMismatch ''snapshot'' (ts_schema_version s) DECISION_TIMELINE_SCHEMA_VERSION)
      else check_entry_versions (ts_entries s))"

datatype 'e from_json_error = ParseFailed 'e | SchemaFailed schema_version_mismatch

text \<open>The parser of the crate \<open>serde_json\<close> is a parameter.\<close>

definition from_json_str ::
  "(string \<Rightarrow> 'e + timeline_snapshot) \<Rightarrow> string \<Rightarrow> 'e from_json_error + timeline_snapshot" where
  "from_json_str parse s = (case parse s of
     Inl e \<Rightarrow> Inl (ParseFailed e)
   | Inr snap \<Rightarrow> (case snapshot_validate snap of Inl e \<Rightarrow> Inl (SchemaFailed e) | Inr _ \<Rightarrow> Inr snap))"

section \<open>The state machine\<close>

inductive status_step :: "decision_status \<Rightarrow> decision_status \<Rightarrow> bool" where
  step_apply: "status_step DsPending (DsApplied t)"
| step_expire: "status_step DsPending (DsExpired t)"
| step_reissue: "status_step (DsExpired t) DsPending"
| step_give_up: "status_step (DsExpired t) (DsGaveUp u)"
| step_fault: "\<not> status_terminal s \<Longrightarrow> status_step s (DsFaulted t reason)"

inductive_cases status_step_finalE: "status_step s s'"

lemma status_step_from: "status_step s s' \<Longrightarrow> \<not> status_terminal s"
  by (auto elim: status_step.cases)

section \<open>The invariant\<close>

definition tl_inv :: "decision_timeline \<Rightarrow> bool" where
  "tl_inv d \<longleftrightarrow> sorted_wrt (<) (map de_id (tl_entries d)) \<and> 0 < tl_next_id d
     \<and> (\<forall>e \<in> set (tl_entries d). 0 < de_id e \<and> de_id e < tl_next_id d)
     \<and> 0 < tl_cap d \<and> length (tl_entries d) \<le> tl_cap d
     \<and> tl_schema_version d = DECISION_TIMELINE_SCHEMA_VERSION
     \<and> (\<forall>e \<in> set (tl_entries d). de_schema_version e = DECISION_TIMELINE_SCHEMA_VERSION)"

lemma tl_inv_new: "tl_inv (tl_with_capacity n)"
  by (simp add: tl_inv_def tl_with_capacity_def)

lemma position_Some: "position P xs = Some k \<Longrightarrow> k < length xs \<and> P (xs ! k) \<and> (\<forall>j < k. \<not> P (xs ! j))"
  by (induction xs arbitrary: k) (auto split: if_splits simp: nth_Cons' less_Suc_eq_0_disj)

lemma position_None: "position P xs = None \<longleftrightarrow> (\<forall>x \<in> set xs. \<not> P x)"
  by (induction xs) auto

lemma tl_get_find: "tl_get d i = find (\<lambda>e. de_id e = i) (tl_entries d)"
proof -
  have "map_option (\<lambda>k. es ! k) (position (\<lambda>e. de_id e = i) es) = find (\<lambda>e. de_id e = i) es" for es
    by (induction es) (auto simp: option.map_comp comp_def)
  then show ?thesis by (simp add: tl_get_def find_index_def)
qed

lemma tl_get_SomeD: "tl_get d i = Some e \<Longrightarrow> e \<in> set (tl_entries d) \<and> de_id e = i"
  by (auto simp: tl_get_find find_Some_iff)

lemma tl_get_None: "tl_get d i = None \<longleftrightarrow> i \<notin> de_id ` set (tl_entries d)"
  by (auto simp: tl_get_find find_None_iff)

lemma tl_inv_distinct: "tl_inv d \<Longrightarrow> distinct (map de_id (tl_entries d))"
  by (simp add: tl_inv_def strict_sorted_iff)

lemma tl_get_mem: "tl_inv d \<Longrightarrow> e \<in> set (tl_entries d) \<Longrightarrow> tl_get d (de_id e) = Some e"
proof -
  assume "tl_inv d" "e \<in> set (tl_entries d)"
  moreover have "distinct (map de_id es) \<Longrightarrow> e \<in> set es \<Longrightarrow> find (\<lambda>x. de_id x = de_id e) es = Some e" for es
    by (induction es) auto
  ultimately show ?thesis by (simp add: tl_get_find tl_inv_distinct)
qed

section \<open>The contract of an operation on one entry\<close>

locale entry_op =
  fixes op :: "u64 \<Rightarrow> decision_timeline \<Rightarrow> (timeline_error + unit) \<times> decision_timeline"
    and allowed :: "decision_status \<Rightarrow> bool" and eff :: "decision_entry \<Rightarrow> decision_entry"
  assumes fails: "isl (fst (op i d)) \<Longrightarrow> snd (op i d) = d"
    and works_iff: "\<not> isl (fst (op i d)) \<longleftrightarrow> (\<exists>e. tl_get d i = Some e \<and> allowed (de_status e))"
    and effect: "tl_inv d \<Longrightarrow> \<not> isl (fst (op i d)) \<Longrightarrow>
      snd (op i d) = d\<lparr>tl_entries := map (\<lambda>e. if de_id e = i then eff e else e) (tl_entries d)\<rparr>"
    and eff_keeps: "de_id (eff e) = de_id e" "de_schema_version (eff e) = de_schema_version e"
      "de_agent_id (eff e) = de_agent_id e" "de_source_tick (eff e) = de_source_tick e"
    and eff_step: "allowed (de_status e) \<Longrightarrow> status_step (de_status e) (de_status (eff e))"
begin

lemma op_inv:
  assumes "tl_inv d"
  shows "tl_inv (snd (op i d))"
proof (cases "isl (fst (op i d))")
  case False
  have "de_id \<circ> (\<lambda>e. if de_id e = i then eff e else e) = de_id"
    by (auto simp: eff_keeps)
  with assms show ?thesis
    unfolding effect [OF assms False] tl_inv_def by (auto simp: eff_keeps)
qed (simp add: fails assms)

lemma op_get:
  assumes "tl_inv d" and "\<not> isl (fst (op i d))"
  shows "tl_get (snd (op i d)) j = (if j = i then map_option eff (tl_get d i) else tl_get d j)"
proof -
  have "find (\<lambda>e. de_id e = j) (map (\<lambda>e. if de_id e = i then eff e else e) es)
      = (if j = i then map_option eff (find (\<lambda>e. de_id e = i) es) else find (\<lambda>e. de_id e = j) es)" for es
    by (induction es) (auto simp: eff_keeps)
  then show ?thesis by (simp add: effect [OF assms] tl_get_find)
qed

lemma op_elsewhere: "tl_inv d \<Longrightarrow> j \<noteq> i \<Longrightarrow> tl_get (snd (op i d)) j = tl_get d j"
  by (cases "isl (fst (op i d))") (simp_all add: fails op_get)

lemma op_at:
  assumes "tl_inv d" and "\<And>e. tl_get d i = Some e \<Longrightarrow> allowed (de_status e)"
  shows "tl_get (snd (op i d)) i = map_option eff (tl_get d i)"
proof (cases "isl (fst (op i d))")
  case True
  with works_iff [of i d] assms(2) have "tl_get d i = None" by fastforce
  with True show ?thesis by (simp add: fails)
qed (simp add: op_get assms(1))

text \<open>Exactly what one call does to an entry of the window.\<close>

lemma op_exact:
  assumes "tl_inv d" and "tl_get d j = Some e"
  shows "tl_get (snd (op i d)) j = Some (if j = i \<and> allowed (de_status e) then eff e else e)"
proof (cases "isl (fst (op i d))")
  case True
  with works_iff [of i d] assms show ?thesis by (auto simp: fails)
next
  case False
  with works_iff [of i d] assms show ?thesis by (auto simp: op_get)
qed

text \<open>Whatever the operation does, it keeps final entries, and takes one legal step otherwise.\<close>

lemma op_step:
  assumes "tl_inv d" and "tl_get d j = Some e"
  obtains e' where "tl_get (snd (op i d)) j = Some e'"
    and "e' = e \<or> j = i \<and> e' = eff e \<and> status_step (de_status e) (de_status e')"
proof (cases "isl (fst (op i d))")
  case True
  with assms that [of e] show thesis by (simp add: fails)
next
  case False
  show thesis
  proof (cases "j = i")
    case True
    have "allowed (de_status e)" using works_iff [of i d] False assms(2) True by auto
    with True False assms show thesis by (intro that [of "eff e"]) (simp_all add: op_get eff_step)
  next
    case False': False
    with False assms that [of e] show thesis by (simp add: op_get)
  qed
qed

lemma op_final:
  assumes "tl_inv d" and "tl_get d j = Some e" and "status_terminal (de_status e)"
  shows "tl_get (snd (op i d)) j = Some e"
  using op_step [OF assms(1,2), of i] status_step_from assms(3) by metis

end

lemma find_index_get:
  "find_index d i = Some k \<Longrightarrow> tl_get d i = Some (tl_entries d ! k)"
  "find_index d i = None \<Longrightarrow> tl_get d i = None"
  by (simp_all add: tl_get_def)

text \<open>With distinct ids, updating at the position found updates the entry with the id.\<close>

lemma update_at_position:
  assumes "distinct (map de_id es)" and "position (\<lambda>e. de_id e = i) es = Some k"
  shows "es[k := f (es ! k)] = map (\<lambda>e. if de_id e = i then f e else e) es"
  using assms
proof (induction es arbitrary: k)
  case (Cons e es)
  have "map (\<lambda>x. if de_id x = de_id e then f x else x) es = es" if "de_id e = i"
    using Cons.prems(1) that by (intro map_idI) (metis distinct.simps(2) imageI list.map(2) list.set_map)
  with Cons show ?case by (cases "de_id e = i") auto
qed simp

lemma transition_op:
  assumes "\<And>e. de_id (f e) = de_id e" and "\<And>e. de_schema_version (f e) = de_schema_version e"
    and "\<And>e. de_agent_id (f e) = de_agent_id e" and "\<And>e. de_source_tick (f e) = de_source_tick e"
    and "\<And>e. allowed (de_status e) \<Longrightarrow> status_step (de_status e) (de_status (f e))"
  shows "entry_op (transition allowed target f) allowed f"
proof
  fix i d
  show "isl (fst (transition allowed target f i d)) \<Longrightarrow> snd (transition allowed target f i d) = d"
    by (auto simp: transition_def Let_def split: sum.splits if_splits)
  show "(\<not> isl (fst (transition allowed target f i d))) = (\<exists>e. tl_get d i = Some e \<and> allowed (de_status e))"
    by (cases "find_index d i")
      (auto simp: transition_def entry_mut_def Let_def find_index_get)
  assume "tl_inv d" "\<not> isl (fst (transition allowed target f i d))"
  then show "snd (transition allowed target f i d)
      = d\<lparr>tl_entries := map (\<lambda>e. if de_id e = i then f e else e) (tl_entries d)\<rparr>"
    using update_at_position [OF tl_inv_distinct, of d i _ f]
    by (auto simp: transition_def entry_mut_def Let_def find_index_def split: option.splits if_splits)
qed (use assms in auto)

lemma with_warning_keeps [simp]:
  "de_id (with_warning w e) = de_id e" "de_schema_version (with_warning w e) = de_schema_version e"
  "de_agent_id (with_warning w e) = de_agent_id e" "de_source_tick (with_warning w e) = de_source_tick e"
  "de_status (with_warning w e) = de_status e" "de_attempts (with_warning w e) = de_attempts e"
  by (simp_all add: with_warning_def)

lemma is_pending_iff: "is_pending s \<longleftrightarrow> s = DsPending"
  by (cases s) simp_all

lemma is_expired_iff: "is_expired s \<longleftrightarrow> (\<exists>t. s = DsExpired t)"
  by (cases s) simp_all

interpretation reply: entry_op "\<lambda>i d. record_reply i t resp d" is_pending "applied_entry t resp" for t resp
  unfolding record_reply_def
  by (rule transition_op) (auto simp: applied_entry_def is_pending_iff intro: status_step.intros)

interpretation expiry: entry_op "\<lambda>i d. record_expiry i t w d" is_pending "expired_entry t w" for t w
  unfolding record_expiry_def
  by (rule transition_op) (auto simp: expired_entry_def is_pending_iff intro: status_step.intros)

interpretation again: entry_op reissue is_expired reissued_entry
  unfolding reissue_def [abs_def]
  by (rule transition_op) (auto simp: reissued_entry_def is_expired_iff intro: status_step.intros)

interpretation drop: entry_op "\<lambda>i d. give_up i t w d" is_expired "given_up_entry t w" for t w
  unfolding give_up_def
  by (rule transition_op) (auto simp: given_up_entry_def is_expired_iff intro: status_step.intros)

interpretation fault: entry_op "\<lambda>i d. record_fault i t reason d" "\<lambda>s. is_pending s \<or> is_expired s"
  "\<lambda>e. e\<lparr>de_status := DsFaulted t reason\<rparr>" for t reason
  unfolding record_fault_def
  by (rule transition_op) (auto simp: is_expired_iff is_pending_iff intro: status_step.intros)

section \<open>Allocation\<close>

lemma sat_add_one_less: "i \<noteq> - 1 \<Longrightarrow> i < sat_add i (1 :: u64)"
proof -
  assume "i \<noteq> - 1"
  have "unat i \<noteq> 2 ^ 64 - 1"
  proof
    assume "unat i = 2 ^ 64 - 1"
    then have "unat i = unat (- 1 :: u64)" unfolding unat_minus_one_eq by simp
    then have "i = - 1" by (rule unsigned_word_eqI)
    with \<open>i \<noteq> - 1\<close> show False by blast
  qed
  then have "unat i < 2 ^ 64 - 1" using unsigned_less [where 'a = nat, of i] by simp
  then show "i < sat_add i 1" by (simp add: word_less_nat_alt unat_sat_add)
qed

lemma allocate_inv:
  assumes "tl_inv d" and "tl_next_id d \<noteq> - 1"
  shows "tl_inv (snd (allocate source agent d))"
proof -
  let ?n = "tl_next_id d" and ?es = "if tl_cap d \<le> length (tl_entries d) then tl (tl_entries d) else tl_entries d"
  note less = sat_add_one_less [OF assms(2)]
  have sub: "set ?es \<subseteq> set (tl_entries d)" by (cases "tl_entries d") auto
  have "sorted_wrt (<) (map de_id ?es)"
    using assms(1) by (cases "tl_entries d") (simp_all add: tl_inv_def)
  moreover have "\<forall>e \<in> set ?es. de_id e < ?n" using assms(1) sub by (auto simp: tl_inv_def)
  ultimately have "sorted_wrt (<) (map de_id (?es @ [fresh_entry ?n source agent]))"
    by (auto simp: sorted_wrt_append fresh_entry_def)
  moreover have "\<forall>e \<in> set (?es @ [fresh_entry ?n source agent]). 0 < de_id e \<and> de_id e < sat_add ?n 1
      \<and> de_schema_version e = DECISION_TIMELINE_SCHEMA_VERSION"
    using assms(1) sub less by (fastforce simp: tl_inv_def fresh_entry_def)
  moreover have "length (?es @ [fresh_entry ?n source agent]) \<le> tl_cap d" "0 < tl_cap d" "0 < ?n"
    "tl_schema_version d = DECISION_TIMELINE_SCHEMA_VERSION"
    using assms(1) by (auto simp: tl_inv_def)
  ultimately show ?thesis
    using less by (auto simp: allocate_def Let_def tl_inv_def)
qed

text \<open>The window after an allocation: the new entry, and the old ones but for one.\<close>

lemma allocate_get:
  assumes "tl_inv d"
  shows "tl_get (snd (allocate source agent d)) (tl_next_id d)
      = Some (fresh_entry (tl_next_id d) source agent)"
    and "j \<noteq> tl_next_id d \<Longrightarrow> tl_get (snd (allocate source agent d)) j \<in> {tl_get d j, None}"
proof -
  let ?es = "if tl_cap d \<le> length (tl_entries d) then tl (tl_entries d) else tl_entries d"
  have es: "tl_entries (snd (allocate source agent d)) = ?es @ [fresh_entry (tl_next_id d) source agent]"
    by (simp add: allocate_def Let_def)
  have app: "find P (xs @ ys) = (case find P xs of None \<Rightarrow> find P ys | Some x \<Rightarrow> Some x)" for P and xs ys :: "'x list"
    by (induction xs) auto
  have sub: "set ?es \<subseteq> set (tl_entries d)" by (cases "tl_entries d") auto
  then have "\<forall>e \<in> set ?es. de_id e < tl_next_id d" using assms by (auto simp: tl_inv_def)
  then have "find (\<lambda>e. de_id e = tl_next_id d) ?es = None" unfolding find_None_iff by (metis order.strict_implies_not_eq)
  then show "tl_get (snd (allocate source agent d)) (tl_next_id d) = Some (fresh_entry (tl_next_id d) source agent)"
    by (simp add: tl_get_find es app fresh_entry_def)
  assume "j \<noteq> tl_next_id d"
  then have j: "tl_get (snd (allocate source agent d)) j = find (\<lambda>e. de_id e = j) ?es"
    by (simp add: tl_get_find es app fresh_entry_def split: option.split)
  show "tl_get (snd (allocate source agent d)) j \<in> {tl_get d j, None}"
  proof (cases "find (\<lambda>e. de_id e = j) ?es")
    case (Some e)
    then have "e \<in> set (tl_entries d)" "de_id e = j" using sub by (auto simp: find_Some_iff)
    with tl_get_mem [OF assms] show ?thesis using j Some by auto
  qed (simp add: j)
qed

lemma allocate_fields:
  "tl_next_id (snd (allocate source agent d)) = sat_add (tl_next_id d) 1" "fst (allocate source agent d) = tl_next_id d"
  by (simp_all add: allocate_def Let_def)

lemma op_fields:
  "tl_next_id (snd (record_reply i t resp d)) = tl_next_id d" "tl_next_id (snd (record_expiry i t w d)) = tl_next_id d"
  "tl_next_id (snd (reissue i d)) = tl_next_id d" "tl_next_id (snd (give_up i t w d)) = tl_next_id d"
  "tl_next_id (snd (record_fault i t reason d)) = tl_next_id d"
  by (simp_all add: record_reply_def record_expiry_def reissue_def give_up_def record_fault_def
      transition_def Let_def split: sum.split)

section \<open>Histories\<close>

datatype tl_op =
    TlAllocate u64 string
  | TlReply u64 u64 decision_response
  | TlExpiry u64 u64 "warning_payload option"
  | TlReissue u64
  | TlGiveUp u64 u64 "warning_payload option"
  | TlFault u64 u64 string

fun tl_step :: "tl_op \<Rightarrow> decision_timeline \<Rightarrow> decision_timeline" where
  "tl_step (TlAllocate t a) d = snd (allocate t a d)"
| "tl_step (TlReply i t resp) d = snd (record_reply i t resp d)"
| "tl_step (TlExpiry i t w) d = snd (record_expiry i t w d)"
| "tl_step (TlReissue i) d = snd (reissue i d)"
| "tl_step (TlGiveUp i t w) d = snd (give_up i t w d)"
| "tl_step (TlFault i t reason) d = snd (record_fault i t reason d)"

primrec tl_run :: "tl_op list \<Rightarrow> decision_timeline \<Rightarrow> decision_timeline" where
  "tl_run [] d = d"
| "tl_run (x # xs) d = tl_run xs (tl_step x d)"

lemma tl_step_inv: "tl_inv d \<Longrightarrow> tl_next_id d \<noteq> - 1 \<Longrightarrow> tl_inv (tl_step x d)"
  by (cases x) (simp_all add: allocate_inv reply.op_inv expiry.op_inv again.op_inv drop.op_inv fault.op_inv)

lemma unat_next_id: "unat (tl_next_id (tl_step x d)) \<le> Suc (unat (tl_next_id d))"
  by (cases x) (simp_all add: allocate_fields op_fields unat_sat_add)

lemma tl_step_next_id: "tl_next_id d \<le> tl_next_id (tl_step x d)"
  using unsigned_less [where 'a = nat, of "tl_next_id d"]
  by (cases x) (simp_all add: allocate_fields op_fields word_le_nat_alt unat_sat_add)

text \<open>
  The reference machine of one entry: what a call means for the status and the number of
  attempts of entry \<open>j\<close>. A call on another entry, or in a status it is not for, does nothing.
\<close>

fun status_after :: "u64 \<Rightarrow> tl_op \<Rightarrow> decision_status \<times> u32 \<Rightarrow> decision_status \<times> u32" where
  "status_after j (TlReply i t _) (DsPending, n) = (if i = j then DsApplied t else DsPending, n)"
| "status_after j (TlExpiry i t _) (DsPending, n) = (if i = j then DsExpired t else DsPending, n)"
| "status_after j (TlFault i t reason) (DsPending, n) = (if i = j then DsFaulted t reason else DsPending, n)"
| "status_after j (TlReissue i) (DsExpired u, n) = (if i = j then (DsPending, sat_add n 1) else (DsExpired u, n))"
| "status_after j (TlGiveUp i t _) (DsExpired u, n) = (if i = j then DsGaveUp t else DsExpired u, n)"
| "status_after j (TlFault i t reason) (DsExpired u, n) = (if i = j then DsFaulted t reason else DsExpired u, n)"
| "status_after j x s = s"

text \<open>One call moves an entry as the reference machine does, or evicts it; a final entry it leaves alone.\<close>

definition follows :: "(decision_status \<times> u32 \<Rightarrow> decision_status \<times> u32) \<Rightarrow> decision_entry \<Rightarrow> decision_entry \<Rightarrow> bool" where
  "follows m e e' \<longleftrightarrow> (de_status e', de_attempts e') = m (de_status e, de_attempts e)
     \<and> (status_terminal (de_status e) \<longrightarrow> e' = e) \<and> de_agent_id e' = de_agent_id e \<and> de_source_tick e' = de_source_tick e"

lemma status_after_final: "status_terminal (fst s) \<Longrightarrow> status_after j x s = s"
  by (cases s; cases x; cases "fst s") auto

lemma tl_step_entry:
  assumes "tl_inv d" and "tl_get d j = Some e"
  shows "tl_get (tl_step x d) j = None \<or> (\<exists>e'. tl_get (tl_step x d) j = Some e' \<and> follows (status_after j x) e e')"
proof (cases x)
  case (TlAllocate t a)
  have "j \<noteq> tl_next_id d" using assms by (auto dest!: tl_get_SomeD simp: tl_inv_def)
  with allocate_get(2) [OF assms(1) this, of t a] assms(2) show ?thesis by (auto simp: TlAllocate follows_def)
next
  case (TlReply i t r)
  show ?thesis unfolding TlReply tl_step.simps reply.op_exact [OF assms]
    by (cases "de_status e") (auto simp: follows_def applied_entry_def)
next
  case (TlExpiry i t w)
  show ?thesis unfolding TlExpiry tl_step.simps expiry.op_exact [OF assms]
    by (cases "de_status e") (auto simp: follows_def expired_entry_def)
next
  case (TlReissue i)
  show ?thesis unfolding TlReissue tl_step.simps again.op_exact [OF assms]
    by (cases "de_status e") (auto simp: follows_def reissued_entry_def)
next
  case (TlGiveUp i t w)
  show ?thesis unfolding TlGiveUp tl_step.simps drop.op_exact [OF assms]
    by (cases "de_status e") (auto simp: follows_def given_up_entry_def)
next
  case (TlFault i t w)
  show ?thesis unfolding TlFault tl_step.simps fault.op_exact [OF assms]
    by (cases "de_status e") (auto simp: follows_def)
qed

text \<open>An id below the counter that is gone stays gone.\<close>

lemma tl_step_gone:
  assumes "tl_inv d" and "j < tl_next_id d" and "tl_get d j = None"
  shows "tl_get (tl_step x d) j = None"
proof (cases x)
  case (TlAllocate t a)
  with allocate_get(2) [OF assms(1), of j t a] assms(2,3) show ?thesis by auto
next
  case (TlReply i t r)
  then show ?thesis using assms reply.op_get [where t = t and resp = r and d = d and i = i and j = j]
      reply.fails [where t = t and resp = r and d = d and i = i]
    by (cases "isl (fst (record_reply i t r d))") (auto split: if_splits)
next
  case (TlExpiry i t w)
  then show ?thesis using assms expiry.op_get [where t = t and w = w and d = d and i = i and j = j]
      expiry.fails [where t = t and w = w and d = d and i = i]
    by (cases "isl (fst (record_expiry i t w d))") (auto split: if_splits)
next
  case (TlReissue i)
  then show ?thesis using assms again.op_get [of d i j] again.fails [of i d]
    by (cases "isl (fst (reissue i d))") (auto split: if_splits)
next
  case (TlGiveUp i t w)
  then show ?thesis using assms drop.op_get [where t = t and w = w and d = d and i = i and j = j]
      drop.fails [where t = t and w = w and d = d and i = i]
    by (cases "isl (fst (give_up i t w d))") (auto split: if_splits)
next
  case (TlFault i t w)
  then show ?thesis using assms fault.op_get [where t = t and reason = w and d = d and i = i and j = j]
      fault.fails [where t = t and reason = w and d = d and i = i]
    by (cases "isl (fst (record_fault i t w d))") (auto split: if_splits)
qed

lemma tl_run_inv:
  assumes "tl_inv d" and "unat (tl_next_id d) + length xs < 2 ^ 64 - 1"
  shows "tl_inv (tl_run xs d)"
  using assms
proof (induction xs arbitrary: d)
  case (Cons x xs)
  have "tl_next_id d \<noteq> - 1" using Cons.prems(2) by (auto simp: unat_minus_one_eq)
  with Cons unat_next_id [of x d] show ?case by (simp add: tl_step_inv)
qed simp

lemma fits_step:
  assumes "tl_inv d" and "unat (tl_next_id d) + length (x # xs) < 2 ^ 64 - 1" and "j < tl_next_id d"
  shows "tl_inv (tl_step x d)" and "unat (tl_next_id (tl_step x d)) + length xs < 2 ^ 64 - 1"
    and "j < tl_next_id (tl_step x d)"
proof -
  have "tl_next_id d \<noteq> - 1" using assms(2) by (auto simp: unat_minus_one_eq)
  then show "tl_inv (tl_step x d)" by (rule tl_step_inv [OF assms(1)])
  show "unat (tl_next_id (tl_step x d)) + length xs < 2 ^ 64 - 1" using assms(2) unat_next_id [of x d] by simp
  show "j < tl_next_id (tl_step x d)" using assms(3) tl_step_next_id [of d x] by order
qed

lemma tl_run_gone:
  assumes "tl_inv d" and "unat (tl_next_id d) + length xs < 2 ^ 64 - 1" and "j < tl_next_id d"
    and "tl_get d j = None"
  shows "tl_get (tl_run xs d) j = None"
  using assms
proof (induction xs arbitrary: d)
  case (Cons x xs)
  from Cons.IH [OF fits_step [OF Cons.prems(1-3)] tl_step_gone [OF Cons.prems(1,3,4)]] show ?case by simp
qed simp

lemma follows_trans: "follows f a b \<Longrightarrow> follows g b c \<Longrightarrow> follows (\<lambda>s. g (f s)) a c"
  by (auto simp: follows_def)

lemma tl_run_entry:
  assumes "tl_inv d" and "unat (tl_next_id d) + length xs < 2 ^ 64 - 1" and "j < tl_next_id d"
    and "tl_get d j = Some e"
  shows "tl_get (tl_run xs d) j = None
    \<or> (\<exists>e'. tl_get (tl_run xs d) j = Some e' \<and> follows (fold (status_after j) xs) e e')"
  using assms
proof (induction xs arbitrary: d e)
  case (Cons x xs)
  note fits = fits_step [OF Cons.prems(1-3)]
  consider (gone) "tl_get (tl_step x d) j = None"
    | (there) e1 where "tl_get (tl_step x d) j = Some e1" "follows (status_after j x) e e1"
    using tl_step_entry [OF Cons.prems(1,4), of x] by metis
  then show ?case
  proof cases
    case gone
    with tl_run_gone [OF fits] show ?thesis by simp
  next
    case there
    with Cons.IH [OF fits there(1)] follows_trans [OF there(2)] show ?thesis by auto
  qed
qed (simp add: follows_def)

section \<open>Properties\<close>

text \<open>
  C26. The ledger is a window on a state machine. Over any history of calls, an entry is evicted
  or has exactly the status and the number of attempts the reference machine \<open>status_after\<close>
  reaches with the same calls: only a pending entry is applied or expires, only an expired one is
  reissued (with one attempt more) or given up, and only these two fault. An applied, given up or
  faulted entry never changes again, an evicted id never comes back, and the window stays within
  its capacity with strictly increasing ids.
\<close>

theorem decisions_move_legally:
  assumes "tl_inv d" and "unat (tl_next_id d) + length xs < 2 ^ 64 - 1" and "j < tl_next_id d"
  defines "d' \<equiv> tl_run xs d"
  shows "tl_inv d'
    \<and> (case tl_get d j of
         None \<Rightarrow> tl_get d' j = None
       | Some e \<Rightarrow> (case tl_get d' j of
           None \<Rightarrow> True
         | Some e' \<Rightarrow> (de_status e', de_attempts e') = fold (status_after j) xs (de_status e, de_attempts e)
             \<and> (if status_terminal (de_status e) then e' = e
                else de_agent_id e' = de_agent_id e \<and> de_source_tick e' = de_source_tick e)))"
proof (cases "tl_get d j")
  case None
  with tl_run_gone [OF assms(1-3)] tl_run_inv [OF assms(1,2)] show ?thesis by (simp add: d'_def)
next
  case (Some e)
  from tl_run_entry [OF assms(1-3) this] tl_run_inv [OF assms(1,2)] Some show ?thesis
    by (auto simp: d'_def follows_def split: option.split)
qed

definition demo_history :: "tl_op list" where
  "demo_history = [TlExpiry 1 9 None, TlReissue 1, TlGiveUp 1 10 None, TlFault 1 11 ''bridge'', TlAllocate 12 ''b'']"

theorem decisions_move_legally_witness:
  "map_option (\<lambda>e. (de_status e, de_attempts e)) (tl_get (tl_run demo_history (snd (allocate 4 ''a'' (tl_with_capacity 2)))) 1)
    = Some (DsFaulted 11 ''bridge'', 2)"
proof -
  let ?d = "snd (allocate 4 ''a'' (tl_with_capacity 2))"
  have inv: "tl_inv ?d" by (rule allocate_inv [OF tl_inv_new]) (simp add: tl_with_capacity_def)
  have n: "tl_next_id ?d = 2" "tl_get ?d 1 = Some (fresh_entry 1 4 ''a'')"
    "tl_get (tl_run demo_history ?d) 1 \<noteq> None" by code_simp+
  have a: "fold (status_after 1) demo_history (DsPending, 1) = (DsFaulted 11 ''bridge'', 2)" by code_simp
  have "unat (tl_next_id ?d) + length demo_history < 2 ^ 64 - 1" "1 < tl_next_id ?d"
    by (simp_all add: n(1) demo_history_def)
  from decisions_move_legally [OF inv this] n(2,3) a show ?thesis
    by (auto simp: fresh_entry_def)
qed

end
