(* ===== verification/Agent_Runtime.thy ===== *)
theory Agent_Runtime
  imports Timeline Lifecycle
begin

text \<open>
  The runtime of agents outside the process (\<open>agent_runtime.rs\<close>): it drives the request
  lifecycle and the decision ledger together. \<open>in_sync\<close> says that the two agree; it holds after
  every call as long as replies are processed after the expiry of their tick.
\<close>

section \<open>The runtime\<close>

record agent_runtime =
  rn_timeline :: decision_timeline
  rn_lifecycle :: request_lifecycle
  rn_outbox :: "agent_request list"

datatype enqueue_decision_outcome = DecisionEnqueued u64 | DecisionDropped sim_message

datatype process_reply_outcome =
    ReplyApply u64 string "action option" string f32_bits
  | ReplyDrop sim_message

datatype expire_outcome = ExpReissued u64 sim_message | ExpGaveUp u64 sim_message

definition runtime_with_capacity :: "nat \<Rightarrow> agent_runtime" where
  "runtime_with_capacity n =
     \<lparr>rn_timeline = tl_with_capacity n, rn_lifecycle = new_lifecycle, rn_outbox = []\<rparr>"

text \<open>
  \<open>AgentRuntime::new\<close> is the derived \<open>Default\<close>, and so is its lifecycle: both rings have
  capacity 0, where \<open>RequestLifecycle::new\<close> gives them 1024.
\<close>

definition lifecycle_default :: request_lifecycle where
  "lifecycle_default = \<lparr>lc_pending = [], lc_completed = [], lc_expired = [],
     lc_completed_cap = 0, lc_expired_cap = 0\<rparr>"

definition runtime_new :: agent_runtime where
  "runtime_new = \<lparr>rn_timeline = tl_new, rn_lifecycle = lifecycle_default, rn_outbox = []\<rparr>"

section \<open>Operations\<close>

text \<open>The second refusal cannot happen after the first check; it is in the code and here.\<close>

definition enqueue_decision ::
  "string \<Rightarrow> string \<Rightarrow> u32 \<Rightarrow> u64 \<Rightarrow> agent_runtime \<Rightarrow> enqueue_decision_outcome \<times> agent_runtime" where
  "enqueue_decision agent obs deadline current rn =
     (if has_pending_for_agent (rn_lifecycle rn) agent
      then (DecisionDropped (backpressure_warning_for agent current current), rn)
      else let (i, d) = allocate current agent (rn_timeline rn);
               rq = \<lparr>rq_id = \<lparr>timeline_id = i, rid_agent_id = agent, source_tick = current, attempt = 0\<rparr>,
                     rq_deadline_ticks = deadline, rq_observation_json = obs\<rparr>
           in (case try_enqueue rq current (rn_lifecycle rn) of
                 (Enqueued, lc) \<Rightarrow> (DecisionEnqueued i,
                   rn\<lparr>rn_timeline := d, rn_lifecycle := lc, rn_outbox := rn_outbox rn @ [rq]\<rparr>)
               | (BackpressureDropped msg, lc) \<Rightarrow> (DecisionDropped msg,
                   rn\<lparr>rn_timeline := snd (record_fault i current
                        ''lifecycle backpressure after timeline allocation (unexpected)'' d),
                      rn_lifecycle := lc\<rparr>)))"

definition drain_outbox :: "agent_runtime \<Rightarrow> agent_request list \<times> agent_runtime" where
  "drain_outbox rn = (rn_outbox rn, rn\<lparr>rn_outbox := []\<rparr>)"

definition process_reply ::
  "agent_reply \<Rightarrow> u64 \<Rightarrow> agent_runtime \<Rightarrow> process_reply_outcome \<times> agent_runtime" where
  "process_reply rp current rn =
     (let i = timeline_id (rp_id rp); (out, lc) = drain_reply rp current (rn_lifecycle rn);
          rn1 = rn\<lparr>rn_lifecycle := lc\<rparr>
      in (case out of
            Apply agent chosen rationale confidence \<Rightarrow>
              (ReplyApply i agent chosen rationale confidence,
               rn1\<lparr>rn_timeline := snd (record_reply i current
                 \<lparr>dr_chosen = chosen, dr_rationale = rationale, dr_confidence = confidence,
                  dr_latency_ms = None, dr_raw_response_ref = None\<rparr> (rn_timeline rn1))\<rparr>)
          | Duplicate msg \<Rightarrow> (ReplyDrop msg, rn1)
          | Stale msg \<Rightarrow> (ReplyDrop msg, rn1)
          | UnknownId msg \<Rightarrow> (ReplyDrop msg, rn1)))"

fun give_up_target :: "sim_message \<Rightarrow> string option" where
  "give_up_target (Warning (InvalidAction agent _)) = Some agent"
| "give_up_target _ = None"

fun warning_of :: "sim_message \<Rightarrow> warning_payload option" where
  "warning_of (Warning w) = Some w"
| "warning_of _ = None"

definition find_pending_id_for_agent :: "decision_timeline \<Rightarrow> string \<Rightarrow> u64 option" where
  "find_pending_id_for_agent d agent = map_option de_id (find (\<lambda>e. de_agent_id e = agent
     \<and> (is_pending (de_status e) \<or> is_expired (de_status e))) (tl_entries d))"

definition expire_reissue ::
  "u64 \<Rightarrow> agent_request \<Rightarrow> sim_message \<Rightarrow> agent_runtime \<Rightarrow> expire_outcome \<times> agent_runtime" where
  "expire_reissue current rq w rn =
     (let i = timeline_id (rq_id rq);
          d1 = snd (record_expiry i current (warning_of w) (rn_timeline rn)); d2 = snd (reissue i d1)
      in (ExpReissued i w,
          (case try_enqueue rq current (rn_lifecycle rn) of
             (Enqueued, lc) \<Rightarrow> rn\<lparr>rn_timeline := d2, rn_lifecycle := lc, rn_outbox := rn_outbox rn @ [rq]\<rparr>
           | (BackpressureDropped _, lc) \<Rightarrow> rn\<lparr>rn_timeline := snd (record_fault i current
                 ''lifecycle backpressure after re-issue (unexpected)'' d2), rn_lifecycle := lc\<rparr>)))"

definition expire_give_up ::
  "u64 \<Rightarrow> sim_message \<Rightarrow> agent_runtime \<Rightarrow> expire_outcome \<times> agent_runtime" where
  "expire_give_up current msg rn =
     (case Option.bind (give_up_target msg) (find_pending_id_for_agent (rn_timeline rn)) of
        Some i \<Rightarrow>
          let d1 = snd (record_expiry i current (warning_of msg) (rn_timeline rn))
          in (ExpGaveUp i msg, rn\<lparr>rn_timeline := snd (give_up i current (warning_of msg) d1)\<rparr>)
      | None \<Rightarrow> (ExpGaveUp 0 msg, rn))"

fun expire_outcome_step ::
  "u64 \<Rightarrow> expiry_outcome \<Rightarrow> agent_runtime \<Rightarrow> expire_outcome \<times> agent_runtime" where
  "expire_outcome_step current (Reissue rq w) rn = expire_reissue current rq w rn"
| "expire_outcome_step current (GiveUp msg) rn = expire_give_up current msg rn"

fun expire_each ::
  "u64 \<Rightarrow> expiry_outcome list \<Rightarrow> agent_runtime \<Rightarrow> expire_outcome list \<times> agent_runtime" where
  "expire_each current [] rn = ([], rn)"
| "expire_each current (x # xs) rn =
     (let (o1, rn1) = expire_outcome_step current x rn; (os, rn2) = expire_each current xs rn1
      in (o1 # os, rn2))"

definition runtime_expire :: "u64 \<Rightarrow> agent_runtime \<Rightarrow> expire_outcome list \<times> agent_runtime" where
  "runtime_expire current rn =
     (let (outs, lc) = expire_overdue current (rn_lifecycle rn)
      in expire_each current outs (rn\<lparr>rn_lifecycle := lc\<rparr>))"

definition runtime_record_fault ::
  "u64 \<Rightarrow> u64 \<Rightarrow> string \<Rightarrow> agent_runtime \<Rightarrow> (timeline_error + unit) \<times> agent_runtime" where
  "runtime_record_fault i tick reason rn =
     (let (r, d) = record_fault i tick reason (rn_timeline rn) in (r, rn\<lparr>rn_timeline := d\<rparr>))"

definition fault_message_for :: "string \<Rightarrow> sim_message" where
  "fault_message_for reason = Fault (EngineFault reason)"

section \<open>Agreement\<close>

text \<open>
  The ledger and a list of outstanding requests agree: ids and agents of the requests are
  distinct, a retained entry of an outstanding request is pending with one more attempt than the
  request counts, unless a fault was recorded for it, and every retained entry that is not final
  is that of an outstanding request.
\<close>

fun is_faulted :: "decision_status \<Rightarrow> bool" where
  "is_faulted (DsFaulted _ _) = True"
| "is_faulted _ = False"

definition matches :: "request_id \<Rightarrow> decision_entry \<Rightarrow> bool" where
  "matches i e \<longleftrightarrow> (is_faulted (de_status e) \<or> de_status e = DsPending \<and> de_attempts e = attempt i + 1)
     \<and> de_agent_id e = rid_agent_id i \<and> de_source_tick e = source_tick i \<and> attempt i \<le> MAX_ATTEMPTS"

lemma is_faultedD: "is_faulted s \<Longrightarrow> status_terminal s" "is_faulted s \<Longrightarrow> \<not> is_pending s \<and> \<not> is_expired s"
  by (cases s; simp)+

definition in_sync :: "decision_timeline \<Rightarrow> request_id list \<Rightarrow> bool" where
  "in_sync d ids \<longleftrightarrow> tl_inv d \<and> distinct (map rid_agent_id ids) \<and> distinct (map timeline_id ids)
     \<and> (\<forall>i \<in> set ids. timeline_id i < tl_next_id d
          \<and> (\<forall>e. tl_get d (timeline_id i) = Some e \<longrightarrow> matches i e))
     \<and> (\<forall>e \<in> set (tl_entries d). \<not> status_terminal (de_status e) \<longrightarrow> de_id e \<in> timeline_id ` set ids)"

lemma in_syncD:
  assumes "in_sync d ids"
  shows "tl_inv d" and "distinct (map rid_agent_id ids)" and "distinct (map timeline_id ids)"
    and "i \<in> set ids \<Longrightarrow> timeline_id i < tl_next_id d"
    and "i \<in> set ids \<Longrightarrow> tl_get d (timeline_id i) = Some e \<Longrightarrow> matches i e"
    and "tl_get d j = Some e \<Longrightarrow> \<not> status_terminal (de_status e) \<Longrightarrow> j \<in> timeline_id ` set ids"
  using assms tl_get_SomeD [of d j e] by (auto simp: in_sync_def)

lemma in_syncI:
  assumes "tl_inv d" and "distinct (map rid_agent_id ids)" and "distinct (map timeline_id ids)"
    and "\<And>i. i \<in> set ids \<Longrightarrow> timeline_id i < tl_next_id d"
    and "\<And>i e. i \<in> set ids \<Longrightarrow> tl_get d (timeline_id i) = Some e \<Longrightarrow> matches i e"
    and "\<And>j e. tl_get d j = Some e \<Longrightarrow> \<not> status_terminal (de_status e) \<Longrightarrow> j \<in> timeline_id ` set ids"
  shows "in_sync d ids"
  using assms tl_get_mem [OF assms(1)] unfolding in_sync_def by blast

text \<open>The order of the requests is irrelevant.\<close>

lemma in_sync_perm: "mset ids = mset ids' \<Longrightarrow> in_sync d ids \<Longrightarrow> in_sync d ids'"
  unfolding in_sync_def by (metis mset_eq_imp_distinct_iff mset_eq_setD mset_map)

lemma distinct_map_hd: "distinct (map f (x # xs)) \<Longrightarrow> k \<in> set xs \<Longrightarrow> f k \<noteq> f x"
  by (auto simp: image_iff)

text \<open>An operation on the entry of the first request that makes it final.\<close>

lemma in_sync_finish:
  assumes "in_sync d (i # ids)" and "tl_inv d'" and "tl_next_id d' = tl_next_id d"
    and "\<And>j. j \<noteq> timeline_id i \<Longrightarrow> tl_get d' j = tl_get d j"
    and "\<And>e. tl_get d' (timeline_id i) = Some e \<Longrightarrow> status_terminal (de_status e)"
  shows "in_sync d' ids"
proof (rule in_syncI)
  note s = in_syncD [OF assms(1)]
  have ne: "timeline_id k \<noteq> timeline_id i" if "k \<in> set ids" for k
    by (rule distinct_map_hd [OF s(3) that])
  show "matches k e" if "k \<in> set ids" "tl_get d' (timeline_id k) = Some e" for k e
    using that assms(4) [OF ne [OF that(1)]] s(5) [of k e] by simp
  show "j \<in> timeline_id ` set ids" if "tl_get d' j = Some e" "\<not> status_terminal (de_status e)" for j e
  proof -
    have "j \<noteq> timeline_id i" using that assms(5) by blast
    with that assms(4) s(6) [of j e] show ?thesis by auto
  qed
qed (use assms in_syncD [OF assms(1)] in auto)

text \<open>An operation that keeps it pending for the next attempt.\<close>

lemma in_sync_retry:
  assumes "in_sync d (i # ids)" and "tl_inv d'" and "tl_next_id d' = tl_next_id d"
    and "\<And>j. j \<noteq> timeline_id i \<Longrightarrow> tl_get d' j = tl_get d j"
    and "\<And>e. tl_get d' (timeline_id i) = Some e \<Longrightarrow> matches i' e"
    and "timeline_id i' = timeline_id i" and "rid_agent_id i' = rid_agent_id i"
  shows "in_sync d' (i' # ids)"
proof (rule in_syncI)
  note s = in_syncD [OF assms(1)]
  have ne: "timeline_id k \<noteq> timeline_id i" if "k \<in> set ids" for k
    by (rule distinct_map_hd [OF s(3) that])
  show "matches k e" if "k \<in> set (i' # ids)" "tl_get d' (timeline_id k) = Some e" for k e
    using that assms(4) [OF ne] s(5) [of k e] assms(5,6) by auto
  show "j \<in> timeline_id ` set (i' # ids)" if "tl_get d' j = Some e" "\<not> status_terminal (de_status e)" for j e
    using that assms(4) [of j] s(6) [of j e] assms(6) by (cases "j = timeline_id i") auto
  show "timeline_id k < tl_next_id d'" if "k \<in> set (i' # ids)" for k
    using that s(4) [of i] s(4) [of k] assms(3,6) by auto
qed (use assms in_syncD(2,3) [OF assms(1)] in auto)

lemma in_sync_allocate:
  assumes "in_sync d ids" and "agent \<notin> rid_agent_id ` set ids" and "tl_next_id d \<noteq> - 1"
  shows "in_sync (snd (allocate t agent d))
    (\<lparr>timeline_id = tl_next_id d, rid_agent_id = agent, source_tick = t, attempt = 0\<rparr> # ids)"
    (is "in_sync ?d (?i # ids)")
proof (rule in_syncI)
  note s = in_syncD [OF assms(1)]
  note less = sat_add_one_less [OF assms(3)]
  have ne: "timeline_id k \<noteq> tl_next_id d" if "k \<in> set ids" for k using s(4) [OF that] by auto
  show "tl_inv ?d" by (rule allocate_inv [OF s(1) assms(3)])
  show "distinct (map rid_agent_id (?i # ids))" using s(2) assms(2) by auto
  have "tl_next_id d \<notin> timeline_id ` set ids" using ne by (metis imageE)
  then show "distinct (map timeline_id (?i # ids))" using s(3) by simp
  show "timeline_id k < tl_next_id ?d" if "k \<in> set (?i # ids)" for k
    using that s(4) [of k] less by (auto simp: allocate_fields)
  show "matches k e" if "k \<in> set (?i # ids)" "tl_get ?d (timeline_id k) = Some e" for k e
  proof (cases "k = ?i")
    case True
    with that(2) allocate_get(1) [OF s(1), of t agent] show ?thesis
      by (auto simp: matches_def fresh_entry_def)
  next
    case False
    with that(1) have k: "k \<in> set ids" by simp
    with that(2) allocate_get(2) [OF s(1) ne [OF k], of t agent] s(5) [OF k, of e] show ?thesis by auto
  qed
  show "j \<in> timeline_id ` set (?i # ids)" if "tl_get ?d j = Some e" "\<not> status_terminal (de_status e)" for j e
    using that allocate_get(2) [OF s(1), of j t agent] s(6) [of j e] by (cases "j = tl_next_id d") auto
qed

section \<open>The calls the runtime makes on the ledger\<close>

lemma sync_reply:
  assumes "in_sync d (i # ids)"
  shows "in_sync (snd (record_reply (timeline_id i) t resp d)) ids"
proof (rule in_sync_finish [OF assms])
  note s = in_syncD [OF assms]
  let ?d = "snd (record_reply (timeline_id i) t resp d)"
  show "tl_inv ?d" by (rule reply.op_inv [OF s(1)])
  show "tl_next_id ?d = tl_next_id d" by (simp add: op_fields)
  show "tl_get ?d j = tl_get d j" if "j \<noteq> timeline_id i" for j
    by (rule reply.op_elsewhere [OF s(1) that])
  show "status_terminal (de_status e)" if e: "tl_get ?d (timeline_id i) = Some e" for e
  proof (cases "tl_get d (timeline_id i)")
    case None
    then have "tl_get ?d (timeline_id i) = None" using reply.op_at [OF s(1), of "timeline_id i"] by simp
    with e show ?thesis by simp
  next
    case (Some e0)
    with reply.op_exact [OF s(1) Some, where i = "timeline_id i" and t = t and resp = resp] e s(5) [OF _ Some] show ?thesis
      by (auto simp: matches_def applied_entry_def is_faultedD split: if_splits)
  qed
qed

text \<open>Expiry and the retry, or expiry and giving up, of a pending entry; a faulted one refuses both.\<close>

lemma sync_expiry:
  fixes t :: u64 and w :: "warning_payload option"
  assumes "in_sync d (i # ids)"
  defines "d1 \<equiv> snd (record_expiry (timeline_id i) t w d)"
  shows "tl_inv d1" and "tl_next_id d1 = tl_next_id d"
    and "j \<noteq> timeline_id i \<Longrightarrow> tl_get d1 j = tl_get d j"
    and "tl_get d1 (timeline_id i)
      = map_option (\<lambda>e. if is_faulted (de_status e) then e else expired_entry t w e) (tl_get d (timeline_id i))"
proof -
  note s = in_syncD [OF assms(1)]
  show "tl_get d1 (timeline_id i)
      = map_option (\<lambda>e. if is_faulted (de_status e) then e else expired_entry t w e) (tl_get d (timeline_id i))"
  proof (cases "tl_get d (timeline_id i)")
    case None
    then show ?thesis using expiry.op_at [OF s(1), of "timeline_id i"] by (simp add: d1_def)
  next
    case (Some e)
    with expiry.op_exact [OF s(1) Some, where i = "timeline_id i" and t = t and w = w] s(5) [OF _ Some] show ?thesis
      by (auto simp: d1_def matches_def is_faultedD)
  qed
qed (simp_all add: d1_def expiry.op_inv expiry.op_elsewhere in_syncD(1) [OF assms(1)] op_fields)

lemma sync_retry:
  assumes "in_sync d (i # ids)" and "attempt i < MAX_ATTEMPTS"
  shows "in_sync (snd (reissue (timeline_id i) (snd (record_expiry (timeline_id i) t w d)))) (next_attempt i # ids)"
proof (rule in_sync_retry [OF assms(1)])
  note s = in_syncD [OF assms(1)]
  note x = sync_expiry [OF assms(1), where t = t and w = w]
  let ?d1 = "snd (record_expiry (timeline_id i) t w d)"
  let ?d2 = "snd (reissue (timeline_id i) ?d1)"
  show "tl_inv ?d2" by (rule again.op_inv [OF x(1)])
  show "tl_next_id ?d2 = tl_next_id d" by (simp add: op_fields)
  show "tl_get ?d2 j = tl_get d j" if "j \<noteq> timeline_id i" for j
    using again.op_elsewhere [OF x(1) that] x(3) [OF that] by simp
  have more: "sat_add (attempt i + 1) 1 = sat_add (attempt i) 1 + 1" "sat_add (attempt i) 1 \<le> MAX_ATTEMPTS"
  proof -
    have "unat (attempt i) < 2" using assms(2) by (simp add: MAX_ATTEMPTS_def word_less_nat_alt)
    then consider "unat (attempt i) = unat (0 :: u32)" | "unat (attempt i) = unat (1 :: u32)" by fastforce
    then have "attempt i \<in> {0, 1}" by cases (blast dest: unsigned_word_eqI)+
    then show "sat_add (attempt i + 1) 1 = sat_add (attempt i) 1 + 1" "sat_add (attempt i) 1 \<le> MAX_ATTEMPTS"
      by (auto simp: sat_add_def MAX_ATTEMPTS_def)
  qed
  show "matches (next_attempt i) e" if e: "tl_get ?d2 (timeline_id i) = Some e" for e
  proof (cases "tl_get d (timeline_id i)")
    case None
    then have "tl_get ?d1 (timeline_id i) = None" by (simp add: x(4))
    with e again.op_at [OF x(1), of "timeline_id i"] show ?thesis by simp
  next
    case (Some e0)
    let ?e1 = "if is_faulted (de_status e0) then e0 else expired_entry t w e0"
    have "tl_get ?d1 (timeline_id i) = Some ?e1" by (simp add: x(4) Some)
    from again.op_exact [OF x(1) this, of "timeline_id i"] e s(5) [OF _ Some] more show ?thesis
      by (auto simp: matches_def reissued_entry_def expired_entry_def next_attempt_def is_faultedD split: if_splits)
  qed
qed (simp_all add: next_attempt_def)

lemma sync_give_up:
  assumes "in_sync d (i # ids)"
  shows "in_sync (snd (give_up (timeline_id i) t w (snd (record_expiry (timeline_id i) t w d)))) ids"
proof (rule in_sync_finish [OF assms])
  note x = sync_expiry [OF assms(1), where t = t and w = w]
  let ?d1 = "snd (record_expiry (timeline_id i) t w d)"
  let ?d2 = "snd (give_up (timeline_id i) t w ?d1)"
  show "tl_inv ?d2" by (rule drop.op_inv [OF x(1)])
  show "tl_next_id ?d2 = tl_next_id d" by (simp add: op_fields)
  show "tl_get ?d2 j = tl_get d j" if "j \<noteq> timeline_id i" for j
    using drop.op_elsewhere [OF x(1) that] x(3) [OF that] by simp
  show "status_terminal (de_status e)" if e: "tl_get ?d2 (timeline_id i) = Some e" for e
  proof (cases "tl_get d (timeline_id i)")
    case None
    then have "tl_get ?d1 (timeline_id i) = None" by (simp add: x(4))
    with e drop.op_at [OF x(1), of "timeline_id i"] show ?thesis by simp
  next
    case (Some e0)
    let ?e1 = "if is_faulted (de_status e0) then e0 else expired_entry t w e0"
    have "tl_get ?d1 (timeline_id i) = Some ?e1" by (simp add: x(4) Some)
    from drop.op_exact [OF x(1) this, where i = "timeline_id i" and t = t and w = w] e show ?thesis
      by (auto simp: given_up_entry_def expired_entry_def is_faultedD split: if_splits)
  qed
qed

text \<open>The search by agent finds the entry of the request that was given up, and no other.\<close>

lemma find_pending_sync:
  assumes "in_sync d (i # ids)"
  shows "find_pending_id_for_agent d (rid_agent_id i) = (case tl_get d (timeline_id i) of
     Some e \<Rightarrow> if is_faulted (de_status e) then None else Some (timeline_id i) | None \<Rightarrow> None)"
proof -
  note s = in_syncD [OF assms]
  let ?P = "\<lambda>e. de_agent_id e = rid_agent_id i \<and> (is_pending (de_status e) \<or> is_expired (de_status e))"
  have only: "de_id e = timeline_id i" if e: "e \<in> set (tl_entries d)" "?P e" for e
  proof -
    have "\<not> status_terminal (de_status e)" using e(2) by (cases "de_status e") auto
    from s(6) [OF tl_get_mem [OF s(1) e(1)] this] obtain k where k: "k \<in> set (i # ids)" "timeline_id k = de_id e"
      by (metis imageE)
    with s(5) [OF k(1)] tl_get_mem [OF s(1) e(1)] have "rid_agent_id k = rid_agent_id i" using e(2) by (simp add: matches_def)
    then have "k \<notin> set ids" using distinct_map_hd [OF s(2), of k] by blast
    with k show ?thesis by auto
  qed
  show ?thesis
  proof (cases "find ?P (tl_entries d)")
    case None
    then have "is_faulted (de_status e)" if "tl_get d (timeline_id i) = Some e" for e
      using s(5) [OF _ that] tl_get_SomeD [OF that] by (auto simp: matches_def find_None_iff)
    with None show ?thesis by (auto simp: find_pending_id_for_agent_def split: option.split)
  next
    case (Some e)
    then have e: "e \<in> set (tl_entries d)" "?P e" by (auto simp: find_Some_iff)
    from only [OF this] tl_get_mem [OF s(1) e(1)] e(2) Some show ?thesis
      by (auto simp: find_pending_id_for_agent_def dest: is_faultedD)
  qed
qed

section \<open>The invariant of the runtime\<close>

text \<open>A pending request is stored under its own id.\<close>

definition own_ids :: "(request_id \<times> pending_entry) list \<Rightarrow> bool" where
  "own_ids m \<longleftrightarrow> (\<forall>e \<in> set m. rq_id (pe_request (snd e)) = fst e)"

definition rn_sync :: "agent_runtime \<Rightarrow> bool" where
  "rn_sync rn \<longleftrightarrow> lc_inv (rn_lifecycle rn) \<and> own_ids (lc_pending (rn_lifecycle rn))
     \<and> in_sync (rn_timeline rn) (map fst (lc_pending (rn_lifecycle rn)))"

lemma rn_syncD:
  assumes "rn_sync rn"
  shows "lc_inv (rn_lifecycle rn)" and "own_ids (lc_pending (rn_lifecycle rn))"
    and "in_sync (rn_timeline rn) (map fst (lc_pending (rn_lifecycle rn)))"
  using assms by (simp_all add: rn_sync_def)

lemma rn_sync_new: "rn_sync (runtime_with_capacity n)" "rn_sync runtime_new"
proof -
  have "lc_pending new_lifecycle = []" "lc_inv new_lifecycle"
    using lc_inv_with_caps by (auto simp: new_lifecycle_def with_caps_def)
  then show "rn_sync (runtime_with_capacity n)" for n
    by (simp add: rn_sync_def runtime_with_capacity_def own_ids_def in_sync_def tl_inv_new)
      (simp add: tl_with_capacity_def)
  show "rn_sync runtime_new"
    by (simp add: rn_sync_def runtime_new_def lifecycle_default_def own_ids_def in_sync_def tl_inv_new tl_new_def lc_inv_def)
      (simp add: tl_with_capacity_def)
qed

text \<open>An agent without a pending request is accepted.\<close>

lemma enqueue_accepted:
  assumes "\<not> has_pending_for_agent lc (rid_agent_id (rq_id rq))"
  shows "try_enqueue rq t lc = (Enqueued, lc\<lparr>lc_pending := (rq_id rq,
      \<lparr>deadline_abs = sat_add t (ucast (rq_deadline_ticks rq)), pe_request = rq\<rparr>) # lc_pending lc\<rparr>)"
proof -
  have "hm_remove (rq_id rq) (lc_pending lc) = lc_pending lc"
    using assms by (auto simp: hm_remove_def filter_id_conv has_pending_for_agent_def)
  with assms show ?thesis by (simp add: try_enqueue_def Let_def hm_insert_def)
qed

lemma enqueue_decision_eq:
  fixes t :: u64 and deadline :: u32 and obs :: string
  assumes "\<not> has_pending_for_agent (rn_lifecycle rn) agent"
  defines "rq \<equiv> \<lparr>rq_id = \<lparr>timeline_id = tl_next_id (rn_timeline rn), rid_agent_id = agent, source_tick = t, attempt = 0\<rparr>,
      rq_deadline_ticks = deadline, rq_observation_json = obs\<rparr>"
  shows "enqueue_decision agent obs deadline t rn = (DecisionEnqueued (tl_next_id (rn_timeline rn)),
      rn\<lparr>rn_timeline := snd (allocate t agent (rn_timeline rn)),
         rn_lifecycle := snd (try_enqueue rq t (rn_lifecycle rn)), rn_outbox := rn_outbox rn @ [rq]\<rparr>)"
  using assms(1) enqueue_accepted [of "rn_lifecycle rn" rq t]
  by (simp add: enqueue_decision_def rq_def Let_def case_prod_beta allocate_fields)

lemma enqueue_sync:
  assumes "rn_sync rn" and "tl_next_id (rn_timeline rn) \<noteq> - 1"
  shows "rn_sync (snd (enqueue_decision agent obs deadline t rn))"
proof (cases "has_pending_for_agent (rn_lifecycle rn) agent")
  case True
  with assms(1) show ?thesis by (simp add: enqueue_decision_def)
next
  case False
  note s = rn_syncD [OF assms(1)]
  let ?i = "\<lparr>timeline_id = tl_next_id (rn_timeline rn), rid_agent_id = agent, source_tick = t, attempt = 0\<rparr>"
  let ?rq = "\<lparr>rq_id = ?i, rq_deadline_ticks = deadline, rq_observation_json = obs\<rparr>"
  have e: "try_enqueue ?rq t (rn_lifecycle rn) = (Enqueued, (rn_lifecycle rn)\<lparr>lc_pending := (?i,
      \<lparr>deadline_abs = sat_add t (ucast deadline), pe_request = ?rq\<rparr>) # lc_pending (rn_lifecycle rn)\<rparr>)"
    using enqueue_accepted [of "rn_lifecycle rn" ?rq t] False by simp
  have "agent \<notin> rid_agent_id ` set (map fst (lc_pending (rn_lifecycle rn)))"
    using False by (auto simp: has_pending_for_agent_def)
  from in_sync_allocate [OF s(3) this assms(2), of t] lc_inv_enqueue [OF s(1) e] s(2) show ?thesis
    unfolding enqueue_decision_eq [OF False] rn_sync_def by (simp add: e own_ids_def)
qed

text \<open>A reply that is not late.\<close>

definition none_overdue :: "u64 \<Rightarrow> agent_runtime \<Rightarrow> bool" where
  "none_overdue t rn \<longleftrightarrow> (\<forall>e \<in> set (lc_pending (rn_lifecycle rn)). t \<le> deadline_abs (snd e))"

lemma keys_remove_first:
  assumes "distinct (map fst m)" and "map_of m k = Some v"
  shows "mset (map fst m) = mset (k # map fst (hm_remove k m))"
proof -
  have "k \<in> set (map fst m)" using assms(2) by (metis list.set_map map_of_eq_None_iff option.distinct(1))
  moreover have "map fst (hm_remove k m) = filter (\<lambda>x. x \<noteq> k) (map fst m)"
    by (simp add: hm_remove_def filter_map comp_def)
  moreover have "filter (\<lambda>x. x \<noteq> k) xs = remove1 k xs" if "distinct xs" for xs :: "'a list"
    by (simp add: distinct_remove1_removeAll that removeAll_filter_not_eq eq_commute [of k])
  ultimately show ?thesis using assms(1) by simp
qed

lemma process_reply_sync:
  assumes "rn_sync rn" and "none_overdue t rn"
  shows "rn_sync (snd (process_reply rp t rn))"
proof -
  note s = rn_syncD [OF assms(1)]
  let ?lc = "rn_lifecycle rn" and ?i = "rp_id rp"
  have inv: "lc_inv (snd (drain_reply rp t ?lc))" by (rule lc_inv_drain [OF s(1) prod.collapse [symmetric]])
  show ?thesis
  proof (cases "?i \<notin> set (lc_completed ?lc) \<and> ?i \<notin> set (lc_expired ?lc) \<and> map_of (lc_pending ?lc) ?i \<noteq> None")
    case True
    then obtain e where e: "map_of (lc_pending ?lc) ?i = Some e" by blast
    have "(?i, e) \<in> set (lc_pending ?lc)" by (rule map_of_SomeD [OF e])
    with assms(2) have "t \<le> deadline_abs e" by (auto simp: none_overdue_def)
    with True e have d: "drain_reply rp t ?lc = (Apply (rid_agent_id ?i) (rp_chosen rp) (rp_rationale rp) (rp_confidence rp),
        ?lc\<lparr>lc_pending := hm_remove ?i (lc_pending ?lc),
           lc_completed := push_ring (lc_completed ?lc) ?i (lc_completed_cap ?lc)\<rparr>)"
      by (simp add: drain_reply_def Let_def)
    have "in_sync (rn_timeline rn) (?i # map fst (hm_remove ?i (lc_pending ?lc)))"
      by (rule in_sync_perm [OF keys_remove_first [OF lc_inv_keys [OF s(1)] e] s(3)])
    from sync_reply [OF this] inv s(2) show ?thesis
      by (simp add: process_reply_def Let_def d rn_sync_def own_ids_def)
  next
    case False
    then have "snd (drain_reply rp t ?lc) = ?lc" "\<not> was_applied (fst (drain_reply rp t ?lc))"
      by (auto simp: drain_reply_def Let_def split: option.split)
    then have "snd (process_reply rp t rn) = rn"
      by (auto simp: process_reply_def Let_def case_prod_beta split: drain_outcome.split)
    with assms(1) show ?thesis by simp
  qed
qed


section \<open>Faults\<close>

lemma sync_fault:
  assumes "in_sync d ids"
  shows "in_sync (snd (record_fault i t reason d)) ids"
proof (rule in_syncI)
  note s = in_syncD [OF assms]
  let ?d = "snd (record_fault i t reason d)"
  have at: "tl_get ?d j = map_option (\<lambda>e. if j = i \<and> (is_pending (de_status e) \<or> is_expired (de_status e))
      then e\<lparr>de_status := DsFaulted t reason\<rparr> else e) (tl_get d j)" for j
  proof (cases "tl_get d j")
    case None
    show ?thesis
    proof (cases "j = i")
      case True
      with None fault.op_at [OF s(1), of i t reason] show ?thesis by simp
    qed (simp add: None fault.op_elsewhere [OF s(1)])
  next
    case (Some e)
    from fault.op_exact [OF s(1) Some, of i t reason] Some show ?thesis by simp
  qed
  show "tl_inv ?d" by (rule fault.op_inv [OF s(1)])
  show "matches k e" if "k \<in> set ids" "tl_get ?d (timeline_id k) = Some e" for k e
    using that s(5) [OF that(1)] by (fastforce simp: at matches_def)
  show "j \<in> timeline_id ` set ids" if e: "tl_get ?d j = Some e" "\<not> status_terminal (de_status e)" for j e
    using e s(6) [of j] by (auto simp: at split: if_splits)
qed (use in_syncD [OF assms] in \<open>simp_all add: op_fields\<close>)

text \<open>Without such a call no entry is ever faulted: the two refusals the code guards against do not happen.\<close>

definition unfaulted :: "decision_timeline \<Rightarrow> bool" where
  "unfaulted d \<longleftrightarrow> list_all (\<lambda>e. \<not> is_faulted (de_status e)) (tl_entries d)"

lemma transition_unfaulted:
  assumes "unfaulted d" and "\<And>e. \<not> is_faulted (de_status (f e))"
  shows "unfaulted (snd (transition allowed target f i d))"
  using assms set_update_subset_insert [of "tl_entries d"]
  by (auto simp: transition_def unfaulted_def list_all_iff Let_def split: sum.split) blast

lemma ops_unfaulted:
  assumes "unfaulted d"
  shows "unfaulted (snd (record_reply i t resp d))" "unfaulted (snd (record_expiry i t w d))"
    "unfaulted (snd (reissue i d))" "unfaulted (snd (give_up i t w d))" "unfaulted (snd (allocate t agent d))"
proof -
  show "unfaulted (snd (record_reply i t resp d))" "unfaulted (snd (record_expiry i t w d))"
    "unfaulted (snd (reissue i d))" "unfaulted (snd (give_up i t w d))"
    unfolding record_reply_def record_expiry_def reissue_def give_up_def
    by (rule transition_unfaulted [OF assms]; simp add: applied_entry_def expired_entry_def reissued_entry_def given_up_entry_def)+
  show "unfaulted (snd (allocate t agent d))"
    using assms by (cases "tl_entries d") (auto simp: allocate_def unfaulted_def fresh_entry_def Let_def)
qed

section \<open>Expiry\<close>

text \<open>A request whose entry is evicted or final may leave.\<close>

lemma in_sync_settled:
  assumes "in_sync d (i # ids)" and "\<And>e. tl_get d (timeline_id i) = Some e \<Longrightarrow> status_terminal (de_status e)"
  shows "in_sync d ids"
  by (rule in_sync_finish [OF assms(1) in_syncD(1) [OF assms(1)]]) (simp_all add: assms(2))

lemma in_sync_agent:
  assumes "in_sync d (i # ids @ map fst (lc_pending lc))"
  shows "\<not> has_pending_for_agent lc (rid_agent_id i)"
  using in_syncD(2) [OF assms] by (force simp: has_pending_for_agent_def)

lemma expire_reissue_sync:
  fixes t :: u64 and w :: sim_message
  assumes "lc_inv (rn_lifecycle rn)" and "own_ids (lc_pending (rn_lifecycle rn))"
    and sync: "in_sync (rn_timeline rn) (i # ids @ map fst (lc_pending (rn_lifecycle rn)))"
    and "attempt i < MAX_ATTEMPTS" and "rq_id rq = next_attempt i"
  defines "rn' \<equiv> snd (expire_reissue t rq w rn)"
  shows "lc_inv (rn_lifecycle rn') \<and> own_ids (lc_pending (rn_lifecycle rn'))
    \<and> in_sync (rn_timeline rn') (ids @ map fst (lc_pending (rn_lifecycle rn')))
    \<and> set (lc_pending (rn_lifecycle rn')) \<subseteq> insert (next_attempt i,
        \<lparr>deadline_abs = sat_add t (ucast (rq_deadline_ticks rq)), pe_request = rq\<rparr>) (set (lc_pending (rn_lifecycle rn)))
    \<and> (unfaulted (rn_timeline rn) \<longrightarrow> unfaulted (rn_timeline rn'))"
proof -
  have keep: "rid_agent_id (next_attempt i) = rid_agent_id i" "timeline_id (next_attempt i) = timeline_id i"
    by (simp_all add: next_attempt_def)
  have free: "\<not> has_pending_for_agent (rn_lifecycle rn) (rid_agent_id (rq_id rq))"
    using in_sync_agent [OF sync] by (simp add: assms(5) keep)
  note e = enqueue_accepted [OF this, of t]
  note retry = sync_retry [OF sync assms(4), where t = t and w = "warning_of w"]
  have "mset (next_attempt i # ids @ xs) = mset (ids @ next_attempt i # xs)" for xs by simp
  from in_sync_perm [OF this retry] lc_inv_enqueue [OF assms(1) e] assms(2) show ?thesis
    by (auto simp: rn'_def expire_reissue_def Let_def e assms(5) keep own_ids_def ops_unfaulted)
qed

lemma expire_give_up_sync:
  fixes t :: u64
  assumes "lc_inv (rn_lifecycle rn)" and "own_ids (lc_pending (rn_lifecycle rn))"
    and sync: "in_sync (rn_timeline rn) (i # ids @ map fst (lc_pending (rn_lifecycle rn)))"
  defines "rn' \<equiv> snd (expire_give_up t (give_up_warning i) rn)"
  shows "rn_lifecycle rn' = rn_lifecycle rn
    \<and> in_sync (rn_timeline rn') (ids @ map fst (lc_pending (rn_lifecycle rn)))
    \<and> (unfaulted (rn_timeline rn) \<longrightarrow> unfaulted (rn_timeline rn'))"
proof -
  have target: "give_up_target (give_up_warning i) = Some (rid_agent_id i)" by (simp add: give_up_warning_def)
  show ?thesis
  proof (cases "tl_get (rn_timeline rn) (timeline_id i)")
    case None
    with in_sync_settled [OF sync] find_pending_sync [OF sync] show ?thesis
      by (simp add: rn'_def expire_give_up_def target)
  next
    case (Some e)
    show ?thesis
    proof (cases "is_faulted (de_status e)")
      case True
      with Some in_sync_settled [OF sync] find_pending_sync [OF sync] show ?thesis
        by (simp add: rn'_def expire_give_up_def target is_faultedD)
    next
      case False
      with Some find_pending_sync [OF sync]
      have "find_pending_id_for_agent (rn_timeline rn) (rid_agent_id i) = Some (timeline_id i)" by simp
      with sync_give_up [OF sync] show ?thesis by (simp add: rn'_def expire_give_up_def target Let_def ops_unfaulted)
    qed
  qed
qed

lemma expire_each_sync:
  fixes m :: "(request_id \<times> pending_entry) list"
  assumes "lc_inv (rn_lifecycle rn)" and "own_ids (lc_pending (rn_lifecycle rn))"
    and "in_sync (rn_timeline rn) (ids @ map fst (lc_pending (rn_lifecycle rn)))"
    and "none_overdue t rn"
  defines "rn' \<equiv> snd (expire_each t (concat (map (expiry_of t m) ids)) rn)"
  shows "set ids \<subseteq> fst ` set m \<Longrightarrow> rn_sync rn' \<and> none_overdue t rn'
    \<and> (unfaulted (rn_timeline rn) \<longrightarrow> unfaulted (rn_timeline rn'))"
  using assms(1-4) unfolding rn'_def
proof (induction ids arbitrary: rn)
  case Nil
  then show ?case by (simp add: rn_sync_def)
next
  case (Cons i ids)
  from Cons.prems(1) obtain e where e: "map_of m i = Some e"
    by (metis insert_subset list.simps(15) map_of_eq_None_iff not_None_eq)
  have sub: "set ids \<subseteq> fst ` set m" using Cons.prems(1) by simp
  have sync: "in_sync (rn_timeline rn) (i # ids @ map fst (lc_pending (rn_lifecycle rn)))"
    using Cons.prems(4) by simp
  show ?case
  proof (cases "attempt i < MAX_ATTEMPTS")
    case True
    let ?rq = "(pe_request e)\<lparr>rq_id := next_attempt i\<rparr>"
    let ?rn = "snd (expire_reissue t ?rq (behind_warning t i) rn)"
    have "rq_id ?rq = next_attempt i" by simp
    note step = expire_reissue_sync [OF Cons.prems(2,3) sync True this, of t "behind_warning t i"]
    then have "none_overdue t ?rn" using Cons.prems(5) le_sat_add [of t] by (auto simp: none_overdue_def)
    with Cons.IH [OF sub, of ?rn] step True show ?thesis by (simp add: expiry_of_def e case_prod_beta Let_def)
  next
    case False
    let ?rn = "snd (expire_give_up t (give_up_warning i) rn)"
    note step = expire_give_up_sync [OF Cons.prems(2,3) sync, of t]
    with Cons.prems(5) have "none_overdue t ?rn" by (simp add: none_overdue_def)
    with Cons.IH [OF sub, of ?rn] step Cons.prems(2,3) False show ?thesis
      by (simp add: expiry_of_def e case_prod_beta Let_def)
  qed
qed

lemma runtime_expire_sync:
  assumes "rn_sync rn"
  shows "rn_sync (snd (runtime_expire t rn)) \<and> none_overdue t (snd (runtime_expire t rn))
    \<and> (unfaulted (rn_timeline rn) \<longrightarrow> unfaulted (rn_timeline (snd (runtime_expire t rn))))"
proof -
  note s = rn_syncD [OF assms]
  let ?m = "lc_pending (rn_lifecycle rn)"
  let ?rn = "rn\<lparr>rn_lifecycle := snd (expire_overdue t (rn_lifecycle rn))\<rparr>"
  note eq = expire_overdue_eq [OF s(1), of t]
  have "mset (map f xs) = mset (map f (filter P xs)) + mset (map f (filter (\<lambda>x. \<not> P x) xs))"
    for f :: "request_id \<times> pending_entry \<Rightarrow> request_id" and P xs by (induction xs) auto
  from this [of fst ?m "\<lambda>e. deadline_abs (snd e) < t"] have "mset (map fst ?m) = mset (overdue_ids t ?m @ map fst (lc_pending (rn_lifecycle ?rn)))"
    by (simp add: overdue_ids_def eq not_less)
  from in_sync_perm [OF this s(3)]
  have "in_sync (rn_timeline ?rn) (overdue_ids t ?m @ map fst (lc_pending (rn_lifecycle ?rn)))" by simp
  moreover have "own_ids (lc_pending (rn_lifecycle ?rn))" "none_overdue t ?rn"
    using s(2) by (auto simp: eq own_ids_def none_overdue_def)
  moreover have "lc_inv (rn_lifecycle ?rn)" using lc_inv_expire [OF s(1)] by simp
  moreover have "set (overdue_ids t ?m) \<subseteq> fst ` set ?m" by (auto simp: overdue_ids_set)
  ultimately show ?thesis
    using expire_each_sync [of ?rn "overdue_ids t ?m" t ?m]
    by (simp add: runtime_expire_def case_prod_beta eq(1))
qed

section \<open>Histories\<close>

text \<open>
  Every public call of the runtime that changes it. A tick expires first and drains the replies
  after that, which is the order the comments of \<open>process_reply\<close> rely on.
\<close>

datatype rn_op =
    RnEnqueue string string u32 u64
  | RnOutbox
  | RnTick u64 "agent_reply list"
  | RnFault u64 u64 string

primrec process_replies :: "u64 \<Rightarrow> agent_reply list \<Rightarrow> agent_runtime \<Rightarrow> process_reply_outcome list \<times> agent_runtime" where
  "process_replies t [] rn = ([], rn)"
| "process_replies t (rp # rps) rn =
     (let (x, rn1) = process_reply rp t rn; (xs, rn2) = process_replies t rps rn1 in (x # xs, rn2))"

fun rn_step :: "rn_op \<Rightarrow> agent_runtime \<Rightarrow> agent_runtime" where
  "rn_step (RnEnqueue a obs deadline t) rn = snd (enqueue_decision a obs deadline t rn)"
| "rn_step RnOutbox rn = snd (drain_outbox rn)"
| "rn_step (RnTick t rps) rn = snd (process_replies t rps (snd (runtime_expire t rn)))"
| "rn_step (RnFault i t reason) rn = snd (runtime_record_fault i t reason rn)"

primrec rn_run :: "rn_op list \<Rightarrow> agent_runtime \<Rightarrow> agent_runtime" where
  "rn_run [] rn = rn"
| "rn_run (x # xs) rn = rn_run xs (rn_step x rn)"

lemma process_reply_pending:
  "set (lc_pending (rn_lifecycle (snd (process_reply rp t rn)))) \<subseteq> set (lc_pending (rn_lifecycle rn))"
  by (auto simp: process_reply_def drain_reply_def Let_def split: option.splits drain_outcome.splits)

lemma process_replies_sync:
  "rn_sync rn \<Longrightarrow> none_overdue t rn \<Longrightarrow> rn_sync (snd (process_replies t rps rn))"
proof (induction rps arbitrary: rn)
  case (Cons rp rps)
  have "none_overdue t (snd (process_reply rp t rn))"
    using Cons.prems(2) process_reply_pending [of rp t rn] by (auto simp: none_overdue_def)
  with Cons.IH [OF process_reply_sync [OF Cons.prems]] show ?case by (simp add: case_prod_beta Let_def)
qed simp

lemma rn_step_sync:
  assumes "rn_sync rn" and "tl_next_id (rn_timeline rn) \<noteq> - 1"
  shows "rn_sync (rn_step x rn)"
proof (cases x)
  case (RnTick t rps)
  with process_replies_sync runtime_expire_sync [OF assms(1), of t] show ?thesis by simp
next
  case (RnFault i t reason)
  with rn_syncD [OF assms(1)] sync_fault show ?thesis
    by (simp add: runtime_record_fault_def rn_sync_def case_prod_beta)
qed (use assms enqueue_sync in \<open>simp_all add: drain_outbox_def rn_sync_def\<close>)

fun is_fault_op :: "rn_op \<Rightarrow> bool" where
  "is_fault_op (RnFault _ _ _) = True"
| "is_fault_op _ = False"

lemma process_replies_unfaulted:
  "unfaulted (rn_timeline rn) \<Longrightarrow> unfaulted (rn_timeline (snd (process_replies t rps rn)))"
proof (induction rps arbitrary: rn)
  case (Cons rp rps)
  have "unfaulted (rn_timeline (snd (process_reply rp t rn)))"
    using Cons.prems by (simp add: process_reply_def Let_def case_prod_beta ops_unfaulted split: drain_outcome.split)
  from Cons.IH [OF this] show ?case by (simp add: case_prod_beta Let_def)
qed simp

lemma rn_step_unfaulted:
  assumes "rn_sync rn" and "unfaulted (rn_timeline rn)" and "\<not> is_fault_op x"
  shows "unfaulted (rn_timeline (rn_step x rn))"
proof (cases x)
  case (RnEnqueue a obs deadline t)
  show ?thesis
  proof (cases "has_pending_for_agent (rn_lifecycle rn) a")
    case True
    with assms(2) show ?thesis by (simp add: RnEnqueue enqueue_decision_def)
  next
    case False
    with assms(2) show ?thesis by (simp add: RnEnqueue enqueue_decision_eq ops_unfaulted)
  qed
next
  case (RnTick t rps)
  with assms runtime_expire_sync [OF assms(1), of t] process_replies_unfaulted show ?thesis by simp
qed (use assms in \<open>simp_all add: drain_outbox_def\<close>)

lemma next_id_process: "tl_next_id (rn_timeline (snd (process_reply rp t rn))) = tl_next_id (rn_timeline rn)"
  by (simp add: process_reply_def Let_def case_prod_beta op_fields split: drain_outcome.split)

lemma next_id_process_replies:
  "tl_next_id (rn_timeline (snd (process_replies t rps rn))) = tl_next_id (rn_timeline rn)"
  by (induction rps arbitrary: rn) (simp_all add: case_prod_beta Let_def next_id_process)

lemma next_id_expire_step: "tl_next_id (rn_timeline (snd (expire_outcome_step t x rn))) = tl_next_id (rn_timeline rn)"
  by (cases x) (simp_all add: expire_reissue_def expire_give_up_def Let_def op_fields
      split: prod.split enqueue_outcome.split option.split)

lemma next_id_expire_each: "tl_next_id (rn_timeline (snd (expire_each t xs rn))) = tl_next_id (rn_timeline rn)"
  by (induction xs arbitrary: rn) (simp_all add: case_prod_beta Let_def next_id_expire_step)

lemma next_id_enqueue:
  "unat (tl_next_id (rn_timeline (snd (enqueue_decision a obs dl t rn)))) \<le> Suc (unat (tl_next_id (rn_timeline rn)))"
  by (simp add: enqueue_decision_def Let_def case_prod_beta op_fields allocate_fields unat_sat_add
      split: prod.split enqueue_outcome.split)

lemma next_id_step: "unat (tl_next_id (rn_timeline (rn_step x rn))) \<le> Suc (unat (tl_next_id (rn_timeline rn)))"
  by (cases x) (simp_all add: next_id_enqueue drain_outbox_def next_id_process_replies runtime_expire_def
      runtime_record_fault_def op_fields case_prod_beta next_id_expire_each)

lemma rn_run_sync:
  assumes "rn_sync rn" and "unat (tl_next_id (rn_timeline rn)) + length xs < 2 ^ 64 - 1"
  shows "rn_sync (rn_run xs rn)
    \<and> (unfaulted (rn_timeline rn) \<and> \<not> list_ex is_fault_op xs \<longrightarrow> unfaulted (rn_timeline (rn_run xs rn)))"
  using assms
proof (induction xs arbitrary: rn)
  case (Cons x xs)
  have "tl_next_id (rn_timeline rn) \<noteq> - 1" using Cons.prems(2) by (auto simp: unat_minus_one_eq)
  with Cons.prems have "rn_sync (rn_step x rn)" by (simp add: rn_step_sync)
  from Cons.IH [OF this] Cons.prems next_id_step [of x rn] rn_step_unfaulted [of rn x] show ?case by auto
qed simp

section \<open>Properties\<close>

definition open_entries :: "agent_runtime \<Rightarrow> string \<Rightarrow> u64 list" where
  "open_entries rn agent = map de_id (filter (\<lambda>e. de_agent_id e = agent \<and> \<not> status_terminal (de_status e))
     (tl_entries (rn_timeline rn)))"

definition outstanding :: "agent_runtime \<Rightarrow> request_id list" where
  "outstanding rn = map fst (lc_pending (rn_lifecycle rn))"

definition entry_agrees :: "request_id \<Rightarrow> decision_entry \<Rightarrow> bool" where
  "entry_agrees i e \<longleftrightarrow> de_agent_id e = rid_agent_id i \<and> de_source_tick e = source_tick i
     \<and> (de_status e = DsPending \<and> de_attempts e = attempt i + 1 \<or> is_faulted (de_status e))"

definition ledger_agrees :: "agent_runtime \<Rightarrow> bool" where
  "ledger_agrees rn \<longleftrightarrow>
     list_all (\<lambda>i. case tl_get (rn_timeline rn) (timeline_id i) of None \<Rightarrow> True | Some e \<Rightarrow> entry_agrees i e) (outstanding rn)
     \<and> list_all (\<lambda>e. status_terminal (de_status e) \<or> (\<exists>i \<in> set (outstanding rn). timeline_id i = de_id e))
         (tl_entries (rn_timeline rn))"

lemma rn_sync_agrees:
  assumes "rn_sync rn"
  shows "ledger_agrees rn" and "length (open_entries rn agent) \<le> 1"
proof -
  note y = rn_syncD(3) [OF assms, folded outstanding_def] note s = in_syncD [OF y]
  have bk: "\<exists>i \<in> set (outstanding rn). timeline_id i = de_id e \<and> rid_agent_id i = de_agent_id e"
    if "e \<in> set (tl_entries (rn_timeline rn))" "\<not> status_terminal (de_status e)" for e
  proof -
    from s(6) [OF tl_get_mem [OF s(1) that(1)] that(2)] obtain i where i: "i \<in> set (outstanding rn)" "de_id e = timeline_id i"
      by (rule imageE)
    with s(5) [OF i(1), of e] tl_get_mem [OF s(1) that(1)] show ?thesis by (auto simp: matches_def)
  qed
  have "case tl_get (rn_timeline rn) (timeline_id i) of None \<Rightarrow> True | Some e \<Rightarrow> entry_agrees i e"
    if "i \<in> set (outstanding rn)" for i
    using s(5) [OF that] by (auto simp: matches_def entry_agrees_def split: option.split)
  moreover have "status_terminal (de_status e) \<or> (\<exists>i \<in> set (outstanding rn). timeline_id i = de_id e)"
    if "e \<in> set (tl_entries (rn_timeline rn))" for e
    using bk [OF that] by blast
  ultimately show "ledger_agrees rn" by (simp add: ledger_agrees_def list_all_iff)
  have same: "i = j" if "i \<in> set (open_entries rn agent)" "j \<in> set (open_entries rn agent)" for i j
  proof -
    have "\<exists>k \<in> set (outstanding rn). timeline_id k = i \<and> rid_agent_id k = agent" if "i \<in> set (open_entries rn agent)" for i
      using that bk by (fastforce simp: open_entries_def)
    with that s(2) show ?thesis by (metis distinct_map inj_onD)
  qed
  have dist: "distinct (open_entries rn agent)"
    using tl_inv_distinct [OF s(1)] by (simp add: open_entries_def distinct_filter_map)
  show "length (open_entries rn agent) \<le> 1"
  proof (cases "open_entries rn agent" rule: remdups_adj.cases)
    case (3 x y ys)
    with same [of x y] dist show ?thesis by simp
  qed simp_all
qed

lemma reply_outcome:
  fixes rp :: agent_reply
  assumes "rn_sync rn" and "none_overdue t rn"
  defines "i \<equiv> timeline_id (rp_id rp)"
  shows "case process_reply rp t rn of
      (ReplyApply k agent chosen rationale confidence, rn') \<Rightarrow> k = i \<and> rp_id rp \<in> set (outstanding rn)
        \<and> rn_timeline rn' = snd (record_reply i t \<lparr>dr_chosen = chosen, dr_rationale = rationale,
            dr_confidence = confidence, dr_latency_ms = None, dr_raw_response_ref = None\<rparr> (rn_timeline rn))
    | (ReplyDrop _, rn') \<Rightarrow> rn' = rn"
proof -
  have "k \<in> set (outstanding rn) \<and> t \<le> deadline_abs e" if "map_of (lc_pending (rn_lifecycle rn)) k = Some e" for k e
    using map_of_SomeD [OF that] assms(2) by (force simp: none_overdue_def outstanding_def)
  then show ?thesis
    by (auto simp: process_reply_def drain_reply_def Let_def i_def split: option.split)
qed

text \<open>
  C27. The runtime keeps its two state machines in step. After any history of fewer than
  \<open>2 ^ 64 - 2\<close> of its public calls in which each tick expires before it drains, every outstanding
  request whose ledger entry is still in the window finds that entry pending, for its agent and
  with the right attempt, or faulted; every open entry belongs to an outstanding request, no agent
  has two open entries or two requests, and the ledger keeps its invariant. Entries are faulted
  only by calls that record a fault: the two refusals the code turns into faults never happen.
\<close>

theorem runtime_stays_in_sync:
  fixes n :: nat
  assumes "length xs < 2 ^ 64 - 2" and "rn0 = runtime_new \<or> rn0 = runtime_with_capacity n"
  defines "rn \<equiv> rn_run xs rn0"
  shows "ledger_agrees rn \<and> length (open_entries rn agent) \<le> 1 \<and> tl_inv (rn_timeline rn)
    \<and> distinct (map rid_agent_id (outstanding rn))
    \<and> (list_ex is_fault_op xs \<or> unfaulted (rn_timeline rn))"
proof -
  have start: "rn_sync rn0" "tl_next_id (rn_timeline rn0) = 1" "unfaulted (rn_timeline rn0)"
    using assms(2) rn_sync_new
    by (auto simp: runtime_new_def runtime_with_capacity_def tl_new_def tl_with_capacity_def unfaulted_def)
  have "rn_sync rn \<and> (\<not> list_ex is_fault_op xs \<longrightarrow> unfaulted (rn_timeline rn))"
    using rn_run_sync [OF start(1), of xs] start(2,3) assms(1) by (simp add: rn_def)
  with rn_sync_agrees in_syncD(1,2) [OF rn_syncD(3)] show ?thesis by (auto simp: outstanding_def)
qed

definition wait_reply :: "u64 \<Rightarrow> u32 \<Rightarrow> agent_reply" where
  "wait_reply i n = \<lparr>rp_id = \<lparr>timeline_id = i, rid_agent_id = ''a'', source_tick = 0, attempt = n\<rparr>,
     rp_chosen = None, rp_rationale = ''wait'', rp_confidence = 0\<rparr>"

definition demo_calls :: "rn_op list" where
  "demo_calls = [RnEnqueue ''a'' ''{}'' 1 0, RnOutbox, RnTick 2 [wait_reply 1 0], RnTick 3 [wait_reply 1 1],
     RnEnqueue ''a'' ''{}'' 0 4, RnTick 5 [], RnTick 6 [], RnTick 7 [], RnEnqueue ''b'' ''{}'' 9 8]"

theorem runtime_stays_in_sync_witness:
  "ledger_agrees (rn_run demo_calls (runtime_with_capacity 2))
   \<and> map de_status (tl_entries (rn_timeline (rn_run demo_calls (runtime_with_capacity 2)))) = [DsGaveUp 7, DsPending]"
proof
  have "length demo_calls < 2 ^ 64 - 2" by (simp add: demo_calls_def)
  from runtime_stays_in_sync [OF this, of "runtime_with_capacity 2" 2]
  show "ledger_agrees (rn_run demo_calls (runtime_with_capacity 2))" by blast
  show "map de_status (tl_entries (rn_timeline (rn_run demo_calls (runtime_with_capacity 2)))) = [DsGaveUp 7, DsPending]"
    by code_simp
qed





text \<open>
  C29. Recording a fault touches the ledger only, and the request it concerns stays outstanding.
  Whatever the state: if a fault is recorded for a decision and its reply would have been applied
  before, the reply is applied all the same, while the ledger keeps saying that the decision
  faulted and holds no response of it.
\<close>

theorem faulted_decision_still_applied:
  assumes inv: "tl_inv (rn_timeline rn)" and fault: "runtime_record_fault i u reason rn = (Inr (), rn1)"
    and reply: "fst (process_reply rp t rn) = ReplyApply i agent chosen rationale confidence"
  shows "fst (process_reply rp t rn1) = ReplyApply i agent chosen rationale confidence
    \<and> outstanding rn1 = outstanding rn
    \<and> map_option de_status (tl_get (rn_timeline (snd (process_reply rp t rn1))) i) = Some (DsFaulted u reason)
    \<and> map_option de_response (tl_get (rn_timeline (snd (process_reply rp t rn1))) i)
        = map_option de_response (tl_get (rn_timeline rn) i)"
proof -
  let ?f = "\<lambda>e. e\<lparr>de_status := DsFaulted u reason\<rparr>"
  have rn1: "rn_timeline rn1 = snd (record_fault i u reason (rn_timeline rn))" "rn_lifecycle rn1 = rn_lifecycle rn"
    "\<not> isl (fst (record_fault i u reason (rn_timeline rn)))"
    using fault by (auto simp: runtime_record_fault_def case_prod_beta)
  from fault.works_iff [of i u reason "rn_timeline rn"] rn1(3) obtain e where e: "tl_get (rn_timeline rn) i = Some e"
    by blast
  have e1: "tl_get (rn_timeline rn1) i = Some (?f e)" using fault.op_get [OF inv rn1(3), of i] e by (simp add: rn1(1))
  have inv1: "tl_inv (rn_timeline rn1)" using fault.op_inv [OF inv] by (simp add: rn1(1))
  have i: "timeline_id (rp_id rp) = i" using reply
    by (auto simp: process_reply_def Let_def case_prod_beta split: drain_outcome.splits)
  have same: "fst (process_reply rp t rn1) = ReplyApply i agent chosen rationale confidence"
    using reply by (auto simp: process_reply_def Let_def case_prod_beta rn1(2) split: drain_outcome.splits)
  have "tl_get (snd (record_reply i t resp (rn_timeline rn1))) i = Some (?f e)" for resp
    using reply.op_exact [OF inv1 e1, where i = i and t = t and resp = resp] by simp
  then have "tl_get (rn_timeline (snd (process_reply rp t rn1))) i = Some (?f e)"
    using same i by (auto simp: process_reply_def Let_def case_prod_beta split: drain_outcome.splits)
  with same e show ?thesis by (simp add: outstanding_def rn1(2))
qed

theorem faulted_decision_still_applied_witness:
  "fst (process_reply (wait_reply 1 0) 2 (snd (runtime_record_fault 1 1 ''bridge''
      (snd (enqueue_decision ''a'' ''{}'' 5 0 runtime_new))))) = ReplyApply 1 ''a'' None ''wait'' 0"
proof -
  let ?rn = "snd (enqueue_decision ''a'' ''{}'' 5 0 runtime_new)"
  have "rn_sync ?rn" by (rule enqueue_sync [OF rn_sync_new(2)]) code_simp
  then have "tl_inv (rn_timeline ?rn)" by (rule in_syncD(1) [OF rn_syncD(3)])
  moreover have "runtime_record_fault 1 1 ''bridge'' ?rn = (Inr (), snd (runtime_record_fault 1 1 ''bridge'' ?rn))"
    "fst (process_reply (wait_reply 1 0) 2 ?rn) = ReplyApply 1 ''a'' None ''wait'' 0" by code_simp+
  ultimately show ?thesis using faulted_decision_still_applied by blast
qed














text \<open>Two agents are enough: the second reply makes the runtime forget the first.\<close>

lemma duplicate_reported_as_fault:
  "map fst [process_reply (wait_reply 1 0) 1 (rn_run [RnEnqueue ''a'' ''{}'' 5 0, RnEnqueue ''b'' ''{}'' 5 0,
      RnTick 1 [wait_reply 1 0, (wait_reply 2 0)\<lparr>rp_id := \<lparr>timeline_id = 2, rid_agent_id = ''b'', source_tick = 0,
        attempt = 0\<rparr>\<rparr>]] runtime_new)] = [ReplyDrop (unknown_fault (rp_id (wait_reply 1 0)))]"
  by code_simp

end
