(* ===== verification/Llm_Agent.thy ===== *)
theory Llm_Agent
  imports Agent_Runtime Agent_Host
begin

text \<open>
  The agent behind the process boundary (\<open>llm_agent.rs\<close>): when it acts it queues a request with the
  shared runtime and answers at once with a placeholder that chooses nothing. The serializer of
  the crate \<open>serde_json\<close> is the parameter \<open>ser\<close>; the mutex around the runtime is a value that may
  be poisoned.
\<close>

section \<open>The agent\<close>

record llm_agent =
  ll_id :: string
  ll_interval_ticks :: u32
  ll_deadline_ticks :: u32

record runtime_mutex =
  mx_poisoned :: bool
  mx_runtime :: agent_runtime

definition with_fresh_runtime :: "string \<Rightarrow> u32 \<Rightarrow> u32 \<Rightarrow> llm_agent \<times> runtime_mutex" where
  "with_fresh_runtime name interval deadline =
     (\<lparr>ll_id = name, ll_interval_ticks = interval, ll_deadline_ticks = deadline\<rparr>,
      \<lparr>mx_poisoned = False, mx_runtime = runtime_new\<rparr>)"

definition thinking_report :: "string \<Rightarrow> u64 \<Rightarrow> enqueue_decision_outcome \<Rightarrow> agent_report" where
  "thinking_report agent tick out = \<lparr>ar_tick = tick, ar_agent_id = agent, ar_considered = [], ar_chosen = None,
     ar_rationale = (case out of DecisionEnqueued i \<Rightarrow> ''awaiting reply (decision #'' @ dec i @ '')''
        | DecisionDropped _ \<Rightarrow> ''backpressure-dropped: prior request still pending''),
     ar_confidence = f32_zero\<rparr>"

definition llm_act ::
  "(observation \<Rightarrow> string + string) \<Rightarrow> llm_agent \<Rightarrow> observation \<Rightarrow> runtime_mutex
    \<Rightarrow> (host_error + agent_report) \<times> runtime_mutex" where
  "llm_act ser a ob mx = (case ser ob of
     Inl err \<Rightarrow> (Inl (InvalidActionError (ll_id a) (''failed to serialize observation: '' @ err)), mx)
   | Inr json \<Rightarrow>
       if mx_poisoned mx then (Inl (Panicked (ll_id a) ''AgentRuntime mutex poisoned''), mx)
       else let (out, rn) = enqueue_decision (ll_id a) json (ll_deadline_ticks a) (ob_tick ob) (mx_runtime mx)
            in (Inr (thinking_report (ll_id a) (ob_tick ob) out), mx\<lparr>mx_runtime := rn\<rparr>))"

definition llm_observe :: "'r world \<Rightarrow> observation" where
  "llm_observe w = observation_from_world w"

section \<open>Properties\<close>

lemma enqueue_pending:
  "has_pending_for_agent (rn_lifecycle (snd (enqueue_decision a obs dl t rn))) a"
proof (cases "has_pending_for_agent (rn_lifecycle rn) a")
  case True
  then show ?thesis by (simp add: enqueue_decision_def)
next
  case False
  let ?i = "\<lparr>timeline_id = tl_next_id (rn_timeline rn), rid_agent_id = a, source_tick = t, attempt = 0\<rparr>"
  let ?rq = "\<lparr>rq_id = ?i, rq_deadline_ticks = dl, rq_observation_json = obs\<rparr>"
  show ?thesis
    using enqueue_accepted [of "rn_lifecycle rn" ?rq t] False
    by (simp add: enqueue_decision_eq [OF False]) (simp add: has_pending_for_agent_def)
qed

text \<open>
  C31. An agent behind the boundary never acts on the spot and never has two requests in flight.
  With a working serializer and an intact mutex its answer chooses and considers nothing, the
  runtime stays in step, no entry of the ledger is faulted by it, and the agent has a request
  outstanding afterwards; asked again before the reply, it answers that it was dropped and
  leaves the runtime as it is.
\<close>

theorem llm_act_waits:
  fixes a :: llm_agent and ob ob' :: observation and mx :: runtime_mutex
  assumes "rn_sync (mx_runtime mx)" and "tl_next_id (rn_timeline (mx_runtime mx)) \<noteq> - 1" and "\<not> mx_poisoned mx"
    and "ser ob = Inr json" and "ser ob' = Inr json'"
  defines "res \<equiv> llm_act ser a ob mx"
  shows "\<exists>r. fst res = Inr r \<and> ar_chosen r = None \<and> ar_considered r = [] \<and> ar_agent_id r = ll_id a \<and> ar_tick r = ob_tick ob
    \<and> rn_sync (mx_runtime (snd res))
    \<and> (unfaulted (rn_timeline (mx_runtime mx)) \<longrightarrow> unfaulted (rn_timeline (mx_runtime (snd res)))) \<and> has_pending_for_agent (rn_lifecycle (mx_runtime (snd res))) (ll_id a)
    \<and> (\<exists>r'. llm_act ser a ob' (snd res) = (Inr r', snd res) \<and> ar_chosen r' = None
         \<and> ar_rationale r' = ''backpressure-dropped: prior request still pending'')"
proof -
  let ?e = "enqueue_decision (ll_id a) json (ll_deadline_ticks a) (ob_tick ob) (mx_runtime mx)"
  have res: "res = (Inr (thinking_report (ll_id a) (ob_tick ob) (fst ?e)), mx\<lparr>mx_runtime := snd ?e\<rparr>)"
    by (simp add: res_def llm_act_def assms case_prod_beta)
  have p: "has_pending_for_agent (rn_lifecycle (snd ?e)) (ll_id a)" by (rule enqueue_pending)
  have "llm_act ser a ob' (snd res) = (Inr (thinking_report (ll_id a) (ob_tick ob')
      (DecisionDropped (backpressure_warning_for (ll_id a) (ob_tick ob') (ob_tick ob')))), snd res)"
    using p assms(3,5) by (simp add: res llm_act_def) (simp add: enqueue_decision_def)
  moreover have "unfaulted (rn_timeline (mx_runtime mx)) \<longrightarrow> unfaulted (rn_timeline (snd ?e))"
    using rn_step_unfaulted [OF assms(1), of "RnEnqueue (ll_id a) json (ll_deadline_ticks a) (ob_tick ob)"] by simp
  ultimately show ?thesis using p enqueue_sync [OF assms(1,2)] by (simp add: res thinking_report_def)
qed

theorem llm_act_waits_witness:
  "\<exists>r. fst (llm_act (\<lambda>_. Inr ''{}'') (fst (with_fresh_runtime ''a'' 5 3)) observation_default (snd (with_fresh_runtime ''a'' 5 3))) = Inr r
     \<and> ar_chosen r = None"
proof -
  let ?mx = "snd (with_fresh_runtime ''a'' 5 3)"
  have "rn_sync (mx_runtime ?mx)" "\<not> mx_poisoned ?mx" by (simp_all add: with_fresh_runtime_def rn_sync_new)
  moreover have "tl_next_id (rn_timeline (mx_runtime ?mx)) \<noteq> - 1" by code_simp
  ultimately show ?thesis
    using llm_act_waits [of ?mx "\<lambda>_. Inr ''{}''" observation_default "''{}''" observation_default "''{}''"
        "fst (with_fresh_runtime ''a'' 5 3)"] by blast
qed

end
