(* ===== verification/Wire_Views.thy ===== *)
theory Wire_Views
  imports Btree Protocol
begin

text \<open>
  The render views of \<open>crates/protocol/src/lib.rs\<close>: what a renderer is told of a scene once (the static
  payload) and of a tick (the snapshot), one record or datatype per type, with the names of the
  scene types and the prefix \<open>v\<close>.
\<close>

section \<open>Places, links, things\<close>

record storage_slot_view =
  vslot_capacity :: u64
  vslot_initial :: u64

datatype operating_predicate_view = UsedPercentGteView string u8 | OverloadedTicksGtView u64

record operating_state_view =
  vos_predicate :: operating_predicate_view
  vos_grace_ticks :: "u64 option"

record place_view =
  vplace_id :: string
  vplace_role :: string
  vplace_pos :: "f32_bits \<times> f32_bits"
  vplace_shape :: "string option"
  vplace_color :: "u32 option"
  vplace_capacity :: "(string, u64) btree_map"
  vplace_storage :: "(string, storage_slot_view) btree_map"
  vplace_accepts :: "string list"
  vplace_produces :: "string list"
  vplace_failure_domains :: "string list"
  vplace_operating_states :: "(string, operating_state_view) btree_map"

datatype link_direction_view = ForwardView | BidirectionalView

datatype link_backpressure_view =
    BlockUpstreamView
  | DropLowPriorityView
  | SpillToBufferView
  | DegradeQualityView

record link_render_hint_view =
  vlrh_style :: string
  vlrh_color :: "u32 option"

record link_view =
  vlink_id :: string
  vlink_type :: string
  vlink_from :: string
  vlink_to :: string
  vlink_direction :: link_direction_view
  vlink_capacity :: "(string, u64) btree_map"
  vlink_travel_ticks :: u64
  vlink_compatibility :: "string list"
  vlink_queue_capacity :: u64
  vlink_backpressure :: link_backpressure_view
  vlink_render :: "link_render_hint_view option"

record quality_contract_view =
  vqc_max_drop_percent :: "f64_bits option"
  vqc_max_late_ticks :: "u64 option"
  vqc_required_fields :: "string list"

record thing_render_hint_view =
  vtrh_glyph :: string
  vtrh_color :: "u32 option"

record thing_view =
  vthing_id :: string
  vthing_kind :: string
  vthing_tags :: "string list"
  vthing_schema_version :: "u32 option"
  vthing_freshness_budget_ticks :: "u64 option"
  vthing_quality_contract :: "quality_contract_view option"
  vthing_render :: "thing_render_hint_view option"

section \<open>Transforms, demand, pressure\<close>

record transform_io_view =
  vio_thing_id :: string
  vio_amount :: u64

datatype failure_policy_view = RetryThenWarnView | DropView

record transform_view =
  vtransform_id :: string
  vtransform_kind :: string
  vtransform_runs_on :: string
  vtransform_inputs :: "transform_io_view list"
  vtransform_outputs :: "transform_io_view list"
  vtransform_cadence_ticks :: u64
  vtransform_duration_ticks :: u64
  vtransform_deadline_ticks :: u64
  vtransform_capacity_cost :: "(string, u64) btree_map"
  vtransform_failure_policy :: failure_policy_view
  vtransform_max_attempts :: u32

datatype demand_target_view = TargetPlaceView string

datatype demand_schedule_view = FixedView u64 u64 | ScriptedView "u64 list"

datatype demand_priority_view = PriLowView | PriNormalView | PriHighView | PriCriticalView

record demand_penalty_view =
  vpenalty_score :: i64
  vpenalty_warning :: "string option"

record demand_view =
  vdemand_id :: string
  vdemand_kind :: string
  vdemand_target :: demand_target_view
  vdemand_requires :: "string list"
  vdemand_spawn_schedule :: demand_schedule_view
  vdemand_deadline_ticks :: u64
  vdemand_priority :: demand_priority_view
  vdemand_value :: u64
  vdemand_penalty :: demand_penalty_view

datatype pressure_params_view =
    SourceMultiplierView string u64
  | DemandGrowthView u32
  | QuotaReductionView string u8
  | PathOutageView
  | PressureUnsupportedView

record pressure_view =
  vpressure_id :: string
  vpressure_kind :: string
  vpressure_at_tick :: u64
  vpressure_duration_ticks :: u64
  vpressure_target :: string
  vpressure_params :: pressure_params_view

section \<open>Goals\<close>

datatype objective_params_view =
    KeepFreshView string string u64
  | CompleteJobsBeforeDeadlineView string u64
  | MaintainUtilizationView string string u8 u8
  | ObjectiveUnsupportedView

record objective_view =
  vobjective_id :: string
  vobjective_kind :: string
  vobjective_weight :: u32
  vobjective_params :: objective_params_view

datatype failure_condition_params_view =
    StaleTargetView string string u64 u64
  | PlaceStateView string string u64
  | ObjectiveBreachCountView string u64

record failure_condition_view =
  vfc_id :: string
  vfc_kind :: string
  vfc_params :: failure_condition_params_view

datatype victory_condition_params_view = SurviveUntilView u64

record victory_condition_view =
  vvc_id :: string
  vvc_kind :: string
  vvc_params :: victory_condition_params_view

section \<open>Observability, agents, milestones\<close>

datatype metric_source_view =
    PlaceCapacityUsedPercentView string string
  | PlaceInventoryCountView string string
  | DashboardFreshnessView string

record metric_view =
  vmetric_id :: string
  vmetric_source :: metric_source_view

record dashboard_view =
  vdashboard_id :: string
  vdashboard_kind :: string
  vdashboard_depends_on :: "string list"
  vdashboard_freshness_slo_ticks :: u64

datatype alert_predicate_view = GtView u64 | LtView u64 | OutOfRangeView u64 u64

record alert_view =
  valert_id :: string
  valert_metric :: string
  valert_predicate :: alert_predicate_view
  valert_severity :: string

record agent_view =
  vagent_id :: string
  vagent_kind :: string
  vagent_role :: string
  vagent_interval_ticks :: u64
  vagent_observation_scope :: "string list"
  vagent_allowed_actions :: "string list"
  vagent_max_cost_per_decision :: u64
  vagent_cooldown_ticks :: u64
  vagent_objective_weights :: "(string, f64_bits) btree_map"

datatype milestone_trigger_view =
    PressureActivatedView string
  | PressureDeactivatedView string
  | MetricThresholdView string string i64
  | DashboardStateView string string

record milestone_view =
  vmilestone_id :: string
  vmilestone_label :: string
  vmilestone_trigger_kind :: string
  vmilestone_trigger :: milestone_trigger_view
  vmilestone_camera_focus :: "string list"
  vmilestone_highlight :: "string option"

section \<open>The static payload\<close>

datatype node_shape_tag = CircleTag | SquareTag | TriangleTag | DiamondTag | HexagonTag

record node_view =
  vnode_id :: u32
  vnode_pos :: "f32_bits \<times> f32_bits"
  vnode_shape :: node_shape_tag
  vnode_color :: u8

record path_view =
  vpath_id :: u32
  vpath_from_pos :: "f32_bits \<times> f32_bits"
  vpath_to_pos :: "f32_bits \<times> f32_bits"
  vpath_color :: u8

record static_payload =
  sp_name :: string
  sp_palette :: "string list"
  sp_background_index :: u8
  sp_nodes :: "node_view list"
  sp_paths :: "path_view list"
  sp_node_names :: "(u32, string) btree_map"
  sp_path_names :: "(u32, string) btree_map"
  sp_mover_names :: "(u32, string) btree_map"
  sp_places :: "place_view list"
  sp_links :: "link_view list"
  sp_things :: "thing_view list"
  sp_transforms :: "transform_view list"
  sp_demand :: "demand_view list"
  sp_pressure :: "pressure_view list"
  sp_objectives :: "objective_view list"
  sp_failure_conditions :: "failure_condition_view list"
  sp_victory_conditions :: "victory_condition_view list"
  sp_metrics :: "metric_view list"
  sp_dashboards :: "dashboard_view list"
  sp_alerts :: "alert_view list"
  sp_agents :: "agent_view list"
  sp_milestones :: "milestone_view list"

section \<open>The snapshot\<close>

datatype freshness_view = NoDataView | OkView u64 | StaleView u64 | DegradedView | InvalidView

record place_inventory_view =
  vinv_place_id :: string
  vinv_thing_id :: string
  vinv_count :: u64
  vinv_freshness :: freshness_view

datatype transform_state_view =
    IdleView
  | RunningView u64 u64 u32
  | StarvedView u64 u64 u32
  | BlockedView u64 u64 u32
  | LateView u64 u32 u64

record transform_runtime_view =
  vtr_transform_id :: string
  vtr_state :: transform_state_view

record demand_runtime_view =
  vdr_demand_id :: string
  vdr_outstanding :: u32
  vdr_fulfilled_count :: u64
  vdr_dropped_count :: u64
  vdr_next_sequence :: u64

datatype objective_status_tag_view = UnknownTag | MetTag | BreachedTag | UnsupportedTag

record objective_runtime_view =
  vor_objective_id :: string
  vor_status :: objective_status_tag_view
  vor_breach_tick_count :: u64

record failure_condition_runtime_view =
  vfr_failure_condition_id :: string
  vfr_breach_streak_ticks :: u64
  vfr_fired_at_tick :: "u64 option"

record victory_condition_runtime_view =
  vvr_victory_condition_id :: string
  vvr_met_at_tick :: "u64 option"

record game_outcome_view =
  vgo_state :: string
  vgo_reason :: "string option"

record metric_state_view =
  vms_metric_id :: string
  vms_state :: string
  vms_value :: "u64 option"

record dashboard_state_view =
  vds_dashboard_id :: string
  vds_state :: string
  vds_freshness_ticks :: "u64 option"

record alert_state_view =
  vas_alert_id :: string
  vas_state :: string
  vas_fired_at_tick :: "u64 option"

record wire_mover =
  wm_id :: u32
  wm_pos :: "f32_bits \<times> f32_bits"
  wm_speed :: f32_bits
  wm_on_path :: u32

record snapshot_payload =
  sn_tick :: u64
  sn_movers :: "wire_mover list"
  sn_place_inventories :: "place_inventory_view list"
  sn_transform_states :: "transform_runtime_view list"
  sn_demand_states :: "demand_runtime_view list"
  sn_objective_states :: "objective_runtime_view list"
  sn_failure_condition_states :: "failure_condition_runtime_view list"
  sn_victory_condition_states :: "victory_condition_runtime_view list"
  sn_game_outcome :: "game_outcome_view option"
  sn_game_phase :: "string option"
  sn_metric_states :: "metric_state_view list"
  sn_dashboard_states :: "dashboard_state_view list"
  sn_alert_states :: "alert_state_view list"

section \<open>Envelopes\<close>

definition WIRE_SCHEMA_VERSION :: u32 where "WIRE_SCHEMA_VERSION = 1"

record 'a envelope =
  env_schema_version :: u32
  env_seq :: u64
  env_payload :: 'a

definition envelope_new :: "u64 \<Rightarrow> 'a \<Rightarrow> 'a envelope" where
  "envelope_new seq x = \<lparr>env_schema_version = WIRE_SCHEMA_VERSION, env_seq = seq, env_payload = x\<rparr>"

definition is_compatible :: "'a envelope \<Rightarrow> bool" where
  "is_compatible e \<longleftrightarrow> env_schema_version e = WIRE_SCHEMA_VERSION"

end
