(* ===== verification/Snapshot.thy ===== *)
theory Snapshot
  imports Wire_Views Observability Scene_File Hash_World
begin

text \<open>
  The encoders of \<open>snapshot.rs\<close>: the static payload of a scene, the snapshot of a tick, written into a
  buffer that is reused, and the batches of paths by colour.
\<close>

section \<open>Views of the scene\<close>

fun predicate_to_view :: "sl1_operating_predicate \<Rightarrow> operating_predicate_view" where
  "predicate_to_view (UsedPercentGte m t) = UsedPercentGteView m t"
| "predicate_to_view (OverloadedTicksGt t) = OverloadedTicksGtView t"

definition slot_to_view :: "sl1_storage_slot \<Rightarrow> storage_slot_view" where
  "slot_to_view v = \<lparr>vslot_capacity = slot_capacity v, vslot_initial = slot_initial v\<rparr>"

definition operating_state_to_view :: "sl1_operating_state \<Rightarrow> operating_state_view" where
  "operating_state_to_view s =
     \<lparr>vos_predicate = predicate_to_view (os_predicate s), vos_grace_ticks = os_grace_ticks s\<rparr>"

definition place_to_view :: "sl1_place \<Rightarrow> place_view" where
  "place_to_view p = \<lparr>vplace_id = place_id p, vplace_role = place_role p, vplace_pos = place_pos p,
     vplace_shape = place_shape p, vplace_color = place_color p, vplace_capacity = place_capacity p,
     vplace_storage = bt_collect (map (\<lambda>(k, v). (k, slot_to_view v)) (place_storage p)),
     vplace_accepts = place_accepts p, vplace_produces = place_produces p,
     vplace_failure_domains = place_failure_domains p,
     vplace_operating_states =
       bt_collect (map (\<lambda>(k, s). (k, operating_state_to_view s)) (place_operating_states p))\<rparr>"

fun direction_to_view :: "sl1_link_direction \<Rightarrow> link_direction_view" where
  "direction_to_view Forward = ForwardView"
| "direction_to_view Bidirectional = BidirectionalView"

fun backpressure_to_view :: "sl1_link_backpressure \<Rightarrow> link_backpressure_view" where
  "backpressure_to_view BlockUpstream = BlockUpstreamView"
| "backpressure_to_view DropLowPriority = DropLowPriorityView"
| "backpressure_to_view SpillToBuffer = SpillToBufferView"
| "backpressure_to_view DegradeQuality = DegradeQualityView"

definition link_to_view :: "sl1_link \<Rightarrow> link_view" where
  "link_to_view l = \<lparr>vlink_id = link_id l, vlink_type = link_type l, vlink_from = link_from l,
     vlink_to = link_to l, vlink_direction = direction_to_view (link_direction l),
     vlink_capacity = link_capacity l, vlink_travel_ticks = link_travel_ticks l,
     vlink_compatibility = link_compatibility l, vlink_queue_capacity = link_queue_capacity l,
     vlink_backpressure = backpressure_to_view (link_backpressure l),
     vlink_render = map_option (\<lambda>r. \<lparr>vlrh_style = lrh_style r, vlrh_color = lrh_color r\<rparr>) (link_render l)\<rparr>"

definition contract_to_view :: "sl1_thing_quality_contract \<Rightarrow> quality_contract_view" where
  "contract_to_view q = \<lparr>vqc_max_drop_percent = qc_max_drop_percent q,
     vqc_max_late_ticks = qc_max_late_ticks q, vqc_required_fields = qc_required_fields q\<rparr>"

definition thing_to_view :: "sl1_thing \<Rightarrow> thing_view" where
  "thing_to_view t = \<lparr>vthing_id = thing_id t, vthing_kind = thing_kind t, vthing_tags = thing_tags t,
     vthing_schema_version = thing_schema_version t,
     vthing_freshness_budget_ticks = thing_freshness_budget_ticks t,
     vthing_quality_contract = map_option contract_to_view (thing_quality_contract t),
     vthing_render = map_option (\<lambda>r. \<lparr>vtrh_glyph = trh_glyph r, vtrh_color = trh_color r\<rparr>) (thing_render t)\<rparr>"

definition io_to_view :: "sl1_transform_io \<Rightarrow> transform_io_view" where
  "io_to_view io = \<lparr>vio_thing_id = io_thing_id io, vio_amount = io_amount io\<rparr>"

fun policy_to_view :: "sl1_failure_policy \<Rightarrow> failure_policy_view" where
  "policy_to_view RetryThenWarn = RetryThenWarnView"
| "policy_to_view DropPolicy = DropView"

definition transform_to_view :: "sl1_transform \<Rightarrow> transform_view" where
  "transform_to_view t = \<lparr>vtransform_id = transform_id t, vtransform_kind = transform_kind t,
     vtransform_runs_on = transform_runs_on t, vtransform_inputs = map io_to_view (transform_inputs t),
     vtransform_outputs = map io_to_view (transform_outputs t),
     vtransform_cadence_ticks = transform_cadence_ticks t,
     vtransform_duration_ticks = transform_duration_ticks t,
     vtransform_deadline_ticks = transform_deadline_ticks t,
     vtransform_capacity_cost = transform_capacity_cost t,
     vtransform_failure_policy = policy_to_view (transform_failure_policy t),
     vtransform_max_attempts = transform_max_attempts t\<rparr>"

fun target_to_view :: "sl1_demand_target \<Rightarrow> demand_target_view" where
  "target_to_view (TargetPlace i) = TargetPlaceView i"

fun schedule_to_view :: "sl1_demand_schedule \<Rightarrow> demand_schedule_view" where
  "schedule_to_view (Fixed every start) = FixedView every start"
| "schedule_to_view (Scripted ts) = ScriptedView ts"

fun priority_to_view :: "sl1_demand_priority \<Rightarrow> demand_priority_view" where
  "priority_to_view PriLow = PriLowView"
| "priority_to_view PriNormal = PriNormalView"
| "priority_to_view PriHigh = PriHighView"
| "priority_to_view PriCritical = PriCriticalView"

definition demand_to_view :: "sl1_demand \<Rightarrow> demand_view" where
  "demand_to_view d = \<lparr>vdemand_id = demand_id d, vdemand_kind = demand_kind d,
     vdemand_target = target_to_view (demand_target d), vdemand_requires = demand_requires d,
     vdemand_spawn_schedule = schedule_to_view (demand_spawn_schedule d),
     vdemand_deadline_ticks = demand_deadline_ticks d,
     vdemand_priority = priority_to_view (demand_priority d), vdemand_value = demand_value d,
     vdemand_penalty = \<lparr>vpenalty_score = penalty_score (demand_penalty d),
       vpenalty_warning = penalty_warning (demand_penalty d)\<rparr>\<rparr>"

fun pressure_params_to_view :: "sl1_pressure_params \<Rightarrow> pressure_params_view" where
  "pressure_params_to_view (SourceMultiplier th n) = SourceMultiplierView th n"
| "pressure_params_to_view (DemandGrowth n) = DemandGrowthView n"
| "pressure_params_to_view (QuotaReduction cap n) = QuotaReductionView cap n"
| "pressure_params_to_view PathOutage = PathOutageView"
| "pressure_params_to_view PressureUnsupported = PressureUnsupportedView"

definition pressure_to_view :: "sl1_pressure \<Rightarrow> pressure_view" where
  "pressure_to_view p = \<lparr>vpressure_id = pressure_id p, vpressure_kind = pressure_kind_str (pressure_kind p),
     vpressure_at_tick = pressure_at_tick p, vpressure_duration_ticks = pressure_duration_ticks p,
     vpressure_target = pressure_target p, vpressure_params = pressure_params_to_view (pressure_params p)\<rparr>"

fun objective_params_to_view :: "sl1_objective_params \<Rightarrow> objective_params_view" where
  "objective_params_to_view (KeepFresh p th n) = KeepFreshView p th n"
| "objective_params_to_view (CompleteJobsBeforeDeadline d n) = CompleteJobsBeforeDeadlineView d n"
| "objective_params_to_view (MaintainUtilization p c lo hi) = MaintainUtilizationView p c lo hi"
| "objective_params_to_view ObjectiveUnsupported = ObjectiveUnsupportedView"

definition objective_to_view :: "sl1_objective \<Rightarrow> objective_view" where
  "objective_to_view ob = \<lparr>vobjective_id = objective_id ob, vobjective_kind = objective_kind_str (objective_kind ob),
     vobjective_weight = objective_weight ob, vobjective_params = objective_params_to_view (objective_params ob)\<rparr>"

fun fc_kind_str :: "sl1_failure_condition_kind \<Rightarrow> string" where
  "fc_kind_str FStaleTarget = ''stale_target''"
| "fc_kind_str FPlaceState = ''place_state''"
| "fc_kind_str FObjectiveBreachCount = ''objective_breach_count''"

fun fc_params_to_view :: "sl1_failure_condition_params \<Rightarrow> failure_condition_params_view" where
  "fc_params_to_view (StaleTarget p th n g) = StaleTargetView p th n g"
| "fc_params_to_view (PlaceState p s g) = PlaceStateView p s g"
| "fc_params_to_view (ObjectiveBreachCount i n) = ObjectiveBreachCountView i n"

definition failure_condition_to_view :: "sl1_failure_condition \<Rightarrow> failure_condition_view" where
  "failure_condition_to_view fc =
     \<lparr>vfc_id = fc_id fc, vfc_kind = fc_kind_str (fc_kind fc), vfc_params = fc_params_to_view (fc_params fc)\<rparr>"

fun vc_kind_str :: "sl1_victory_condition_kind \<Rightarrow> string" where
  "vc_kind_str VSurviveUntil = ''survive_until''"

fun vc_params_to_view :: "sl1_victory_condition_params \<Rightarrow> victory_condition_params_view" where
  "vc_params_to_view (SurviveUntil t) = SurviveUntilView t"

definition victory_condition_to_view :: "sl1_victory_condition \<Rightarrow> victory_condition_view" where
  "victory_condition_to_view vc =
     \<lparr>vvc_id = vc_id vc, vvc_kind = vc_kind_str (vc_kind vc), vvc_params = vc_params_to_view (vc_params vc)\<rparr>"

fun source_to_view :: "sl1_metric_source \<Rightarrow> metric_source_view" where
  "source_to_view (PlaceCapacityUsedPercent p c) = PlaceCapacityUsedPercentView p c"
| "source_to_view (PlaceInventoryCount p th) = PlaceInventoryCountView p th"
| "source_to_view (DashboardFreshness d) = DashboardFreshnessView d"

definition metric_to_view :: "sl1_metric \<Rightarrow> metric_view" where
  "metric_to_view m = \<lparr>vmetric_id = metric_id m, vmetric_source = source_to_view (metric_source m)\<rparr>"

definition dashboard_to_view :: "sl1_dashboard \<Rightarrow> dashboard_view" where
  "dashboard_to_view d = \<lparr>vdashboard_id = dashboard_id d, vdashboard_kind = dashboard_kind_str (dashboard_kind d),
     vdashboard_depends_on = dashboard_depends_on d,
     vdashboard_freshness_slo_ticks = dashboard_freshness_slo_ticks d\<rparr>"

fun alert_predicate_to_view :: "sl1_alert_predicate \<Rightarrow> alert_predicate_view" where
  "alert_predicate_to_view (AlertGt t) = GtView t"
| "alert_predicate_to_view (AlertLt t) = LtView t"
| "alert_predicate_to_view (OutOfRange lo hi) = OutOfRangeView lo hi"

definition alert_to_view :: "sl1_alert \<Rightarrow> alert_view" where
  "alert_to_view a = \<lparr>valert_id = alert_id a, valert_metric = alert_metric a,
     valert_predicate = alert_predicate_to_view (alert_predicate a),
     valert_severity = severity_str (alert_severity a)\<rparr>"

definition scope_to_view :: "sl1_agent_observation_target \<Rightarrow> string" where
  "scope_to_view t = obs_kind_str t @ '':'' @ obs_id t"

definition agent_to_view :: "sl1_agent \<Rightarrow> agent_view" where
  "agent_to_view a = \<lparr>vagent_id = agent_id a, vagent_kind = agent_kind_str (agent_kind a),
     vagent_role = agent_role a, vagent_interval_ticks = agent_interval_ticks a,
     vagent_observation_scope = map scope_to_view (agent_observation_scope a),
     vagent_allowed_actions = map action_kind_str (agent_allowed_actions a),
     vagent_max_cost_per_decision = agent_max_cost_per_decision a,
     vagent_cooldown_ticks = agent_cooldown_ticks a,
     vagent_objective_weights = agent_objective_weights a\<rparr>"

fun trigger_to_view :: "sl1_milestone_trigger \<Rightarrow> string \<times> milestone_trigger_view" where
  "trigger_to_view (PressureActivated p) = (''pressure_activated'', PressureActivatedView p)"
| "trigger_to_view (PressureDeactivated p) = (''pressure_deactivated'', PressureDeactivatedView p)"
| "trigger_to_view (MetricThreshold m p v) = (''metric_threshold'', MetricThresholdView m (predicate_str p) v)"
| "trigger_to_view (DashboardStateTrigger d s) =
     (''dashboard_state'', DashboardStateView d (dashboard_state_str s))"

definition milestone_to_view :: "sl1_milestone \<Rightarrow> milestone_view" where
  "milestone_to_view m = (let (kind, trigger) = trigger_to_view (milestone_trigger m) in
     \<lparr>vmilestone_id = milestone_id m, vmilestone_label = milestone_label m,
      vmilestone_trigger_kind = kind, vmilestone_trigger = trigger,
      vmilestone_camera_focus = milestone_camera_focus m, vmilestone_highlight = milestone_highlight m\<rparr>)"

section \<open>The static payload\<close>

fun shape_to_wire :: "node_shape \<Rightarrow> node_shape_tag" where
  "shape_to_wire Circle = CircleTag"
| "shape_to_wire Square = SquareTag"
| "shape_to_wire Triangle = TriangleTag"
| "shape_to_wire Diamond = DiamondTag"
| "shape_to_wire Hexagon = HexagonTag"

text \<open>\<open>names.entry(id).or_insert_with(..)\<close> for every key; \<open>numeric_id_map\<close> is the identity here.\<close>

definition or_insert :: "u32 \<Rightarrow> string \<Rightarrow> id_names \<Rightarrow> id_names" where
  "or_insert k v m = (if bt_has m k then m else bt_insert k v m)"

definition node_name_map :: "'r world \<Rightarrow> id_map \<Rightarrow> id_names" where
  "node_name_map w ids =
     fold (\<lambda>i. or_insert i (''node_'' @ dec i)) (bt_keys (w_nodes w)) (im_node_names ids)"

definition path_name_map :: "'r world \<Rightarrow> id_map \<Rightarrow> id_names" where
  "path_name_map w ids =
     fold (\<lambda>i. or_insert i (''path_'' @ dec i)) (bt_keys (w_paths w)) (im_path_names ids)"

definition node_to_view :: "node \<Rightarrow> node_view" where
  "node_to_view n =
     \<lparr>vnode_id = n_id n, vnode_pos = n_pos n, vnode_shape = shape_to_wire (n_shape n), vnode_color = n_color n\<rparr>"

definition path_to_view :: "'r world \<Rightarrow> path \<Rightarrow> path_view option" where
  "path_to_view w p = (case (bt_get (w_nodes w) (pa_from p), bt_get (w_nodes w) (pa_to p)) of
     (Some from, Some to) \<Rightarrow> Some \<lparr>vpath_id = pa_id p, vpath_from_pos = n_pos from,
        vpath_to_pos = n_pos to, vpath_color = pa_color p\<rparr>
   | _ \<Rightarrow> None)"

text \<open>\<open>world.sl1.as_ref().map(f).unwrap_or_default()\<close>.\<close>

definition section_views :: "('s \<Rightarrow> 'a list) \<Rightarrow> ('a \<Rightarrow> 'b) \<Rightarrow> 's option \<Rightarrow> 'b list" where
  "section_views sel view s = (case s of None \<Rightarrow> [] | Some sc \<Rightarrow> map view (sel sc))"

definition encode_static_parts :: "string \<Rightarrow> theme \<Rightarrow> id_map \<Rightarrow> 'r world \<Rightarrow> static_payload" where
  "encode_static_parts name th ids w =
     (let sl1 = w_sl1 w; obs = Option.bind sl1 sc_observability in
      \<lparr>sp_name = name, sp_palette = th_palette th, sp_background_index = th_background_index th,
       sp_nodes = sort_key vnode_id (map node_to_view (bt_values (w_nodes w))),
       sp_paths = sort_key vpath_id (List.map_filter (path_to_view w) (bt_values (w_paths w))),
       sp_node_names = node_name_map w ids, sp_path_names = path_name_map w ids,
       sp_mover_names = im_mover_names ids,
       sp_places = section_views sc_places place_to_view sl1,
       sp_links = section_views sc_links link_to_view sl1,
       sp_things = section_views sc_things thing_to_view sl1,
       sp_transforms = section_views sc_transforms transform_to_view sl1,
       sp_demand = section_views sc_demand demand_to_view sl1,
       sp_pressure = section_views sc_pressure pressure_to_view sl1,
       sp_objectives = section_views sc_objectives objective_to_view sl1,
       sp_failure_conditions = section_views sc_failure_conditions failure_condition_to_view sl1,
       sp_victory_conditions = section_views sc_victory_conditions victory_condition_to_view sl1,
       sp_metrics = section_views obs_metrics metric_to_view obs,
       sp_dashboards = section_views obs_dashboards dashboard_to_view obs,
       sp_alerts = section_views obs_alerts alert_to_view obs,
       sp_agents = section_views sc_agents agent_to_view sl1,
       sp_milestones = section_views sc_milestones milestone_to_view sl1\<rparr>)"

definition encode_static :: "'r loaded_scene \<Rightarrow> static_payload" where
  "encode_static s = encode_static_parts (ls_name s) (ls_theme s) (ls_id_map s) (ls_world s)"

definition color_batches :: "path_view list \<Rightarrow> (u8, u32 list) btree_map" where
  "color_batches ps = fold (\<lambda>p. bt_upsert (vpath_color p) [] (\<lambda>ids. ids @ [vpath_id p])) ps []"

section \<open>The snapshot\<close>

fun freshness_to_view :: "freshness_state \<Rightarrow> freshness_view" where
  "freshness_to_view FNoData = NoDataView"
| "freshness_to_view (FOk t) = OkView t"
| "freshness_to_view (FStale t) = StaleView t"
| "freshness_to_view FDegraded = DegradedView"
| "freshness_to_view FInvalid = InvalidView"

fun transform_state_to_view :: "sl1_transform_state \<Rightarrow> transform_state_view" where
  "transform_state_to_view TIdle = IdleView"
| "transform_state_to_view (TRunning s t n) = RunningView s t n"
| "transform_state_to_view (TStarved s t n) = StarvedView s t n"
| "transform_state_to_view (TBlocked s t n) = BlockedView s t n"
| "transform_state_to_view (TLate s n t) = LateView s n t"

fun status_to_view :: "sl1_objective_status \<Rightarrow> objective_status_tag_view" where
  "status_to_view StUnknown = UnknownTag"
| "status_to_view StMet = MetTag"
| "status_to_view StBreached = BreachedTag"
| "status_to_view StUnsupported = UnsupportedTag"

definition outcome_to_view :: "game_outcome \<Rightarrow> game_outcome_view" where
  "outcome_to_view o1 = \<lparr>vgo_state = outcome_str o1,
     vgo_reason = (case o1 of Lost reason \<Rightarrow> Some reason | _ \<Rightarrow> None)\<rparr>"

text \<open>\<open>from + (to - from) * t\<close> in \<open>f32\<close>.\<close>

definition lerp :: "f32_bits \<Rightarrow> f32_bits \<Rightarrow> f32_bits \<Rightarrow> f32_bits" where
  "lerp a b t = f32_add a (f32_mul (f32_sub b a) t)"

definition mover_place :: "'r world \<Rightarrow> mover \<Rightarrow> ((f32_bits \<times> f32_bits) \<times> u32) option" where
  "mover_place w m = (case m_state m of
     MEmpty \<Rightarrow> None
   | MWaiting at \<Rightarrow> map_option (\<lambda>n. (n_pos n, 0)) (bt_get (w_nodes w) at)
   | MTraveling pid progress \<Rightarrow> Option.bind (bt_get (w_paths w) pid) (\<lambda>p.
       Option.bind (bt_get (w_nodes w) (pa_from p)) (\<lambda>from.
       Option.bind (bt_get (w_nodes w) (pa_to p)) (\<lambda>to.
         let t = f32_clamp progress f32_zero f32_one
         in Some ((lerp (fst (n_pos from)) (fst (n_pos to)) t, lerp (snd (n_pos from)) (snd (n_pos to)) t), pid)))))"

definition mover_to_wire :: "'r world \<Rightarrow> mover \<Rightarrow> wire_mover option" where
  "mover_to_wire w m = map_option (\<lambda>(pos, on_path).
     \<lparr>wm_id = m_id m, wm_pos = pos, wm_speed = m_speed m, wm_on_path = on_path\<rparr>) (mover_place w m)"

definition inventory_to_view :: "sl1_runtime \<Rightarrow> (string \<times> string) \<times> freshness_state \<Rightarrow> place_inventory_view" where
  "inventory_to_view r e = (case e of ((pl, th), s) \<Rightarrow> \<lparr>vinv_place_id = pl, vinv_thing_id = th,
     vinv_count = (case bt_get (inventories r) pl of None \<Rightarrow> 0 | Some m \<Rightarrow> bt_get_or 0 m th),
     vinv_freshness = freshness_to_view s\<rparr>)"

text \<open>\<open>u32::try_from(len).unwrap_or(u32::MAX)\<close>.\<close>

definition u32_of_len :: "nat \<Rightarrow> u32" where
  "u32_of_len n = (if n < 2 ^ 32 then of_nat n else - 1)"

definition demand_state_to_view :: "string \<times> sl1_demand_runtime \<Rightarrow> demand_runtime_view" where
  "demand_state_to_view e = (case e of (i, d) \<Rightarrow> \<lparr>vdr_demand_id = i, vdr_outstanding = u32_of_len (length (pending d)),
     vdr_fulfilled_count = fulfilled_count d, vdr_dropped_count = dropped_count d,
     vdr_next_sequence = next_sequence d\<rparr>)"

definition metric_state_to_view :: "string \<times> sl1_metric_state \<Rightarrow> metric_state_view" where
  "metric_state_to_view e = (case e of (i, s) \<Rightarrow>
     (case s of MetricOk v \<Rightarrow> \<lparr>vms_metric_id = i, vms_state = ''ok'', vms_value = Some v\<rparr>
      | MetricNoData \<Rightarrow> \<lparr>vms_metric_id = i, vms_state = ''no_data'', vms_value = None\<rparr>))"

definition ok_age :: "'r world \<Rightarrow> sl1_runtime \<Rightarrow> string \<Rightarrow> u64 option" where
  "ok_age w r i = map_option
     (\<lambda>d. case dashboard_freshness d r (pw_tick w) of None \<Rightarrow> 0 | Some age \<Rightarrow> age)
     (Option.bind (Option.bind (w_sl1 w) sc_observability)
        (\<lambda>obs. find (\<lambda>d. dashboard_id d = i) (obs_dashboards obs)))"

definition dashboard_state_to_view ::
  "'r world \<Rightarrow> sl1_runtime \<Rightarrow> string \<times> sl1_dashboard_state \<Rightarrow> dashboard_state_view" where
  "dashboard_state_to_view w r e = (case e of (i, s) \<Rightarrow>
     (case s of DashOk \<Rightarrow> \<lparr>vds_dashboard_id = i, vds_state = ''ok'', vds_freshness_ticks = ok_age w r i\<rparr>
      | DashStale n \<Rightarrow> \<lparr>vds_dashboard_id = i, vds_state = ''stale'', vds_freshness_ticks = Some n\<rparr>
      | DashNoData \<Rightarrow> \<lparr>vds_dashboard_id = i, vds_state = ''no_data'', vds_freshness_ticks = None\<rparr>))"

definition alert_state_to_view :: "string \<times> sl1_alert_state \<Rightarrow> alert_state_view" where
  "alert_state_to_view e = (case e of (i, s) \<Rightarrow>
     (case s of AlertInactive \<Rightarrow> \<lparr>vas_alert_id = i, vas_state = ''inactive'', vas_fired_at_tick = None\<rparr>
      | AlertFiring t \<Rightarrow> \<lparr>vas_alert_id = i, vas_state = ''firing'', vas_fired_at_tick = Some t\<rparr>))"

text \<open>\<open>SnapshotPayload::default()\<close>, and \<open>clear\<close>.\<close>

definition snapshot_default :: snapshot_payload where
  "snapshot_default = \<lparr>sn_tick = 0, sn_movers = [], sn_place_inventories = [], sn_transform_states = [],
     sn_demand_states = [], sn_objective_states = [], sn_failure_condition_states = [],
     sn_victory_condition_states = [], sn_game_outcome = None, sn_game_phase = None, sn_metric_states = [],
     sn_dashboard_states = [], sn_alert_states = []\<rparr>"

definition clear_snapshot :: "u64 \<Rightarrow> snapshot_payload \<Rightarrow> snapshot_payload" where
  "clear_snapshot tick out = out\<lparr>sn_tick := tick, sn_movers := [], sn_place_inventories := [],
     sn_transform_states := [], sn_demand_states := [], sn_objective_states := [],
     sn_failure_condition_states := [], sn_victory_condition_states := [], sn_game_outcome := None,
     sn_game_phase := None, sn_metric_states := [], sn_dashboard_states := [], sn_alert_states := []\<rparr>"

text \<open>Each loop pushes to the end of its field.\<close>

definition push_runtime :: "'r world \<Rightarrow> sl1_runtime \<Rightarrow> snapshot_payload \<Rightarrow> snapshot_payload" where
  "push_runtime w r out = out\<lparr>
     sn_place_inventories := sn_place_inventories out @ map (inventory_to_view r) (freshness r),
     sn_transform_states := sn_transform_states out
       @ map (\<lambda>(i, s). \<lparr>vtr_transform_id = i, vtr_state = transform_state_to_view s\<rparr>) (transforms r),
     sn_demand_states := sn_demand_states out @ map demand_state_to_view (demand r),
     sn_objective_states := sn_objective_states out
       @ map (\<lambda>(i, s). \<lparr>vor_objective_id = i, vor_status = status_to_view (ob_status s),
                vor_breach_tick_count = ob_breach_tick_count s\<rparr>) (objectives r),
     sn_failure_condition_states := sn_failure_condition_states out
       @ map (\<lambda>(i, s). \<lparr>vfr_failure_condition_id = i, vfr_breach_streak_ticks = breach_streak_ticks s,
                vfr_fired_at_tick = fc_fired_at_tick s\<rparr>) (failure_conditions r),
     sn_victory_condition_states := sn_victory_condition_states out
       @ map (\<lambda>(i, s). \<lparr>vvr_victory_condition_id = i, vvr_met_at_tick = met_at_tick s\<rparr>) (victory_conditions r),
     sn_game_outcome := Some (outcome_to_view (outcome r)),
     sn_game_phase := Some (phase_str (phase r)),
     sn_metric_states := sn_metric_states out @ map metric_state_to_view (metric_states r),
     sn_dashboard_states := sn_dashboard_states out @ map (dashboard_state_to_view w r) (dashboard_states r),
     sn_alert_states := sn_alert_states out @ map alert_state_to_view (alert_states r)\<rparr>"

definition encode_snapshot :: "'r world \<Rightarrow> snapshot_payload \<Rightarrow> nat \<times> snapshot_payload" where
  "encode_snapshot w out0 =
     (let out1 = clear_snapshot (pw_tick w) out0;
          out2 = out1\<lparr>sn_movers := sn_movers out1 @ List.map_filter (mover_to_wire w) (bt_values (w_movers w))\<rparr>;
          out3 = (case w_sl1_runtime w of None \<Rightarrow> out2 | Some r \<Rightarrow> push_runtime w r out2)
      in (length (sn_movers out3), out3))"

end
