(* ===== verification/Snapshot_Proofs.thy ===== *)
theory Snapshot_Proofs
  imports Snapshot
begin

text \<open>
  What the payloads carry: every node, path and mover of a well-formed world, and enough of a scene
  to recover it.
\<close>

section \<open>Collections\<close>

text \<open>Collecting entries that are in order already keeps them.\<close>

lemma bt_insert_last: "\<forall>k' \<in> set (bt_keys m). k' < k \<Longrightarrow> bt_insert k v m = m @ [(k, v)]"
  by (induction m) auto

lemma bt_collect_sorted: "sorted_wrt (<) (map fst es) \<Longrightarrow> bt_collect es = es"
proof (induction es rule: rev_induct)
  case (snoc e es)
  then have "\<forall>k' \<in> set (bt_keys es). k' < fst e" "bt_collect es = es"
    by (auto simp: sorted_wrt_append)
  then show ?case by (simp add: bt_collect_def case_prod_beta bt_insert_last)
qed (simp add: bt_collect_def)

lemma bt_collect_views:
  assumes "bt_wf m"
  shows "bt_collect (map (\<lambda>(k, v). (k, f v)) m) = map (\<lambda>(k, v). (k, f v)) m"
proof (rule bt_collect_sorted)
  have keys: "map fst (map (\<lambda>(k, v). (k, f v)) m) = map fst m" by (induction m) auto
  show "sorted_wrt (<) (map fst (map (\<lambda>(k, v). (k, f v)) m))" using assms by (simp only: keys bt_wf_def)
qed

lemma bt_values_keys:
  assumes "table_ok key P m"
  shows "map key (bt_values m) = bt_keys m" and "v \<in> set (bt_values m) \<Longrightarrow> P v"
proof -
  have "key v = k \<and> P v" if "(k, v) \<in> set m" for k v
    using table_okD(2,3,4) [OF assms] that by metis
  then show "map key (bt_values m) = bt_keys m" "v \<in> set (bt_values m) \<Longrightarrow> P v" by auto
qed

lemma map_filter_total:
  assumes "\<And>x. x \<in> set xs \<Longrightarrow> \<exists>y. f x = Some y \<and> g y = h x"
  shows "map g (List.map_filter f xs) = map h xs"
  using assms by (induction xs) (fastforce simp: List.map_filter_def)+

section \<open>Topology\<close>

lemma encode_static_nodes:
  assumes "world_wf w"
  shows "sp_nodes (encode_static_parts name th ids w) = map node_to_view (bt_values (w_nodes w))"
    and "map vnode_id (sp_nodes (encode_static_parts name th ids w)) = bt_keys (w_nodes w)"
proof -
  note t = world_wfD(2) [OF assms]
  have keys: "map vnode_id (map node_to_view (bt_values (w_nodes w))) = bt_keys (w_nodes w)"
    using bt_values_keys(1) [OF t] by (simp add: node_to_view_def comp_def)
  then have "sorted (map vnode_id (map node_to_view (bt_values (w_nodes w))))"
    using table_okD(1) [OF t] by (simp only: bt_wf_def strict_sorted_imp_sorted)
  then show "sp_nodes (encode_static_parts name th ids w) = map node_to_view (bt_values (w_nodes w))"
    by (simp add: encode_static_parts_def Let_def sorted_sort_id sort_key_id_if_sorted)
  with keys show "map vnode_id (sp_nodes (encode_static_parts name th ids w)) = bt_keys (w_nodes w)" by simp
qed

lemma encode_static_paths:
  assumes "world_wf w"
  shows "map vpath_id (sp_paths (encode_static_parts name th ids w)) = bt_keys (w_paths w)"
proof -
  note t = world_wfD(3) [OF assms]
  have "\<exists>y. path_to_view w p = Some y \<and> vpath_id y = pa_id p" if "p \<in> set (bt_values (w_paths w))" for p
    using bt_values_keys(2) [OF t that] by (auto simp: path_ok_def bt_has_Some path_to_view_def)
  then have "map vpath_id (List.map_filter (path_to_view w) (bt_values (w_paths w))) = map pa_id (bt_values (w_paths w))"
    by (rule map_filter_total)
  then have keys: "map vpath_id (List.map_filter (path_to_view w) (bt_values (w_paths w))) = bt_keys (w_paths w)"
    by (simp only: bt_values_keys(1) [OF t])
  then have "sorted (map vpath_id (List.map_filter (path_to_view w) (bt_values (w_paths w))))"
    using table_okD(1) [OF t] by (simp only: bt_wf_def strict_sorted_imp_sorted)
  then show ?thesis using keys by (simp add: encode_static_parts_def Let_def sort_key_id_if_sorted)
qed

lemma fold_or_insert_has:
  "bt_has (fold (\<lambda>i. or_insert i (f i)) is1 m) k \<longleftrightarrow> bt_has m k \<or> k \<in> set is1"
  by (induction is1 arbitrary: m) (auto simp: or_insert_def)

lemma fold_or_insert_get:
  "bt_get m k = Some v \<Longrightarrow> bt_get (fold (\<lambda>i. or_insert i (f i)) is1 m) k = Some v"
proof (induction is1 arbitrary: m)
  case (Cons i is1)
  have "bt_get (or_insert i (f i) m) k = Some v" using Cons.prems by (cases "k = i") (auto simp: or_insert_def bt_has_def)
  with Cons.IH show ?case by simp
qed simp

section \<open>Movers\<close>

text \<open>A reference of a mover resolves, so only an empty mover is left out.\<close>

lemma mover_place_known:
  assumes "world_wf w" and "mover_state_ok w (m_state m)"
  shows "mover_place w m = None \<longleftrightarrow> m_state m = MEmpty"
proof (cases "m_state m")
  case (MTraveling p pr)
  with assms(2) obtain pa where "bt_get (w_paths w) p = Some pa" by (auto simp: bt_has_Some)
  with wf_path [OF assms(1) this] MTraveling show ?thesis by (auto simp: mover_place_def bt_has_Some Let_def)
qed (use assms(2) in \<open>auto simp: mover_place_def bt_has_Some\<close>)

lemma map_filter_append: "List.map_filter f (xs @ ys) = List.map_filter f xs @ List.map_filter f ys"
  by (simp add: List.map_filter_def)

lemma map_filter_ids:
  assumes "\<And>x. x \<in> set xs \<Longrightarrow> (f x = None \<longleftrightarrow> \<not> P x) \<and> (\<forall>y. f x = Some y \<longrightarrow> g y = h x)"
  shows "map g (List.map_filter f xs) = map h (filter P xs)"
  using assms
proof (induction xs)
  case (Cons x xs)
  have "\<And>z. z \<in> set xs \<Longrightarrow> (f z = None \<longleftrightarrow> \<not> P z) \<and> (\<forall>y. f z = Some y \<longrightarrow> g y = h z)" using Cons.prems by simp
  from Cons.IH [OF this] Cons.prems [of x] show ?case by (cases "f x") (auto simp: List.map_filter_def)
qed (simp add: List.map_filter_def)

lemma wire_movers:
  assumes "world_wf w"
  shows "map wm_id (List.map_filter (mover_to_wire w) (bt_values (w_movers w)))
    = map m_id (filter (\<lambda>m. m_state m \<noteq> MEmpty) (bt_values (w_movers w)))"
proof (rule map_filter_ids)
  fix m assume "m \<in> set (bt_values (w_movers w))"
  then have "mover_state_ok w (m_state m)" using bt_values_keys(2) [OF world_wfD(4) [OF assms]] by (simp add: mover_ok_def)
  from mover_place_known [OF assms this]
  show "(mover_to_wire w m = None \<longleftrightarrow> \<not> m_state m \<noteq> MEmpty) \<and> (\<forall>y. mover_to_wire w m = Some y \<longrightarrow> wm_id y = m_id m)"
    by (auto simp: mover_to_wire_def)
qed

section \<open>Batches\<close>

lemma batches_fold:
  fixes ps :: "path_view list"
  assumes "bt_wf m" and "\<And>c. bt_get m c \<noteq> Some []"
  defines "b \<equiv> fold (\<lambda>p. bt_upsert (vpath_color p) [] (\<lambda>ids. ids @ [vpath_id p])) ps m"
  shows "bt_wf b \<and> (\<forall>c. bt_get b c \<noteq> Some [])
    \<and> (\<forall>c. bt_get_or [] b c = bt_get_or [] m c @ map vpath_id (filter (\<lambda>p. vpath_color p = c) ps))"
  using assms(1,2) unfolding b_def
proof (induction ps arbitrary: m)
  case (Cons p ps)
  let ?m = "bt_upsert (vpath_color p) [] (\<lambda>ids. ids @ [vpath_id p]) m"
  have "bt_wf ?m" "\<And>c. bt_get ?m c \<noteq> Some []"
    "\<And>c. bt_get_or [] ?m c = bt_get_or [] m c @ (if vpath_color p = c then [vpath_id p] else [])"
    using Cons.prems by (auto simp: bt_upsert_def bt_get_or_def)
  with Cons.IH [of ?m] show ?case by auto
qed simp

lemma color_batches_exact:
  "bt_get (color_batches ps) c = (let ids = map vpath_id (filter (\<lambda>p. vpath_color p = c) ps)
     in if ids = [] then None else Some ids)"
  "bt_wf (color_batches ps)"
proof -
  note b = batches_fold [of "[]" ps, folded color_batches_def]
  then show "bt_wf (color_batches ps)" by simp
  have "bt_get (color_batches ps) c \<noteq> Some []"
    "bt_get_or [] (color_batches ps) c = map vpath_id (filter (\<lambda>p. vpath_color p = c) ps)"
    using b by (auto simp: bt_get_or_def)
  then show "bt_get (color_batches ps) c = (let ids = map vpath_id (filter (\<lambda>p. vpath_color p = c) ps)
     in if ids = [] then None else Some ids)"
    by (auto simp: bt_get_or_def Let_def split: option.splits)
qed

section \<open>Recovering the scene\<close>

text \<open>Each view determines what it shows.\<close>

named_theorems view_eq

lemma enum_views [view_eq]:
  "predicate_to_view a1 = predicate_to_view b1 \<longleftrightarrow> a1 = b1"
  "direction_to_view a2 = direction_to_view b2 \<longleftrightarrow> a2 = b2"
  "backpressure_to_view a3 = backpressure_to_view b3 \<longleftrightarrow> a3 = b3"
  "policy_to_view a4 = policy_to_view b4 \<longleftrightarrow> a4 = b4"
  "target_to_view a5 = target_to_view b5 \<longleftrightarrow> a5 = b5"
  "schedule_to_view a6 = schedule_to_view b6 \<longleftrightarrow> a6 = b6"
  "priority_to_view a7 = priority_to_view b7 \<longleftrightarrow> a7 = b7"
  "pressure_params_to_view a8 = pressure_params_to_view b8 \<longleftrightarrow> a8 = b8"
  "objective_params_to_view a9 = objective_params_to_view b9 \<longleftrightarrow> a9 = b9"
  "fc_params_to_view c1 = fc_params_to_view d1 \<longleftrightarrow> c1 = d1"
  "vc_params_to_view c2 = vc_params_to_view d2 \<longleftrightarrow> c2 = d2"
  "source_to_view c3 = source_to_view d3 \<longleftrightarrow> c3 = d3"
  "alert_predicate_to_view c4 = alert_predicate_to_view d4 \<longleftrightarrow> c4 = d4"
proof -
  show "predicate_to_view a1 = predicate_to_view b1 \<longleftrightarrow> a1 = b1" by (cases a1; cases b1) simp_all
  show "direction_to_view a2 = direction_to_view b2 \<longleftrightarrow> a2 = b2" by (cases a2; cases b2) simp_all
  show "backpressure_to_view a3 = backpressure_to_view b3 \<longleftrightarrow> a3 = b3" by (cases a3; cases b3) simp_all
  show "policy_to_view a4 = policy_to_view b4 \<longleftrightarrow> a4 = b4" by (cases a4; cases b4) simp_all
  show "target_to_view a5 = target_to_view b5 \<longleftrightarrow> a5 = b5" by (cases a5; cases b5) simp_all
  show "schedule_to_view a6 = schedule_to_view b6 \<longleftrightarrow> a6 = b6" by (cases a6; cases b6) simp_all
  show "priority_to_view a7 = priority_to_view b7 \<longleftrightarrow> a7 = b7" by (cases a7; cases b7) simp_all
  show "pressure_params_to_view a8 = pressure_params_to_view b8 \<longleftrightarrow> a8 = b8" by (cases a8; cases b8) simp_all
  show "objective_params_to_view a9 = objective_params_to_view b9 \<longleftrightarrow> a9 = b9" by (cases a9; cases b9) simp_all
  show "fc_params_to_view c1 = fc_params_to_view d1 \<longleftrightarrow> c1 = d1" by (cases c1; cases d1) simp_all
  show "vc_params_to_view c2 = vc_params_to_view d2 \<longleftrightarrow> c2 = d2" by (cases c2; cases d2) simp_all
  show "source_to_view c3 = source_to_view d3 \<longleftrightarrow> c3 = d3" by (cases c3; cases d3) simp_all
  show "alert_predicate_to_view c4 = alert_predicate_to_view d4 \<longleftrightarrow> c4 = d4" by (cases c4; cases d4) simp_all
qed

lemma kind_texts [view_eq]:
  "pressure_kind_str a1 = pressure_kind_str b1 \<longleftrightarrow> a1 = b1"
  "objective_kind_str a2 = objective_kind_str b2 \<longleftrightarrow> a2 = b2"
  "fc_kind_str a3 = fc_kind_str b3 \<longleftrightarrow> a3 = b3"
  "vc_kind_str a4 = vc_kind_str b4 \<longleftrightarrow> a4 = b4"
  "dashboard_kind_str a5 = dashboard_kind_str b5 \<longleftrightarrow> a5 = b5"
  "severity_str a6 = severity_str b6 \<longleftrightarrow> a6 = b6"
  "agent_kind_str a7 = agent_kind_str b7 \<longleftrightarrow> a7 = b7"
  "action_kind_str a8 = action_kind_str b8 \<longleftrightarrow> a8 = b8"
  "predicate_str a9 = predicate_str b9 \<longleftrightarrow> a9 = b9"
  "dashboard_state_str c1 = dashboard_state_str d1 \<longleftrightarrow> c1 = d1"
proof -
  show "pressure_kind_str a1 = pressure_kind_str b1 \<longleftrightarrow> a1 = b1" by (cases a1; cases b1) simp_all
  show "objective_kind_str a2 = objective_kind_str b2 \<longleftrightarrow> a2 = b2" by (cases a2; cases b2) simp_all
  show "fc_kind_str a3 = fc_kind_str b3 \<longleftrightarrow> a3 = b3" by (cases a3; cases b3) simp_all
  show "vc_kind_str a4 = vc_kind_str b4 \<longleftrightarrow> a4 = b4" by (cases a4; cases b4) simp_all
  show "dashboard_kind_str a5 = dashboard_kind_str b5 \<longleftrightarrow> a5 = b5" by (cases a5; cases b5) simp_all
  show "severity_str a6 = severity_str b6 \<longleftrightarrow> a6 = b6" by (cases a6; cases b6) simp_all
  show "agent_kind_str a7 = agent_kind_str b7 \<longleftrightarrow> a7 = b7" by (cases a7; cases b7) simp_all
  show "action_kind_str a8 = action_kind_str b8 \<longleftrightarrow> a8 = b8" by (cases a8; cases b8) simp_all
  show "predicate_str a9 = predicate_str b9 \<longleftrightarrow> a9 = b9" by (cases a9; cases b9) simp_all
  show "dashboard_state_str c1 = dashboard_state_str d1 \<longleftrightarrow> c1 = d1" by (cases c1; cases d1) simp_all
qed

lemma scope_texts [view_eq]: "scope_to_view a = scope_to_view b \<longleftrightarrow> a = b"
  by (cases a; cases b) (simp_all add: scope_to_view_def)

lemma trigger_views [view_eq]: "trigger_to_view a = trigger_to_view b \<longleftrightarrow> a = b"
  by (cases a; cases b) (simp_all add: view_eq)

lemma map_view_eq: "(\<And>x y. f x = f y \<longleftrightarrow> x = y) \<Longrightarrow> map f xs = map f ys \<longleftrightarrow> xs = ys"
  by (simp add: inj_def inj_map_eq_map)

lemma option_view_eq: "(\<And>x y. f x = f y \<longleftrightarrow> x = y) \<Longrightarrow> map_option f a = map_option f b \<longleftrightarrow> a = b"
  by (cases a; cases b) simp_all

lemma entries_view_eq:
  assumes "\<And>x y. f x = f y \<longleftrightarrow> x = y" and "bt_wf m" and "bt_wf n"
  shows "bt_collect (map (\<lambda>(k, v). (k, f v)) m) = bt_collect (map (\<lambda>(k, v). (k, f v)) n) \<longleftrightarrow> m = n"
  unfolding bt_collect_views [OF assms(2)] bt_collect_views [OF assms(3)]
  by (rule map_view_eq) (auto simp: assms(1))

lemma small_views [view_eq]:
  "slot_to_view a1 = slot_to_view b1 \<longleftrightarrow> a1 = b1"
  "operating_state_to_view a2 = operating_state_to_view b2 \<longleftrightarrow> a2 = b2"
  "contract_to_view a3 = contract_to_view b3 \<longleftrightarrow> a3 = b3"
  "io_to_view a4 = io_to_view b4 \<longleftrightarrow> a4 = b4"
proof -
  show "slot_to_view a1 = slot_to_view b1 \<longleftrightarrow> a1 = b1" by (cases a1; cases b1) (simp_all add: slot_to_view_def)
  show "operating_state_to_view a2 = operating_state_to_view b2 \<longleftrightarrow> a2 = b2" by (cases a2; cases b2) (simp_all add: operating_state_to_view_def view_eq)
  show "contract_to_view a3 = contract_to_view b3 \<longleftrightarrow> a3 = b3" by (cases a3; cases b3) (simp_all add: contract_to_view_def)
  show "io_to_view a4 = io_to_view b4 \<longleftrightarrow> a4 = b4" by (cases a4; cases b4) (simp_all add: io_to_view_def)
qed

lemma hint_eq:
  fixes x y :: sl1_link_render_hint and u v :: sl1_thing_render_hint
  shows "lrh_style x = lrh_style y \<and> lrh_color x = lrh_color y \<longleftrightarrow> x = y"
    and "trh_glyph u = trh_glyph v \<and> trh_color u = trh_color v \<longleftrightarrow> u = v"
proof -
  show "lrh_style x = lrh_style y \<and> lrh_color x = lrh_color y \<longleftrightarrow> x = y" by (cases x; cases y) simp
  show "trh_glyph u = trh_glyph v \<and> trh_color u = trh_color v \<longleftrightarrow> u = v" by (cases u; cases v) simp
qed

lemma hint_views:
  fixes a b :: "sl1_link_render_hint option" and c d :: "sl1_thing_render_hint option"
  shows "map_option (\<lambda>r. \<lparr>vlrh_style = lrh_style r, vlrh_color = lrh_color r\<rparr>) a = map_option (\<lambda>r. \<lparr>vlrh_style = lrh_style r, vlrh_color = lrh_color r\<rparr>) b \<longleftrightarrow> a = b"
    and "map_option (\<lambda>r. \<lparr>vtrh_glyph = trh_glyph r, vtrh_color = trh_color r\<rparr>) c = map_option (\<lambda>r. \<lparr>vtrh_glyph = trh_glyph r, vtrh_color = trh_color r\<rparr>) d \<longleftrightarrow> c = d"
  by (rule option_view_eq, simp add: hint_eq)+

definition place_maps_ok :: "sl1_place \<Rightarrow> bool" where
  "place_maps_ok p \<longleftrightarrow> bt_wf (place_storage p) \<and> bt_wf (place_operating_states p)"

lemma place_view_eq:
  assumes "place_maps_ok a" and "place_maps_ok b"
  shows "place_to_view a = place_to_view b \<longleftrightarrow> a = b"
proof -
  note s = entries_view_eq [OF small_views(1), of "place_storage a" "place_storage b"]
  note t = entries_view_eq [OF small_views(2), of "place_operating_states a" "place_operating_states b"]
  show ?thesis
    using assms s t by (auto simp: place_to_view_def place_maps_ok_def intro: sl1_place.equality)
qed

lemma link_view_eq [view_eq]: "link_to_view a = link_to_view b \<longleftrightarrow> a = b"
  by (cases a; cases b) (simp add: link_to_view_def view_eq hint_views)

lemma thing_view_eq [view_eq]: "thing_to_view a = thing_to_view b \<longleftrightarrow> a = b"
  by (cases a; cases b) (simp add: thing_to_view_def option_view_eq [OF small_views(3)] hint_views)

lemma transform_view_eq [view_eq]: "transform_to_view a = transform_to_view b \<longleftrightarrow> a = b"
  by (cases a; cases b) (simp add: transform_to_view_def view_eq map_view_eq [OF small_views(4)])

lemma demand_view_eq [view_eq]: "demand_to_view a = demand_to_view b \<longleftrightarrow> a = b"
proof -
  have "\<lparr>vpenalty_score = penalty_score p, vpenalty_warning = penalty_warning p\<rparr>
      = \<lparr>vpenalty_score = penalty_score q, vpenalty_warning = penalty_warning q\<rparr> \<longleftrightarrow> p = q" for p q :: sl1_demand_penalty
    by (cases p; cases q) simp
  then show ?thesis by (cases a; cases b) (simp add: demand_to_view_def view_eq)
qed

lemma other_views [view_eq]:
  "pressure_to_view a1 = pressure_to_view b1 \<longleftrightarrow> a1 = b1"
  "objective_to_view a2 = objective_to_view b2 \<longleftrightarrow> a2 = b2"
  "failure_condition_to_view a3 = failure_condition_to_view b3 \<longleftrightarrow> a3 = b3"
  "victory_condition_to_view a4 = victory_condition_to_view b4 \<longleftrightarrow> a4 = b4"
  "metric_to_view a5 = metric_to_view b5 \<longleftrightarrow> a5 = b5"
  "dashboard_to_view a6 = dashboard_to_view b6 \<longleftrightarrow> a6 = b6"
  "alert_to_view a7 = alert_to_view b7 \<longleftrightarrow> a7 = b7"
proof -
  show "pressure_to_view a1 = pressure_to_view b1 \<longleftrightarrow> a1 = b1" by (cases a1; cases b1) (simp_all add: pressure_to_view_def view_eq)
  show "objective_to_view a2 = objective_to_view b2 \<longleftrightarrow> a2 = b2" by (cases a2; cases b2) (simp_all add: objective_to_view_def view_eq)
  show "failure_condition_to_view a3 = failure_condition_to_view b3 \<longleftrightarrow> a3 = b3" by (cases a3; cases b3) (simp_all add: failure_condition_to_view_def view_eq)
  show "victory_condition_to_view a4 = victory_condition_to_view b4 \<longleftrightarrow> a4 = b4" by (cases a4; cases b4) (simp_all add: victory_condition_to_view_def view_eq)
  show "metric_to_view a5 = metric_to_view b5 \<longleftrightarrow> a5 = b5" by (cases a5; cases b5) (simp_all add: metric_to_view_def view_eq)
  show "dashboard_to_view a6 = dashboard_to_view b6 \<longleftrightarrow> a6 = b6" by (cases a6; cases b6) (simp_all add: dashboard_to_view_def view_eq)
  show "alert_to_view a7 = alert_to_view b7 \<longleftrightarrow> a7 = b7" by (cases a7; cases b7) (simp_all add: alert_to_view_def view_eq)
qed

lemma agent_view_eq [view_eq]: "agent_to_view a = agent_to_view b \<longleftrightarrow> a = b"
  by (cases a; cases b) (simp add: agent_to_view_def view_eq map_view_eq [OF scope_texts] map_view_eq [OF kind_texts(8)])

lemma milestone_view_eq [view_eq]: "milestone_to_view a = milestone_to_view b \<longleftrightarrow> a = b"
proof -
  have "milestone_to_view m = \<lparr>vmilestone_id = milestone_id m, vmilestone_label = milestone_label m,
      vmilestone_trigger_kind = fst (trigger_to_view (milestone_trigger m)),
      vmilestone_trigger = snd (trigger_to_view (milestone_trigger m)),
      vmilestone_camera_focus = milestone_camera_focus m, vmilestone_highlight = milestone_highlight m\<rparr>" for m
    by (simp add: milestone_to_view_def case_prod_beta Let_def)
  moreover have "fst (trigger_to_view x) = fst (trigger_to_view y) \<and> snd (trigger_to_view x) = snd (trigger_to_view y) \<longleftrightarrow> x = y" for x y
    using trigger_views by (metis prod_eq_iff)
  ultimately show ?thesis by (cases a; cases b) auto
qed

lemma place_list_eq:
  assumes "list_all place_maps_ok ps" and "list_all place_maps_ok qs"
  shows "map place_to_view ps = map place_to_view qs \<longleftrightarrow> ps = qs"
proof
  assume e: "map place_to_view ps = map place_to_view qs"
  have "length ps = length qs" using e by (rule map_eq_imp_length_eq)
  then show "ps = qs" using e assms by (induction ps qs rule: list_induct2) (auto simp: place_view_eq)
qed simp

end
