(* ===== verification/Snapshot_Properties.thy ===== *)
theory Snapshot_Properties
  imports Snapshot_Proofs Load_Demo Engine_Properties
begin

text \<open>
  Properties of the payloads: complete, independent of the reused buffer, and faithful to the scene;
  and the one place where two states look alike.
\<close>

section \<open>Topology\<close>

text \<open>
  C32. The static payload leaves nothing out. In a well-formed world it lists every node and every
  path once, in the order of their ids, each under a name, the declared one where there is one;
  and the colour batches of its paths hold, for every colour in use and no other, exactly the ids
  of that colour, in order.
\<close>

theorem static_payload_complete:
  assumes "world_wf w"
  shows "let p = encode_static_parts name th ids w in
      map vnode_id (sp_nodes p) = bt_keys (w_nodes w) \<and> map vpath_id (sp_paths p) = bt_keys (w_paths w)
    \<and> (bt_has (sp_node_names p) k \<longleftrightarrow> bt_has (im_node_names ids) k \<or> bt_has (w_nodes w) k)
    \<and> (bt_has (sp_path_names p) k \<longleftrightarrow> bt_has (im_path_names ids) k \<or> bt_has (w_paths w) k)
    \<and> (bt_get (im_node_names ids) k = Some s \<longrightarrow> bt_get (sp_node_names p) k = Some s)
    \<and> bt_get (color_batches (sp_paths p)) c
        = (let b = map vpath_id (filter (\<lambda>q. vpath_color q = c) (sp_paths p)) in if b = [] then None else Some b)
    \<and> bt_wf (color_batches (sp_paths p))"
proof -
  let ?p = "encode_static_parts name th ids w"
  have names: "sp_node_names ?p = node_name_map w ids" "sp_path_names ?p = path_name_map w ids"
    by (simp_all add: encode_static_parts_def Let_def)
  have has: "bt_has (sp_node_names ?p) k \<longleftrightarrow> bt_has (im_node_names ids) k \<or> bt_has (w_nodes w) k"
    "bt_has (sp_path_names ?p) k \<longleftrightarrow> bt_has (im_path_names ids) k \<or> bt_has (w_paths w) k"
    by (simp_all only: names node_name_map_def path_name_map_def fold_or_insert_has) (simp_all only: bt_has_keys)
  have kept: "bt_get (im_node_names ids) k = Some s \<longrightarrow> bt_get (sp_node_names ?p) k = Some s"
    using fold_or_insert_get by (auto simp only: names node_name_map_def)
  show ?thesis
    unfolding Let_def
    by (intro conjI) (rule encode_static_nodes(2) [OF assms] encode_static_paths [OF assms] has kept
        color_batches_exact [unfolded Let_def])+
qed

definition demo_theme :: theme where
  "demo_theme = \<lparr>th_palette = [''#fff''], th_background_index = 0, th_font = default_font\<rparr>"

theorem static_payload_complete_witness:
  "map vpath_id (sp_paths (encode_static_parts ''demo'' demo_theme id_map_default demo_world)) = [7]"
  using static_payload_complete [OF demo_world_wf] by (simp add: Let_def demo_world_def)

section \<open>The scene\<close>

lemma accepted_place_maps:
  assumes "validate raw = Inr sc"
  shows "list_all place_maps_ok (sc_places sc)"
proof -
  have "place_maps_ok p" if v: "validate_place r = Inr p" for r p
    using v by (auto simp: validate_place_def Let_def place_maps_ok_def load_simps split: if_splits)
  with load_section_item [OF accepted_sections(2) [OF assms]] show ?thesis by (metis list_all_iff)
qed

lemma accepted_version:
  assumes "validate raw = Inr sc"
  shows "sc_schema_version sc = SL1_SCHEMA_VERSION"
  using assms by (auto simp: validate_Inr check_schema_Inr)

lemma sections_recovered:
  assumes "encode_static_parts name th ids w = encode_static_parts name' th' ids' w'"
    and "w_sl1 w = Some sc" and "w_sl1 w' = Some sc'"
    and "list_all place_maps_ok (sc_places sc)" and "list_all place_maps_ok (sc_places sc')"
  shows "sc_places sc = sc_places sc'" "sc_links sc = sc_links sc'" "sc_things sc = sc_things sc'"
    "sc_transforms sc = sc_transforms sc'" "sc_demand sc = sc_demand sc'" "sc_pressure sc = sc_pressure sc'"
    "sc_objectives sc = sc_objectives sc'" "sc_failure_conditions sc = sc_failure_conditions sc'"
    "sc_victory_conditions sc = sc_victory_conditions sc'" "sc_agents sc = sc_agents sc'"
    "sc_milestones sc = sc_milestones sc'"
  using assms
  by (simp_all add: encode_static_parts_def Let_def section_views_def place_list_eq  map_view_eq [OF link_view_eq] map_view_eq [OF thing_view_eq] map_view_eq [OF transform_view_eq]
      map_view_eq [OF demand_view_eq] map_view_eq [OF other_views(1)] map_view_eq [OF other_views(2)]
      map_view_eq [OF other_views(3)] map_view_eq [OF other_views(4)] map_view_eq [OF agent_view_eq]
      map_view_eq [OF milestone_view_eq])

definition observability_of :: "sl1_scene \<Rightarrow> sl1_observability" where
  "observability_of sc = (case sc_observability sc of
     None \<Rightarrow> \<lparr>obs_metrics = [], obs_dashboards = [], obs_alerts = []\<rparr> | Some obs \<Rightarrow> obs)"

lemma observability_recovered:
  assumes "encode_static_parts name th ids w = encode_static_parts name' th' ids' w'"
    and "w_sl1 w = Some sc" and "w_sl1 w' = Some sc'"
  shows "observability_of sc = observability_of sc'"
proof -
  have views: "section_views sel f (Option.bind (Some s) sc_observability) = map f (sel (observability_of s))"
    if "sel \<lparr>obs_metrics = [], obs_dashboards = [], obs_alerts = []\<rparr> = []" for s and sel :: "sl1_observability \<Rightarrow> 'x list" and f :: "'x \<Rightarrow> 'y"
    using that by (cases "sc_observability s") (simp_all add: section_views_def observability_of_def)
  have "sp_metrics (encode_static_parts n t i v) = map metric_to_view (obs_metrics (observability_of s))"
    "sp_dashboards (encode_static_parts n t i v) = map dashboard_to_view (obs_dashboards (observability_of s))"
    "sp_alerts (encode_static_parts n t i v) = map alert_to_view (obs_alerts (observability_of s))"
    if "w_sl1 v = Some s" for n t i s and v :: "'z world"
    using that views [of obs_metrics metric_to_view s] views [of obs_dashboards dashboard_to_view s]
      views [of obs_alerts alert_to_view s]
    by (simp_all add: encode_static_parts_def Let_def)
  from this [OF assms(2), of name th ids] this [OF assms(3), of name' th' ids'] assms(1)
  have "obs_metrics (observability_of sc) = obs_metrics (observability_of sc')"
    "obs_dashboards (observability_of sc) = obs_dashboards (observability_of sc')"
    "obs_alerts (observability_of sc) = obs_alerts (observability_of sc')"
    by (simp_all add: map_view_eq [OF other_views(5)] map_view_eq [OF other_views(6)] map_view_eq [OF other_views(7)])
  then show ?thesis by (intro sl1_observability.equality) simp_all
qed

text \<open>
  C33. A renderer can rebuild the scene from what it is told on connect. Two accepted scenes with the
  same static payload are the same scene, section by section and field by field, but for one thing
  the payload cannot tell: no observability block and an empty one.
\<close>

theorem static_payload_determines_scene:
  assumes "validate raw = Inr sc" and "validate raw' = Inr sc'"
    and "w_sl1 w = Some sc" and "w_sl1 w' = Some sc'"
    and "encode_static_parts name th ids w = encode_static_parts name' th' ids' w'"
  shows "sc' = sc\<lparr>sc_observability := sc_observability sc'\<rparr> \<and> observability_of sc = observability_of sc'"
proof
  note s = sections_recovered [OF assms(5,3,4) accepted_place_maps [OF assms(1)] accepted_place_maps [OF assms(2)]]
  show "sc' = sc\<lparr>sc_observability := sc_observability sc'\<rparr>"
    by (rule sl1_scene.equality)
      (simp_all add: s accepted_version [OF assms(1)] accepted_version [OF assms(2)])
  show "observability_of sc = observability_of sc'" by (rule observability_recovered [OF assms(5,3,4)])
qed

theorem static_payload_determines_scene_witness:
  "demo = demo\<lparr>sc_observability := sc_observability demo\<rparr> \<and> observability_of demo = observability_of demo"
  by (rule static_payload_determines_scene [where w = demo_world and w' = demo_world and name = "''demo''"
        and th = demo_theme and ids = id_map_default, OF raw_demo_accepted raw_demo_accepted])
    (simp_all add: demo_world_def)

section \<open>Snapshots\<close>

lemma push_runtime_fields:
  "sn_movers (push_runtime w r out) = sn_movers out" "sn_tick (push_runtime w r out) = sn_tick out"
  by (simp_all add: push_runtime_def)

lemma encode_snapshot_movers:
  "sn_movers (snd (encode_snapshot w out)) = List.map_filter (mover_to_wire w) (bt_values (w_movers w))"
  "fst (encode_snapshot w out) = length (sn_movers (snd (encode_snapshot w out)))"
  by (simp_all add: encode_snapshot_def Let_def clear_snapshot_def push_runtime_fields split: option.split)

lemma encode_snapshot_buffer: "encode_snapshot w out = encode_snapshot w out'"
proof -
  have "clear_snapshot t out = clear_snapshot t out'" for t
    by (rule snapshot_payload.equality) (simp_all add: clear_snapshot_def)
  then show ?thesis by (simp add: encode_snapshot_def)
qed

text \<open>
  C34. A snapshot is complete and holds nothing stale. Whatever the reused buffer held before, the
  result is the same; in a well-formed world it lists every mover that has spawned, in the order
  of ids, returns their number, lists every keyed state of the runtime exactly once, in the order
  of the keys (inventories, transforms, demands, objectives, failure and victory conditions,
  metrics, dashboards, alerts), and carries the outcome and the phase of the game.
\<close>

theorem snapshot_complete:
  fixes buffer buffer' :: snapshot_payload
  assumes "world_wf w" and "w_sl1_runtime w = Some r"
  defines "out \<equiv> snd (encode_snapshot w buffer)"
  shows "encode_snapshot w buffer = encode_snapshot w buffer' \<and> sn_tick out = pw_tick w
    \<and> map wm_id (sn_movers out) = map m_id (filter (\<lambda>m. m_state m \<noteq> MEmpty) (bt_values (w_movers w)))
    \<and> fst (encode_snapshot w buffer) = length (sn_movers out)
    \<and> map vtr_transform_id (sn_transform_states out) = bt_keys (transforms r)
    \<and> map vdr_demand_id (sn_demand_states out) = bt_keys (demand r)
    \<and> map vor_objective_id (sn_objective_states out) = bt_keys (objectives r)
    \<and> map (\<lambda>v. (vinv_place_id v, vinv_thing_id v)) (sn_place_inventories out) = bt_keys (freshness r)
    \<and> map vds_dashboard_id (sn_dashboard_states out) = bt_keys (dashboard_states r)
    \<and> map vfr_failure_condition_id (sn_failure_condition_states out) = bt_keys (failure_conditions r)
    \<and> map vvr_victory_condition_id (sn_victory_condition_states out) = bt_keys (victory_conditions r)
    \<and> map vms_metric_id (sn_metric_states out) = bt_keys (metric_states r)
    \<and> map vas_alert_id (sn_alert_states out) = bt_keys (alert_states r)
    \<and> sn_game_outcome out = Some (outcome_to_view (outcome r))
    \<and> sn_game_phase out = Some (phase_str (phase r))"
proof -
  have out: "out = push_runtime w r ((clear_snapshot (pw_tick w) buffer)\<lparr>sn_movers := sn_movers out\<rparr>)"
    using encode_snapshot_movers(1) [of w buffer]
    by (simp add: out_def encode_snapshot_def assms(2) Let_def clear_snapshot_def push_runtime_def)
  have ids: "vds_dashboard_id (dashboard_state_to_view w r e) = fst e" for e
    by (cases e; cases "snd e") (simp_all add: dashboard_state_to_view_def)
  have mids: "vms_metric_id (metric_state_to_view e) = fst e" for e
    by (cases e; cases "snd e") (simp_all add: metric_state_to_view_def)
  have aids: "vas_alert_id (alert_state_to_view e) = fst e" for e
    by (cases e; cases "snd e") (simp_all add: alert_state_to_view_def)
  have "sn_tick out = pw_tick w" "map vtr_transform_id (sn_transform_states out) = bt_keys (transforms r)"
    "map vdr_demand_id (sn_demand_states out) = bt_keys (demand r)"
    "map vor_objective_id (sn_objective_states out) = bt_keys (objectives r)"
    "map (\<lambda>v. (vinv_place_id v, vinv_thing_id v)) (sn_place_inventories out) = bt_keys (freshness r)"
    "map vds_dashboard_id (sn_dashboard_states out) = bt_keys (dashboard_states r)"
    "map vfr_failure_condition_id (sn_failure_condition_states out) = bt_keys (failure_conditions r)"
    "map vvr_victory_condition_id (sn_victory_condition_states out) = bt_keys (victory_conditions r)"
    "map vms_metric_id (sn_metric_states out) = bt_keys (metric_states r)"
    "map vas_alert_id (sn_alert_states out) = bt_keys (alert_states r)"
    "sn_game_outcome out = Some (outcome_to_view (outcome r))" "sn_game_phase out = Some (phase_str (phase r))"
    by (subst out; simp add: push_runtime_def clear_snapshot_def demand_state_to_view_def inventory_to_view_def ids
        mids aids case_prod_beta comp_def)+
  with encode_snapshot_buffer [of w buffer buffer'] wire_movers [OF assms(1)] encode_snapshot_movers [of w buffer]
  show ?thesis by (simp add: out_def)
qed

theorem snapshot_complete_witness:
  "map wm_id (sn_movers (snd (encode_snapshot demo_world (snapshot_default\<lparr>sn_tick := 9\<rparr>)))) = [5]"
proof -
  have "w_sl1_runtime demo_world = Some (from_scene demo)" by (simp add: demo_world_def)
  from snapshot_complete [OF demo_world_wf this, of "snapshot_default\<lparr>sn_tick := 9\<rparr>" snapshot_default]
  have "map wm_id (sn_movers (snd (encode_snapshot demo_world (snapshot_default\<lparr>sn_tick := 9\<rparr>))))
    = map m_id (filter (\<lambda>m. m_state m \<noteq> MEmpty) (bt_values (w_movers demo_world)))" by blast
  also have "\<dots> = [5]" by (simp add: demo_world_def)
  finally show ?thesis .
qed

definition one_path_world :: "mover_state \<Rightarrow> unit world" where
  "one_path_world s = demo_world\<lparr>
     w_nodes := [(0, \<lparr>n_id = 0, n_pos = (f32_zero, f32_zero), n_shape = Circle, n_color = 0\<rparr>),
       (1, \<lparr>n_id = 1, n_pos = (f32_one, f32_zero), n_shape = Square, n_color = 1\<rparr>)],
     w_paths := [(0, \<lparr>pa_id = 0, pa_from = 0, pa_to = 1, pa_color = 0\<rparr>)],
     w_movers := [(0, \<lparr>m_id = 0, m_home_path = 0, m_speed = f32_one, m_state = s\<rparr>)],
     w_sl1 := None, w_sl1_runtime := None\<rparr>"

text \<open>
  A mover that waits is reported with path 0, and 0 is the id of the first path of every
  loaded scene: a snapshot cannot tell a mover waiting at a node from one that has just left it on
  that path.
\<close>

lemma waiting_looks_like_path_zero:
  "world_wf (one_path_world (MWaiting 0)) \<and> world_wf (one_path_world (MTraveling 0 f32_zero))
   \<and> encode_snapshot (one_path_world (MWaiting 0)) snapshot_default
     = encode_snapshot (one_path_world (MTraveling 0 f32_zero)) snapshot_default"
proof -
  have "dt_ok DEFAULT_DT" "speed_ok f32_one" "progress_ok f32_zero" by code_simp+
  then have "world_wf (one_path_world (MWaiting 0)) \<and> world_wf (one_path_world (MTraveling 0 f32_zero))"
    by (simp add: world_wf_def one_path_world_def demo_world_def table_ok_def names_distinct_def path_ok_def
        mover_ok_def bt_wf_def bt_has_def)
  moreover have "encode_snapshot (one_path_world (MWaiting 0)) snapshot_default
     = encode_snapshot (one_path_world (MTraveling 0 f32_zero)) snapshot_default" by code_simp
  ultimately show ?thesis by blast
qed

end
