(* ===== verification/Float64.thy ===== *)
theory Float64
  imports Float32
begin

text \<open>
  The \<open>f64\<close> arithmetic of the policy score, as \<open>Float32\<close> has it for \<open>f32\<close>: the value of a finite number is
  a multiple of \<open>2 ^ - 1074\<close>, sums, products and conversions are formed in the integers and rounded once.
\<close>

definition f64_is_inf :: "f64_bits \<Rightarrow> bool" where
  "f64_is_inf b \<longleftrightarrow> f64_mag b = 0x7FF0000000000000"

definition f64_neg :: "f64_bits \<Rightarrow> bool" where
  "f64_neg b \<longleftrightarrow> bit b 63"

definition f64_units :: "f64_bits \<Rightarrow> int" where
  "f64_units b = (let m = uint (f64_mag b); e = m div 2 ^ 52; f = m mod 2 ^ 52 in
     if e = 0 then f else (2 ^ 52 + f) * 2 ^ nat (e - 1))"

definition f64_value :: "f64_bits \<Rightarrow> int" where
  "f64_value b = (if f64_neg b then - f64_units b else f64_units b)"

text \<open>The magnitude bits of \<open>n * 2 ^ - (1074 + k)\<close>.\<close>

definition f64_round_mag :: "int \<Rightarrow> nat \<Rightarrow> int" where
  "f64_round_mag n k = (let s = max k (bit_len n - 53);
      m = round_even n s + int (s - k) * 2 ^ 52 in min m 0x7FF0000000000000)"

definition f64_pack :: "bool \<Rightarrow> int \<Rightarrow> nat \<Rightarrow> f64_bits" where
  "f64_pack neg n k = (if neg then set_bit 63 else id) (word_of_int (f64_round_mag n k))"

definition F64_NAN :: f64_bits where "F64_NAN = 0x7FF8000000000000"

definition f64_negate :: "f64_bits \<Rightarrow> f64_bits" where "f64_negate b = flip_bit 63 b"

definition f64_add :: "f64_bits \<Rightarrow> f64_bits \<Rightarrow> f64_bits" where
  "f64_add a b =
     (if f64_is_nan a \<or> f64_is_nan b then F64_NAN
      else if f64_is_inf a then if f64_is_inf b \<and> f64_neg a \<noteq> f64_neg b then F64_NAN else a
      else if f64_is_inf b then b
      else let v = f64_value a + f64_value b in
        if v = 0 then if f64_neg a \<and> f64_neg b then f64_negate 0 else 0
        else f64_pack (v < 0) \<bar>v\<bar> 0)"

definition f64_sub :: "f64_bits \<Rightarrow> f64_bits \<Rightarrow> f64_bits" where
  "f64_sub a b = f64_add a (f64_negate b)"

definition f64_mul :: "f64_bits \<Rightarrow> f64_bits \<Rightarrow> f64_bits" where
  "f64_mul a b =
     (if f64_is_nan a \<or> f64_is_nan b then F64_NAN
      else let neg = (f64_neg a \<noteq> f64_neg b) in
        if f64_is_inf a \<or> f64_is_inf b
        then if f64_mag a = 0 \<or> f64_mag b = 0 then F64_NAN
             else (if neg then set_bit 63 else id) 0x7FF0000000000000
        else f64_pack neg (f64_units a * f64_units b) 1074)"

text \<open>\<open>as f64\<close> from an integer: 53 significant bits, rounded to nearest.\<close>

definition f64_of_int :: "int \<Rightarrow> f64_bits" where
  "f64_of_int v = (let n = \<bar>v\<bar>; l = bit_len n;
      m = (if n = 0 then 0
           else (if l \<le> 53 then n * 2 ^ (53 - l) else round_even n (l - 53)) + int (l + 1021) * 2 ^ 52)
    in (if v < 0 then set_bit 63 else id) (word_of_int m))"

text \<open>\<open>21\<close>, \<open>2 ^ 53 + 1\<close> and \<open>2 ^ 53 + 3\<close> to even, \<open>- 50\<close> and \<open>2 ^ 64 - 1\<close>.\<close>

lemma f64_samples:
  "f64_of_int 21 = 0x4035000000000000"
  "f64_of_int 9007199254740993 = 0x4340000000000000"
  "f64_of_int 9007199254740995 = 0x4340000000000002"
  "f64_of_int (- 50) = 0xC049000000000000"
  "f64_of_int 18446744073709551615 = 0x43F0000000000000"
  by code_simp+

text \<open>The order is strict, whatever the operands.\<close>

lemma f64_lt_trans: "f64_lt a b \<Longrightarrow> f64_lt b c \<Longrightarrow> f64_lt a c"
  by (auto simp: f64_lt_def)

lemma f64_lt_irrefl: "\<not> f64_lt a a"
  by (simp add: f64_lt_def)

end
