(* ===== verification/Policy_Search.thy ===== *)
theory Policy_Search
  imports Float64 Scene_File Hash_World Timeline
begin

text \<open>
  The policy search of the headless runner (\<open>policy_search.rs\<close>): a policy overrides fields of the agents
  of a scene file, every trial is one run of the engine, and a trial is kept if its score beats
  that of the baseline. A value of \<open>serde_json\<close> is the documented enumeration, with the type of
  numbers left open; its parser and serializer, the loader's parameters, the digest, the log
  parameters and the file system are fields of \<open>search_env\<close>. Of an error, its cause is kept
  and its text is not.
\<close>

section \<open>Parameters\<close>

datatype 'n json =
    JsNull
  | JsBool bool
  | JsNumber 'n
  | JsString string
  | JsArray "'n json list"
  | JsObject "(string \<times> 'n json) list"

record ('n, 'e, 'v, 'r) search_env =
  se_from_str :: "string \<Rightarrow> 'e + 'n json"
  se_to_string :: "'n json \<Rightarrow> 'e + string"
  se_is_u64 :: "'n \<Rightarrow> bool"
  se_as_f64 :: "'n \<Rightarrow> f64_bits option"
  se_parse_file :: "string \<Rightarrow> (nat \<times> nat \<times> string) + 'v raw_scene_file"
  se_kind_of :: "'v \<Rightarrow> json_kind"
  se_from_value :: "'v \<Rightarrow> string + 'v raw_scene"
  se_llm_live :: bool
  se_from_seed :: "u64 \<Rightarrow> 'r"
  se_sha256 :: "bytes \<Rightarrow> bytes"
  se_regex :: regex_engine
  se_row_json :: "agent_log_entry \<Rightarrow> string option"

section \<open>Policies\<close>

definition ALLOWED_AGENT_OVERRIDE_KEYS :: "string list" where
  "ALLOWED_AGENT_OVERRIDE_KEYS =
     [''interval_ticks'', ''cooldown_ticks'', ''max_cost_per_decision'', ''objective_weights'', ''allowed_actions'']"

type_synonym 'n agent_overrides = "(string, (string, 'n json) btree_map) btree_map"

record 'n policy =
  po_name :: string
  po_description :: string
  po_overrides :: "'n agent_overrides"

datatype policy_apply_error =
    UnknownAgent string
  | UnsupportedOverrideKey string string "string list"
  | NoAgentsBlock
  | SceneNotObject
  | InvalidObjectiveWeight string string
  | InvalidOverrideValueType string string

section \<open>Applying a policy\<close>

text \<open>\<open>Value::is_u64\<close>, \<open>Value::as_f64\<close>, and membership in \<open>0.0..=1.0\<close>.\<close>

fun value_is_u64 :: "('n, 'e, 'v, 'r) search_env \<Rightarrow> 'n json \<Rightarrow> bool" where
  "value_is_u64 env (JsNumber n) = se_is_u64 env n"
| "value_is_u64 env _ = False"

fun value_as_f64 :: "('n, 'e, 'v, 'r) search_env \<Rightarrow> 'n json \<Rightarrow> f64_bits option" where
  "value_as_f64 env (JsNumber n) = se_as_f64 env n"
| "value_as_f64 env _ = None"

fun check_weights ::
  "('n, 'e, 'v, 'r) search_env \<Rightarrow> string \<Rightarrow> (string \<times> 'n json) list \<Rightarrow> policy_apply_error + unit" where
  "check_weights env agent [] = Inr ()"
| "check_weights env agent ((objective, weight) # m) = (case value_as_f64 env weight of
     None \<Rightarrow> Inl (InvalidObjectiveWeight agent objective)
   | Some f \<Rightarrow> if \<not> (f64_le f64_zero f \<and> f64_le f f64_one) then Inl (InvalidObjectiveWeight agent objective)
       else check_weights env agent m)"

text \<open>The last branch is \<open>unreachable!\<close> in the code: the caller has checked the key.\<close>

definition apply_one_override ::
  "('n, 'e, 'v, 'r) search_env \<Rightarrow> string \<Rightarrow> string \<Rightarrow> 'n json \<Rightarrow> (string \<times> 'n json) list
    \<Rightarrow> policy_apply_error + (string \<times> 'n json) list" where
  "apply_one_override env agent key v m =
     (if key = ''interval_ticks'' then
        if \<not> value_is_u64 env v then Inl (InvalidOverrideValueType agent key)
        else Inr (bt_insert ''interval_ticks'' v m)
      else if key = ''cooldown_ticks'' \<or> key = ''max_cost_per_decision'' then
        if \<not> value_is_u64 env v then Inl (InvalidOverrideValueType agent key)
        else (case bt_get_or (JsObject []) m ''budgets'' of
            JsObject budgets \<Rightarrow> Inr (bt_insert ''budgets'' (JsObject (bt_insert key v budgets)) m)
          | _ \<Rightarrow> Inl (InvalidOverrideValueType agent ''budgets''))
      else if key = ''objective_weights'' then
        (case v of
           JsObject weights \<Rightarrow>
             ebind (check_weights env agent weights) (\<lambda>_. Inr (bt_insert ''objective_weights'' v m))
         | _ \<Rightarrow> Inl (InvalidOverrideValueType agent key))
      else if key = ''allowed_actions'' then
        (case v of
           JsArray _ \<Rightarrow> Inr (bt_insert ''allowed_actions'' v m)
         | _ \<Rightarrow> Inl (InvalidOverrideValueType agent key))
      else Inr m)"

fun apply_fields ::
  "('n, 'e, 'v, 'r) search_env \<Rightarrow> string \<Rightarrow> (string \<times> 'n json) list \<Rightarrow> (string \<times> 'n json) list
    \<Rightarrow> policy_apply_error + (string \<times> 'n json) list" where
  "apply_fields env agent [] m = Inr m"
| "apply_fields env agent ((key, v) # fs) m =
     (if key \<notin> set ALLOWED_AGENT_OVERRIDE_KEYS
      then Inl (UnsupportedOverrideKey agent key ALLOWED_AGENT_OVERRIDE_KEYS)
      else ebind (apply_one_override env agent key v m) (apply_fields env agent fs))"

fun entry_has_id :: "string \<Rightarrow> 'n json \<Rightarrow> bool" where
  "entry_has_id agent (JsObject m) \<longleftrightarrow> bt_get m ''id'' = Some (JsString agent)"
| "entry_has_id agent _ \<longleftrightarrow> False"

definition apply_agent ::
  "('n, 'e, 'v, 'r) search_env \<Rightarrow> string \<Rightarrow> (string \<times> 'n json) list \<Rightarrow> 'n json list
    \<Rightarrow> policy_apply_error + 'n json list" where
  "apply_agent env agent flds entries = (case position (entry_has_id agent) entries of
     None \<Rightarrow> Inl (UnknownAgent agent)
   | Some k \<Rightarrow> (case entries ! k of
         JsObject m \<Rightarrow> ebind (apply_fields env agent flds m) (\<lambda>m'. Inr (entries[k := JsObject m']))
       | _ \<Rightarrow> Inl (InvalidOverrideValueType agent ''<agent root>'')))"

fun apply_agents ::
  "('n, 'e, 'v, 'r) search_env \<Rightarrow> (string \<times> (string \<times> 'n json) list) list \<Rightarrow> 'n json list
    \<Rightarrow> policy_apply_error + 'n json list" where
  "apply_agents env [] entries = Inr entries"
| "apply_agents env ((agent, flds) # os) entries =
     ebind (apply_agent env agent flds entries) (apply_agents env os)"

definition apply_policy ::
  "('n, 'e, 'v, 'r) search_env \<Rightarrow> 'n json \<Rightarrow> 'n policy \<Rightarrow> policy_apply_error + 'n json" where
  "apply_policy env scene pol = (case scene of
     JsObject root \<Rightarrow> (case bt_get root ''scenario_language_v1'' of
         Some (JsObject sl1) \<Rightarrow> (case bt_get sl1 ''agents'' of
             Some (JsArray entries) \<Rightarrow> ebind (apply_agents env (po_overrides pol) entries) (\<lambda>entries'.
               Inr (JsObject (bt_insert ''scenario_language_v1''
                 (JsObject (bt_insert ''agents'' (JsArray entries') sl1)) root)))
           | _ \<Rightarrow> Inl NoAgentsBlock)
       | _ \<Rightarrow> Inl NoAgentsBlock)
   | _ \<Rightarrow> Inl SceneNotObject)"

section \<open>Scores\<close>

datatype outcome_class = ClLost | ClInProgress | ClWon

fun class_rank :: "outcome_class \<Rightarrow> nat" where
  "class_rank ClLost = 0"
| "class_rank ClInProgress = 1"
| "class_rank ClWon = 2"

fun from_outcome :: "game_outcome \<Rightarrow> outcome_class" where
  "from_outcome InProgress = ClInProgress"
| "from_outcome Won = ClWon"
| "from_outcome (Lost _) = ClLost"

record trial_score =
  sco_class :: outcome_class
  sco_weighted :: f64_bits

definition beats :: "trial_score \<Rightarrow> trial_score \<Rightarrow> bool" where
  "beats a b \<longleftrightarrow> (if class_rank (sco_class b) < class_rank (sco_class a) then True
     else if class_rank (sco_class a) < class_rank (sco_class b) then False
     else f64_lt (sco_weighted b) (sco_weighted a))"

definition objective_step :: "sl1_runtime \<Rightarrow> sl1_objective \<Rightarrow> f64_bits \<Rightarrow> f64_bits" where
  "objective_step r ob acc = (let w = f64_of_int (uint (objective_weight ob)) in
     (case (case bt_get (objectives r) (objective_id ob) of None \<Rightarrow> StUnknown | Some s \<Rightarrow> ob_status s) of
        StMet \<Rightarrow> f64_add acc w
      | StBreached \<Rightarrow> f64_sub acc w
      | StUnknown \<Rightarrow> acc
      | StUnsupported \<Rightarrow> acc))"

definition demand_step :: "sl1_runtime \<Rightarrow> sl1_demand \<Rightarrow> f64_bits \<Rightarrow> f64_bits" where
  "demand_step r d acc = (case bt_get (demand r) (demand_id d) of
     None \<Rightarrow> acc
   | Some dr \<Rightarrow>
       let acc1 = f64_add acc (f64_mul (f64_of_int (uint (fulfilled_count dr))) (f64_of_int (uint (demand_value d))))
       in f64_sub acc1 (f64_mul (f64_of_int (uint (dropped_count dr)))
            (f64_of_int (penalty_score (demand_penalty d)))))"

definition compute_policy_score :: "'r world \<Rightarrow> trial_score" where
  "compute_policy_score w = (case w_sl1_runtime w of
     None \<Rightarrow> \<lparr>sco_class = ClInProgress, sco_weighted = f64_zero\<rparr>
   | Some r \<Rightarrow>
       let acc = (case w_sl1 w of
              None \<Rightarrow> f64_zero
            | Some sc \<Rightarrow> fold (demand_step r) (sc_demand sc) (fold (objective_step r) (sc_objectives sc) f64_zero));
           fired = length (filter (\<lambda>fc. fc_fired_at_tick fc \<noteq> None) (bt_values (failure_conditions r)))
       in \<lparr>sco_class = from_outcome (outcome r),
           sco_weighted = f64_sub acc (f64_mul (f64_of_int 50) (f64_of_int (int fired)))\<rparr>)"

section \<open>Trials\<close>

datatype trial_status = TsBaseline | TsKept | TsDiscarded | TsFailed | TsBlocked

datatype 'e trial_error =
    SceneNotJson 'e
  | PolicyNotApplied policy_apply_error
  | NotSerialized 'e
  | ReloadFailed load_error
  | TrialPanicked
  | NoBaselineScore

record trial_run =
  run_score :: trial_score
  run_hash :: string
  run_outcome :: game_outcome

datatype trial_run_error = SceneReload load_error | PanickedInTick

text \<open>\<open>catch_unwind\<close> turns a panic, \<open>None\<close>, into an error. The runner of a trial has no agents.\<close>

definition run_trial ::
  "('n, 'e, 'v, 'r) search_env \<Rightarrow> string \<Rightarrow> u64 \<Rightarrow> u64 \<Rightarrow> trial_run_error + trial_run" where
  "run_trial env json seed ticks =
     (case load_scene_str (se_parse_file env) (se_kind_of env) (se_from_value env) (se_llm_live env)
        (se_from_seed env) json seed of
        Inl e \<Rightarrow> Inl (SceneReload e)
      | Inr ls \<Rightarrow> (case hash_run (se_sha256 env) (se_regex env) (se_row_json env) (ls_world ls)
            (runner_new :: ('r, unit, unit) tick_runner) ticks of
          None \<Rightarrow> Inl PanickedInTick
        | Some (hash, _, w) \<Rightarrow> Inr \<lparr>run_score = compute_policy_score w, run_hash = hash, run_outcome = sl1_outcome w\<rparr>))"

fun outcome_label :: "game_outcome \<Rightarrow> string \<times> string option" where
  "outcome_label InProgress = (''in_progress'', None)"
| "outcome_label Won = (''won'', None)"
| "outcome_label (Lost reason) = (''lost'', Some reason)"

record 'e trial_record =
  tr_trial_id :: u32
  tr_policy_name :: string
  tr_status :: trial_status
  tr_seed :: u64
  tr_ticks :: u64
  tr_score :: "trial_score option"
  tr_baseline_score :: "trial_score option"
  tr_delta :: "f64_bits option"
  tr_outcome :: "string option"
  tr_lost_reason :: "string option"
  tr_hash :: "string option"
  tr_error :: "'e trial_error option"

definition blocked_with :: "'e trial_error \<Rightarrow> 'e trial_record \<Rightarrow> 'e trial_record" where
  "blocked_with e rec = rec\<lparr>tr_status := TsBlocked, tr_error := Some e\<rparr>"

definition build_record ::
  "('n, 'e, 'v, 'r) search_env \<Rightarrow> u32 \<Rightarrow> 'n policy \<Rightarrow> trial_status \<Rightarrow> u64 \<Rightarrow> u64 \<Rightarrow> 'e + 'n json
    \<Rightarrow> trial_score option \<Rightarrow> 'e trial_record" where
  "build_record env trial_id pol initial seed ticks parsed baseline =
     (let rec = \<lparr>tr_trial_id = trial_id, tr_policy_name = po_name pol, tr_status = initial, tr_seed = seed,
            tr_ticks = ticks, tr_score = None, tr_baseline_score = baseline, tr_delta = None, tr_outcome = None,
            tr_lost_reason = None, tr_hash = None, tr_error = None\<rparr>
      in (case parsed of
         Inl e \<Rightarrow> blocked_with (SceneNotJson e) rec
       | Inr scene \<Rightarrow> (case apply_policy env scene pol of
           Inl e \<Rightarrow> blocked_with (PolicyNotApplied e) rec
         | Inr mutated \<Rightarrow> (case se_to_string env mutated of
             Inl e \<Rightarrow> blocked_with (NotSerialized e) rec
           | Inr s \<Rightarrow> (case run_trial env s seed ticks of
               Inr run \<Rightarrow> rec\<lparr>tr_outcome := Some (fst (outcome_label (run_outcome run))),
                 tr_lost_reason := snd (outcome_label (run_outcome run)),
                 tr_hash := Some (run_hash run), tr_score := Some (run_score run),
                 tr_delta := (case baseline of
                    Some b \<Rightarrow> Some (f64_sub (sco_weighted (run_score run)) (sco_weighted b)) | None \<Rightarrow> None)\<rparr>
             | Inl (SceneReload e) \<Rightarrow> blocked_with (ReloadFailed e) rec
             | Inl PanickedInTick \<Rightarrow> rec\<lparr>tr_status := TsFailed, tr_error := Some TrialPanicked\<rparr>)))))"

section \<open>The search\<close>

text \<open>The verdict on a candidate, and the best score so far with the name of its policy.\<close>

type_synonym best = "trial_score option \<times> string option"

definition judge ::
  "trial_score option \<Rightarrow> 'e trial_record \<Rightarrow> best \<Rightarrow> 'e trial_record \<times> best" where
  "judge baseline rec best =
     (case (baseline, tr_score rec) of
        (Some b, Some cand) \<Rightarrow>
          (rec\<lparr>tr_status := (if beats cand b then TsKept else TsDiscarded)\<rparr>,
           (let update = (case fst best of Some top1 \<Rightarrow> beats cand top1 | None \<Rightarrow> True)
            in if update then (Some cand, Some (tr_policy_name rec)) else best))
      | (None, _) \<Rightarrow>
          (if tr_status rec \<noteq> TsFailed \<and> tr_status rec \<noteq> TsBlocked
           then (rec\<lparr>tr_status := TsBlocked, tr_error := Some NoBaselineScore, tr_score := None,
                   tr_delta := None, tr_hash := None\<rparr>, best)
           else (rec, best))
      | _ \<Rightarrow> (rec, best))"

fun candidates ::
  "('n, 'e, 'v, 'r) search_env \<Rightarrow> u64 \<Rightarrow> u64 \<Rightarrow> 'e + 'n json \<Rightarrow> trial_score option \<Rightarrow> u32
    \<Rightarrow> 'n policy list \<Rightarrow> best \<Rightarrow> 'e trial_record list \<times> best" where
  "candidates env seed ticks parsed baseline i [] best = ([], best)"
| "candidates env seed ticks parsed baseline i (pol # pols) best =
     (let (rec, best1) = judge baseline (build_record env i pol TsDiscarded seed ticks parsed baseline) best;
          (recs, best2) = candidates env seed ticks parsed baseline (i + 1) pols best1
      in (rec # recs, best2))"

record search_summary =
  su_scene :: string
  su_seed :: u64
  su_ticks :: u64
  su_total_trials :: u32
  su_baseline_count :: u32
  su_kept_count :: u32
  su_discarded_count :: u32
  su_failed_count :: u32
  su_blocked_count :: u32
  su_best_policy_name :: "string option"
  su_best_score :: "trial_score option"

definition status_count :: "trial_status \<Rightarrow> 'e trial_record list \<Rightarrow> nat" where
  "status_count s recs = length (filter (\<lambda>r. tr_status r = s) recs)"

definition run_policy_search ::
  "('n, 'e, 'v, 'r) search_env \<Rightarrow> string \<Rightarrow> string \<Rightarrow> 'n policy \<Rightarrow> 'n policy list \<Rightarrow> u64 \<Rightarrow> u64
    \<Rightarrow> 'e trial_record list \<times> search_summary" where
  "run_policy_search env scene_path scene_json baseline_policy pols seed ticks =
     (let parsed = se_from_str env scene_json;
          base = build_record env 0 baseline_policy TsBaseline seed ticks parsed None;
          score = tr_score base;
          (recs1, best) = candidates env seed ticks parsed score 1 pols
             (score, map_option (\<lambda>_. po_name baseline_policy) score);
          recs = base # recs1
      in (recs, \<lparr>su_scene = scene_path, su_seed = seed, su_ticks = ticks,
            su_total_trials = of_nat (length recs), su_baseline_count = of_nat (status_count TsBaseline recs),
            su_kept_count = of_nat (status_count TsKept recs), su_discarded_count = of_nat (status_count TsDiscarded recs),
            su_failed_count = of_nat (status_count TsFailed recs), su_blocked_count = of_nat (status_count TsBlocked recs),
            su_best_policy_name = snd best, su_best_score = fst best\<rparr>))"

section \<open>The command\<close>

text \<open>
  The exit code and, when it got that far, what was written. \<open>read\<close> reads a file, \<open>parse_policy\<close>
  parses a policy, \<open>emit\<close> opens the output and writes the rows, and says whether both succeeded.
\<close>

definition implicit_baseline :: "'n policy" where
  "implicit_baseline = \<lparr>po_name = ''baseline'', po_description = ''implicit baseline (no overrides)'', po_overrides = []\<rparr>"

fun load_policies ::
  "(string \<Rightarrow> string option) \<Rightarrow> (string \<Rightarrow> 'n policy option) \<Rightarrow> string list \<Rightarrow> 'n policy list option" where
  "load_policies read parse_policy [] = Some []"
| "load_policies read parse_policy (p # ps) = (case Option.bind (read p) parse_policy of
     None \<Rightarrow> None
   | Some pol \<Rightarrow> map_option (\<lambda>pols. pol # pols) (load_policies read parse_policy ps))"

fun exit_of :: "'e trial_record list \<Rightarrow> int" where
  "exit_of [] = 0"
| "exit_of (r # rs) = (case tr_status r of
     TsFailed \<Rightarrow> max 3 (exit_of rs) | TsBlocked \<Rightarrow> max 2 (exit_of rs) | _ \<Rightarrow> exit_of rs)"

definition cmd_policy_search ::
  "('n, 'e, 'v, 'r) search_env \<Rightarrow> (string \<Rightarrow> string option) \<Rightarrow> (string \<Rightarrow> 'n policy option)
    \<Rightarrow> ('e trial_record list \<times> search_summary \<Rightarrow> bool) \<Rightarrow> string \<Rightarrow> string option \<Rightarrow> string list
    \<Rightarrow> u64 \<Rightarrow> u64 \<Rightarrow> int \<times> ('e trial_record list \<times> search_summary) option" where
  "cmd_policy_search env read parse_policy emit scene baseline_path paths seed ticks =
     (case read scene of
        None \<Rightarrow> (4, None)
      | Some json \<Rightarrow>
          if isl (se_from_str env json) then (4, None)
          else if isl (load_scene_str (se_parse_file env) (se_kind_of env) (se_from_value env)
             (se_llm_live env) (se_from_seed env) json seed) then (4, None)
          else (case (case baseline_path of
                 None \<Rightarrow> Some implicit_baseline | Some p \<Rightarrow> Option.bind (read p) parse_policy) of
              None \<Rightarrow> (2, None)
            | Some base \<Rightarrow> (case load_policies read parse_policy paths of
                None \<Rightarrow> (2, None)
              | Some pols \<Rightarrow>
                  let out = run_policy_search env scene json base pols seed ticks
                  in if \<not> emit out then (4, None) else (exit_of (fst out), Some out))))"

end
