(* ===== verification/Policy_Search_Properties.thy ===== *)
theory Policy_Search_Properties
  imports Policy_Search Scene_File_Properties
begin

text \<open>
  Properties of the policy search: a policy changes nothing but the agents, the verdicts follow the
  order of scores, and no trial fails.
\<close>

section \<open>What a policy may change\<close>

definition override_targets :: "string set" where
  "override_targets = {''interval_ticks'', ''budgets'', ''objective_weights'', ''allowed_actions''}"

definition budget_keys :: "string set" where
  "budget_keys = {''cooldown_ticks'', ''max_cost_per_decision''}"

definition budget :: "(string \<times> 'n json) list \<Rightarrow> string \<Rightarrow> 'n json option" where
  "budget m k = (case bt_get_or (JsObject []) m ''budgets'' of JsObject b \<Rightarrow> bt_get b k | _ \<Rightarrow> None)"

definition fields_kept :: "(string \<times> 'n json) list \<Rightarrow> (string \<times> 'n json) list \<Rightarrow> bool" where
  "fields_kept m n \<longleftrightarrow> (\<forall>k. k \<notin> override_targets \<longrightarrow> bt_get n k = bt_get m k)
     \<and> (\<forall>k. k \<notin> budget_keys \<longrightarrow> budget n k = budget m k)"

fun agent_kept :: "'n json \<Rightarrow> 'n json \<Rightarrow> bool" where
  "agent_kept (JsObject m) (JsObject n) \<longleftrightarrow> fields_kept m n"
| "agent_kept a b \<longleftrightarrow> a = b"

lemma fields_kept_refl [simp]: "fields_kept m m"
  by (simp add: fields_kept_def)

lemma fields_kept_trans: "fields_kept a b \<Longrightarrow> fields_kept b c \<Longrightarrow> fields_kept a c"
  by (simp add: fields_kept_def)

lemma agent_kept_refl [simp]: "agent_kept a a"
  by (cases a) simp_all

lemma agent_kept_trans: "agent_kept a b \<Longrightarrow> agent_kept b c \<Longrightarrow> agent_kept a c"
  by (cases a; cases b; cases c) (auto intro: fields_kept_trans)

lemma insert_kept: "k \<in> override_targets \<Longrightarrow> k \<noteq> ''budgets'' \<Longrightarrow> fields_kept m (bt_insert k x m)"
  by (auto simp: fields_kept_def budget_def bt_get_or_def)

lemma budget_kept:
  assumes "k \<in> budget_keys" and "bt_get_or (JsObject []) m ''budgets'' = JsObject b"
  shows "fields_kept m (bt_insert ''budgets'' (JsObject (bt_insert k x b)) m)"
proof -
  have "''budgets'' \<in> override_targets" by (simp add: override_targets_def)
  with assms show ?thesis by (auto simp: fields_kept_def budget_def bt_get_or_def)
qed

lemma apply_one_override_kept:
  assumes ok: "apply_one_override env agent key v m = Inr m'"
  shows "fields_kept m m'"
proof -
  note step = ok [unfolded apply_one_override_def]
  show ?thesis
  proof (cases "key = ''interval_ticks''")
    case True
    with step have "m' = bt_insert ''interval_ticks'' v m" by (auto split: if_splits)
    then show ?thesis by (simp add: insert_kept override_targets_def)
  next
    case not1: False
    show ?thesis
    proof (cases "key = ''cooldown_ticks'' \<or> key = ''max_cost_per_decision''")
      case True
      then have key: "key \<in> budget_keys" by (auto simp: budget_keys_def)
      from True not1 step obtain b where "bt_get_or (JsObject []) m ''budgets'' = JsObject b"
        "m' = bt_insert ''budgets'' (JsObject (bt_insert key v b)) m"
        by (cases "bt_get_or (JsObject []) m ''budgets''") (simp_all only: if_True if_False json.case split: if_splits, simp_all)
      with budget_kept [OF key] show ?thesis by blast
    next
      case not2: False
      note rest = step [unfolded if_not_P [OF not1] if_not_P [OF not2]]
      show ?thesis
      proof (cases "key = ''objective_weights''")
        case True
        with rest have "m' = bt_insert ''objective_weights'' v m" by (cases v) (auto simp: load_simps)
        then show ?thesis by (simp add: insert_kept override_targets_def)
      next
        case not3: False
        note last = rest [unfolded if_not_P [OF not3]]
        show ?thesis
        proof (cases "key = ''allowed_actions''")
          case True
          with last have "m' = bt_insert ''allowed_actions'' v m" by (cases v) simp_all
          then show ?thesis by (simp add: insert_kept override_targets_def)
        next
          case False
          with last show ?thesis by simp
        qed
      qed
    qed
  qed
qed

lemma apply_fields_kept: "apply_fields env agent flds m = Inr m' \<Longrightarrow> fields_kept m m'"
proof (induction flds arbitrary: m)
  case (Cons f flds)
  obtain key v where f: "f = (key, v)" by (cases f)
  with Cons.prems obtain m1 where "apply_one_override env agent key v m = Inr m1" "apply_fields env agent flds m1 = Inr m'"
    by (auto simp: load_simps split: if_splits)
  with Cons.IH apply_one_override_kept fields_kept_trans show ?case by blast
qed simp

lemma apply_agent_kept:
  assumes "apply_agent env agent flds entries = Inr entries'"
  shows "list_all2 agent_kept entries entries'"
proof -
  from assms obtain k where pos: "position (entry_has_id agent) entries = Some k"
    by (auto simp: apply_agent_def split: option.splits)
  with assms obtain m where m: "entries ! k = JsObject m"
    by (cases "entries ! k") (simp_all add: apply_agent_def)
  with assms pos obtain m' where k: "apply_fields env agent flds m = Inr m'" "entries' = entries[k := JsObject m']"
    by (auto simp: apply_agent_def load_simps)
  have "agent_kept (entries ! i) (entries' ! i)" if "i < length entries" for i
    using that m k apply_fields_kept [OF k(1)] by (cases "i = k") simp_all
  then show ?thesis by (simp add: list_all2_conv_all_nth k(2))
qed

lemma apply_agents_kept: "apply_agents env os entries = Inr entries' \<Longrightarrow> list_all2 agent_kept entries entries'"
proof (induction os arbitrary: entries)
  case Nil
  then show ?case by (simp add: list.rel_refl)
next
  case (Cons x os)
  obtain agent flds where x: "x = (agent, flds)" by (cases x)
  with Cons.prems obtain e1 where e: "apply_agent env agent flds entries = Inr e1" "apply_agents env os e1 = Inr entries'"
    by (auto simp: load_simps)
  show ?case by (rule list_all2_trans [OF agent_kept_trans apply_agent_kept [OF e(1)] Cons.IH [OF e(2)]])
qed

section \<open>The order of scores\<close>

lemma beats_irrefl: "\<not> beats a a"
  by (simp add: beats_def f64_lt_irrefl)

lemma beats_trans: "beats a b \<Longrightarrow> beats b c \<Longrightarrow> beats a c"
  by (auto simp: beats_def split: if_splits dest: f64_lt_trans)

lemma lost_never_beats: "sco_class a = ClLost \<Longrightarrow> sco_class b \<noteq> ClLost \<Longrightarrow> \<not> beats a b"
  by (cases "sco_class b") (simp_all add: beats_def)

section \<open>Records\<close>

definition verdict :: "trial_score option \<Rightarrow> 'e trial_record \<Rightarrow> bool" where
  "verdict base rec \<longleftrightarrow> (case tr_status rec of
     TsKept \<Rightarrow> (case (base, tr_score rec) of (Some b, Some c) \<Rightarrow> beats c b | _ \<Rightarrow> False)
   | TsDiscarded \<Rightarrow> (case (base, tr_score rec) of (Some b, Some c) \<Rightarrow> \<not> beats c b | _ \<Rightarrow> False)
   | TsBaseline \<Rightarrow> False
   | TsFailed \<Rightarrow> tr_score rec = None
   | TsBlocked \<Rightarrow> tr_score rec = None)"

lemma build_record_status:
  assumes "s \<noteq> TsFailed" and "s \<noteq> TsBlocked"
  shows "tr_score (build_record env i pol s seed ticks parsed b) = None
      \<longleftrightarrow> tr_status (build_record env i pol s seed ticks parsed b) \<in> {TsFailed, TsBlocked}"
    and "tr_score (build_record env i pol s seed ticks parsed b) \<noteq> None
      \<longleftrightarrow> tr_status (build_record env i pol s seed ticks parsed b) = s"
    and "tr_trial_id (build_record env i pol s seed ticks parsed b) = i"
    and "tr_policy_name (build_record env i pol s seed ticks parsed b) = po_name pol"
  using assms
  by (auto simp: build_record_def blocked_with_def Let_def split: sum.split trial_run_error.split)

definition not_beaten_by :: "trial_score option \<Rightarrow> 'e trial_record \<Rightarrow> bool" where
  "not_beaten_by best rec \<longleftrightarrow> (case (best, tr_score rec) of (_, None) \<Rightarrow> True
     | (None, Some _) \<Rightarrow> False | (Some t, Some c) \<Rightarrow> \<not> beats c t)"

lemma judge_sound:
  assumes "tr_score rec = None \<longleftrightarrow> tr_status rec \<in> {TsFailed, TsBlocked}"
    and "base \<noteq> None \<longleftrightarrow> fst best \<noteq> None"
  defines "res \<equiv> judge base rec best"
  shows "verdict base (fst res)" and "tr_trial_id (fst res) = tr_trial_id rec"
    and "tr_policy_name (fst res) = tr_policy_name rec" and "base \<noteq> None \<longleftrightarrow> fst (snd res) \<noteq> None"
    and "not_beaten_by (fst (snd res)) (fst res)"
    and "fst (snd res) = fst best \<or> (fst (snd res) = tr_score (fst res) \<and> tr_score (fst res) \<noteq> None
      \<and> (case (fst best, tr_score (fst res)) of (Some t, Some c) \<Rightarrow> beats c t | _ \<Rightarrow> False))"
  using assms beats_irrefl
  by (auto simp: res_def judge_def verdict_def not_beaten_by_def Let_def split: option.split trial_status.split)

lemma not_beaten_mono:
  assumes "not_beaten_by (Some t) rec" and "beats t' t"
  shows "not_beaten_by (Some t') rec"
  using assms beats_trans by (auto simp: not_beaten_by_def split: option.splits)

lemma candidates_sound:
  fixes env :: "('n, 'e, 'v, 'r) search_env"
  assumes "base \<noteq> None \<longleftrightarrow> fst best \<noteq> None"
  shows "case candidates env seed ticks parsed base i pols best of (recs, best') \<Rightarrow>
      map tr_policy_name recs = map po_name pols \<and> list_all (verdict base) recs
      \<and> (base \<noteq> None \<longleftrightarrow> fst best' \<noteq> None) \<and> list_all (not_beaten_by (fst best')) recs
      \<and> (fst best' = fst best \<or> (\<exists>r \<in> set recs. fst best' = tr_score r)
           \<and> (case (fst best, fst best') of (Some t, Some t') \<Rightarrow> beats t' t | _ \<Rightarrow> False))"
  using assms
proof (induction pols arbitrary: i best)
  case (Cons pol pols)
  let ?rec = "build_record env i pol TsDiscarded seed ticks parsed base"
  obtain rec1 best1 where j: "judge base ?rec best = (rec1, best1)" by (cases "judge base ?rec best")
  obtain recs best2 where c: "candidates env seed ticks parsed base (i + 1) pols best1 = (recs, best2)"
    by (cases "candidates env seed ticks parsed base (i + 1) pols best1")
  have status: "tr_score ?rec = None \<longleftrightarrow> tr_status ?rec \<in> {TsFailed, TsBlocked}"
    by (rule build_record_status(1)) simp_all
  note s = judge_sound [OF status Cons.prems, unfolded j fst_conv snd_conv]
  note ih = Cons.IH [OF s(4), of "i + 1", unfolded c prod.case]
  have "not_beaten_by (fst best2) rec1"
    using s(5) ih not_beaten_mono [of _ rec1] by (cases "fst best1"; cases "fst best2") auto
  moreover have "fst best2 = fst best \<or> (\<exists>r \<in> set (rec1 # recs). fst best2 = tr_score r)
      \<and> (case (fst best, fst best2) of (Some t, Some t') \<Rightarrow> beats t' t | _ \<Rightarrow> False)"
  proof (cases "fst best1 = fst best")
    case True
    with ih show ?thesis by auto
  next
    case False
    with s(6) obtain t t1 where t: "fst best = Some t" "fst best1 = Some t1" "tr_score rec1 = Some t1" "beats t1 t"
      by (auto split: option.splits)
    from ih consider "fst best2 = fst best1"
      | r t2 where "r \<in> set recs" "fst best2 = tr_score r" "fst best2 = Some t2" "beats t2 t1"
      by (auto simp: t(2) split: option.splits)
    then show ?thesis
    proof cases
      case 1
      with t show ?thesis by auto
    next
      case 2
      from 2(2,3) have "tr_score r = Some t2" by simp
      with 2(1,3) have "\<exists>r \<in> set (rec1 # recs). fst best2 = tr_score r" by force
      with beats_trans [OF 2(4) t(4)] t(1) 2(3) show ?thesis by simp
    qed
  qed
  ultimately show ?case
    using s(1,3) ih build_record_status(4) [of TsDiscarded env i pol seed ticks parsed base]
    by (simp add: j c)
qed simp

section \<open>Runs\<close>

lemma engine_ticks_front:
  "engine_ticks rx js (Suc n) r w = do { (r1, w1, _) \<leftarrow> tick_once rx js r w; engine_ticks rx js n r1 w1 }"
proof (induction n)
  case 0
  show ?case by (cases "tick_once rx js r w") auto
next
  case (Suc n)
  have "engine_ticks rx js (Suc (Suc n)) r w
      = do { (r1, w1) \<leftarrow> engine_ticks rx js (Suc n) r w; (r2, w2, _) \<leftarrow> tick_once rx js r1 w1; Some (r2, w2) }"
    by (rule engine_ticks.simps(2))
  also have "\<dots> = do { (r1, w1, _) \<leftarrow> tick_once rx js r w; engine_ticks rx js (Suc n) r1 w1 }"
    unfolding Suc.IH by (cases "tick_once rx js r w") auto
  finally show ?case .
qed

lemma engine_ticks_feed:
  "engine_ticks rx js n r w \<noteq> None \<Longrightarrow> feed_ticks rx js n r w \<noteq> None"
proof (induction n arbitrary: r w)
  case (Suc n)
  from Suc.prems obtain r1 w1 k where 1: "tick_once rx js r w = Some (r1, w1, k)" "engine_ticks rx js n r1 w1 \<noteq> None"
    unfolding engine_ticks_front by (cases "tick_once rx js r w") auto
  from Suc.IH [OF 1(2)] 1(1) show ?case by (auto split: prod.splits)
qed simp

lemma run_trial_returns:
  fixes env :: "('a, 'b, 'c, 'd) search_env"
  assumes "\<And>v r. se_from_value env v = Inr r \<Longrightarrow> raw_wf r" and "MAX_DEMAND_OUTSTANDING * unat ticks < 2 ^ 64"
  shows "run_trial env json seed ticks \<noteq> Inl PanickedInTick"
proof (cases "load_scene_str (se_parse_file env) (se_kind_of env) (se_from_value env) (se_llm_live env)
    (se_from_seed env) json seed")
  case (Inr ls)
  then obtain raw where "validate_scene_file (se_kind_of env) (se_from_value env) (se_llm_live env)
      (se_from_seed env) raw seed = Inr ls"
    by (auto simp: load_scene_str_def load_simps)
  from accepted_file_runs [OF this _ assms(2), where rx = "se_regex env" and js = "se_row_json env" and r = "runner_new :: ('d, unit, unit) tick_runner"]
  have "engine_ticks (se_regex env) (se_row_json env) (unat ticks) (runner_new :: ('d, unit, unit) tick_runner) (ls_world ls) \<noteq> None"
    using assms(1) by blast
  from engine_ticks_feed [OF this] Inr show ?thesis
    by (auto simp: run_trial_def hash_run_def run_stream_def split: option.split)
qed (simp add: run_trial_def)

lemma build_record_runs:
  fixes env :: "('a, 'b, 'c, 'd) search_env"
  assumes "\<And>v r. se_from_value env v = Inr r \<Longrightarrow> raw_wf r" and "MAX_DEMAND_OUTSTANDING * unat ticks < 2 ^ 64"
    and "s \<noteq> TsFailed"
  shows "tr_status (build_record env i pol s seed ticks parsed b) \<noteq> TsFailed"
proof -
  have "run_trial env json seed ticks \<noteq> Inl PanickedInTick" for json
    using run_trial_returns [OF _ assms(2), of env] assms(1) by blast
  with assms(3) show ?thesis
    by (auto simp: build_record_def blocked_with_def Let_def split: sum.split trial_run_error.split)
qed

lemma judge_runs: "tr_status rec \<noteq> TsFailed \<Longrightarrow> tr_status (fst (judge base rec best)) \<noteq> TsFailed"
  by (auto simp: judge_def Let_def split: option.split)

lemma candidates_run:
  fixes env :: "('a, 'b, 'c, 'd) search_env"
  assumes "\<And>v r. se_from_value env v = Inr r \<Longrightarrow> raw_wf r" and "MAX_DEMAND_OUTSTANDING * unat ticks < 2 ^ 64"
  shows "list_all (\<lambda>r. tr_status r \<noteq> TsFailed) (fst (candidates env seed ticks parsed base i pols best))"
proof (induction pols arbitrary: i best)
  case (Cons pol pols)
  have "tr_status (build_record env i pol TsDiscarded seed ticks parsed base) \<noteq> TsFailed"
    using build_record_runs [OF _ assms(2), of env TsDiscarded] assms(1) by simp
  from judge_runs [OF this] Cons.IH show ?case by (simp add: case_prod_beta Let_def)
qed simp

lemma exit_of_no_failure: "list_all (\<lambda>r. tr_status r \<noteq> TsFailed) rs \<Longrightarrow> exit_of rs \<in> {0, 2}"
  by (induction rs) (auto split: trial_status.split)

section \<open>Properties\<close>

definition demo_env :: "(nat, unit, unit, unit) search_env" where
  "demo_env = \<lparr>se_from_str = (\<lambda>_. Inr (JsObject [(''scenario_language_v1'', JsObject [(''agents'',
        JsArray [JsObject [(''id'', JsString ''a'')]])])])),
     se_to_string = (\<lambda>_. Inr ''{}''), se_is_u64 = (\<lambda>_. True), se_as_f64 = (\<lambda>_. None),
     se_parse_file = (\<lambda>_. Inr demo_file), se_kind_of = (\<lambda>_. JObject), se_from_value = (\<lambda>_. Inr raw_demo),
     se_llm_live = False, se_from_seed = (\<lambda>_. ()), se_sha256 = (\<lambda>_. []), se_regex = no_regex,
     se_row_json = (\<lambda>_. None)\<rparr>"

definition demo_policy :: "nat policy" where
  "demo_policy = \<lparr>po_name = ''calm'', po_description = [], po_overrides =
     [(''a'', [(''cooldown_ticks'', JsNumber 9), (''interval_ticks'', JsNumber 5)])]\<rparr>"

text \<open>
  C35. The mechanics of a scene are fixed across trials: applying a policy changes the list of agents
  of the scene and nothing else, keeps their number and order, and in each agent touches at most the
  four fields a policy may override, in the budgets at most the two it may override there.
\<close>

theorem policy_changes_agents_only:
  assumes "apply_policy env scene pol = Inr scene'"
  shows "\<exists>root sl1 es es'. scene = JsObject root
    \<and> bt_get root ''scenario_language_v1'' = Some (JsObject sl1) \<and> bt_get sl1 ''agents'' = Some (JsArray es)
    \<and> scene' = JsObject (bt_insert ''scenario_language_v1''
        (JsObject (bt_insert ''agents'' (JsArray es') sl1)) root)
    \<and> list_all2 agent_kept es es'"
proof -
  obtain root where root: "scene = JsObject root" using assms by (cases scene) (simp_all add: apply_policy_def)
  with assms obtain sl1 where sl1: "bt_get root ''scenario_language_v1'' = Some (JsObject sl1)"
    by (auto simp: apply_policy_def split: option.splits json.splits)
  with assms root obtain es where es: "bt_get sl1 ''agents'' = Some (JsArray es)"
    by (auto simp: apply_policy_def split: option.splits json.splits)
  from assms obtain es' where "apply_agents env (po_overrides pol) es = Inr es'"
    "scene' = JsObject (bt_insert ''scenario_language_v1'' (JsObject (bt_insert ''agents'' (JsArray es') sl1)) root)"
    by (auto simp: apply_policy_def root sl1 es load_simps)
  with apply_agents_kept root sl1 es show ?thesis by blast
qed

definition demo_scene_json :: "nat json" where
  "demo_scene_json = JsObject [(''scenario_language_v1'', JsObject [(''agents'', JsArray [JsObject [(''id'', JsString ''a'')]])])]"

definition calm_scene_json :: "nat json" where
  "calm_scene_json = JsObject [(''scenario_language_v1'', JsObject [(''agents'', JsArray [JsObject
    [(''budgets'', JsObject [(''cooldown_ticks'', JsNumber 9)]), (''id'', JsString ''a''), (''interval_ticks'', JsNumber 5)]])])]"

theorem policy_changes_agents_only_witness:
  "apply_policy demo_env demo_scene_json demo_policy = Inr calm_scene_json \<and> (\<exists>root. demo_scene_json = JsObject root)"
proof -
  have a: "apply_policy demo_env demo_scene_json demo_policy = Inr calm_scene_json" by code_simp
  from policy_changes_agents_only [OF a] a show ?thesis by blast
qed

definition kept_not_lost :: "trial_score option \<Rightarrow> 'e trial_record \<Rightarrow> bool" where
  "kept_not_lost base rec \<longleftrightarrow> (case (tr_status rec, tr_score rec, base) of
     (TsKept, Some c, Some b) \<Rightarrow> sco_class c = ClLost \<longrightarrow> sco_class b = ClLost | _ \<Rightarrow> True)"

text \<open>
  C36. The verdicts of a search follow the order of scores. There is one row per policy, in order,
  the baseline first; a candidate is kept exactly when its score beats the baseline's and discarded
  when it does not, a blocked or failed one has no score; a lost run is never kept over one that is
  not lost; no row beats the best score of the summary; and the counts of the statuses add up.
\<close>

theorem search_verdicts:
  "case run_policy_search env path json base pols seed ticks of (recs, su) \<Rightarrow>
     map tr_policy_name recs = po_name base # map po_name pols
     \<and> list_all (verdict (tr_score (hd recs))) (tl recs)
     \<and> list_all (kept_not_lost (tr_score (hd recs))) (tl recs)
     \<and> list_all (not_beaten_by (su_best_score su)) recs
     \<and> status_count TsBaseline recs + status_count TsKept recs + status_count TsDiscarded recs
         + status_count TsFailed recs + status_count TsBlocked recs = length recs"
proof -
  let ?base = "build_record env 0 base TsBaseline seed ticks (se_from_str env json) None"
  let ?s = "tr_score ?base"
  obtain recs1 best where c: "candidates env seed ticks (se_from_str env json) ?s 1 pols
      (?s, map_option (\<lambda>_. po_name base) ?s) = (recs1, best)" by (rule prod.exhaust)
  have "?s \<noteq> None \<longleftrightarrow> fst (?s, map_option (\<lambda>_. po_name base) ?s) \<noteq> None" by simp
  note sound = candidates_sound [OF this, where env = env and seed = seed and ticks = ticks
      and parsed = "se_from_str env json" and i = 1 and pols = pols, unfolded c prod.case fst_conv]
  have "kept_not_lost ?s r" if "verdict ?s r" for r
    using that lost_never_beats
    by (auto simp: verdict_def kept_not_lost_def split: trial_status.splits option.splits)
  with sound have kept: "list_all (kept_not_lost ?s) recs1" by (auto simp: list_all_iff)
  have top: "not_beaten_by (fst best) ?base"
  proof (cases ?s)
    case (Some b)
    with sound obtain t where t: "fst best = Some t" "t = b \<or> beats t b" by (auto split: option.splits)
    then have "\<not> beats b t" using beats_irrefl beats_trans by blast
    with t(1) Some show ?thesis by (simp add: not_beaten_by_def)
  qed (simp add: not_beaten_by_def split: option.split)
  have counts: "status_count TsBaseline rs + status_count TsKept rs + status_count TsDiscarded rs
      + status_count TsFailed rs + status_count TsBlocked rs = length rs" for rs :: "'z trial_record list"
  proof (induction rs)
    case (Cons r rs)
    then show ?case by (cases "tr_status r") (simp_all add: status_count_def)
  qed (simp add: status_count_def)
  obtain su where r: "run_policy_search env path json base pols seed ticks = (?base # recs1, su)"
    and best: "su_best_score su = fst best"
    by (simp add: run_policy_search_def c Let_def)
  have "map tr_policy_name (?base # recs1) = po_name base # map po_name pols"
    using sound build_record_status(4) [of TsBaseline env 0 base seed ticks "se_from_str env json" None] by simp
  moreover have "list_all (not_beaten_by (su_best_score su)) (?base # recs1)" using sound top by (simp add: best)
  ultimately show ?thesis
    unfolding r prod.case list.sel using sound kept counts [of "?base # recs1"] by blast
qed

text \<open>
  C37. No trial ever fails. A run of a scene that reloads after the policy was applied never panics
  within the bound on ticks, so no row has the status failed and the command never exits with 3. Of
  the deserialiser only what the type \<open>BTreeMap\<close> guarantees is assumed.
\<close>

theorem trials_never_fail:
  fixes env :: "('a, 'b, 'c, 'd) search_env"
  assumes "\<And>v r. se_from_value env v = Inr r \<Longrightarrow> raw_wf r" and "MAX_DEMAND_OUTSTANDING * unat ticks < 2 ^ 64"
  shows "list_all (\<lambda>r. tr_status r \<noteq> TsFailed) (fst (run_policy_search env path json base pols seed ticks))
    \<and> fst (cmd_policy_search env read parse_policy emit scene baseline_path paths seed ticks) \<in> {0, 2, 4}"
proof
  have runs: "list_all (\<lambda>r. tr_status r \<noteq> TsFailed) (fst (run_policy_search env path json base pols seed ticks))" for path json base pols
    using candidates_run [OF _ assms(2), of env] assms(1) build_record_runs [OF _ assms(2), of env TsBaseline]
    by (simp add: run_policy_search_def Let_def case_prod_beta)
  then show "list_all (\<lambda>r. tr_status r \<noteq> TsFailed) (fst (run_policy_search env path json base pols seed ticks))" .
  show "fst (cmd_policy_search env read parse_policy emit scene baseline_path paths seed ticks) \<in> {0, 2, 4}"
    using exit_of_no_failure [OF runs] by (auto simp: cmd_policy_search_def Let_def split: option.split)
qed

theorem trials_never_fail_witness:
  "list_all (\<lambda>r. tr_status r \<noteq> TsFailed) (fst (run_policy_search demo_env ''scene'' ''{}'' implicit_baseline [demo_policy] 1 1000))"
proof -
  have "raw_wf r" if "se_from_value demo_env v = Inr r" for v r
    using that raw_demo_wf by (simp add: demo_env_def)
  moreover have "MAX_DEMAND_OUTSTANDING * unat (1000 :: u64) < 2 ^ 64" by (simp add: MAX_DEMAND_OUTSTANDING_def)
  ultimately show ?thesis using trials_never_fail [of demo_env 1000] by blast
qed

text \<open>
  A policy file that does not parse is never a blocked trial: the command stops with exit code 2 before
  the first trial and writes no row at all.
\<close>

lemma load_policies_None:
  "p \<in> set paths \<Longrightarrow> Option.bind (read p) parse_policy = None \<Longrightarrow> load_policies read parse_policy paths = None"
  by (induction paths) (auto split: option.split)

lemma bad_policy_file_aborts:
  assumes "read scene = Some json" and "\<not> isl (se_from_str env json)"
    and "\<not> isl (load_scene_str (se_parse_file env) (se_kind_of env) (se_from_value env) (se_llm_live env)
      (se_from_seed env) json seed)"
    and "p \<in> set paths" and "Option.bind (read p) parse_policy = None"
  shows "cmd_policy_search env read parse_policy emit scene baseline_path paths seed ticks = (2, None)"
  using assms load_policies_None [where p = p and paths = paths and read = read and parse_policy = parse_policy] by (auto simp: cmd_policy_search_def split: option.split)

end
