(* ===== verification/Driver.thy ===== *)
theory Driver
  imports Snapshot Scene_File Agent_Host Tick Hash_Base
begin

text \<open>
  The driver of the desktop application (\<open>src-tauri/src/driver.rs\<close>): the task that owns the
  world, ticks it, and answers the commands of the frontend, and the watcher of the scene file.
  One value of \<open>driver\<close> holds what the task can change: its \<open>SimState\<close>, the counter of ticks
  since the last snapshot, the active scene it shares with the watcher, and the envelopes sent
  to the frontend so far. Timer and commands are a sequence of inputs, in any order. Parameters:
  the loader's and the tick's, the file system at the time of a command, and what a panic
  leaves of the world. When the timer fires is not modelled.
\<close>

unbundle bit_operations_syntax

section \<open>Messages\<close>

datatype wire_message =
    MsgStatic static_payload
  | MsgSnapshot snapshot_payload
  | MsgEvents "sim_event list"
  | MsgOther sim_message

section \<open>The file watcher\<close>

record scene_file_stamp =
  sfs_len :: u64
  sfs_content_hash :: u64

datatype scene_file_observation = Present scene_file_stamp | Unavailable

definition fnv1a64 :: "bytes \<Rightarrow> u64" where
  "fnv1a64 bs = fold (\<lambda>b h. (h XOR ucast b) * 0x100000001b3) bs 0xcbf29ce484222325"

definition observe_scene_file :: "(string \<Rightarrow> bytes option) \<Rightarrow> string \<Rightarrow> scene_file_observation" where
  "observe_scene_file read path = (case read path of
     Some bs \<Rightarrow> Present \<lparr>sfs_len = of_nat (length bs), sfs_content_hash = fnv1a64 bs\<rparr>
   | None \<Rightarrow> Unavailable)"

text \<open>Instants and durations are numbers of milliseconds.\<close>

record pending_file_change =
  pfc_observation :: scene_file_observation
  pfc_deadline :: nat

record debounced_file_watch =
  dw_stable_observation :: scene_file_observation
  dw_pending :: "pending_file_change option"
  dw_debounce :: nat

definition watch_new :: "scene_file_observation \<Rightarrow> nat \<Rightarrow> debounced_file_watch" where
  "watch_new initial debounce =
     \<lparr>dw_stable_observation = initial, dw_pending = None, dw_debounce = debounce\<rparr>"

definition observe :: "scene_file_observation \<Rightarrow> nat \<Rightarrow> debounced_file_watch \<Rightarrow> bool \<times> debounced_file_watch" where
  "observe current now w =
     (if current = dw_stable_observation w then (False, w\<lparr>dw_pending := None\<rparr>)
      else (case dw_pending w of
         Some p \<Rightarrow>
           if pfc_observation p = current \<and> pfc_deadline p \<le> now
           then (True, w\<lparr>dw_stable_observation := current, dw_pending := None\<rparr>)
           else if pfc_observation p = current then (False, w)
           else (False, w\<lparr>dw_pending := Some \<lparr>pfc_observation = current, pfc_deadline = now + dw_debounce w\<rparr>\<rparr>)
       | None \<Rightarrow>
           (False, w\<lparr>dw_pending := Some \<lparr>pfc_observation = current, pfc_deadline = now + dw_debounce w\<rparr>\<rparr>)))"

text \<open>One round of the watcher: follow a switch of the active scene, or look at the file; whether to reload.\<close>

record scene_ref =
  sr_scene_id :: string
  sr_path :: string

record file_watcher =
  fw_scene :: scene_ref
  fw_watch :: debounced_file_watch

definition SCENE_WATCH_DEBOUNCE :: nat where "SCENE_WATCH_DEBOUNCE = 300"

definition watcher_start :: "(string \<Rightarrow> bytes option) \<Rightarrow> scene_ref \<Rightarrow> file_watcher" where
  "watcher_start read scene = \<lparr>fw_scene = scene,
     fw_watch = watch_new (observe_scene_file read (sr_path scene)) SCENE_WATCH_DEBOUNCE\<rparr>"

definition watcher_round ::
  "(string \<Rightarrow> bytes option) \<Rightarrow> scene_ref \<Rightarrow> nat \<Rightarrow> file_watcher \<Rightarrow> bool \<times> file_watcher" where
  "watcher_round read active now w =
     (if active \<noteq> fw_scene w then (False, watcher_start read active)
      else (case observe (observe_scene_file read (sr_path (fw_scene w))) now (fw_watch w) of
         (changed, dw) \<Rightarrow> (changed, w\<lparr>fw_watch := dw\<rparr>)))"

section \<open>Parameters\<close>

record ('v, 'r) driver_env =
  de_parse_file :: "string \<Rightarrow> (nat \<times> nat \<times> string) + 'v raw_scene_file"
  de_kind_of :: "'v \<Rightarrow> json_kind"
  de_from_value :: "'v \<Rightarrow> string + 'v raw_scene"
  de_llm_live :: bool
  de_from_seed :: "u64 \<Rightarrow> 'r"
  de_regex :: regex_engine
  de_row_json :: "agent_log_entry \<Rightarrow> string option"
  de_error_text :: "load_error \<Rightarrow> string"
  de_unwound :: "('r, unit, unit) tick_runner \<Rightarrow> 'r world
    \<Rightarrow> panic_payload \<times> ('r, unit, unit) tick_runner \<times> 'r world"

text \<open>\<open>read_to_string\<close>: the text of a file, or the text of an error.\<close>

type_synonym file_system = "string \<Rightarrow> string + string"

section \<open>Loading a scene\<close>

record scene_meta =
  me_name :: string
  me_theme :: theme
  me_id_map :: id_map
  me_agents :: "agent_spec list"

record 'r scene_load =
  sl_world :: "'r world"
  sl_runner :: "('r, unit, unit) tick_runner"
  sl_meta :: scene_meta
  sl_static_payload :: static_payload

datatype scene_load_failure = ReadFailure string | LoadFailure load_error

definition register_specs ::
  "agent_spec list \<Rightarrow> ('r, unit, unit) tick_runner \<Rightarrow> ('r, unit, unit) tick_runner" where
  "register_specs specs r = fold (\<lambda>spec r. if as_kind spec = ''speed_tuner''
       then register_agent (speed_tuner ''speed_tuner_0'' (as_interval_ticks spec) ()) r else r) specs r"

definition build_scene_load ::
  "('v, 'r) driver_env \<Rightarrow> string \<Rightarrow> u64 \<Rightarrow> load_error + 'r scene_load" where
  "build_scene_load env json seed =
     map_sum id (\<lambda>ls. \<lparr>sl_world = ls_world ls, sl_runner = register_specs (ls_agents ls) runner_new,
         sl_meta = \<lparr>me_name = ls_name ls, me_theme = ls_theme ls, me_id_map = ls_id_map ls,
           me_agents = ls_agents ls\<rparr>,
         sl_static_payload = encode_static ls\<rparr>)
       (load_scene_str (de_parse_file env) (de_kind_of env) (de_from_value env) (de_llm_live env)
          (de_from_seed env) json seed)"

definition load_scene_from_path ::
  "('v, 'r) driver_env \<Rightarrow> file_system \<Rightarrow> string \<Rightarrow> u64 \<Rightarrow> scene_load_failure + 'r scene_load" where
  "load_scene_from_path env fs path seed = (case fs path of
     Inl e \<Rightarrow> Inl (ReadFailure e)
   | Inr json \<Rightarrow> map_sum LoadFailure id (build_scene_load env json seed))"

text \<open>\<open>events.rs\<close>; the text of an error that is not a parse error is a parameter.\<close>

fun load_error_to_fault :: "(load_error \<Rightarrow> string) \<Rightarrow> load_error \<Rightarrow> fault_payload" where
  "load_error_to_fault txt (LeParse line col m) = LoadErrorFault m (Some line) (Some col)"
| "load_error_to_fault txt e = LoadErrorFault (txt e) None None"

section \<open>The state of the task\<close>

record 'r sim_state =
  ss_world :: "'r world"
  ss_runner :: "('r, unit, unit) tick_runner"
  ss_meta :: scene_meta
  ss_snapshot_buf :: snapshot_payload
  ss_last_static :: static_payload
  ss_seq :: u64
  ss_paused :: bool
  ss_speed_factor :: f32_bits

record 'r driver =
  dr_state :: "'r sim_state"
  dr_ticks_since_snapshot :: u64
  dr_active_scene :: scene_ref
  dr_sent :: "wire_message envelope list"

definition with_state :: "('r sim_state \<Rightarrow> 'r sim_state) \<Rightarrow> 'r driver \<Rightarrow> 'r driver" where
  "with_state f d = d\<lparr>dr_state := f (dr_state d)\<rparr>"

text \<open>\<open>emit_sim(app, state.seq, msg)\<close> and the increment that follows every such call.\<close>

definition emit_sim :: "wire_message \<Rightarrow> 'r driver \<Rightarrow> 'r driver" where
  "emit_sim msg d = with_state (\<lambda>s. s\<lparr>ss_seq := ss_seq s + 1\<rparr>)
     (d\<lparr>dr_sent := dr_sent d @ [envelope_new (ss_seq (dr_state d)) msg]\<rparr>)"

text \<open>Encoding the world into the reused buffer, and sending it.\<close>

definition emit_snapshot :: "'r driver \<Rightarrow> 'r driver" where
  "emit_snapshot d = (let d1 = with_state (\<lambda>s. s\<lparr>ss_snapshot_buf :=
       snd (encode_snapshot (ss_world s) (ss_snapshot_buf s))\<rparr>) d
     in emit_sim (MsgSnapshot (ss_snapshot_buf (dr_state d1))) d1)"

definition emit_static :: "'r driver \<Rightarrow> 'r driver" where
  "emit_static d = emit_sim (MsgStatic (ss_last_static (dr_state d))) d"

definition load_failure_message :: "('v, 'r) driver_env \<Rightarrow> scene_load_failure \<Rightarrow> wire_message" where
  "load_failure_message env e = MsgOther (Fault (case e of
     ReadFailure txt \<Rightarrow> EngineFault (''cannot read scene: '' @ txt)
   | LoadFailure le \<Rightarrow> load_error_to_fault (de_error_text env) le))"

definition F32_ONE_TENTH :: f32_bits where "F32_ONE_TENTH = 0x3DCCCCCD"
definition F32_TEN :: f32_bits where "F32_TEN = 0x41200000"

definition clamp_speed_factor :: "f32_bits \<Rightarrow> f32_bits" where
  "clamp_speed_factor factor =
     (if f32_is_finite factor then f32_clamp factor F32_ONE_TENTH F32_TEN else f32_one)"

section \<open>One tick\<close>

definition TICKS_PER_SNAPSHOT :: u64 where "TICKS_PER_SNAPSHOT = 3"

fun driver_panic_message :: "panic_payload \<Rightarrow> string" where
  "driver_panic_message (StrPanic s) = s"
| "driver_panic_message (StringPanic s) = s"
| "driver_panic_message OtherPanic = ''engine panic (unknown payload)''"

text \<open>The branch of a caught panic.\<close>

definition on_panic :: "('v, 'r) driver_env \<Rightarrow> 'r driver \<Rightarrow> 'r driver" where
  "on_panic env d = (case de_unwound env (ss_runner (dr_state d)) (ss_world (dr_state d)) of (p, r, w) \<Rightarrow>
     emit_sim (MsgOther (Fault (EngineFault (driver_panic_message p))))
       (with_state (\<lambda>s. s\<lparr>ss_runner := r, ss_world := w\<lparr>w_state := RsFaulted\<rparr>, ss_paused := True\<rparr>) d))"

text \<open>What is sent after a tick that returned.\<close>

definition send_topology :: "'r driver \<Rightarrow> 'r driver" where
  "send_topology d =
     (if tr_topology_dirty (ss_runner (dr_state d))
      then (emit_snapshot (emit_static (with_state (\<lambda>s. s\<lparr>ss_last_static :=
              encode_static_parts (me_name (ss_meta s)) (me_theme (ss_meta s)) (me_id_map (ss_meta s))
                (ss_world s)\<rparr>) d)))\<lparr>dr_ticks_since_snapshot := 0\<rparr>
      else d)"

fun is_tick_event :: "sim_event \<Rightarrow> bool" where
  "is_tick_event (Tick _) = True"
| "is_tick_event _ = False"

definition send_events :: "'r driver \<Rightarrow> 'r driver" where
  "send_events d = (let evs = tr_events (ss_runner (dr_state d)) in
     if list_ex (\<lambda>e. \<not> is_tick_event e) evs then emit_sim (MsgEvents evs) d else d)"

definition send_messages :: "'r driver \<Rightarrow> 'r driver" where
  "send_messages d = fold (\<lambda>m. emit_sim (MsgOther m)) (tr_messages (ss_runner (dr_state d))) d"

definition send_snapshot :: "'r driver \<Rightarrow> 'r driver" where
  "send_snapshot d = (let n = dr_ticks_since_snapshot d + 1 in
     if TICKS_PER_SNAPSHOT \<le> n then emit_snapshot (d\<lparr>dr_ticks_since_snapshot := 0\<rparr>)
     else d\<lparr>dr_ticks_since_snapshot := n\<rparr>)"

definition tick_and_emit :: "('v, 'r) driver_env \<Rightarrow> 'r driver \<Rightarrow> 'r driver" where
  "tick_and_emit env d =
     (case tick_once (de_regex env) (de_row_json env) (ss_runner (dr_state d)) (ss_world (dr_state d)) of
        None \<Rightarrow> on_panic env d
      | Some (r, w, _) \<Rightarrow>
          send_snapshot (send_messages (send_events (send_topology
            (with_state (\<lambda>s. s\<lparr>ss_runner := r, ss_world := w\<rparr>) d)))))"

section \<open>Commands\<close>

datatype driver_command =
  TogglePause | StepOnce | SetSpeedFactor f32_bits | SetScene scene_ref | Reload | Subscribe

definition set_run_state :: "run_state \<Rightarrow> 'r sim_state \<Rightarrow> 'r sim_state" where
  "set_run_state x s = s\<lparr>ss_world := (ss_world s)\<lparr>w_state := x\<rparr>\<rparr>"

text \<open>A paused world runs again; any other state stays.\<close>

definition resume :: "'r sim_state \<Rightarrow> 'r sim_state" where
  "resume s = (if w_state (ss_world s) = RsPaused then set_run_state RsRunning s else s)"

definition toggle_pause :: "'r sim_state \<Rightarrow> 'r sim_state" where
  "toggle_pause s = (let s1 = s\<lparr>ss_paused := \<not> ss_paused s\<rparr> in
     if ss_paused s1 then set_run_state RsPaused s1 else resume s1)"

definition step_once :: "('v, 'r) driver_env \<Rightarrow> 'r driver \<Rightarrow> 'r driver" where
  "step_once env d =
     (let was_paused = ss_paused (dr_state d);
          d1 = tick_and_emit env (with_state (\<lambda>s. resume (s\<lparr>ss_paused := False\<rparr>)) d)
      in if was_paused then with_state (\<lambda>s. set_run_state RsPaused (s\<lparr>ss_paused := True\<rparr>)) d1 else d1)"

definition apply_scene_load :: "'r scene_load \<Rightarrow> 'r driver \<Rightarrow> 'r driver" where
  "apply_scene_load l d = (with_state (\<lambda>s. s\<lparr>ss_world := sl_world l, ss_runner := sl_runner l,
       ss_meta := sl_meta l, ss_last_static := sl_static_payload l, ss_paused := False\<rparr>) d)
     \<lparr>dr_ticks_since_snapshot := 0\<rparr>"

definition replace_scene ::
  "('v, 'r) driver_env \<Rightarrow> file_system \<Rightarrow> u64 \<Rightarrow> scene_ref \<Rightarrow> 'r driver
    \<Rightarrow> (scene_load_failure + unit) \<times> 'r driver" where
  "replace_scene env fs seed scene d = (case load_scene_from_path env fs (sr_path scene) seed of
     Inl e \<Rightarrow> (Inl e, emit_sim (load_failure_message env e) d)
   | Inr l \<Rightarrow> (Inr (), emit_snapshot (emit_static (apply_scene_load l d))))"

text \<open>The reply is the one sent back to the caller of \<open>SetScene\<close>.\<close>

fun handle_command ::
  "('v, 'r) driver_env \<Rightarrow> u64 \<Rightarrow> file_system \<Rightarrow> driver_command \<Rightarrow> 'r driver
    \<Rightarrow> (scene_load_failure + unit) option \<times> 'r driver" where
  "handle_command env seed fs TogglePause d = (None, with_state toggle_pause d)"
| "handle_command env seed fs StepOnce d = (None, step_once env d)"
| "handle_command env seed fs (SetSpeedFactor x) d =
     (None, with_state (\<lambda>s. s\<lparr>ss_speed_factor := clamp_speed_factor x\<rparr>) d)"
| "handle_command env seed fs Reload d = (None, snd (replace_scene env fs seed (dr_active_scene d) d))"
| "handle_command env seed fs (SetScene scene) d =
     (case replace_scene env fs seed scene d of
        (Inr u, d1) \<Rightarrow> (Some (Inr u), d1\<lparr>dr_active_scene := scene\<rparr>)
      | (Inl e, d1) \<Rightarrow> (Some (Inl e), d1))"
| "handle_command env seed fs Subscribe d = (None, emit_snapshot (emit_static d))"

section \<open>The loop\<close>

text \<open>A command comes with the files as they are when it is handled.\<close>

datatype driver_input = Timer | Command file_system driver_command

fun driver_step :: "('v, 'r) driver_env \<Rightarrow> u64 \<Rightarrow> driver_input \<Rightarrow> 'r driver \<Rightarrow> 'r driver" where
  "driver_step env seed Timer d = (if ss_paused (dr_state d) then d else tick_and_emit env d)"
| "driver_step env seed (Command fs c) d = snd (handle_command env seed fs c d)"

definition load_and_init ::
  "('v, 'r) driver_env \<Rightarrow> file_system \<Rightarrow> scene_ref \<Rightarrow> u64 \<Rightarrow> wire_message + 'r driver" where
  "load_and_init env fs scene seed = (case load_scene_from_path env fs (sr_path scene) seed of
     Inl e \<Rightarrow> Inl (load_failure_message env e)
   | Inr l \<Rightarrow> Inr (emit_snapshot (emit_static
       \<lparr>dr_state = \<lparr>ss_world = sl_world l, ss_runner = sl_runner l, ss_meta = sl_meta l,
          ss_snapshot_buf = snapshot_default, ss_last_static = sl_static_payload l, ss_seq = 0,
          ss_paused = False, ss_speed_factor = f32_one\<rparr>,
        dr_ticks_since_snapshot = 0, dr_active_scene = scene, dr_sent = []\<rparr>)))"

text \<open>
  Until the frontend subscribes, commands are kept; the timer does not exist yet. The loop then
  loads the scene, handles the kept commands in order, and goes on with timer and commands. It
  ends without a world if nobody subscribes or the scene does not load.
\<close>

fun await_subscribe ::
  "driver_input list \<Rightarrow> driver_input list \<Rightarrow> (file_system \<times> driver_input list) option" where
  "await_subscribe early [] = None"
| "await_subscribe early (Timer # xs) = await_subscribe early xs"
| "await_subscribe early (Command fs c # xs) =
     (if c = Subscribe then Some (fs, early @ xs) else await_subscribe (early @ [Command fs c]) xs)"

definition driver_loop ::
  "('v, 'r) driver_env \<Rightarrow> u64 \<Rightarrow> scene_ref \<Rightarrow> driver_input list \<Rightarrow> 'r driver option" where
  "driver_loop env seed initial xs = (case await_subscribe [] xs of
     None \<Rightarrow> None
   | Some (fs, rest) \<Rightarrow> (case load_and_init env fs initial seed of
       Inl _ \<Rightarrow> None
     | Inr d \<Rightarrow> Some (fold (driver_step env seed) rest d)))"

end
