(* ===== verification/Driver_Properties.thy ===== *)
theory Driver_Properties
  imports Driver Snapshot_Proofs Scene_File_Properties Policy_Search_Properties
begin

text \<open>
  What a session of the driver keeps, whatever the order of timer and commands: the numbers of
  the envelopes, the scene the frontend knows, the age of the last snapshot, and that the next
  tick returns. What a failed load leaves alone, what a paused step does, and what becomes of a
  faulted world. The debouncing of the file watcher.
\<close>

section \<open>Sessions\<close>

text \<open>
  A property of the driver's state that may mention the number of inputs handled, up to a bound.
\<close>

locale session_invariant =
  fixes env :: "('v, 'r) driver_env" and seed :: u64 and bound :: nat
    and holds :: "nat \<Rightarrow> 'r driver \<Rightarrow> bool"
  assumes starts: "load_and_init env fs scene seed = Inr d \<Longrightarrow> holds 0 d"
    and steps: "holds n d \<Longrightarrow> n < bound \<Longrightarrow> holds (Suc n) (driver_step env seed x d)"
begin

lemma fold_steps: "holds n d \<Longrightarrow> n + length xs \<le> bound \<Longrightarrow> holds (n + length xs) (fold (driver_step env seed) xs d)"
proof (induction xs arbitrary: n d)
  case (Cons x xs)
  have "holds (Suc n) (driver_step env seed x d)" using Cons.prems by (intro steps) auto
  with Cons.IH [of "Suc n"] Cons.prems(2) show ?case by simp
qed simp

lemma session:
  assumes "driver_loop env seed scene xs = Some d" and "length xs \<le> bound"
  shows "\<exists>n \<le> length xs. holds n d"
proof -
  have len: "length rest \<le> length early + length xs" if "await_subscribe early xs = Some (fs, rest)" for early fs rest
    using that by (induction early xs rule: await_subscribe.induct) (auto split: if_splits)
  obtain fs rest d0 where a: "await_subscribe [] xs = Some (fs, rest)" and i: "load_and_init env fs scene seed = Inr d0"
    and d: "d = fold (driver_step env seed) rest d0"
    using assms(1) by (auto simp: driver_loop_def split: option.splits sum.splits)
  from len [OF a] have "length rest \<le> length xs" by simp
  with fold_steps [OF starts [OF i], of rest] assms(2) show ?thesis unfolding d by auto
qed

end

section \<open>The parts of the state\<close>

lemma with_state_parts [simp]:
  "dr_state (with_state f d) = f (dr_state d)"
  "dr_ticks_since_snapshot (with_state f d) = dr_ticks_since_snapshot d"
  "dr_active_scene (with_state f d) = dr_active_scene d" "dr_sent (with_state f d) = dr_sent d"
  by (simp_all add: with_state_def)

lemma emit_sim_parts [simp]:
  "dr_state (emit_sim m d) = (dr_state d)\<lparr>ss_seq := ss_seq (dr_state d) + 1\<rparr>"
  "dr_ticks_since_snapshot (emit_sim m d) = dr_ticks_since_snapshot d"
  "dr_active_scene (emit_sim m d) = dr_active_scene d"
  "dr_sent (emit_sim m d) = dr_sent d @ [envelope_new (ss_seq (dr_state d)) m]"
  by (simp_all add: emit_sim_def)

lemma resume_parts [simp]:
  "ss_seq (resume s) = ss_seq s" "ss_meta (resume s) = ss_meta s" "ss_last_static (resume s) = ss_last_static s"
  "ss_runner (resume s) = ss_runner s" "ss_snapshot_buf (resume s) = ss_snapshot_buf s"
  "ss_paused (resume s) = ss_paused s" "ss_speed_factor (resume s) = ss_speed_factor s"
  by (simp_all add: resume_def set_run_state_def)

lemma toggle_parts [simp]:
  "ss_seq (toggle_pause s) = ss_seq s" "ss_meta (toggle_pause s) = ss_meta s"
  "ss_last_static (toggle_pause s) = ss_last_static s" "ss_runner (toggle_pause s) = ss_runner s"
  "ss_snapshot_buf (toggle_pause s) = ss_snapshot_buf s"
  by (simp_all add: toggle_pause_def set_run_state_def Let_def)

lemma set_scene_result:
  "snd (handle_command env seed fs (SetScene scene) d) =
     (let (r, d1) = replace_scene env fs seed scene d in if isl r then d1 else d1\<lparr>dr_active_scene := scene\<rparr>)"
  by (auto split: prod.split sum.split)

section \<open>The numbers of the envelopes\<close>

definition numbered :: "'r driver \<Rightarrow> bool" where
  "numbered d \<longleftrightarrow> map env_seq (dr_sent d) = map of_nat [0 ..< length (dr_sent d)]
     \<and> ss_seq (dr_state d) = of_nat (length (dr_sent d))"

lemma numbered_emit: "numbered d \<Longrightarrow> numbered (emit_sim m d)"
  by (simp add: numbered_def envelope_new_def)

lemma numbered_with_state: "(\<And>s. ss_seq (f s) = ss_seq s) \<Longrightarrow> numbered (with_state f d) = numbered d"
  by (simp add: numbered_def)

lemma numbered_count [simp]:
  "numbered (d\<lparr>dr_ticks_since_snapshot := n\<rparr>) = numbered d" "numbered (d\<lparr>dr_active_scene := a\<rparr>) = numbered d"
  by (simp_all add: numbered_def)

lemmas numbered_state = numbered_with_state [THEN iffD2]

lemma numbered_payloads:
  assumes "numbered d"
  shows "numbered (emit_snapshot d)" "numbered (emit_static d)"
  using assms by (simp_all add: emit_snapshot_def emit_static_def Let_def numbered_emit numbered_with_state)

lemma numbered_messages: "numbered d \<Longrightarrow> numbered (send_messages d)"
proof -
  have "numbered d \<Longrightarrow> numbered (fold (\<lambda>m. emit_sim (MsgOther m)) ms d)" for ms
    by (induction ms arbitrary: d) (simp_all add: numbered_emit)
  then show "numbered d \<Longrightarrow> numbered (send_messages d)" by (simp add: send_messages_def)
qed

lemma numbered_sends:
  assumes "numbered d"
  shows "numbered (send_events d)" "numbered (send_snapshot d)" "numbered (send_topology d)"
  using assms
  by (simp_all add: send_events_def send_snapshot_def send_topology_def Let_def numbered_emit
      numbered_payloads numbered_with_state)

lemma numbered_tick: "numbered d \<Longrightarrow> numbered (tick_and_emit env d)"
  by (auto simp: tick_and_emit_def on_panic_def numbered_with_state
      intro!: numbered_emit numbered_sends numbered_messages split: option.split prod.split)

lemma numbered_replace: "numbered d \<Longrightarrow> numbered (snd (replace_scene env fs seed scene d))"
  by (auto simp: replace_scene_def apply_scene_load_def numbered_with_state
      intro!: numbered_emit numbered_payloads split: sum.split)

lemma numbered_step: "numbered d \<Longrightarrow> numbered (driver_step env seed x d)"
proof (cases x)
  case (Command fs c)
  assume "numbered d"
  then show ?thesis unfolding Command
    by (cases c) (auto simp: set_scene_result step_once_def Let_def case_prod_beta numbered_with_state
        set_run_state_def intro!: numbered_tick numbered_replace numbered_payloads
        simp del: handle_command.simps(5))
qed (simp add: numbered_tick)

interpretation numbering: session_invariant env seed bound "\<lambda>_. numbered" for env seed bound
proof
  show "numbered d" if "load_and_init env fs scene seed = Inr d" for fs scene d
    using that by (auto simp: load_and_init_def numbered_def split: sum.splits
        intro!: numbered_payloads [unfolded numbered_def])
qed (rule numbered_step)

section \<open>Ticks, one at a time\<close>

definition env_ok :: "('v, 'r) driver_env \<Rightarrow> bool" where
  "env_ok env \<longleftrightarrow> (\<forall>v r. de_from_value env v = Inr r \<longrightarrow> raw_wf r)"

text \<open>A world that came from a loaded scene by at most \<open>n\<close> ticks.\<close>

definition runs_ok :: "nat \<Rightarrow> 'r world \<Rightarrow> bool" where
  "runs_ok n w \<longleftrightarrow> world_wf w \<and> (w_sl1 w = None
     \<or> (\<exists>sc k r. scene_ok sc \<and> w_sl1 w = Some sc \<and> w_sl1_runtime w = Some r \<and> k \<le> n
          \<and> sl1_ticks sc k (sl1_start sc) = Some (pw_tick w, r)))"

lemma runs_ok_state [simp]: "runs_ok n (w\<lparr>w_state := x\<rparr>) = runs_ok n w"
  by (simp add: runs_ok_def wf_state_update)

lemma runs_ok_mono: "runs_ok m w \<Longrightarrow> m \<le> n \<Longrightarrow> runs_ok n w"
  unfolding runs_ok_def using le_trans by blast

lemma runs_ok_tick:
  assumes "runs_ok n w" and fits: "MAX_DEMAND_OUTSTANDING * Suc n < 2 ^ 64"
  shows "\<exists>r' w' m. tick_once rx js r w = Some (r', w', m) \<and> runs_ok (Suc n) w'"
proof (cases "w_sl1 w = None \<or> frozen w")
  case True
  show ?thesis
  proof (cases "frozen w")
    case True
    then show ?thesis using runs_ok_mono [OF assms(1), of "Suc n"] by (simp add: tick_once_frozen)
  next
    case False
    with True have none: "w_sl1 w = None" by simp
    have wf: "world_wf w" using assms(1) by (simp add: runs_ok_def)
    obtain r' w' m where "tick_once rx js r w = Some (r', w', m)" "world_wf w'" "w_sl1 w' = None"
      by (rule tick_once_no_sl1 [OF wf none])
    then show ?thesis by (auto simp: runs_ok_def)
  qed
next
  case False
  with assms(1) obtain sc k r0 where sc: "world_wf w" "scene_ok sc" "w_sl1 w = Some sc" "w_sl1_runtime w = Some r0"
    and k: "k \<le> n" "sl1_ticks sc k (sl1_start sc) = Some (pw_tick w, r0)"
    by (auto simp: runs_ok_def)
  have "MAX_DEMAND_OUTSTANDING * Suc k < 2 ^ 64"
    using fits k(1) by (meson Suc_le_mono le_less_trans mult_le_mono2)
  from sl1_ticks_inv [OF sc(2) this] k(2) obtain now r2 where
    t: "sl1_ticks sc (Suc k) (sl1_start sc) = Some (now, r2)" "sl1_tick sc (pw_tick w, r0) = Some (now, r2)"
    by auto
  obtain r' w' m where "tick_once rx js r w = Some (r', w', m)" "world_wf w'" "w_sl1 w' = Some sc"
    "w_sl1_runtime w' = Some r2" "pw_tick w' = now"
    using False by (auto intro: tick_once_sl1 [OF sc(1) _ sc(3,4) t(2)])
  with sc(2) t(1) k(1) show ?thesis
    unfolding runs_ok_def by (intro exI [of _ r'] exI [of _ w'] exI [of _ m]) (auto simp del: sl1_ticks.simps)
qed

lemma runs_ok_fresh: "fresh_world w \<Longrightarrow> runs_ok 0 w"
  by (auto simp: fresh_world_def runs_ok_def sl1_start_def)

lemma tick_once_clock:
  assumes "world_wf w" and "tick_once rx js r w = Some (r', w', m)"
  shows "pw_tick w' = pw_tick w \<or> pw_tick w' = sat_add (pw_tick w) 1"
proof (cases "frozen w")
  case True
  then show ?thesis using assms(2) by (simp add: tick_once_frozen)
next
  case False
  obtain hosts st arrivals where e: "early_half rx js r w = (hosts, st, arrivals)" by (metis prod.exhaust)
  from early_half_phase [OF assms(1) e] have "pw_tick (tu_world st) = sat_add (pw_tick w) 1"
    by (simp add: phase_ok_def same_sl1_def begin_tick_def)
  then show ?thesis using assms(2)
    by (auto simp: tick_once_halves [OF False e] sl1_half_def split: option.splits)
qed

section \<open>A tick that is not dirty keeps the static payload\<close>

definition same_map :: "'r world \<Rightarrow> 'r world \<Rightarrow> bool" where
  "same_map w w' \<longleftrightarrow> w_nodes w' = w_nodes w \<and> w_paths w' = w_paths w"

lemma same_map_trans: "same_map u v \<Longrightarrow> same_map v w \<Longrightarrow> same_map u w"
  by (simp add: same_map_def)

lemma action_keeps_map:
  assumes "apply_world_action agent a st = (st', out)" and "out = Applied \<longrightarrow> \<not> action_changes_topology a"
  shows "same_map (fst st) (fst st')"
  using assms
  by (cases a; cases st)
    (auto simp: same_map_def set_speed_def define_resource_def add_producer_def add_consumer_def set_goal_def
      place_piece_def connect_pieces_def remove_piece_def invalid_def Let_def
      split: option.splits if_splits sum.splits)

lemma turn_act_map:
  assumes "\<not> tu_dirty (turn_act agent chosen st)"
  shows "\<not> tu_dirty st \<and> same_map (tu_world st) (tu_world (turn_act agent chosen st))"
proof (cases chosen)
  case (Some a)
  obtain w ev out where r: "apply_world_action agent a (tu_world st, tu_events st) = ((w, ev), out)"
    by (metis prod.exhaust)
  from action_keeps_map [OF r] assms Some r show ?thesis by (auto simp: turn_act_def)
qed (use assms in \<open>simp add: turn_act_def same_map_def\<close>)

lemma turn_log_dirty [simp]: "tu_dirty (turn_log rx js agent ob report st) = tu_dirty st"
  by (simp add: turn_log_def case_prod_beta split: option.split)

lemma agent_turn_map:
  assumes "\<not> tu_dirty (snd (agent_turn rx js tick h st))"
  shows "\<not> tu_dirty st \<and> same_map (tu_world st) (tu_world (snd (agent_turn rx js tick h st)))"
  using assms turn_act_map
  by (auto simp: agent_turn_def Let_def same_map_def split: prod.splits sum.splits if_splits)

lemma run_agents_map:
  "\<not> tu_dirty (snd (run_agents rx js tick hs st))
    \<Longrightarrow> \<not> tu_dirty st \<and> same_map (tu_world st) (tu_world (snd (run_agents rx js tick hs st)))"
proof (induction hs arbitrary: st)
  case (Cons h hs)
  let ?t = "agent_turn rx js tick h st"
  from Cons.prems have "\<not> tu_dirty (snd (run_agents rx js tick hs (snd ?t)))" by (simp add: case_prod_beta)
  from Cons.IH [OF this] agent_turn_map [of rx js tick h st] show ?case
    by (auto simp: case_prod_beta intro: same_map_trans)
qed (simp add: same_map_def)

lemma early_half_map:
  assumes "world_wf w" and e: "early_half rx js r w = (hosts, st, arrivals)" and clean: "\<not> tu_dirty st"
  shows "same_map w (tu_world st)"
proof -
  obtain w0 ev0 where l: "lifecycle_run (begin_tick w, []) = (w0, ev0)" by (metis prod.exhaust)
  obtain w1 ev1 n where m: "movement_run (w0, ev0) = ((w1, ev1), n)" by (metis prod.exhaust)
  obtain hs st1 where a: "run_agents rx js (pw_tick w1) (tr_hosts r)
      \<lparr>tu_world = w1, tu_events = ev1, tu_messages = [], tu_log = tr_agent_log r, tu_dirty = False\<rparr> = (hs, st1)"
    by (metis prod.exhaust)
  obtain w2 ev2 where i: "interaction_run (tu_world st1, tu_events st1) = (w2, ev2)" by (metis prod.exhaust)
  have st: "tu_world st = fst (production_run w2)" "tu_dirty st = tu_dirty st1"
    using e by (auto simp: early_half_def l m a i)
  have wf: "world_wf (begin_tick w)" by (rule begin_tick_wf [OF assms(1)])
  have 0: "same_map w (begin_tick w)" by (simp add: same_map_def begin_tick_def)
  have 1: "same_map (begin_tick w) w0" "world_wf w0"
    using spawning.keeps_rest [OF wf, of "[]"] movers_phase(1) [OF wf, of "[]"]
    by (auto simp: l same_map_def phase_ok_def)
  have 2: "same_map w0 w1" "world_wf w1"
    using landing.keeps_rest [OF 1(2), of ev0] movers_phase(2) [OF 1(2), of ev0]
    by (auto simp: m same_map_def phase_ok_def)
  have 3: "same_map w1 (tu_world st1)" "world_wf (tu_world st1)"
    using run_agents_map [of rx js "pw_tick w1" "tr_hosts r"] run_agents_phase [of _ rx js "pw_tick w1" "tr_hosts r"]
      clean st(2) 2(2) a by (metis phase_ok_def snd_conv turn_state.select_convs(1))+
  have 4: "same_map (tu_world st1) w2"
    using routing.keeps_rest [OF 3(2), of "tu_events st1"] by (auto simp: i same_map_def)
  have frame: "fst (production_run w2) = w2\<lparr>pw_inventory := pw_inventory (fst (production_run w2))\<rparr>"
    by (rule production_run_frame)
  have 5: "same_map w2 (fst (production_run w2))" unfolding same_map_def by (subst (1 2) frame, simp)
  show ?thesis unfolding st(1) using 0 1(1) 2(1) 3(1) 4 5 by (meson same_map_trans)
qed

lemma tick_once_map:
  assumes "world_wf w" and t: "tick_once rx js r w = Some (r', w', m)" and "\<not> tr_topology_dirty r'"
  shows "same_map w w' \<and> w_sl1 w' = w_sl1 w"
proof (cases "frozen w")
  case True
  then show ?thesis using t by (simp add: tick_once_frozen same_map_def)
next
  case False
  obtain hosts st arrivals where e: "early_half rx js r w = (hosts, st, arrivals)" by (metis prod.exhaust)
  from t have "\<not> tu_dirty st" "w_nodes w' = w_nodes (tu_world st)" "w_paths w' = w_paths (tu_world st)"
    "w_sl1 w' = w_sl1 (tu_world st)"
    using assms(3) by (auto simp: tick_once_halves [OF False e] sl1_half_def split: option.splits)
  with early_half_map [OF assms(1) e] early_half_phase [OF assms(1) e] show ?thesis
    by (simp add: same_map_def phase_ok_def same_sl1_def begin_tick_def)
qed

lemma same_map_static:
  assumes "same_map w w'" and "w_sl1 w' = w_sl1 w"
  shows "encode_static_parts name th ids w' = encode_static_parts name th ids w"
proof -
  have "path_to_view w' = path_to_view w" using assms by (auto simp: fun_eq_iff path_to_view_def same_map_def)
  then show ?thesis using assms
    by (simp add: encode_static_parts_def same_map_def node_name_map_def path_name_map_def Let_def)
qed

section \<open>What the frontend knows\<close>

text \<open>The last static payload and the tick of the last snapshot among the envelopes sent.\<close>

definition shown_static :: "wire_message envelope list \<Rightarrow> static_payload option" where
  "shown_static es = fold (\<lambda>e s. case env_payload e of MsgStatic p \<Rightarrow> Some p | _ \<Rightarrow> s) es None"

definition shown_tick :: "wire_message envelope list \<Rightarrow> u64 option" where
  "shown_tick es = fold (\<lambda>e t. case env_payload e of MsgSnapshot p \<Rightarrow> Some (sn_tick p) | _ \<Rightarrow> t) es None"

lemma shown_snoc [simp]:
  "shown_static (es @ [envelope_new n m]) = (case m of MsgStatic p \<Rightarrow> Some p | _ \<Rightarrow> shown_static es)"
  "shown_tick (es @ [envelope_new n m]) = (case m of MsgSnapshot p \<Rightarrow> Some (sn_tick p) | _ \<Rightarrow> shown_tick es)"
  by (simp_all add: shown_static_def shown_tick_def envelope_new_def split: wire_message.split)

definition scene_static :: "'r sim_state \<Rightarrow> static_payload" where
  "scene_static s = encode_static_parts (me_name (ss_meta s)) (me_theme (ss_meta s)) (me_id_map (ss_meta s)) (ss_world s)"

definition static_current :: "'r driver \<Rightarrow> bool" where
  "static_current d \<longleftrightarrow> shown_static (dr_sent d) = Some (ss_last_static (dr_state d))
     \<and> ss_last_static (dr_state d) = scene_static (dr_state d)"

text \<open>The last snapshot sent is at most the counted ticks and \<open>k\<close> more behind the world.\<close>

definition snapshot_within :: "nat \<Rightarrow> 'r driver \<Rightarrow> bool" where
  "snapshot_within k d \<longleftrightarrow> (\<exists>t. shown_tick (dr_sent d) = Some t \<and> t \<le> pw_tick (ss_world (dr_state d))
     \<and> unat (pw_tick (ss_world (dr_state d))) \<le> unat t + unat (dr_ticks_since_snapshot d) + k)"

definition session_sound :: "nat \<Rightarrow> 'r driver \<Rightarrow> bool" where
  "session_sound n d \<longleftrightarrow> runs_ok n (ss_world (dr_state d)) \<and> static_current d \<and> snapshot_within 0 d
     \<and> dr_ticks_since_snapshot d < TICKS_PER_SNAPSHOT"

lemma encode_snapshot_tick [simp]: "sn_tick (snd (encode_snapshot w out)) = pw_tick w"
  by (simp add: encode_snapshot_def clear_snapshot_def push_runtime_def Let_def split: option.split)

lemma emit_snapshot_parts [simp]:
  "ss_world (dr_state (emit_snapshot d)) = ss_world (dr_state d)"
  "ss_meta (dr_state (emit_snapshot d)) = ss_meta (dr_state d)"
  "ss_runner (dr_state (emit_snapshot d)) = ss_runner (dr_state d)"
  "ss_paused (dr_state (emit_snapshot d)) = ss_paused (dr_state d)"
  "ss_last_static (dr_state (emit_snapshot d)) = ss_last_static (dr_state d)"
  "dr_ticks_since_snapshot (emit_snapshot d) = dr_ticks_since_snapshot d"
  "dr_active_scene (emit_snapshot d) = dr_active_scene d"
  "shown_static (dr_sent (emit_snapshot d)) = shown_static (dr_sent d)"
  "shown_tick (dr_sent (emit_snapshot d)) = Some (pw_tick (ss_world (dr_state d)))"
  by (simp_all add: emit_snapshot_def Let_def)

lemma emit_static_parts [simp]:
  "ss_world (dr_state (emit_static d)) = ss_world (dr_state d)"
  "ss_meta (dr_state (emit_static d)) = ss_meta (dr_state d)"
  "ss_runner (dr_state (emit_static d)) = ss_runner (dr_state d)"
  "ss_paused (dr_state (emit_static d)) = ss_paused (dr_state d)"
  "ss_last_static (dr_state (emit_static d)) = ss_last_static (dr_state d)"
  "dr_ticks_since_snapshot (emit_static d) = dr_ticks_since_snapshot d"
  "dr_active_scene (emit_static d) = dr_active_scene d"
  "shown_static (dr_sent (emit_static d)) = Some (ss_last_static (dr_state d))"
  "shown_tick (dr_sent (emit_static d)) = shown_tick (dr_sent d)"
  by (simp_all add: emit_static_def)

lemmas view_defs = static_current_def snapshot_within_def scene_static_def

text \<open>Fresh payloads for the world make everything current.\<close>

lemma payloads_current:
  "ss_last_static (dr_state d) = scene_static (dr_state d)
    \<Longrightarrow> static_current (emit_snapshot (emit_static d)) \<and> snapshot_within 0 (emit_snapshot (emit_static d))"
  by (simp add: view_defs)

lemma send_topology_keeps:
  assumes "tr_topology_dirty (ss_runner (dr_state d)) \<or> static_current d" and "snapshot_within 1 d"
    and "dr_ticks_since_snapshot d < TICKS_PER_SNAPSHOT"
  shows "static_current (send_topology d)" "snapshot_within 1 (send_topology d)"
    "dr_ticks_since_snapshot (send_topology d) < TICKS_PER_SNAPSHOT"
    "ss_world (dr_state (send_topology d)) = ss_world (dr_state d)"
  using assms by (auto simp: send_topology_def view_defs TICKS_PER_SNAPSHOT_def)

text \<open>Events and reports change nothing of this.\<close>

definition same_view :: "'r driver \<Rightarrow> 'r driver \<Rightarrow> bool" where
  "same_view d d' \<longleftrightarrow> shown_static (dr_sent d') = shown_static (dr_sent d) \<and> shown_tick (dr_sent d') = shown_tick (dr_sent d)
     \<and> (\<exists>n. dr_state d' = (dr_state d)\<lparr>ss_seq := n\<rparr>)
     \<and> dr_ticks_since_snapshot d' = dr_ticks_since_snapshot d"

lemma same_viewD:
  assumes "same_view d d'"
  shows "static_current d' = static_current d" "snapshot_within k d' = snapshot_within k d"
    "dr_ticks_since_snapshot d' = dr_ticks_since_snapshot d" "ss_world (dr_state d') = ss_world (dr_state d)"
proof -
  obtain n where s: "dr_state d' = (dr_state d)\<lparr>ss_seq := n\<rparr>" using assms by (auto simp: same_view_def)
  then have "ss_world (dr_state d') = ss_world (dr_state d)" "ss_meta (dr_state d') = ss_meta (dr_state d)"
    "ss_last_static (dr_state d') = ss_last_static (dr_state d)" by simp_all
  then show "static_current d' = static_current d" "snapshot_within k d' = snapshot_within k d"
    "dr_ticks_since_snapshot d' = dr_ticks_since_snapshot d" "ss_world (dr_state d') = ss_world (dr_state d)"
    using assms by (simp_all add: view_defs same_view_def)
qed

lemma same_view_trans: "same_view c d \<Longrightarrow> same_view d e \<Longrightarrow> same_view c e"
  by (auto simp: same_view_def)

lemma same_view_sends: "same_view d (send_messages (send_events d))"
proof -
  have one: "same_view d (emit_sim m d)" if "\<forall>p. m \<noteq> MsgStatic p" "\<forall>p. m \<noteq> MsgSnapshot p"
    for m and d :: "'a driver"
    using that by (cases m) (auto simp: same_view_def)
  have refl: "same_view d d" for d :: "'a driver"
    by (auto simp: same_view_def intro: exI [of _ "ss_seq (dr_state d)"])
  have "same_view d (fold (\<lambda>m. emit_sim (MsgOther m)) ms d)" for ms and d :: "'a driver"
    by (induction ms arbitrary: d) (auto simp: refl intro: same_view_trans [OF one])
  then have "same_view (send_events d) (send_messages (send_events d))" by (simp add: send_messages_def)
  moreover have "same_view d (send_events d)" by (simp add: send_events_def Let_def refl one)
  ultimately show ?thesis by (blast intro: same_view_trans)
qed

lemma send_snapshot_keeps:
  assumes "static_current d" and "snapshot_within 1 d" and "dr_ticks_since_snapshot d < TICKS_PER_SNAPSHOT"
  shows "static_current (send_snapshot d)" "snapshot_within 0 (send_snapshot d)"
    "dr_ticks_since_snapshot (send_snapshot d) < TICKS_PER_SNAPSHOT"
    "ss_world (dr_state (send_snapshot d)) = ss_world (dr_state d)"
proof -
  have "unat (dr_ticks_since_snapshot d + 1) = unat (dr_ticks_since_snapshot d) + 1"
    using assms(3) by (simp add: TICKS_PER_SNAPSHOT_def unat_word_ariths word_less_nat_alt)
  then show "static_current (send_snapshot d)" "snapshot_within 0 (send_snapshot d)"
    "dr_ticks_since_snapshot (send_snapshot d) < TICKS_PER_SNAPSHOT"
    "ss_world (dr_state (send_snapshot d)) = ss_world (dr_state d)"
    using assms by (auto simp: send_snapshot_def Let_def view_defs TICKS_PER_SNAPSHOT_def not_le)
qed

lemma tick_and_emit_sound:
  assumes "session_sound n d" and fits: "MAX_DEMAND_OUTSTANDING * Suc n < 2 ^ 64"
  shows "session_sound (Suc n) (tick_and_emit env d)"
proof -
  let ?s = "dr_state d"
  from assms(1) have d: "runs_ok n (ss_world ?s)" "static_current d" "snapshot_within 0 d"
    "dr_ticks_since_snapshot d < TICKS_PER_SNAPSHOT" by (simp_all add: session_sound_def)
  from runs_ok_tick [OF d(1) fits] obtain r w m where
    t: "tick_once (de_regex env) (de_row_json env) (ss_runner ?s) (ss_world ?s) = Some (r, w, m)" "runs_ok (Suc n) w"
    by blast
  have wf: "world_wf (ss_world ?s)" using d(1) by (simp add: runs_ok_def)
  define d1 where "d1 = with_state (\<lambda>s. s\<lparr>ss_runner := r, ss_world := w\<rparr>) d"
  have w1: "ss_world (dr_state d1) = w" "dr_ticks_since_snapshot d1 = dr_ticks_since_snapshot d" by (simp_all add: d1_def)
  have "tr_topology_dirty (ss_runner (dr_state d1)) \<or> static_current d1"
  proof (cases "tr_topology_dirty r")
    case False
    from tick_once_map [OF wf t(1) False] same_map_static
    have "encode_static_parts x th ids w = encode_static_parts x th ids (ss_world ?s)" for x th ids by metis
    with d(2) show ?thesis by (simp add: d1_def view_defs)
  qed (simp add: d1_def)
  moreover have "snapshot_within 1 d1"
  proof -
    obtain x where x: "shown_tick (dr_sent d) = Some x" "x \<le> pw_tick (ss_world ?s)"
      "unat (pw_tick (ss_world ?s)) \<le> unat x + unat (dr_ticks_since_snapshot d)"
      using d(3) by (auto simp: snapshot_within_def)
    have "pw_tick (ss_world ?s) \<le> pw_tick w \<and> unat (pw_tick w) \<le> unat (pw_tick (ss_world ?s)) + 1"
      using tick_once_clock [OF wf t(1)] le_sat_add by (auto simp: unat_sat_add)
    with x show ?thesis unfolding snapshot_within_def by (simp add: d1_def) (meson add_le_mono1 le_trans order_trans)
  qed
  ultimately have 1: "static_current (send_topology d1)" "snapshot_within 1 (send_topology d1)"
    "dr_ticks_since_snapshot (send_topology d1) < TICKS_PER_SNAPSHOT" "ss_world (dr_state (send_topology d1)) = w"
    using send_topology_keeps [of d1] d(4) by (simp_all add: w1)
  note v = same_viewD [OF same_view_sends [of "send_topology d1"]]
  have "session_sound (Suc n) (send_snapshot (send_messages (send_events (send_topology d1))))"
    using send_snapshot_keeps [of "send_messages (send_events (send_topology d1))"] 1 t(2)
    by (simp add: session_sound_def v)
  then show ?thesis by (simp add: tick_and_emit_def t(1) d1_def)
qed

text \<open>Pausing and the other commands.\<close>

lemma same_session:
  assumes "session_sound n d" and "m \<ge> n"
    and "runs_ok n (ss_world (dr_state d')) = runs_ok n (ss_world (dr_state d))"
    and "scene_static (dr_state d') = scene_static (dr_state d)"
    and "ss_last_static (dr_state d') = ss_last_static (dr_state d)" "dr_sent d' = dr_sent d"
    and "pw_tick (ss_world (dr_state d')) = pw_tick (ss_world (dr_state d))"
    and "dr_ticks_since_snapshot d' = dr_ticks_since_snapshot d"
  shows "session_sound m d'"
  using assms runs_ok_mono [OF _ assms(2)]
  by (auto simp: session_sound_def static_current_def snapshot_within_def)

lemma static_state [simp]: "encode_static_parts x th ids (w\<lparr>w_state := y\<rparr>) = encode_static_parts x th ids w"
  by (rule same_map_static) (simp_all add: same_map_def)

lemma toggle_sound: "session_sound n d \<Longrightarrow> session_sound (Suc n) (with_state toggle_pause d)"
  by (rule same_session)
    (auto simp: toggle_pause_def resume_def set_run_state_def Let_def scene_static_def)

lemma step_sound:
  assumes "session_sound n d" and "MAX_DEMAND_OUTSTANDING * Suc n < 2 ^ 64"
  shows "session_sound (Suc n) (step_once env d)"
proof -
  let ?d = "with_state (\<lambda>s. resume (s\<lparr>ss_paused := False\<rparr>)) d"
  have "session_sound n ?d" using assms(1)
    by (rule same_session) (auto simp: resume_def set_run_state_def scene_static_def)
  from tick_and_emit_sound [OF this assms(2)] have 1: "session_sound (Suc n) (tick_and_emit env ?d)" .
  moreover from 1 have "session_sound (Suc n) (with_state (\<lambda>s. set_run_state RsPaused (s\<lparr>ss_paused := True\<rparr>)) (tick_and_emit env ?d))"
    by (rule same_session) (auto simp: set_run_state_def scene_static_def)
  ultimately show ?thesis by (simp add: step_once_def Let_def)
qed

lemma payloads_sound:
  assumes "runs_ok n (ss_world (dr_state d))" and "ss_last_static (dr_state d) = scene_static (dr_state d)"
    and "dr_ticks_since_snapshot d < TICKS_PER_SNAPSHOT" and "n \<le> m"
  shows "session_sound m (emit_snapshot (emit_static d))"
  using payloads_current [OF assms(2)] assms(1,3) runs_ok_mono [OF _ assms(4)] by (simp add: session_sound_def)

lemma map_sum_Inr: "map_sum f g x = Inr y \<longleftrightarrow> (\<exists>z. x = Inr z \<and> y = g z)"
  by (cases x) auto

text \<open>A scene that loads is sound, and its static payload is the one of its world.\<close>

lemma loaded_parts:
  assumes "env_ok env" and "load_scene_from_path env fs path seed = Inr l"
  shows "runs_ok 0 (sl_world l)"
    and "sl_static_payload l = encode_static_parts (me_name (sl_meta l)) (me_theme (sl_meta l))
           (me_id_map (sl_meta l)) (sl_world l)"
proof -
  obtain json ls raw where v: "validate_scene_file (de_kind_of env) (de_from_value env) (de_llm_live env)
        (de_from_seed env) raw seed = Inr ls"
    and l: "sl_world l = ls_world ls" "sl_static_payload l = encode_static ls"
      "sl_meta l = \<lparr>me_name = ls_name ls, me_theme = ls_theme ls, me_id_map = ls_id_map ls, me_agents = ls_agents ls\<rparr>"
    using assms(2) by (auto simp: load_scene_from_path_def build_scene_load_def load_scene_str_def load_simps
        map_sum_Inr split: sum.splits)
  have "fresh_world (ls_world ls)"
    by (rule accepted_file_world [OF v]) (use assms(1) in \<open>simp add: env_ok_def\<close>)
  then show "runs_ok 0 (sl_world l)" by (simp add: l runs_ok_fresh)
  show "sl_static_payload l = encode_static_parts (me_name (sl_meta l)) (me_theme (sl_meta l))
           (me_id_map (sl_meta l)) (sl_world l)" by (simp add: l encode_static_def)
qed

lemma failure_sound: "session_sound n d \<Longrightarrow> session_sound (Suc n) (emit_sim (load_failure_message env e) d)"
  unfolding session_sound_def view_defs load_failure_message_def
  using runs_ok_mono [of n _ "Suc n"] by auto

lemma replace_sound:
  assumes "env_ok env" and "session_sound n d"
  shows "session_sound (Suc n) (snd (replace_scene env fs seed scene d))"
proof (cases "load_scene_from_path env fs (sr_path scene) seed")
  case (Inr l)
  note p = loaded_parts [OF assms(1) Inr]
  show ?thesis using p
    by (auto simp: replace_scene_def Inr apply_scene_load_def scene_static_def TICKS_PER_SNAPSHOT_def
        intro!: payloads_sound [of 0])
qed (simp add: replace_scene_def failure_sound assms(2))

lemma active_sound [simp]: "session_sound n (d\<lparr>dr_active_scene := a\<rparr>) = session_sound n d"
  by (simp add: session_sound_def view_defs)

lemma driver_step_sound:
  assumes "env_ok env" and d: "session_sound n d" and fits: "MAX_DEMAND_OUTSTANDING * Suc n < 2 ^ 64"
  shows "session_sound (Suc n) (driver_step env seed x d)"
proof (cases x)
  case Timer
  have "session_sound (Suc n) d" using d by (rule same_session) simp_all
  then show ?thesis using tick_and_emit_sound [OF d fits, of env] by (simp add: Timer)
next
  case (Command fs c)
  show ?thesis
  proof (cases c)
    case (SetSpeedFactor y)
    have "session_sound (Suc n) (with_state (\<lambda>s. s\<lparr>ss_speed_factor := clamp_speed_factor y\<rparr>) d)"
      using d by (rule same_session) (simp_all add: scene_static_def)
    then show ?thesis by (simp add: Command SetSpeedFactor)
  next
    case (SetScene scene)
    then show ?thesis using replace_sound [OF assms(1) d, of fs seed scene]
      by (simp add: Command set_scene_result case_prod_beta Let_def del: handle_command.simps(5))
  next
    case Subscribe
    then show ?thesis using d payloads_sound [of n d "Suc n"]
      by (simp add: Command session_sound_def static_current_def)
  qed (use replace_sound [OF assms(1) d] toggle_sound [OF d] step_sound [OF d fits] in \<open>simp_all add: Command\<close>)
qed

interpretation soundness: session_invariant env seed bound
    "\<lambda>n d. env_ok env \<and> MAX_DEMAND_OUTSTANDING * bound < 2 ^ 64 \<longrightarrow> session_sound n d" for env seed bound
proof
  show "env_ok env \<and> MAX_DEMAND_OUTSTANDING * bound < 2 ^ 64 \<longrightarrow> session_sound 0 d"
    if "load_and_init env fs scene seed = Inr d" for fs scene d
    using that by (auto simp: load_and_init_def loaded_parts scene_static_def TICKS_PER_SNAPSHOT_def
        intro!: payloads_sound [of 0] split: sum.splits)
  show "env_ok env \<and> MAX_DEMAND_OUTSTANDING * bound < 2 ^ 64 \<longrightarrow> session_sound (Suc n) (driver_step env seed x d)"
    if "env_ok env \<and> MAX_DEMAND_OUTSTANDING * bound < 2 ^ 64 \<longrightarrow> session_sound n d" and "n < bound" for n d x
    using that driver_step_sound [of env n d seed x] mult_le_mono2 [of "Suc n" bound MAX_DEMAND_OUTSTANDING]
    by (auto simp: Suc_le_eq)
qed

section \<open>Pausing\<close>

text \<open>What is sent leaves the world, the runner and the flag alone.\<close>

lemma sends_parts:
  fixes d :: "'r driver"
  defines "core \<equiv> (\<lambda>s :: 'r sim_state. (ss_world s, ss_runner s, ss_meta s, ss_paused s, ss_speed_factor s))"
  shows "core (dr_state (send_topology d)) = core (dr_state d)" "core (dr_state (send_events d)) = core (dr_state d)"
    "core (dr_state (send_messages d)) = core (dr_state d)" "core (dr_state (send_snapshot d)) = core (dr_state d)"
    "dr_active_scene (send_topology d) = dr_active_scene d" "dr_active_scene (send_events d) = dr_active_scene d"
    "dr_active_scene (send_messages d) = dr_active_scene d" "dr_active_scene (send_snapshot d) = dr_active_scene d"
proof -
  have "core (dr_state (fold (\<lambda>m. emit_sim (MsgOther m)) ms d)) = core (dr_state d)
      \<and> dr_active_scene (fold (\<lambda>m. emit_sim (MsgOther m)) ms d) = dr_active_scene d" for ms and d :: "'r driver"
    by (induction ms arbitrary: d) (simp_all add: core_def)
  then show "core (dr_state (send_messages d)) = core (dr_state d)" "dr_active_scene (send_messages d) = dr_active_scene d"
    by (simp_all add: send_messages_def)
  show "core (dr_state (send_topology d)) = core (dr_state d)" "core (dr_state (send_events d)) = core (dr_state d)"
    "core (dr_state (send_snapshot d)) = core (dr_state d)"
    "dr_active_scene (send_topology d) = dr_active_scene d" "dr_active_scene (send_events d) = dr_active_scene d"
    "dr_active_scene (send_snapshot d) = dr_active_scene d"
    by (simp_all add: core_def send_topology_def send_events_def send_snapshot_def emit_snapshot_def emit_static_def Let_def)
qed

lemma tick_and_emit_parts:
  assumes "tick_once (de_regex env) (de_row_json env) (ss_runner (dr_state d)) (ss_world (dr_state d)) = Some (r, w, m)"
  shows "ss_world (dr_state (tick_and_emit env d)) = w" "ss_runner (dr_state (tick_and_emit env d)) = r"
    "ss_paused (dr_state (tick_and_emit env d)) = ss_paused (dr_state d)"
    "dr_active_scene (tick_and_emit env d) = dr_active_scene d"
  by (simp_all add: tick_and_emit_def assms sends_parts [simplified])

lemma tick_once_run_state:
  assumes "world_wf w" and "tick_once rx js r w = Some (r', w', m)" and "w_state w \<noteq> RsPaused"
  shows "w_state w' \<noteq> RsPaused"
proof (cases "frozen w")
  case True
  then show ?thesis using assms(2,3) by (simp add: tick_once_frozen)
next
  case False
  obtain hosts st arrivals where e: "early_half rx js r w = (hosts, st, arrivals)" by (metis prod.exhaust)
  from early_half_phase [OF assms(1) e] assms(3) have "w_state (tu_world st) \<noteq> RsPaused"
    by (auto simp: phase_ok_def same_sl1_def begin_tick_def split: if_splits)
  then show ?thesis using assms(2) by (auto simp: tick_once_halves [OF False e] sl1_half_def split: option.splits)
qed

text \<open>The flag of the task and the run state of the world agree.\<close>

definition pause_agrees :: "'r driver \<Rightarrow> bool" where
  "pause_agrees d \<longleftrightarrow> (ss_paused (dr_state d) \<longleftrightarrow> w_state (ss_world (dr_state d)) = RsPaused)"

lemma tick_pause:
  assumes "runs_ok n (ss_world (dr_state d))" and "MAX_DEMAND_OUTSTANDING * Suc n < 2 ^ 64"
    and "pause_agrees d" and "\<not> ss_paused (dr_state d)"
  shows "pause_agrees (tick_and_emit env d)" "\<not> ss_paused (dr_state (tick_and_emit env d))"
proof -
  obtain r w m where t: "tick_once (de_regex env) (de_row_json env) (ss_runner (dr_state d)) (ss_world (dr_state d)) = Some (r, w, m)"
    using runs_ok_tick [OF assms(1,2)] by blast
  from tick_once_run_state [OF _ t] assms show "pause_agrees (tick_and_emit env d)"
    "\<not> ss_paused (dr_state (tick_and_emit env d))"
    by (auto simp: pause_agrees_def tick_and_emit_parts [OF t] runs_ok_def)
qed

lemma step_once_pause:
  assumes "runs_ok n (ss_world (dr_state d))" and "MAX_DEMAND_OUTSTANDING * Suc n < 2 ^ 64" and "pause_agrees d"
  shows "pause_agrees (step_once env d)"
proof -
  let ?d = "with_state (\<lambda>s. resume (s\<lparr>ss_paused := False\<rparr>)) d"
  have "runs_ok n (ss_world (dr_state ?d))" "pause_agrees ?d" "\<not> ss_paused (dr_state ?d)"
    using assms by (auto simp: resume_def set_run_state_def pause_agrees_def)
  from tick_pause [OF this(1) assms(2) this(2,3), of env] show ?thesis
    by (simp add: step_once_def Let_def pause_agrees_def set_run_state_def)
qed

lemma loaded_run_state:
  "load_scene_from_path env fs path seed = Inr l \<Longrightarrow> w_state (sl_world l) = RsLoaded"
  by (auto simp: load_scene_from_path_def build_scene_load_def load_scene_str_def load_simps map_sum_Inr
      validate_scene_file_def build_world_def world_new_def split: sum.splits)

lemma payloads_pause:
  "pause_agrees (emit_snapshot d) = pause_agrees d" "pause_agrees (emit_static d) = pause_agrees d"
  "pause_agrees (emit_sim m d) = pause_agrees d" "pause_agrees (d\<lparr>dr_active_scene := a\<rparr>) = pause_agrees d"
  by (simp_all add: pause_agrees_def)

lemma replace_pause: "pause_agrees d \<Longrightarrow> pause_agrees (snd (replace_scene env fs seed scene d))"
  using loaded_run_state [of env fs "sr_path scene" seed]
  by (auto simp: replace_scene_def payloads_pause apply_scene_load_def pause_agrees_def split: sum.split)

lemma driver_step_pause:
  assumes "runs_ok n (ss_world (dr_state d))" and "MAX_DEMAND_OUTSTANDING * Suc n < 2 ^ 64" and "pause_agrees d"
  shows "pause_agrees (driver_step env seed x d)"
proof (cases x)
  case (Command fs c)
  show ?thesis
  proof (cases c)
    case TogglePause
    then show ?thesis using assms(3)
      by (simp add: Command pause_agrees_def toggle_pause_def resume_def set_run_state_def Let_def)
  next
    case (SetScene scene)
    then show ?thesis using replace_pause [OF assms(3), of env fs seed scene]
      by (simp add: Command set_scene_result case_prod_beta Let_def payloads_pause del: handle_command.simps(5))
  next
    case (SetSpeedFactor y)
    then show ?thesis using assms(3) by (simp add: Command pause_agrees_def)
  qed (use assms step_once_pause [OF assms] replace_pause in \<open>simp_all add: Command payloads_pause\<close>)
qed (use assms tick_pause [OF assms, of env] in simp)

interpretation pausing: session_invariant env seed bound
    "\<lambda>n d. env_ok env \<and> MAX_DEMAND_OUTSTANDING * bound < 2 ^ 64 \<longrightarrow> session_sound n d \<and> pause_agrees d" for env seed bound
proof
  show "env_ok env \<and> MAX_DEMAND_OUTSTANDING * bound < 2 ^ 64 \<longrightarrow> session_sound 0 d \<and> pause_agrees d"
    if i: "load_and_init env fs scene seed = Inr d" for fs scene d
    using soundness.starts [OF i, of bound] i loaded_run_state [of env fs "sr_path scene" seed]
    by (auto simp: load_and_init_def payloads_pause pause_agrees_def split: sum.splits)
  show "env_ok env \<and> MAX_DEMAND_OUTSTANDING * bound < 2 ^ 64
      \<longrightarrow> session_sound (Suc n) (driver_step env seed x d) \<and> pause_agrees (driver_step env seed x d)"
    if "env_ok env \<and> MAX_DEMAND_OUTSTANDING * bound < 2 ^ 64 \<longrightarrow> session_sound n d \<and> pause_agrees d" and "n < bound" for n d x
    using that driver_step_sound [of env n d seed x] driver_step_pause [of n d env seed x]
      mult_le_mono2 [of "Suc n" bound MAX_DEMAND_OUTSTANDING]
    by (auto simp: Suc_le_eq session_sound_def)
qed

section \<open>A failed load leaves no trace but its fault\<close>

text \<open>
  Two drivers that differ in the number of the next envelope and in what was sent before: equal
  inputs change them alike and make them send alike.
\<close>

definition alike :: "wire_message list \<Rightarrow> wire_message list \<Rightarrow> 'r driver \<Rightarrow> 'r driver \<Rightarrow> bool" where
  "alike p q d e \<longleftrightarrow> (\<exists>n. dr_state e = (dr_state d)\<lparr>ss_seq := n\<rparr>)
     \<and> dr_ticks_since_snapshot e = dr_ticks_since_snapshot d \<and> dr_active_scene e = dr_active_scene d
     \<and> (\<exists>ms. map env_payload (dr_sent d) = p @ ms \<and> map env_payload (dr_sent e) = q @ ms)"

lemma alike_emit: "alike p q d e \<Longrightarrow> alike p q (emit_sim m d) (emit_sim m e)"
  by (auto simp: alike_def envelope_new_def)

lemma alike_state:
  assumes "alike p q d e" and "\<And>s n. f (s\<lparr>ss_seq := n\<rparr>) = (f s)\<lparr>ss_seq := n\<rparr>"
  shows "alike p q (with_state f d) (with_state f e)"
  using assms by (auto simp: alike_def)

lemma alike_count:
  assumes "alike p q d e"
  shows "alike p q (d\<lparr>dr_ticks_since_snapshot := n\<rparr>) (e\<lparr>dr_ticks_since_snapshot := n\<rparr>)"
    and "alike p q (d\<lparr>dr_active_scene := a\<rparr>) (e\<lparr>dr_active_scene := a\<rparr>)"
  using assms by (auto simp: alike_def)

lemma alike_parts:
  assumes "alike p q d e"
  shows "ss_world (dr_state e) = ss_world (dr_state d)" "ss_runner (dr_state e) = ss_runner (dr_state d)"
    "ss_last_static (dr_state e) = ss_last_static (dr_state d)"
    "ss_snapshot_buf (dr_state e) = ss_snapshot_buf (dr_state d)" "ss_paused (dr_state e) = ss_paused (dr_state d)"
    "dr_ticks_since_snapshot e = dr_ticks_since_snapshot d" "dr_active_scene e = dr_active_scene d"
  using assms by (auto simp: alike_def)

lemma alike_payloads:
  assumes "alike p q d e"
  shows "alike p q (emit_snapshot d) (emit_snapshot e)" "alike p q (emit_static d) (emit_static e)"
proof -
  let ?f = "\<lambda>s. s\<lparr>ss_snapshot_buf := snd (encode_snapshot (ss_world s) (ss_snapshot_buf s))\<rparr>"
  have "alike p q (with_state ?f d) (with_state ?f e)" using assms by (rule alike_state) simp
  from alike_emit [OF this] show "alike p q (emit_snapshot d) (emit_snapshot e)"
    by (simp add: emit_snapshot_def Let_def alike_parts [OF assms])
  show "alike p q (emit_static d) (emit_static e)"
    using alike_emit [OF assms] by (simp add: emit_static_def alike_parts [OF assms])
qed

lemma alike_messages: "alike p q d e \<Longrightarrow> alike p q (send_messages d) (send_messages e)"
proof -
  have "alike p q d e \<Longrightarrow> alike p q (fold (\<lambda>m. emit_sim (MsgOther m)) ms d) (fold (\<lambda>m. emit_sim (MsgOther m)) ms e)" for ms
    by (induction ms arbitrary: d e) (simp_all add: alike_emit)
  then show "alike p q d e \<Longrightarrow> alike p q (send_messages d) (send_messages e)"
    by (simp add: send_messages_def alike_parts)
qed

lemma alike_sends:
  assumes "alike p q d e"
  shows "alike p q (send_events d) (send_events e)" "alike p q (send_snapshot d) (send_snapshot e)"
    "alike p q (send_topology d) (send_topology e)"
  using assms
  by (simp_all add: send_events_def send_snapshot_def send_topology_def Let_def alike_parts [OF assms]
      alike_emit alike_payloads alike_count alike_state)

lemma alike_tick: "alike p q d e \<Longrightarrow> alike p q (tick_and_emit env d) (tick_and_emit env e)"
  by (auto simp: tick_and_emit_def on_panic_def alike_parts
      intro!: alike_emit alike_sends alike_messages alike_state split: option.split prod.split)

lemma alike_replace:
  assumes "alike p q d e"
  shows "alike p q (snd (replace_scene env fs seed scene d)) (snd (replace_scene env fs seed scene e))"
    and "fst (replace_scene env fs seed scene e) = fst (replace_scene env fs seed scene d)"
  using assms
  by (auto simp: replace_scene_def apply_scene_load_def
      intro!: alike_emit alike_payloads alike_count alike_state split: sum.split)

lemma pause_commutes:
  "resume (s\<lparr>ss_seq := n\<rparr>) = (resume s)\<lparr>ss_seq := n\<rparr>"
  "toggle_pause (s\<lparr>ss_seq := n\<rparr>) = (toggle_pause s)\<lparr>ss_seq := n\<rparr>"
  "resume (s\<lparr>ss_seq := n, ss_paused := b\<rparr>) = (resume (s\<lparr>ss_paused := b\<rparr>))\<lparr>ss_seq := n\<rparr>"
  by (simp_all add: resume_def toggle_pause_def set_run_state_def Let_def)

lemma alike_step:
  assumes "alike p q d e"
  shows "alike p q (driver_step env seed x d) (driver_step env seed x e)"
proof (cases x)
  case (Command fs c)
  note replace = alike_replace [OF assms, of env fs seed]
  have step: "alike p q (step_once env d) (step_once env e)"
    by (auto simp: step_once_def Let_def alike_parts [OF assms] pause_commutes set_run_state_def
        intro!: alike_state alike_tick assms)
  show ?thesis unfolding Command
    using assms replace step
    by (cases c) (auto simp: set_scene_result Let_def case_prod_beta pause_commutes alike_parts [OF assms]
        intro!: alike_state alike_count alike_payloads simp del: handle_command.simps(5))
qed (simp add: alike_parts [OF assms] alike_tick assms)

lemma alike_session: "alike p q d e \<Longrightarrow> alike p q (fold (driver_step env seed) xs d) (fold (driver_step env seed) xs e)"
  by (induction xs arbitrary: d e) (simp_all add: alike_step)

section \<open>The debounced watch\<close>

text \<open>The answers of the watch to a sequence of observations with their instants.\<close>

fun reports :: "(scene_file_observation \<times> nat) list \<Rightarrow> debounced_file_watch \<Rightarrow> bool list" where
  "reports [] w = []"
| "reports ((c, t) # xs) w = fst (observe c t w) # reports xs (snd (observe c t w))"

lemma reports_stable:
  "dw_stable_observation w = c \<Longrightarrow> reports (map (Pair c) ts) w = replicate (length ts) False"
  by (induction ts arbitrary: w) (simp_all add: observe_def)

lemma reports_pending:
  assumes "c \<noteq> dw_stable_observation w" and "dw_pending w = Some \<lparr>pfc_observation = c, pfc_deadline = dl\<rparr>"
  shows "reports (map (Pair c) ts) w = map (\<lambda>_. False) (takeWhile (\<lambda>t. t < dl) ts)
    @ (case dropWhile (\<lambda>t. t < dl) ts of [] \<Rightarrow> [] | t # late \<Rightarrow> True # map (\<lambda>_. False) late)"
proof (induction ts)
  case (Cons t ts)
  show ?case
  proof (cases "t < dl")
    case True
    then have "observe c t w = (False, w)" using assms by (simp add: observe_def)
    with Cons.IH True show ?thesis by simp
  next
    case False
    let ?w = "w\<lparr>dw_stable_observation := c, dw_pending := None\<rparr>"
    have "observe c t w = (True, ?w)" using False assms by (simp add: observe_def)
    with False reports_stable [of ?w c ts] show ?thesis by (simp add: map_replicate_const)
  qed
qed simp

section \<open>A fault does not hold\<close>

text \<open>
  A caught panic marks the world faulted and pauses the task, but a single step followed by a
  toggle, or three toggles, set it running again: pausing overwrites the mark.
\<close>

lemma fault_does_not_hold:
  fixes env :: "('v, 'r) driver_env" and d :: "'r driver" and seed :: u64 and fs :: file_system
  assumes "cmds = [StepOnce, TogglePause] \<or> cmds = [TogglePause, TogglePause, TogglePause]"
  defines "d1 \<equiv> on_panic env d"
  defines "d2 \<equiv> fold (driver_step env seed) (map (Command fs) cmds) d1"
  shows "w_state (ss_world (dr_state d1)) = RsFaulted \<and> ss_paused (dr_state d1)
    \<and> w_state (ss_world (dr_state d2)) = RsRunning \<and> \<not> ss_paused (dr_state d2)"
proof -
  have d1: "w_state (ss_world (dr_state d1)) = RsFaulted" "ss_paused (dr_state d1)"
    by (simp_all add: d1_def on_panic_def split: prod.split)
  have "ss_paused (dr_state (step_once env d1)) \<and> w_state (ss_world (dr_state (step_once env d1))) = RsPaused"
    by (simp add: step_once_def Let_def d1 set_run_state_def)
  then show ?thesis using assms(1) d1
    by (auto simp: d2_def toggle_pause_def resume_def set_run_state_def Let_def)
qed

section \<open>Properties\<close>

definition demo_env :: "(unit, unit) driver_env" where
  "demo_env = \<lparr>de_parse_file = (\<lambda>_. Inr demo_file), de_kind_of = (\<lambda>_. JObject),
     de_from_value = (\<lambda>_. Inr raw_demo), de_llm_live = False, de_from_seed = (\<lambda>_. ()),
     de_regex = no_regex, de_row_json = no_json, de_error_text = (\<lambda>_. []),
     de_unwound = (\<lambda>r w. (OtherPanic, r, w))\<rparr>"

definition demo_ref :: scene_ref where
  "demo_ref = \<lparr>sr_scene_id = ''demo'', sr_path = ''games/demo.json''\<rparr>"

definition good_fs :: file_system where "good_fs = (\<lambda>_. Inr [])"
definition no_fs :: file_system where "no_fs = (\<lambda>_. Inl ''gone'')"

lemma demo_env_ok: "env_ok demo_env"
  using raw_demo_wf by (simp add: env_ok_def demo_env_def)

lemma demo_session:
  obtains d where "driver_loop demo_env 42 demo_ref (Command good_fs Subscribe # xs) = Some d"
proof -
  obtain ls where "load_demo_file = Inr ls" by (rule demo_file_loads)
  then have "\<exists>d. driver_loop demo_env 42 demo_ref (Command good_fs Subscribe # xs) = Some d"
    by (simp add: driver_loop_def load_and_init_def load_scene_from_path_def build_scene_load_def
        load_scene_str_def demo_env_def good_fs_def)
  then show thesis using that by blast
qed

text \<open>
  C38. Whatever the order of timer and commands, the frontend is never out of step with the engine.
  The envelopes are numbered from 0 without a gap, the last static payload sent is the encoding of
  the world as it is now (so every change of the map was announced), the last snapshot sent is at
  most two ticks old, the world is paused exactly when the task is, and the next tick returns, so
  the branch of a caught panic is never taken.
\<close>

theorem frontend_in_step:
  fixes env :: "('v, 'r) driver_env"
  assumes "env_ok env" and "MAX_DEMAND_OUTSTANDING * Suc (length xs) < 2 ^ 64"
    and "driver_loop env seed scene xs = Some d"
  defines "s \<equiv> dr_state d"
  shows "map env_seq (dr_sent d) = map of_nat [0 ..< length (dr_sent d)]
    \<and> shown_static (dr_sent d) = Some (encode_static_parts (me_name (ss_meta s)) (me_theme (ss_meta s))
        (me_id_map (ss_meta s)) (ss_world s))
    \<and> (\<exists>t. shown_tick (dr_sent d) = Some t \<and> t \<le> pw_tick (ss_world s) \<and> unat (pw_tick (ss_world s)) \<le> unat t + 2)
    \<and> (ss_paused s \<longleftrightarrow> w_state (ss_world s) = RsPaused)
    \<and> world_wf (ss_world s)
    \<and> tick_once (de_regex env) (de_row_json env) (ss_runner s) (ss_world s) \<noteq> None"
proof -
  from pausing.session [OF assms(3), of "Suc (length xs)"] assms(1,2)
  obtain n where n: "n \<le> length xs" "session_sound n d" "pause_agrees d" by auto
  from n(2) have runs: "runs_ok n (ss_world s)" and stat: "static_current d" and snap: "snapshot_within 0 d"
    and count: "dr_ticks_since_snapshot d < TICKS_PER_SNAPSHOT" by (simp_all add: session_sound_def s_def)
  have "MAX_DEMAND_OUTSTANDING * Suc n < 2 ^ 64"
    using assms(2) n(1) by (meson Suc_le_mono le_less_trans mult_le_mono2)
  from runs_ok_tick [OF runs this] have tick: "tick_once (de_regex env) (de_row_json env) (ss_runner s) (ss_world s) \<noteq> None"
    by blast
  have "unat (dr_ticks_since_snapshot d) \<le> 2"
    using count by (simp add: TICKS_PER_SNAPSHOT_def word_less_nat_alt)
  with snap have snap: "\<exists>t. shown_tick (dr_sent d) = Some t \<and> t \<le> pw_tick (ss_world s)
      \<and> unat (pw_tick (ss_world s)) \<le> unat t + 2"
    unfolding snapshot_within_def s_def by fastforce
  have "numbered d" using numbering.session [OF assms(3), of "length xs"] by simp
  then show ?thesis using stat snap tick n(3) runs
    by (simp add: numbered_def static_current_def scene_static_def s_def pause_agrees_def runs_ok_def)
qed

theorem frontend_in_step_witness:
  "\<exists>d. driver_loop demo_env 42 demo_ref [Command good_fs Subscribe, Timer, Command no_fs Reload, Timer] = Some d
     \<and> map env_seq (dr_sent d) = map of_nat [0 ..< length (dr_sent d)]"
proof -
  obtain d where d: "driver_loop demo_env 42 demo_ref [Command good_fs Subscribe, Timer, Command no_fs Reload, Timer] = Some d"
    by (rule demo_session)
  have "MAX_DEMAND_OUTSTANDING * Suc (length [Command good_fs Subscribe, Timer, Command no_fs Reload, Timer]) < 2 ^ 64"
    by (simp add: MAX_DEMAND_OUTSTANDING_def)
  from frontend_in_step [OF demo_env_ok this d] d show ?thesis by blast
qed

text \<open>
  C39. A switch or a reload of the scene that fails to read or to load leaves no trace but its one
  fault message: whatever timer and commands follow, the task ends in the state it would have
  ended in, up to the number of the next envelope, and it sends the same messages in the same
  order after the fault. The caller of the switch gets the error.
\<close>

theorem failed_load_leaves_no_trace:
  fixes env :: "('v, 'r) driver_env" and d :: "'r driver" and xs :: "driver_input list"
  assumes "load_scene_from_path env fs (sr_path scene) seed = Inl e"
    and "c = SetScene scene \<or> c = Reload \<and> scene = dr_active_scene d"
  defines "a \<equiv> fold (driver_step env seed) xs (driver_step env seed (Command fs c) d)"
  defines "b \<equiv> fold (driver_step env seed) xs d"
  shows "(\<exists>n. dr_state a = (dr_state b)\<lparr>ss_seq := n\<rparr>)
    \<and> dr_ticks_since_snapshot a = dr_ticks_since_snapshot b \<and> dr_active_scene a = dr_active_scene b
    \<and> (\<exists>ms. map env_payload (dr_sent b) = map env_payload (dr_sent d) @ ms
        \<and> map env_payload (dr_sent a) = map env_payload (dr_sent d) @ load_failure_message env e # ms)
    \<and> (c = SetScene scene \<longrightarrow> fst (handle_command env seed fs c d) = Some (Inl e))"
proof -
  let ?p = "map env_payload (dr_sent d)"
  have step: "driver_step env seed (Command fs c) d = emit_sim (load_failure_message env e) d"
    using assms(1,2) by (auto simp: replace_scene_def)
  have "alike ?p (?p @ [load_failure_message env e]) d (emit_sim (load_failure_message env e) d)"
    by (auto simp: alike_def envelope_new_def)
  from alike_session [OF this, of env seed xs] have "alike ?p (?p @ [load_failure_message env e]) b a"
    unfolding a_def b_def step .
  moreover have "c = SetScene scene \<longrightarrow> fst (handle_command env seed fs c d) = Some (Inl e)"
    using assms(1) by (simp add: replace_scene_def)
  ultimately show ?thesis by (auto simp: alike_def)
qed

theorem failed_load_leaves_no_trace_witness:
  "\<exists>d. driver_loop demo_env 42 demo_ref [Command good_fs Subscribe] = Some d
     \<and> dr_active_scene (driver_step demo_env 42 (Command no_fs Reload) d) = dr_active_scene d
     \<and> map env_payload (dr_sent (driver_step demo_env 42 (Command no_fs Reload) d))
         = map env_payload (dr_sent d) @ [MsgOther (Fault (EngineFault ''cannot read scene: gone''))]"
proof -
  obtain d where d: "driver_loop demo_env 42 demo_ref [Command good_fs Subscribe] = Some d" by (rule demo_session)
  have "load_scene_from_path demo_env no_fs (sr_path (dr_active_scene d)) 42 = Inl (ReadFailure ''gone'')"
    by (simp add: load_scene_from_path_def no_fs_def)
  from failed_load_leaves_no_trace [OF this, of Reload d "[]"] d show ?thesis
    by (auto simp: load_failure_message_def)
qed

text \<open>
  C40. The watch of the scene file reports a change exactly once, and only when it has lasted. While
  the file is observed in a state that is neither the accepted one nor the one waiting already, the
  answer is no until the first look that comes at least the debounce time after the first of these
  looks; that one reports, and no later look at the same state does.
\<close>

theorem debounce_exact:
  assumes "c \<noteq> dw_stable_observation w" and "map_option pfc_observation (dw_pending w) \<noteq> Some c"
  shows "reports (map (Pair c) (t0 # ts)) w
    = False # map (\<lambda>_. False) (takeWhile (\<lambda>t. t < t0 + dw_debounce w) ts)
        @ (case dropWhile (\<lambda>t. t < t0 + dw_debounce w) ts of [] \<Rightarrow> [] | t # late \<Rightarrow> True # map (\<lambda>_. False) late)"
proof -
  let ?w = "w\<lparr>dw_pending := Some \<lparr>pfc_observation = c, pfc_deadline = t0 + dw_debounce w\<rparr>\<rparr>"
  have "observe c t0 w = (False, ?w)" using assms by (auto simp: observe_def split: option.split)
  with reports_pending [of c ?w "t0 + dw_debounce w" ts] assms(1) show ?thesis by simp
qed

theorem debounce_exact_witness:
  "reports (map (Pair Unavailable) [10, 100, 320, 330])
      (watch_new (Present \<lparr>sfs_len = 1, sfs_content_hash = 7\<rparr>) SCENE_WATCH_DEBOUNCE)
    = [False, False, True, False]"
  using debounce_exact [of Unavailable "watch_new (Present \<lparr>sfs_len = 1, sfs_content_hash = 7\<rparr>) SCENE_WATCH_DEBOUNCE"
      10 "[100, 320, 330]"]
  by (simp add: watch_new_def SCENE_WATCH_DEBOUNCE_def)

end
