(* ===== verification/Spec2Isabelle.thy ===== *)
theory Spec2Isabelle
  imports Base Btree Protocol Scene Runtime Demo Pressure Transforms Demand Objectives
    Observability Agents Milestones Sl1_Tick Sl1_Keys Sl1_Properties Lifecycle Production
    Load_Error Load_Raw Load_Base Load_Places Load_Flow Load_Goals Load_Views Validate
    Load_Demo Load_Format Load_Properties Float32 Float_Text World Movers Actions Agent_Host
    Agent_Log Sl1_Buffers Tick Engine Engine_Properties Scene_File Scene_File_Proofs
    Scene_File_Properties Hash_Base Hash_Messages Hash_Scene Hash_Scene_Proofs Hash_World Hash_Proofs
    Hash_Runs Hash_Properties Timeline Agent_Runtime Llm_Agent Wire_Views
    Snapshot Snapshot_Proofs Snapshot_Properties Float64 Policy_Search Policy_Search_Properties
    Driver Driver_Properties
begin

text \<open>
  A model of the core of Simetro, a deterministic tick-based simulation engine in Rust, and
  the properties that make it correct. Paths are relative to the root of the repository.

  The program. \<open>crates/engine\<close> holds the engine. A scene file with a
  \<open>scenario_language_v1\<close> block (SL1) is validated into an immutable \<open>Sl1Scene\<close>; its
  mutable half is \<open>Sl1RuntimeState\<close>. Every tick, \<open>TickRunner::tick_once\<close> (\<open>tick.rs\<close>) counts
  the tick, clears the buffers, runs the mover systems, the hosted agents and the production
  system, and then \<open>sl1_runtime::run\<close>, which calls eight systems in a fixed order: pressure,
  freshness, transforms, demand, objectives, observability, agents, milestones. Replies of
  external agents go through the request lifecycle (\<open>lifecycle.rs\<close>).
  \<open>crates/protocol\<close> holds the wire types. \<open>src-tauri/src/driver.rs\<close> is the task of the desktop
  application that owns a world, ticks it on a timer and on commands, and sends the payloads.

  Conventions. A struct is a record, an enum a datatype, and a field keeps its name with the
  struct's name as a prefix. A \<open>u64\<close> is a \<open>64 word\<close>; \<open>saturating_add\<close> is \<open>sat_add\<close>, and so on
  (\<open>Base\<close>). A \<open>BTreeMap\<close> is its sorted list of entries (\<open>Btree\<close>), whose laws are the locale
  \<open>ordered_map\<close>. \<open>f32\<close> and \<open>f64\<close> values are their bits, and the operations on them are
  computed exactly on the bits, with rounding to nearest even (\<open>Float32\<close>). A string is its
  UTF-8 bytes. A failing \<open>expect\<close> and a remainder by zero are \<open>None\<close>; a \<open>Result\<close> is a sum with the error on the left. The systems thread the
  record \<open>sl1_st\<close>: the runtime and the two buffers they push to.

  The theories.
  \<open>Base\<close>, \<open>Btree\<close>: words, saturation, loops that may panic, sorted maps.
  \<open>Protocol\<close>: events, warnings, faults, actions (\<open>crates/protocol/src/lib.rs\<close>).
  \<open>Scene\<close>, \<open>Runtime\<close>: the SL1 types, \<open>from_scene\<close>, and the contract \<open>sl1_system\<close> that every
  system fulfils: it returns on states of the right shape, only appends to the buffers, and
  keeps the shape. \<open>scene_ok\<close> is what the runtime relies on of a validated scene.
  \<open>Pressure\<close>, \<open>Transforms\<close>, \<open>Demand\<close>, \<open>Objectives\<close>, \<open>Observability\<close>, \<open>Agents\<close>,
  \<open>Milestones\<close>: one system each, from \<open>sl1_pressure.rs\<close>, \<open>sl1_runtime.rs\<close> (two),
  \<open>sl1_objectives.rs\<close>, \<open>sl1_observability.rs\<close>, \<open>sl1_agents.rs\<close>, \<open>sl1_milestones.rs\<close>, with an
  interpretation of \<open>sl1_system\<close>. The accounting of capacity and of output room is proved once
  in the locale \<open>reservation\<close> of \<open>Transforms\<close>.
  \<open>Sl1_Tick\<close>: the pipeline, runs of many ticks, the invariant \<open>sl1_inv\<close> of reachable worlds.
  \<open>Sl1_Keys\<close>: no system removes an entry, so every declaration keeps its state (\<open>rt_complete\<close>).
  \<open>Lifecycle\<close>: the request lifecycle; its rings are the locale \<open>bounded_log\<close>.
  \<open>Production\<close>: \<open>systems/production.rs\<close>.
  \<open>Load_Error\<close>, \<open>Load_Raw\<close>: the error enumeration and the input structs of the scene
  validator; \<open>Load_Base\<close>: results, strings, floats and the loop every section goes through;
  \<open>Load_Places\<close>, \<open>Load_Flow\<close>, \<open>Load_Goals\<close>, \<open>Load_Views\<close>: the validators of the sections;
  \<open>Validate\<close>: \<open>validate\<close>, \<open>load_value\<close>, \<open>load_str\<close> of \<open>scenario_language_v1.rs\<close>, and the proof
  that acceptance gives \<open>scene_ok\<close> and \<open>refs_ok\<close>; \<open>Load_Format\<close>: the text formats;
  \<open>Load_Properties\<close>: the properties of the validator.
  \<open>Float32\<close>, \<open>Float_Text\<close>: the arithmetic of \<open>f32\<close> and its decimal texts.
  \<open>World\<close>: \<open>world.rs\<close>, \<open>components.rs\<close>; \<open>world_wf\<close> says that every reference resolves, and the
  relation \<open>mover_step\<close> what a mover may do.
  \<open>Movers\<close>: the systems that spawn, move and route (\<open>systems/\<close>), with their common contract, the
  locale \<open>mover_system\<close>.
  \<open>Actions\<close>: \<open>actions.rs\<close>; the contract of every action is the locale \<open>world_action\<close>.
  \<open>Agent_Host\<close>: hosted agents (\<open>agent/\<close>), the boundary that turns their panics into values, and
  the messages of \<open>events.rs\<close>. \<open>Agent_Log\<close>: \<open>agent_log.rs\<close> and \<open>redactor.rs\<close>.
  \<open>Sl1_Buffers\<close>: the SL1 systems do not read what their buffers already hold.
  \<open>Tick\<close>: \<open>tick.rs\<close>. \<open>Engine\<close>: what a whole tick keeps, and runs of many ticks;
  \<open>Engine_Properties\<close>: their properties.
  \<open>Scene_File\<close>: the scene loader \<open>loader.rs\<close>; \<open>Scene_File_Proofs\<close>: a world that was built
  holds what the file declares and is well formed; \<open>Scene_File_Properties\<close>: its properties.
  \<open>Hash_Base\<close>, \<open>Hash_Messages\<close>, \<open>Hash_Scene\<close>, \<open>Hash_World\<close>: \<open>state_hash.rs\<close>, as the bytes it
  feeds to the digest; encodings that can be read back are the locale \<open>code\<close>.
  \<open>Hash_Scene_Proofs\<close>, \<open>Hash_Proofs\<close>, \<open>Hash_Runs\<close>: what the bytes of a scene, a world and a run
  determine; \<open>Hash_Properties\<close>: the properties of the hash.
  \<open>Timeline\<close>: the ledger of decisions (\<open>crates/protocol/src/decision_timeline.rs\<close>), a bounded
  window of small state machines; the contract of its operations is the locale \<open>entry_op\<close>.
  \<open>Agent_Runtime\<close>: \<open>agent_runtime.rs\<close>, which drives the lifecycle and the ledger together, and
  the proof that they agree (\<open>rn_sync\<close>). \<open>Llm_Agent\<close>: \<open>llm_agent.rs\<close>, the agent that queues
  requests there.
  \<open>Wire_Views\<close>: the render views of \<open>crates/protocol/src/lib.rs\<close>. \<open>Snapshot\<close>: the encoders of
  \<open>snapshot.rs\<close>; \<open>Snapshot_Proofs\<close>: each view determines what it shows (the collection
  \<open>view_eq\<close>); \<open>Snapshot_Properties\<close>: the properties of the payloads.
  \<open>Float64\<close>: the arithmetic of \<open>f64\<close>. \<open>Policy_Search\<close>: \<open>crates/headless/src/policy_search.rs\<close>, which
  runs the loader and the engine once per policy; \<open>Policy_Search_Properties\<close>: its properties.
  \<open>Driver\<close>: the desktop driver with its loading, commands, messages and file watch;
  \<open>Driver_Properties\<close>: what its sessions keep, stated as interpretations of the locale
  \<open>session_invariant\<close> (the numbers of the envelopes, what the frontend was told last, pausing).
  \<open>Demo\<close>, \<open>Load_Demo\<close>: a scene, and the input that loads as it, for the witnesses.
  \<open>Sl1_Properties\<close>: properties of single systems. This theory: properties of whole SL1 runs.

  Parameters. The JSON parser and the derived deserialisers are parameters of \<open>load_str\<close> and
  \<open>load_value\<close>; \<open>raw_wf\<close> states what the type \<open>BTreeMap\<close> guarantees of their result. The
  hosted agents are arbitrary functions on a state of their own, and a panic is a value of
  their results. The decision log takes the regular expressions of the crate \<open>regex\<close>, the JSON
  text of a row and the sink as parameters; nothing is assumed of them. The scene loader takes
  the parser of the file, the random generator of a seed and the build feature \<open>llm_live\<close> as
  parameters. The policy search takes the values and the texts of serde_json, the file system
  and what the loader takes as parameters. The desktop driver takes the files at the time of a
  command and what a panic leaves behind as parameters, and its timer and commands as a sequence.
  SHA-256 is a parameter; where it matters it is assumed not to collide on the two streams in
  question.

  Bounds. Runs are bounded by \<open>MAX_DEMAND_OUTSTANDING * n < 2 ^ 64\<close>, about \<open>10 ^ 15\<close> ticks:
  beyond that a demand's sequence numbers could saturate. Loops need no fuel: each is a fold
  over a collection of the scene or structural recursion.

  Not modelled: the parsing of JSON (serde), opening the files of the agent log, the bridge to
  language models (asynchronous I/O), the command lines of the headless runner, the windows,
  scene table and timer of the desktop application, the frontend.
\<close>

section \<open>Runs of the SL1 engine\<close>

text \<open>
  A run of \<open>n\<close> ticks from the loaded scene is \<open>sl1_ticks sc n (sl1_start sc)\<close>. The bound
  on \<open>n\<close> keeps the sequence numbers of demand instances (at most \<open>MAX_DEMAND_OUTSTANDING\<close> new
  ones per tick and demand) within 64 bits.
\<close>

lemma demo_run:
  assumes "MAX_DEMAND_OUTSTANDING * n < 2 ^ 64"
  obtains r where "sl1_ticks demo n (sl1_start demo) = Some (of_nat n, r)"
  using sl1_ticks_inv [OF demo_ok assms] by blast

lemma demo_fits: "MAX_DEMAND_OUTSTANDING * 1000 < 2 ^ 64"
  by (simp add: MAX_DEMAND_OUTSTANDING_def)

text \<open>
  C1. The engine never panics on a scene the loader accepts: every number of ticks returns,
  with the tick counter equal to the number of ticks, and each declared transform, demand,
  agent, objective, failure and victory condition, milestone, metric, dashboard, alert and
  storage slot still has its state. No \<open>expect\<close> fails and no remainder is taken by zero in
  any of the eight systems.
\<close>

theorem sl1_never_panics:
  assumes "raw_wf raw" and "validate raw = Inr sc" and "MAX_DEMAND_OUTSTANDING * n < 2 ^ 64"
  shows "\<exists>r. sl1_ticks sc n (sl1_start sc) = Some (of_nat n, r) \<and> rt_complete sc r"
proof -
  have "scene_ok sc" using assms(1,2) by (rule accepted_scene_ok)
  then show ?thesis using assms(3) by (rule sl1_run_complete)
qed

theorem sl1_never_panics_witness:
  "\<exists>r. sl1_ticks demo 1000 (sl1_start demo) = Some (1000, r) \<and> rt_complete demo r"
  using sl1_never_panics [OF raw_demo_wf raw_demo_accepted demo_fits] by simp

text \<open>
  C12. Capacity accounting is exact: after any number of ticks the capacity in use at a place
  is the sum of the costs of the transforms that are running there, and it is at most the
  declared capacity, whatever pressures, retries and deadlines did on the way.
\<close>

theorem capacity_accounting:
  assumes "scene_ok sc" and "MAX_DEMAND_OUTSTANDING * n < 2 ^ 64"
    and "sl1_ticks sc n (sl1_start sc) = Some (now, r)"
  shows "held_capacity r pk
      = sum_list (map (\<lambda>t. if is_running (bt_get_or TIdle (transforms r) (transform_id t))
                         then capacity_claim t pk else 0) (sc_transforms sc))
    \<and> held_capacity r pk \<le> unat (bt_get2 (place_caps sc) (fst pk) (snd pk))"
  using sl1_ticks_invD(2) [OF assms]
  unfolding sl1_inv_def transforms_inv_def reservations_ok_def booked_def booked_sum_def
    capacity_within_def snd_conv
  by blast

theorem capacity_accounting_witness:
  "\<exists>r. sl1_ticks demo 1000 (sl1_start demo) = Some (1000, r)
     \<and> held_capacity r (''yard'', ''slots'') \<le> 10"
proof -
  obtain r where r: "sl1_ticks demo 1000 (sl1_start demo) = Some (of_nat 1000, r)"
    by (rule demo_run [OF demo_fits])
  have "unat (bt_get2 (place_caps demo) ''yard'' ''slots'') = 10" by code_simp
  with capacity_accounting [OF demo_ok demo_fits r, of "(''yard'', ''slots'')"] r
  show ?thesis by auto
qed

text \<open>
  C13. Storage is never overfull in a scene where no pressure injects and no slot declares the
  capacity \<open>u64::MAX\<close> (\<open>storage_bounded\<close>; at that capacity the saturating room check admits
  everything): what a slot holds together with the room booked for the running transforms
  stays within its capacity.
\<close>

theorem storage_never_overfull:
  assumes "scene_ok sc" and "storage_bounded sc" and "no_injection sc"
    and "MAX_DEMAND_OUTSTANDING * n < 2 ^ 64"
    and "sl1_ticks sc n (sl1_start sc) = Some (now, r)"
  shows "stock r pk + held_output r pk \<le> unat (bt_get_or 0 (storage_caps sc) pk)"
  using sl1_ticks_storage [OF assms] by (cases pk) (simp add: storage_within_def)

theorem storage_never_overfull_witness:
  "\<exists>r. sl1_ticks demo 1000 (sl1_start demo) = Some (1000, r) \<and> stock r (''yard'', ''gas'') \<le> 60"
proof -
  obtain r where r: "sl1_ticks demo 1000 (sl1_start demo) = Some (of_nat 1000, r)"
    by (rule demo_run [OF demo_fits])
  have "storage_bounded demo" by (simp add: storage_bounded_def demo_defs)
  moreover have "no_injection demo" by (simp add: no_injection_def demo_defs)
  moreover have "unat (bt_get_or 0 (storage_caps demo) (''yard'', ''gas'')) = 60" by code_simp
  ultimately have "stock r (''yard'', ''gas'') \<le> 60"
    using storage_never_overfull [OF demo_ok _ _ demo_fits r, of "(''yard'', ''gas'')"] by simp
  with r show ?thesis by auto
qed

text \<open>
  C14. The backlog of every demand is sound after any number of ticks: at most 10000 instances
  wait, none of them past its deadline, in the order of their deadlines, with consecutive
  sequence numbers, and every instance ever spawned is waiting, fulfilled or dropped.
\<close>

theorem demand_backlog_sound:
  assumes "scene_ok sc" and "MAX_DEMAND_OUTSTANDING * n < 2 ^ 64"
    and "sl1_ticks sc n (sl1_start sc) = Some (now, r)"
    and "d \<in> set (sc_demand sc)" and "bt_get (demand r) (demand_id d) = Some drt"
  shows "length (pending drt) \<le> 10000
    \<and> (\<forall>i \<in> set (pending drt). now \<le> di_deadline_tick i)
    \<and> sorted (map di_deadline_tick (pending drt))
    \<and> map (unat \<circ> di_sequence) (pending drt)
        = [unat (next_sequence drt) - length (pending drt) ..< unat (next_sequence drt)]
    \<and> unat (next_sequence drt)
        = unat (fulfilled_count drt) + unat (dropped_count drt) + length (pending drt)"
proof -
  have "demand_inv d now drt"
    using sl1_ticks_invD(1,2) [OF assms(1-3)] assms(4,5) by (auto simp: sl1_inv_def demands_inv_def)
  then show ?thesis
    unfolding demand_inv_def queue_ok_def MAX_DEMAND_OUTSTANDING_def by blast
qed

text \<open>Every declared demand and transform has its entry from the start.\<close>

lemma demo_after_one:
  "map_option (\<lambda>w. bt_has (demand (snd w)) ''feed'') (sl1_ticks demo 1 (sl1_start demo)) = Some True"
  by code_simp

theorem demand_backlog_sound_witness:
  "\<exists>r drt. sl1_ticks demo 1 (sl1_start demo) = Some (1, r)
     \<and> bt_get (demand r) ''feed'' = Some drt \<and> length (pending drt) \<le> 10000"
proof -
  have fits: "MAX_DEMAND_OUTSTANDING * 1 < 2 ^ 64" by (simp add: MAX_DEMAND_OUTSTANDING_def)
  obtain r where r: "sl1_ticks demo 1 (sl1_start demo) = Some (of_nat 1, r)"
    by (rule demo_run [OF fits])
  with demo_after_one obtain drt where drt: "bt_get (demand r) (demand_id demo_demand) = Some drt"
    by (auto simp: bt_has_def demo_demand_def)
  have "demo_demand \<in> set (sc_demand demo)" by (simp add: demo_def)
  from demand_backlog_sound [OF demo_ok fits r this drt] have "length (pending drt) \<le> 10000" by simp
  with r drt show ?thesis by (auto simp: demo_demand_def)
qed

section \<open>Transforms over time\<close>

lemma transform_at_start:
  assumes "scene_ok sc" and "t \<in> set (sc_transforms sc)"
  shows "transform_at sc 0 (transform_id t) = Some TIdle"
proof -
  have "bt_has (transforms (from_scene sc)) (transform_id t)"
    using assms(2) by (auto simp: from_scene_def bt_has_collect image_image)
  then obtain \<sigma> where "bt_get (transforms (from_scene sc)) (transform_id t) = Some \<sigma>"
    by (auto simp: bt_has_Some)
  with get_initial_transforms show ?thesis
    by (fastforce simp: transform_at_def sl1_start_def)
qed

lemma transform_run:
  assumes ok: "scene_ok sc" and t: "t \<in> set (sc_transforms sc)"
    and fits: "MAX_DEMAND_OUTSTANDING * Suc n < 2 ^ 64"
  shows "\<exists>\<sigma>. transform_at sc n (transform_id t) = Some \<sigma> \<and> in_time t (of_nat n) \<sigma>"
  using fits
proof (induction n)
  case 0
  then show ?case using transform_at_start [OF ok t] by auto
next
  case (Suc n)
  then have fits: "MAX_DEMAND_OUTSTANDING * Suc n < 2 ^ 64" by simp
  with Suc.IH obtain \<sigma> where "transform_at sc n (transform_id t) = Some \<sigma>" by auto
  from transform_at_Suc(1) [OF ok fits t this] obtain s0 where
    s: "transform_at sc (Suc n) (transform_id t) = Some (next_state sc (of_nat (Suc n)) t \<sigma> s0)"
    by blast
  have "unat (of_nat (Suc n) :: u64) = Suc n"
    using fits by (simp add: MAX_DEMAND_OUTSTANDING_def unat_of_nat take_bit_nat_eq_self_iff del: of_nat_Suc)
  moreover have "unat (- 1 :: u64) = 2 ^ 64 - 1" using unat_minus_one_eq [where 'a = 64] by simp
  ultimately have "of_nat (Suc n) < (- 1 :: u64)"
    using fits by (simp add: word_less_nat_alt MAX_DEMAND_OUTSTANDING_def del: of_nat_Suc)
  moreover have "0 < transform_duration_ticks t"
    using scene_okD(5) [OF ok t] by (simp add: transform_ok_def)
  ultimately show ?case using s next_state_in_time by blast
qed

text \<open>
  C15. No transform outlives its schedule: after every tick a running transform has neither
  reached its completion tick nor passed its deadline, a starved or blocked one has not
  passed its deadline, and the attempt number is between 1 and the declared maximum.
\<close>

theorem transforms_in_time:
  assumes "scene_ok sc" and "t \<in> set (sc_transforms sc)"
    and "MAX_DEMAND_OUTSTANDING * Suc n < 2 ^ 64"
  shows "\<exists>\<sigma>. transform_at sc n (transform_id t) = Some \<sigma>
    \<and> in_time t (of_nat n) \<sigma> \<and> attempts_ok t \<sigma>"
  using transform_run [OF assms] transform_at_Suc(2) [OF assms(1,3,2)] by blast

theorem transforms_in_time_witness:
  "\<exists>\<sigma>. transform_at demo 999 ''refine'' = Some \<sigma> \<and> attempts_ok demo_transform \<sigma>"
proof -
  have "demo_transform \<in> set (sc_transforms demo)" by (simp add: demo_def)
  moreover have "MAX_DEMAND_OUTSTANDING * Suc 999 < 2 ^ 64" by (simp add: MAX_DEMAND_OUTSTANDING_def)
  ultimately have "\<exists>\<sigma>. transform_at demo 999 (transform_id demo_transform) = Some \<sigma>
      \<and> in_time demo_transform (of_nat 999) \<sigma> \<and> attempts_ok demo_transform \<sigma>"
    by (rule transforms_in_time [OF demo_ok])
  then show ?thesis by (auto simp: demo_transform_def)
qed

text \<open>
  C16. Retrying ends: a transform stays late for fewer consecutive ticks than its maximum number
  of attempts (among any \<open>max_attempts\<close> consecutive ticks is one in which it is not late),
  because it becomes late with its second attempt and every further tick spent late counts as
  one more.
\<close>

theorem late_ends:
  assumes "scene_ok sc" and "MAX_DEMAND_OUTSTANDING * Suc (n + k) < 2 ^ 64"
    and "t \<in> set (sc_transforms sc)" and "unat (transform_max_attempts t) \<le> Suc k"
  shows "\<exists>j \<le> k. \<exists>\<sigma>. transform_at sc (n + j) (transform_id t) = Some \<sigma> \<and> \<not> is_late \<sigma>"
proof (rule ccontr)
  assume none: "\<not> (\<exists>j \<le> k. \<exists>\<sigma>. transform_at sc (n + j) (transform_id t) = Some \<sigma> \<and> \<not> is_late \<sigma>)"
  have "\<exists>\<sigma>. transform_at sc (n + j) (transform_id t) = Some \<sigma> \<and> is_late \<sigma>" if "j \<le> k" for j
  proof -
    have "MAX_DEMAND_OUTSTANDING * Suc (n + j) < 2 ^ 64"
      using assms(2) that by (simp add: MAX_DEMAND_OUTSTANDING_def)
    from transform_run [OF assms(1,3) this] none that show ?thesis by blast
  qed
  from late_run_bounded [OF assms(1-3) this] assms(4) show False by simp
qed

theorem late_ends_witness:
  "\<exists>j \<le> 2. \<exists>\<sigma>. transform_at demo (50 + j) ''refine'' = Some \<sigma> \<and> \<not> is_late \<sigma>"
proof -
  have "demo_transform \<in> set (sc_transforms demo)" by (simp add: demo_def)
  moreover have "unat (transform_max_attempts demo_transform) \<le> Suc 2" by (simp add: demo_transform_def)
  moreover have "MAX_DEMAND_OUTSTANDING * Suc (50 + 2) < 2 ^ 64" by (simp add: MAX_DEMAND_OUTSTANDING_def)
  ultimately have "\<exists>j \<le> 2. \<exists>\<sigma>. transform_at demo (50 + j) (transform_id demo_transform) = Some \<sigma> \<and> \<not> is_late \<sigma>"
    by (intro late_ends [OF demo_ok])
  then show ?thesis by (simp add: demo_transform_def)
qed

section \<open>Latches\<close>

lemma sl1_ticks_keep:
  assumes "sl1_ticks sc k w = Some w'" and "P (snd w)"
    and "\<And>now r t. P r \<Longrightarrow> sl1_run sc now (fresh_st r) = Some t \<Longrightarrow> P (rt t)"
  shows "P (snd w')"
  using assms(1)
proof (induction k arbitrary: w')
  case 0
  with assms(2) show ?case by simp
next
  case (Suc k)
  then obtain w1 where "sl1_ticks sc k w = Some w1" and t: "sl1_tick sc w1 = Some w'"
    by (auto split: Option.bind_splits)
  with Suc.IH have "P (snd w1)" by blast
  with t assms(3) show ?case by (auto simp: sl1_tick_def Let_def)
qed

lemma sl1_run_milestones:
  assumes "sl1_run sc now s = Some t" and "bt_get (milestones (rt s)) k = Some e"
    and "ms_fired_at_tick e \<noteq> None"
  shows "bt_get (milestones (rt t)) k = Some e"
proof -
  obtain s4 s5 s6 s7 :: sl1_st where
    4: "(if sc_demand sc = [] then Some (transformed sc now s)
      else run_demand sc now (transformed sc now s)) = Some s4"
    and 5: "objectives_run sc now s4 = Some s5" and 6: "observability_run sc now s5 = Some s6"
    and 7: "(if sc_agents sc = [] then Some s6 else agents_run sc now s6) = Some s7"
    and 8: "(if sc_milestones sc = [] then Some s7 else milestones_run sc now s7) = Some t"
    by (rule sl1_run_stages [OF assms(1)])
  have "milestones (rt s4) = milestones (rt s)"
    using 4 run_demand_frame(16) by (auto split: if_splits)
  moreover have "milestones (rt s5) = milestones (rt s4)" by (rule objectives_run_frame(13) [OF 5])
  moreover have "milestones (rt s6) = milestones (rt s5)" by (rule observability_run_frame(15) [OF 6])
  moreover have "milestones (rt s7) = milestones (rt s6)"
    using 7 agents_step_frame(16) [OF run_with_factory_step]
    by (auto simp: agents_run_def split: if_splits)
  ultimately have "bt_get (milestones (rt s7)) k = Some e" using assms(2) by simp
  with 8 assms(3) show ?thesis
    using milestones_run_step [of sc now s7 t] by (auto simp: milestones_step_def split: if_splits)
qed

text \<open>
  C17. The outcome of a game is final: once it is won or lost, no number of further ticks
  changes it.
\<close>

theorem outcome_final:
  assumes "is_terminal (outcome (snd w))" and "sl1_ticks sc k w = Some w'"
  shows "outcome (snd w') = outcome (snd w)"
proof (rule sl1_ticks_keep [where P = "\<lambda>r. outcome r = outcome (snd w)", OF assms(2) refl])
  fix now r and t :: sl1_st
  assume "outcome r = outcome (snd w)" "sl1_run sc now (fresh_st r) = Some t"
  with sl1_run_outcome_sticky [of sc now "fresh_st r" t] assms(1)
  show "outcome (rt t) = outcome (snd w)" by (simp add: fresh_st_def)
qed

definition brief :: sl1_scene where
  "brief = demo\<lparr>sc_places := [], sc_things := [], sc_transforms := [], sc_demand := [],
     sc_pressure := [], sc_objectives := [], sc_failure_conditions := [],
     sc_victory_conditions := [\<lparr>vc_id = ''hold'', vc_kind = VSurviveUntil, vc_params = SurviveUntil 2\<rparr>],
     sc_agents := [], sc_observability := None, sc_milestones := []\<rparr>"

theorem outcome_final_witness:
  "\<exists>w w'. sl1_ticks brief 2 (sl1_start brief) = Some w \<and> sl1_ticks brief 3 w = Some w'
     \<and> outcome (snd w') = Won"
proof -
  let ?w = "the (sl1_ticks brief 2 (sl1_start brief))"
  have w: "sl1_ticks brief 2 (sl1_start brief) = Some ?w" and won: "outcome (snd ?w) = Won"
    and w': "sl1_ticks brief 3 ?w = Some (the (sl1_ticks brief 3 ?w))" by code_simp+
  have "is_terminal (outcome (snd ?w))" using won by simp
  from outcome_final [OF this w'] won w w' show ?thesis by metis
qed

text \<open>
  The phase shown to the player agrees with the outcome in every reachable world: won or
  lost exactly when the outcome is.
\<close>

lemma phase_matches_outcome:
  assumes "sl1_reach sc w"
  shows "(phase (snd w) = PhWon \<longleftrightarrow> outcome (snd w) = Won)
    \<and> (phase (snd w) = PhLost \<longleftrightarrow> (\<exists>reason. outcome (snd w) = Lost reason))"
proof -
  obtain k where k: "sl1_ticks sc k (sl1_start sc) = Some w"
    using assms by (auto simp: sl1_reach_ticks)
  have "phase_agrees (snd w)"
  proof (rule sl1_ticks_keep [OF k])
    show "phase_agrees (snd (sl1_start sc))"
      by (simp add: sl1_start_def from_scene_def phase_agrees_def)
    fix now r and t :: sl1_st
    assume "phase_agrees r" "sl1_run sc now (fresh_st r) = Some t"
    with sl1_run_phase [of sc now "fresh_st r" t] show "phase_agrees (rt t)"
      by (simp add: fresh_st_def)
  qed
  then show ?thesis by (cases "outcome (snd w)") (auto simp: phase_agrees_def)
qed

lemma phase_matches_outcome_witness:
  "\<exists>w. sl1_reach demo w \<and> fst w = 1000 \<and> (phase (snd w) = PhWon \<longleftrightarrow> outcome (snd w) = Won)"
proof -
  obtain r where "sl1_ticks demo 1000 (sl1_start demo) = Some (of_nat 1000, r)"
    by (rule demo_run [OF demo_fits])
  then have "sl1_reach demo (of_nat 1000, r)" by (auto simp: sl1_reach_ticks)
  with phase_matches_outcome [OF this] show ?thesis
    by (intro exI [of _ "(of_nat 1000, r)"]) simp
qed

text \<open>
  A milestone fires at most once in a game: once it has fired, its entry never changes
  again, whatever its trigger does.
\<close>

lemma milestone_fires_once:
  assumes "bt_get (milestones (snd w)) k = Some e" and "ms_fired_at_tick e \<noteq> None"
    and "sl1_ticks sc n w = Some w'"
  shows "bt_get (milestones (snd w')) k = Some e"
proof (rule sl1_ticks_keep [where P = "\<lambda>r. bt_get (milestones r) k = Some e", OF assms(3,1)])
  fix now r and t :: sl1_st
  assume "bt_get (milestones r) k = Some e" "sl1_run sc now (fresh_st r) = Some t"
  with sl1_run_milestones [of sc now "fresh_st r" t k e] assms(2)
  show "bt_get (milestones (rt t)) k = Some e" by (simp add: fresh_st_def)
qed

lemma milestone_fires_once_witness:
  "bt_get (milestones (snd (the (sl1_ticks (brief\<lparr>sc_milestones := [demo_milestone]\<rparr>) 3
      (9, (from_scene brief)\<lparr>milestones := [(''after_surge'', \<lparr>ms_fired_at_tick = Some 8, ms_armed = True\<rparr>)]\<rparr>)))))
    ''after_surge'' = Some \<lparr>ms_fired_at_tick = Some 8, ms_armed = True\<rparr>"
proof -
  let ?w = "(9, (from_scene brief)\<lparr>milestones := [(''after_surge'', \<lparr>ms_fired_at_tick = Some 8, ms_armed = True\<rparr>)]\<rparr>) :: sl1_world"
  let ?sc = "brief\<lparr>sc_milestones := [demo_milestone]\<rparr>"
  have "sl1_ticks ?sc 3 ?w = Some (the (sl1_ticks ?sc 3 ?w))" by code_simp
  from milestone_fires_once [OF _ _ this, of "''after_surge''"
      "\<lparr>ms_fired_at_tick = Some 8, ms_armed = True\<rparr>"]
  show ?thesis by simp
qed

section \<open>Pressure over time\<close>

lemma run_pressure_stage:
  assumes "scene_ok sc" and "MAX_DEMAND_OUTSTANDING * Suc n < 2 ^ 64"
    and "sl1_ticks sc (Suc n) (sl1_start sc) = Some (now, r)"
  obtains r0 where "active_declared sc now r0"
    and "pressure r = pressure (rt (pressure_run sc now (fresh_st r0)))"
proof -
  have fits: "MAX_DEMAND_OUTSTANDING * n < 2 ^ 64" using assms(2) by simp
  obtain now0 r0 and t :: sl1_st where t: "sl1_ticks sc n (sl1_start sc) = Some (now0, r0)"
    "now = sat_add now0 1" "sl1_run sc now (fresh_st r0) = Some t" "r = rt t"
    by (rule sl1_ticks_Suc [OF assms(3)])
  have "active_declared sc (of_nat n) r0" "now0 = of_nat n"
    using sl1_ticks_invD(1,2) [OF assms(1) fits t(1)] by (simp_all add: sl1_inv_def)
  then have "active_declared sc now r0"
    unfolding t(2) by (metis active_declared_mono le_sat_add)
  moreover obtain s4 s5 :: sl1_st where "pressure (rt t) = pressure (rt (pressure_run sc now (fresh_st r0)))"
    by (rule sl1_run_results [OF t(3)])
  ultimately show ?thesis using t(4) that by blast
qed

text \<open>
  The pressures active after tick \<open>n\<close> are those whose window contains \<open>n\<close>, and the
  overlays the other systems read are those of the open windows: the spawn count of a demand
  is one plus the sum of the open growths, and the quota cut of a bucket is the sum of the
  open reductions, at most 100 percent.
\<close>

lemma pressure_follows_windows:
  assumes "scene_ok sc" and "MAX_DEMAND_OUTSTANDING * Suc n < 2 ^ 64"
    and "sl1_ticks sc (Suc n) (sl1_start sc) = Some (now, r)" and "sc_pressure sc \<noteq> []"
  shows "{k. bt_has (pr_active (pressure r)) k}
      = pressure_id ` {p \<in> set (sc_pressure sc). pressure_at_tick p \<le> now \<and> now < end_tick p}
    \<and> unat (effective_spawn_count (pressure r) dem) = min (1 + open_growth sc now dem) (2 ^ 32 - 1)
    \<and> unat (bt_get_or 0 (pr_quota_reduction (pressure r)) key) = min (open_reduction sc now key) 100"
proof -
  obtain r0 where decl: "active_declared sc now (rt (fresh_st r0))"
    and p: "pressure r = pressure (rt (pressure_run sc now (fresh_st r0)))"
    using run_pressure_stage [OF assms(1-3)] by (auto simp: fresh_st_def)
  note dist = scene_okD(8) [OF assms(1)]
  show ?thesis unfolding p
    using pressure_run_active_iff [OF dist decl]
      pressure_run_growth [OF dist decl assms(4)] pressure_run_reduction [OF dist decl assms(4)]
    by (auto simp: in_window_def image_iff)
qed

lemma pressure_follows_windows_witness:
  "\<exists>r. sl1_ticks demo 3 (sl1_start demo) = Some (3, r)
     \<and> unat (effective_spawn_count (pressure r) ''feed'') = 3
     \<and> unat (bt_get_or 0 (pr_quota_reduction (pressure r)) (''yard'', ''slots'')) = 50"
proof -
  have fits: "MAX_DEMAND_OUTSTANDING * Suc 2 < 2 ^ 64" by (simp add: MAX_DEMAND_OUTSTANDING_def)
  obtain r where "sl1_ticks demo (Suc 2) (sl1_start demo) = Some (of_nat (Suc 2), r)"
    by (rule demo_run [OF fits])
  then have r: "sl1_ticks demo (Suc 2) (sl1_start demo) = Some (3, r)" by simp
  have ne: "sc_pressure demo \<noteq> []" by (simp add: demo_def)
  have "open_growth demo 3 ''feed'' = 2" "open_reduction demo 3 (''yard'', ''slots'') = 50" by code_simp+
  with pressure_follows_windows [OF demo_ok fits r ne, of "''feed''" "(''yard'', ''slots'')"] r
  show ?thesis by (intro exI [of _ r]) (simp add: numeral_3_eq_3)
qed

definition rain :: sl1_pressure where
  "rain = \<lparr>pressure_id = ''rain'', pressure_kind = KSourceMultiplier, pressure_at_tick = 3,
     pressure_duration_ticks = 1, pressure_target = ''yard'',
     pressure_params = SourceMultiplier ''gas'' 60000\<rparr>"

definition flooded :: sl1_scene where
  "flooded = demo\<lparr>sc_demand := [], sc_pressure := [rain], sc_objectives := [],
     sc_failure_conditions := [], sc_victory_conditions := [], sc_agents := [],
     sc_observability := None, sc_milestones := []\<rparr>"

text \<open>
  The hypothesis on injections above cannot be dropped: a source multiplier fills the slot without regard to the room booked for a running transform, so the completion of that
  transform lifts the stock above the declared capacity (80 in a slot of 60).
\<close>

lemma injection_overfills_storage:
  "scene_ok flooded \<and> storage_bounded flooded
   \<and> map_option (\<lambda>w. stock (snd w) (''yard'', ''gas'')) (sl1_ticks flooded 3 (sl1_start flooded)) = Some 80
   \<and> bt_get_or 0 (storage_caps flooded) (''yard'', ''gas'') = 60"
proof (intro conjI)
  show "scene_ok flooded"
    using demo_ok
    by (simp add: scene_ok_def flooded_def demo_defs rain_def pressure_ok_def MAX_PRESSURE_TICKS_def
        transform_ok_def)
  show "storage_bounded flooded" by (simp add: storage_bounded_def flooded_def demo_defs)
qed code_simp+

end
